(* ===== verification/Prelude.thy ===== *)
theory Prelude
  imports Complex_Main "HOL-Library.Word" "HOL-Library.AList"
begin

text \<open>
  Shared vocabulary of the development: JavaScript strings as lists of UTF-16 code
  units, JavaScript \<open>Map\<close> objects as insertion-ordered association lists, results of
  code that throws, and the generic facts on lists, maps and sorting that the components
  use. Nothing here models a file of the repository by itself.
\<close>

named_theorems live_defs \<open>definitions unfolded by the component proofs\<close>
named_theorems live_frame \<open>fields an operation leaves unchanged\<close>

section \<open>Strings\<close>

text \<open>
  A JavaScript string is a sequence of 16-bit code units. \<open>js\<close> embeds the ASCII literals
  of the source; it is injective, so literals compare as Isabelle strings.
\<close>

type_synonym jsstring = "16 word list"

definition js :: "string \<Rightarrow> jsstring" where
  "js s = map of_char s"

lemma of_char_word16_inject [simp]:
  "(of_char c :: 16 word) = of_char d \<longleftrightarrow> c = d"
proof
  assume eq: "(of_char c :: 16 word) = of_char d"
  have lt: "(of_char x :: nat) < 2 ^ 16" for x
    by (cases x) (auto simp: of_bool_def)
  from eq have "(of_nat (of_char c) :: 16 word) = of_nat (of_char d)"
    by (simp add: of_nat_of_char)
  then have "unat (of_nat (of_char c) :: 16 word) = unat (of_nat (of_char d) :: 16 word)"
    by simp
  with lt [of c] lt [of d] have "(of_char c :: nat) = of_char d"
    by (simp add: unat_of_nat take_bit_eq_mod)
  then show "c = d" by simp
qed simp

lemma js_inject [simp]: "js a = js b \<longleftrightarrow> a = b"
proof -
  have "inj (of_char :: char \<Rightarrow> 16 word)" by (rule injI) simp
  then show ?thesis by (simp add: js_def inj_map_eq_map)
qed

lemma js_Nil [simp]: "js [] = []" and js_append: "js (a @ b) = js a @ js b"
  and length_js [simp]: "length (js a) = length a"
  by (simp_all add: js_def)

lemma js_eq_Nil [simp]: "js a = [] \<longleftrightarrow> a = []" "[] = js a \<longleftrightarrow> a = []"
  by (auto simp: js_def)

section \<open>Code that throws\<close>

text \<open>A result is \<open>Inl e\<close> when the source throws \<open>e\<close> and \<open>Inr v\<close> when it returns \<open>v\<close>.\<close>

type_synonym ('e, 'a) result = "'e + 'a"

definition bind_result :: "('e, 'a) result \<Rightarrow> ('a \<Rightarrow> ('e, 'b) result) \<Rightarrow> ('e, 'b) result" where
  "bind_result r f = (case r of Inl e \<Rightarrow> Inl e | Inr v \<Rightarrow> f v)"

lemma bind_result_simps [simp]:
  "bind_result (Inl e) f = Inl e" "bind_result (Inr v) f = f v"
  by (simp_all add: bind_result_def)

lemma bind_result_Inr_iff:
  "bind_result r f = Inr b \<longleftrightarrow> (\<exists>a. r = Inr a \<and> f a = Inr b)"
  by (cases r) auto

section \<open>JavaScript maps\<close>

text \<open>
  A \<open>Map\<close> iterates in insertion order; \<open>set\<close> on a present key keeps its place. \<open>AList.update\<close>
  and \<open>AList.delete\<close> are these operations. \<open>map_new\<close> is \<open>new Map(entries)\<close>: a later entry
  for a key overwrites an earlier one.
\<close>

type_synonym ('k, 'v) jsmap = "('k \<times> 'v) list"

abbreviation map_get :: "('k, 'v) jsmap \<Rightarrow> 'k \<Rightarrow> 'v option" where
  "map_get \<equiv> map_of"

definition map_new :: "('k \<times> 'v) list \<Rightarrow> ('k, 'v) jsmap" where
  "map_new es = foldl (\<lambda>m (k, v). AList.update k v m) [] es"

lemma map_get_foldl_update:
  "map_of (foldl (\<lambda>m (k, v). AList.update k v m) m es) = map_of m ++ map_of (rev es)"
proof (induction es arbitrary: m)
  case Nil
  then show ?case by simp
next
  case (Cons e es)
  obtain k v where e: "e = (k, v)" by (cases e)
  show ?case
    by (simp add: e Cons.IH AList.update_conv' fun_upd_def map_add_def fun_eq_iff split: option.splits)
qed

lemma map_get_map_new: "map_get (map_new es) = map_of (rev es)"
  by (simp add: map_new_def map_get_foldl_update)

lemma map_of_rev_distinct:
  "distinct (map fst es) \<Longrightarrow> map_of (rev es) = map_of es"
  by (rule map_of_inject_set [THEN iffD2]) (simp_all add: rev_map [symmetric])

lemma map_get_map_new_distinct:
  "distinct (map fst es) \<Longrightarrow> map_get (map_new es) = map_of es"
  by (simp add: map_get_map_new map_of_rev_distinct)

lemma map_get_map_new_None_iff: "map_get (map_new es) k = None \<longleftrightarrow> k \<notin> fst ` set es"
  by (simp add: map_get_map_new map_of_eq_None_iff)

lemma distinct_keys_foldl_update:
  "distinct (map fst m) \<Longrightarrow> distinct (map fst (foldl (\<lambda>m (k, v). AList.update k v m) m es))"
  by (induction es arbitrary: m) (auto simp: AList.distinct_update)

lemma distinct_keys_map_new: "distinct (map fst (map_new es))"
  by (simp add: map_new_def distinct_keys_foldl_update)

lemma keys_update: "fst ` set (AList.update k v m) = insert k (fst ` set m)"
  by (simp add: AList.dom_update)

lemma keys_delete: "fst ` set (AList.delete k m) = fst ` set m - {k}"
  by (auto simp: AList.delete_eq image_iff)

lemma keys_map_new: "fst ` set (map_new es) = fst ` set es"
  using map_get_map_new_None_iff [of es] by (auto simp: map_of_eq_None_iff)

section \<open>Lists\<close>

text \<open>\<open>Array.prototype.find\<close>, \<open>indexOf\<close> (None for \<open>-1\<close>) and \<open>splice(i, 0, x)\<close>.\<close>

fun index_of :: "'a \<Rightarrow> 'a list \<Rightarrow> nat option" where
  "index_of x [] = None"
| "index_of x (y # ys) = (if x = y then Some 0 else map_option Suc (index_of x ys))"

definition splice_in :: "nat \<Rightarrow> 'a \<Rightarrow> 'a list \<Rightarrow> 'a list" where
  "splice_in i x xs = take i xs @ x # drop i xs"

lemma index_of_None [simp]: "index_of x xs = None \<longleftrightarrow> x \<notin> set xs"
  by (induction xs) auto

lemma index_of_SomeD:
  "index_of x xs = Some i \<Longrightarrow> i < length xs \<and> xs ! i = x \<and> x \<notin> set (take i xs)"
  by (induction xs arbitrary: i) (auto split: if_splits)

lemma set_splice_in [simp]: "set (splice_in i x xs) = insert x (set xs)"
  by (simp add: splice_in_def) (metis append_take_drop_id set_append)

lemma length_splice_in [simp]: "length (splice_in i x xs) = Suc (length xs)"
  by (simp add: splice_in_def)

lemma distinct_splice_in [simp]:
  "distinct (splice_in i x xs) \<longleftrightarrow> x \<notin> set xs \<and> distinct xs"
proof -
  have "distinct (splice_in i x xs) \<longleftrightarrow> distinct (x # take i xs @ drop i xs)"
    by (auto simp: splice_in_def simp del: append_take_drop_id)
  then show ?thesis by simp
qed

lemma find_Some_set: "List.find P xs = Some x \<Longrightarrow> x \<in> set xs \<and> P x"
  by (auto simp: find_Some_iff)

text \<open>A run in which each element stands in the relation \<open>R\<close> to the one before it.\<close>

fun chain :: "('a \<Rightarrow> 'a \<Rightarrow> bool) \<Rightarrow> 'a \<Rightarrow> 'a list \<Rightarrow> bool" where
  "chain R a [] = True"
| "chain R a (b # bs) = (R a b \<and> chain R b bs)"

text \<open>\<open>sort\<close> with a numeric comparator is stable; so is \<open>sort_key\<close>.\<close>

lemma sort_key_filter_stable:
  "filter (\<lambda>x. f x = k) (sort_key f xs) = filter (\<lambda>x. f x = k) xs"
  by (rule sort_key_stable)

end
