(* ===== verification/Js_Values.thy ===== *)
theory Js_Values
  imports Prelude
begin

text \<open>
  What the TypeScript sources use of the language and its standard library: untyped values
  (\<open>unknown\<close>, as produced by \<open>JSON.parse\<close>), property reads and the \<open>in\<close> operator,
  \<open>Number.isSafeInteger\<close>, \<open>TextEncoder\<close>, \<open>String.prototype.trim\<close> and a few string
  searches. Finite numbers are rationals, of which the doubles are a subset; the sources
  use integers that doubles represent exactly.
\<close>

section \<open>Values\<close>

datatype jsnum = JFinite rat | JInfinite bool | JNaN

datatype jsval =
    JUndefined
  | JNull
  | JBool bool
  | JNum jsnum
  | JStr jsstring
  | JArr "jsval list"
  | JObj "(jsstring \<times> jsval) list"

abbreviation JInt :: "int \<Rightarrow> jsval" where
  "JInt n \<equiv> JNum (JFinite (of_int n))"

text \<open>
  \<open>prop_of v k\<close> is \<open>v[k]\<close> for a value \<open>v\<close> that is an object or an array, \<open>has_prop v k\<close> is
  \<open>k in v\<close>. The sources read by name only; no name they read is an own property of an array
  or is inherited from a built-in prototype.
\<close>

definition prop_of :: "jsval \<Rightarrow> jsstring \<Rightarrow> jsval" where
  "prop_of v k = (case v of
     JObj ps \<Rightarrow> (case map_of ps k of None \<Rightarrow> JUndefined | Some x \<Rightarrow> x)
   | _ \<Rightarrow> JUndefined)"

definition has_prop :: "jsval \<Rightarrow> jsstring \<Rightarrow> bool" where
  "has_prop v k = (case v of JObj ps \<Rightarrow> map_of ps k \<noteq> None | _ \<Rightarrow> False)"

text \<open>\<open>typeof v === "object" \<and> v !== null\<close> holds of arrays too.\<close>

definition is_object :: "jsval \<Rightarrow> bool" where
  "is_object v = (case v of JArr _ \<Rightarrow> True | JObj _ \<Rightarrow> True | _ \<Rightarrow> False)"

definition is_string :: "jsval \<Rightarrow> bool" where
  "is_string v = (case v of JStr _ \<Rightarrow> True | _ \<Rightarrow> False)"

definition is_boolean :: "jsval \<Rightarrow> bool" where
  "is_boolean v = (case v of JBool _ \<Rightarrow> True | _ \<Rightarrow> False)"

text \<open>The value of a narrowed \<open>unknown\<close>; used only after the corresponding test.\<close>

definition the_string :: "jsval \<Rightarrow> jsstring" where
  "the_string v = (case v of JStr s \<Rightarrow> s | _ \<Rightarrow> [])"

definition the_bool :: "jsval \<Rightarrow> bool" where
  "the_bool v = (case v of JBool b \<Rightarrow> b | _ \<Rightarrow> False)"

definition as_array :: "jsval \<Rightarrow> jsval list option" where
  "as_array v = (case v of JArr xs \<Rightarrow> Some xs | _ \<Rightarrow> None)"

definition string_prop :: "jsval \<Rightarrow> string \<Rightarrow> jsstring" where
  "string_prop v k = the_string (prop_of v (js k))"

lemma is_string_iff: "is_string v \<longleftrightarrow> (\<exists>s. v = JStr s)"
  by (cases v) (auto simp: is_string_def)

lemma is_boolean_iff: "is_boolean v \<longleftrightarrow> (\<exists>b. v = JBool b)"
  by (cases v) (auto simp: is_boolean_def)

lemma is_object_simps [simp]:
  "is_object (JObj ps)" "is_object (JArr xs)" "\<not> is_object JNull" "\<not> is_object JUndefined"
  "\<not> is_object (JStr s)" "\<not> is_object (JBool b)" "\<not> is_object (JNum n)"
  by (simp_all add: is_object_def)

lemma value_tests [simp]:
  "is_string (JStr s)" "the_string (JStr s) = s" "\<not> is_string JUndefined" "\<not> is_string JNull"
  "\<not> is_string (JNum n)" "\<not> is_string (JBool b)" "\<not> is_string (JArr xs)" "\<not> is_string (JObj ps)"
  "is_boolean (JBool b)" "the_bool (JBool b) = b" "\<not> is_boolean JUndefined" "\<not> is_boolean JNull"
  "\<not> is_boolean (JNum n)" "\<not> is_boolean (JStr s)" "\<not> is_boolean (JArr xs)" "\<not> is_boolean (JObj ps)"
  "as_array (JArr xs) = Some xs" "as_array JUndefined = None" "as_array JNull = None"
  "as_array (JObj ps) = None" "as_array (JStr s) = None" "as_array (JNum n) = None"
  "as_array (JBool b) = None"
  by (simp_all add: is_string_def the_string_def is_boolean_def the_bool_def as_array_def)

lemma as_array_Some_iff [simp]: "as_array v = Some xs \<longleftrightarrow> v = JArr xs"
  by (cases v) (auto simp: as_array_def)

lemma prop_JObj [simp]:
  "prop_of (JObj ps) k = (case map_of ps k of None \<Rightarrow> JUndefined | Some x \<Rightarrow> x)"
  "has_prop (JObj ps) k \<longleftrightarrow> map_of ps k \<noteq> None"
  by (simp_all add: prop_of_def has_prop_def)

lemma prop_nonobject [simp]:
  "prop_of JUndefined k = JUndefined" "prop_of JNull k = JUndefined" "prop_of (JArr xs) k = JUndefined"
  "prop_of (JStr s) k = JUndefined" "prop_of (JNum n) k = JUndefined" "prop_of (JBool b) k = JUndefined"
  by (simp_all add: prop_of_def)

lemma has_prop_if_prop: "prop_of v k \<noteq> JUndefined \<Longrightarrow> has_prop v k"
  by (cases v) (auto split: option.splits)

section \<open>Numbers\<close>

definition max_safe_integer :: int where
  "max_safe_integer = 2 ^ 53 - 1"

definition is_safe_integer :: "jsnum \<Rightarrow> bool" where
  "is_safe_integer n = (case n of
     JFinite q \<Rightarrow> of_int \<lfloor>q\<rfloor> = q \<and> \<bar>\<lfloor>q\<rfloor>\<bar> \<le> max_safe_integer
   | _ \<Rightarrow> False)"

text \<open>The \<open>nonnegativeInteger\<close> guards: the integer when the value is one, else None.\<close>

definition nonneg_integer :: "jsval \<Rightarrow> int option" where
  "nonneg_integer v = (case v of
     JNum (JFinite q) \<Rightarrow> (if is_safe_integer (JFinite q) \<and> 0 \<le> q then Some \<lfloor>q\<rfloor> else None)
   | _ \<Rightarrow> None)"

definition safe_nat :: "int \<Rightarrow> bool" where
  "safe_nat n \<longleftrightarrow> 0 \<le> n \<and> n \<le> max_safe_integer"

lemma nonneg_integer_SomeD:
  "nonneg_integer v = Some n \<Longrightarrow> v = JInt n \<and> safe_nat n"
  by (cases v)
    (auto simp: nonneg_integer_def is_safe_integer_def safe_nat_def split: jsnum.splits if_splits)

lemma nonneg_integer_JInt [simp]:
  "nonneg_integer (JInt n) = (if safe_nat n then Some n else None)"
  by (auto simp: nonneg_integer_def is_safe_integer_def safe_nat_def)

lemma nonneg_integer_small [simp]:
  "nonneg_integer (JNum (JFinite 0)) = Some 0" "nonneg_integer (JNum (JFinite 1)) = Some 1"
  using nonneg_integer_JInt [of 0] nonneg_integer_JInt [of 1]
  by (simp_all add: safe_nat_def max_safe_integer_def del: nonneg_integer_JInt)

lemma nonneg_integer_nonnum [simp]:
  "nonneg_integer JUndefined = None" "nonneg_integer JNull = None" "nonneg_integer (JStr s) = None"
  "nonneg_integer (JArr xs) = None" "nonneg_integer (JObj ps) = None" "nonneg_integer (JBool b) = None"
  by (simp_all add: nonneg_integer_def)

lemma nonneg_integer_iff: "nonneg_integer v = Some n \<longleftrightarrow> v = JInt n \<and> safe_nat n"
  using nonneg_integer_SomeD [of v n] by auto

section \<open>UTF-8\<close>

text \<open>
  \<open>TextEncoder.encode\<close> reads the code units as UTF-16, takes a lone surrogate as U+FFFD, and
  encodes each scalar value in one to four bytes.
\<close>

definition high_surrogate :: "16 word \<Rightarrow> bool" where
  "high_surrogate u \<longleftrightarrow> 0xD800 \<le> unat u \<and> unat u \<le> 0xDBFF"

definition low_surrogate :: "16 word \<Rightarrow> bool" where
  "low_surrogate u \<longleftrightarrow> 0xDC00 \<le> unat u \<and> unat u \<le> 0xDFFF"

definition unit_scalar :: "16 word \<Rightarrow> nat" where
  "unit_scalar u = (if high_surrogate u \<or> low_surrogate u then 0xFFFD else unat u)"

definition pair_scalar :: "16 word \<Rightarrow> 16 word \<Rightarrow> nat" where
  "pair_scalar h l = 0x10000 + (unat h - 0xD800) * 0x400 + (unat l - 0xDC00)"

fun scalars :: "jsstring \<Rightarrow> nat list" where
  "scalars [] = []"
| "scalars [u] = [unit_scalar u]"
| "scalars (u # v # us) =
     (if high_surrogate u \<and> low_surrogate v then pair_scalar u v # scalars us
      else unit_scalar u # scalars (v # us))"

definition utf8_scalar :: "nat \<Rightarrow> 8 word list" where
  "utf8_scalar c =
     (if c < 0x80 then [of_nat c]
      else if c < 0x800 then [of_nat (0xC0 + c div 0x40), of_nat (0x80 + c mod 0x40)]
      else if c < 0x10000 then
        [of_nat (0xE0 + c div 0x1000), of_nat (0x80 + c div 0x40 mod 0x40),
         of_nat (0x80 + c mod 0x40)]
      else
        [of_nat (0xF0 + c div 0x40000), of_nat (0x80 + c div 0x1000 mod 0x40),
         of_nat (0x80 + c div 0x40 mod 0x40), of_nat (0x80 + c mod 0x40)])"

definition utf8_encode :: "jsstring \<Rightarrow> 8 word list" where
  "utf8_encode s = concat (map utf8_scalar (scalars s))"

lemma length_utf8_scalar_pos: "1 \<le> length (utf8_scalar c)"
  by (simp add: utf8_scalar_def)

lemma unit_scalar_bound: "unit_scalar u < 0x10000"
  using unsigned_less [of u, where 'a = nat] by (simp add: unit_scalar_def)

lemma length_utf8_unit: "length (utf8_scalar (unit_scalar u)) \<le> 3"
  using unit_scalar_bound [of u] by (simp add: utf8_scalar_def)

lemma length_utf8_pair: "length (utf8_scalar (pair_scalar h l)) = 4"
  by (simp add: utf8_scalar_def pair_scalar_def)

text \<open>Every code unit costs at least one and at most three bytes.\<close>

lemma length_utf8_encode_bounds:
  "length s \<le> length (utf8_encode s) \<and> length (utf8_encode s) \<le> 3 * length s"
proof (induction s rule: scalars.induct)
  case 1
  then show ?case by (simp add: utf8_encode_def)
next
  case (2 u)
  then show ?case
    using length_utf8_scalar_pos [of "unit_scalar u"] length_utf8_unit [of u]
    by (simp add: utf8_encode_def)
next
  case (3 u v us)
  then show ?case
    using length_utf8_scalar_pos [of "unit_scalar u"] length_utf8_unit [of u] length_utf8_pair [of u v]
    by (auto simp: utf8_encode_def split: if_splits)
qed

section \<open>Strings\<close>

definition is_whitespace :: "16 word \<Rightarrow> bool" where
  "is_whitespace u \<longleftrightarrow>
     unat u \<in> set [9, 10, 11, 12, 13, 0x20, 0xA0, 0x1680, 0x2028, 0x2029, 0x202F, 0x205F, 0x3000, 0xFEFF]
     \<or> 0x2000 \<le> unat u \<and> unat u \<le> 0x200A"

definition trim :: "jsstring \<Rightarrow> jsstring" where
  "trim s = rev (dropWhile is_whitespace (rev (dropWhile is_whitespace s)))"

lemma dropWhile_rev_dropWhile_id:
  assumes "s = [] \<or> \<not> P (hd s)"
  shows "rev (dropWhile P (rev s)) = [] \<or> \<not> P (hd (rev (dropWhile P (rev s))))"
proof -
  have split: "rev (dropWhile P (rev s)) @ rev (takeWhile P (rev s)) = s"
    by (metis rev_append rev_rev_ident takeWhile_dropWhile_id)
  show ?thesis
  proof (cases "rev (dropWhile P (rev s)) = []")
    case False
    with split have "hd (rev (dropWhile P (rev s))) = hd s" and "s \<noteq> []"
      by (metis hd_append2, metis append_is_Nil_conv)
    with assms show ?thesis by simp
  qed simp
qed

lemma trim_edges:
  "trim s = [] \<or> \<not> is_whitespace (hd (trim s)) \<and> \<not> is_whitespace (last (trim s))"
proof -
  let ?d = "dropWhile is_whitespace s"
  have "?d = [] \<or> \<not> is_whitespace (hd ?d)"
    by (metis hd_dropWhile)
  then have first: "trim s = [] \<or> \<not> is_whitespace (hd (trim s))"
    unfolding trim_def by (rule dropWhile_rev_dropWhile_id)
  have "trim s = [] \<or> \<not> is_whitespace (last (trim s))"
    unfolding trim_def by (metis hd_dropWhile last_rev rev_is_Nil_conv)
  with first show ?thesis by blast
qed

lemma trim_id: "s = [] \<or> \<not> is_whitespace (hd s) \<and> \<not> is_whitespace (last s) \<Longrightarrow> trim s = s"
  by (cases s) (auto simp: trim_def dropWhile_eq_self_iff hd_append hd_rev split: if_splits)

lemma trim_idem [simp]: "trim (trim s) = trim s"
  by (rule trim_id) (rule trim_edges)

lemma trim_Nil [simp]: "trim [] = []"
  by (simp add: trim_def)

lemma length_trim: "length (trim s) \<le> length s"
  unfolding trim_def by (metis length_dropWhile_le length_rev order_trans)

definition starts_with :: "jsstring \<Rightarrow> jsstring \<Rightarrow> bool" where
  "starts_with s p \<longleftrightarrow> take (length p) s = p"

text \<open>\<open>index_of_from s q i\<close> is \<open>s.indexOf(q, i)\<close>, with None for \<open>-1\<close>.\<close>

fun find_sub :: "jsstring \<Rightarrow> jsstring \<Rightarrow> nat option" where
  "find_sub [] q = (if q = [] then Some 0 else None)"
| "find_sub (c # s) q =
     (if starts_with (c # s) q then Some 0 else map_option Suc (find_sub s q))"

definition index_of_from :: "jsstring \<Rightarrow> jsstring \<Rightarrow> nat \<Rightarrow> nat option" where
  "index_of_from s q i =
     (let j = min i (length s) in map_option (\<lambda>k. j + k) (find_sub (drop j s) q))"

definition contains_sub :: "jsstring \<Rightarrow> jsstring \<Rightarrow> bool" where
  "contains_sub s q \<longleftrightarrow> find_sub s q \<noteq> None"

lemma find_sub_SomeD:
  "find_sub s q = Some i \<Longrightarrow> i \<le> length s \<and> starts_with (drop i s) q
     \<and> (\<forall>j<i. \<not> starts_with (drop j s) q)"
proof (induction s arbitrary: i)
  case Nil
  then show ?case by (auto simp: starts_with_def split: if_splits)
next
  case (Cons c s)
  show ?case
  proof (cases "starts_with (c # s) q")
    case False
    with Cons.prems obtain k where k: "find_sub s q = Some k" "i = Suc k" by auto
    with Cons.IH [OF k(1)] False show ?thesis by (auto simp: less_Suc_eq_0_disj)
  qed (use Cons.prems in auto)
qed

lemma find_sub_NoneD: "find_sub s q = None \<Longrightarrow> j \<le> length s \<Longrightarrow> \<not> starts_with (drop j s) q"
proof (induction s arbitrary: j)
  case Nil
  then show ?case by (auto simp: starts_with_def split: if_splits)
next
  case (Cons c s)
  then show ?case by (cases j) (auto split: if_splits)
qed

lemma starts_with_length: "starts_with s q \<Longrightarrow> length q \<le> length s"
  unfolding starts_with_def by (metis length_take min.cobounded1)

lemma index_of_from_SomeD:
  assumes "index_of_from s q i = Some k" "i \<le> length s"
  shows "i \<le> k \<and> k + length q \<le> length s \<and> starts_with (drop k s) q
    \<and> (\<forall>j. i \<le> j \<longrightarrow> j < k \<longrightarrow> \<not> starts_with (drop j s) q)"
proof -
  from assms obtain m where m: "find_sub (drop i s) q = Some m" "k = i + m"
    by (auto simp: index_of_from_def min_def split: if_splits)
  from find_sub_SomeD [OF m(1)] have *: "m \<le> length s - i" "starts_with (drop k s) q"
    "\<forall>j<m. \<not> starts_with (drop (i + j) s) q"
    by (simp_all add: m(2) add.commute)
  have "k + length q \<le> length s"
    using starts_with_length [OF *(2)] *(1) m(2) assms(2) by simp
  moreover have "\<not> starts_with (drop j s) q" if "i \<le> j" "j < k" for j
    using *(3) [rule_format, of "j - i"] that m(2) by simp
  ultimately show ?thesis using * m(2) by simp
qed

lemma index_of_from_NoneD:
  "index_of_from s q i = None \<Longrightarrow> i \<le> j \<Longrightarrow> j \<le> length s \<Longrightarrow> \<not> starts_with (drop j s) q"
  using find_sub_NoneD [of "drop i s" q "j - i"]
  by (auto simp: index_of_from_def min_def split: if_splits)

text \<open>Decimal rendering of an integer, as a template literal does for a safe integer.\<close>

fun digits_of :: "nat \<Rightarrow> string" where
  "digits_of n = (if n < 10 then [char_of (48 + n)] else digits_of (n div 10) @ [char_of (48 + n mod 10)])"

declare digits_of.simps [simp del]

definition int_str :: "int \<Rightarrow> jsstring" where
  "int_str n = (if n < 0 then js (CHR ''-'' # digits_of (nat (- n))) else js (digits_of (nat n)))"

end
