(* ===== verification/Live_Reconciliation.thy ===== *)
theory Live_Reconciliation
  imports Js_Values
begin

text \<open>
  The revision authority of a live room (\<open>web/src/live-reconciliation.ts\<close>): which
  revision of the room metadata and of every document the browser has seen, and the
  test that an HTTP snapshot may replace what the browser holds.
\<close>

section \<open>Data and operations\<close>

record liveRevision =
  lr_id :: jsstring
  lr_revision :: int

record liveRevisionAuthority =
  la_metadataRevision :: int
  la_documents :: "liveRevision list"

definition captureLiveRevisionAuthority :: "int \<Rightarrow> liveRevision list \<Rightarrow> liveRevisionAuthority" where
  "captureLiveRevisionAuthority metadataRevision documents =
     \<lparr>la_metadataRevision = metadataRevision, la_documents = documents\<rparr>"

text \<open>The loop over the current documents returns at the first document that regresses.\<close>

fun documents_reconcile ::
  "int \<Rightarrow> int \<Rightarrow> (jsstring, int) jsmap \<Rightarrow> liveRevision list \<Rightarrow> bool" where
  "documents_reconcile current snapshot snapshotDocuments [] = True"
| "documents_reconcile current snapshot snapshotDocuments (document # documents) =
     (case map_get snapshotDocuments (lr_id document) of
        None \<Rightarrow>
          if snapshot \<le> current then False
          else documents_reconcile current snapshot snapshotDocuments documents
      | Some snapshotRevision \<Rightarrow>
          if snapshotRevision < lr_revision document then False
          else documents_reconcile current snapshot snapshotDocuments documents)"

definition snapshotCanReconcile :: "liveRevisionAuthority \<Rightarrow> liveRevisionAuthority \<Rightarrow> bool" where
  "snapshotCanReconcile current snapshot =
     (if la_metadataRevision snapshot < la_metadataRevision current then False
      else
        documents_reconcile (la_metadataRevision current) (la_metadataRevision snapshot)
          (map_new (map (\<lambda>d. (lr_id d, lr_revision d)) (la_documents snapshot)))
          (la_documents current))"

definition isAuthorityEvent :: "jsstring \<Rightarrow> bool" where
  "isAuthorityEvent t \<longleftrightarrow>
     t = js ''changes'' \<or> t = js ''document_created'' \<or> t = js ''document_updated''
     \<or> t = js ''document_deleted'' \<or> t = js ''document_reordered''"

section \<open>The contract: a snapshot only advances authority\<close>

text \<open>
  What the room relies on: along accepted snapshots the metadata revision never falls, a
  document that survives never loses a revision, and a document disappears only when the
  metadata revision strictly grows.
\<close>

text \<open>The number of steps of a run at which some document disappears.\<close>

fun losses :: "('a \<Rightarrow> jsstring \<Rightarrow> int option) \<Rightarrow> 'a \<Rightarrow> 'a list \<Rightarrow> nat" where
  "losses revs a [] = 0"
| "losses revs a (b # bs) = (if dom (revs a) \<subseteq> dom (revs b) then 0 else 1) + losses revs b bs"

locale advancing_authority =
  fixes accepts :: "'a \<Rightarrow> 'a \<Rightarrow> bool"
    and meta :: "'a \<Rightarrow> int"
    and revs :: "'a \<Rightarrow> jsstring \<Rightarrow> int option"
  assumes accepts_meta: "accepts a b \<Longrightarrow> meta a \<le> meta b"
    and accepts_revision: "accepts a b \<Longrightarrow> revs a i = Some r \<Longrightarrow> revs b i = Some r' \<Longrightarrow> r \<le> r'"
    and accepts_missing: "accepts a b \<Longrightarrow> revs a i = Some r \<Longrightarrow> revs b i = None \<Longrightarrow> meta a < meta b"
begin

lemma chain_meta_mono: "chain accepts a bs \<Longrightarrow> meta a \<le> meta (last (a # bs))"
proof (induction bs arbitrary: a)
  case (Cons b bs)
  from Cons.prems have "meta a \<le> meta b" "chain accepts b bs" by (auto intro: accepts_meta)
  with Cons.IH [of b] show ?case by simp
qed simp

lemma lossy_step: "accepts a b \<Longrightarrow> \<not> dom (revs a) \<subseteq> dom (revs b) \<Longrightarrow> meta a + 1 \<le> meta b"
  using accepts_missing by (fastforce simp: subset_iff)

lemma chain_losses_bounded:
  "chain accepts a bs \<Longrightarrow> int (losses revs a bs) \<le> meta (last (a # bs)) - meta a"
proof (induction bs arbitrary: a)
  case (Cons b bs)
  from Cons.prems have ab: "accepts a b" and rest: "chain accepts b bs" by auto
  from Cons.IH [OF rest] have IH: "int (losses revs b bs) \<le> meta (last (b # bs)) - meta b" .
  show ?case
  proof (cases "dom (revs a) \<subseteq> dom (revs b)")
    case True
    with IH accepts_meta [OF ab] show ?thesis by simp
  next
    case False
    with IH lossy_step [OF ab False] show ?thesis by simp
  qed
qed simp

lemma equal_meta_keeps_documents:
  "accepts a b \<Longrightarrow> meta a = meta b \<Longrightarrow> dom (revs a) \<subseteq> dom (revs b)"
  using accepts_missing by (fastforce simp: subset_iff)

end

section \<open>The abstract view of an authority\<close>

definition authority_revisions :: "liveRevisionAuthority \<Rightarrow> jsstring \<Rightarrow> int option" where
  "authority_revisions a = map_of (rev (map (\<lambda>d. (lr_id d, lr_revision d)) (la_documents a)))"

definition distinct_documents :: "liveRevisionAuthority \<Rightarrow> bool" where
  "distinct_documents a \<longleftrightarrow> distinct (map lr_id (la_documents a))"

text \<open>The specification, on a revision number and a partial map of revisions.\<close>

definition advances :: "int \<times> (jsstring \<Rightarrow> int option) \<Rightarrow> int \<times> (jsstring \<Rightarrow> int option) \<Rightarrow> bool" where
  "advances a b \<longleftrightarrow> fst a \<le> fst b
     \<and> (\<forall>i r. snd a i = Some r \<longrightarrow>
          (case snd b i of None \<Rightarrow> fst a < fst b | Some r' \<Rightarrow> r \<le> r'))"

abbreviation abs_authority :: "liveRevisionAuthority \<Rightarrow> int \<times> (jsstring \<Rightarrow> int option)" where
  "abs_authority a \<equiv> (la_metadataRevision a, authority_revisions a)"

lemma documents_reconcile_iff:
  "documents_reconcile c s m ds \<longleftrightarrow>
     (\<forall>d\<in>set ds. case map_get m (lr_id d) of None \<Rightarrow> c < s | Some r \<Rightarrow> lr_revision d \<le> r)"
  by (induction ds) (auto split: option.splits)

lemma snapshotCanReconcile_iff:
  "snapshotCanReconcile current snapshot \<longleftrightarrow>
     la_metadataRevision current \<le> la_metadataRevision snapshot
     \<and> (\<forall>d\<in>set (la_documents current).
          case authority_revisions snapshot (lr_id d) of
            None \<Rightarrow> la_metadataRevision current < la_metadataRevision snapshot
          | Some r \<Rightarrow> lr_revision d \<le> r)"
  by (auto simp: snapshotCanReconcile_def documents_reconcile_iff authority_revisions_def
      map_get_map_new)

lemma authority_revisions_SomeD:
  "authority_revisions a i = Some r \<Longrightarrow> \<exists>d\<in>set (la_documents a). lr_id d = i \<and> lr_revision d = r"
  by (fastforce simp: authority_revisions_def dest!: map_of_SomeD)

lemma authority_revisions_mem:
  assumes "distinct_documents a" "d \<in> set (la_documents a)"
  shows "authority_revisions a (lr_id d) = Some (lr_revision d)"
proof -
  have "distinct (map fst (map (\<lambda>d. (lr_id d, lr_revision d)) (la_documents a)))"
    using assms(1) by (simp add: distinct_documents_def comp_def)
  then show ?thesis
    using assms(2) by (auto simp: authority_revisions_def map_of_rev_distinct)
qed

lemma reconcile_imp_advances:
  "snapshotCanReconcile a b \<Longrightarrow> advances (abs_authority a) (abs_authority b)"
  unfolding snapshotCanReconcile_iff advances_def
  using authority_revisions_SomeD by (fastforce split: option.splits)

interpretation authority: advancing_authority
  snapshotCanReconcile la_metadataRevision authority_revisions
proof unfold_locales
  fix a b i r r'
  assume "snapshotCanReconcile a b"
  then have adv: "advances (abs_authority a) (abs_authority b)" by (rule reconcile_imp_advances)
  then show "la_metadataRevision a \<le> la_metadataRevision b" by (simp add: advances_def)
  assume "authority_revisions a i = Some r"
  with adv have *: "case authority_revisions b i of
      None \<Rightarrow> la_metadataRevision a < la_metadataRevision b | Some r' \<Rightarrow> r \<le> r'"
    unfolding advances_def fst_conv snd_conv by blast
  { assume "authority_revisions b i = Some r'" with * show "r \<le> r'" by simp }
  { assume "authority_revisions b i = None"
    with * show "la_metadataRevision a < la_metadataRevision b" by simp }
qed

section \<open>Properties\<close>

text \<open>
  C16. The check on document lists refines the abstract order on authorities: for a browser
  that knows each document once, a snapshot is accepted exactly when the metadata revision
  does not fall, no known document loses a revision, and a known document is missing only
  under a strictly newer metadata revision.
\<close>

theorem snapshotCanReconcile_refines:
  assumes "distinct_documents current"
  shows "snapshotCanReconcile current snapshot
    \<longleftrightarrow> advances (abs_authority current) (abs_authority snapshot)"
proof
  assume adv: "advances (abs_authority current) (abs_authority snapshot)"
  show "snapshotCanReconcile current snapshot"
    unfolding snapshotCanReconcile_iff
    using adv authority_revisions_mem [OF assms] by (fastforce simp: advances_def split: option.splits)
qed (rule reconcile_imp_advances)

theorem snapshotCanReconcile_refines_witness:
  "snapshotCanReconcile
     \<lparr>la_metadataRevision = 4, la_documents = [\<lparr>lr_id = js ''a'', lr_revision = 2\<rparr>, \<lparr>lr_id = js ''b'', lr_revision = 7\<rparr>]\<rparr>
     \<lparr>la_metadataRevision = 5, la_documents = [\<lparr>lr_id = js ''a'', lr_revision = 3\<rparr>]\<rparr>
   \<longleftrightarrow> advances
     (abs_authority \<lparr>la_metadataRevision = 4, la_documents = [\<lparr>lr_id = js ''a'', lr_revision = 2\<rparr>, \<lparr>lr_id = js ''b'', lr_revision = 7\<rparr>]\<rparr>)
     (abs_authority \<lparr>la_metadataRevision = 5, la_documents = [\<lparr>lr_id = js ''a'', lr_revision = 3\<rparr>]\<rparr>)"
  by (rule snapshotCanReconcile_refines) (simp add: distinct_documents_def)

text \<open>
  Over any run of accepted snapshots, the number of times some document disappears is at
  most the growth of the metadata revision; in particular no document disappears while the
  metadata revision stands still.
\<close>

theorem accepted_snapshots_losses:
  assumes "chain snapshotCanReconcile a bs"
  shows "int (losses authority_revisions a bs) \<le> la_metadataRevision (last (a # bs)) - la_metadataRevision a"
  using assms by (rule authority.chain_losses_bounded)

theorem accepted_snapshots_losses_witness:
  "int (losses authority_revisions
      \<lparr>la_metadataRevision = 4, la_documents = [\<lparr>lr_id = js ''a'', lr_revision = 2\<rparr>]\<rparr>
      [\<lparr>la_metadataRevision = 6, la_documents = []\<rparr>])
   \<le> la_metadataRevision (last [\<lparr>la_metadataRevision = 4, la_documents = [\<lparr>lr_id = js ''a'', lr_revision = 2\<rparr>]\<rparr>,
       \<lparr>la_metadataRevision = 6, la_documents = []\<rparr>])
     - la_metadataRevision \<lparr>la_metadataRevision = 4, la_documents = [\<lparr>lr_id = js ''a'', lr_revision = 2\<rparr>]\<rparr>"
  by (rule accepted_snapshots_losses) (simp add: snapshotCanReconcile_def map_new_def)

end
