(* ===== verification/Live_Operations.thy ===== *)
theory Live_Operations
  imports Js_Values
begin

text \<open>
  The tracker of operations the browser has sent and the server has not yet settled
  (\<open>web/src/live-operations.ts\<close>), and the classification of operation errors. The
  tracker's \<open>Map\<close> is an insertion-ordered association list from operation id to record.
\<close>

section \<open>Operations and the tracker\<close>

datatype liveOperationKind = KDocument | KMetadata

record liveOperation =
  op_id :: jsstring
  op_kind :: liveOperationKind
  op_generation :: int
  op_documentID :: "jsstring option"
  op_recoveryText :: jsstring
  op_message :: jsval
  op_sentGeneration :: "int option"
  op_terminal :: "bool option"

type_synonym liveOperationTracker = "(jsstring, liveOperation) jsmap"

definition tracker_new :: liveOperationTracker where
  "tracker_new = []"

definition track :: "liveOperation \<Rightarrow> liveOperationTracker \<Rightarrow> liveOperationTracker" where
  "track operation ops = AList.update (op_id operation) operation ops"

text \<open>\<open>get\<close> takes \<open>string | undefined\<close> and answers nothing for the empty string.\<close>

definition tracker_get :: "liveOperationTracker \<Rightarrow> jsstring option \<Rightarrow> liveOperation option" where
  "tracker_get ops opID = (case opID of None \<Rightarrow> None | Some i \<Rightarrow> if i = [] then None else map_get ops i)"

definition tracker_values :: "liveOperationTracker \<Rightarrow> liveOperation list" where
  "tracker_values ops = map snd ops"

definition is_terminal :: "liveOperation \<Rightarrow> bool" where
  "is_terminal operation \<longleftrightarrow> op_terminal operation = Some True"

definition shouldSend :: "liveOperationTracker \<Rightarrow> jsstring \<Rightarrow> int \<Rightarrow> bool" where
  "shouldSend ops opID generation = (case map_get ops opID of
     None \<Rightarrow> False
   | Some operation \<Rightarrow> \<not> is_terminal operation \<and> op_sentGeneration operation \<noteq> Some generation)"

definition markSent :: "jsstring \<Rightarrow> int \<Rightarrow> liveOperationTracker \<Rightarrow> liveOperationTracker \<times> bool" where
  "markSent opID generation ops = (case map_get ops opID of
     None \<Rightarrow> (ops, False)
   | Some operation \<Rightarrow>
       if is_terminal operation then (ops, False)
       else (AList.update opID (operation\<lparr>op_sentGeneration := Some generation\<rparr>) ops, True))"

definition settle :: "jsstring option \<Rightarrow> int \<Rightarrow> liveOperationTracker \<Rightarrow> liveOperationTracker \<times> liveOperation option" where
  "settle opID generation ops = (case tracker_get ops opID of
     None \<Rightarrow> (ops, None)
   | Some operation \<Rightarrow>
       if op_generation operation > generation then (ops, None)
       else (AList.delete (op_id operation) ops, Some operation))"

text \<open>\<open>reject\<close> marks the stored record and returns it, mark included.\<close>

definition reject :: "jsstring option \<Rightarrow> int \<Rightarrow> liveOperationTracker \<Rightarrow> liveOperationTracker \<times> liveOperation option" where
  "reject opID generation ops = (case (opID, tracker_get ops opID) of
     (Some i, Some operation) \<Rightarrow>
       if op_generation operation > generation then (ops, None)
       else let operation = operation\<lparr>op_terminal := Some True\<rparr>
            in (AList.update i operation ops, Some operation)
   | _ \<Rightarrow> (ops, None))"

definition tracker_clear :: "jsstring option \<Rightarrow> liveOperationTracker \<Rightarrow> liveOperationTracker" where
  "tracker_clear opID ops = (case opID of
     None \<Rightarrow> []
   | Some i \<Rightarrow> if i = [] then [] else AList.delete i ops)"

section \<open>Error classification\<close>

datatype liveOperationErrorClass = Retryable | Resync | Auth | Overload | Validation | Terminal

definition classifyLiveOperationError :: "jsstring \<Rightarrow> jsstring option \<Rightarrow> liveOperationErrorClass" where
  "classifyLiveOperationError code status =
     (if status = Some (js ''retryable'') then Retryable
      else if status = Some (js ''resync_required'') then Resync
      else if status = Some (js ''auth_required'') then Auth
      else if status = Some (js ''overloaded'') then Overload
      else if status = Some (js ''validation'') then Validation
      else if status = Some (js ''terminal'') then Terminal
      else if code = js ''service_unavailable'' then Retryable
      else if code = js ''resync_required'' then Resync
      else if code = js ''unauthorized'' then Auth
      else if code = js ''room_limit_reached'' \<or> code = js ''rate_limited'' then Overload
      else if code = js ''invalid_request'' \<or> code = js ''message_too_large'' \<or> code = js ''name_taken''
        then Validation
      else Terminal)"

section \<open>Invariant\<close>

text \<open>Keys are distinct and every record is stored under its own id.\<close>

definition tracker_inv :: "liveOperationTracker \<Rightarrow> bool" where
  "tracker_inv ops \<longleftrightarrow> distinct (map fst ops) \<and> (\<forall>(k, operation)\<in>set ops. op_id operation = k)"

lemmas tracker_defs = track_def tracker_get_def shouldSend_def markSent_def settle_def reject_def
  tracker_clear_def tracker_new_def

lemma tracker_inv_new: "tracker_inv tracker_new"
  by (simp add: tracker_inv_def tracker_new_def)

lemma tracker_inv_lookup: "tracker_inv ops \<Longrightarrow> map_get ops k = Some operation \<Longrightarrow> op_id operation = k"
  by (auto simp: tracker_inv_def dest!: map_of_SomeD)

lemma set_update_subset: "set (AList.update k v m) \<subseteq> insert (k, v) (set m)"
  by (induction m) auto

lemma tracker_inv_update:
  assumes "tracker_inv ops" "op_id operation = k"
  shows "tracker_inv (AList.update k operation ops)"
  using assms set_update_subset [of k operation ops]
  by (auto simp: tracker_inv_def AList.distinct_update)

lemma set_delete_subset: "set (AList.delete k m) \<subseteq> set m"
  by (auto simp: AList.delete_eq)

lemma tracker_inv_delete: "tracker_inv ops \<Longrightarrow> tracker_inv (AList.delete k ops)"
  using set_delete_subset [of k ops]
  by (auto simp: tracker_inv_def AList.distinct_delete)

lemma tracker_inv_track: "tracker_inv ops \<Longrightarrow> tracker_inv (track operation ops)"
  by (simp add: track_def tracker_inv_update)

lemma tracker_inv_markSent: "tracker_inv ops \<Longrightarrow> tracker_inv (fst (markSent i g ops))"
  by (auto simp: markSent_def tracker_inv_lookup intro!: tracker_inv_update split: option.splits)

lemma tracker_inv_settle: "tracker_inv ops \<Longrightarrow> tracker_inv (fst (settle i g ops))"
  by (auto simp: settle_def tracker_inv_delete split: option.splits)

lemma tracker_get_Some_iff:
  "tracker_get ops i = Some operation \<longleftrightarrow> (\<exists>k. i = Some k \<and> k \<noteq> [] \<and> map_get ops k = Some operation)"
  by (auto simp: tracker_get_def split: option.splits)

lemma tracker_inv_reject: "tracker_inv ops \<Longrightarrow> tracker_inv (fst (reject i g ops))"
  by (auto simp: reject_def tracker_get_Some_iff tracker_inv_lookup Let_def
      intro!: tracker_inv_update split: option.splits)

lemma tracker_inv_clear: "tracker_inv ops \<Longrightarrow> tracker_inv (tracker_clear i ops)"
  by (cases i) (simp_all add: tracker_clear_def tracker_inv_delete, simp_all add: tracker_inv_def)

section \<open>The contract of a keyed log\<close>

text \<open>
  What the room relies on when a message arrives late: a key that is gone stays gone, and a
  record that is barred stays barred, until some action renews the key.
\<close>

locale keyed_log =
  fixes lookup :: "'m \<Rightarrow> 'k \<Rightarrow> 'o option"
    and step :: "'a \<Rightarrow> 'm \<Rightarrow> 'm"
    and inv :: "'m \<Rightarrow> bool"
    and renews :: "'a \<Rightarrow> 'k \<Rightarrow> bool"
    and barred :: "'o \<Rightarrow> bool"
  assumes inv_step: "inv m \<Longrightarrow> inv (step a m)"
    and absent_step: "inv m \<Longrightarrow> lookup m k = None \<Longrightarrow> \<not> renews a k \<Longrightarrow> lookup (step a m) k = None"
    and barred_step: "inv m \<Longrightarrow> lookup m k = Some r \<Longrightarrow> barred r \<Longrightarrow> \<not> renews a k \<Longrightarrow>
      lookup (step a m) k = Some r' \<Longrightarrow> barred r'"
begin

lemma inv_run: "inv m \<Longrightarrow> inv (fold step as m)"
  by (induction as arbitrary: m) (auto intro: inv_step)

lemma absent_run:
  "inv m \<Longrightarrow> lookup m k = None \<Longrightarrow> \<forall>a\<in>set as. \<not> renews a k \<Longrightarrow> lookup (fold step as m) k = None"
  by (induction as arbitrary: m) (simp_all add: inv_step absent_step)

lemma barred_run:
  "inv m \<Longrightarrow> (\<And>r. lookup m k = Some r \<Longrightarrow> barred r) \<Longrightarrow> \<forall>a\<in>set as. \<not> renews a k \<Longrightarrow>
    lookup (fold step as m) k = Some r' \<Longrightarrow> barred r'"
proof (induction as arbitrary: m)
  case (Cons a as)
  have "barred r" if "lookup (step a m) k = Some r" for r
  proof (cases "lookup m k")
    case None
    with that Cons.prems absent_step show ?thesis by fastforce
  next
    case (Some r0)
    with that Cons.prems show ?thesis by (auto intro: barred_step)
  qed
  then show ?case
    using Cons.IH [of "step a m"] Cons.prems by (simp add: inv_step)
qed simp

end

text \<open>The state-changing calls of the tracker, as actions.\<close>

datatype tracker_action =
    Track liveOperation
  | MarkSent jsstring int
  | Settle "jsstring option" int
  | Reject "jsstring option" int
  | Clear "jsstring option"

fun tracker_step :: "tracker_action \<Rightarrow> liveOperationTracker \<Rightarrow> liveOperationTracker" where
  "tracker_step (Track operation) ops = track operation ops"
| "tracker_step (MarkSent i g) ops = fst (markSent i g ops)"
| "tracker_step (Settle i g) ops = fst (settle i g ops)"
| "tracker_step (Reject i g) ops = fst (reject i g ops)"
| "tracker_step (Clear i) ops = tracker_clear i ops"

fun tracks :: "tracker_action \<Rightarrow> jsstring \<Rightarrow> bool" where
  "tracks (Track operation) k = (op_id operation = k)"
| "tracks _ k = False"

text \<open>An action that may make \<open>shouldSend k g\<close> true again.\<close>

fun resends :: "int \<Rightarrow> tracker_action \<Rightarrow> jsstring \<Rightarrow> bool" where
  "resends g (MarkSent i g') k = (i = k \<and> g' \<noteq> g)"
| "resends g a k = tracks a k"

definition sent_in :: "int \<Rightarrow> liveOperation \<Rightarrow> bool" where
  "sent_in g operation \<longleftrightarrow> is_terminal operation \<or> op_sentGeneration operation = Some g"

lemma tracker_inv_step: "tracker_inv ops \<Longrightarrow> tracker_inv (tracker_step a ops)"
  by (cases a) (simp_all add: tracker_inv_track tracker_inv_markSent tracker_inv_settle
      tracker_inv_reject tracker_inv_clear)

lemma map_get_delete: "map_get (AList.delete k m) i = (if i = k then None else map_get m i)"
  by (simp add: AList.delete_conv)

lemma map_get_update: "map_get (AList.update k v m) i = (if i = k then Some v else map_get m i)"
  by (simp add: AList.update_conv')

lemmas tracker_lookup = map_get_delete map_get_update tracker_defs is_terminal_def

lemma tracker_absent_step:
  "map_get ops k = None \<Longrightarrow> \<not> tracks a k \<Longrightarrow> map_get (tracker_step a ops) k = None"
  by (cases a) (auto simp: tracker_lookup Let_def split: option.splits if_splits)

lemma tracker_terminal_step:
  "tracker_inv ops \<Longrightarrow> map_get ops k = Some r \<Longrightarrow> is_terminal r \<Longrightarrow> \<not> tracks a k \<Longrightarrow>
    map_get (tracker_step a ops) k = Some r' \<Longrightarrow> is_terminal r'"
  by (cases a) (auto simp: tracker_lookup Let_def split: option.splits if_splits)

lemma tracker_sent_step:
  "tracker_inv ops \<Longrightarrow> map_get ops k = Some r \<Longrightarrow> sent_in g r \<Longrightarrow> \<not> resends g a k \<Longrightarrow>
    map_get (tracker_step a ops) k = Some r' \<Longrightarrow> sent_in g r'"
  by (cases a) (auto simp: tracker_lookup sent_in_def Let_def split: option.splits if_splits)

lemma resends_if_tracks: "\<not> resends g a k \<Longrightarrow> \<not> tracks a k"
  by (cases a) auto

interpretation rejected: keyed_log map_get tracker_step tracker_inv tracks is_terminal
  by unfold_locales (auto intro: tracker_inv_step tracker_absent_step tracker_terminal_step)

interpretation sent: keyed_log map_get tracker_step tracker_inv "resends g" "sent_in g" for g
  by unfold_locales
    (auto intro: tracker_inv_step tracker_absent_step tracker_sent_step dest: resends_if_tracks)

lemma shouldSend_iff:
  "shouldSend ops k g \<longleftrightarrow> (\<exists>r. map_get ops k = Some r \<and> \<not> sent_in g r)"
  by (auto simp: shouldSend_def sent_in_def split: option.splits)

lemma settle_SomeD:
  "settle i g ops = (ops', Some operation) \<Longrightarrow>
    \<exists>k. i = Some k \<and> map_get ops k = Some operation \<and> op_generation operation \<le> g
      \<and> ops' = AList.delete (op_id operation) ops"
  by (auto simp: settle_def tracker_get_Some_iff split: option.splits if_splits)

lemma settle_None_if_absent: "map_get ops k = None \<Longrightarrow> snd (settle (Some k) g ops) = None"
  by (auto simp: settle_def tracker_get_def)

section \<open>Properties\<close>

text \<open>
  C17. An operation is settled at most once: after a settlement succeeds for an id, no later
  settlement of that id, whatever its generation and whatever calls come between, returns
  anything until an operation is tracked under the id again.
\<close>

theorem settle_at_most_once:
  assumes "tracker_inv ops"
    and "settle (Some k) g ops = (ops', Some operation)"
    and "\<forall>a\<in>set as. \<not> tracks a k"
  shows "snd (settle (Some k) g' (fold tracker_step as ops')) = None"
proof -
  from settle_SomeD [OF assms(2)] have "map_get ops k = Some operation"
    and ops': "ops' = AList.delete (op_id operation) ops" by auto
  with assms(1) have "op_id operation = k" by (auto intro: tracker_inv_lookup)
  with ops' assms(1) have "tracker_inv ops'" "map_get ops' k = None"
    by (simp_all add: tracker_inv_delete map_get_delete)
  then have "map_get (fold tracker_step as ops') k = None"
    using assms(3) by (rule rejected.absent_run)
  then show ?thesis by (rule settle_None_if_absent)
qed

definition sample_operation :: liveOperation where
  "sample_operation = \<lparr>op_id = js ''op-1'', op_kind = KDocument, op_generation = 2,
     op_documentID = Some (js ''doc''), op_recoveryText = js ''text'', op_message = JObj [],
     op_sentGeneration = None, op_terminal = None\<rparr>"

theorem settle_at_most_once_witness:
  "snd (settle (Some (js ''op-1'')) 9
     (fold tracker_step [MarkSent (js ''op-1'') 3, Reject (Some (js ''op-1'')) 3]
       (fst (settle (Some (js ''op-1'')) 2 [(js ''op-1'', sample_operation)])))) = None"
  by (rule settle_at_most_once [where ops = "[(js ''op-1'', sample_operation)]" and g = 2
        and operation = sample_operation])
    (simp_all add: tracker_inv_def settle_def tracker_get_def sample_operation_def AList.delete_eq)

text \<open>
  A delayed callback of an older connection never settles or rejects the operation of a newer
  one: both calls leave the tracker as it is and return nothing.
\<close>

theorem stale_generation_ignored:
  assumes "map_get ops k = Some operation" and "op_generation operation > g"
  shows "settle (Some k) g ops = (ops, None) \<and> reject (Some k) g ops = (ops, None)"
  using assms by (simp add: settle_def reject_def tracker_get_def)

theorem stale_generation_ignored_witness:
  "settle (Some (js ''op-1'')) 1 [(js ''op-1'', sample_operation)] = ([(js ''op-1'', sample_operation)], None)
   \<and> reject (Some (js ''op-1'')) 1 [(js ''op-1'', sample_operation)] = ([(js ''op-1'', sample_operation)], None)"
  by (rule stale_generation_ignored [where operation = sample_operation])
    (simp_all add: sample_operation_def)

text \<open>
  Within one connection generation an operation is sent at most once: after it is marked sent
  for a generation, \<open>shouldSend\<close> stays false for that generation through every sequence of
  calls that neither tracks the id anew nor marks it sent for another generation.
\<close>

theorem sent_once_per_generation:
  assumes "tracker_inv ops"
    and "markSent k g ops = (ops', True)"
    and "\<forall>a\<in>set as. \<not> resends g a k"
  shows "\<not> shouldSend (fold tracker_step as ops') k g"
proof -
  have inv: "tracker_inv ops'"
    using assms(2) tracker_inv_markSent [OF assms(1), of k g] by simp
  have "sent_in g r" if "map_get ops' k = Some r" for r
    using assms(2) that by (auto simp: markSent_def sent_in_def map_get_update split: option.splits if_splits)
  with inv assms(3) have "sent_in g r" if "map_get (fold tracker_step as ops') k = Some r" for r
    using that by (blast intro: sent.barred_run)
  then show ?thesis by (auto simp: shouldSend_iff)
qed

theorem sent_once_per_generation_witness:
  "\<not> shouldSend (fold tracker_step [Settle (Some (js ''op-9'')) 3, MarkSent (js ''op-1'') 3]
      (fst (markSent (js ''op-1'') 3 [(js ''op-1'', sample_operation)]))) (js ''op-1'') 3"
  by (rule sent_once_per_generation [where ops = "[(js ''op-1'', sample_operation)]"])
    (simp_all add: tracker_inv_def markSent_def sample_operation_def is_terminal_def)

text \<open>
  A rejected operation is kept for recovery but never offered for sending again, in any
  generation, until an operation is tracked under its id anew.
\<close>

theorem rejected_never_sent:
  assumes "tracker_inv ops"
    and "reject (Some k) g ops = (ops', Some operation)"
    and "\<forall>a\<in>set as. \<not> tracks a k"
  shows "\<not> shouldSend (fold tracker_step as ops') k g' \<and> map_get ops' k = Some operation"
proof -
  have inv: "tracker_inv ops'"
    using assms(2) tracker_inv_reject [OF assms(1), of "Some k" g] by simp
  have op: "map_get ops' k = Some operation" "is_terminal operation"
    using assms(2)
    by (auto simp: reject_def tracker_get_def map_get_update is_terminal_def Let_def
        split: option.splits if_splits)
  then have "is_terminal r" if "map_get (fold tracker_step as ops') k = Some r" for r
    by (intro rejected.barred_run [OF inv _ assms(3) that]) simp
  with op show ?thesis by (auto simp: shouldSend_def split: option.splits)
qed

theorem rejected_never_sent_witness:
  "\<not> shouldSend (fold tracker_step [MarkSent (js ''op-1'') 3, Clear (Some (js ''op-2''))]
      (fst (reject (Some (js ''op-1'')) 2 [(js ''op-1'', sample_operation)]))) (js ''op-1'') 5
   \<and> map_get (fst (reject (Some (js ''op-1'')) 2 [(js ''op-1'', sample_operation)])) (js ''op-1'')
     = Some (sample_operation\<lparr>op_terminal := Some True\<rparr>)"
  by (rule rejected_never_sent [where ops = "[(js ''op-1'', sample_operation)]" and g = 2])
    (simp_all add: tracker_inv_def reject_def tracker_get_def sample_operation_def Let_def)

end
