(* ===== verification/Timers.thy ===== *)
theory Timers
  imports Prelude
begin

text \<open>
  The timer service the controllers use (\<open>setTimer\<close> and \<open>clearTimer\<close>, by default
  \<open>window.setTimeout\<close> and \<open>window.clearTimeout\<close>): a timer is an identifier, the callback it
  runs and its delay. A timer that fires is removed before its callback runs. Which pending
  timer fires next is left open, so what is proved holds for every timing.
\<close>

record 'k timers =
  tm_next :: nat
  tm_pending :: "(nat \<times> 'k \<times> int) list"

definition timers_new :: "'k timers" where
  "timers_new = \<lparr>tm_next = 0, tm_pending = []\<rparr>"

definition set_timer :: "'k \<Rightarrow> int \<Rightarrow> 'k timers \<Rightarrow> 'k timers \<times> nat" where
  "set_timer callback delay t =
     (t\<lparr>tm_next := Suc (tm_next t), tm_pending := tm_pending t @ [(tm_next t, callback, delay)]\<rparr>,
      tm_next t)"

definition clear_timer :: "nat \<Rightarrow> 'k timers \<Rightarrow> 'k timers" where
  "clear_timer i t = t\<lparr>tm_pending := AList.delete i (tm_pending t)\<rparr>"

definition pending_timer :: "'k timers \<Rightarrow> nat \<Rightarrow> ('k \<times> int) option" where
  "pending_timer t i = map_of (tm_pending t) i"

definition timers_inv :: "'k timers \<Rightarrow> bool" where
  "timers_inv t \<longleftrightarrow> (\<forall>i\<in>fst ` set (tm_pending t). i < tm_next t)"

section \<open>The contract of a timer service\<close>

locale timer_service =
  fixes set :: "'k \<Rightarrow> int \<Rightarrow> 't \<Rightarrow> 't \<times> nat"
    and clear :: "nat \<Rightarrow> 't \<Rightarrow> 't"
    and pending :: "'t \<Rightarrow> nat \<Rightarrow> ('k \<times> int) option"
    and inv :: "'t \<Rightarrow> bool"
  assumes set_fresh: "inv t \<Longrightarrow> pending t (snd (set k d t)) = None"
    and pending_set: "inv t \<Longrightarrow> pending (fst (set k d t)) = (pending t)(snd (set k d t) \<mapsto> (k, d))"
    and pending_clear: "pending (clear i t) = (pending t)(i := None)"
    and inv_set: "inv t \<Longrightarrow> inv (fst (set k d t))"
    and inv_clear: "inv t \<Longrightarrow> inv (clear i t)"
begin

text \<open>
  A client keeps a handle in a field: \<open>owns h P t\<close> says that the timers with a callback in
  \<open>P\<close> are exactly the one the handle names. Setting a timer into an empty handle, clearing a
  handle and letting the owned timer fire all keep it.
\<close>

definition owns :: "nat option \<Rightarrow> ('k \<Rightarrow> bool) \<Rightarrow> 't \<Rightarrow> bool" where
  "owns h P t \<longleftrightarrow> (\<forall>i k d. pending t i = Some (k, d) \<longrightarrow> P k \<longrightarrow> h = Some i)
     \<and> (\<forall>i. h = Some i \<longrightarrow> (\<exists>k d. pending t i = Some (k, d) \<and> P k))"

lemma owns_set: "inv t \<Longrightarrow> owns None P t \<Longrightarrow> P k \<Longrightarrow> owns (Some (snd (set k d t))) P (fst (set k d t))"
  by (auto simp: owns_def pending_set)

lemma owns_set_other: "inv t \<Longrightarrow> owns h P t \<Longrightarrow> \<not> P k \<Longrightarrow> owns h P (fst (set k d t))"
  using set_fresh [of t k d] by (auto simp: owns_def pending_set)

lemma owns_clear: "owns (Some i) P t \<Longrightarrow> owns None P (clear i t)"
  by (auto simp: owns_def pending_clear)

lemma owns_clear_other:
  "owns h P t \<Longrightarrow> pending t i = Some (k, d) \<Longrightarrow> \<not> P k \<Longrightarrow> owns h P (clear i t)"
  by (auto simp: owns_def pending_clear)

lemma owns_clear_disjoint:
  assumes "owns h P t" "owns (Some i) Q t" "\<And>k. P k \<Longrightarrow> \<not> Q k"
  shows "owns h P (clear i t)"
proof -
  from assms(2) obtain k d where "pending t i = Some (k, d)" "Q k" by (auto simp: owns_def)
  with assms(1,3) show ?thesis by (auto intro: owns_clear_other)
qed

lemma owns_clear_absent: "owns h P t \<Longrightarrow> pending t i = None \<Longrightarrow> owns h P (clear i t)"
  by (auto simp: owns_def pending_clear)

lemma owns_fired: "owns h P t \<Longrightarrow> pending t i = Some (k, d) \<Longrightarrow> P k \<Longrightarrow> h = Some i"
  by (auto simp: owns_def)

end

text \<open>
  A service that also never reissues an identifier. \<open>foreign h P t\<close> says that a handle, which may
  name a timer that has already fired, never names a timer with a callback in \<open>P\<close>.
\<close>

locale timer_history = timer_service set clear pending inv
  for set :: "'k \<Rightarrow> int \<Rightarrow> 't \<Rightarrow> 't \<times> nat"
    and clear :: "nat \<Rightarrow> 't \<Rightarrow> 't"
    and pending :: "'t \<Rightarrow> nat \<Rightarrow> ('k \<times> int) option"
    and inv :: "'t \<Rightarrow> bool" +
  fixes issued :: "'t \<Rightarrow> nat \<Rightarrow> bool"
  assumes set_unissued: "\<not> issued t (snd (set k d t))"
    and issued_set: "issued (fst (set k d t)) i \<longleftrightarrow> issued t i \<or> i = snd (set k d t)"
    and issued_clear: "issued (clear i t) = issued t"
begin

definition foreign :: "nat option \<Rightarrow> ('k \<Rightarrow> bool) \<Rightarrow> 't \<Rightarrow> bool" where
  "foreign h P t \<longleftrightarrow> (\<forall>i. h = Some i \<longrightarrow> issued t i \<and> (\<forall>k d. pending t i = Some (k, d) \<longrightarrow> \<not> P k))"

lemma foreign_None [simp]: "foreign None P t"
  by (simp add: foreign_def)

lemma foreign_set: "inv t \<Longrightarrow> foreign h P t \<Longrightarrow> foreign h P (fst (set k d t))"
  using set_unissued by (fastforce simp: foreign_def issued_set pending_set)

lemma foreign_set_new: "inv t \<Longrightarrow> \<not> P k \<Longrightarrow> foreign (Some (snd (set k d t))) P (fst (set k d t))"
  by (simp add: foreign_def issued_set pending_set)

lemma foreign_clear: "foreign h P t \<Longrightarrow> foreign h P (clear i t)"
  by (simp add: foreign_def issued_clear pending_clear)

lemma owns_clear_foreign: "owns h P t \<Longrightarrow> foreign (Some i) P t \<Longrightarrow> owns h P (clear i t)"
  by (auto simp: owns_def foreign_def pending_clear)

end

lemma timers_inv_new: "timers_inv timers_new"
  by (simp add: timers_inv_def timers_new_def)

lemma pending_new [simp]: "pending_timer timers_new i = None"
  by (simp add: pending_timer_def timers_new_def)

interpretation timers: timer_service set_timer clear_timer pending_timer timers_inv
proof unfold_locales
  fix t :: "'k timers" and k :: 'k and d :: int and i :: nat
  { assume "timers_inv t"
    then have fresh: "map_of (tm_pending t) (tm_next t) = None"
      by (auto simp: timers_inv_def map_of_eq_None_iff)
    then show "pending_timer t (snd (set_timer k d t)) = None"
      by (simp add: set_timer_def pending_timer_def)
    show "pending_timer (fst (set_timer k d t)) = (pending_timer t)(snd (set_timer k d t) \<mapsto> (k, d))"
      using fresh by (auto simp: set_timer_def pending_timer_def fun_eq_iff map_add_def split: option.splits)
    show "timers_inv (fst (set_timer k d t))"
      using \<open>timers_inv t\<close> by (auto simp: timers_inv_def set_timer_def)
    show "timers_inv (clear_timer i t)"
      using \<open>timers_inv t\<close> by (auto simp: timers_inv_def clear_timer_def keys_delete) }
  show "pending_timer (clear_timer i t) = (pending_timer t)(i := None)"
    by (simp add: clear_timer_def pending_timer_def fun_eq_iff AList.delete_conv)
qed

definition issued_timer :: "'k timers \<Rightarrow> nat \<Rightarrow> bool" where
  "issued_timer t i \<longleftrightarrow> i < tm_next t"

interpretation timers: timer_history set_timer clear_timer pending_timer timers_inv issued_timer
  by unfold_locales (auto simp: issued_timer_def set_timer_def clear_timer_def)

end
