(* ===== verification/Live_Resync.thy ===== *)
theory Live_Resync
  imports Timers
begin

text \<open>
  The resynchronisation controller (\<open>web/src/live-resync.ts\<close>). The room it serves is a
  state \<open>'w\<close> that the option callbacks read and change; requests in flight are recorded with
  what their continuation captured. Every method is a function on the controller state, and
  \<open>resync_step\<close> dispatches the calls and the callbacks of the environment: the HTTP request
  settling, a timer firing, the clock advancing.
\<close>

section \<open>Options and state\<close>

datatype liveResyncReconcileResult = Reconciled | NotReconciled | TerminalResult

datatype liveResyncFailure = ReconciliationFailed | RequestFailed

record ('snap, 'ev, 'auth, 'w) liveResyncOptions =
  ro_captureAuthority :: "'w \<Rightarrow> 'auth"
  ro_reconcile :: "'snap \<Rightarrow> 'auth \<Rightarrow> 'w \<Rightarrow> 'w \<times> liveResyncReconcileResult"
  ro_applyBuffered :: "'ev \<Rightarrow> 'w \<Rightarrow> 'w \<times> bool"
  ro_onStarted :: "'w \<Rightarrow> 'w"
  ro_onSucceeded :: "'w \<Rightarrow> 'w"
  ro_onFailed :: "liveResyncFailure \<Rightarrow> 'w \<Rightarrow> 'w"
  ro_bufferLimit :: nat
  ro_maxAttempts :: nat
  ro_maxElapsedMs :: int
  ro_retryBaseMs :: int
  ro_retryMaxMs :: int

definition liveResyncBufferLimit :: nat where
  "liveResyncBufferLimit = 128"

datatype resyncCallback = DeadlineCallback | RetryCallback

record ('ev, 'auth, 'w) liveResync =
  rs_active :: bool
  rs_attempt :: nat
  rs_startedAt :: int
  rs_generation :: int
  rs_buffer :: "'ev list"
  rs_requestController :: "nat option"
  rs_retryTimer :: "nat option"
  rs_deadlineTimer :: "nat option"
  rs_timers :: "resyncCallback timers"
  rs_now :: int
  rs_nextController :: nat
  rs_aborted :: "nat list"
  rs_inflight :: "(nat \<times> int \<times> 'auth) list"
  rs_world :: 'w

text \<open>
  \<open>rs_inflight\<close> holds, for each request that has not settled, its abort controller with the
  generation and the authority its continuation captured.
\<close>

definition liveResync_new :: "int \<Rightarrow> 'w \<Rightarrow> ('ev, 'auth, 'w) liveResync" where
  "liveResync_new t w =
     \<lparr>rs_active = False, rs_attempt = 0, rs_startedAt = 0, rs_generation = 0, rs_buffer = [],
      rs_requestController = None, rs_retryTimer = None, rs_deadlineTimer = None,
      rs_timers = timers_new, rs_now = t, rs_nextController = 0, rs_aborted = [],
      rs_inflight = [], rs_world = w\<rparr>"

section \<open>Methods\<close>

definition isActive :: "('ev, 'auth, 'w) liveResync \<Rightarrow> bool" where
  "isActive s = rs_active s"

definition bufferedEventCount :: "('ev, 'auth, 'w) liveResync \<Rightarrow> nat" where
  "bufferedEventCount s = length (rs_buffer s)"

definition hasBudget ::
  "('snap, 'ev, 'auth, 'w) liveResyncOptions \<Rightarrow> int \<Rightarrow> ('ev, 'auth, 'w) liveResync \<Rightarrow> bool" where
  "hasBudget opts nextDelay s \<longleftrightarrow>
     rs_attempt s < ro_maxAttempts opts
     \<and> rs_now s - rs_startedAt s + nextDelay \<le> ro_maxElapsedMs opts"

definition clearDeadline :: "('ev, 'auth, 'w) liveResync \<Rightarrow> ('ev, 'auth, 'w) liveResync" where
  "clearDeadline s = (case rs_deadlineTimer s of
     None \<Rightarrow> s
   | Some t \<Rightarrow> s\<lparr>rs_timers := clear_timer t (rs_timers s), rs_deadlineTimer := None\<rparr>)"

definition cancelAttempt :: "('ev, 'auth, 'w) liveResync \<Rightarrow> ('ev, 'auth, 'w) liveResync" where
  "cancelAttempt s =
     (let s = (case rs_requestController s of
                 None \<Rightarrow> s
               | Some c \<Rightarrow> s\<lparr>rs_aborted := c # rs_aborted s, rs_requestController := None\<rparr>)
      in case rs_retryTimer s of
           None \<Rightarrow> s
         | Some t \<Rightarrow> s\<lparr>rs_timers := clear_timer t (rs_timers s), rs_retryTimer := None\<rparr>)"

definition resync_fail ::
  "('snap, 'ev, 'auth, 'w) liveResyncOptions \<Rightarrow> liveResyncFailure
   \<Rightarrow> ('ev, 'auth, 'w) liveResync \<Rightarrow> ('ev, 'auth, 'w) liveResync" where
  "resync_fail opts reason s =
     (let s = clearDeadline (cancelAttempt s)
      in s\<lparr>rs_active := False, rs_buffer := [], rs_world := ro_onFailed opts reason (rs_world s)\<rparr>)"

definition beginAttempt ::
  "('snap, 'ev, 'auth, 'w) liveResyncOptions \<Rightarrow> ('ev, 'auth, 'w) liveResync \<Rightarrow> ('ev, 'auth, 'w) liveResync" where
  "beginAttempt opts s =
     (if \<not> rs_active s then s
      else
        let s = cancelAttempt s
        in if \<not> hasBudget opts 0 s then resync_fail opts RequestFailed s
           else
             let controller = rs_nextController s;
                 generation = rs_generation s + 1
             in s\<lparr>rs_attempt := rs_attempt s + 1, rs_generation := generation,
                  rs_nextController := Suc controller, rs_requestController := Some controller,
                  rs_buffer := [],
                  rs_inflight := rs_inflight s @ [(controller, generation, ro_captureAuthority opts (rs_world s))]\<rparr>)"

definition resync_start ::
  "('snap, 'ev, 'auth, 'w) liveResyncOptions \<Rightarrow> ('ev, 'auth, 'w) liveResync \<Rightarrow> ('ev, 'auth, 'w) liveResync" where
  "resync_start opts s =
     beginAttempt opts
       (if \<not> rs_active s then
          let (ts, t) = set_timer DeadlineCallback (ro_maxElapsedMs opts) (rs_timers s)
          in s\<lparr>rs_active := True, rs_attempt := 0, rs_startedAt := rs_now s, rs_timers := ts,
               rs_deadlineTimer := Some t, rs_world := ro_onStarted opts (rs_world s)\<rparr>
        else s)"

definition bufferEvent ::
  "('snap, 'ev, 'auth, 'w) liveResyncOptions \<Rightarrow> 'ev \<Rightarrow> ('ev, 'auth, 'w) liveResync
   \<Rightarrow> ('ev, 'auth, 'w) liveResync \<times> bool" where
  "bufferEvent opts event s =
     (if \<not> rs_active s then (s, False)
      else if length (rs_buffer s) < ro_bufferLimit opts
        then (s\<lparr>rs_buffer := rs_buffer s @ [event]\<rparr>, True)
      else (beginAttempt opts s, True))"

definition resync_stop :: "('ev, 'auth, 'w) liveResync \<Rightarrow> ('ev, 'auth, 'w) liveResync" where
  "resync_stop s =
     (let s = clearDeadline (cancelAttempt (s\<lparr>rs_generation := rs_generation s + 1\<rparr>))
      in s\<lparr>rs_active := False, rs_buffer := []\<rparr>)"

definition retryDelay :: "('snap, 'ev, 'auth, 'w) liveResyncOptions \<Rightarrow> nat \<Rightarrow> int" where
  "retryDelay opts attempt = min (ro_retryMaxMs opts) (ro_retryBaseMs opts * 2 ^ (attempt - 1))"

definition resync_retry ::
  "('snap, 'ev, 'auth, 'w) liveResyncOptions \<Rightarrow> liveResyncFailure
   \<Rightarrow> ('ev, 'auth, 'w) liveResync \<Rightarrow> ('ev, 'auth, 'w) liveResync" where
  "resync_retry opts reason s =
     (if \<not> rs_active s then s
      else
        let delay = retryDelay opts (rs_attempt s)
        in if \<not> hasBudget opts delay s then resync_fail opts reason s
           else
             let (ts, t) = set_timer RetryCallback delay (rs_timers s)
             in s\<lparr>rs_timers := ts, rs_retryTimer := Some t\<rparr>)"

definition isCurrentRequest :: "int \<Rightarrow> nat \<Rightarrow> ('ev, 'auth, 'w) liveResync \<Rightarrow> bool" where
  "isCurrentRequest generation controller s \<longleftrightarrow>
     rs_active s \<and> rs_generation s = generation \<and> rs_requestController s = Some controller
     \<and> controller \<notin> set (rs_aborted s)"

text \<open>The replay loop stops at the first buffered event that does not apply.\<close>

fun replay :: "('ev \<Rightarrow> 'w \<Rightarrow> 'w \<times> bool) \<Rightarrow> 'ev list \<Rightarrow> 'w \<Rightarrow> 'w \<times> bool" where
  "replay apply [] w = (w, True)"
| "replay apply (event # events) w =
     (let (w', ok) = apply event w in if ok then replay apply events w' else (w', False))"

text \<open>The continuation of a request that resolved with a snapshot.\<close>

definition requestResolved ::
  "('snap, 'ev, 'auth, 'w) liveResyncOptions \<Rightarrow> int \<Rightarrow> nat \<Rightarrow> 'auth \<Rightarrow> 'snap
   \<Rightarrow> ('ev, 'auth, 'w) liveResync \<Rightarrow> ('ev, 'auth, 'w) liveResync" where
  "requestResolved opts generation controller requestedAuthority snapshot s =
     (if \<not> isCurrentRequest generation controller s then s
      else
        let (w, reconciled) = ro_reconcile opts snapshot requestedAuthority (rs_world s);
            s = s\<lparr>rs_requestController := None, rs_world := w\<rparr>
        in case reconciled of
             TerminalResult \<Rightarrow> resync_fail opts ReconciliationFailed s
           | NotReconciled \<Rightarrow> resync_retry opts ReconciliationFailed s
           | Reconciled \<Rightarrow>
               let (w, applied) = replay (ro_applyBuffered opts) (rs_buffer s) (rs_world s);
                   s = s\<lparr>rs_buffer := [], rs_world := w\<rparr>
               in if \<not> applied then resync_retry opts ReconciliationFailed s
                  else
                    let s = clearDeadline (s\<lparr>rs_active := False\<rparr>)
                    in s\<lparr>rs_world := ro_onSucceeded opts (rs_world s)\<rparr>)"

definition requestRejected ::
  "('snap, 'ev, 'auth, 'w) liveResyncOptions \<Rightarrow> int \<Rightarrow> nat \<Rightarrow> bool
   \<Rightarrow> ('ev, 'auth, 'w) liveResync \<Rightarrow> ('ev, 'auth, 'w) liveResync" where
  "requestRejected opts generation controller isAbortError s =
     (if \<not> isCurrentRequest generation controller s then s
      else
        let s = s\<lparr>rs_requestController := None\<rparr>
        in if isAbortError then s else resync_retry opts RequestFailed s)"

definition deadlineFired ::
  "('snap, 'ev, 'auth, 'w) liveResyncOptions \<Rightarrow> ('ev, 'auth, 'w) liveResync \<Rightarrow> ('ev, 'auth, 'w) liveResync" where
  "deadlineFired opts s =
     (let s = s\<lparr>rs_deadlineTimer := None\<rparr>
      in if rs_active s then resync_fail opts RequestFailed s else s)"

definition retryFired ::
  "('snap, 'ev, 'auth, 'w) liveResyncOptions \<Rightarrow> ('ev, 'auth, 'w) liveResync \<Rightarrow> ('ev, 'auth, 'w) liveResync" where
  "retryFired opts s = beginAttempt opts (s\<lparr>rs_retryTimer := None\<rparr>)"

section \<open>Steps\<close>

datatype ('snap, 'ev) resync_event =
    Start
  | BufferEvent 'ev
  | Stop
  | Resolved nat 'snap
  | Rejected nat bool
  | TimerFired nat
  | ClockAdvanced nat

definition take_inflight :: "nat \<Rightarrow> ('ev, 'auth, 'w) liveResync \<Rightarrow> ('ev, 'auth, 'w) liveResync" where
  "take_inflight c s = s\<lparr>rs_inflight := AList.delete c (rs_inflight s)\<rparr>"

fun resync_step ::
  "('snap, 'ev, 'auth, 'w) liveResyncOptions \<Rightarrow> ('snap, 'ev) resync_event
   \<Rightarrow> ('ev, 'auth, 'w) liveResync \<Rightarrow> ('ev, 'auth, 'w) liveResync" where
  "resync_step opts Start s = resync_start opts s"
| "resync_step opts (BufferEvent e) s = fst (bufferEvent opts e s)"
| "resync_step opts Stop s = resync_stop s"
| "resync_step opts (Resolved c snapshot) s =
     (case map_of (rs_inflight s) c of
        None \<Rightarrow> s
      | Some (generation, authority) \<Rightarrow>
          requestResolved opts generation c authority snapshot (take_inflight c s))"
| "resync_step opts (Rejected c isAbortError) s =
     (case map_of (rs_inflight s) c of
        None \<Rightarrow> s
      | Some (generation, authority) \<Rightarrow>
          requestRejected opts generation c isAbortError (take_inflight c s))"
| "resync_step opts (TimerFired i) s =
     (case pending_timer (rs_timers s) i of
        None \<Rightarrow> s
      | Some (callback, delay) \<Rightarrow>
          let s = s\<lparr>rs_timers := clear_timer i (rs_timers s)\<rparr>
          in case callback of
               DeadlineCallback \<Rightarrow> deadlineFired opts s
             | RetryCallback \<Rightarrow> retryFired opts s)"
| "resync_step opts (ClockAdvanced d) s = s\<lparr>rs_now := rs_now s + int d\<rparr>"

section \<open>Invariant\<close>

text \<open>
  The timers the controller owns are exactly those its two handles name; an active controller
  has its deadline pending; an inactive one has nothing in hand; the current request is in
  flight, under the current generation and not aborted.
\<close>

definition handles_ok :: "nat option \<Rightarrow> nat option \<Rightarrow> resyncCallback timers \<Rightarrow> bool" where
  "handles_ok deadline retry ts \<longleftrightarrow> timers_inv ts
     \<and> timers.owns deadline (\<lambda>k. k = DeadlineCallback) ts
     \<and> timers.owns retry (\<lambda>k. k = RetryCallback) ts"

definition requests_ok ::
  "(nat \<times> int \<times> 'auth) list \<Rightarrow> nat list \<Rightarrow> nat \<Rightarrow> nat option \<Rightarrow> int \<Rightarrow> bool" where
  "requests_ok inflight aborted next current generation \<longleftrightarrow>
     (\<forall>c\<in>fst ` set inflight \<union> set aborted. c < next)
     \<and> (\<forall>c. current = Some c \<longrightarrow>
          c \<notin> set aborted \<and> (\<exists>a. map_of inflight c = Some (generation, a)))"

definition resync_shape :: "('snap, 'ev, 'auth, 'w) liveResyncOptions \<Rightarrow> ('ev, 'auth, 'w) liveResync \<Rightarrow> bool" where
  "resync_shape opts s \<longleftrightarrow>
     (rs_active s \<longleftrightarrow> rs_deadlineTimer s \<noteq> None)
     \<and> (\<not> rs_active s \<longrightarrow> rs_buffer s = [] \<and> rs_requestController s = None \<and> rs_retryTimer s = None)
     \<and> length (rs_buffer s) \<le> ro_bufferLimit opts
     \<and> (rs_active s \<longrightarrow> rs_attempt s \<le> ro_maxAttempts opts)
     \<and> (rs_requestController s = None \<or> rs_retryTimer s = None)"

definition resync_inv :: "('snap, 'ev, 'auth, 'w) liveResyncOptions \<Rightarrow> ('ev, 'auth, 'w) liveResync \<Rightarrow> bool" where
  "resync_inv opts s \<longleftrightarrow>
     handles_ok (rs_deadlineTimer s) (rs_retryTimer s) (rs_timers s)
     \<and> requests_ok (rs_inflight s) (rs_aborted s) (rs_nextController s) (rs_requestController s) (rs_generation s)
     \<and> resync_shape opts s"

lemma handles_clear_deadline:
  assumes "handles_ok (Some i) r ts"
  shows "handles_ok None r (clear_timer i ts)"
proof -
  have "timers.owns r (\<lambda>k. k = RetryCallback) (clear_timer i ts)"
    using assms by (intro timers.owns_clear_disjoint [where Q = "\<lambda>k. k = DeadlineCallback"])
      (simp_all add: handles_ok_def)
  with assms show ?thesis by (simp add: handles_ok_def timers.inv_clear timers.owns_clear)
qed

lemma handles_clear_retry:
  assumes "handles_ok d (Some i) ts"
  shows "handles_ok d None (clear_timer i ts)"
proof -
  have "timers.owns d (\<lambda>k. k = DeadlineCallback) (clear_timer i ts)"
    using assms by (intro timers.owns_clear_disjoint [where Q = "\<lambda>k. k = RetryCallback"])
      (simp_all add: handles_ok_def)
  with assms show ?thesis by (simp add: handles_ok_def timers.inv_clear timers.owns_clear)
qed

lemma handles_set_retry:
  "handles_ok d None ts \<Longrightarrow>
    handles_ok d (Some (snd (set_timer RetryCallback n ts))) (fst (set_timer RetryCallback n ts))"
  by (simp add: handles_ok_def timers.inv_set timers.owns_set timers.owns_set_other)

lemma handles_set_deadline:
  "handles_ok None r ts \<Longrightarrow>
    handles_ok (Some (snd (set_timer DeadlineCallback n ts))) r (fst (set_timer DeadlineCallback n ts))"
  by (simp add: handles_ok_def timers.inv_set timers.owns_set timers.owns_set_other)

lemma handles_fired:
  assumes "handles_ok d r ts" "pending_timer ts i = Some (k, n)"
  shows "(case k of DeadlineCallback \<Rightarrow> d = Some i | RetryCallback \<Rightarrow> r = Some i)"
  using assms by (auto simp: handles_ok_def split: resyncCallback.splits dest: timers.owns_fired)

lemmas handles_lemmas = handles_clear_deadline handles_clear_retry handles_set_retry handles_set_deadline

lemma requests_abort:
  "requests_ok inflight aborted next (Some c) g \<Longrightarrow> requests_ok inflight (c # aborted) next None g'"
proof -
  assume ok: "requests_ok inflight aborted next (Some c) g"
  then obtain a where "map_of inflight c = Some (g, a)" by (auto simp: requests_ok_def)
  then have "c \<in> fst ` set inflight" by (metis map_of_eq_None_iff option.distinct(1))
  with ok show ?thesis by (simp add: requests_ok_def)
qed

lemma requests_drop: "requests_ok inflight aborted next current g \<Longrightarrow> requests_ok inflight aborted next None g'"
  by (simp add: requests_ok_def)

lemma requests_begin:
  assumes "requests_ok inflight aborted next current g"
  shows "requests_ok (inflight @ [(next, g', a)]) aborted (Suc next) (Some next) g'"
proof -
  have fresh: "map_of inflight next = None" "next \<notin> set aborted"
    using assms by (auto simp: requests_ok_def map_of_eq_None_iff)
  with assms show ?thesis
    by (auto simp: requests_ok_def map_add_def less_Suc_eq)
qed

lemma requests_settle:
  "requests_ok inflight aborted next current g \<Longrightarrow> current \<noteq> Some c \<Longrightarrow>
    requests_ok (AList.delete c inflight) aborted next current g"
  by (auto simp: requests_ok_def keys_delete AList.delete_conv)

lemma requests_settle_current:
  "requests_ok inflight aborted next current g \<Longrightarrow> requests_ok (AList.delete c inflight) aborted next None g'"
  by (auto simp: requests_ok_def keys_delete)

lemmas requests_lemmas = requests_abort requests_begin

subsection \<open>The internal operations\<close>

lemma clearDeadline_fields [simp]:
  "rs_deadlineTimer (clearDeadline s) = None" "rs_retryTimer (clearDeadline s) = rs_retryTimer s"
  "rs_active (clearDeadline s) = rs_active s" "rs_buffer (clearDeadline s) = rs_buffer s"
  "rs_requestController (clearDeadline s) = rs_requestController s"
  "rs_inflight (clearDeadline s) = rs_inflight s" "rs_aborted (clearDeadline s) = rs_aborted s"
  "rs_nextController (clearDeadline s) = rs_nextController s"
  "rs_generation (clearDeadline s) = rs_generation s" "rs_attempt (clearDeadline s) = rs_attempt s"
  "rs_world (clearDeadline s) = rs_world s" "rs_now (clearDeadline s) = rs_now s"
  "rs_startedAt (clearDeadline s) = rs_startedAt s"
  by (simp_all add: clearDeadline_def split: option.splits)

lemma handles_clearDeadline:
  "handles_ok (rs_deadlineTimer s) r (rs_timers s) \<Longrightarrow> handles_ok None r (rs_timers (clearDeadline s))"
  by (auto simp: clearDeadline_def handles_lemmas split: option.splits)

lemma cancelAttempt_fields [simp]:
  "rs_retryTimer (cancelAttempt s) = None" "rs_requestController (cancelAttempt s) = None"
  "rs_deadlineTimer (cancelAttempt s) = rs_deadlineTimer s"
  "rs_active (cancelAttempt s) = rs_active s" "rs_buffer (cancelAttempt s) = rs_buffer s"
  "rs_inflight (cancelAttempt s) = rs_inflight s"
  "rs_nextController (cancelAttempt s) = rs_nextController s"
  "rs_generation (cancelAttempt s) = rs_generation s" "rs_attempt (cancelAttempt s) = rs_attempt s"
  "rs_world (cancelAttempt s) = rs_world s" "rs_now (cancelAttempt s) = rs_now s"
  "rs_startedAt (cancelAttempt s) = rs_startedAt s"
  by (simp_all add: cancelAttempt_def Let_def split: option.splits)

lemma handles_cancelAttempt:
  "handles_ok d (rs_retryTimer s) (rs_timers s) \<Longrightarrow> handles_ok d None (rs_timers (cancelAttempt s))"
  by (auto simp: cancelAttempt_def Let_def handles_lemmas split: option.splits)

lemma requests_cancelAttempt:
  "requests_ok i (rs_aborted s) n (rs_requestController s) g \<Longrightarrow>
    requests_ok i (rs_aborted (cancelAttempt s)) n None g'"
  by (auto simp: cancelAttempt_def Let_def intro: requests_abort requests_drop split: option.splits)

text \<open>\<open>fail\<close> and \<open>stop\<close> leave an idle controller, whatever the state was.\<close>

definition resync_idle :: "('ev, 'auth, 'w) liveResync \<Rightarrow> bool" where
  "resync_idle s \<longleftrightarrow> \<not> rs_active s \<and> rs_buffer s = [] \<and> rs_requestController s = None
     \<and> rs_retryTimer s = None \<and> rs_deadlineTimer s = None"

definition resync_base :: "('ev, 'auth, 'w) liveResync \<Rightarrow> bool" where
  "resync_base s \<longleftrightarrow> handles_ok (rs_deadlineTimer s) (rs_retryTimer s) (rs_timers s)
     \<and> requests_ok (rs_inflight s) (rs_aborted s) (rs_nextController s) (rs_requestController s) (rs_generation s)"

lemma resync_inv_base: "resync_inv opts s \<Longrightarrow> resync_base s"
  by (simp add: resync_inv_def resync_base_def)

lemma resync_inv_idle: "resync_base s \<Longrightarrow> resync_idle s \<Longrightarrow> resync_inv opts s"
  by (simp add: resync_inv_def resync_base_def resync_idle_def resync_shape_def)

lemma resync_fail_idle: "resync_idle (resync_fail opts reason s)"
  by (simp add: resync_fail_def resync_idle_def Let_def)

lemma resync_fail_base: "resync_base s \<Longrightarrow> resync_base (resync_fail opts reason s)"
  unfolding resync_base_def resync_fail_def Let_def
  by (auto intro!: handles_clearDeadline handles_cancelAttempt intro: requests_cancelAttempt)

lemma resync_stop_idle: "resync_idle (resync_stop s)"
  by (simp add: resync_stop_def resync_idle_def Let_def)

lemma resync_stop_base: "resync_base s \<Longrightarrow> resync_base (resync_stop s)"
  unfolding resync_base_def resync_stop_def Let_def
  by (auto intro!: handles_clearDeadline handles_cancelAttempt requests_cancelAttempt)

lemma resync_fail_inv: "resync_base s \<Longrightarrow> resync_inv opts (resync_fail opts reason s)"
  by (rule resync_inv_idle [OF resync_fail_base resync_fail_idle])

lemma resync_stop_inv: "resync_inv opts s \<Longrightarrow> resync_inv opts (resync_stop s)"
  by (rule resync_inv_idle [OF resync_stop_base resync_stop_idle]) (rule resync_inv_base)

text \<open>Starting an attempt needs an active controller with its deadline pending.\<close>

definition resync_armed :: "('ev, 'auth, 'w) liveResync \<Rightarrow> bool" where
  "resync_armed s \<longleftrightarrow> rs_active s \<and> rs_deadlineTimer s \<noteq> None"

lemma beginAttempt_armed_inv:
  assumes "resync_base s" "resync_armed s"
  shows "resync_inv opts (beginAttempt opts s)"
proof (cases "hasBudget opts 0 (cancelAttempt s)")
  case True
  then have "rs_attempt s < ro_maxAttempts opts" by (simp add: hasBudget_def)
  with True assms show ?thesis
    by (auto simp: beginAttempt_def Let_def resync_armed_def resync_inv_def resync_base_def
        resync_shape_def intro: handles_cancelAttempt requests_begin requests_cancelAttempt)
next
  case False
  have "resync_base (cancelAttempt s)"
    using assms by (auto simp: resync_base_def intro: handles_cancelAttempt requests_cancelAttempt)
  with False assms show ?thesis
    by (simp add: beginAttempt_def Let_def resync_armed_def resync_fail_inv)
qed

lemma resync_inv_armed: "resync_inv opts s \<Longrightarrow> rs_active s \<Longrightarrow> resync_armed s"
  by (auto simp: resync_inv_def resync_shape_def resync_armed_def)

lemma beginAttempt_inv: "resync_inv opts s \<Longrightarrow> resync_inv opts (beginAttempt opts s)"
  by (cases "rs_active s")
    (auto simp: beginAttempt_armed_inv resync_inv_base resync_inv_armed, simp add: beginAttempt_def)

lemma resync_start_inv:
  assumes "resync_inv opts s"
  shows "resync_inv opts (resync_start opts s)"
proof (cases "rs_active s")
  case True
  with assms show ?thesis by (simp add: resync_start_def beginAttempt_inv)
next
  case False
  let ?set = "set_timer DeadlineCallback (ro_maxElapsedMs opts) (rs_timers s)"
  let ?s = "s\<lparr>rs_active := True, rs_attempt := 0, rs_startedAt := rs_now s, rs_timers := fst ?set,
    rs_deadlineTimer := Some (snd ?set), rs_world := ro_onStarted opts (rs_world s)\<rparr>"
  have "rs_deadlineTimer s = None" using assms False by (simp add: resync_inv_def resync_shape_def)
  with assms have "resync_base ?s"
    by (simp add: resync_inv_def resync_base_def handles_set_deadline)
  then have "resync_inv opts (beginAttempt opts ?s)"
    by (rule beginAttempt_armed_inv) (simp add: resync_armed_def)
  with False show ?thesis by (simp add: resync_start_def case_prod_unfold Let_def)
qed

lemma bufferEvent_inv: "resync_inv opts s \<Longrightarrow> resync_inv opts (fst (bufferEvent opts e s))"
  by (auto simp: bufferEvent_def beginAttempt_inv)
    (simp add: resync_inv_def resync_shape_def)

lemma resync_retry_inv:
  assumes "resync_base s" "resync_armed s" "rs_requestController s = None" "rs_retryTimer s = None"
    "length (rs_buffer s) \<le> ro_bufferLimit opts" "rs_attempt s \<le> ro_maxAttempts opts"
  shows "resync_inv opts (resync_retry opts reason s)"
proof (cases "hasBudget opts (retryDelay opts (rs_attempt s)) s")
  case True
  with assms show ?thesis
    by (simp add: resync_retry_def Let_def case_prod_unfold resync_armed_def resync_inv_def
        resync_base_def resync_shape_def handles_set_retry)
next
  case False
  with assms show ?thesis by (simp add: resync_retry_def Let_def resync_armed_def resync_fail_inv)
qed

text \<open>Taking the answer of the current request out of flight.\<close>

lemma settle_current_base:
  assumes "resync_inv opts s" "isCurrentRequest g c (take_inflight c s)"
  shows "resync_base (take_inflight c s\<lparr>rs_requestController := None, rs_world := w\<rparr>)"
    and "resync_armed s" "rs_retryTimer s = None"
  using assms
  by (auto simp: resync_inv_def resync_base_def take_inflight_def isCurrentRequest_def
      resync_shape_def resync_armed_def intro: requests_settle_current)

lemma settle_stale_inv:
  assumes "resync_inv opts s" "map_of (rs_inflight s) c = Some (g, a)"
    "\<not> isCurrentRequest g c (take_inflight c s)"
  shows "resync_inv opts (take_inflight c s)"
proof -
  have "rs_requestController s \<noteq> Some c"
    using assms by (auto simp: resync_inv_def requests_ok_def resync_shape_def isCurrentRequest_def take_inflight_def)
  then show ?thesis
    using assms(1) by (simp add: resync_inv_def resync_shape_def take_inflight_def requests_settle)
qed

lemma requestResolved_inv:
  assumes inv: "resync_inv opts s" and req: "map_of (rs_inflight s) c = Some (g, a)"
  shows "resync_inv opts (requestResolved opts g c a snapshot (take_inflight c s))"
proof (cases "isCurrentRequest g c (take_inflight c s)")
  case False
  with settle_stale_inv [OF inv req] show ?thesis by (simp add: requestResolved_def)
next
  case current: True
  let ?t = "take_inflight c s"
  obtain w r where rec: "ro_reconcile opts snapshot a (rs_world ?t) = (w, r)" by fastforce
  obtain w' ok where rep: "replay (ro_applyBuffered opts) (rs_buffer ?t) w = (w', ok)" by fastforce
  note base = settle_current_base [OF inv current]
  have shape: "length (rs_buffer s) \<le> ro_bufferLimit opts" "rs_attempt s \<le> ro_maxAttempts opts"
    using inv base(2) by (auto simp: resync_inv_def resync_shape_def resync_armed_def)
  have retry: "resync_inv opts (resync_retry opts reason
      (?t\<lparr>rs_requestController := None, rs_buffer := b, rs_world := v\<rparr>))"
    if "length b \<le> ro_bufferLimit opts" for reason b v
    using base shape that
    by (intro resync_retry_inv) (auto simp: resync_base_def resync_armed_def take_inflight_def)
  have fin: "resync_inv opts (clearDeadline (?t\<lparr>rs_requestController := None, rs_buffer := [],
      rs_world := w', rs_active := False\<rparr>)\<lparr>rs_world := v\<rparr>)" for v
    using base by (intro resync_inv_idle)
      (auto simp: resync_base_def resync_idle_def take_inflight_def intro: handles_clearDeadline)
  show ?thesis
    using current rec rep base(1) [of w] retry [OF shape(1), of ReconciliationFailed w]
      retry [of "[]" ReconciliationFailed w'] fin
    by (cases r; cases ok)
      (simp_all add: requestResolved_def Let_def resync_fail_inv take_inflight_def)
qed

lemma requestRejected_inv:
  assumes inv: "resync_inv opts s" and req: "map_of (rs_inflight s) c = Some (g, a)"
  shows "resync_inv opts (requestRejected opts g c abort (take_inflight c s))"
proof (cases "isCurrentRequest g c (take_inflight c s)")
  case False
  with settle_stale_inv [OF inv req] show ?thesis by (simp add: requestRejected_def)
next
  case current: True
  note base = settle_current_base [OF inv current]
  have shape: "length (rs_buffer s) \<le> ro_bufferLimit opts" "rs_attempt s \<le> ro_maxAttempts opts"
    using inv base(2) by (auto simp: resync_inv_def resync_shape_def resync_armed_def)
  let ?s = "take_inflight c s\<lparr>rs_requestController := None\<rparr>"
  have base': "resync_base ?s" "resync_armed ?s"
    using base(1) [of "rs_world s"] base(2)
    by (simp_all add: resync_base_def resync_armed_def take_inflight_def)
  have "resync_inv opts (resync_retry opts RequestFailed ?s)"
    using base' base(3) shape by (intro resync_retry_inv) (simp_all add: take_inflight_def)
  moreover have "resync_inv opts ?s"
    using base' base(3) shape
    by (simp add: resync_inv_def resync_base_def resync_armed_def resync_shape_def take_inflight_def)
  ultimately show ?thesis using current by (simp add: requestRejected_def Let_def)
qed

lemma timerFired_inv:
  assumes inv: "resync_inv opts s" and fired: "pending_timer (rs_timers s) i = Some (k, d)"
  shows "resync_inv opts (case k of
      DeadlineCallback \<Rightarrow> deadlineFired opts (s\<lparr>rs_timers := clear_timer i (rs_timers s)\<rparr>)
    | RetryCallback \<Rightarrow> retryFired opts (s\<lparr>rs_timers := clear_timer i (rs_timers s)\<rparr>))"
proof (cases k)
  case DeadlineCallback
  with inv fired have "rs_deadlineTimer s = Some i"
    using handles_fired [of "rs_deadlineTimer s" "rs_retryTimer s" "rs_timers s" i k d]
    by (simp add: resync_inv_def)
  with inv have "rs_active s" and "resync_base (s\<lparr>rs_timers := clear_timer i (rs_timers s), rs_deadlineTimer := None\<rparr>)"
    by (auto simp: resync_inv_def resync_base_def resync_shape_def handles_clear_deadline)
  with DeadlineCallback show ?thesis by (simp add: deadlineFired_def Let_def resync_fail_inv)
next
  case RetryCallback
  with inv fired have "rs_retryTimer s = Some i"
    using handles_fired [of "rs_deadlineTimer s" "rs_retryTimer s" "rs_timers s" i k d]
    by (simp add: resync_inv_def)
  with inv have "resync_inv opts (s\<lparr>rs_timers := clear_timer i (rs_timers s), rs_retryTimer := None\<rparr>)"
    by (auto simp: resync_inv_def resync_shape_def handles_clear_retry)
  with RetryCallback show ?thesis by (simp add: retryFired_def beginAttempt_inv)
qed

theorem resync_step_inv: "resync_inv opts s \<Longrightarrow> resync_inv opts (resync_step opts ev s)"
proof (cases ev)
  case (Resolved c snapshot)
  assume "resync_inv opts s"
  with Resolved show ?thesis by (auto simp: requestResolved_inv split: option.splits)
next
  case (Rejected c abort)
  assume "resync_inv opts s"
  with Rejected show ?thesis by (auto simp: requestRejected_inv split: option.splits)
next
  case (TimerFired i)
  assume "resync_inv opts s"
  with TimerFired timerFired_inv show ?thesis by (auto simp: Let_def split: option.splits)
next
  case (ClockAdvanced d)
  assume "resync_inv opts s"
  with ClockAdvanced show ?thesis by (simp add: resync_inv_def resync_shape_def)
qed (simp_all add: resync_start_inv bufferEvent_inv resync_stop_inv)

section \<open>Reachable states\<close>

inductive resync_reachable ::
  "('snap, 'ev, 'auth, 'w) liveResyncOptions \<Rightarrow> ('ev, 'auth, 'w) liveResync \<Rightarrow> bool"
  for opts :: "('snap, 'ev, 'auth, 'w) liveResyncOptions" where
  created: "resync_reachable opts (liveResync_new t w)"
| stepped: "resync_reachable opts s \<Longrightarrow> resync_reachable opts (resync_step opts ev s)"

lemma resync_inv_new: "resync_inv opts (liveResync_new t w)"
  by (simp add: resync_inv_def handles_ok_def requests_ok_def resync_shape_def
      liveResync_new_def timers_inv_new timers.owns_def)

lemma resync_reachable_inv: "resync_reachable opts s \<Longrightarrow> resync_inv opts s"
  by (induction rule: resync_reachable.induct) (simp_all add: resync_inv_new resync_step_inv)

section \<open>Runs\<close>

lemma replay_fold:
  "replay apply es w = (w', True) \<Longrightarrow> w' = fold (\<lambda>e v. fst (apply e v)) es w"
  by (induction es arbitrary: w) (auto split: prod.splits if_splits)

text \<open>Events that arrive while the request is in flight queue up in order.\<close>

lemma buffer_run:
  "rs_active s \<Longrightarrow> length (rs_buffer s) + length es \<le> ro_bufferLimit opts \<Longrightarrow>
    fold (\<lambda>e. resync_step opts (BufferEvent e)) es s = s\<lparr>rs_buffer := rs_buffer s @ es\<rparr>"
proof (induction es arbitrary: s)
  case (Cons e es)
  from Cons.prems have "resync_step opts (BufferEvent e) s = s\<lparr>rs_buffer := rs_buffer s @ [e]\<rparr>"
    by (simp add: bufferEvent_def)
  with Cons.IH [of "s\<lparr>rs_buffer := rs_buffer s @ [e]\<rparr>"] Cons.prems show ?case by simp
qed simp

lemma current_request_current:
  assumes "resync_inv opts s" "rs_requestController s = Some c" "map_of (rs_inflight s) c = Some (g, a)"
  shows "rs_active s \<and> isCurrentRequest g c (take_inflight c (s\<lparr>rs_buffer := b\<rparr>))"
proof -
  have "rs_active s" using assms by (auto simp: resync_inv_def resync_shape_def)
  with assms show ?thesis
    by (auto simp: resync_inv_def requests_ok_def isCurrentRequest_def take_inflight_def)
qed

fun stays_active ::
  "('snap, 'ev, 'auth, 'w) liveResyncOptions \<Rightarrow> ('snap, 'ev) resync_event list
   \<Rightarrow> ('ev, 'auth, 'w) liveResync \<Rightarrow> bool" where
  "stays_active opts [] s = rs_active s"
| "stays_active opts (ev # evs) s = (rs_active s \<and> stays_active opts evs (resync_step opts ev s))"

lemma resync_fail_inactive [simp]: "\<not> rs_active (resync_fail opts reason s)"
  using resync_fail_idle [of opts reason s] by (simp add: resync_idle_def)

definition request_count :: "('ev, 'auth, 'w) liveResync \<Rightarrow> int" where
  "request_count s = int (rs_nextController s) - int (rs_attempt s)"

lemma beginAttempt_count:
  "rs_active (beginAttempt opts s) \<Longrightarrow> request_count (beginAttempt opts s) = request_count s"
  by (auto simp: beginAttempt_def request_count_def Let_def split: if_splits)

lemma resync_retry_count:
  "rs_active (resync_retry opts reason s) \<Longrightarrow> request_count (resync_retry opts reason s) = request_count s"
  by (auto simp: resync_retry_def request_count_def Let_def split: if_splits prod.splits)

lemma request_count_irrelevant [simp]:
  "request_count (s\<lparr>rs_world := w\<rparr>) = request_count s" "request_count (s\<lparr>rs_buffer := b\<rparr>) = request_count s"
  "request_count (s\<lparr>rs_requestController := c\<rparr>) = request_count s"
  "request_count (s\<lparr>rs_retryTimer := r\<rparr>) = request_count s" "request_count (s\<lparr>rs_timers := ts\<rparr>) = request_count s"
  "request_count (s\<lparr>rs_now := t\<rparr>) = request_count s" "request_count (take_inflight k s) = request_count s"
  by (simp_all add: request_count_def take_inflight_def)

lemma requestResolved_count:
  "rs_active (requestResolved opts g c a snap s) \<Longrightarrow>
    request_count (requestResolved opts g c a snap s) = request_count s"
  by (auto simp: requestResolved_def Let_def resync_retry_count
      split: prod.splits liveResyncReconcileResult.splits if_splits)

lemma requestRejected_count:
  "rs_active (requestRejected opts g c abort s) \<Longrightarrow>
    request_count (requestRejected opts g c abort s) = request_count s"
  by (auto simp: requestRejected_def Let_def resync_retry_count split: if_splits)

lemma resync_step_count:
  "rs_active s \<Longrightarrow> rs_active (resync_step opts ev s) \<Longrightarrow> request_count (resync_step opts ev s) = request_count s"
  by (cases ev)
    (auto simp: resync_start_def bufferEvent_def resync_stop_def deadlineFired_def retryFired_def Let_def
      beginAttempt_count requestResolved_count requestRejected_count
      split: if_splits option.splits resyncCallback.splits)

lemma stays_active_head: "stays_active opts evs s \<Longrightarrow> rs_active s"
  by (cases evs) auto

lemma stays_active_count:
  "stays_active opts evs s \<Longrightarrow>
    rs_active (fold (resync_step opts) evs s) \<and> request_count (fold (resync_step opts) evs s) = request_count s"
proof (induction evs arbitrary: s)
  case (Cons ev evs)
  from Cons.prems have "rs_active s" "stays_active opts evs (resync_step opts ev s)" by simp_all
  with Cons.IH [of "resync_step opts ev s"] resync_step_count [of s opts ev]
  show ?case by (auto dest: stays_active_head)
qed simp

lemma resync_run_inv: "resync_inv opts s \<Longrightarrow> resync_inv opts (fold (resync_step opts) evs s)"
  by (induction evs arbitrary: s) (simp_all add: resync_step_inv)

text \<open>A room that is a list of numbers, to instantiate the callbacks in the examples.\<close>

definition sample_options :: "(nat list, nat, nat, nat list) liveResyncOptions" where
  "sample_options = \<lparr>ro_captureAuthority = length, ro_reconcile = (\<lambda>snapshot a w. (snapshot, Reconciled)),
     ro_applyBuffered = (\<lambda>e w. (w @ [e], True)), ro_onStarted = (\<lambda>w. w), ro_onSucceeded = (\<lambda>w. w),
     ro_onFailed = (\<lambda>_ w. w), ro_bufferLimit = liveResyncBufferLimit, ro_maxAttempts = 4,
     ro_maxElapsedMs = 10000, ro_retryBaseMs = 150, ro_retryMaxMs = 1200\<rparr>"

definition sample_resync :: "(nat, nat, nat list) liveResync" where
  "sample_resync = resync_step sample_options Start (liveResync_new 0 [5])"

lemma sample_reachable: "resync_reachable sample_options sample_resync"
  unfolding sample_resync_def by (intro resync_reachable.intros)

lemmas sample_resync_eval = sample_resync_def sample_options_def resync_start_def liveResync_new_def
  beginAttempt_def cancelAttempt_def hasBudget_def set_timer_def timers_new_def Let_def

lemma sample_resync_fields:
  "rs_active sample_resync" "rs_requestController sample_resync = Some 0"
  "rs_inflight sample_resync = [(0, 1, 1)]" "rs_buffer sample_resync = []"
  "rs_world sample_resync = [5]" "rs_attempt sample_resync = 1" "rs_nextController sample_resync = 1"
  by (simp_all add: sample_resync_eval)

section \<open>Properties\<close>

text \<open>
  C18. A resynchronisation never hangs: in every reachable state an active controller has its
  deadline timer pending, and when that timer fires the controller becomes inactive, with its
  buffer, its request and its retry timer gone. A controller that is not active holds nothing.
\<close>

theorem resync_always_ends:
  assumes "resync_reachable opts s"
  shows "if rs_active s
    then \<exists>i d. rs_deadlineTimer s = Some i \<and> pending_timer (rs_timers s) i = Some (DeadlineCallback, d)
           \<and> resync_idle (resync_step opts (TimerFired i) s)
    else resync_idle s"
proof -
  have inv: "resync_inv opts s" using assms by (rule resync_reachable_inv)
  show ?thesis
  proof (cases "rs_active s")
    case True
    with inv obtain i where i: "rs_deadlineTimer s = Some i"
      by (auto simp: resync_inv_def resync_shape_def)
    with inv obtain d where "pending_timer (rs_timers s) i = Some (DeadlineCallback, d)"
      by (auto simp: resync_inv_def handles_ok_def timers.owns_def)
    with i True show ?thesis by (auto simp: deadlineFired_def Let_def resync_fail_idle)
  next
    case False
    with inv show ?thesis by (auto simp: resync_inv_def resync_shape_def resync_idle_def)
  qed
qed

theorem resync_always_ends_witness:
  "if rs_active sample_resync
   then \<exists>i d. rs_deadlineTimer sample_resync = Some i
          \<and> pending_timer (rs_timers sample_resync) i = Some (DeadlineCallback, d)
          \<and> resync_idle (resync_step sample_options (TimerFired i) sample_resync)
   else resync_idle sample_resync"
  by (rule resync_always_ends) (rule sample_reachable)

text \<open>
  The work of the controller is bounded in every reachable state: at most \<open>bufferLimit\<close> events
  are held, at most \<open>maxAttempts\<close> attempts are spent, and a request in flight and a retry timer
  never coexist; the request that counts is in flight and not aborted.
\<close>

theorem resync_bounded:
  assumes "resync_reachable opts s"
  shows "bufferedEventCount s \<le> ro_bufferLimit opts
    \<and> (isActive s \<longrightarrow> rs_attempt s \<le> ro_maxAttempts opts)
    \<and> (rs_requestController s = None \<or> rs_retryTimer s = None)
    \<and> (\<forall>c. rs_requestController s = Some c \<longrightarrow> c \<in> fst ` set (rs_inflight s) \<and> c \<notin> set (rs_aborted s))"
proof -
  from assms have "resync_inv opts s" by (rule resync_reachable_inv)
  then show ?thesis
    unfolding resync_inv_def resync_shape_def requests_ok_def bufferedEventCount_def isActive_def
    by (metis map_of_eq_None_iff option.distinct(1))
qed

theorem resync_bounded_witness:
  "bufferedEventCount sample_resync \<le> ro_bufferLimit sample_options
   \<and> rs_attempt sample_resync \<le> ro_maxAttempts sample_options
   \<and> 0 \<in> fst ` set (rs_inflight sample_resync)"
  using resync_bounded [OF sample_reachable] by (simp add: isActive_def sample_resync_fields)

text \<open>
  C19. The events received while a request is in flight are replayed exactly once and in wire order:
  if at most \<open>bufferLimit\<close> events arrive after the request started, the snapshot reconciles and every
  event applies, the room ends as if the snapshot and then each event, in order of arrival, had
  been applied, and the controller is idle.
\<close>

theorem replay_once_in_order:
  assumes "resync_reachable opts s" "rs_requestController s = Some c"
    and "map_of (rs_inflight s) c = Some (g, a)" "rs_buffer s = []" "length es \<le> ro_bufferLimit opts"
    and "ro_reconcile opts snapshot a (rs_world s) = (w, Reconciled)"
    and "replay (ro_applyBuffered opts) es w = (w', True)"
  shows "rs_world (resync_step opts (Resolved c snapshot) (fold (\<lambda>e. resync_step opts (BufferEvent e)) es s))
      = ro_onSucceeded opts (fold (\<lambda>e v. fst (ro_applyBuffered opts e v)) es w)
    \<and> \<not> isActive (resync_step opts (Resolved c snapshot) (fold (\<lambda>e. resync_step opts (BufferEvent e)) es s))
    \<and> rs_buffer (resync_step opts (Resolved c snapshot) (fold (\<lambda>e. resync_step opts (BufferEvent e)) es s)) = []"
proof -
  from assms(1) have inv: "resync_inv opts s" by (rule resync_reachable_inv)
  from current_request_current [OF inv assms(2,3)]
  have "rs_active s" and current: "isCurrentRequest g c (take_inflight c (s\<lparr>rs_buffer := es\<rparr>))" by auto
  with assms(4,5) have run: "fold (\<lambda>e. resync_step opts (BufferEvent e)) es s = s\<lparr>rs_buffer := es\<rparr>"
    by (simp add: buffer_run)
  from assms(6,7) current show ?thesis
    unfolding run
    by (simp add: assms(3) requestResolved_def Let_def take_inflight_def isActive_def
        replay_fold [OF assms(7), symmetric])
qed

theorem replay_once_in_order_witness:
  "rs_world (resync_step sample_options (Resolved 0 [1])
     (fold (\<lambda>e. resync_step sample_options (BufferEvent e)) [7, 8] sample_resync)) = [1, 7, 8]"
proof -
  have "replay (ro_applyBuffered sample_options) [7, 8] [1] = ([1, 7, 8], True)"
    and "ro_reconcile sample_options [1] 1 (rs_world sample_resync) = ([1], Reconciled)"
    and "length [7::nat, 8] \<le> ro_bufferLimit sample_options"
    by (simp_all add: sample_options_def liveResyncBufferLimit_def)
  then show ?thesis
    using replay_once_in_order [of sample_options sample_resync 0 1 1 "[7, 8]" "[1]" "[1]" "[1, 7, 8]"]
    by (simp add: sample_reachable sample_resync_fields) (simp add: sample_options_def)
qed

text \<open>
  An answer to a request that is no longer current changes nothing: neither the room nor any
  field of the controller but the record of the request itself.
\<close>

theorem stale_response_ignored:
  assumes "rs_requestController s \<noteq> Some c"
  shows "resync_step opts (Resolved c snapshot) s = take_inflight c s
    \<and> resync_step opts (Rejected c abort) s = take_inflight c s"
proof -
  have "take_inflight c s = s" if "map_of (rs_inflight s) c = None"
    using that by (simp add: take_inflight_def AList.delete_id map_of_eq_None_iff)
  moreover have "\<not> isCurrentRequest g c (take_inflight c s)" for g
    using assms by (simp add: isCurrentRequest_def take_inflight_def)
  ultimately show ?thesis
    by (auto simp: requestResolved_def requestRejected_def split: option.splits)
qed

theorem stale_response_ignored_witness:
  "resync_step sample_options (Resolved 3 [9]) sample_resync = take_inflight 3 sample_resync
   \<and> resync_step sample_options (Rejected 3 False) sample_resync = take_inflight 3 sample_resync"
  by (rule stale_response_ignored) (simp add: sample_resync_fields)

text \<open>
  As long as one resynchronisation lasts it issues at most \<open>maxAttempts\<close> requests, however many
  events overflow the buffer, however often it is started again and however the requests end.
\<close>

theorem resync_requests_bounded:
  assumes "resync_reachable opts s" "stays_active opts evs s"
  shows "rs_nextController (fold (resync_step opts) evs s)
    \<le> rs_nextController s + (ro_maxAttempts opts - rs_attempt s)"
proof -
  let ?s = "fold (resync_step opts) evs s"
  have inv: "resync_inv opts s" using assms(1) by (rule resync_reachable_inv)
  with resync_run_inv [OF inv] stays_active_count [OF assms(2)] stays_active_head [OF assms(2)]
  have "rs_attempt ?s \<le> ro_maxAttempts opts" "rs_attempt s \<le> ro_maxAttempts opts"
    "request_count ?s = request_count s"
    by (auto simp: resync_inv_def resync_shape_def)
  then show ?thesis by (simp add: request_count_def)
qed

theorem resync_requests_bounded_witness:
  "rs_nextController (fold (resync_step sample_options) [Start, BufferEvent 3, Rejected 1 False] sample_resync)
   \<le> rs_nextController sample_resync + (ro_maxAttempts sample_options - rs_attempt sample_resync)"
  by (rule resync_requests_bounded [OF sample_reachable])
    (simp add: sample_resync_eval bufferEvent_def requestRejected_def isCurrentRequest_def take_inflight_def
      AList.delete_eq resync_retry_def retryDelay_def liveResyncBufferLimit_def)

text \<open>
  The pause before a retry doubles with each attempt up to its ceiling, and never exceeds it.
\<close>

theorem retryDelay_bounds:
  assumes "0 \<le> ro_retryBaseMs opts" "ro_retryBaseMs opts \<le> ro_retryMaxMs opts" "1 \<le> n"
  shows "ro_retryBaseMs opts \<le> retryDelay opts n \<and> retryDelay opts n \<le> ro_retryMaxMs opts
    \<and> retryDelay opts (Suc n) = min (ro_retryMaxMs opts) (2 * retryDelay opts n)"
proof -
  obtain m where n: "n = Suc m" using assms(3) by (cases n) auto
  have "ro_retryBaseMs opts * 1 \<le> ro_retryBaseMs opts * 2 ^ m"
    using assms(1) by (intro mult_left_mono) simp_all
  then show ?thesis using assms(1,2) by (auto simp: retryDelay_def n min_def)
qed

theorem retryDelay_bounds_witness:
  "ro_retryBaseMs sample_options \<le> retryDelay sample_options 3
   \<and> retryDelay sample_options 3 \<le> ro_retryMaxMs sample_options
   \<and> retryDelay sample_options (Suc 3) = min (ro_retryMaxMs sample_options) (2 * retryDelay sample_options 3)"
  by (rule retryDelay_bounds) (simp_all add: sample_options_def)

end
