(* ===== verification/Live_Connection.thy ===== *)
theory Live_Connection
  imports Js_Values Timers
begin

text \<open>
  The connection controller (\<open>web/src/live-connection.ts\<close>): one socket, one reconnect
  timer, the connect and join time-outs and the reconnect probe. Sockets are numbered as
  they are created. Every method is a function on the controller state; calls to the option
  callbacks and to the socket are appended to the log \<open>cn_log\<close> in order. \<open>cn_online\<close> is what
  \<open>isOnline()\<close> answers. The random number a back-off draws is an argument of the steps that
  may draw one.
\<close>

section \<open>State and options\<close>

datatype liveConnectionState = Connecting | Connected | Reconnecting | Offline | Recovery

datatype liveReconnectProbeResult =
  Authorized | AuthenticationRequired | RoomUnavailable | RetryProbe

record liveConnectionOptions =
  co_connectTimeoutMs :: int
  co_joinTimeoutMs :: int
  co_retryBaseMs :: int
  co_retryMaxMs :: int
  co_maxReconnectAttempts :: int
  co_hasProbe :: bool

definition default_options :: "bool \<Rightarrow> liveConnectionOptions" where
  "default_options hasProbe = \<lparr>co_connectTimeoutMs = 10000, co_joinTimeoutMs = 10000,
     co_retryBaseMs = 250, co_retryMaxMs = 5000, co_maxReconnectAttempts = 8, co_hasProbe = hasProbe\<rparr>"

abbreviation "socketOpen \<equiv> (1 :: int)"
abbreviation "normalClose \<equiv> (1000 :: int)"
abbreviation "policyViolation \<equiv> (1008 :: int)"
abbreviation "tryAgainLater \<equiv> (1013 :: int)"

datatype connectionEffect =
    OnState liveConnectionState
  | OnWork bool
  | OnMessage jsstring
  | OnCloseStatus int jsstring
  | OnAuthenticationRequired
  | OnRoomFull
  | OnRoomUnavailable
  | OnReconnectExhausted
  | CreateSocket nat
  | SocketSendJoin nat
  | SocketSend nat jsval
  | SocketClose nat int jsstring
  | ProbeReconnect int

datatype connectionCallback = ConnectTimeout nat | JoinTimeout nat | ReconnectNow

record liveConnection =
  cn_socket :: "nat option"
  cn_reconnectTimer :: "nat option"
  cn_connectTimer :: "nat option"
  cn_joinTimer :: "nat option"
  cn_stopped :: bool
  cn_probing :: bool
  cn_probeGeneration :: int
  cn_joined :: bool
  cn_attempt :: int
  cn_state :: liveConnectionState
  cn_timers :: "connectionCallback timers"
  cn_online :: bool
  cn_nextSocket :: nat
  cn_log :: "connectionEffect list"

definition liveConnection_new :: "bool \<Rightarrow> liveConnection" where
  "liveConnection_new online =
     \<lparr>cn_socket = None, cn_reconnectTimer = None, cn_connectTimer = None, cn_joinTimer = None,
      cn_stopped = False, cn_probing = False, cn_probeGeneration = 0, cn_joined = False,
      cn_attempt = 0, cn_state = Offline, cn_timers = timers_new, cn_online = online,
      cn_nextSocket = 0, cn_log = []\<rparr>"

section \<open>Private methods\<close>

definition emit :: "connectionEffect \<Rightarrow> liveConnection \<Rightarrow> liveConnection" where
  "emit e c = c\<lparr>cn_log := cn_log c @ [e]\<rparr>"

definition isCurrent :: "nat \<Rightarrow> liveConnection \<Rightarrow> bool" where
  "isCurrent socket c \<longleftrightarrow> \<not> cn_stopped c \<and> cn_socket c = Some socket"

definition isCurrentProbe :: "int \<Rightarrow> liveConnection \<Rightarrow> bool" where
  "isCurrentProbe generation c \<longleftrightarrow>
     \<not> cn_stopped c \<and> cn_probing c \<and> cn_probeGeneration c = generation \<and> cn_online c"

definition cancelProbe :: "liveConnection \<Rightarrow> liveConnection" where
  "cancelProbe c = c\<lparr>cn_probing := False, cn_probeGeneration := cn_probeGeneration c + 1\<rparr>"

definition setState :: "liveConnectionState \<Rightarrow> liveConnection \<Rightarrow> liveConnection" where
  "setState state c =
     (if cn_state c = state then c
      else emit (OnWork (state = Connecting \<or> state = Reconnecting))
             (emit (OnState state) (c\<lparr>cn_state := state\<rparr>)))"

definition clearReconnectTimer :: "liveConnection \<Rightarrow> liveConnection" where
  "clearReconnectTimer c = (case cn_reconnectTimer c of
     None \<Rightarrow> c
   | Some t \<Rightarrow> c\<lparr>cn_timers := clear_timer t (cn_timers c), cn_reconnectTimer := None\<rparr>)"

definition clearConnectTimer :: "liveConnection \<Rightarrow> liveConnection" where
  "clearConnectTimer c = (case cn_connectTimer c of
     None \<Rightarrow> c
   | Some t \<Rightarrow> c\<lparr>cn_timers := clear_timer t (cn_timers c), cn_connectTimer := None\<rparr>)"

definition clearJoinTimer :: "liveConnection \<Rightarrow> liveConnection" where
  "clearJoinTimer c = (case cn_joinTimer c of
     None \<Rightarrow> c
   | Some t \<Rightarrow> c\<lparr>cn_timers := clear_timer t (cn_timers c), cn_joinTimer := None\<rparr>)"

definition clearAttemptTimers :: "liveConnection \<Rightarrow> liveConnection" where
  "clearAttemptTimers c = clearJoinTimer (clearConnectTimer c)"

definition clearTimers :: "liveConnection \<Rightarrow> liveConnection" where
  "clearTimers c = clearAttemptTimers (clearReconnectTimer c)"

text \<open>
  The back-off is an exponential of the attempt, capped, times a factor from 0.8 to 1.2;
  \<open>Math.round\<close> rounds halves up.
\<close>

definition js_round :: "rat \<Rightarrow> int" where
  "js_round x = \<lfloor>x + 1 / 2\<rfloor>"

definition backoffDelay :: "liveConnectionOptions \<Rightarrow> rat \<Rightarrow> liveConnection \<Rightarrow> int" where
  "backoffDelay opts random c =
     (let exponential = min (rat_of_int (co_retryMaxMs opts))
            (rat_of_int (co_retryBaseMs opts) * 2 powi (min (cn_attempt c - 1) 6))
      in js_round (exponential * (4 / 5 + random * (2 / 5))))"

definition scheduleReconnect :: "int \<Rightarrow> liveConnection \<Rightarrow> liveConnection" where
  "scheduleReconnect delay c =
     (if cn_stopped c \<or> cn_reconnectTimer c \<noteq> None \<or> \<not> cn_online c then c
      else
        let c = setState Reconnecting c;
            (ts, t) = set_timer ReconnectNow delay (cn_timers c)
        in c\<lparr>cn_timers := ts, cn_reconnectTimer := Some t\<rparr>)"

definition retryOrExhaust :: "liveConnectionOptions \<Rightarrow> rat \<Rightarrow> liveConnection \<Rightarrow> liveConnection" where
  "retryOrExhaust opts random c =
     (if cn_attempt c \<ge> co_maxReconnectAttempts opts
      then emit OnReconnectExhausted (setState Offline c)
      else scheduleReconnect (backoffDelay opts random c) c)"

definition connect :: "liveConnectionOptions \<Rightarrow> liveConnection \<Rightarrow> liveConnection" where
  "connect opts c =
     (if cn_stopped c \<or> cn_socket c \<noteq> None \<or> \<not> cn_online c
      then (if \<not> cn_stopped c \<and> \<not> cn_online c then setState Offline c else c)
      else
        let c = clearReconnectTimer c;
            c = c\<lparr>cn_joined := False\<rparr>;
            c = setState (if cn_attempt c = 0 then Connecting else Reconnecting) c;
            socket = cn_nextSocket c;
            c = emit (CreateSocket socket) (c\<lparr>cn_nextSocket := Suc socket, cn_socket := Some socket\<rparr>);
            (ts, t) = set_timer (ConnectTimeout socket) (co_connectTimeoutMs opts) (cn_timers c)
        in c\<lparr>cn_timers := ts, cn_connectTimer := Some t\<rparr>)"

definition probeBeforeReconnect :: "liveConnection \<Rightarrow> liveConnection" where
  "probeBeforeReconnect c =
     (if cn_stopped c \<or> cn_probing c \<or> \<not> cn_online c
      then (if \<not> cn_stopped c \<and> \<not> cn_online c then setState Offline c else c)
      else
        let generation = cn_probeGeneration c + 1;
            c = c\<lparr>cn_probing := True, cn_probeGeneration := generation\<rparr>
        in emit (ProbeReconnect generation) (setState Reconnecting c))"

text \<open>The \<open>/i\<close> regular expressions match ASCII words in either case.\<close>

definition ascii_lower :: "16 word \<Rightarrow> 16 word" where
  "ascii_lower u = (if 65 \<le> u \<and> u \<le> 90 then u + 32 else u)"

definition matches_ci :: "string \<Rightarrow> jsstring \<Rightarrow> bool" where
  "matches_ci w s = contains_sub (map ascii_lower s) (js w)"

definition handleClose ::
  "liveConnectionOptions \<Rightarrow> nat \<Rightarrow> int option \<Rightarrow> jsstring option \<Rightarrow> rat \<Rightarrow> liveConnection \<Rightarrow> liveConnection" where
  "handleClose opts socket eventCode eventReason random c =
     (if \<not> isCurrent socket c then c
      else
        let c = clearAttemptTimers (c\<lparr>cn_socket := None\<rparr>);
            c = c\<lparr>cn_joined := False\<rparr>;
            code = (case eventCode of None \<Rightarrow> 1006 | Some n \<Rightarrow> n);
            reason = (case eventReason of None \<Rightarrow> [] | Some r \<Rightarrow> r);
            c = emit (OnCloseStatus code reason) c
        in if cn_stopped c \<or> \<not> cn_online c then setState Offline c
           else if code = policyViolation \<and> (matches_ci ''password'' reason \<or> matches_ci ''auth'' reason)
             then emit OnAuthenticationRequired (setState Offline c)
           else if code = tryAgainLater \<and> (matches_ci ''room limit'' reason \<or> matches_ci ''room full'' reason)
             then emit OnRoomFull (setState Offline c)
           else if code = normalClose \<and> reason = js ''leaving live room'' then setState Offline c
           else if code = tryAgainLater \<and> matches_ci ''expired'' reason then setState Offline c
           else
             let c = c\<lparr>cn_attempt := cn_attempt c + 1\<rparr>
             in if co_hasProbe opts then probeBeforeReconnect c else retryOrExhaust opts random c)"

definition probeResolved ::
  "liveConnectionOptions \<Rightarrow> int \<Rightarrow> liveReconnectProbeResult \<Rightarrow> rat \<Rightarrow> liveConnection \<Rightarrow> liveConnection" where
  "probeResolved opts generation result random c =
     (if \<not> isCurrentProbe generation c then c
      else
        let c = c\<lparr>cn_probing := False\<rparr>
        in case result of
             AuthenticationRequired \<Rightarrow> emit OnAuthenticationRequired (setState Offline c)
           | RoomUnavailable \<Rightarrow> emit OnRoomUnavailable (setState Offline c)
           | Authorized \<Rightarrow> retryOrExhaust opts random c
           | RetryProbe \<Rightarrow> retryOrExhaust opts random c)"

definition probeRejected :: "liveConnectionOptions \<Rightarrow> int \<Rightarrow> rat \<Rightarrow> liveConnection \<Rightarrow> liveConnection" where
  "probeRejected opts generation random c =
     (if \<not> isCurrentProbe generation c then c
      else retryOrExhaust opts random (c\<lparr>cn_probing := False\<rparr>))"

section \<open>Public methods\<close>

definition conn_start :: "liveConnectionOptions \<Rightarrow> liveConnection \<Rightarrow> liveConnection" where
  "conn_start opts c = connect opts (c\<lparr>cn_stopped := False\<rparr>)"

definition close_socket :: "nat option \<Rightarrow> string \<Rightarrow> liveConnection \<Rightarrow> liveConnection" where
  "close_socket socket reason c =
     (case socket of None \<Rightarrow> c | Some s \<Rightarrow> emit (SocketClose s normalClose (js reason)) c)"

definition conn_stop :: "liveConnection \<Rightarrow> liveConnection" where
  "conn_stop c =
     (let c = clearTimers (cancelProbe (c\<lparr>cn_stopped := True\<rparr>));
          socket = cn_socket c;
          c = c\<lparr>cn_socket := None, cn_joined := False\<rparr>
      in setState Offline (close_socket socket ''leaving live room'' c))"

definition conn_online :: "liveConnectionOptions \<Rightarrow> liveConnection \<Rightarrow> liveConnection" where
  "conn_online opts c =
     (if cn_stopped c \<or> cn_socket c \<noteq> None \<or> cn_probing c \<or> cn_reconnectTimer c \<noteq> None then c
      else connect opts (c\<lparr>cn_attempt := 0\<rparr>))"

definition conn_offline :: "liveConnection \<Rightarrow> liveConnection" where
  "conn_offline c =
     (if cn_stopped c then c
      else
        let c = clearReconnectTimer (cancelProbe c);
            socket = cn_socket c;
            c = clearAttemptTimers (c\<lparr>cn_socket := None\<rparr>);
            c = c\<lparr>cn_joined := False\<rparr>
        in setState Offline (close_socket socket ''browser offline'' c))"

definition markJoined :: "liveConnection \<Rightarrow> liveConnection" where
  "markJoined c =
     (if cn_socket c = None \<or> cn_stopped c then c
      else setState Connected (clearJoinTimer (c\<lparr>cn_joined := True, cn_attempt := 0\<rparr>)))"

definition reconnectAfterResync :: "liveConnection \<Rightarrow> liveConnection" where
  "reconnectAfterResync c =
     (if cn_stopped c then c
      else
        let socket = cn_socket c;
            c = clearAttemptTimers (c\<lparr>cn_socket := None\<rparr>);
            c = c\<lparr>cn_joined := False\<rparr>
        in scheduleReconnect 0 (close_socket socket ''resynchronizing'' c))"

text \<open>\<open>readyState\<close> is that of the current socket at the call.\<close>

definition conn_send :: "jsval \<Rightarrow> int \<Rightarrow> liveConnection \<Rightarrow> liveConnection \<times> bool" where
  "conn_send message readyState c =
     (case cn_socket c of
        None \<Rightarrow> (c, False)
      | Some socket \<Rightarrow>
          if \<not> cn_joined c \<or> readyState \<noteq> socketOpen then (c, False)
          else (emit (SocketSend socket message) c, True))"

section \<open>Callbacks of the socket and of the timers\<close>

definition socketOpened :: "liveConnectionOptions \<Rightarrow> nat \<Rightarrow> liveConnection \<Rightarrow> liveConnection" where
  "socketOpened opts socket c =
     (if \<not> isCurrent socket c then c
      else
        let c = emit (SocketSendJoin socket) (clearConnectTimer c);
            (ts, t) = set_timer (JoinTimeout socket) (co_joinTimeoutMs opts) (cn_timers c)
        in c\<lparr>cn_timers := ts, cn_joinTimer := Some t\<rparr>)"

definition socketMessage :: "nat \<Rightarrow> jsval \<Rightarrow> liveConnection \<Rightarrow> liveConnection" where
  "socketMessage socket data c =
     (if \<not> isCurrent socket c \<or> \<not> is_string data then c else emit (OnMessage (the_string data)) c)"

definition timeoutFired :: "nat \<Rightarrow> string \<Rightarrow> liveConnection \<Rightarrow> liveConnection" where
  "timeoutFired socket reason c =
     (if \<not> isCurrent socket c \<or> cn_joined c then c
      else emit (SocketClose socket policyViolation (js reason)) c)"

definition reconnectFired :: "liveConnectionOptions \<Rightarrow> liveConnection \<Rightarrow> liveConnection" where
  "reconnectFired opts c = connect opts (c\<lparr>cn_reconnectTimer := None\<rparr>)"

section \<open>Steps\<close>

datatype connectionEvent =
    ConnStart
  | ConnStop
  | ConnOnline
  | ConnOffline
  | MarkJoined
  | ReconnectAfterResync
  | ConnSend jsval int
  | SocketOpened nat
  | SocketMessage nat jsval
  | SocketClosed nat "int option" "jsstring option" rat
  | SocketErrored nat
  | ConnTimerFired nat
  | ProbeResolved int liveReconnectProbeResult rat
  | ProbeRejected int rat
  | NetworkChanged bool

fun conn_step :: "liveConnectionOptions \<Rightarrow> connectionEvent \<Rightarrow> liveConnection \<Rightarrow> liveConnection" where
  "conn_step opts ConnStart c = conn_start opts c"
| "conn_step opts ConnStop c = conn_stop c"
| "conn_step opts ConnOnline c = conn_online opts c"
| "conn_step opts ConnOffline c = conn_offline c"
| "conn_step opts MarkJoined c = markJoined c"
| "conn_step opts ReconnectAfterResync c = reconnectAfterResync c"
| "conn_step opts (ConnSend message readyState) c = fst (conn_send message readyState c)"
| "conn_step opts (SocketOpened socket) c = socketOpened opts socket c"
| "conn_step opts (SocketMessage socket data) c = socketMessage socket data c"
| "conn_step opts (SocketClosed socket code reason random) c = handleClose opts socket code reason random c"
| "conn_step opts (SocketErrored socket) c = c"
| "conn_step opts (ConnTimerFired i) c =
     (case pending_timer (cn_timers c) i of
        None \<Rightarrow> c
      | Some (callback, delay) \<Rightarrow>
          let c = c\<lparr>cn_timers := clear_timer i (cn_timers c)\<rparr>
          in case callback of
               ConnectTimeout socket \<Rightarrow> timeoutFired socket ''connection timed out'' c
             | JoinTimeout socket \<Rightarrow> timeoutFired socket ''join timed out'' c
             | ReconnectNow \<Rightarrow> reconnectFired opts c)"
| "conn_step opts (ProbeResolved generation result random) c = probeResolved opts generation result random c"
| "conn_step opts (ProbeRejected generation random) c = probeRejected opts generation random c"
| "conn_step opts (NetworkChanged online) c = c\<lparr>cn_online := online\<rparr>"

section \<open>Invariant\<close>

text \<open>
  The reconnect timers that are pending are exactly the one the handle names; the other two
  handles never name a reconnect timer; a joined connection has a socket; a stopped controller
  holds nothing.
\<close>

definition conn_timers_ok ::
  "nat option \<Rightarrow> nat option \<Rightarrow> nat option \<Rightarrow> connectionCallback timers \<Rightarrow> bool" where
  "conn_timers_ok r ct jt ts \<longleftrightarrow> timers_inv ts
     \<and> timers.owns r (\<lambda>k. k = ReconnectNow) ts
     \<and> timers.foreign ct (\<lambda>k. k = ReconnectNow) ts
     \<and> timers.foreign jt (\<lambda>k. k = ReconnectNow) ts"

definition conn_inv :: "liveConnection \<Rightarrow> bool" where
  "conn_inv c \<longleftrightarrow>
     conn_timers_ok (cn_reconnectTimer c) (cn_connectTimer c) (cn_joinTimer c) (cn_timers c)
     \<and> (cn_joined c \<longrightarrow> cn_socket c \<noteq> None)
     \<and> (\<forall>n. cn_socket c = Some n \<longrightarrow> n < cn_nextSocket c)
     \<and> (cn_stopped c \<longrightarrow> cn_socket c = None \<and> cn_reconnectTimer c = None \<and> \<not> cn_probing c \<and> cn_state c = Offline)"

lemma conn_timers_clear_reconnect:
  "conn_timers_ok (Some i) ct jt ts \<Longrightarrow> conn_timers_ok None ct jt (clear_timer i ts)"
  by (simp add: conn_timers_ok_def timers.inv_clear timers.owns_clear timers.foreign_clear)

lemma conn_timers_clear_connect:
  "conn_timers_ok r (Some i) jt ts \<Longrightarrow> conn_timers_ok r None jt (clear_timer i ts)"
  by (simp add: conn_timers_ok_def timers.inv_clear timers.owns_clear_foreign timers.foreign_clear)

lemma conn_timers_clear_join:
  "conn_timers_ok r ct (Some i) ts \<Longrightarrow> conn_timers_ok r ct None (clear_timer i ts)"
  by (simp add: conn_timers_ok_def timers.inv_clear timers.owns_clear_foreign timers.foreign_clear)

lemma conn_timers_set_reconnect:
  "conn_timers_ok None ct jt ts \<Longrightarrow>
    conn_timers_ok (Some (snd (set_timer ReconnectNow d ts))) ct jt (fst (set_timer ReconnectNow d ts))"
  by (simp add: conn_timers_ok_def timers.inv_set timers.owns_set timers.foreign_set)

lemma conn_timers_set_connect:
  "conn_timers_ok r ct jt ts \<Longrightarrow>
    conn_timers_ok r (Some (snd (set_timer (ConnectTimeout n) d ts))) jt (fst (set_timer (ConnectTimeout n) d ts))"
  by (simp add: conn_timers_ok_def timers.inv_set timers.owns_set_other timers.foreign_set timers.foreign_set_new)

lemma conn_timers_set_join:
  "conn_timers_ok r ct jt ts \<Longrightarrow>
    conn_timers_ok r ct (Some (snd (set_timer (JoinTimeout n) d ts))) (fst (set_timer (JoinTimeout n) d ts))"
  by (simp add: conn_timers_ok_def timers.inv_set timers.owns_set_other timers.foreign_set timers.foreign_set_new)

lemma conn_timers_fired_other:
  "conn_timers_ok r ct jt ts \<Longrightarrow> pending_timer ts i = Some (k, d) \<Longrightarrow> k \<noteq> ReconnectNow \<Longrightarrow>
    conn_timers_ok r ct jt (clear_timer i ts)"
  by (simp add: conn_timers_ok_def timers.inv_clear timers.owns_clear_other timers.foreign_clear)

lemma conn_timers_fired_reconnect:
  "conn_timers_ok r ct jt ts \<Longrightarrow> pending_timer ts i = Some (ReconnectNow, d) \<Longrightarrow>
    r = Some i \<and> conn_timers_ok None ct jt (clear_timer i ts)"
  using timers.owns_fired [of r "\<lambda>k. k = ReconnectNow" ts i ReconnectNow d]
  by (auto simp: conn_timers_ok_def timers.inv_clear timers.owns_clear timers.foreign_clear)

lemmas conn_timers_lemmas = conn_timers_clear_reconnect conn_timers_clear_connect conn_timers_clear_join
  conn_timers_set_reconnect conn_timers_set_connect conn_timers_set_join

lemma conn_inv_new: "conn_inv (liveConnection_new online)"
  by (simp add: conn_inv_def liveConnection_new_def conn_timers_ok_def timers_inv_new timers.owns_def)

subsection \<open>Frame facts\<close>

lemma emit_fields [simp]:
  "cn_socket (emit e c) = cn_socket c" "cn_reconnectTimer (emit e c) = cn_reconnectTimer c"
  "cn_connectTimer (emit e c) = cn_connectTimer c" "cn_joinTimer (emit e c) = cn_joinTimer c"
  "cn_stopped (emit e c) = cn_stopped c" "cn_probing (emit e c) = cn_probing c"
  "cn_probeGeneration (emit e c) = cn_probeGeneration c" "cn_joined (emit e c) = cn_joined c"
  "cn_attempt (emit e c) = cn_attempt c" "cn_state (emit e c) = cn_state c"
  "cn_timers (emit e c) = cn_timers c" "cn_online (emit e c) = cn_online c"
  "cn_nextSocket (emit e c) = cn_nextSocket c" "cn_log (emit e c) = cn_log c @ [e]"
  by (simp_all add: emit_def)

lemma setState_fields [simp]:
  "cn_socket (setState st c) = cn_socket c" "cn_reconnectTimer (setState st c) = cn_reconnectTimer c"
  "cn_connectTimer (setState st c) = cn_connectTimer c" "cn_joinTimer (setState st c) = cn_joinTimer c"
  "cn_stopped (setState st c) = cn_stopped c" "cn_probing (setState st c) = cn_probing c"
  "cn_probeGeneration (setState st c) = cn_probeGeneration c" "cn_joined (setState st c) = cn_joined c"
  "cn_attempt (setState st c) = cn_attempt c" "cn_state (setState st c) = st"
  "cn_timers (setState st c) = cn_timers c" "cn_online (setState st c) = cn_online c"
  "cn_nextSocket (setState st c) = cn_nextSocket c"
  by (simp_all add: setState_def)

lemma clear_fields [simp]:
  "cn_socket (clearReconnectTimer c) = cn_socket c" "cn_socket (clearAttemptTimers c) = cn_socket c"
  "cn_stopped (clearReconnectTimer c) = cn_stopped c" "cn_stopped (clearAttemptTimers c) = cn_stopped c"
  "cn_probing (clearReconnectTimer c) = cn_probing c" "cn_probing (clearAttemptTimers c) = cn_probing c"
  "cn_joined (clearReconnectTimer c) = cn_joined c" "cn_joined (clearAttemptTimers c) = cn_joined c"
  "cn_attempt (clearReconnectTimer c) = cn_attempt c" "cn_attempt (clearAttemptTimers c) = cn_attempt c"
  "cn_state (clearReconnectTimer c) = cn_state c" "cn_state (clearAttemptTimers c) = cn_state c"
  "cn_online (clearReconnectTimer c) = cn_online c" "cn_online (clearAttemptTimers c) = cn_online c"
  "cn_nextSocket (clearReconnectTimer c) = cn_nextSocket c" "cn_nextSocket (clearAttemptTimers c) = cn_nextSocket c"
  "cn_log (clearReconnectTimer c) = cn_log c" "cn_log (clearAttemptTimers c) = cn_log c"
  "cn_probeGeneration (clearReconnectTimer c) = cn_probeGeneration c"
  "cn_probeGeneration (clearAttemptTimers c) = cn_probeGeneration c"
  "cn_reconnectTimer (clearReconnectTimer c) = None"
  "cn_reconnectTimer (clearAttemptTimers c) = cn_reconnectTimer c"
  by (simp_all add: clearReconnectTimer_def clearAttemptTimers_def clearConnectTimer_def clearJoinTimer_def
      split: option.splits)

lemma timers_clearReconnectTimer:
  "conn_timers_ok (cn_reconnectTimer c) ct jt (cn_timers c) \<Longrightarrow>
    conn_timers_ok None ct jt (cn_timers (clearReconnectTimer c))"
  by (auto simp: clearReconnectTimer_def conn_timers_lemmas split: option.splits)

lemma clearReconnectTimer_handles [simp]:
  "cn_connectTimer (clearReconnectTimer c) = cn_connectTimer c"
  "cn_joinTimer (clearReconnectTimer c) = cn_joinTimer c"
  by (simp_all add: clearReconnectTimer_def split: option.splits)

lemma clearAttemptTimers_handles [simp]:
  "cn_connectTimer (clearAttemptTimers c) = None" "cn_joinTimer (clearAttemptTimers c) = None"
  by (simp_all add: clearAttemptTimers_def clearConnectTimer_def clearJoinTimer_def split: option.splits)

lemma timers_clearAttemptTimers:
  assumes "conn_timers_ok r (cn_connectTimer c) (cn_joinTimer c) (cn_timers c)"
  shows "conn_timers_ok r None None (cn_timers (clearAttemptTimers c))"
  using assms
  by (auto simp: clearAttemptTimers_def clearConnectTimer_def clearJoinTimer_def split: option.splits
      intro: conn_timers_clear_join conn_timers_clear_connect
        conn_timers_clear_join [OF conn_timers_clear_connect])

lemma close_socket_fields [simp]:
  "cn_socket (close_socket s r c) = cn_socket c" "cn_reconnectTimer (close_socket s r c) = cn_reconnectTimer c"
  "cn_connectTimer (close_socket s r c) = cn_connectTimer c" "cn_joinTimer (close_socket s r c) = cn_joinTimer c"
  "cn_stopped (close_socket s r c) = cn_stopped c" "cn_probing (close_socket s r c) = cn_probing c"
  "cn_joined (close_socket s r c) = cn_joined c" "cn_attempt (close_socket s r c) = cn_attempt c"
  "cn_state (close_socket s r c) = cn_state c" "cn_timers (close_socket s r c) = cn_timers c"
  "cn_online (close_socket s r c) = cn_online c" "cn_nextSocket (close_socket s r c) = cn_nextSocket c"
  by (simp_all add: close_socket_def split: option.splits)

subsection \<open>Every operation keeps the invariant\<close>

lemma conn_inv_emit [simp]: "conn_inv (emit e c) = conn_inv c"
  by (simp add: conn_inv_def)

lemma conn_inv_setState: "conn_inv c \<Longrightarrow> \<not> cn_stopped c \<or> st = Offline \<Longrightarrow> conn_inv (setState st c)"
  by (auto simp: conn_inv_def)

lemma scheduleReconnect_inv: "conn_inv c \<Longrightarrow> conn_inv (scheduleReconnect d c)"
  by (auto simp: scheduleReconnect_def Let_def case_prod_unfold conn_inv_def conn_timers_set_reconnect)

lemma retryOrExhaust_inv: "conn_inv c \<Longrightarrow> conn_inv (retryOrExhaust opts random c)"
  by (simp add: retryOrExhaust_def scheduleReconnect_inv conn_inv_setState)

lemma connect_inv: "conn_inv c \<Longrightarrow> conn_inv (connect opts c)"
  by (auto simp: connect_def Let_def case_prod_unfold conn_inv_setState)
    (auto simp: conn_inv_def intro!: conn_timers_set_connect timers_clearReconnectTimer)

lemma probeBeforeReconnect_inv: "conn_inv c \<Longrightarrow> conn_inv (probeBeforeReconnect c)"
  by (auto simp: probeBeforeReconnect_def Let_def conn_inv_setState) (auto simp: conn_inv_def)

text \<open>The part common to every way of letting the socket go.\<close>

lemma drop_socket_inv:
  assumes "conn_inv c"
  shows "conn_inv (clearAttemptTimers (c\<lparr>cn_socket := None\<rparr>)\<lparr>cn_joined := False\<rparr>)"
  using assms by (auto simp: conn_inv_def intro: timers_clearAttemptTimers)

lemma conn_inv_attempt [simp]: "conn_inv (c\<lparr>cn_attempt := n\<rparr>) = conn_inv c"
  by (simp add: conn_inv_def)

lemma conn_inv_probing: "conn_inv c \<Longrightarrow> conn_inv (c\<lparr>cn_probing := False\<rparr>)"
  by (simp add: conn_inv_def)

lemma handleClose_inv: "conn_inv c \<Longrightarrow> conn_inv (handleClose opts n code reason random c)"
  by (simp add: handleClose_def Let_def drop_socket_inv conn_inv_setState probeBeforeReconnect_inv
      retryOrExhaust_inv)

lemma probeResolved_inv: "conn_inv c \<Longrightarrow> conn_inv (probeResolved opts g r random c)"
  by (cases r) (simp_all add: probeResolved_def Let_def conn_inv_probing conn_inv_setState retryOrExhaust_inv)

lemma probeRejected_inv: "conn_inv c \<Longrightarrow> conn_inv (probeRejected opts g random c)"
  by (simp add: probeRejected_def conn_inv_probing retryOrExhaust_inv)

lemma conn_inv_close_socket [simp]: "conn_inv (close_socket s r c) = conn_inv c"
  by (simp add: close_socket_def split: option.splits)

lemma reconnectAfterResync_inv: "conn_inv c \<Longrightarrow> conn_inv (reconnectAfterResync c)"
  by (simp add: reconnectAfterResync_def Let_def drop_socket_inv scheduleReconnect_inv)

lemma conn_offline_inv: "conn_inv c \<Longrightarrow> conn_inv (conn_offline c)"
proof -
  assume inv: "conn_inv c"
  then have "conn_inv (clearReconnectTimer (cancelProbe c))"
    by (auto simp: conn_inv_def cancelProbe_def intro: timers_clearReconnectTimer)
  with inv show ?thesis
    by (simp add: conn_offline_def Let_def conn_inv_setState drop_socket_inv)
qed

lemma conn_stop_inv: "conn_inv c \<Longrightarrow> conn_inv (conn_stop c)"
  by (auto simp: conn_stop_def Let_def conn_inv_def clearTimers_def cancelProbe_def
      intro!: timers_clearAttemptTimers timers_clearReconnectTimer)

lemma markJoined_inv: "conn_inv c \<Longrightarrow> conn_inv (markJoined c)"
  by (auto simp: markJoined_def clearJoinTimer_def conn_inv_def conn_timers_clear_join split: option.splits)

lemma socketOpened_inv: "conn_inv c \<Longrightarrow> conn_inv (socketOpened opts n c)"
  by (auto simp: socketOpened_def isCurrent_def clearConnectTimer_def Let_def case_prod_unfold conn_inv_def
      split: option.splits intro!: conn_timers_set_join conn_timers_clear_connect)

lemma conn_start_inv: "conn_inv c \<Longrightarrow> conn_inv (conn_start opts c)"
  unfolding conn_start_def by (rule connect_inv) (simp add: conn_inv_def)

lemma conn_timer_inv:
  assumes "conn_inv c" "pending_timer (cn_timers c) i = Some (k, d)"
  shows "k = ReconnectNow \<Longrightarrow> conn_inv (c\<lparr>cn_timers := clear_timer i (cn_timers c), cn_reconnectTimer := None\<rparr>)"
    and "k \<noteq> ReconnectNow \<Longrightarrow> conn_inv (c\<lparr>cn_timers := clear_timer i (cn_timers c)\<rparr>)"
  using assms
  by (auto simp: conn_inv_def dest: conn_timers_fired_reconnect conn_timers_fired_other)

lemma conn_step_inv: "conn_inv c \<Longrightarrow> conn_inv (conn_step opts ev c)"
proof (cases ev)
  case (ConnTimerFired i)
  assume inv: "conn_inv c"
  show ?thesis
  proof (cases "pending_timer (cn_timers c) i")
    case (Some kd)
    then obtain k d where kd: "pending_timer (cn_timers c) i = Some (k, d)" by (cases kd) auto
    from conn_timer_inv [OF inv kd] kd ConnTimerFired show ?thesis
      by (cases k) (simp_all add: Let_def timeoutFired_def reconnectFired_def connect_inv)
  qed (use inv ConnTimerFired in simp)
qed (auto simp: conn_start_inv conn_stop_inv conn_offline_inv markJoined_inv reconnectAfterResync_inv
    socketOpened_inv handleClose_inv probeResolved_inv probeRejected_inv conn_online_def connect_inv
    conn_send_def socketMessage_def split: option.splits, simp_all add: conn_inv_def)

lemma conn_run_inv: "conn_inv c \<Longrightarrow> conn_inv (fold (conn_step opts) evs c)"
  by (induction evs arbitrary: c) (simp_all add: conn_step_inv)

section \<open>A stopped controller\<close>

definition silent :: "liveConnection \<Rightarrow> bool" where
  "silent c \<longleftrightarrow> cn_stopped c \<and> cn_socket c = None \<and> cn_reconnectTimer c = None
     \<and> \<not> cn_probing c \<and> \<not> cn_joined c \<and> cn_state c = Offline"

lemma conn_inv_silent: "conn_inv c \<Longrightarrow> cn_stopped c \<Longrightarrow> silent c"
  by (auto simp: conn_inv_def silent_def)

lemma conn_stop_silent: "silent (conn_stop c)"
  by (simp add: conn_stop_def Let_def silent_def clearTimers_def cancelProbe_def)

lemma silent_step_log:
  assumes "silent c" "conn_inv c" "ev \<noteq> ConnStart" "ev \<noteq> ConnStop"
  shows "cn_log (conn_step opts ev c) = cn_log c \<and> cn_stopped (conn_step opts ev c)"
  using assms
  by (cases ev)
    (auto simp: silent_def conn_online_def conn_offline_def markJoined_def reconnectAfterResync_def
      conn_send_def socketOpened_def socketMessage_def handleClose_def isCurrent_def isCurrentProbe_def
      probeResolved_def probeRejected_def timeoutFired_def reconnectFired_def connect_def Let_def
      split: option.splits connectionCallback.splits)

lemma silent_stop_log:
  "silent c \<Longrightarrow> cn_log (conn_stop c) = cn_log c"
  by (simp add: silent_def conn_stop_def Let_def clearTimers_def cancelProbe_def close_socket_def setState_def)

lemma silent_run:
  "silent c \<Longrightarrow> conn_inv c \<Longrightarrow> ConnStart \<notin> set evs \<Longrightarrow>
    cn_log (fold (conn_step opts) evs c) = cn_log c \<and> silent (fold (conn_step opts) evs c)"
proof (induction evs arbitrary: c)
  case (Cons ev evs)
  let ?c = "conn_step opts ev c"
  have inv: "conn_inv ?c" using Cons.prems(2) by (rule conn_step_inv)
  have log: "cn_log ?c = cn_log c \<and> silent ?c"
  proof (cases "ev = ConnStop")
    case True
    with Cons.prems(1) show ?thesis by (simp add: silent_stop_log conn_stop_silent)
  next
    case False
    with silent_step_log [OF Cons.prems(1,2), of ev opts] Cons.prems(3) inv show ?thesis
      by (auto intro: conn_inv_silent)
  qed
  with Cons.IH [of ?c] inv Cons.prems(3) show ?case by simp
qed simp

section \<open>Retries\<close>

text \<open>
  Events that neither join, start nor restart the counting: the network, the socket, the
  timers and the probe.
\<close>

fun environment_event :: "connectionEvent \<Rightarrow> bool" where
  "environment_event ConnStart = False"
| "environment_event ConnOnline = False"
| "environment_event MarkJoined = False"
| "environment_event ReconnectAfterResync = False"
| "environment_event _ = True"

text \<open>
  Without a join each socket is paid for by an attempt: a socket or a reconnect timer exists only
  while attempts are left, and a socket, a reconnect timer and a probe exclude each other. \<open>n\<close> is
  the number of sockets created before the counting began.
\<close>

definition retry_inv :: "liveConnectionOptions \<Rightarrow> nat \<Rightarrow> liveConnection \<Rightarrow> bool" where
  "retry_inv opts n c \<longleftrightarrow>
     cn_attempt c \<le> co_maxReconnectAttempts opts
     \<and> (if cn_socket c \<noteq> None
          then cn_attempt c < co_maxReconnectAttempts opts \<and> cn_reconnectTimer c = None \<and> \<not> cn_probing c
            \<and> int (cn_nextSocket c) \<le> int n + cn_attempt c + 1
        else if cn_reconnectTimer c \<noteq> None
          then cn_attempt c < co_maxReconnectAttempts opts \<and> \<not> cn_probing c
            \<and> int (cn_nextSocket c) \<le> int n + cn_attempt c
        else if cn_probing c then int (cn_nextSocket c) \<le> int n + cn_attempt c
        else int (cn_nextSocket c) \<le> int n + co_maxReconnectAttempts opts)"

text \<open>No socket, no timer, no probe: the state in which the next move is decided.\<close>

definition between_attempts :: "liveConnectionOptions \<Rightarrow> nat \<Rightarrow> liveConnection \<Rightarrow> bool" where
  "between_attempts opts n c \<longleftrightarrow> cn_socket c = None \<and> cn_reconnectTimer c = None \<and> \<not> cn_probing c
     \<and> cn_attempt c \<le> co_maxReconnectAttempts opts \<and> int (cn_nextSocket c) \<le> int n + cn_attempt c"

lemma between_quiescent: "between_attempts opts n c \<Longrightarrow> retry_inv opts n c"
  by (simp add: between_attempts_def retry_inv_def)

lemma retry_inv_emit [simp]: "retry_inv opts n (emit e c) = retry_inv opts n c"
  by (simp add: retry_inv_def)

lemma retry_inv_setState [simp]: "retry_inv opts n (setState st c) = retry_inv opts n c"
  by (simp add: retry_inv_def)

lemma between_setState [simp]: "between_attempts opts n (setState st c) = between_attempts opts n c"
  by (simp add: between_attempts_def)

lemma connect_retry:
  "between_attempts opts n c \<Longrightarrow> cn_attempt c < co_maxReconnectAttempts opts \<Longrightarrow> retry_inv opts n (connect opts c)"
  by (auto simp: connect_def Let_def case_prod_unfold between_quiescent)
    (simp_all add: retry_inv_def between_attempts_def)

lemma retryOrExhaust_retry: "between_attempts opts n c \<Longrightarrow> retry_inv opts n (retryOrExhaust opts random c)"
  by (auto simp: retryOrExhaust_def scheduleReconnect_def Let_def case_prod_unfold between_quiescent)
    (simp add: retry_inv_def between_attempts_def)

lemma probeBeforeReconnect_retry: "between_attempts opts n c \<Longrightarrow> retry_inv opts n (probeBeforeReconnect c)"
  by (auto simp: probeBeforeReconnect_def Let_def between_quiescent)
    (simp add: retry_inv_def between_attempts_def)

lemma handleClose_retry:
  assumes "retry_inv opts n c"
  shows "retry_inv opts n (handleClose opts m code reason random c)"
proof (cases "isCurrent m c")
  case True
  let ?c = "clearAttemptTimers (c\<lparr>cn_socket := None\<rparr>)\<lparr>cn_joined := False\<rparr>"
  have quiet: "retry_inv opts n ?c"
    using assms True by (auto simp: retry_inv_def isCurrent_def)
  have next': "between_attempts opts n (emit e ?c\<lparr>cn_attempt := cn_attempt (emit e ?c) + 1\<rparr>)" for e
    using assms True by (auto simp: retry_inv_def isCurrent_def between_attempts_def)
  show ?thesis
    using True quiet retryOrExhaust_retry [OF next'] probeBeforeReconnect_retry [OF next']
    by (simp add: handleClose_def Let_def)
qed (use assms in \<open>simp add: handleClose_def\<close>)

lemma probe_retry:
  "retry_inv opts n c \<Longrightarrow> cn_probing c \<Longrightarrow> between_attempts opts n (c\<lparr>cn_probing := False\<rparr>)"
  by (auto simp: retry_inv_def between_attempts_def split: if_splits)

lemma probeResolved_retry: "retry_inv opts n c \<Longrightarrow> retry_inv opts n (probeResolved opts g r random c)"
  by (cases r)
    (auto simp: probeResolved_def isCurrentProbe_def Let_def retryOrExhaust_retry between_quiescent probe_retry)

lemma probeRejected_retry: "retry_inv opts n c \<Longrightarrow> retry_inv opts n (probeRejected opts g random c)"
  by (auto simp: probeRejected_def isCurrentProbe_def retryOrExhaust_retry probe_retry)

lemma retry_inv_dropped:
  assumes "retry_inv opts n c" "cn_socket d = None" "cn_reconnectTimer d = None" "\<not> cn_probing d"
    "cn_nextSocket d = cn_nextSocket c" "cn_attempt d = cn_attempt c"
  shows "retry_inv opts n d"
  using assms by (auto simp: retry_inv_def split: if_splits)

lemma retry_inv_same:
  assumes "retry_inv opts n c" "cn_socket d = cn_socket c" "cn_reconnectTimer d = cn_reconnectTimer c"
    "cn_probing d = cn_probing c" "cn_nextSocket d = cn_nextSocket c" "cn_attempt d = cn_attempt c"
  shows "retry_inv opts n d"
  using assms by (simp add: retry_inv_def)

lemma clearConnectTimer_frame [simp]:
  "cn_socket (clearConnectTimer c) = cn_socket c" "cn_reconnectTimer (clearConnectTimer c) = cn_reconnectTimer c"
  "cn_probing (clearConnectTimer c) = cn_probing c" "cn_nextSocket (clearConnectTimer c) = cn_nextSocket c"
  "cn_attempt (clearConnectTimer c) = cn_attempt c"
  by (simp_all add: clearConnectTimer_def split: option.splits)

lemma reconnectFired_retry:
  assumes "retry_inv opts n c" "conn_inv c" "pending_timer (cn_timers c) i = Some (ReconnectNow, d)"
  shows "retry_inv opts n (reconnectFired opts (c\<lparr>cn_timers := clear_timer i (cn_timers c)\<rparr>))"
proof -
  have "cn_reconnectTimer c = Some i"
    using assms(2,3) by (auto simp: conn_inv_def dest: conn_timers_fired_reconnect)
  with assms(1) have "between_attempts opts n (c\<lparr>cn_timers := clear_timer i (cn_timers c), cn_reconnectTimer := None\<rparr>)"
    and "cn_attempt c < co_maxReconnectAttempts opts"
    by (auto simp: retry_inv_def between_attempts_def split: if_splits)
  then show ?thesis by (simp add: reconnectFired_def connect_retry)
qed

lemma conn_step_retry:
  assumes "retry_inv opts n c" "conn_inv c" "environment_event ev"
  shows "retry_inv opts n (conn_step opts ev c)"
proof (cases ev)
  case (ConnTimerFired i)
  show ?thesis
  proof (cases "pending_timer (cn_timers c) i")
    case (Some kd)
    then obtain k d where kd: "pending_timer (cn_timers c) i = Some (k, d)" by (cases kd) auto
    have "retry_inv opts n (c\<lparr>cn_timers := ts\<rparr>)" for ts
      using assms(1) by (simp add: retry_inv_def)
    with kd ConnTimerFired reconnectFired_retry [OF assms(1,2)] show ?thesis
      by (cases k) (simp_all add: Let_def timeoutFired_def)
  qed (use assms ConnTimerFired in simp)
next
  case ConnStop
  then show ?thesis
    by (auto intro!: retry_inv_dropped [OF assms(1)]
        simp: conn_stop_def Let_def clearTimers_def cancelProbe_def)
next
  case ConnOffline
  then show ?thesis
    using assms(1)
    by (auto intro!: retry_inv_dropped [OF assms(1)] simp: conn_offline_def Let_def cancelProbe_def)
next
  case (SocketOpened m)
  then show ?thesis
    by (intro retry_inv_same [OF assms(1)]) (simp_all add: socketOpened_def Let_def case_prod_unfold)
next
  case (NetworkChanged b)
  then show ?thesis using assms(1) by (simp add: retry_inv_def)
qed (use assms in \<open>auto simp: handleClose_retry probeResolved_retry probeRejected_retry conn_send_def
    socketMessage_def split: option.splits\<close>)

lemma conn_run_retry:
  "retry_inv opts n c \<Longrightarrow> conn_inv c \<Longrightarrow> list_all environment_event evs \<Longrightarrow>
    retry_inv opts n (fold (conn_step opts) evs c)"
  by (induction evs arbitrary: c) (simp_all add: conn_step_retry conn_step_inv)

lemma retry_inv_total:
  "retry_inv opts n c \<Longrightarrow> int (cn_nextSocket c) \<le> int n + co_maxReconnectAttempts opts"
  by (auto simp: retry_inv_def split: if_splits)

section \<open>A socket that was let go\<close>

definition retired :: "nat \<Rightarrow> liveConnection \<Rightarrow> bool" where
  "retired m c \<longleftrightarrow> m < cn_nextSocket c \<and> cn_socket c \<noteq> Some m"

fun socket_event :: "nat \<Rightarrow> connectionEvent \<Rightarrow> bool" where
  "socket_event m (SocketOpened n) = (n = m)"
| "socket_event m (SocketMessage n data) = (n = m)"
| "socket_event m (SocketClosed n code reason random) = (n = m)"
| "socket_event m (SocketErrored n) = (n = m)"
| "socket_event m _ = False"

lemma retired_emit [simp]: "retired m (emit e c) = retired m c"
  by (simp add: retired_def)

lemma retired_setState [simp]: "retired m (setState st c) = retired m c"
  by (simp add: retired_def)

lemma retired_connect: "retired m c \<Longrightarrow> retired m (connect opts c)"
  by (auto simp: connect_def Let_def case_prod_unfold retired_def)

lemma retired_scheduleReconnect [simp]: "retired m (scheduleReconnect d c) = retired m c"
  by (simp add: scheduleReconnect_def Let_def case_prod_unfold retired_def)

lemma retired_retryOrExhaust [simp]: "retired m (retryOrExhaust opts random c) = retired m c"
  by (simp add: retryOrExhaust_def)

lemma retired_probeBeforeReconnect [simp]: "retired m (probeBeforeReconnect c) = retired m c"
  by (simp add: probeBeforeReconnect_def Let_def) (simp add: retired_def)

lemma retired_dropped:
  "m < cn_nextSocket c \<Longrightarrow> cn_socket d = None \<Longrightarrow> cn_nextSocket d = cn_nextSocket c \<Longrightarrow> retired m d"
  by (simp add: retired_def)

lemma retired_handleClose: "retired m c \<Longrightarrow> retired m (handleClose opts n code reason random c)"
  by (simp add: handleClose_def Let_def) (simp add: retired_def)

lemma retired_frame [simp]:
  "retired m (c\<lparr>cn_stopped := b\<rparr>) = retired m c" "retired m (c\<lparr>cn_attempt := n\<rparr>) = retired m c"
  by (simp_all add: retired_def)

lemma retired_step: "retired m c \<Longrightarrow> retired m (conn_step opts ev c)"
proof (induction opts ev c rule: conn_step.induct)
  case (12 opts i c)
  then show ?case
    by (auto simp: Let_def timeoutFired_def reconnectFired_def retired_def
        intro!: retired_connect [unfolded retired_def] split: option.splits connectionCallback.splits)
next
  case (1 opts c)
  then show ?case by (simp add: conn_start_def retired_connect)
next
  case (3 opts c)
  then show ?case by (simp add: conn_online_def retired_connect)
next
  case (13 opts g r random c)
  then show ?case
    by (cases r) (simp_all add: probeResolved_def Let_def, simp_all add: retired_def)
qed (auto simp: conn_stop_def conn_offline_def markJoined_def reconnectAfterResync_def conn_send_def
    socketOpened_def socketMessage_def retired_handleClose probeRejected_def clearTimers_def cancelProbe_def
    clearJoinTimer_def Let_def case_prod_unfold split: option.splits, auto simp: retired_def)

lemma retired_inert: "retired m c \<Longrightarrow> socket_event m ev \<Longrightarrow> conn_step opts ev c = c"
  by (cases ev) (simp_all add: retired_def isCurrent_def socketOpened_def socketMessage_def handleClose_def)

lemma retired_run:
  "retired m c \<Longrightarrow>
    fold (conn_step opts) evs c = fold (conn_step opts) (filter (\<lambda>ev. \<not> socket_event m ev) evs) c"
  by (induction evs arbitrary: c) (simp_all add: retired_inert retired_step)

section \<open>Properties\<close>

abbreviation conn_run :: "liveConnectionOptions \<Rightarrow> connectionEvent list \<Rightarrow> liveConnection \<Rightarrow> liveConnection" where
  "conn_run opts \<equiv> fold (conn_step opts)"

text \<open>
  C20. In every run of the controller at most one reconnect timer is pending and it is the one the
  controller can clear; a joined controller has a socket; a stopped controller has no socket, no
  reconnect timer and no probe, and reports itself offline.
\<close>
theorem connection_invariant:
  "let c = conn_run opts evs (liveConnection_new online) in
     (\<forall>i d. pending_timer (cn_timers c) i = Some (ReconnectNow, d) \<longrightarrow> cn_reconnectTimer c = Some i)
     \<and> (cn_joined c \<longrightarrow> cn_socket c \<noteq> None)
     \<and> (cn_stopped c \<longrightarrow> cn_socket c = None \<and> cn_reconnectTimer c = None \<and> \<not> cn_probing c \<and> cn_state c = Offline)"
proof -
  have "conn_inv (conn_run opts evs (liveConnection_new online))"
    by (rule conn_run_inv) (rule conn_inv_new)
  then show ?thesis
    by (auto simp: Let_def conn_inv_def dest: conn_timers_fired_reconnect)
qed

text \<open>
  C21. After \<open>stop\<close> the controller is quiet: whatever sockets, timers, probes and the browser
  still deliver, no callback is called and nothing is sent until \<open>start\<close> is called.
\<close>
theorem stop_is_final:
  assumes "ConnStart \<notin> set evs"
  shows "cn_log (conn_run opts evs (conn_stop (conn_run opts before (liveConnection_new online)))) =
           cn_log (conn_stop (conn_run opts before (liveConnection_new online)))
       \<and> silent (conn_run opts evs (conn_stop (conn_run opts before (liveConnection_new online))))"
  using assms by (intro silent_run) (simp_all add: conn_stop_silent conn_stop_inv conn_run_inv conn_inv_new)

text \<open>
  C22. A socket callback may change the state only while its socket is the current one: once a
  socket has been let go, removing every event of that socket from any later run gives the same
  state.
\<close>
theorem retired_socket_inert:
  assumes "m < cn_nextSocket c" "cn_socket c \<noteq> Some m"
  shows "conn_run opts evs c = conn_run opts (filter (\<lambda>ev. \<not> socket_event m ev) evs) c"
  using assms by (intro retired_run) (simp add: retired_def)


lemma backoff_base:
  fixes b m :: int
  assumes "0 \<le> b" "b \<le> m" "1 \<le> a"
  shows "rat_of_int b \<le> min (rat_of_int m) (rat_of_int b * 2 powi (min (a - 1) 6))"
proof -
  have "(1 :: rat) \<le> 2 powi (min (a - 1) 6)"
    using assms(3) by (simp add: power_int_def)
  then have "rat_of_int b * 1 \<le> rat_of_int b * 2 powi (min (a - 1) 6)"
    using assms(1) by (intro mult_left_mono) simp_all
  then show ?thesis using assms(2) by simp
qed

text \<open>
  The back-off of a retry lies between 0.8 times the base delay and 1.2 times the maximum,
  both rounded, for every random number from 0 to 1 and every attempt.
\<close>
theorem backoffDelay_bounds:
  assumes "0 \<le> co_retryBaseMs opts" "co_retryBaseMs opts \<le> co_retryMaxMs opts" "1 \<le> cn_attempt c"
    "0 \<le> random" "random \<le> 1"
  shows "js_round (rat_of_int (co_retryBaseMs opts) * (4 / 5)) \<le> backoffDelay opts random c
       \<and> backoffDelay opts random c \<le> js_round (rat_of_int (co_retryMaxMs opts) * (6 / 5))"
proof -
  let ?b = "rat_of_int (co_retryBaseMs opts)" and ?m = "rat_of_int (co_retryMaxMs opts)"
  let ?e = "min ?m (?b * 2 powi (min (cn_attempt c - 1) 6))" and ?f = "4 / 5 + random * (2 / 5)"
  have b: "?b \<le> ?e" using assms(1-3) by (rule backoff_base)
  have e: "0 \<le> ?e" using b assms(1) by (meson of_int_0_le_iff order_trans)
  have f: "4 / 5 \<le> ?f" "?f \<le> 6 / 5" using assms(4,5) by auto
  have lo: "?b * (4 / 5) \<le> ?e * ?f" using b f e assms(1) by (intro mult_mono) auto
  have hi: "?e * ?f \<le> ?m * (6 / 5)" using f e assms(1,2) by (intro mult_mono) auto
  show ?thesis
    using lo hi by (auto simp: backoffDelay_def js_round_def Let_def intro!: floor_mono)
qed

section \<open>Witnesses and the late probe\<close>

theorem connection_invariant_witness:
  "let c = conn_run (default_options False) [ConnStart, SocketOpened 0, MarkJoined, ConnStop] (liveConnection_new True)
   in cn_stopped c \<and> cn_socket c = None \<and> cn_reconnectTimer c = None \<and> \<not> cn_probing c \<and> cn_state c = Offline"
proof -
  let ?c = "conn_run (default_options False) [ConnStart, SocketOpened 0, MarkJoined, ConnStop] (liveConnection_new True)"
  have "cn_stopped ?c" by code_simp
  with connection_invariant [of "default_options False" "[ConnStart, SocketOpened 0, MarkJoined, ConnStop]" True]
  show ?thesis unfolding Let_def by blast
qed

theorem stop_is_final_witness:
  "let c = conn_stop (conn_run (default_options False) [ConnStart, SocketOpened 0] (liveConnection_new True)) in
     cn_log (conn_run (default_options False) [MarkJoined, SocketClosed 0 (Some 1006) None 0, ConnOnline] c) = cn_log c
     \<and> silent (conn_run (default_options False) [MarkJoined, SocketClosed 0 (Some 1006) None 0, ConnOnline] c)"
  using stop_is_final [of "[MarkJoined, SocketClosed 0 (Some 1006) None 0, ConnOnline]" "default_options False"
      "[ConnStart, SocketOpened 0]" True]
  by (simp only: Let_def list.set) simp

theorem retired_socket_inert_witness:
  "let c = conn_run (default_options False) [ConnStart, SocketClosed 0 (Some 1006) None 0] (liveConnection_new True) in
     0 < cn_nextSocket c \<and> cn_socket c \<noteq> Some 0
     \<and> conn_run (default_options False) [SocketOpened 0, ConnStop] c = conn_run (default_options False) [ConnStop] c"
proof -
  let ?c = "conn_run (default_options False) [ConnStart, SocketClosed 0 (Some 1006) None 0] (liveConnection_new True)"
  have "0 < cn_nextSocket ?c" "cn_socket ?c \<noteq> Some 0" by code_simp+
  with retired_socket_inert [of 0 ?c "default_options False" "[SocketOpened 0, ConnStop]"] show ?thesis
    by (simp only: Let_def) simp
qed


theorem backoffDelay_bounds_witness:
  "js_round (rat_of_int 250 * (4 / 5)) \<le> backoffDelay (default_options False) (1 / 2) (liveConnection_new True\<lparr>cn_attempt := 3\<rparr>)
   \<and> backoffDelay (default_options False) (1 / 2) (liveConnection_new True\<lparr>cn_attempt := 3\<rparr>)
       \<le> js_round (rat_of_int 5000 * (6 / 5))"
  using backoffDelay_bounds [of "default_options False" "liveConnection_new True\<lparr>cn_attempt := 3\<rparr>" "1 / 2"]
  by (simp add: default_options_def)

text \<open>
  \<open>reconnectAfterResync\<close> leaves a probe of the earlier close under way. If that probe answers
  after the new socket has joined, a second reconnect is scheduled and the controller reports
  itself reconnecting; the timer then finds a socket and does nothing, so the controller stays
  in that state although it is joined and has no retry pending.
\<close>
theorem late_probe_leaves_reconnecting:
  "let c = conn_run (default_options True)
       [ConnStart, SocketOpened 0, MarkJoined, SocketClosed 0 (Some 1006) None 0, ReconnectAfterResync,
        ConnTimerFired 2, SocketOpened 1, MarkJoined, ProbeResolved 1 Authorized 0, ConnTimerFired 5]
       (liveConnection_new True)
   in cn_joined c \<and> cn_socket c = Some 1 \<and> cn_reconnectTimer c = None \<and> \<not> cn_probing c
      \<and> cn_state c = Reconnecting"
  by code_simp

end
