(* ===== verification/Json.thy ===== *)
theory Json
  imports Js_Values
begin

text \<open>
  \<open>JSON.stringify\<close> and \<open>JSON.parse\<close> as the sources use them. Parsing is the JSON grammar over
  code units, with fuel for the nesting; a repeated key keeps the last value. Rendering covers
  strings, booleans, null, arrays, objects and integers, which is what the sources render;
  None stands for \<open>undefined\<close> and for fractions, whose rendering is not modelled. A parsed
  number is the rational it denotes, which is the double for every safe integer. Main fact:
  what \<open>JSON.stringify\<close> renders, \<open>JSON.parse\<close> reads back.
\<close>

section \<open>Rendering\<close>

definition hex_digit :: "nat \<Rightarrow> 16 word" where
  "hex_digit n = (if n < 10 then of_nat (48 + n) else of_nat (87 + n))"

definition hex4 :: "16 word \<Rightarrow> jsstring" where
  "hex4 u = [hex_digit (unat u div 4096), hex_digit (unat u div 256 mod 16),
     hex_digit (unat u div 16 mod 16), hex_digit (unat u mod 16)]"

definition escape_unit :: "16 word \<Rightarrow> jsstring" where
  "escape_unit u =
     (if u = 0x22 then [0x5C, 0x22]
      else if u = 0x5C then [0x5C, 0x5C]
      else if u = 8 then [0x5C, 0x62]
      else if u = 9 then [0x5C, 0x74]
      else if u = 10 then [0x5C, 0x6E]
      else if u = 12 then [0x5C, 0x66]
      else if u = 13 then [0x5C, 0x72]
      else if u < 0x20 then 0x5C # 0x75 # hex4 u
      else [u])"

text \<open>A lone surrogate is written as an escape; a pair is copied.\<close>

fun quote_units :: "jsstring \<Rightarrow> jsstring" where
  "quote_units [] = []"
| "quote_units [u] = (if high_surrogate u \<or> low_surrogate u then 0x5C # 0x75 # hex4 u else escape_unit u)"
| "quote_units (u # v # us) =
     (if high_surrogate u \<and> low_surrogate v then u # v # quote_units us
      else if high_surrogate u \<or> low_surrogate u then (0x5C # 0x75 # hex4 u) @ quote_units (v # us)
      else escape_unit u @ quote_units (v # us))"

definition json_quote :: "jsstring \<Rightarrow> jsstring" where
  "json_quote s = 0x22 # quote_units s @ [0x22]"

fun join_with :: "jsstring \<Rightarrow> jsstring list \<Rightarrow> jsstring" where
  "join_with sep [] = []"
| "join_with sep [x] = x"
| "join_with sep (x # y # xs) = x @ sep @ join_with sep (y # xs)"

definition json_number :: "jsnum \<Rightarrow> jsstring option" where
  "json_number n = (case n of
     JFinite q \<Rightarrow> (if is_safe_integer (JFinite q) then Some (int_str \<lfloor>q\<rfloor>) else None)
   | _ \<Rightarrow> Some (js ''null''))"

fun all_Some :: "'a option list \<Rightarrow> 'a list option" where
  "all_Some [] = Some []"
| "all_Some (None # xs) = None"
| "all_Some (Some x # xs) = map_option (Cons x) (all_Some xs)"

fun json_stringify :: "jsval \<Rightarrow> jsstring option" where
  "json_stringify JUndefined = None"
| "json_stringify JNull = Some (js ''null'')"
| "json_stringify (JBool b) = Some (if b then js ''true'' else js ''false'')"
| "json_stringify (JNum n) = json_number n"
| "json_stringify (JStr s) = Some (json_quote s)"
| "json_stringify (JArr xs) =
     map_option (\<lambda>ps. 0x5B # join_with [0x2C] ps @ [0x5D])
       (all_Some (map (\<lambda>x. if x = JUndefined then Some (js ''null'') else json_stringify x) xs))"
| "json_stringify (JObj ps) =
     map_option (\<lambda>ms. 0x7B # join_with [0x2C] ms @ [0x7D])
       (all_Some (map (\<lambda>(k, v). map_option (\<lambda>t. json_quote k @ 0x3A # t) (json_stringify v))
         (filter (\<lambda>(k, v). v \<noteq> JUndefined) ps)))"

section \<open>Parsing\<close>

definition json_space :: "16 word \<Rightarrow> bool" where
  "json_space u \<longleftrightarrow> u = 0x20 \<or> u = 9 \<or> u = 10 \<or> u = 13"

definition skip_space :: "jsstring \<Rightarrow> jsstring" where
  "skip_space s = dropWhile json_space s"

definition hex_value :: "16 word \<Rightarrow> nat option" where
  "hex_value u =
     (if 48 \<le> u \<and> u \<le> 57 then Some (unat u - 48)
      else if 97 \<le> u \<and> u \<le> 102 then Some (unat u - 87)
      else if 65 \<le> u \<and> u \<le> 70 then Some (unat u - 55)
      else None)"

definition hex4_value :: "16 word \<Rightarrow> 16 word \<Rightarrow> 16 word \<Rightarrow> 16 word \<Rightarrow> 16 word option" where
  "hex4_value a b c d = (case (hex_value a, hex_value b, hex_value c, hex_value d) of
     (Some w, Some x, Some y, Some z) \<Rightarrow> Some (of_nat (4096 * w + 256 * x + 16 * y + z))
   | _ \<Rightarrow> None)"

definition simple_escape :: "16 word \<Rightarrow> 16 word option" where
  "simple_escape e =
     (if e = 0x22 \<or> e = 0x5C \<or> e = 0x2F then Some e
      else if e = 0x62 then Some 8
      else if e = 0x66 then Some 12
      else if e = 0x6E then Some 10
      else if e = 0x72 then Some 13
      else if e = 0x74 then Some 9
      else None)"

fun parse_chars :: "jsstring \<Rightarrow> (jsstring \<times> jsstring) option" where
  "parse_chars [] = None"
| "parse_chars (u # us) =
     (if u = 0x22 then Some ([], us)
      else if u = 0x5C then
        (case us of
           [] \<Rightarrow> None
         | e # us' \<Rightarrow>
             if e = 0x75 then
               (case us' of
                  a # b # c # d # us'' \<Rightarrow>
                    (case hex4_value a b c d of
                       None \<Rightarrow> None
                     | Some x \<Rightarrow> map_option (\<lambda>(s, r). (x # s, r)) (parse_chars us''))
                | _ \<Rightarrow> None)
             else
               (case simple_escape e of
                  None \<Rightarrow> None
                | Some x \<Rightarrow> map_option (\<lambda>(s, r). (x # s, r)) (parse_chars us')))
      else if u < 0x20 then None
      else map_option (\<lambda>(s, r). (u # s, r)) (parse_chars us))"

definition is_digit :: "16 word \<Rightarrow> bool" where
  "is_digit u \<longleftrightarrow> 48 \<le> u \<and> u \<le> 57"

definition digits_value :: "jsstring \<Rightarrow> nat" where
  "digits_value ds = foldl (\<lambda>a d. 10 * a + (unat d - 48)) 0 ds"

definition parse_integer_part :: "jsstring \<Rightarrow> (jsstring \<times> jsstring) option" where
  "parse_integer_part s = (case s of
     [] \<Rightarrow> None
   | u # us \<Rightarrow>
       if u = 48 then Some ([48], us)
       else if is_digit u then Some (takeWhile is_digit s, dropWhile is_digit s)
       else None)"

definition parse_fraction :: "jsstring \<Rightarrow> (jsstring \<times> jsstring) option" where
  "parse_fraction s = (case s of
     u # us \<Rightarrow>
       if u = 0x2E then
         (if takeWhile is_digit us = [] then None else Some (takeWhile is_digit us, dropWhile is_digit us))
       else Some ([], s)
   | [] \<Rightarrow> Some ([], []))"

definition parse_signed_digits :: "jsstring \<Rightarrow> (int \<times> jsstring) option" where
  "parse_signed_digits s =
     (let (neg, t) = (case s of u # us \<Rightarrow> if u = 0x2D then (True, us) else if u = 0x2B then (False, us) else (False, s)
                      | [] \<Rightarrow> (False, []));
          ds = takeWhile is_digit t
      in if ds = [] then None
         else Some (if neg then - int (digits_value ds) else int (digits_value ds), dropWhile is_digit t))"

definition parse_exponent :: "jsstring \<Rightarrow> (int \<times> jsstring) option" where
  "parse_exponent s = (case s of
     u # us \<Rightarrow> if u = 0x65 \<or> u = 0x45 then parse_signed_digits us else Some (0, s)
   | [] \<Rightarrow> Some (0, []))"

definition parse_unsigned :: "jsstring \<Rightarrow> (rat \<times> jsstring) option" where
  "parse_unsigned s = (case parse_integer_part s of
     None \<Rightarrow> None
   | Some (i, r) \<Rightarrow> (case parse_fraction r of
       None \<Rightarrow> None
     | Some (f, r') \<Rightarrow> (case parse_exponent r' of
         None \<Rightarrow> None
       | Some (e, r'') \<Rightarrow>
           Some (rat_of_nat (digits_value (i @ f)) * 10 powi (e - int (length f)), r''))))"

definition parse_number :: "jsstring \<Rightarrow> (jsval \<times> jsstring) option" where
  "parse_number s = (case s of
     [] \<Rightarrow> None
   | u # us \<Rightarrow>
       if u = 0x2D then map_option (\<lambda>(q, r). (JNum (JFinite (- q)), r)) (parse_unsigned us)
       else map_option (\<lambda>(q, r). (JNum (JFinite q), r)) (parse_unsigned s))"

definition parse_literal :: "string \<Rightarrow> jsval \<Rightarrow> jsstring \<Rightarrow> (jsval \<times> jsstring) option" where
  "parse_literal w v s = (if starts_with s (js w) then Some (v, drop (length w) s) else None)"

fun parse_value :: "nat \<Rightarrow> jsstring \<Rightarrow> (jsval \<times> jsstring) option"
  and parse_elements :: "nat \<Rightarrow> jsstring \<Rightarrow> (jsval list \<times> jsstring) option"
  and parse_members :: "nat \<Rightarrow> jsstring \<Rightarrow> ((jsstring \<times> jsval) list \<times> jsstring) option"
where
  "parse_value 0 s = None"
| "parse_value (Suc n) s = (case skip_space s of
     [] \<Rightarrow> None
   | u # us \<Rightarrow>
       if u = 0x22 then map_option (\<lambda>(t, r). (JStr t, r)) (parse_chars us)
       else if u = 0x7B then
         (if skip_space us \<noteq> [] \<and> hd (skip_space us) = 0x7D then Some (JObj [], tl (skip_space us))
          else map_option (\<lambda>(ms, r). (JObj (map_new ms), r)) (parse_members n us))
       else if u = 0x5B then
         (if skip_space us \<noteq> [] \<and> hd (skip_space us) = 0x5D then Some (JArr [], tl (skip_space us))
          else map_option (\<lambda>(xs, r). (JArr xs, r)) (parse_elements n us))
       else if u = 0x74 then parse_literal ''true'' (JBool True) (u # us)
       else if u = 0x66 then parse_literal ''false'' (JBool False) (u # us)
       else if u = 0x6E then parse_literal ''null'' JNull (u # us)
       else parse_number (u # us))"
| "parse_elements 0 s = None"
| "parse_elements (Suc n) s = (case parse_value n s of
     None \<Rightarrow> None
   | Some (v, r) \<Rightarrow> (case skip_space r of
       [] \<Rightarrow> None
     | u # r' \<Rightarrow>
         if u = 0x2C then map_option (\<lambda>(vs, t). (v # vs, t)) (parse_elements n r')
         else if u = 0x5D then Some ([v], r')
         else None))"
| "parse_members 0 s = None"
| "parse_members (Suc n) s = (case skip_space s of
     [] \<Rightarrow> None
   | u # us \<Rightarrow>
       if u \<noteq> 0x22 then None
       else (case parse_chars us of
          None \<Rightarrow> None
        | Some (k, r) \<Rightarrow> (case skip_space r of
            [] \<Rightarrow> None
          | c # r' \<Rightarrow>
              if c \<noteq> 0x3A then None
              else (case parse_value n r' of
                 None \<Rightarrow> None
               | Some (v, r'') \<Rightarrow> (case skip_space r'' of
                   [] \<Rightarrow> None
                 | e # t \<Rightarrow>
                     if e = 0x2C then map_option (\<lambda>(ms, t'). ((k, v) # ms, t')) (parse_members n t)
                     else if e = 0x7D then Some ([(k, v)], t)
                     else None)))))"

text \<open>None: \<open>JSON.parse\<close> throws. Every nested call consumes input, so the length is fuel enough.\<close>

definition json_parse :: "jsstring \<Rightarrow> jsval option" where
  "json_parse s = (case parse_value (Suc (length s)) s of
     None \<Rightarrow> None
   | Some (v, r) \<Rightarrow> if skip_space r = [] then Some v else None)"

section \<open>Strings and numbers read back\<close>

lemma hex_value_digit [simp]:
  assumes "n < 16"
  shows "hex_value (hex_digit n) = Some n"
proof -
  have "\<forall>n \<in> set [0,1,2,3,4,5,6,7,8,9,10,11,12,13,14,15]. hex_value (hex_digit n) = Some n"
    by (simp add: hex_digit_def hex_value_def)
  moreover have "n \<in> set [0,1,2,3,4,5,6,7,8,9,10,11,12,13,14,15]"
    using assms by (simp add: eval_nat_numeral less_Suc_eq)
  ultimately show ?thesis by blast
qed

lemma div_mod_16: "16 * (m div 16) + m mod 16 = (m :: nat)"
  by (rule mult_div_mod_eq)

lemma hex4_sum:
  "4096 * (n div 4096) + 256 * (n div 256 mod 16) + 16 * (n div 16 mod 16) + n mod 16 = (n :: nat)"
proof -
  define a b c where "a = n div 16" and "b = a div 16" and "c = b div 16"
  have "n div 256 = b" "n div 4096 = c"
    unfolding a_def b_def c_def by (simp_all only: div_mult2_eq [symmetric]) simp_all
  moreover have "4096 * c + 256 * (b mod 16) + 16 * (a mod 16) + n mod 16 = n"
  proof -
    have "4096 * c + 256 * (b mod 16) + 16 * (a mod 16) + n mod 16
        = 16 * (16 * (16 * c + b mod 16) + a mod 16) + n mod 16"
      by (simp add: distrib_left)
    then show ?thesis by (simp only: a_def b_def c_def div_mod_16)
  qed
  ultimately show ?thesis by (simp only: a_def)
qed

lemma hex4_value_hex4:
  "hex4_value (hex_digit (unat u div 4096)) (hex_digit (unat u div 256 mod 16))
     (hex_digit (unat u div 16 mod 16)) (hex_digit (unat u mod 16)) = Some u"
proof -
  have "unat u div 4096 < 16"
    using unsigned_less [of u, where 'a = nat] by simp
  then show ?thesis by (simp add: hex4_value_def hex4_sum del: of_nat_add of_nat_mult)
qed

lemma parse_chars_hex4:
  "parse_chars ((0x5C # 0x75 # hex4 u) @ r) = map_option (\<lambda>(s, r). (u # s, r)) (parse_chars r)"
  by (simp add: hex4_def hex4_value_hex4)

lemma parse_chars_escape:
  "parse_chars (escape_unit u @ r) = map_option (\<lambda>(s, r). (u # s, r)) (parse_chars r)"
  using parse_chars_hex4 [of u r] by (simp add: escape_unit_def simple_escape_def)

lemma surrogate_plain:
  "high_surrogate u \<or> low_surrogate u \<Longrightarrow>
    parse_chars (u # r) = map_option (\<lambda>(s, r). (u # s, r)) (parse_chars r)"
  by (auto simp: high_surrogate_def low_surrogate_def word_less_nat_alt)

lemma parse_chars_quote: "parse_chars (quote_units s @ 0x22 # r) = Some (s, r)"
proof (induction s rule: quote_units.induct)
  case 1
  then show ?case by simp
next
  case (2 u)
  then show ?case
    using parse_chars_hex4 [of u "0x22 # r"] parse_chars_escape [of u "0x22 # r"] by simp
next
  case (3 u v us)
  show ?case
  proof (cases "high_surrogate u \<and> low_surrogate v")
    case True
    with 3(1) show ?thesis by (simp add: surrogate_plain del: parse_chars.simps)
  next
    case False
    with 3(2,3) show ?thesis
      using parse_chars_hex4 [of u "quote_units (v # us) @ 0x22 # r"]
        parse_chars_escape [of u "quote_units (v # us) @ 0x22 # r"]
      by (auto simp del: parse_chars.simps)
  qed
qed

lemma js_digits: "js (digits_of n) = (if n < 10 then [of_nat (48 + n)] else js (digits_of (n div 10)) @ [of_nat (48 + n mod 10)])"
proof -
  have "(of_char (char_of (48 + k) :: char) :: 16 word) = of_nat (48 + k)" if "k < 10" for k :: nat
  proof -
    have "(of_char (char_of (48 + k) :: char) :: 16 word) = of_nat (of_char (char_of (48 + k) :: char))"
      by (simp only: of_nat_of_char)
    also have "of_char (char_of (48 + k) :: char) = 48 + k"
      using that by (simp add: take_bit_eq_mod)
    finally show ?thesis .
  qed
  then show ?thesis
    by (simp add: digits_of.simps [of n] js_def del: of_nat_add)
qed

lemma digit_unit:
  assumes "k < 10"
  shows "is_digit (of_nat (48 + k))" "unat (of_nat (48 + k) :: 16 word) = 48 + k"
proof -
  show *: "unat (of_nat (48 + k) :: 16 word) = 48 + k"
    using assms by (simp add: unat_of_nat take_bit_eq_mod del: of_nat_add)
  show "is_digit (of_nat (48 + k))"
    using assms unfolding is_digit_def word_le_nat_alt * by simp
qed

lemma digits_of_facts:
  "js (digits_of n) \<noteq> [] \<and> (\<forall>u \<in> set (js (digits_of n)). is_digit u)
   \<and> digits_value (js (digits_of n)) = n \<and> (10 \<le> n \<longrightarrow> hd (js (digits_of n)) \<noteq> 48)
   \<and> (n < 10 \<longrightarrow> js (digits_of n) = [of_nat (48 + n)])"
proof (induction n rule: less_induct)
  case (less n)
  show ?case
  proof (cases "n < 10")
    case True
    then show ?thesis
      using digit_unit [OF True] by (simp add: js_digits [of n] digits_value_def del: of_nat_add)
  next
    case False
    then have IH: "js (digits_of (n div 10)) \<noteq> []" "\<forall>u \<in> set (js (digits_of (n div 10))). is_digit u"
      "digits_value (js (digits_of (n div 10))) = n div 10"
      "10 \<le> n div 10 \<longrightarrow> hd (js (digits_of (n div 10))) \<noteq> 48"
      "n div 10 < 10 \<longrightarrow> js (digits_of (n div 10)) = [of_nat (48 + n div 10)]"
      using less.IH [of "n div 10"] by simp_all
    have head: "hd (js (digits_of (n div 10))) \<noteq> 48"
    proof (cases "10 \<le> n div 10")
      case small: False
      have "unat (of_nat (48 + n div 10) :: 16 word) \<noteq> unat (48 :: 16 word)"
        unfolding digit_unit(2) [of "n div 10", OF small [simplified not_le]] using False by simp
      then have "(of_nat (48 + n div 10) :: 16 word) \<noteq> 48" by metis
      with IH(5) small show ?thesis by simp
    qed (use IH(4) in blast)
    show ?thesis
      using False IH(1-3) head digit_unit [of "n mod 10"]
      by (simp add: js_digits [of n] digits_value_def hd_append del: of_nat_add)
  qed
qed

text \<open>What can follow a value inside rendered JSON.\<close>

definition delimited :: "jsstring \<Rightarrow> bool" where
  "delimited r \<longleftrightarrow> (case r of [] \<Rightarrow> True | u # us \<Rightarrow> u = 0x2C \<or> u = 0x5D \<or> u = 0x7D)"

lemma delimited_simps [simp]:
  "delimited []" "delimited (0x2C # r)" "delimited (0x5D # r)" "delimited (0x7D # r)"
  by (simp_all add: delimited_def)

lemma delimited_no_number:
  assumes "delimited r"
  shows "takeWhile is_digit r = []" "dropWhile is_digit r = r"
    "parse_fraction r = Some ([], r)" "parse_exponent r = Some (0, r)"
  using assms
  by (cases r; auto simp: delimited_def is_digit_def parse_fraction_def parse_exponent_def)+

lemma parse_integer_part_digits:
  assumes "delimited r"
  shows "parse_integer_part (js (digits_of n) @ r) = Some (js (digits_of n), r)"
proof (cases "n = 0")
  case True
  then show ?thesis
    using digits_of_facts [of 0] by (simp add: parse_integer_part_def)
next
  case False
  obtain u us where d: "js (digits_of n) = u # us"
    using digits_of_facts [of n] by (cases "js (digits_of n)") auto
  have all: "\<forall>x \<in> set (u # us). is_digit x"
    using digits_of_facts [of n] d by auto
  have "u \<noteq> 48"
  proof (cases "n < 10")
    case True
    then have "unat u = 48 + n"
      using digits_of_facts [of n] d digit_unit(2) [OF True] by (auto simp del: of_nat_add)
    with False show ?thesis by auto
  qed (use digits_of_facts [of n] d in auto)
  moreover have "takeWhile is_digit ((u # us) @ r) = u # us" "dropWhile is_digit ((u # us) @ r) = r"
    using all delimited_no_number [OF assms] by (simp_all add: takeWhile_append2 dropWhile_append2)
  ultimately show ?thesis
    using all by (simp add: parse_integer_part_def d)
qed

lemma parse_unsigned_digits:
  "delimited r \<Longrightarrow> parse_unsigned (js (digits_of n) @ r) = Some (rat_of_nat n, r)"
  using digits_of_facts [of n]
  by (simp add: parse_unsigned_def parse_integer_part_digits delimited_no_number)

lemma js_minus: "js (CHR ''-'' # s) = 0x2D # js s"
  by (simp add: js_def)

lemma int_str_head:
  "int_str n \<noteq> [] \<and> (hd (int_str n) = 0x2D \<or> is_digit (hd (int_str n)))"
  using digits_of_facts [of "nat n"] by (auto simp: int_str_def js_minus hd_in_set)

lemma parse_number_int:
  assumes "delimited r"
  shows "parse_number (int_str n @ r) = Some (JInt n, r)"
proof (cases "n < 0")
  case True
  then show ?thesis
    using parse_unsigned_digits [OF assms, of "nat (- n)"]
    by (simp add: int_str_def js_minus parse_number_def)
next
  case False
  then obtain u us where d: "js (digits_of (nat n)) = u # us"
    using digits_of_facts [of "nat n"] by (cases "js (digits_of (nat n))") auto
  have "is_digit u" using digits_of_facts [of "nat n"] d by auto
  then have "u \<noteq> 0x2D" by (auto simp: is_digit_def)
  then show ?thesis
    using parse_unsigned_digits [OF assms, of "nat n"] False d
    by (simp add: int_str_def parse_number_def)
qed

section \<open>Whole values read back\<close>

fun json_data :: "jsval \<Rightarrow> bool" where
  "json_data JUndefined = False"
| "json_data JNull = True"
| "json_data (JBool b) = True"
| "json_data (JNum n) = is_safe_integer n"
| "json_data (JStr s) = True"
| "json_data (JArr xs) = (\<forall>x \<in> set xs. json_data x)"
| "json_data (JObj ps) = (distinct (map fst ps) \<and> (\<forall>p \<in> set ps. json_data (snd p)))"

lemma update_fresh: "k \<notin> fst ` set m \<Longrightarrow> AList.update k v m = m @ [(k, v)]"
  by (induction m) auto

lemma foldl_update_fresh:
  "distinct (map fst (m @ es)) \<Longrightarrow> foldl (\<lambda>m (k, v). AList.update k v m) m es = m @ es"
proof (induction es arbitrary: m)
  case (Cons e es)
  obtain k v where e: "e = (k, v)" by (cases e)
  have "AList.update k v m = m @ [(k, v)]"
    using Cons.prems by (intro update_fresh) (auto simp: e)
  with Cons.IH [of "m @ [(k, v)]"] Cons.prems show ?case by (simp add: e)
qed simp

lemma map_new_distinct: "distinct (map fst es) \<Longrightarrow> map_new es = es"
  using foldl_update_fresh [of "[]" es] by (simp add: map_new_def)

text \<open>The first code unit of a rendered value.\<close>

definition value_head :: "16 word \<Rightarrow> bool" where
  "value_head u \<longleftrightarrow> \<not> json_space u \<and> u \<noteq> 0x5D \<and> u \<noteq> 0x7D"

lemma number_head:
  assumes "u = 0x2D \<or> is_digit u"
  shows "value_head u" "u \<noteq> 0x22" "u \<noteq> 0x7B" "u \<noteq> 0x5B" "u \<noteq> 0x74" "u \<noteq> 0x66" "u \<noteq> 0x6E"
  using assms by (auto simp: value_head_def json_space_def is_digit_def)

lemma js_words [simp]:
  "js ''true'' = [0x74, 0x72, 0x75, 0x65]" "js ''false'' = [0x66, 0x61, 0x6C, 0x73, 0x65]"
  "js ''null'' = [0x6E, 0x75, 0x6C, 0x6C]"
  by (simp_all add: js_def)

lemma stringify_head:
  "json_data v \<Longrightarrow> json_stringify v = Some s \<Longrightarrow> s \<noteq> [] \<and> value_head (hd s)"
proof (cases v)
  case (JNum n)
  assume "json_data v" "json_stringify v = Some s"
  with JNum obtain k where "s = int_str k"
    by (cases n) (auto simp: json_number_def is_safe_integer_def split: if_splits)
  then show ?thesis using int_str_head [of k] number_head(1) by auto
qed (auto simp: value_head_def json_space_def json_quote_def split: if_splits)

lemma skip_space_head: "\<not> json_space u \<Longrightarrow> skip_space (u # us) = u # us"
  by (simp add: skip_space_def)

lemma skip_space_marks [simp]:
  "skip_space (0x2C # r) = 0x2C # r" "skip_space (0x5D # r) = 0x5D # r" "skip_space (0x7D # r) = 0x7D # r"
  "skip_space (0x3A # r) = 0x3A # r" "skip_space (0x22 # r) = 0x22 # r" "skip_space (0x7B # r) = 0x7B # r"
  "skip_space (0x5B # r) = 0x5B # r" "skip_space [] = []"
  by (simp_all add: skip_space_def json_space_def)

text \<open>What the induction provides for a part of a value.\<close>

definition reads_back :: "jsval \<Rightarrow> bool" where
  "reads_back v \<longleftrightarrow> (\<exists>s. json_stringify v = Some s \<and> s \<noteq> [] \<and> value_head (hd s)
     \<and> (\<forall>r n. delimited r \<longrightarrow> length s \<le> n \<longrightarrow> parse_value n (s @ r) = Some (v, r)))"

definition rendered :: "jsval \<Rightarrow> jsstring" where
  "rendered v = the (json_stringify v)"

lemma reads_backD:
  assumes "reads_back v"
  shows "json_stringify v = Some (rendered v)" "rendered v \<noteq> []" "value_head (hd (rendered v))"
    "delimited r \<Longrightarrow> length (rendered v) \<le> n \<Longrightarrow> parse_value n (rendered v @ r) = Some (v, r)"
  using assms by (auto simp: reads_back_def rendered_def)

lemma all_Some_map: "(\<forall>x \<in> set xs. f x = Some (g x)) \<Longrightarrow> all_Some (map f xs) = Some (map g xs)"
  by (induction xs) auto

lemma all_Some_set: "all_Some xs = Some ys \<Longrightarrow> y \<in> set ys \<Longrightarrow> Some y \<in> set xs"
  by (induction xs arbitrary: ys rule: all_Some.induct) auto

lemma all_Some_list_all:
  assumes "all_Some (map f xs) = Some ys" "\<And>x y. f x = Some y \<Longrightarrow> P y"
  shows "list_all P ys"
  unfolding list_all_iff
proof
  fix y
  assume "y \<in> set ys"
  from all_Some_set [OF assms(1) this] obtain x where "f x = Some y" by auto
  then show "P y" by (rule assms(2))
qed

lemma length_join_with_Cons:
  "length x \<le> length (join_with sep (x # xs))"
  by (cases xs) auto

lemma parse_elements_rendered:
  "xs \<noteq> [] \<Longrightarrow> \<forall>x \<in> set xs. reads_back x \<Longrightarrow> length (join_with [0x2C] (map rendered xs)) < n \<Longrightarrow>
    parse_elements n (join_with [0x2C] (map rendered xs) @ 0x5D # r) = Some (xs, r)"
proof (induction xs arbitrary: n)
  case (Cons x xs)
  then obtain m where n: "n = Suc m" by (cases n) auto
  have x: "reads_back x" using Cons.prems by simp
  show ?case
  proof (cases xs)
    case Nil
    with Cons.prems n reads_backD(4) [OF x, of "0x5D # r" m] show ?thesis by simp
  next
    case (Cons y ys)
    with Cons.prems n have len: "length (rendered x) \<le> m"
      "length (join_with [0x2C] (map rendered xs)) < m" by auto
    have "parse_elements m (join_with [0x2C] (map rendered xs) @ 0x5D # r) = Some (xs, r)"
      using Cons.IH [of m] Cons.prems len Cons by auto
    with Cons len reads_backD(4) [OF x, of "0x2C # join_with [0x2C] (map rendered xs) @ 0x5D # r" m] n
    show ?thesis by simp
  qed
qed simp

definition rendered_member :: "jsstring \<times> jsval \<Rightarrow> jsstring" where
  "rendered_member p = json_quote (fst p) @ 0x3A # rendered (snd p)"

lemma parse_chars_json_quote: "json_quote k @ r = 0x22 # quote_units k @ 0x22 # r"
  by (simp add: json_quote_def)

lemma parse_members_rendered:
  "ps \<noteq> [] \<Longrightarrow> \<forall>p \<in> set ps. reads_back (snd p) \<Longrightarrow>
    length (join_with [0x2C] (map rendered_member ps)) < n \<Longrightarrow>
    parse_members n (join_with [0x2C] (map rendered_member ps) @ 0x7D # r) = Some (ps, r)"
proof (induction ps arbitrary: n)
  case (Cons p ps)
  then obtain m where n: "n = Suc m" by (cases n) auto
  have p: "reads_back (snd p)" using Cons.prems by simp
  have "length (rendered_member p) < n"
    using Cons.prems(3) length_join_with_Cons [of "rendered_member p" "[0x2C]" "map rendered_member ps"]
    by simp
  then have short: "length (rendered (snd p)) \<le> m"
    by (simp add: n rendered_member_def)
  show ?case
  proof (cases ps)
    case Nil
    with short n reads_backD(4) [OF p, of "0x7D # r" m] show ?thesis
      by (simp add: rendered_member_def parse_chars_json_quote parse_chars_quote del: parse_chars.simps)
  next
    case (Cons q qs)
    with Cons.prems n have len: "length (join_with [0x2C] (map rendered_member ps)) < m" by auto
    have "parse_members m (join_with [0x2C] (map rendered_member ps) @ 0x7D # r) = Some (ps, r)"
      using Cons.IH [of m] Cons.prems len Cons by auto
    with Cons short n reads_backD(4) [OF p, of "0x2C # join_with [0x2C] (map rendered_member ps) @ 0x7D # r" m]
    show ?thesis
      by (simp add: rendered_member_def [of p] parse_chars_json_quote parse_chars_quote del: parse_chars.simps)
  qed
qed simp

lemma reads_back_number:
  assumes "is_safe_integer n"
  shows "reads_back (JNum n)"
proof -
  from assms obtain k where n: "n = JFinite (rat_of_int k)"
    unfolding is_safe_integer_def by (cases n) (simp_all, metis)
  obtain u us where d: "int_str k = u # us"
    using int_str_head [of k] by (cases "int_str k") auto
  then have u: "u = 0x2D \<or> is_digit u" using int_str_head [of k] by simp
  note head = number_head [OF u]
  have "parse_value m (int_str k @ r) = Some (JInt k, r)" if "delimited r" "length (int_str k) \<le> m" for r m
  proof -
    from that(2) d obtain m' where "m = Suc m'" by (cases m) auto
    then show ?thesis
      using head parse_number_int [OF that(1), of k] d
      by (simp add: skip_space_head value_head_def)
  qed
  then show ?thesis
    using assms head(1) d by (auto simp: reads_back_def n json_number_def)
qed

lemma reads_back_string: "reads_back (JStr s)"
proof -
  have "parse_value n (json_quote s @ r) = Some (JStr s, r)" if "length (json_quote s) \<le> n" for r n
    using that by (cases n) (simp_all add: json_quote_def parse_chars_quote del: parse_chars.simps)
  then show ?thesis
    by (auto simp: reads_back_def json_quote_def value_head_def json_space_def)
qed

lemma reads_back_literals: "reads_back JNull" "reads_back (JBool b)"
proof -
  have "parse_value n (js w @ r) = Some (v, r)"
    if "(w, v) \<in> {(''null'', JNull), (''true'', JBool True), (''false'', JBool False)}" "length w \<le> n"
    for w v n r
    using that by (cases n) (auto simp: skip_space_head json_space_def parse_literal_def starts_with_def)
  note * = this [of "''null''" JNull] this [of "''true''" "JBool True"] this [of "''false''" "JBool False"]
  show "reads_back JNull" "reads_back (JBool b)"
    using * by (auto simp: reads_back_def value_head_def json_space_def)
qed

lemma reads_back_array:
  assumes "\<forall>x \<in> set xs. reads_back x" "\<forall>x \<in> set xs. json_data x"
  shows "reads_back (JArr xs)"
proof -
  let ?j = "join_with [0x2C] (map rendered xs)"
  have s: "json_stringify (JArr xs) = Some (0x5B # ?j @ [0x5D])"
    using all_Some_map [of xs "\<lambda>x. if x = JUndefined then Some (js ''null'') else json_stringify x" rendered]
      assms reads_backD(1) by fastforce
  have head: "?j = [] \<and> xs = [] \<or> xs \<noteq> [] \<and> (\<exists>u us. ?j = u # us \<and> value_head u)"
  proof (cases xs)
    case (Cons x ys)
    then have "rendered x \<noteq> []" "value_head (hd (rendered x))" using assms(1) reads_backD by auto
    then show ?thesis
      using Cons by (cases ys; cases "rendered x") auto
  qed simp
  have "parse_value n ((0x5B # ?j @ [0x5D]) @ r) = Some (JArr xs, r)" if "length (0x5B # ?j @ [0x5D]) \<le> n" for r n
  proof -
    from that obtain m where n: "n = Suc m" and m: "length ?j < m" by (cases n) auto
    show ?thesis
    proof (cases "xs = []")
      case False
      with head obtain u us where u: "?j = u # us" "value_head u" by auto
      then have "skip_space (?j @ 0x5D # r) \<noteq> [] \<and> hd (skip_space (?j @ 0x5D # r)) \<noteq> 0x5D"
        by (simp add: skip_space_head value_head_def)
      with parse_elements_rendered [OF False assms(1) m, of r] show ?thesis by (simp add: n)
    qed (simp add: n)
  qed
  with s show ?thesis by (auto simp: reads_back_def value_head_def json_space_def)
qed

lemma reads_back_object:
  assumes "\<forall>p \<in> set ps. reads_back (snd p)" "\<forall>p \<in> set ps. json_data (snd p)" "distinct (map fst ps)"
  shows "reads_back (JObj ps)"
proof -
  let ?j = "join_with [0x2C] (map rendered_member ps)"
  have keep: "filter (\<lambda>(k, v). v \<noteq> JUndefined) ps = ps"
    using assms(2) by (auto simp: filter_id_conv)
  have s: "json_stringify (JObj ps) = Some (0x7B # ?j @ [0x7D])"
    using all_Some_map [of ps "\<lambda>(k, v). map_option (\<lambda>t. json_quote k @ 0x3A # t) (json_stringify v)" rendered_member]
      assms(1) reads_backD(1) by (fastforce simp: keep rendered_member_def)
  have "parse_value n ((0x7B # ?j @ [0x7D]) @ r) = Some (JObj ps, r)" if "length (0x7B # ?j @ [0x7D]) \<le> n" for r n
  proof -
    from that obtain m where n: "n = Suc m" and m: "length ?j < m" by (cases n) auto
    show ?thesis
    proof (cases "ps = []")
      case False
      then obtain us where "?j = 0x22 # us"
        by (cases ps rule: remdups_adj.cases) (auto simp: rendered_member_def json_quote_def)
      with parse_members_rendered [OF False assms(1) m, of r] assms(3) show ?thesis
        by (simp add: n map_new_distinct)
    qed (simp add: n)
  qed
  with s show ?thesis by (auto simp: reads_back_def value_head_def json_space_def)
qed

lemma json_data_reads_back: "json_data v \<Longrightarrow> reads_back v"
  by (induction v rule: json_data.induct)
    (auto intro: reads_back_number reads_back_string reads_back_literals reads_back_array reads_back_object)

theorem json_round_trip:
  assumes "json_data v"
  shows "\<exists>s. json_stringify v = Some s \<and> json_parse s = Some v"
proof -
  note rb = json_data_reads_back [OF assms]
  have "parse_value (Suc (length (rendered v))) (rendered v @ []) = Some (v, [])"
    by (rule reads_backD(4) [OF rb]) simp_all
  with reads_backD(1) [OF rb] show ?thesis by (simp add: json_parse_def)
qed

end
