(* ===== verification/Utf8.thy ===== *)
theory Utf8
  imports Json
begin

text \<open>
  \<open>TextDecoder\<close> with its default options: the UTF-8 decoder of the encoding standard as a state
  machine over bytes, with replacement characters for malformed input and a leading byte order
  mark dropped. Main facts: decoding inverts \<open>TextEncoder\<close> on well-formed strings that do not begin
  with a byte order mark, and everything \<open>JSON.stringify\<close> renders is well-formed.
\<close>

section \<open>Decoder\<close>

text \<open>Continuation bytes still needed, the bits read so far, and the range of the next byte.\<close>

type_synonym utf8_state = "nat \<times> nat \<times> nat \<times> nat"

definition utf8_start :: utf8_state where
  "utf8_start = (0, 0, 0x80, 0xBF)"

definition utf8_lead :: "nat \<Rightarrow> utf8_state \<times> nat list" where
  "utf8_lead b =
     (if b < 0x80 then (utf8_start, [b])
      else if 0xC2 \<le> b \<and> b \<le> 0xDF then ((1, b mod 0x20, 0x80, 0xBF), [])
      else if 0xE0 \<le> b \<and> b \<le> 0xEF then
        ((2, b mod 0x10, if b = 0xE0 then 0xA0 else 0x80, if b = 0xED then 0x9F else 0xBF), [])
      else if 0xF0 \<le> b \<and> b \<le> 0xF4 then
        ((3, b mod 8, if b = 0xF0 then 0x90 else 0x80, if b = 0xF4 then 0x8F else 0xBF), [])
      else (utf8_start, [0xFFFD]))"

definition utf8_step :: "utf8_state \<Rightarrow> nat \<Rightarrow> utf8_state \<times> nat list" where
  "utf8_step st b = (case st of (needed, cp, lo, hi) \<Rightarrow>
     if needed = 0 then utf8_lead b
     else if b < lo \<or> hi < b then (fst (utf8_lead b), 0xFFFD # snd (utf8_lead b))
     else if needed = 1 then (utf8_start, [cp * 0x40 + b mod 0x40])
     else ((needed - 1, cp * 0x40 + b mod 0x40, 0x80, 0xBF), []))"

fun utf8_run :: "utf8_state \<Rightarrow> nat list \<Rightarrow> nat list" where
  "utf8_run st [] = (if fst st = 0 then [] else [0xFFFD])"
| "utf8_run st (b # bs) = snd (utf8_step st b) @ utf8_run (fst (utf8_step st b)) bs"

definition scalar_units :: "nat \<Rightarrow> jsstring" where
  "scalar_units c =
     (if c < 0x10000 then [of_nat c]
      else [of_nat (0xD800 + (c - 0x10000) div 0x400), of_nat (0xDC00 + (c - 0x10000) mod 0x400)])"

definition drop_bom :: "nat list \<Rightarrow> nat list" where
  "drop_bom cs = (case cs of c # cs' \<Rightarrow> if c = 0xFEFF then cs' else cs | [] \<Rightarrow> [])"

definition utf8_decode :: "8 word list \<Rightarrow> jsstring" where
  "utf8_decode bs = concat (map scalar_units (drop_bom (utf8_run utf8_start (map unat bs))))"

section \<open>Decoding inverts encoding\<close>

definition scalar_value :: "nat \<Rightarrow> bool" where
  "scalar_value c \<longleftrightarrow> c < 0x110000 \<and> \<not> (0xD800 \<le> c \<and> c \<le> 0xDFFF)"

lemma unat_byte: "n < 256 \<Longrightarrow> unat (of_nat n :: 8 word) = n"
  by (simp add: unat_of_nat take_bit_eq_mod)

lemma mod_0x40_bits: "c div 0x40 * 0x40 + c mod 0x40 = (c :: nat)"
  by (rule div_mult_mod_eq)

lemma cont_mod: "(0x80 + x mod 0x40) mod 0x40 = (x :: nat) mod 0x40"
  by (simp add: mod_add_eq [symmetric, of "0x80"])

lemma lead_mod:
  "x < 0x20 \<Longrightarrow> (0xC0 + x) mod 0x20 = (x :: nat)"
  "x < 0x10 \<Longrightarrow> (0xE0 + x) mod 0x10 = (x :: nat)"
  "x < 8 \<Longrightarrow> (0xF0 + x) mod 8 = (x :: nat)"
  using mod_add_left_eq [of "0xC0" "0x20" x] mod_add_left_eq [of "0xE0" "0x10" x] mod_add_left_eq [of "0xF0" 8 x]
  by simp_all

lemma utf8_run_1: "c < 0x80 \<Longrightarrow> utf8_run utf8_start (c # bs) = c # utf8_run utf8_start bs"
  by (simp add: utf8_step_def utf8_lead_def utf8_start_def)

lemma utf8_run_cont1:
  "lo \<le> b \<Longrightarrow> b \<le> hi \<Longrightarrow>
    utf8_run (Suc 0, cp, lo, hi) (b # bs) = (cp * 0x40 + b mod 0x40) # utf8_run utf8_start bs"
  by (simp add: utf8_step_def)

lemma utf8_run_cont:
  "lo \<le> b \<Longrightarrow> b \<le> hi \<Longrightarrow> 1 < n \<Longrightarrow>
    utf8_run (n, cp, lo, hi) (b # bs) = utf8_run (n - 1, cp * 0x40 + b mod 0x40, 0x80, 0xBF) bs"
  by (simp add: utf8_step_def)

lemma utf8_run_lead:
  "utf8_lead b = (st, []) \<Longrightarrow> utf8_run utf8_start (b # bs) = utf8_run st bs"
  by (simp add: utf8_step_def utf8_start_def)

lemma utf8_run_2:
  assumes "0x80 \<le> c" "c < 0x800"
  shows "utf8_run utf8_start ((0xC0 + c div 0x40) # (0x80 + c mod 0x40) # bs) = c # utf8_run utf8_start bs"
proof -
  have d: "2 \<le> c div 0x40" "c div 0x40 < 0x20" using assms by auto
  then have "utf8_lead (0xC0 + c div 0x40) = ((1, c div 0x40, 0x80, 0xBF), [])"
    by (simp add: utf8_lead_def lead_mod)
  then have "utf8_run utf8_start ((0xC0 + c div 0x40) # (0x80 + c mod 0x40) # bs)
      = utf8_run (1, c div 0x40, 0x80, 0xBF) ((0x80 + c mod 0x40) # bs)"
    by (rule utf8_run_lead)
  then show ?thesis
    using utf8_run_cont1 [of "0x80" "0x80 + c mod 0x40" "0xBF" "c div 0x40" bs]
    by (simp add: cont_mod mod_0x40_bits less_imp_le_nat del: utf8_run.simps)
qed

lemma utf8_run_3:
  assumes "0x800 \<le> c" "c < 0x10000" "scalar_value c"
  shows "utf8_run utf8_start ((0xE0 + c div 0x1000) # (0x80 + c div 0x40 mod 0x40) # (0x80 + c mod 0x40) # bs)
    = c # utf8_run utf8_start bs"
proof -
  define q where "q = c div 0x40"
  define p where "p = q div 0x40"
  have cp: "c div 0x1000 = p" by (simp add: p_def q_def div_mult2_eq [symmetric])
  have q: "q = p * 0x40 + q mod 0x40" "q mod 0x40 < 0x40" by (simp_all add: p_def)
  have b: "p < 0x10" "p = 0 \<Longrightarrow> 0x20 \<le> q mod 0x40" "p = 13 \<Longrightarrow> q mod 0x40 < 0x20"
  proof -
    show "p < 0x10" using assms(2) by (simp add: cp [symmetric])
    have "0x20 \<le> q" using assms(1) by (simp add: q_def)
    then show "p = 0 \<Longrightarrow> 0x20 \<le> q mod 0x40" using q(1) by simp
    assume p: "p = 13"
    have "c < 0xD800"
    proof (rule ccontr)
      assume "\<not> c < 0xD800"
      with assms(3) have "0xE000 \<le> c" by (simp add: scalar_value_def)
      then have "14 \<le> c div 0x1000" by simp
      with p cp show False by simp
    qed
    then have "q < 0x360" by (simp add: q_def)
    with p q(1) show "q mod 0x40 < 0x20" by simp
  qed
  let ?lo = "if 0xE0 + p = 0xE0 then 0xA0 else 0x80" and ?hi = "if 0xE0 + p = 0xED then 0x9F else 0xBF"
  have "utf8_lead (0xE0 + p) = ((2, p, ?lo, ?hi), [])"
    using b(1) by (simp add: utf8_lead_def lead_mod)
  then have "utf8_run utf8_start ((0xE0 + p) # (0x80 + q mod 0x40) # (0x80 + c mod 0x40) # bs)
      = utf8_run (2, p, ?lo, ?hi) ((0x80 + q mod 0x40) # (0x80 + c mod 0x40) # bs)"
    by (rule utf8_run_lead)
  also have "\<dots> = utf8_run (1, p * 0x40 + (0x80 + q mod 0x40) mod 0x40, 0x80, 0xBF) ((0x80 + c mod 0x40) # bs)"
    using b q(2) utf8_run_cont [of ?lo "0x80 + q mod 0x40" ?hi 2 p] by (auto simp del: utf8_run.simps)
  also have "p * 0x40 + (0x80 + q mod 0x40) mod 0x40 = q" unfolding cont_mod using q(1) by simp
  also have "utf8_run (1, q, 0x80, 0xBF) ((0x80 + c mod 0x40) # bs) = c # utf8_run utf8_start bs"
    using utf8_run_cont1 [of "0x80" "0x80 + c mod 0x40" "0xBF" q bs]
    by (simp add: cont_mod q_def mod_0x40_bits less_imp_le_nat del: utf8_run.simps)
  finally show ?thesis by (simp only: cp q_def)
qed

lemma utf8_run_4:
  assumes "0x10000 \<le> c" "c < 0x110000"
  shows "utf8_run utf8_start ((0xF0 + c div 0x40000) # (0x80 + c div 0x1000 mod 0x40)
      # (0x80 + c div 0x40 mod 0x40) # (0x80 + c mod 0x40) # bs) = c # utf8_run utf8_start bs"
proof -
  define r where "r = c div 0x40"
  define q where "q = r div 0x40"
  define p where "p = q div 0x40"
  have cp: "c div 0x1000 = q" "c div 0x40000 = p"
    by (simp_all add: p_def q_def r_def div_mult2_eq [symmetric])
  have q: "q = p * 0x40 + q mod 0x40" "q mod 0x40 < 0x40" by (simp_all add: p_def)
  have r: "r = q * 0x40 + r mod 0x40" "r mod 0x40 < 0x40" by (simp_all add: q_def)
  have "0x10 \<le> q" "q < 0x110" using assms by (simp_all add: cp [symmetric])
  with q have b: "p < 5" "p = 0 \<Longrightarrow> 0x10 \<le> q mod 0x40" "p = 4 \<Longrightarrow> q mod 0x40 < 0x10"
    by (simp add: p_def, linarith, linarith)
  let ?lo = "if 0xF0 + p = 0xF0 then 0x90 else 0x80" and ?hi = "if 0xF0 + p = 0xF4 then 0x8F else 0xBF"
  have "utf8_lead (0xF0 + p) = ((3, p, ?lo, ?hi), [])"
    using b(1) by (simp add: utf8_lead_def lead_mod)
  then have "utf8_run utf8_start ((0xF0 + p) # (0x80 + q mod 0x40) # (0x80 + r mod 0x40) # (0x80 + c mod 0x40) # bs)
      = utf8_run (3, p, ?lo, ?hi) ((0x80 + q mod 0x40) # (0x80 + r mod 0x40) # (0x80 + c mod 0x40) # bs)"
    by (rule utf8_run_lead)
  also have "\<dots> = utf8_run (2, p * 0x40 + (0x80 + q mod 0x40) mod 0x40, 0x80, 0xBF)
      ((0x80 + r mod 0x40) # (0x80 + c mod 0x40) # bs)"
    using b q(2) utf8_run_cont [of ?lo "0x80 + q mod 0x40" ?hi 3 p] by (auto simp del: utf8_run.simps)
  also have "p * 0x40 + (0x80 + q mod 0x40) mod 0x40 = q" unfolding cont_mod using q(1) by simp
  also have "utf8_run (2, q, 0x80, 0xBF) ((0x80 + r mod 0x40) # (0x80 + c mod 0x40) # bs)
      = utf8_run (1, q * 0x40 + (0x80 + r mod 0x40) mod 0x40, 0x80, 0xBF) ((0x80 + c mod 0x40) # bs)"
    using r(2) utf8_run_cont [of "0x80" "0x80 + r mod 0x40" "0xBF" 2 q] by (simp add: less_imp_le_nat del: utf8_run.simps)
  also have "q * 0x40 + (0x80 + r mod 0x40) mod 0x40 = r" unfolding cont_mod using r(1) by simp
  also have "utf8_run (1, r, 0x80, 0xBF) ((0x80 + c mod 0x40) # bs) = c # utf8_run utf8_start bs"
    using utf8_run_cont1 [of "0x80" "0x80 + c mod 0x40" "0xBF" r bs]
    by (simp add: cont_mod r_def mod_0x40_bits less_imp_le_nat del: utf8_run.simps)
  finally show ?thesis by (simp only: cp r_def)
qed

lemma utf8_run_scalar:
  assumes "scalar_value c"
  shows "utf8_run utf8_start (map unat (utf8_scalar c) @ bs) = c # utf8_run utf8_start bs"
proof -
  have m: "c mod 0x40 < 0x40" "c div 0x40 mod 0x40 < 0x40" "c div 0x1000 mod 0x40 < 0x40" by simp_all
  consider "c < 0x80" | "0x80 \<le> c" "c < 0x800" | "0x800 \<le> c" "c < 0x10000" | "0x10000 \<le> c"
    by linarith
  then show ?thesis
  proof cases
    case 1
    then show ?thesis by (simp add: utf8_scalar_def unat_byte utf8_run_1 del: utf8_run.simps)
  next
    case 2
    then have "0xC0 + c div 0x40 < 256" by simp
    with 2 m utf8_run_2 [OF 2, of bs] show ?thesis
      by (simp add: utf8_scalar_def unat_byte del: utf8_run.simps of_nat_add)
  next
    case 3
    then have "0xE0 + c div 0x1000 < 256" by simp
    with 3 m utf8_run_3 [OF 3 assms, of bs] show ?thesis
      by (simp add: utf8_scalar_def unat_byte del: utf8_run.simps of_nat_add)
  next
    case 4
    then have "0xF0 + c div 0x40000 < 256" using assms by (simp add: scalar_value_def)
    with 4 m utf8_run_4 [OF 4, of bs] assms show ?thesis
      by (simp add: utf8_scalar_def scalar_value_def unat_byte del: utf8_run.simps of_nat_add)
  qed
qed

section \<open>Well-formed strings\<close>

fun well_formed :: "jsstring \<Rightarrow> bool" where
  "well_formed [] = True"
| "well_formed [u] = (\<not> high_surrogate u \<and> \<not> low_surrogate u)"
| "well_formed (u # v # us) =
     (if high_surrogate u then low_surrogate v \<and> well_formed us
      else \<not> low_surrogate u \<and> well_formed (v # us))"

lemma not_both_surrogates: "high_surrogate u \<Longrightarrow> \<not> low_surrogate u"
  by (simp add: high_surrogate_def low_surrogate_def)

lemma unit_scalar_plain:
  assumes "\<not> high_surrogate u" "\<not> low_surrogate u"
  shows "scalar_value (unit_scalar u)" "scalar_units (unit_scalar u) = [u]" "unit_scalar u = unat u"
  using assms unsigned_less [of u, where 'a = nat]
  by (auto simp: unit_scalar_def scalar_value_def scalar_units_def high_surrogate_def low_surrogate_def)

lemma pair_scalar_units:
  assumes "high_surrogate h" "low_surrogate l"
  shows "scalar_value (pair_scalar h l)" "scalar_units (pair_scalar h l) = [h, l]" "0x10000 \<le> pair_scalar h l"
proof -
  define a b where "a = unat h - 0xD800" and "b = unat l - 0xDC00"
  have ab: "a < 0x400" "b < 0x400" "unat h = 0xD800 + a" "unat l = 0xDC00 + b"
    using assms by (auto simp: a_def b_def high_surrogate_def low_surrogate_def)
  have c: "pair_scalar h l = 0x10000 + a * 0x400 + b"
    by (simp add: pair_scalar_def a_def b_def)
  show "scalar_value (pair_scalar h l)" "0x10000 \<le> pair_scalar h l"
    using ab by (simp_all add: c scalar_value_def)
  have "(of_nat (0xD800 + a) :: 16 word) = h" "(of_nat (0xDC00 + b) :: 16 word) = l"
    by (simp_all only: ab(3,4) [symmetric]) simp_all
  moreover have "(a * 0x400 + b) div 0x400 = a" "(a * 0x400 + b) mod 0x400 = b"
    using ab by simp_all
  ultimately show "scalar_units (pair_scalar h l) = [h, l]"
    by (simp add: c scalar_units_def del: of_nat_add)
qed

lemma well_formed_scalars:
  "well_formed s \<Longrightarrow> (\<forall>c \<in> set (scalars s). scalar_value c) \<and> concat (map scalar_units (scalars s)) = s"
  by (induction s rule: scalars.induct)
    (auto simp: unit_scalar_plain(1,2) pair_scalar_units split: if_splits)

lemma bom_unit: "(u :: 16 word) \<noteq> 0xFEFF \<Longrightarrow> unat u \<noteq> 0xFEFF"
proof
  assume "u \<noteq> 0xFEFF" "unat u = 0xFEFF"
  moreover have "u = of_nat (unat u)" by simp
  ultimately show False by simp
qed

lemma well_formed_no_bom:
  assumes "well_formed s" "s = [] \<or> hd s \<noteq> 0xFEFF"
  shows "drop_bom (scalars s) = scalars s"
proof (cases s rule: scalars.cases)
  case (2 u)
  with assms have "unat u \<noteq> 0xFEFF" "unit_scalar u = unat u"
    by (auto simp: unit_scalar_plain(3) bom_unit)
  with 2 show ?thesis by (simp add: drop_bom_def)
next
  case (3 u v us)
  show ?thesis
  proof (cases "high_surrogate u")
    case True
    with assms 3 pair_scalar_units(3) [of u v] show ?thesis by (auto simp: drop_bom_def)
  next
    case False
    with assms 3 have "unat u \<noteq> 0xFEFF" "unit_scalar u = unat u"
      by (auto simp: unit_scalar_plain(3) bom_unit)
    with False 3 show ?thesis by (simp add: drop_bom_def)
  qed
qed (simp add: drop_bom_def)

lemma utf8_run_encode:
  "\<forall>c \<in> set cs. scalar_value c \<Longrightarrow> utf8_run utf8_start (map unat (concat (map utf8_scalar cs))) = cs"
  by (induction cs) (simp_all add: utf8_run_scalar del: utf8_run.simps, simp add: utf8_start_def)

theorem utf8_round_trip:
  assumes "well_formed s" "s = [] \<or> hd s \<noteq> 0xFEFF"
  shows "utf8_decode (utf8_encode s) = s"
  using well_formed_scalars [OF assms(1)] well_formed_no_bom [OF assms]
  by (simp add: utf8_decode_def utf8_encode_def utf8_run_encode)

section \<open>Rendered JSON is well-formed\<close>

lemma well_formed_append: "well_formed a \<Longrightarrow> well_formed b \<Longrightarrow> well_formed (a @ b)"
proof (induction a rule: well_formed.induct)
  case (2 u)
  then show ?case by (cases b) auto
qed (auto split: if_splits)

lemma well_formed_plain: "\<forall>u \<in> set s. unat u < 0xD800 \<Longrightarrow> well_formed s"
  by (induction s rule: well_formed.induct) (auto simp: high_surrogate_def low_surrogate_def)

lemma hex_digit_plain: "n < 16 \<Longrightarrow> unat (hex_digit n) < 0xD800"
  by (auto simp: hex_digit_def unat_of_nat take_bit_eq_mod simp del: of_nat_add)

lemma well_formed_hex4: "well_formed (0x5C # 0x75 # hex4 u)"
proof -
  have "unat u div 4096 < 16"
    using unsigned_less [of u, where 'a = nat] by simp
  then show ?thesis by (intro well_formed_plain) (auto simp: hex4_def hex_digit_plain)
qed

lemma well_formed_escape: "\<not> high_surrogate u \<Longrightarrow> \<not> low_surrogate u \<Longrightarrow> well_formed (escape_unit u)"
  using well_formed_hex4 [of u] by (auto simp: escape_unit_def simp del: well_formed.simps(3) intro!: well_formed_plain)

lemma well_formed_pair: "high_surrogate u \<Longrightarrow> low_surrogate v \<Longrightarrow> well_formed s \<Longrightarrow> well_formed (u # v # s)"
  by simp

lemma well_formed_quote_units: "well_formed (quote_units s)"
proof (induction s rule: quote_units.induct)
  case (2 u)
  then show ?case using well_formed_hex4 [of u] well_formed_escape [of u] by auto
next
  case (3 u v us)
  then show ?case
    using well_formed_append [OF well_formed_hex4 [of u], of "quote_units (v # us)"]
      well_formed_append [OF well_formed_escape [of u], of "quote_units (v # us)"] by auto
qed simp

lemma well_formed_unit: "unat u < 0xD800 \<Longrightarrow> well_formed s \<Longrightarrow> well_formed (u # s)"
  using well_formed_append [of "[u]" s] well_formed_plain [of "[u]"] by simp

lemma well_formed_json_quote: "well_formed (json_quote s)"
  unfolding json_quote_def
  by (intro well_formed_unit well_formed_append well_formed_quote_units) (simp_all add: well_formed_plain)

lemma well_formed_join: "\<forall>x \<in> set xs. well_formed x \<Longrightarrow> well_formed (join_with [0x2C] xs)"
  by (induction xs rule: induct_list012)
    (auto intro!: well_formed_append well_formed_unit)

lemma well_formed_js: "well_formed (js w)"
proof (rule well_formed_plain)
  have "unat (of_char c :: 16 word) < 256" for c
  proof -
    have "(of_char c :: 16 word) = of_nat (of_char c)" by (simp add: of_nat_of_char)
    moreover have "(of_char c :: nat) < 256" by (cases c) (auto simp: of_bool_def)
    ultimately show ?thesis
      using le_less_trans [OF mod_less_eq_dividend [of "of_char c" "2 ^ 16"], of 256]
      by (simp only: unat_of_nat take_bit_eq_mod) simp
  qed
  then have "unat (of_char c :: 16 word) < 0xD800" for c
    by (rule less_trans) simp
  then show "\<forall>u \<in> set (js w). unat u < 0xD800" by (auto simp: js_def)
qed

lemma well_formed_bracket:
  "unat a < 0xD800 \<Longrightarrow> unat b < 0xD800 \<Longrightarrow> \<forall>p \<in> set ps. well_formed p \<Longrightarrow>
    well_formed (a # join_with [0x2C] ps @ [b])"
  by (intro well_formed_unit well_formed_append well_formed_join well_formed_plain) auto

lemma well_formed_stringify: "json_stringify v = Some s \<Longrightarrow> well_formed s"
proof (induction v arbitrary: s rule: json_stringify.induct)
  case (4 n)
  then show ?case
    using well_formed_js [of "''null''"]
    by (auto simp: json_number_def int_str_def well_formed_js split: jsnum.splits if_splits simp del: js_words)
next
  case (6 xs)
  then obtain ps where ps: "all_Some (map (\<lambda>x. if x = JUndefined then Some (js ''null'') else json_stringify x) xs) = Some ps"
    "s = 0x5B # join_with [0x2C] ps @ [0x5D]" by auto
  have "well_formed p" if "p \<in> set ps" for p
    using all_Some_set [OF ps(1) that] 6(1) well_formed_js [of "''null''"] by (auto split: if_splits simp del: js_words)
  then show ?case
    unfolding ps(2) by (intro well_formed_bracket) simp_all
next
  case (7 kvs)
  then obtain ps where ps: "all_Some (map (\<lambda>(k, v). map_option (\<lambda>t. json_quote k @ 0x3A # t) (json_stringify v))
         (filter (\<lambda>(k, v). v \<noteq> JUndefined) kvs)) = Some ps"
    "s = 0x7B # join_with [0x2C] ps @ [0x7D]" by auto
  have "well_formed p" if "p \<in> set ps" for p
  proof -
    from all_Some_set [OF ps(1) that] obtain k v t where
      "(k, v) \<in> set kvs" "v \<noteq> JUndefined" "json_stringify v = Some t" "p = json_quote k @ 0x3A # t"
      by (auto dest!: sym [of "Some p"])
    with 7(1) have "well_formed t" by auto
    then show ?thesis
      unfolding \<open>p = _\<close> by (intro well_formed_append well_formed_unit well_formed_json_quote) simp_all
  qed
  then show ?case
    unfolding ps(2) by (intro well_formed_bracket) simp_all
qed (auto simp: well_formed_json_quote well_formed_js simp del: js_words split: if_splits)

end
