(* ===== verification/Crypto.thy ===== *)
theory Crypto
  imports Utf8
begin

text \<open>
  Client-side encryption (\<open>web/src/crypto.ts\<close>): base64url, the payload and envelope checks,
  encryption and decryption of a payload and the key in a share link. AES-GCM
  (\<open>crypto.subtle\<close>) and the URL parser of the browser are arguments of the definitions; what
  the code relies on is stated as \<open>aead_laws\<close> and \<open>url_laws\<close>. The generated key and
  initialisation vector are arguments too. \<open>Inl DecryptionError\<close> stands for the exception.
\<close>

section \<open>Constants and types\<close>

definition plaintextVersion :: int where "plaintextVersion = 1"
definition encryptionVersion :: int where "encryptionVersion = 1"
definition encryptionAlgorithm :: jsstring where "encryptionAlgorithm = js ''A256GCM''"
definition keyBytes :: nat where "keyBytes = 32"
definition ivBytes :: nat where "ivBytes = 12"
definition ciphertextTagBytes :: nat where "ciphertextTagBytes = 16"

type_synonym bytes = "8 word list"

datatype cryptoError = DecryptionError

record encryptedPaste =
  ep_envelope :: jsval
  ep_key :: jsstring

section \<open>Base64url\<close>

text \<open>\<open>btoa\<close> and \<open>atob\<close> as the HTML standard defines them, over code units below 256.\<close>

definition b64_char :: "nat \<Rightarrow> 16 word" where
  "b64_char n =
     (if n < 26 then of_nat (65 + n)
      else if n < 52 then of_nat (71 + n)
      else if n < 62 then of_nat (n - 4)
      else if n = 62 then 43 else 47)"

definition b64_value :: "16 word \<Rightarrow> nat option" where
  "b64_value u =
     (if 65 \<le> unat u \<and> unat u \<le> 90 then Some (unat u - 65)
      else if 97 \<le> unat u \<and> unat u \<le> 122 then Some (unat u - 71)
      else if 48 \<le> unat u \<and> unat u \<le> 57 then Some (unat u + 4)
      else if unat u = 43 then Some 62
      else if unat u = 47 then Some 63
      else None)"

fun sextets :: "nat list \<Rightarrow> nat list" where
  "sextets [] = []"
| "sextets [a] = [a div 4, a mod 4 * 16]"
| "sextets [a, b] = [a div 4, a mod 4 * 16 + b div 16, b mod 16 * 4]"
| "sextets (a # b # c # r) =
     a div 4 # (a mod 4 * 16 + b div 16) # (b mod 16 * 4 + c div 64) # c mod 64 # sextets r"

fun octets :: "nat list \<Rightarrow> nat list" where
  "octets [] = []"
| "octets [w] = []"
| "octets [w, x] = [w * 4 + x div 16]"
| "octets [w, x, y] = [w * 4 + x div 16, x mod 16 * 16 + y div 4]"
| "octets (w # x # y # z # r) =
     (w * 4 + x div 16) # (x mod 16 * 16 + y div 4) # (y mod 4 * 64 + z) # octets r"

definition btoa :: "jsstring \<Rightarrow> jsstring" where
  "btoa s = map b64_char (sextets (map unat s)) @ replicate ((3 - length s mod 3) mod 3) 0x3D"

definition ascii_whitespace :: "16 word \<Rightarrow> bool" where
  "ascii_whitespace u \<longleftrightarrow> unat u \<in> set [9, 10, 12, 13, 32]"

definition strip_pad :: "jsstring \<Rightarrow> jsstring" where
  "strip_pad s = (if s \<noteq> [] \<and> last s = 0x3D then butlast s else s)"

definition atob :: "jsstring \<Rightarrow> jsstring option" where
  "atob s =
     (let s = filter (\<lambda>u. \<not> ascii_whitespace u) s;
          s = (if length s mod 4 = 0 then strip_pad (strip_pad s) else s)
      in if length s mod 4 = 1 then None
         else map_option (\<lambda>vs. map of_nat (octets vs)) (all_Some (map b64_value s)))"

definition replace_unit :: "16 word \<Rightarrow> 16 word \<Rightarrow> jsstring \<Rightarrow> jsstring" where
  "replace_unit a b s = map (\<lambda>u. if u = a then b else u) s"

text \<open>The loop that turns the bytes into a binary string, one chunk at a time.\<close>

function binary_chunks :: "bytes \<Rightarrow> jsstring" where
  "binary_chunks bs =
     (if bs = [] then [] else map ucast (take 0x8000 bs) @ binary_chunks (drop 0x8000 bs))"
  by auto
termination by (relation "measure length") auto

declare binary_chunks.simps [simp del]

definition encodeBase64url :: "bytes \<Rightarrow> jsstring" where
  "encodeBase64url bs =
     filter (\<lambda>u. u \<noteq> 0x3D) (replace_unit 0x2F 0x5F (replace_unit 0x2B 0x2D (btoa (binary_chunks bs))))"

definition base64url_unit :: "16 word \<Rightarrow> bool" where
  "base64url_unit u \<longleftrightarrow> 65 \<le> unat u \<and> unat u \<le> 90 \<or> 97 \<le> unat u \<and> unat u \<le> 122
     \<or> 48 \<le> unat u \<and> unat u \<le> 57 \<or> unat u = 0x5F \<or> unat u = 0x2D"

definition pad_end :: "nat \<Rightarrow> 16 word \<Rightarrow> jsstring \<Rightarrow> jsstring" where
  "pad_end n u s = s @ replicate (n - length s) u"

definition decodeBase64url :: "jsstring \<Rightarrow> (cryptoError, bytes) result" where
  "decodeBase64url value =
     (if \<not> list_all base64url_unit value \<or> length value mod 4 = 1 then Inl DecryptionError
      else
        let base64 = pad_end ((length value + 3) div 4 * 4) 0x3D
              (replace_unit 0x5F 0x2F (replace_unit 0x2D 0x2B value))
        in case atob base64 of
             None \<Rightarrow> Inl DecryptionError
           | Some binary \<Rightarrow> Inr (map ucast binary))"

section \<open>Checks\<close>

definition assertEnvelope :: "jsval \<Rightarrow> (cryptoError, unit) result" where
  "assertEnvelope value =
     (if \<not> is_object value
         \<or> prop_of value (js ''version'') \<noteq> JInt encryptionVersion
         \<or> prop_of value (js ''algorithm'') \<noteq> JStr encryptionAlgorithm
         \<or> \<not> is_string (prop_of value (js ''iv''))
         \<or> \<not> is_string (prop_of value (js ''ciphertext''))
      then Inl DecryptionError
      else
        bind_result (decodeBase64url (string_prop value ''iv'')) (\<lambda>iv.
          if length iv \<noteq> ivBytes then Inl DecryptionError
          else bind_result (decodeBase64url (string_prop value ''ciphertext'')) (\<lambda>ciphertext.
            if length ciphertext < ciphertextTagBytes then Inl DecryptionError else Inr ())))"

definition assertPlaintextPayload :: "jsval \<Rightarrow> (cryptoError, unit) result" where
  "assertPlaintextPayload value =
     (if \<not> is_object value
         \<or> prop_of value (js ''version'') \<noteq> JInt plaintextVersion
         \<or> \<not> is_string (prop_of value (js ''title''))
         \<or> \<not> is_string (prop_of value (js ''language''))
         \<or> \<not> is_string (prop_of value (js ''content''))
         \<or> prop_of value (js ''content'') = JStr []
      then Inl DecryptionError else Inr ())"

section \<open>Encryption\<close>

text \<open>
  \<open>subtle.encrypt\<close> and \<open>subtle.decrypt\<close> for AES-GCM with a raw key: key, initialisation vector and
  data; \<open>decrypt\<close> gives None when it rejects.
\<close>

record subtleCrypto =
  sc_encrypt :: "bytes \<Rightarrow> bytes \<Rightarrow> bytes \<Rightarrow> bytes"
  sc_decrypt :: "bytes \<Rightarrow> bytes \<Rightarrow> bytes \<Rightarrow> bytes option"

definition aead_laws :: "subtleCrypto \<Rightarrow> bool" where
  "aead_laws sc \<longleftrightarrow>
     (\<forall>key iv plain. length key = 32 \<longrightarrow> length iv = 12 \<longrightarrow>
        sc_decrypt sc key iv (sc_encrypt sc key iv plain) = Some plain
        \<and> length (sc_encrypt sc key iv plain) = length plain + 16)"

text \<open>
  A payload has a version and three strings, so \<open>JSON.stringify\<close> renders it; the None branch is
  for values outside the type.
\<close>

definition encryptPayload ::
  "subtleCrypto \<Rightarrow> bytes \<Rightarrow> bytes \<Rightarrow> jsval \<Rightarrow> (cryptoError, encryptedPaste) result" where
  "encryptPayload sc rawKey iv payload =
     bind_result (assertPlaintextPayload payload) (\<lambda>_.
       case json_stringify payload of
         None \<Rightarrow> Inl DecryptionError
       | Some text \<Rightarrow>
           let ciphertext = sc_encrypt sc rawKey iv (utf8_encode text)
           in Inr \<lparr>ep_envelope = JObj
                    [(js ''version'', JInt encryptionVersion),
                     (js ''algorithm'', JStr encryptionAlgorithm),
                     (js ''iv'', JStr (encodeBase64url iv)),
                     (js ''ciphertext'', JStr (encodeBase64url ciphertext))],
                   ep_key = encodeBase64url rawKey\<rparr>)"

definition decryptPayload :: "subtleCrypto \<Rightarrow> jsval \<Rightarrow> jsstring \<Rightarrow> (cryptoError, jsval) result" where
  "decryptPayload sc envelope encodedKey =
     bind_result (assertEnvelope envelope) (\<lambda>_.
     bind_result (decodeBase64url encodedKey) (\<lambda>rawKey.
       if length rawKey \<noteq> keyBytes then Inl DecryptionError
       else
         bind_result (decodeBase64url (string_prop envelope ''iv'')) (\<lambda>iv.
         bind_result (decodeBase64url (string_prop envelope ''ciphertext'')) (\<lambda>ciphertext.
           case sc_decrypt sc rawKey iv ciphertext of
             None \<Rightarrow> Inl DecryptionError
           | Some plaintext \<Rightarrow>
               (case json_parse (utf8_decode plaintext) of
                  None \<Rightarrow> Inl DecryptionError
                | Some payload \<Rightarrow> bind_result (assertPlaintextPayload payload) (\<lambda>_. Inr payload))))))"

section \<open>Share links\<close>

record 'u urlAPI =
  url_parse :: "jsstring \<Rightarrow> 'u option"
  url_hash :: "'u \<Rightarrow> jsstring"
  url_set_hash :: "jsstring \<Rightarrow> 'u \<Rightarrow> 'u"
  url_string :: "'u \<Rightarrow> jsstring"

definition keyFromFragmentOrURL :: "'u urlAPI \<Rightarrow> jsstring \<Rightarrow> (cryptoError, jsstring) result" where
  "keyFromFragmentOrURL api input =
     (let value = trim input;
          key = (if contains_sub value (js ''://'') then
                   (case url_parse api value of
                      None \<Rightarrow> Inl DecryptionError
                    | Some u \<Rightarrow> Inr (drop 1 (url_hash api u)))
                 else if starts_with value (js ''#'') then Inr (drop 1 value)
                 else Inr value)
      in bind_result key (\<lambda>key.
           bind_result (decodeBase64url key) (\<lambda>decoded.
             if length decoded \<noteq> keyBytes then Inl DecryptionError else Inr key)))"

text \<open>\<open>Inl None\<close>: \<open>new URL\<close> throws its own error.\<close>

definition withKeyFragment :: "'u urlAPI \<Rightarrow> jsstring \<Rightarrow> jsstring \<Rightarrow> (cryptoError option, jsstring) result" where
  "withKeyFragment api url encodedKey =
     (case keyFromFragmentOrURL api encodedKey of
        Inl e \<Rightarrow> Inl (Some e)
      | Inr key \<Rightarrow>
          (case url_parse api url of
             None \<Rightarrow> Inl None
           | Some u \<Rightarrow> Inr (url_string api (url_set_hash api key u))))"

section \<open>Base64url reads back\<close>

lemma sextets_range: "\<forall>a \<in> set ns. a < 256 \<Longrightarrow> \<forall>x \<in> set (sextets ns). x < 64"
proof (induction ns rule: sextets.induct)
  case (4 a b c r)
  have "a mod 4 < 4" "b mod 16 < 16" "c mod 64 < 64" by simp_all
  moreover have "a div 4 < 64" "b div 16 < 16" "c div 64 < 4" using 4(2) by auto
  ultimately have "a mod 4 * 16 + b div 16 < 64" "b mod 16 * 4 + c div 64 < 64" by linarith+
  with 4 show ?case by auto
next
  case (3 a b)
  have "a mod 4 < 4" "b mod 16 < 16" by simp_all
  moreover have "a div 4 < 64" "b div 16 < 16" using 3 by auto
  ultimately have "a mod 4 * 16 + b div 16 < 64" "b mod 16 * 4 < 64" by linarith+
  with 3 show ?case by auto
next
  case (2 a)
  have "a mod 4 < 4" by simp
  then have "a mod 4 * 16 < 64" by linarith
  with 2 show ?case by auto
qed simp

lemma octet_parts:
  fixes a b :: nat
  assumes "b < 256"
  shows "a div 4 * 4 + (a mod 4 * 16 + b div 16) div 16 = a"
    "(a mod 4 * 16 + b div 16) mod 16 = b div 16"
proof -
  have "b div 16 < 16" using assms by simp
  then show "a div 4 * 4 + (a mod 4 * 16 + b div 16) div 16 = a" "(a mod 4 * 16 + b div 16) mod 16 = b div 16"
    by (simp_all add: div_mult_mod_eq)
qed

lemma octet_parts':
  fixes b c :: nat
  assumes "c < 256"
  shows "b div 16 * 16 + (b mod 16 * 4 + c div 64) div 4 = b" "(b mod 16 * 4 + c div 64) mod 4 = c div 64"
proof -
  have "c div 64 < 4" using assms by simp
  then show "b div 16 * 16 + (b mod 16 * 4 + c div 64) div 4 = b" "(b mod 16 * 4 + c div 64) mod 4 = c div 64"
    by (simp_all add: div_mult_mod_eq)
qed

lemma octets_sextets: "\<forall>a \<in> set ns. a < 256 \<Longrightarrow> octets (sextets ns) = ns"
proof (induction ns rule: sextets.induct)
  case (2 a)
  then show ?case using octet_parts [of 0 a] by simp
next
  case (3 a b)
  then show ?case using octet_parts [of b a] octet_parts' [of 0 b] by simp
next
  case (4 a b c r)
  then have "b < 256" "c < 256" "octets (sextets r) = r" by simp_all
  then show ?case
    by (simp only: sextets.simps octets.simps octet_parts octet_parts' div_mult_mod_eq)
qed simp

lemma length_sextets: "length (sextets ns) = length ns div 3 * 4 + (if length ns mod 3 = 0 then 0 else length ns mod 3 + 1)"
  by (induction ns rule: sextets.induct) (simp_all add: div_add_self2 [of 3, symmetric])

definition url_char :: "nat \<Rightarrow> 16 word" where
  "url_char n = (if b64_char n = 0x2B then 0x2D else if b64_char n = 0x2F then 0x5F else b64_char n)"

text \<open>The 64 characters, checked one by one.\<close>

definition char_ok :: "nat \<Rightarrow> bool" where
  "char_ok n \<longleftrightarrow> b64_value (b64_char n) = Some n \<and> b64_char n \<noteq> 0x3D \<and> \<not> ascii_whitespace (b64_char n)
     \<and> base64url_unit (url_char n) \<and> url_char n \<noteq> 0x3D
     \<and> (if url_char n = 0x2D then 0x2B else if url_char n = 0x5F then 0x2F else url_char n) = b64_char n"

lemma unat_unit: "n < 65536 \<Longrightarrow> unat (of_nat n :: 16 word) = n"
  by (simp add: unat_of_nat take_bit_eq_mod)

lemma of_nat_unit_eq: "n < 65536 \<Longrightarrow> (of_nat n :: 16 word) = numeral k \<longleftrightarrow> n = unat (numeral k :: 16 word)"
  by (metis unat_unit word_unat_eq_iff)

lemma char_ok_all: "n < 64 \<Longrightarrow> char_ok n"
proof -
  assume "n < 64"
  then consider "n < 26" | "26 \<le> n" "n < 52" | "52 \<le> n" "n < 62" | "n = 62" | "n = 63" by linarith
  then show ?thesis
  proof cases
    case 1
    then show ?thesis
      by (simp add: char_ok_def url_char_def b64_char_def b64_value_def unat_unit of_nat_unit_eq
          base64url_unit_def ascii_whitespace_def del: of_nat_add)
  next
    case 2
    then show ?thesis
      by (simp add: char_ok_def url_char_def b64_char_def b64_value_def unat_unit of_nat_unit_eq
          base64url_unit_def ascii_whitespace_def del: of_nat_add)
  next
    case 3
    then show ?thesis
      by (simp add: char_ok_def url_char_def b64_char_def b64_value_def unat_unit of_nat_unit_eq
          base64url_unit_def ascii_whitespace_def del: of_nat_add of_nat_diff) arith
  qed (simp_all add: char_ok_def url_char_def b64_char_def b64_value_def base64url_unit_def ascii_whitespace_def)
qed

lemma binary_chunks_map: "binary_chunks bs = map ucast bs"
proof (induction bs rule: binary_chunks.induct)
  case (1 bs)
  then show ?case
    by (cases "bs = []")
      (simp add: binary_chunks.simps, simp add: binary_chunks.simps [of bs] map_append [symmetric] del: map_append)
qed

lemma ucast_byte: "(ucast (ucast (b :: 8 word) :: 16 word) :: 8 word) = b"
  by (rule bit_word_eqI) (simp add: bit_simps)

lemma unat_ucast_byte: "unat (ucast (b :: 8 word) :: 16 word) = unat b"
  by (simp add: unsigned_ucast_eq take_bit_nat_eq_self unsigned_less order_less_trans [OF unsigned_less])

definition byte_sextets :: "bytes \<Rightarrow> nat list" where
  "byte_sextets bs = sextets (map unat bs)"

lemma byte_sextets_facts:
  "\<forall>x \<in> set (byte_sextets bs). char_ok x" "octets (byte_sextets bs) = map unat bs"
proof -
  have range: "\<forall>a \<in> set (map unat bs). a < 256"
    using unsigned_less [where 'a = nat and 'b = 8] by auto
  show "\<forall>x \<in> set (byte_sextets bs). char_ok x" "octets (byte_sextets bs) = map unat bs"
    using sextets_range [OF range] octets_sextets [OF range] by (auto simp: byte_sextets_def char_ok_all)
qed

lemma btoa_bytes:
  "btoa (binary_chunks bs) = map b64_char (byte_sextets bs) @ replicate ((3 - length bs mod 3) mod 3) 0x3D"
  by (simp add: btoa_def binary_chunks_map byte_sextets_def comp_def unat_ucast_byte)

lemma url_char_replace:
  "(if (if b64_char n = 0x2B then 0x2D else b64_char n) = 0x2F then 0x5F
    else if b64_char n = 0x2B then 0x2D else b64_char n) = url_char n"
  by (simp add: url_char_def)

lemma encodeBase64url_chars: "encodeBase64url bs = map url_char (byte_sextets bs)"
proof -
  have "filter (\<lambda>u. u \<noteq> 0x3D) (map url_char xs) = map url_char xs" if "\<forall>x \<in> set xs. char_ok x" for xs
    using that by (induction xs) (auto simp: char_ok_def)
  with byte_sextets_facts(1) [of bs] show ?thesis
    by (simp add: encodeBase64url_def btoa_bytes replace_unit_def comp_def url_char_replace)
qed

lemma pad_length:
  assumes "m = n div 3 * 4 + (if n mod 3 = 0 then 0 else n mod 3 + 1)"
  shows "m mod 4 \<noteq> 1" "(m + 3) div 4 * 4 - m = (3 - n mod 3) mod 3" "(m + (3 - n mod 3) mod 3) mod 4 = 0"
    "(3 - n mod 3) mod 3 \<le> (2 :: nat)"
proof -
  define q r where "q = n div 3" and "r = n mod 3"
  have "r = 0 \<or> r = 1 \<or> r = 2" by (simp add: r_def) linarith
  moreover have m: "m = q * 4 + (if r = 0 then 0 else r + 1)" by (simp add: assms q_def r_def)
  ultimately show "m mod 4 \<noteq> 1" "(m + 3) div 4 * 4 - m = (3 - n mod 3) mod 3" "(m + (3 - n mod 3) mod 3) mod 4 = 0"
    "(3 - n mod 3) mod 3 \<le> (2 :: nat)"
    unfolding r_def [symmetric] m by auto
qed

lemma strip_pad_replicate:
  assumes "\<forall>u \<in> set s. u \<noteq> 0x3D" "k \<le> 2"
  shows "strip_pad (strip_pad (s @ replicate k 0x3D)) = s"
proof -
  have "strip_pad s = s" using assms(1) by (cases s rule: rev_cases) (auto simp: strip_pad_def)
  moreover have "strip_pad (s @ [0x3D]) = s" "strip_pad (s @ [0x3D, 0x3D]) = s @ [0x3D]"
    by (simp_all add: strip_pad_def butlast_append)
  moreover have "k = 0 \<or> k = 1 \<or> k = 2" using assms(2) by linarith
  ultimately show ?thesis by (auto simp: numeral_2_eq_2)
qed

lemma all_Some_b64: "\<forall>x \<in> set xs. char_ok x \<Longrightarrow> all_Some (map b64_value (map b64_char xs)) = Some xs"
  by (induction xs) (auto simp: char_ok_def)

lemma filter_whitespace_b64:
  "\<forall>x \<in> set xs. char_ok x \<Longrightarrow>
    filter (\<lambda>u. \<not> ascii_whitespace u) (map b64_char xs @ replicate k 0x3D) = map b64_char xs @ replicate k 0x3D"
  by (auto simp: filter_id_conv char_ok_def ascii_whitespace_def)

lemma atob_padded:
  assumes "\<forall>x \<in> set xs. char_ok x" "(length xs + k) mod 4 = 0" "k \<le> 2" "length xs mod 4 \<noteq> 1"
  shows "atob (map b64_char xs @ replicate k 0x3D) = Some (map of_nat (octets xs))"
proof -
  have "\<forall>u \<in> set (map b64_char xs). u \<noteq> 0x3D" using assms(1) by (auto simp: char_ok_def)
  then show ?thesis
    using assms strip_pad_replicate [of "map b64_char xs" k] all_Some_b64 [OF assms(1)]
    by (simp only: atob_def filter_whitespace_b64 Let_def) simp
qed

theorem base64url_round_trip: "decodeBase64url (encodeBase64url bs) = Inr bs"
proof -
  let ?xs = "byte_sextets bs" and ?k = "(3 - length bs mod 3) mod 3"
  have len: "length ?xs = length bs div 3 * 4 + (if length bs mod 3 = 0 then 0 else length bs mod 3 + 1)"
    by (simp add: byte_sextets_def length_sextets)
  note pad = pad_length [OF len]
  have ok: "\<forall>x \<in> set ?xs. char_ok x" by (rule byte_sextets_facts)
  have units: "list_all base64url_unit (map url_char ?xs)"
    using ok by (auto simp: list_all_iff char_ok_def)
  have "replace_unit 0x5F 0x2F (replace_unit 0x2D 0x2B (map url_char ?xs)) = map b64_char ?xs"
    using ok by (auto simp: replace_unit_def char_ok_def)
  then have "pad_end ((length ?xs + 3) div 4 * 4) 0x3D (replace_unit 0x5F 0x2F (replace_unit 0x2D 0x2B (map url_char ?xs)))
      = map b64_char ?xs @ replicate ?k 0x3D"
    by (simp add: pad_end_def pad(2))
  moreover have "atob (map b64_char ?xs @ replicate ?k 0x3D) = Some (map of_nat (map unat bs))"
    using atob_padded [OF ok pad(3,4,1)] by (simp add: byte_sextets_facts(2))
  ultimately show ?thesis
    using units pad(1) by (simp add: encodeBase64url_chars decodeBase64url_def comp_def ucast_byte)
qed

section \<open>Properties of payloads\<close>

lemma stringify_object_head:
  "is_object v \<Longrightarrow> json_stringify v = Some s \<Longrightarrow> s \<noteq> [] \<and> hd s \<noteq> 0xFEFF"
  by (cases v) auto

lemma payload_text_reads_back:
  assumes "json_data payload" "is_object payload"
  shows "\<exists>t. json_stringify payload = Some t \<and> json_parse (utf8_decode (utf8_encode t)) = Some payload"
proof -
  from json_round_trip [OF assms(1)] obtain rendering where
    t: "json_stringify payload = Some rendering" "json_parse rendering = Some payload" by blast
  have "utf8_decode (utf8_encode rendering) = rendering"
    using well_formed_stringify [OF t(1)] stringify_object_head [OF assms(2) t(1)]
    by (intro utf8_round_trip) auto
  with t show ?thesis by auto
qed

lemma decrypt_encrypt_core:
  assumes "aead_laws sc" "length rawKey = 32" "length iv = 12"
    and "json_data payload" "assertPlaintextPayload payload = Inr ()"
  shows "\<exists>e. encryptPayload sc rawKey iv payload = Inr e
    \<and> decryptPayload sc (ep_envelope e) (ep_key e) = Inr payload"
proof -
  have obj: "is_object payload"
    using assms(5) by (auto simp: assertPlaintextPayload_def split: if_splits)
  obtain rendering where t: "json_stringify payload = Some rendering"
    "json_parse (utf8_decode (utf8_encode rendering)) = Some payload"
    using payload_text_reads_back [OF assms(4) obj] by blast
  let ?c = "sc_encrypt sc rawKey iv (utf8_encode rendering)"
  have aead: "sc_decrypt sc rawKey iv ?c = Some (utf8_encode rendering)" "16 \<le> length ?c"
    using assms(1-3) by (auto simp: aead_laws_def)
  show ?thesis
    using assms(2,3,5) t aead
    by (simp add: encryptPayload_def decryptPayload_def assertEnvelope_def string_prop_def
        base64url_round_trip keyBytes_def ivBytes_def ciphertextTagBytes_def Let_def)
qed

text \<open>
  C24. What \<open>encryptPayload\<close> produces, \<open>decryptPayload\<close> turns back into the same payload, for
  every payload that passes the check (unpaired surrogates included), every 32-byte key and every
  12-byte initialisation vector, provided AES-GCM decrypts what it encrypted and adds a 16-byte tag.
\<close>
theorem decrypt_encrypt:
  assumes "aead_laws sc" "length rawKey = 32" "length iv = 12"
    and "json_data payload" "assertPlaintextPayload payload = Inr ()"
  shows "\<exists>e. encryptPayload sc rawKey iv payload = Inr e
    \<and> decryptPayload sc (ep_envelope e) (ep_key e) = Inr payload"
  using assms by (rule decrypt_encrypt_core)

definition demo_crypto :: subtleCrypto where
  "demo_crypto = \<lparr>sc_encrypt = (\<lambda>key iv plain. plain @ replicate 16 0),
     sc_decrypt = (\<lambda>key iv cipher. Some (take (length cipher - 16) cipher))\<rparr>"

definition demo_payload :: jsval where
  "demo_payload = JObj [(js ''version'', JInt 1), (js ''title'', JStr (js ''t'')),
     (js ''language'', JStr (js ''plaintext'')), (js ''content'', JStr [0xD800])]"

lemma demo_crypto_laws: "aead_laws demo_crypto"
  by (simp add: aead_laws_def demo_crypto_def)

lemma demo_payload_ok: "json_data demo_payload" "assertPlaintextPayload demo_payload = Inr ()"
  by (simp_all add: demo_payload_def assertPlaintextPayload_def plaintextVersion_def is_safe_integer_def
      max_safe_integer_def)

theorem decrypt_encrypt_witness:
  "\<exists>e. encryptPayload demo_crypto (replicate 32 7) (replicate 12 9) demo_payload = Inr e
    \<and> decryptPayload demo_crypto (ep_envelope e) (ep_key e) = Inr demo_payload"
  by (rule decrypt_encrypt) (simp_all add: demo_crypto_laws demo_payload_ok)

text \<open>
  C25. Whatever envelope and key are given, \<open>decryptPayload\<close> either fails with its one error or
  returns a payload of the right shape with content, and then the key is a 32-byte base64url key
  and the envelope holds a 12-byte vector and at least a tag.
\<close>
theorem decrypted_payload_valid:
  assumes "decryptPayload sc envelope key = Inr payload"
  shows "prop_of payload (js ''version'') = JInt 1 \<and> is_string (prop_of payload (js ''title''))
    \<and> is_string (prop_of payload (js ''language'')) \<and> is_string (prop_of payload (js ''content''))
    \<and> string_prop payload ''content'' \<noteq> []
    \<and> (\<exists>rawKey. decodeBase64url key = Inr rawKey \<and> length rawKey = 32)
    \<and> (\<exists>iv. decodeBase64url (string_prop envelope ''iv'') = Inr iv \<and> length iv = 12)
    \<and> (\<exists>c. decodeBase64url (string_prop envelope ''ciphertext'') = Inr c \<and> 16 \<le> length c)"
  using assms
  by (auto simp: decryptPayload_def assertPlaintextPayload_def assertEnvelope_def plaintextVersion_def
      string_prop_def is_string_iff bind_result_Inr_iff keyBytes_def ivBytes_def ciphertextTagBytes_def
      split: if_splits option.splits)

theorem decrypted_payload_valid_witness:
  "\<exists>e. encryptPayload demo_crypto (replicate 32 7) (replicate 12 9) demo_payload = Inr e
    \<and> string_prop demo_payload ''content'' \<noteq> []
    \<and> (\<exists>rawKey. decodeBase64url (ep_key e) = Inr rawKey \<and> length rawKey = 32)"
proof -
  obtain e where "encryptPayload demo_crypto (replicate 32 7) (replicate 12 9) demo_payload = Inr e"
    "decryptPayload demo_crypto (ep_envelope e) (ep_key e) = Inr demo_payload"
    using decrypt_encrypt_core [OF demo_crypto_laws, of "replicate 32 7" "replicate 12 9" demo_payload]
    by (auto simp: demo_payload_ok)
  with decrypted_payload_valid [of demo_crypto "ep_envelope e" "ep_key e" demo_payload] show ?thesis by blast
qed

section \<open>Share links\<close>

definition url_laws :: "'u urlAPI \<Rightarrow> bool" where
  "url_laws api \<longleftrightarrow>
     (\<forall>u key. key \<noteq> [] \<longrightarrow> list_all base64url_unit key \<longrightarrow>
        trim (url_string api (url_set_hash api key u)) = url_string api (url_set_hash api key u)
        \<and> (\<exists>u'. url_parse api (url_string api (url_set_hash api key u)) = Some u'
              \<and> url_hash api u' = 0x23 # key))"

lemma encoded_units: "list_all base64url_unit (encodeBase64url bs)"
  using byte_sextets_facts(1) [of bs] by (auto simp: encodeBase64url_chars list_all_iff char_ok_def)

lemma base64url_no_whitespace: "base64url_unit u \<Longrightarrow> \<not> is_whitespace u"
  by (auto simp: base64url_unit_def is_whitespace_def)

lemma base64url_trim: "list_all base64url_unit s \<Longrightarrow> trim s = s"
  by (rule trim_id) (auto simp: list_all_iff base64url_no_whitespace)

lemma contains_sub_set: "contains_sub s q \<Longrightarrow> set q \<subseteq> set s"
proof -
  assume "contains_sub s q"
  then obtain i where "find_sub s q = Some i" by (auto simp: contains_sub_def)
  then have "take (length q) (drop i s) = q"
    using find_sub_SomeD by (auto simp: starts_with_def)
  then show ?thesis by (metis set_drop_subset set_take_subset subset_trans)
qed

lemma base64url_no_scheme: "list_all base64url_unit s \<Longrightarrow> \<not> contains_sub s (js ''://'')"
  using contains_sub_set [of s "js ''://''"] by (auto simp: list_all_iff js_def dest!: bspec [of _ _ 58])
    (auto simp: base64url_unit_def)

lemma base64url_no_fragment: "list_all base64url_unit s \<Longrightarrow> \<not> starts_with s (js ''#'')"
  by (cases s) (auto simp: starts_with_def js_def base64url_unit_def)

lemma key_of_encoded:
  "length key = 32 \<Longrightarrow> keyFromFragmentOrURL api (encodeBase64url key) = Inr (encodeBase64url key)"
  by (simp add: keyFromFragmentOrURL_def base64url_trim [OF encoded_units] base64url_no_scheme [OF encoded_units]
      base64url_no_fragment [OF encoded_units] base64url_round_trip keyBytes_def)

text \<open>
  The key put into a share link is the key read from it: \<open>keyFromFragmentOrURL\<close> inverts
  \<open>withKeyFragment\<close> for every encoded 32-byte key and every link with an authority part, and the
  bare key and the fragment are read as well.
\<close>
theorem share_link_round_trip:
  assumes "url_laws api" "length key = 32" "url_parse api url = Some u"
    and "contains_sub (url_string api (url_set_hash api (encodeBase64url key) u)) (js ''://'')"
  shows "\<exists>link. withKeyFragment api url (encodeBase64url key) = Inr link
    \<and> keyFromFragmentOrURL api link = Inr (encodeBase64url key)
    \<and> keyFromFragmentOrURL api (encodeBase64url key) = Inr (encodeBase64url key)"
proof -
  let ?k = "encodeBase64url key"
  have "?k \<noteq> []"
    using assms(2) length_sextets [of "map unat key"] by (auto simp: encodeBase64url_chars byte_sextets_def)
  then obtain u' where "url_parse api (url_string api (url_set_hash api ?k u)) = Some u'"
    "url_hash api u' = 0x23 # ?k" "trim (url_string api (url_set_hash api ?k u)) = url_string api (url_set_hash api ?k u)"
    using assms(1) encoded_units [of key] by (auto simp: url_laws_def)
  with assms(2-4) show ?thesis
    by (simp add: withKeyFragment_def key_of_encoded keyFromFragmentOrURL_def [of api "url_string api _"]
        base64url_round_trip keyBytes_def)
qed

text \<open>A URL as the text before its fragment and the fragment.\<close>

definition demo_url :: "(jsstring \<times> jsstring) urlAPI" where
  "demo_url = \<lparr>url_parse = (\<lambda>s. let s = trim s in
       Some (takeWhile (\<lambda>c. c \<noteq> 0x23) s, drop 1 (dropWhile (\<lambda>c. c \<noteq> 0x23) s))),
     url_hash = (\<lambda>u. if snd u = [] then [] else 0x23 # snd u),
     url_set_hash = (\<lambda>h u. (js ''https://x.example/'', h)),
     url_string = (\<lambda>u. if snd u = [] then fst u else fst u @ 0x23 # snd u)\<rparr>"

lemma demo_url_laws: "url_laws demo_url"
proof -
  have "trim (js ''https://x.example/'' @ 0x23 # key) = js ''https://x.example/'' @ 0x23 # key"
    if "key \<noteq> []" "list_all base64url_unit key" for key
    using that base64url_no_whitespace [of "last key"]
    by (intro trim_id) (simp add: js_def is_whitespace_def list_all_iff)
  then show ?thesis
    unfolding url_laws_def demo_url_def by (auto simp: js_def)
qed

theorem share_link_round_trip_witness:
  "\<exists>link. withKeyFragment demo_url (js ''https://x.example/a'') (encodeBase64url (replicate 32 7)) = Inr link
    \<and> keyFromFragmentOrURL demo_url link = Inr (encodeBase64url (replicate 32 7))"
proof -
  have "contains_sub (js ''https://x.example/'' @ s) (js ''://'')" for s
    by (simp add: js_def contains_sub_def starts_with_def)
  from this [of "[]"] this have link: "contains_sub (url_string demo_url (url_set_hash demo_url k u)) (js ''://'')" for k u
    by (simp add: demo_url_def)
  obtain u where "url_parse demo_url (js ''https://x.example/a'') = Some u"
    by (simp add: demo_url_def Let_def)
  from share_link_round_trip [OF demo_url_laws _ this link, of "replicate 32 7"] show ?thesis
    by auto
qed

end
