(* ===== verification/Http.thy ===== *)
theory Http
  imports Json
begin

text \<open>
  What both API clients share (\<open>web/src/api.ts\<close>, \<open>web/src/live-api.ts\<close>): requests and responses,
  \<open>encodeURIComponent\<close>, the request function with its error decoding. \<open>fetch\<close> is a function from
  requests to responses with None when it rejects; a response carries its body as text, so
  \<open>response.json()\<close> is \<open>json_parse\<close>. Resolving a path against the origin is the URL parser of the
  browser and an argument.
\<close>

section \<open>Requests and responses\<close>

record requestInit =
  ri_method :: jsstring
  ri_headers :: "(jsstring \<times> jsstring) list"
  ri_body :: "jsstring option"
  ri_credentials :: "jsstring option"
  ri_cache :: "jsstring option"
  ri_signal :: "nat option"

definition plain_init :: requestInit where
  "plain_init = \<lparr>ri_method = js ''GET'', ri_headers = [], ri_body = None, ri_credentials = None,
     ri_cache = None, ri_signal = None\<rparr>"

record httpResponse =
  rp_status :: int
  rp_body :: jsstring

text \<open>\<open>response.ok\<close>: the status is 200 to 299.\<close>

definition rp_ok :: "httpResponse \<Rightarrow> bool" where
  "rp_ok r \<longleftrightarrow> 200 \<le> rp_status r \<and> rp_status r \<le> 299"

type_synonym fetcher = "jsstring \<Rightarrow> requestInit \<Rightarrow> httpResponse option"

text \<open>
  The exceptions of a call: the API error with status, code, message and request id, the
  \<open>SyntaxError\<close> of \<open>response.json()\<close> and the \<open>URIError\<close> of \<open>encodeURIComponent\<close>.
\<close>

datatype 'c apiFailure = APIError int 'c jsstring "jsstring option" | JsonSyntaxError | URIError

type_synonym 'c api = "jsstring \<Rightarrow> requestInit \<Rightarrow> ('c apiFailure, jsval) result"

definition unavailable_message :: jsstring where
  "unavailable_message = js ''The service is temporarily unavailable.''"

section \<open>Path segments\<close>

definition uri_unreserved :: "nat \<Rightarrow> bool" where
  "uri_unreserved c \<longleftrightarrow> 65 \<le> c \<and> c \<le> 90 \<or> 97 \<le> c \<and> c \<le> 122 \<or> 48 \<le> c \<and> c \<le> 57
     \<or> c \<in> set [45, 95, 46, 33, 126, 42, 39, 40, 41]"

definition upper_hex :: "nat \<Rightarrow> 16 word" where
  "upper_hex n = (if n < 10 then of_nat (48 + n) else of_nat (55 + n))"

definition percent_byte :: "8 word \<Rightarrow> jsstring" where
  "percent_byte b = [0x25, upper_hex (unat b div 16), upper_hex (unat b mod 16)]"

definition uri_scalar :: "nat \<Rightarrow> jsstring" where
  "uri_scalar c = (if uri_unreserved c then [of_nat c] else concat (map percent_byte (utf8_scalar c)))"

text \<open>The scalar values of a string, or None when it has a lone surrogate.\<close>

fun strict_scalars :: "jsstring \<Rightarrow> nat list option" where
  "strict_scalars [] = Some []"
| "strict_scalars [u] = (if high_surrogate u \<or> low_surrogate u then None else Some [unat u])"
| "strict_scalars (u # v # us) =
     (if high_surrogate u then
        (if low_surrogate v then map_option (Cons (pair_scalar u v)) (strict_scalars us) else None)
      else if low_surrogate u then None
      else map_option (Cons (unat u)) (strict_scalars (v # us)))"

definition encodeURIComponent :: "jsstring \<Rightarrow> jsstring option" where
  "encodeURIComponent s = map_option (\<lambda>cs. concat (map uri_scalar cs)) (strict_scalars s)"

section \<open>The request function\<close>

text \<open>
  \<open>decodeError\<close>: code, message and request id from the body of a failed response, or the generic
  answer. \<open>normalizeCode\<close> maps an unknown code to \<open>unavailable\<close>.
\<close>

definition decodeError ::
  "(jsstring \<Rightarrow> 'c) \<Rightarrow> 'c \<Rightarrow> httpResponse \<Rightarrow> 'c \<times> jsstring \<times> jsstring option" where
  "decodeError normalizeCode unavailable response =
     (case json_parse (rp_body response) of
        None \<Rightarrow> (unavailable, unavailable_message, None)
      | Some body \<Rightarrow>
          let error = prop_of body (js ''error'')
          in if is_object body \<and> has_prop body (js ''error'') \<and> is_object error
                \<and> has_prop error (js ''code'') \<and> has_prop error (js ''message'')
                \<and> is_string (prop_of error (js ''code'')) \<and> is_string (prop_of error (js ''message''))
             then (normalizeCode (string_prop error ''code''), string_prop error ''message'',
                   if has_prop error (js ''request_id'') \<and> is_string (prop_of error (js ''request_id''))
                   then Some (string_prop error ''request_id'') else None)
             else (unavailable, unavailable_message, None))"

definition with_accept :: "requestInit \<Rightarrow> requestInit" where
  "with_accept init = init\<lparr>ri_headers := map_new ((js ''Accept'', js ''application/json'') # ri_headers init)\<rparr>"

definition api_request ::
  "(jsstring \<Rightarrow> 'c) \<Rightarrow> 'c \<Rightarrow> 'c \<Rightarrow> fetcher \<Rightarrow> (jsstring \<Rightarrow> jsstring option) \<Rightarrow> 'c api" where
  "api_request normalizeCode unavailable networkError fetcher resolve path init =
     (case (case resolve path of None \<Rightarrow> None | Some url \<Rightarrow> fetcher url (with_accept init)) of
        None \<Rightarrow> Inl (APIError 0 networkError unavailable_message None)
      | Some response \<Rightarrow>
          if \<not> rp_ok response then
            (case decodeError normalizeCode unavailable response of
               (code, message, requestID) \<Rightarrow> Inl (APIError (rp_status response) code message requestID))
          else if rp_status response = 204 then Inr JUndefined
          else (case json_parse (rp_body response) of
                  None \<Rightarrow> Inl JsonSyntaxError
                | Some v \<Rightarrow> Inr v))"

section \<open>A path segment cannot leave its place\<close>

definition segment_unit :: "16 word \<Rightarrow> bool" where
  "segment_unit u \<longleftrightarrow> uri_unreserved (unat u) \<or> u = 0x25"

lemma upper_hex_unreserved: "n < 16 \<Longrightarrow> segment_unit (upper_hex n)"
  by (auto simp: upper_hex_def segment_unit_def uri_unreserved_def unat_of_nat take_bit_eq_mod
      simp del: of_nat_add)

lemma percent_byte_segment: "u \<in> set (percent_byte b) \<Longrightarrow> segment_unit u"
proof -
  have "unat b < 256" using unsigned_less [of b, where 'a = nat] by simp
  then have "unat b div 16 < 16" "unat b mod 16 < 16" by auto
  then show "u \<in> set (percent_byte b) \<Longrightarrow> segment_unit u"
    by (auto simp: percent_byte_def upper_hex_unreserved) (simp add: segment_unit_def)
qed

lemma uri_scalar_segment: "u \<in> set (uri_scalar c) \<Longrightarrow> segment_unit u"
proof (cases "uri_unreserved c")
  case True
  then have "c < 65536" by (auto simp: uri_unreserved_def)
  then have "unat (of_nat c :: 16 word) = c" by (simp add: unat_of_nat take_bit_eq_mod)
  then show "u \<in> set (uri_scalar c) \<Longrightarrow> segment_unit u"
    using True by (simp add: uri_scalar_def segment_unit_def)
qed (auto simp: uri_scalar_def dest: percent_byte_segment)

lemma encodeURIComponent_segment:
  "encodeURIComponent s = Some t \<Longrightarrow> \<forall>u \<in> set t. segment_unit u"
  by (auto simp: encodeURIComponent_def dest: uri_scalar_segment)

lemma segment_unit_plain: "segment_unit u \<Longrightarrow> u \<noteq> 0x2F \<and> u \<noteq> 0x3F \<and> u \<noteq> 0x23 \<and> u \<noteq> 0x5C"
  by (auto simp: segment_unit_def uri_unreserved_def)

end
