(* ===== verification/Paste_API.thy ===== *)
theory Paste_API
  imports Http
begin

text \<open>
  The paste API client (\<open>web/src/api.ts\<close>): the request function with its error codes, the four
  operations and the checks of what the service answered. An operation takes the API as an
  argument, a function from a path and a request to a JSON value or an exception.
\<close>

section \<open>Errors\<close>

datatype apiErrorCode =
  InvalidRequest | PayloadTooLarge | RateLimitedCode | NotFound | ServiceUnavailable | InternalError | NetworkError

definition normalizeErrorCode :: "jsstring \<Rightarrow> apiErrorCode" where
  "normalizeErrorCode value =
     (case map_of [(js ''invalid_request'', InvalidRequest), (js ''payload_too_large'', PayloadTooLarge),
        (js ''rate_limited'', RateLimitedCode), (js ''not_found'', NotFound),
        (js ''service_unavailable'', ServiceUnavailable), (js ''internal_error'', InternalError)] value of
        None \<Rightarrow> ServiceUnavailable
      | Some c \<Rightarrow> c)"

text \<open>
  \<open>resolve origin path\<close> is \<open>new URL(path, origin)\<close> with an empty fragment, as text. None: the function
  throws, which the \<open>catch\<close> of the request function turns into a network error.
\<close>

definition apiURL :: "(jsstring \<Rightarrow> jsstring \<Rightarrow> jsstring option) \<Rightarrow> jsstring \<Rightarrow> jsstring \<Rightarrow> jsstring option" where
  "apiURL resolve origin path =
     (if \<not> starts_with path (js ''/api/'') then None else resolve origin path)"

definition createPasteAPI ::
  "fetcher \<Rightarrow> (jsstring \<Rightarrow> jsstring \<Rightarrow> jsstring option) \<Rightarrow> jsstring \<Rightarrow> apiErrorCode api" where
  "createPasteAPI fetcher resolve origin =
     api_request normalizeErrorCode ServiceUnavailable NetworkError fetcher (apiURL resolve origin)"

definition pasteNetworkError :: "apiErrorCode apiFailure" where
  "pasteNetworkError = APIError 0 NetworkError unavailable_message None"

section \<open>Requests and answers\<close>

datatype pasteExpiry = OneHour | OneDay | ThreeDays

definition expiry_id :: "pasteExpiry \<Rightarrow> jsstring" where
  "expiry_id e = js (case e of OneHour \<Rightarrow> ''1h'' | OneDay \<Rightarrow> ''24h'' | ThreeDays \<Rightarrow> ''72h'')"

record plaintextPasteRequest =
  pr_title :: jsstring
  pr_language :: jsstring
  pr_content :: jsstring
  pr_expiry :: pasteExpiry
  pr_burnAfterRead :: bool

record encryptedPasteRequest =
  er_envelope :: jsval
  er_expiry :: pasteExpiry
  er_burnAfterRead :: bool

record createdPaste =
  cp_slug :: jsstring
  cp_url :: jsstring
  cp_expiresAt :: jsstring

record 'a retrieved =
  rt_slug :: jsstring
  rt_data :: 'a
  rt_expiresAt :: jsstring
  rt_createdAt :: jsstring

text \<open>A retrieved paste carries its payload or its envelope as received.\<close>

datatype retrievedPaste =
    RetrievedPaste "jsval retrieved"
  | RetrievedEncryptedPaste "jsval retrieved"
  | BurnMetadata bool

definition isCreatedPaste :: "jsval \<Rightarrow> bool" where
  "isCreatedPaste value \<longleftrightarrow>
     is_object value \<and> has_prop value (js ''slug'') \<and> has_prop value (js ''url'') \<and> has_prop value (js ''expires_at'')
     \<and> is_string (prop_of value (js ''slug'')) \<and> is_string (prop_of value (js ''url''))
     \<and> is_string (prop_of value (js ''expires_at''))"

definition isBurnMetadata :: "jsval \<Rightarrow> bool" where
  "isBurnMetadata value \<longleftrightarrow>
     is_object value \<and> has_prop value (js ''burn_after_read'') \<and> prop_of value (js ''burn_after_read'') = JBool True
     \<and> has_prop value (js ''is_encrypted'') \<and> is_boolean (prop_of value (js ''is_encrypted''))"

definition retrieved_fields :: "bool \<Rightarrow> bool \<Rightarrow> jsval \<Rightarrow> bool" where
  "retrieved_fields encrypted allowBurnAfterRead value \<longleftrightarrow>
     has_prop value (js ''slug'') \<and> is_string (prop_of value (js ''slug''))
     \<and> has_prop value (js ''is_encrypted'') \<and> prop_of value (js ''is_encrypted'') = JBool encrypted
     \<and> has_prop value (js ''burn_after_read'') \<and> is_boolean (prop_of value (js ''burn_after_read''))
     \<and> (allowBurnAfterRead \<or> prop_of value (js ''burn_after_read'') = JBool False)
     \<and> has_prop value (js ''expires_at'') \<and> is_string (prop_of value (js ''expires_at''))
     \<and> has_prop value (js ''created_at'') \<and> is_string (prop_of value (js ''created_at''))"

definition isRetrievedPaste :: "bool \<Rightarrow> jsval \<Rightarrow> bool" where
  "isRetrievedPaste allowBurnAfterRead value \<longleftrightarrow>
     is_object value \<and> has_prop value (js ''payload'') \<and> is_object (prop_of value (js ''payload''))
     \<and> (let payload = prop_of value (js ''payload'')
        in retrieved_fields False allowBurnAfterRead value
           \<and> has_prop payload (js ''version'') \<and> prop_of payload (js ''version'') = JInt 1
           \<and> has_prop payload (js ''title'') \<and> is_string (prop_of payload (js ''title''))
           \<and> has_prop payload (js ''language'') \<and> is_string (prop_of payload (js ''language''))
           \<and> has_prop payload (js ''content'') \<and> is_string (prop_of payload (js ''content'')))"

definition isRetrievedEncryptedPaste :: "bool \<Rightarrow> jsval \<Rightarrow> bool" where
  "isRetrievedEncryptedPaste allowBurnAfterRead value \<longleftrightarrow>
     is_object value \<and> has_prop value (js ''envelope'') \<and> is_object (prop_of value (js ''envelope''))
     \<and> (let envelope = prop_of value (js ''envelope'')
        in retrieved_fields True allowBurnAfterRead value
           \<and> has_prop envelope (js ''version'') \<and> prop_of envelope (js ''version'') = JInt 1
           \<and> has_prop envelope (js ''algorithm'') \<and> prop_of envelope (js ''algorithm'') = JStr (js ''A256GCM'')
           \<and> has_prop envelope (js ''iv'') \<and> is_string (prop_of envelope (js ''iv''))
           \<and> has_prop envelope (js ''ciphertext'') \<and> is_string (prop_of envelope (js ''ciphertext'')))"

section \<open>Operations\<close>

definition paste_body :: "string \<Rightarrow> jsval \<Rightarrow> pasteExpiry \<Rightarrow> bool \<Rightarrow> jsval" where
  "paste_body mode payload expiry burn = JObj
     [(js ''mode'', JStr (js mode)), (js ''payload'', payload), (js ''expiry'', JStr (expiry_id expiry)),
      (js ''burn_after_read'', JBool burn)]"

definition post_paste :: "jsval \<Rightarrow> requestInit" where
  "post_paste body = plain_init\<lparr>ri_method := js ''POST'',
     ri_headers := [(js ''Content-Type'', js ''application/json'')], ri_body := json_stringify body\<rparr>"

definition created_of :: "(apiErrorCode apiFailure, jsval) result \<Rightarrow> (apiErrorCode apiFailure, createdPaste) result" where
  "created_of r = bind_result r (\<lambda>response.
     if \<not> isCreatedPaste response then Inl pasteNetworkError
     else Inr \<lparr>cp_slug = string_prop response ''slug'', cp_url = string_prop response ''url'',
                cp_expiresAt = string_prop response ''expires_at''\<rparr>)"

definition createPlaintextPaste ::
  "apiErrorCode api \<Rightarrow> plaintextPasteRequest \<Rightarrow> (apiErrorCode apiFailure, createdPaste) result" where
  "createPlaintextPaste api req = created_of (api (js ''/api/v1/pastes'') (post_paste
     (paste_body ''plaintext''
       (JObj [(js ''version'', JInt 1), (js ''title'', JStr (pr_title req)),
              (js ''language'', JStr (pr_language req)), (js ''content'', JStr (pr_content req))])
       (pr_expiry req) (pr_burnAfterRead req))))"

definition createEncryptedPaste ::
  "apiErrorCode api \<Rightarrow> encryptedPasteRequest \<Rightarrow> (apiErrorCode apiFailure, createdPaste) result" where
  "createEncryptedPaste api req = created_of (api (js ''/api/v1/pastes'') (post_paste
     (paste_body ''encrypted'' (er_envelope req) (er_expiry req) (er_burnAfterRead req))))"

definition retrieved_of :: "string \<Rightarrow> jsval \<Rightarrow> jsval retrieved" where
  "retrieved_of field response = \<lparr>rt_slug = string_prop response ''slug'', rt_data = prop_of response (js field),
     rt_expiresAt = string_prop response ''expires_at'', rt_createdAt = string_prop response ''created_at''\<rparr>"

definition paste_path :: "jsstring \<Rightarrow> string \<Rightarrow> (apiErrorCode apiFailure, jsstring) result" where
  "paste_path slug suffix = (case encodeURIComponent slug of
     None \<Rightarrow> Inl URIError
   | Some s \<Rightarrow> Inr (js ''/api/v1/pastes/'' @ s @ js suffix))"

definition getPaste ::
  "apiErrorCode api \<Rightarrow> jsstring \<Rightarrow> nat option \<Rightarrow> (apiErrorCode apiFailure, retrievedPaste) result" where
  "getPaste api slug signal =
     bind_result (paste_path slug '''') (\<lambda>path.
     bind_result (api path (plain_init\<lparr>ri_signal := signal\<rparr>)) (\<lambda>response.
       if isBurnMetadata response then Inr (BurnMetadata (the_bool (prop_of response (js ''is_encrypted''))))
       else if isRetrievedEncryptedPaste False response
         then Inr (RetrievedEncryptedPaste (retrieved_of ''envelope'' response))
       else if \<not> isRetrievedPaste False response then Inl pasteNetworkError
       else Inr (RetrievedPaste (retrieved_of ''payload'' response))))"

definition consumePaste :: "apiErrorCode api \<Rightarrow> jsstring \<Rightarrow> (apiErrorCode apiFailure, retrievedPaste) result" where
  "consumePaste api slug =
     bind_result (paste_path slug ''/consume'') (\<lambda>path.
     bind_result (api path (plain_init\<lparr>ri_method := js ''POST''\<rparr>)) (\<lambda>response.
       if isRetrievedEncryptedPaste True response
         then Inr (RetrievedEncryptedPaste (retrieved_of ''envelope'' response))
       else if isRetrievedPaste True response then Inr (RetrievedPaste (retrieved_of ''payload'' response))
       else Inl pasteNetworkError))"

section \<open>Properties\<close>

lemma retrieved_not_burn: "retrieved_fields enc False v \<Longrightarrow> prop_of v (js ''burn_after_read'') = JBool False"
  by (simp add: retrieved_fields_def)

lemma paste_path_Inr:
  assumes "paste_path slug suffix = Inr p"
  shows "\<exists>seg. p = js ''/api/v1/pastes/'' @ seg @ js suffix \<and> (\<forall>u \<in> set seg. u \<noteq> 0x2F \<and> u \<noteq> 0x3F \<and> u \<noteq> 0x23)"
proof -
  from assms obtain seg where "encodeURIComponent slug = Some seg" "p = js ''/api/v1/pastes/'' @ seg @ js suffix"
    by (auto simp: paste_path_def split: option.splits)
  with encodeURIComponent_segment [of slug seg] segment_unit_plain show ?thesis by auto
qed


definition demo_paste :: jsval where
  "demo_paste = JObj [(js ''slug'', JStr (js ''s'')), (js ''is_encrypted'', JBool False),
     (js ''burn_after_read'', JBool False), (js ''expires_at'', JStr (js ''e'')), (js ''created_at'', JStr (js ''c'')),
     (js ''payload'', JObj [(js ''version'', JInt 1), (js ''title'', JStr []), (js ''language'', JStr []),
        (js ''content'', JStr (js ''x''))])]"

definition demo_api :: "apiErrorCode api" where
  "demo_api path init = Inr demo_paste"


text \<open>
  The body of a create request is JSON that reads back as exactly the submitted paste: title,
  language, content, expiry and burn flag arrive unchanged whatever characters they contain, and the
  outcome depends on the service's answer to this one POST only.
\<close>
theorem create_request_faithful:
  "\<exists>init body. ri_method init = js ''POST'' \<and> ri_body init = Some body
    \<and> json_parse body = Some (paste_body ''plaintext''
        (JObj [(js ''version'', JInt 1), (js ''title'', JStr (pr_title req)),
               (js ''language'', JStr (pr_language req)), (js ''content'', JStr (pr_content req))])
        (pr_expiry req) (pr_burnAfterRead req))
    \<and> (\<forall>api. createPlaintextPaste api req = created_of (api (js ''/api/v1/pastes'') init))"
proof -
  let ?v = "paste_body ''plaintext''
        (JObj [(js ''version'', JInt 1), (js ''title'', JStr (pr_title req)),
               (js ''language'', JStr (pr_language req)), (js ''content'', JStr (pr_content req))])
        (pr_expiry req) (pr_burnAfterRead req)"
  have "json_data ?v"
    by (simp add: paste_body_def is_safe_integer_def max_safe_integer_def)
  from json_round_trip [OF this] obtain body where "json_stringify ?v = Some body" "json_parse body = Some ?v" by blast
  then show ?thesis
    by (intro exI [of _ "post_paste ?v"] exI [of _ body]) (simp add: post_paste_def createPlaintextPaste_def)
qed

text \<open>
  C29. The error of a failed call tells what happened: a network error exactly when there was no
  response, otherwise the response's status with one of the service's codes.
\<close>
theorem paste_error_faithful:
  assumes "createPasteAPI fetcher resolve origin path init = Inl (APIError status code message requestID)"
  shows "(code = NetworkError \<longleftrightarrow> (\<forall>url r. apiURL resolve origin path = Some url \<longrightarrow> fetcher url (with_accept init) \<noteq> Some r))
    \<and> (code \<noteq> NetworkError \<longrightarrow> (\<exists>url r. apiURL resolve origin path = Some url
          \<and> fetcher url (with_accept init) = Some r \<and> \<not> rp_ok r \<and> rp_status r = status))"
proof -
  have codes: "normalizeErrorCode c \<noteq> NetworkError" for c
    by (auto simp: normalizeErrorCode_def split: option.splits if_splits dest!: map_of_SomeD)
  then have "decodeError normalizeErrorCode ServiceUnavailable r \<noteq> (NetworkError, m, i)" for r m i
    by (simp add: decodeError_def Let_def split: option.splits)
  with assms show ?thesis
    by (auto simp: createPasteAPI_def api_request_def split: option.splits if_splits prod.splits)
qed

theorem paste_error_faithful_witness:
  "\<not> (\<forall>url r. apiURL (\<lambda>origin path. Some path) [] (js ''/api/x'') = Some url \<longrightarrow>
     Some \<lparr>rp_status = 404, rp_body = []\<rparr> \<noteq> Some r)"
proof -
  have "createPasteAPI (\<lambda>url init. Some \<lparr>rp_status = 404, rp_body = []\<rparr>) (\<lambda>origin path. Some path) [] (js ''/api/x'') plain_init
      = Inl (APIError 404 ServiceUnavailable unavailable_message None)"
    by (simp add: createPasteAPI_def api_request_def apiURL_def starts_with_def js_def rp_ok_def decodeError_def
        json_parse_def)
  from paste_error_faithful [OF this] show ?thesis by simp
qed

end
