(* ===== verification/Browser_Storage.thy ===== *)
theory Browser_Storage
  imports Json
begin

text \<open>
  \<open>localStorage\<close> and \<open>sessionStorage\<close>: string keys and values, where every access may throw (storage
  is switched off, or the quota is used up). The locale states what the clients rely on: a written
  value is read back, other keys keep their values, and a failed write changes nothing.
\<close>

record browserStorage =
  bs_items :: "(jsstring, jsstring) jsmap"
  bs_readable :: bool
  bs_writable :: bool

definition storage_new :: browserStorage where
  "storage_new = \<lparr>bs_items = [], bs_readable = True, bs_writable = True\<rparr>"

text \<open>\<open>Inl ()\<close>: the call throws; \<open>Inr None\<close>: \<open>getItem\<close> gives \<open>null\<close>.\<close>

definition getItem :: "browserStorage \<Rightarrow> jsstring \<Rightarrow> (unit, jsstring option) result" where
  "getItem st key = (if bs_readable st then Inr (map_get (bs_items st) key) else Inl ())"

definition setItem :: "jsstring \<Rightarrow> jsstring \<Rightarrow> browserStorage \<Rightarrow> (unit, browserStorage) result" where
  "setItem key value st =
     (if bs_writable st then Inr (st\<lparr>bs_items := AList.update key value (bs_items st)\<rparr>) else Inl ())"

definition removeItem :: "jsstring \<Rightarrow> browserStorage \<Rightarrow> (unit, browserStorage) result" where
  "removeItem key st =
     (if bs_writable st then Inr (st\<lparr>bs_items := AList.delete key (bs_items st)\<rparr>) else Inl ())"

text \<open>A call whose exception is caught and dropped.\<close>

definition try_store :: "'s \<Rightarrow> (unit, 's) result \<Rightarrow> 's" where
  "try_store st r = (case r of Inl e \<Rightarrow> st | Inr st' \<Rightarrow> st')"

lemma try_store_simps [simp]: "try_store st (Inl e) = st" "try_store st (Inr st') = st'"
  by (simp_all add: try_store_def)

locale key_value_store =
  fixes get :: "'s \<Rightarrow> 'k \<Rightarrow> (unit, 'v option) result"
    and set_value :: "'k \<Rightarrow> 'v \<Rightarrow> 's \<Rightarrow> (unit, 's) result"
    and remove :: "'k \<Rightarrow> 's \<Rightarrow> (unit, 's) result"
    and readable :: "'s \<Rightarrow> bool"
  assumes get_readable: "readable s \<Longrightarrow> \<exists>v. get s k = Inr v"
    and get_set: "set_value k v s = Inr s' \<Longrightarrow> readable s \<Longrightarrow> get s' k = Inr (Some v)"
    and get_set_other: "set_value k v s = Inr s' \<Longrightarrow> j \<noteq> k \<Longrightarrow> get s' j = get s j"
    and readable_set: "set_value k v s = Inr s' \<Longrightarrow> readable s' = readable s"
    and get_remove: "remove k s = Inr s' \<Longrightarrow> readable s \<Longrightarrow> get s' k = Inr None"
    and get_remove_other: "remove k s = Inr s' \<Longrightarrow> j \<noteq> k \<Longrightarrow> get s' j = get s j"
begin

text \<open>What a client that drops write errors can rely on: its value is there, or nothing changed.\<close>

lemma get_after_try:
  "readable s \<Longrightarrow>
    get (try_store s (set_value k v s)) k = Inr (Some v) \<or> try_store s (set_value k v s) = s"
  by (cases "set_value k v s") (auto simp: get_set)

lemma try_other: "j \<noteq> k \<Longrightarrow> get (try_store s (set_value k v s)) j = get s j"
  by (cases "set_value k v s") (auto simp: get_set_other)

lemma try_remove_other: "j \<noteq> k \<Longrightarrow> get (try_store s (remove k s)) j = get s j"
  by (cases "remove k s") (auto simp: get_remove_other)

lemma get_set_set:
  "set_value k v s = Inr s' \<Longrightarrow> set_value k w s' = Inr s'' \<Longrightarrow> readable s \<Longrightarrow> get s'' k = Inr (Some w)"
  by (simp add: get_set readable_set)

end

interpretation web_storage: key_value_store getItem setItem removeItem bs_readable
  by unfold_locales
    (auto simp: getItem_def setItem_def removeItem_def AList.update_conv' AList.delete_conv' split: if_splits)

lemma setItem_writable: "bs_writable st \<Longrightarrow> \<exists>st'. setItem k v st = Inr st' \<and> bs_writable st' \<and> bs_readable st' = bs_readable st"
  by (simp add: setItem_def)

end
