(* ===== verification/Live_Layout.thy ===== *)
theory Live_Layout
  imports Browser_Storage
begin

text \<open>
  Pane layouts and the saved layout preference of a room (\<open>web/src/live-layout.ts\<close>).
  \<open>Date.parse\<close> is an argument, since which strings it accepts is left to the implementation,
  with None for NaN; \<open>now\<close> is \<open>Date.now()\<close>.
\<close>

datatype liveLayoutPreset = SinglePane | Columns | Rows | Three | Grid

definition preset_id :: "liveLayoutPreset \<Rightarrow> jsstring" where
  "preset_id p = js (case p of SinglePane \<Rightarrow> ''single'' | Columns \<Rightarrow> ''columns'' | Rows \<Rightarrow> ''rows''
     | Three \<Rightarrow> ''three'' | Grid \<Rightarrow> ''grid'')"

definition livePanelLayouts :: "(liveLayoutPreset \<times> string \<times> nat) list" where
  "livePanelLayouts = [(Columns, ''Two columns'', 2), (Rows, ''Two rows'', 2),
     (Three, ''Three columns'', 3), (Grid, ''Four-pane grid'', 4)]"

text \<open>The type guard, with the value it narrows to.\<close>

definition isLiveLayoutPreset :: "jsval \<Rightarrow> liveLayoutPreset option" where
  "isLiveLayoutPreset value =
     (if value = JStr (preset_id SinglePane) then Some SinglePane
      else map_option fst (List.find (\<lambda>item. JStr (preset_id (fst item)) = value) livePanelLayouts))"

lemma isLiveLayoutPreset_id [simp]: "isLiveLayoutPreset (JStr (preset_id p)) = Some p"
  by (cases p) (simp_all add: isLiveLayoutPreset_def preset_id_def livePanelLayouts_def)

lemma isLiveLayoutPreset_SomeD: "isLiveLayoutPreset v = Some p \<Longrightarrow> v = JStr (preset_id p)"
  by (auto simp: isLiveLayoutPreset_def dest!: find_Some_set split: if_splits)

record layoutPreference =
  lp_followCreator :: bool
  lp_preset :: liveLayoutPreset

definition layout_storageKey :: "jsstring \<Rightarrow> jsstring" where
  "layout_storageKey slug = js ''0xbin.live.layout.v1:'' @ slug"

definition default_layout :: layoutPreference where
  "default_layout = \<lparr>lp_followCreator = True, lp_preset = SinglePane\<rparr>"

definition readLiveLayoutPreference ::
  "(jsstring \<Rightarrow> int option) \<Rightarrow> int \<Rightarrow> browserStorage \<Rightarrow> jsstring \<Rightarrow> jsstring \<Rightarrow> layoutPreference" where
  "readLiveLayoutPreference date_parse now st slug expiresAt =
     (case getItem st (layout_storageKey slug) of
        Inl e \<Rightarrow> default_layout
      | Inr item \<Rightarrow>
          (case json_parse (case item of None \<Rightarrow> js ''null'' | Some t \<Rightarrow> t) of
             None \<Rightarrow> default_layout
           | Some value \<Rightarrow>
               if is_object value
                  \<and> has_prop value (js ''expiresAt'') \<and> prop_of value (js ''expiresAt'') = JStr expiresAt
                  \<and> (case date_parse expiresAt of None \<Rightarrow> False | Some t \<Rightarrow> t > now)
                  \<and> has_prop value (js ''followCreator'') \<and> is_boolean (prop_of value (js ''followCreator''))
                  \<and> has_prop value (js ''preset'')
               then (case isLiveLayoutPreset (prop_of value (js ''preset'')) of
                       None \<Rightarrow> default_layout
                     | Some preset \<Rightarrow>
                         \<lparr>lp_followCreator = the_bool (prop_of value (js ''followCreator'')), lp_preset = preset\<rparr>)
               else default_layout))"

definition layout_json :: "layoutPreference \<Rightarrow> jsstring \<Rightarrow> jsval" where
  "layout_json preference expiresAt = JObj
     [(js ''followCreator'', JBool (lp_followCreator preference)),
      (js ''preset'', JStr (preset_id (lp_preset preference))),
      (js ''expiresAt'', JStr expiresAt)]"

definition saveLiveLayoutPreference ::
  "jsstring \<Rightarrow> jsstring \<Rightarrow> layoutPreference \<Rightarrow> browserStorage \<Rightarrow> browserStorage" where
  "saveLiveLayoutPreference slug expiresAt preference st =
     (case json_stringify (layout_json preference expiresAt) of
        None \<Rightarrow> st
      | Some t \<Rightarrow> try_store st (setItem (layout_storageKey slug) t st))"

lemma layout_json_reads_back:
  "\<exists>t. json_stringify (layout_json p e) = Some t \<and> json_parse t = Some (layout_json p e)"
  by (rule json_round_trip) (simp add: layout_json_def)

lemma layout_storageKey_inject: "layout_storageKey a = layout_storageKey b \<longleftrightarrow> a = b"
  by (simp add: layout_storageKey_def)

text \<open>
  A saved layout preference is read back until the room expires and is forgotten from then
  on or when the room's expiry differs; saving it leaves the preference of every other room alone.
\<close>
theorem layout_round_trip:
  assumes "bs_writable st" "bs_readable st"
  shows "readLiveLayoutPreference date_parse now (saveLiveLayoutPreference slug expiresAt p st) slug expiry =
      (if expiry = expiresAt \<and> (\<exists>t. date_parse expiresAt = Some t \<and> now < t) then p else default_layout)
    \<and> (other \<noteq> slug \<longrightarrow>
        readLiveLayoutPreference date_parse now (saveLiveLayoutPreference slug expiresAt p st) other expiry =
        readLiveLayoutPreference date_parse now st other expiry)"
proof -
  obtain t where t: "json_stringify (layout_json p expiresAt) = Some t" "json_parse t = Some (layout_json p expiresAt)"
    using layout_json_reads_back by blast
  obtain st' where st': "setItem (layout_storageKey slug) t st = Inr st'"
    using setItem_writable [OF assms(1)] by blast
  have save: "saveLiveLayoutPreference slug expiresAt p st = st'"
    by (simp add: saveLiveLayoutPreference_def t st')
  have "getItem st' (layout_storageKey slug) = Inr (Some t)"
    using web_storage.get_set [OF st' assms(2)] .
  moreover have "getItem st' (layout_storageKey other) = getItem st (layout_storageKey other)" if "other \<noteq> slug"
    using web_storage.get_set_other [OF st'] that by (simp add: layout_storageKey_inject)
  ultimately show ?thesis
    by (auto simp: save readLiveLayoutPreference_def t layout_json_def split: option.splits)
qed

theorem layout_round_trip_witness:
  "readLiveLayoutPreference (\<lambda>s. Some 5) 3
     (saveLiveLayoutPreference (js ''a'') (js ''e'') \<lparr>lp_followCreator = False, lp_preset = Grid\<rparr> storage_new)
     (js ''a'') (js ''e'') = \<lparr>lp_followCreator = False, lp_preset = Grid\<rparr>"
  using layout_round_trip [of storage_new "\<lambda>s. Some 5" 3 "js ''a''" "js ''e''"
      "\<lparr>lp_followCreator = False, lp_preset = Grid\<rparr>" "js ''e''" "js ''b''"]
  by (simp add: storage_new_def)

end
