(* ===== verification/Live_Wire.thy ===== *)
theory Live_Wire
  imports Live_Layout
begin

text \<open>
  The live wire protocol (\<open>web/src/live-wire.ts\<close>): the events a room receives, the decoder that
  admits them from untyped JSON and the join message. \<open>isoDate\<close> is \<open>new Date(s).toISOString()\<close>
  with None for an invalid date. Main facts: a decoded event satisfies \<open>wire_event_ok\<close>, and every
  event that satisfies it is decoded from its JSON form \<open>event_json\<close>.
\<close>

section \<open>Events\<close>

record liveRoomDocument =
  doc_id :: jsstring
  doc_name :: jsstring
  doc_language :: jsstring
  doc_content :: jsstring
  doc_revision :: int
  doc_position :: int

record liveCursor =
  cu_documentID :: jsstring
  cu_revision :: int
  cu_anchor :: int
  cu_head :: int

datatype accessClass = CreatorAccess | CollaboratorAccess | ViewerAccess
datatype participantStatus = StatusConnected | StatusConnectionLost | StatusOffline

record liveParticipant =
  pt_id :: jsstring
  pt_nickname :: jsstring
  pt_accessClass :: accessClass
  pt_canEdit :: bool
  pt_connectionCount :: int
  pt_joinedAt :: jsstring
  pt_color :: jsstring
  pt_currentTab :: jsstring
  pt_cursor :: "liveCursor option"
  pt_cursors :: "(jsstring \<times> liveCursor) list"
  pt_status :: participantStatus
  pt_lastSeenAt :: jsstring

text \<open>A connection cursor is the connection's id with the cursor; a document revision is a pair.\<close>

record joinedEvent =
  je_expiresAt :: jsstring
  je_metadataRevision :: int
  je_documentRevisions :: "(jsstring \<times> int) list"
  je_participants :: "liveParticipant list"
  je_participant :: liveParticipant
  je_reconnected :: bool
  je_creator :: bool
  je_watchOnly :: bool
  je_layoutPreset :: liveLayoutPreset

record changesEvent =
  ch_operationID :: jsstring
  ch_clientID :: jsstring
  ch_documentID :: jsstring
  ch_baseVersion :: int
  ch_revision :: int
  ch_changes :: jsval

datatype presenceKind = PresenceJoined | PresenceUpdated | ParticipantRenamed
datatype liveStatus = HttpResyncRequired | RateLimited | Synchronized | Expired

text \<open>Metadata events begin with the operation id, the client id and the metadata revision.\<close>

datatype liveWireEvent =
    Joined joinedEvent
  | Changes changesEvent
  | DocumentCreated jsstring jsstring int liveRoomDocument
  | DocumentUpdated jsstring jsstring int jsstring jsstring jsstring
  | DocumentDeleted jsstring jsstring int jsstring
  | DocumentReordered jsstring jsstring int "jsstring list"
  | Presence presenceKind liveParticipant
  | PresenceLeft jsstring "liveParticipant option"
  | RoomModeChanged bool "liveParticipant list"
  | RoomLayoutChanged liveLayoutPreset
  | ParticipantRemoved jsstring
  | StatusEvent liveStatus
  | ErrorEvent jsstring jsstring "jsstring option" "jsstring option"

section \<open>The join message\<close>

definition liveJoinMessage ::
  "jsstring \<Rightarrow> jsstring \<Rightarrow> jsstring \<Rightarrow> int \<Rightarrow> liveRoomDocument list \<Rightarrow> jsstring option \<Rightarrow> jsval" where
  "liveJoinMessage sessionID connectionID clientID metadataRevision documents preferredName = JObj
     ([(js ''type'', JStr (js ''join'')), (js ''session_id'', JStr sessionID),
       (js ''connection_id'', JStr connectionID), (js ''client_id'', JStr clientID)]
      @ (case preferredName of
           None \<Rightarrow> []
         | Some name \<Rightarrow> if name = [] then [] else [(js ''preferred_name'', JStr name)])
      @ [(js ''metadata_revision'', JInt metadataRevision),
         (js ''document_revisions'', JArr (map (\<lambda>d. JObj
            [(js ''document_id'', JStr (doc_id d)), (js ''revision'', JInt (doc_revision d))]) documents))])"

section \<open>Decoder\<close>

definition wire_strings :: "jsval \<Rightarrow> string list \<Rightarrow> bool" where
  "wire_strings value keys = list_all (\<lambda>k. is_string (prop_of value (js k))) keys"

definition timestamp :: "(jsstring \<Rightarrow> jsstring option) \<Rightarrow> jsval \<Rightarrow> jsstring option" where
  "timestamp isoDate value = (case value of JStr s \<Rightarrow> isoDate s | _ \<Rightarrow> None)"

definition isParticipantStatus :: "jsval \<Rightarrow> participantStatus option" where
  "isParticipantStatus value =
     (if value = JStr (js ''connected'') then Some StatusConnected
      else if value = JStr (js ''connection_lost'') then Some StatusConnectionLost
      else if value = JStr (js ''offline'') then Some StatusOffline
      else None)"

definition isParticipantAccessClass :: "jsval \<Rightarrow> accessClass option" where
  "isParticipantAccessClass value =
     (if value = JStr (js ''creator'') then Some CreatorAccess
      else if value = JStr (js ''collaborator'') then Some CollaboratorAccess
      else if value = JStr (js ''viewer'') then Some ViewerAccess
      else None)"

abbreviation int_prop :: "jsval \<Rightarrow> string \<Rightarrow> int option" where
  "int_prop v k \<equiv> nonneg_integer (prop_of v (js k))"

definition decodeCursor :: "jsval \<Rightarrow> liveCursor option" where
  "decodeCursor value =
     (if is_object value \<and> is_string (prop_of value (js ''document_id''))
         \<and> int_prop value ''revision'' \<noteq> None \<and> int_prop value ''anchor'' \<noteq> None
         \<and> int_prop value ''head'' \<noteq> None
      then Some \<lparr>cu_documentID = string_prop value ''document_id'', cu_revision = the (int_prop value ''revision''),
                 cu_anchor = the (int_prop value ''anchor''), cu_head = the (int_prop value ''head'')\<rparr>
      else None)"

definition decodeConnectionCursor :: "jsval \<Rightarrow> (jsstring \<times> liveCursor) option" where
  "decodeConnectionCursor value =
     (if is_object value \<and> is_string (prop_of value (js ''connection_id''))
      then map_option (\<lambda>c. (string_prop value ''connection_id'', c)) (decodeCursor value)
      else None)"

text \<open>The part of \<open>decodeParticipant\<close> after its decoded fields: the second guard and the result.\<close>

definition participant_of ::
  "jsval \<Rightarrow> participantStatus \<Rightarrow> accessClass \<Rightarrow> jsstring option \<Rightarrow> jsstring option \<Rightarrow> bool \<Rightarrow> liveCursor option
   \<Rightarrow> (jsstring \<times> liveCursor) list option \<Rightarrow> int option \<Rightarrow> liveParticipant option" where
  "participant_of value status access joinedAt lastSeenAt cursorGiven cursor decodedCursors connectionCount =
     (if joinedAt = None \<or> joinedAt = Some [] \<or> lastSeenAt = None \<or> lastSeenAt = Some []
         \<or> (cursorGiven \<and> cursor = None) \<or> decodedCursors = None \<or> connectionCount = None
         \<or> (if status = StatusConnected then the connectionCount < 1 else the connectionCount \<noteq> 0)
      then None
      else Some
        \<lparr>pt_id = string_prop value ''id'', pt_nickname = string_prop value ''nickname'',
         pt_accessClass = access, pt_canEdit = the_bool (prop_of value (js ''can_edit'')),
         pt_connectionCount = the connectionCount, pt_joinedAt = the joinedAt,
         pt_color = string_prop value ''color'', pt_currentTab = string_prop value ''current_tab'',
         pt_cursor = cursor, pt_cursors = the decodedCursors, pt_status = status,
         pt_lastSeenAt = the lastSeenAt\<rparr>)"

definition decodeCursors :: "jsval \<Rightarrow> (jsstring \<times> liveCursor) list option" where
  "decodeCursors value =
     (if value = JUndefined then Some []
      else (case as_array value of None \<Rightarrow> None | Some xs \<Rightarrow> all_Some (map decodeConnectionCursor xs)))"

definition decodeParticipant :: "(jsstring \<Rightarrow> jsstring option) \<Rightarrow> jsval \<Rightarrow> liveParticipant option" where
  "decodeParticipant isoDate value =
     (if \<not> is_object value \<or> \<not> wire_strings value [''id'', ''nickname'', ''color'', ''current_tab'']
         \<or> isParticipantStatus (prop_of value (js ''status'')) = None
         \<or> isParticipantAccessClass (prop_of value (js ''access_class'')) = None
         \<or> \<not> is_boolean (prop_of value (js ''can_edit''))
      then None
      else
        let cursorValue = prop_of value (js ''cursor'')
        in participant_of value (the (isParticipantStatus (prop_of value (js ''status''))))
             (the (isParticipantAccessClass (prop_of value (js ''access_class''))))
             (timestamp isoDate (prop_of value (js ''joined_at'')))
             (timestamp isoDate (prop_of value (js ''last_seen_at'')))
             (cursorValue \<noteq> JUndefined)
             (if cursorValue = JUndefined then None else decodeCursor cursorValue)
             (decodeCursors (prop_of value (js ''cursors'')))
             (int_prop value ''connection_count''))"

definition decodeDocument :: "jsval \<Rightarrow> liveRoomDocument option" where
  "decodeDocument value =
     (if \<not> is_object value \<or> \<not> wire_strings value [''id'', ''name'', ''language'', ''content'']
         \<or> int_prop value ''revision'' = None \<or> int_prop value ''position'' = None
      then None
      else Some \<lparr>doc_id = string_prop value ''id'', doc_name = string_prop value ''name'',
        doc_language = string_prop value ''language'', doc_content = string_prop value ''content'',
        doc_revision = the (int_prop value ''revision''), doc_position = the (int_prop value ''position'')\<rparr>)"

text \<open>The loop of \<open>decodeDocumentRevisions\<close>, with the ids seen so far.\<close>

fun document_revisions :: "jsstring list \<Rightarrow> jsval list \<Rightarrow> (jsstring \<times> int) list option" where
  "document_revisions seen [] = Some []"
| "document_revisions seen (item # items) =
     (if \<not> is_object item \<or> \<not> is_string (prop_of item (js ''document_id''))
         \<or> int_prop item ''revision'' = None
         \<or> string_prop item ''document_id'' \<in> set seen
      then None
      else map_option (Cons (string_prop item ''document_id'', the (int_prop item ''revision'')))
             (document_revisions (string_prop item ''document_id'' # seen) items))"

definition decodeDocumentRevisions :: "jsval \<Rightarrow> (jsstring \<times> int) list option" where
  "decodeDocumentRevisions value =
     (case as_array value of None \<Rightarrow> None | Some documents \<Rightarrow> document_revisions [] documents)"

definition decodeParticipants :: "(jsstring \<Rightarrow> jsstring option) \<Rightarrow> jsval \<Rightarrow> liveParticipant list option" where
  "decodeParticipants isoDate value =
     (case as_array value of None \<Rightarrow> None | Some xs \<Rightarrow> all_Some (map (decodeParticipant isoDate) xs))"

definition layout_or_single :: "jsval \<Rightarrow> jsval" where
  "layout_or_single v = (if v = JUndefined \<or> v = JNull then JStr (preset_id SinglePane) else v)"

definition decodeJoined :: "(jsstring \<Rightarrow> jsstring option) \<Rightarrow> jsval \<Rightarrow> joinedEvent option" where
  "decodeJoined isoDate event =
     (let expiresAt = timestamp isoDate (prop_of event (js ''expires_at''));
          metadataRevision = int_prop event ''metadata_revision'';
          documentRevisions = decodeDocumentRevisions (prop_of event (js ''document_revisions''));
          participants = decodeParticipants isoDate (prop_of event (js ''participants''));
          participant = decodeParticipant isoDate (prop_of event (js ''participant''));
          layout = isLiveLayoutPreset (layout_or_single (prop_of event (js ''layout_preset'')))
      in if expiresAt = None \<or> expiresAt = Some [] \<or> metadataRevision = None \<or> documentRevisions = None
            \<or> participants = None \<or> participant = None
            \<or> \<not> is_boolean (prop_of event (js ''reconnected''))
            \<or> \<not> is_boolean (prop_of event (js ''creator''))
            \<or> \<not> is_boolean (prop_of event (js ''watch_only''))
            \<or> layout = None
         then None
         else Some \<lparr>je_expiresAt = the expiresAt, je_metadataRevision = the metadataRevision,
           je_documentRevisions = the documentRevisions, je_participants = the participants,
           je_participant = the participant, je_reconnected = the_bool (prop_of event (js ''reconnected'')),
           je_creator = the_bool (prop_of event (js ''creator'')),
           je_watchOnly = the_bool (prop_of event (js ''watch_only'')), je_layoutPreset = the layout\<rparr>)"

definition decodeMetadata :: "jsval \<Rightarrow> string list \<Rightarrow> (jsstring \<Rightarrow> jsstring \<Rightarrow> int \<Rightarrow> liveWireEvent option) \<Rightarrow> liveWireEvent option" where
  "decodeMetadata event keys build =
     (if wire_strings event ([''operation_id'', ''client_id''] @ keys) \<and> int_prop event ''metadata_revision'' \<noteq> None
      then build (string_prop event ''operation_id'') (string_prop event ''client_id'')
             (the (int_prop event ''metadata_revision''))
      else None)"

definition optional_string :: "jsval \<Rightarrow> jsstring option" where
  "optional_string v = (case v of JStr s \<Rightarrow> Some s | _ \<Rightarrow> None)"

definition decodeStatus :: "jsval \<Rightarrow> liveStatus option" where
  "decodeStatus v =
     (if v = JStr (js ''http_resync_required'') then Some HttpResyncRequired
      else if v = JStr (js ''rate_limited'') then Some RateLimited
      else if v = JStr (js ''synchronized'') then Some Synchronized
      else if v = JStr (js ''expired'') then Some Expired
      else None)"

definition decodeLiveWireEvent :: "(jsstring \<Rightarrow> jsstring option) \<Rightarrow> jsval \<Rightarrow> liveWireEvent option" where
  "decodeLiveWireEvent isoDate event =
     (if \<not> is_object event \<or> \<not> is_string (prop_of event (js ''type'')) then None
      else
        let type = string_prop event ''type''
        in if type = js ''joined'' then map_option Joined (decodeJoined isoDate event)
           else if type = js ''changes'' then
             (if wire_strings event [''operation_id'', ''client_id'', ''document_id'']
                 \<and> int_prop event ''base_version'' \<noteq> None \<and> int_prop event ''revision'' \<noteq> None
                 \<and> has_prop event (js ''changes'')
              then Some (Changes \<lparr>ch_operationID = string_prop event ''operation_id'',
                     ch_clientID = string_prop event ''client_id'', ch_documentID = string_prop event ''document_id'',
                     ch_baseVersion = the (int_prop event ''base_version''),
                     ch_revision = the (int_prop event ''revision''), ch_changes = prop_of event (js ''changes'')\<rparr>)
              else None)
           else if type = js ''document_created'' then
             decodeMetadata event [] (\<lambda>op cl m.
               map_option (DocumentCreated op cl m) (decodeDocument (prop_of event (js ''document''))))
           else if type = js ''document_updated'' then
             decodeMetadata event [''document_id'', ''name'', ''language''] (\<lambda>op cl m.
               Some (DocumentUpdated op cl m (string_prop event ''document_id'') (string_prop event ''name'')
                 (string_prop event ''language'')))
           else if type = js ''document_deleted'' then
             decodeMetadata event [''document_id''] (\<lambda>op cl m.
               Some (DocumentDeleted op cl m (string_prop event ''document_id'')))
           else if type = js ''document_reordered'' then
             decodeMetadata event [] (\<lambda>op cl m.
               case as_array (prop_of event (js ''order'')) of
                 None \<Rightarrow> None
               | Some order \<Rightarrow>
                   if list_all is_string order then Some (DocumentReordered op cl m (map the_string order)) else None)
           else if type = js ''presence_joined'' then
             map_option (Presence PresenceJoined) (decodeParticipant isoDate (prop_of event (js ''participant'')))
           else if type = js ''presence_updated'' then
             map_option (Presence PresenceUpdated) (decodeParticipant isoDate (prop_of event (js ''participant'')))
           else if type = js ''participant_renamed'' then
             map_option (Presence ParticipantRenamed) (decodeParticipant isoDate (prop_of event (js ''participant'')))
           else if type = js ''presence_left'' then
             (if \<not> is_string (prop_of event (js ''participant_id'')) then None
              else
                let value = prop_of event (js ''participant'');
                    participant = (if value = JUndefined then None else decodeParticipant isoDate value)
                in if value \<noteq> JUndefined \<and> participant = None then None
                   else Some (PresenceLeft (string_prop event ''participant_id'') participant))
           else if type = js ''room_layout_changed'' then
             map_option RoomLayoutChanged (isLiveLayoutPreset (prop_of event (js ''layout_preset'')))
           else if type = js ''room_mode_changed'' then
             (if is_boolean (prop_of event (js ''watch_only''))
              then map_option (RoomModeChanged (the_bool (prop_of event (js ''watch_only''))))
                     (decodeParticipants isoDate (prop_of event (js ''participants'')))
              else None)
           else if type = js ''participant_removed'' then
             (if is_string (prop_of event (js ''participant_id''))
              then Some (ParticipantRemoved (string_prop event ''participant_id'')) else None)
           else if type = js ''status'' then map_option StatusEvent (decodeStatus (prop_of event (js ''status'')))
           else if type = js ''error'' then
             (if is_string (prop_of event (js ''code'')) \<and> is_string (prop_of event (js ''message''))
              then Some (ErrorEvent (string_prop event ''code'') (string_prop event ''message'')
                     (optional_string (prop_of event (js ''operation_id'')))
                     (optional_string (prop_of event (js ''status''))))
              else None)
           else None)"

section \<open>Well-formed events and their JSON\<close>

text \<open>Rendering a date and reading the rendering gives the same date.\<close>

definition iso_laws :: "(jsstring \<Rightarrow> jsstring option) \<Rightarrow> bool" where
  "iso_laws isoDate \<longleftrightarrow> (\<forall>s t. isoDate s = Some t \<longrightarrow> isoDate t = Some t)"

definition iso_stamp :: "(jsstring \<Rightarrow> jsstring option) \<Rightarrow> jsstring \<Rightarrow> bool" where
  "iso_stamp isoDate t \<longleftrightarrow> isoDate t = Some t \<and> t \<noteq> []"

definition cursor_ok :: "liveCursor \<Rightarrow> bool" where
  "cursor_ok c \<longleftrightarrow> safe_nat (cu_revision c) \<and> safe_nat (cu_anchor c) \<and> safe_nat (cu_head c)"

definition participant_ok :: "(jsstring \<Rightarrow> jsstring option) \<Rightarrow> liveParticipant \<Rightarrow> bool" where
  "participant_ok isoDate p \<longleftrightarrow>
     iso_stamp isoDate (pt_joinedAt p) \<and> iso_stamp isoDate (pt_lastSeenAt p)
     \<and> pred_option cursor_ok (pt_cursor p) \<and> list_all (\<lambda>(k, c). cursor_ok c) (pt_cursors p)
     \<and> safe_nat (pt_connectionCount p)
     \<and> (if pt_status p = StatusConnected then 1 \<le> pt_connectionCount p else pt_connectionCount p = 0)"

definition document_ok :: "liveRoomDocument \<Rightarrow> bool" where
  "document_ok d \<longleftrightarrow> safe_nat (doc_revision d) \<and> safe_nat (doc_position d)"

definition joined_ok :: "(jsstring \<Rightarrow> jsstring option) \<Rightarrow> joinedEvent \<Rightarrow> bool" where
  "joined_ok isoDate e \<longleftrightarrow> iso_stamp isoDate (je_expiresAt e) \<and> safe_nat (je_metadataRevision e)
     \<and> distinct (map fst (je_documentRevisions e)) \<and> list_all (\<lambda>(k, r). safe_nat r) (je_documentRevisions e)
     \<and> list_all (participant_ok isoDate) (je_participants e) \<and> participant_ok isoDate (je_participant e)"

fun wire_event_ok :: "(jsstring \<Rightarrow> jsstring option) \<Rightarrow> liveWireEvent \<Rightarrow> bool" where
  "wire_event_ok isoDate (Joined e) = joined_ok isoDate e"
| "wire_event_ok isoDate (Changes e) = (safe_nat (ch_baseVersion e) \<and> safe_nat (ch_revision e))"
| "wire_event_ok isoDate (DocumentCreated op cl m d) = (safe_nat m \<and> document_ok d)"
| "wire_event_ok isoDate (DocumentUpdated op cl m d n l) = safe_nat m"
| "wire_event_ok isoDate (DocumentDeleted op cl m d) = safe_nat m"
| "wire_event_ok isoDate (DocumentReordered op cl m ds) = safe_nat m"
| "wire_event_ok isoDate (Presence k p) = participant_ok isoDate p"
| "wire_event_ok isoDate (PresenceLeft i p) = pred_option (participant_ok isoDate) p"
| "wire_event_ok isoDate (RoomModeChanged b ps) = list_all (participant_ok isoDate) ps"
| "wire_event_ok isoDate _ = True"

definition cursor_fields :: "liveCursor \<Rightarrow> (jsstring \<times> jsval) list" where
  "cursor_fields c = [(js ''document_id'', JStr (cu_documentID c)), (js ''revision'', JInt (cu_revision c)),
     (js ''anchor'', JInt (cu_anchor c)), (js ''head'', JInt (cu_head c))]"

definition access_name :: "accessClass \<Rightarrow> string" where
  "access_name a = (case a of CreatorAccess \<Rightarrow> ''creator'' | CollaboratorAccess \<Rightarrow> ''collaborator'' | ViewerAccess \<Rightarrow> ''viewer'')"

definition status_name :: "participantStatus \<Rightarrow> string" where
  "status_name s = (case s of StatusConnected \<Rightarrow> ''connected'' | StatusConnectionLost \<Rightarrow> ''connection_lost''
     | StatusOffline \<Rightarrow> ''offline'')"

definition participant_json :: "liveParticipant \<Rightarrow> jsval" where
  "participant_json p = JObj
     ([(js ''id'', JStr (pt_id p)), (js ''nickname'', JStr (pt_nickname p)), (js ''color'', JStr (pt_color p)),
       (js ''current_tab'', JStr (pt_currentTab p)), (js ''status'', JStr (js (status_name (pt_status p)))),
       (js ''access_class'', JStr (js (access_name (pt_accessClass p)))), (js ''can_edit'', JBool (pt_canEdit p)),
       (js ''joined_at'', JStr (pt_joinedAt p)), (js ''last_seen_at'', JStr (pt_lastSeenAt p)),
       (js ''connection_count'', JInt (pt_connectionCount p)),
       (js ''cursors'', JArr (map (\<lambda>(k, c). JObj ((js ''connection_id'', JStr k) # cursor_fields c)) (pt_cursors p)))]
      @ (case pt_cursor p of None \<Rightarrow> [] | Some c \<Rightarrow> [(js ''cursor'', JObj (cursor_fields c))]))"

definition document_json :: "liveRoomDocument \<Rightarrow> jsval" where
  "document_json d = JObj [(js ''id'', JStr (doc_id d)), (js ''name'', JStr (doc_name d)),
     (js ''language'', JStr (doc_language d)), (js ''content'', JStr (doc_content d)),
     (js ''revision'', JInt (doc_revision d)), (js ''position'', JInt (doc_position d))]"

definition meta_fields :: "string \<Rightarrow> jsstring \<Rightarrow> jsstring \<Rightarrow> int \<Rightarrow> (jsstring \<times> jsval) list" where
  "meta_fields t op cl m = [(js ''type'', JStr (js t)), (js ''operation_id'', JStr op), (js ''client_id'', JStr cl),
     (js ''metadata_revision'', JInt m)]"

definition presence_name :: "presenceKind \<Rightarrow> string" where
  "presence_name k = (case k of PresenceJoined \<Rightarrow> ''presence_joined'' | PresenceUpdated \<Rightarrow> ''presence_updated''
     | ParticipantRenamed \<Rightarrow> ''participant_renamed'')"

definition live_status_name :: "liveStatus \<Rightarrow> string" where
  "live_status_name s = (case s of HttpResyncRequired \<Rightarrow> ''http_resync_required'' | RateLimited \<Rightarrow> ''rate_limited''
     | Synchronized \<Rightarrow> ''synchronized'' | Expired \<Rightarrow> ''expired'')"

fun event_json :: "liveWireEvent \<Rightarrow> jsval" where
  "event_json (Joined e) = JObj [(js ''type'', JStr (js ''joined'')), (js ''expires_at'', JStr (je_expiresAt e)),
     (js ''metadata_revision'', JInt (je_metadataRevision e)),
     (js ''document_revisions'', JArr (map (\<lambda>(k, r). JObj [(js ''document_id'', JStr k), (js ''revision'', JInt r)])
        (je_documentRevisions e))),
     (js ''participants'', JArr (map participant_json (je_participants e))),
     (js ''participant'', participant_json (je_participant e)), (js ''reconnected'', JBool (je_reconnected e)),
     (js ''creator'', JBool (je_creator e)), (js ''watch_only'', JBool (je_watchOnly e)),
     (js ''layout_preset'', JStr (preset_id (je_layoutPreset e)))]"
| "event_json (Changes e) = JObj [(js ''type'', JStr (js ''changes'')), (js ''operation_id'', JStr (ch_operationID e)),
     (js ''client_id'', JStr (ch_clientID e)), (js ''document_id'', JStr (ch_documentID e)),
     (js ''base_version'', JInt (ch_baseVersion e)), (js ''revision'', JInt (ch_revision e)),
     (js ''changes'', ch_changes e)]"
| "event_json (DocumentCreated op cl m d) =
     JObj (meta_fields ''document_created'' op cl m @ [(js ''document'', document_json d)])"
| "event_json (DocumentUpdated op cl m d n l) = JObj (meta_fields ''document_updated'' op cl m
     @ [(js ''document_id'', JStr d), (js ''name'', JStr n), (js ''language'', JStr l)])"
| "event_json (DocumentDeleted op cl m d) =
     JObj (meta_fields ''document_deleted'' op cl m @ [(js ''document_id'', JStr d)])"
| "event_json (DocumentReordered op cl m ds) =
     JObj (meta_fields ''document_reordered'' op cl m @ [(js ''order'', JArr (map JStr ds))])"
| "event_json (Presence k p) = JObj [(js ''type'', JStr (js (presence_name k))), (js ''participant'', participant_json p)]"
| "event_json (PresenceLeft i p) = JObj ([(js ''type'', JStr (js ''presence_left'')), (js ''participant_id'', JStr i)]
     @ (case p of None \<Rightarrow> [] | Some q \<Rightarrow> [(js ''participant'', participant_json q)]))"
| "event_json (RoomModeChanged b ps) = JObj [(js ''type'', JStr (js ''room_mode_changed'')), (js ''watch_only'', JBool b),
     (js ''participants'', JArr (map participant_json ps))]"
| "event_json (RoomLayoutChanged l) =
     JObj [(js ''type'', JStr (js ''room_layout_changed'')), (js ''layout_preset'', JStr (preset_id l))]"
| "event_json (ParticipantRemoved i) = JObj [(js ''type'', JStr (js ''participant_removed'')), (js ''participant_id'', JStr i)]"
| "event_json (StatusEvent s) = JObj [(js ''type'', JStr (js ''status'')), (js ''status'', JStr (js (live_status_name s)))]"
| "event_json (ErrorEvent c msg op st) = JObj ([(js ''type'', JStr (js ''error'')), (js ''code'', JStr c), (js ''message'', JStr msg)]
     @ (case op of None \<Rightarrow> [] | Some x \<Rightarrow> [(js ''operation_id'', JStr x)])
     @ (case st of None \<Rightarrow> [] | Some x \<Rightarrow> [(js ''status'', JStr x)]))"

section \<open>What the decoder admits\<close>

lemma decodeCursor_ok: "decodeCursor v = Some c \<Longrightarrow> cursor_ok c"
  by (auto simp: decodeCursor_def cursor_ok_def dest!: nonneg_integer_SomeD split: if_splits)

lemma decodeConnectionCursor_ok: "decodeConnectionCursor v = Some kc \<Longrightarrow> cursor_ok (snd kc)"
  by (auto simp: decodeConnectionCursor_def decodeCursor_ok split: if_splits)

lemma timestamp_ok: "iso_laws isoDate \<Longrightarrow> timestamp isoDate v = Some t \<Longrightarrow> isoDate t = Some t"
  by (auto simp: iso_laws_def timestamp_def split: jsval.splits)

lemma decodeCursors_ok: "decodeCursors v = Some ys \<Longrightarrow> list_all (\<lambda>(k, c). cursor_ok c) ys"
  by (auto simp: decodeCursors_def dest!: decodeConnectionCursor_ok elim!: all_Some_list_all
      split: if_splits option.splits)

lemma participant_of_ok:
  assumes "participant_of value status access joinedAt lastSeenAt given cursor cursors count = Some p"
    and "\<And>t. joinedAt = Some t \<Longrightarrow> isoDate t = Some t" "\<And>t. lastSeenAt = Some t \<Longrightarrow> isoDate t = Some t"
    and "pred_option cursor_ok cursor" "\<And>ys. cursors = Some ys \<Longrightarrow> list_all (\<lambda>(k, c). cursor_ok c) ys"
    and "\<And>n. count = Some n \<Longrightarrow> safe_nat n"
  shows "participant_ok isoDate p"
proof -
  from assms(1) obtain j l ys n where *: "joinedAt = Some j" "j \<noteq> []" "lastSeenAt = Some l" "l \<noteq> []"
    "cursors = Some ys" "count = Some n"
    by (cases joinedAt; cases lastSeenAt; cases cursors; cases count) (simp_all add: participant_of_def split: if_splits)
  with assms show ?thesis
    by (auto simp: participant_of_def participant_ok_def iso_stamp_def split: if_splits)
qed

lemma decodeParticipant_ok:
  assumes "iso_laws isoDate" "decodeParticipant isoDate v = Some p"
  shows "participant_ok isoDate p"
proof -
  have "pred_option cursor_ok (if c = JUndefined then None else decodeCursor c)" for c
    using decodeCursor_ok [of c] by (cases "decodeCursor c") auto
  moreover obtain status access where
    "participant_of v status access (timestamp isoDate (prop_of v (js ''joined_at'')))
       (timestamp isoDate (prop_of v (js ''last_seen_at''))) (prop_of v (js ''cursor'') \<noteq> JUndefined)
       (if prop_of v (js ''cursor'') = JUndefined then None else decodeCursor (prop_of v (js ''cursor'')))
       (decodeCursors (prop_of v (js ''cursors''))) (int_prop v ''connection_count'') = Some p"
    using assms(2) by (simp only: decodeParticipant_def Let_def split: if_split_asm) simp
  ultimately show ?thesis
    by (intro participant_of_ok [of v _ _ "timestamp isoDate (prop_of v (js ''joined_at''))"
          "timestamp isoDate (prop_of v (js ''last_seen_at''))" "prop_of v (js ''cursor'') \<noteq> JUndefined"
          "if prop_of v (js ''cursor'') = JUndefined then None else decodeCursor (prop_of v (js ''cursor''))"
          "decodeCursors (prop_of v (js ''cursors''))" "int_prop v ''connection_count''" p isoDate])
      (auto dest: timestamp_ok [OF assms(1)] nonneg_integer_SomeD decodeCursors_ok)
qed

lemma decodeParticipants_ok:
  "iso_laws isoDate \<Longrightarrow> decodeParticipants isoDate v = Some ps \<Longrightarrow> list_all (participant_ok isoDate) ps"
  by (auto simp: decodeParticipants_def dest: decodeParticipant_ok elim!: all_Some_list_all split: option.splits)

lemma document_revisions_ok:
  "document_revisions seen items = Some rs \<Longrightarrow>
    distinct (map fst rs) \<and> set (map fst rs) \<inter> set seen = {} \<and> list_all (\<lambda>(k, r). safe_nat r) rs"
proof (induction seen items arbitrary: rs rule: document_revisions.induct)
  case (2 seen item items)
  then obtain rs' where rs': "document_revisions (string_prop item ''document_id'' # seen) items = Some rs'"
    "rs = (string_prop item ''document_id'', the (int_prop item ''revision'')) # rs'"
    "string_prop item ''document_id'' \<notin> set seen" "int_prop item ''revision'' \<noteq> None"
    by (auto split: if_splits)
  moreover have "\<not> (\<not> is_object item \<or> \<not> is_string (prop_of item (js ''document_id''))
      \<or> int_prop item ''revision'' = None \<or> string_prop item ''document_id'' \<in> set seen)"
    using 2(2) by (auto split: if_splits)
  from 2(1) [OF this rs'(1)] rs' show ?case by (auto dest: nonneg_integer_SomeD)
qed simp

lemma decodeJoined_ok:
  assumes "iso_laws isoDate" "decodeJoined isoDate v = Some e"
  shows "joined_ok isoDate e"
proof -
  define x where "x = timestamp isoDate (prop_of v (js ''expires_at''))"
  define m where "m = int_prop v ''metadata_revision''"
  define r where "r = decodeDocumentRevisions (prop_of v (js ''document_revisions''))"
  define ps where "ps = decodeParticipants isoDate (prop_of v (js ''participants''))"
  define q where "q = decodeParticipant isoDate (prop_of v (js ''participant''))"
  note folds = x_def [symmetric] m_def [symmetric] r_def [symmetric] ps_def [symmetric] q_def [symmetric]
  have facts: "\<And>t. x = Some t \<Longrightarrow> isoDate t = Some t" "\<And>n. m = Some n \<Longrightarrow> safe_nat n"
    "\<And>rs. r = Some rs \<Longrightarrow> distinct (map fst rs) \<and> list_all (\<lambda>(k, n). safe_nat n) rs"
    "\<And>us. ps = Some us \<Longrightarrow> list_all (participant_ok isoDate) us" "\<And>u. q = Some u \<Longrightarrow> participant_ok isoDate u"
    using timestamp_ok [OF assms(1)] nonneg_integer_SomeD decodeParticipants_ok [OF assms(1)]
      decodeParticipant_ok [OF assms(1)] document_revisions_ok [of "[]"]
    by (auto simp: x_def m_def r_def ps_def q_def decodeDocumentRevisions_def split: option.splits)
  from assms(2) obtain t n rs us u where *: "x = Some t" "t \<noteq> []" "m = Some n" "r = Some rs" "ps = Some us" "q = Some u"
    by (cases x; cases m; cases r; cases ps; cases q) (simp_all add: decodeJoined_def folds Let_def split: if_splits)
  from assms(2) have "je_expiresAt e = t \<and> je_metadataRevision e = n \<and> je_documentRevisions e = rs
      \<and> je_participants e = us \<and> je_participant e = u"
    by (auto simp: decodeJoined_def folds Let_def * split: if_splits)
  with * facts show ?thesis by (simp add: joined_ok_def iso_stamp_def)
qed

lemma decodeDocument_ok: "decodeDocument v = Some d \<Longrightarrow> document_ok d"
  by (auto simp: decodeDocument_def document_ok_def dest!: nonneg_integer_SomeD split: if_splits)

lemma decodeMetadata_SomeD:
  "decodeMetadata event keys build = Some e \<Longrightarrow>
    \<exists>op cl m. build op cl m = Some e \<and> safe_nat m"
  by (auto simp: decodeMetadata_def dest!: nonneg_integer_SomeD split: if_splits)

lemma if_SomeE:
  "(if b then x else y) = Some e \<Longrightarrow> (b \<Longrightarrow> x = Some e \<Longrightarrow> P) \<Longrightarrow> (\<not> b \<Longrightarrow> y = Some e \<Longrightarrow> P) \<Longrightarrow> P"
  by (cases b) auto

lemma decode_ok:
  assumes "iso_laws isoDate" "decodeLiveWireEvent isoDate v = Some e"
  shows "wire_event_ok isoDate e"
proof -
  note parts = decodeJoined_ok [OF assms(1)] decodeParticipant_ok [OF assms(1)] decodeParticipants_ok [OF assms(1)]
    decodeDocument_ok
  show ?thesis
    using assms(2) unfolding decodeLiveWireEvent_def Let_def
    by (elim if_SomeE) (auto simp: parts dest!: decodeMetadata_SomeD nonneg_integer_SomeD split: if_split_asm option.split_asm)
qed

section \<open>Every well-formed event is admitted\<close>

lemma all_Some_inverse: "(\<And>x. x \<in> set xs \<Longrightarrow> f (g x) = Some x) \<Longrightarrow> all_Some (map f (map g xs)) = Some xs"
  by (induction xs) auto

lemma decode_cursor_fields:
  "cursor_ok c \<Longrightarrow> decodeCursor (JObj (cursor_fields c)) = Some c"
  "cursor_ok c \<Longrightarrow> decodeConnectionCursor (JObj ((js ''connection_id'', JStr k) # cursor_fields c)) = Some (k, c)"
  by (simp_all add: decodeConnectionCursor_def decodeCursor_def cursor_fields_def string_prop_def cursor_ok_def)

lemma decode_status_name: "isParticipantStatus (JStr (js (status_name s))) = Some s"
  by (cases s) (simp_all add: isParticipantStatus_def status_name_def)

lemma decode_access_name: "isParticipantAccessClass (JStr (js (access_name a))) = Some a"
  by (cases a) (simp_all add: isParticipantAccessClass_def access_name_def)

lemma decodeCursors_fields:
  assumes "list_all (\<lambda>(k, c). cursor_ok c) xs"
  shows "decodeCursors (JArr (map (\<lambda>(k, c). JObj ((js ''connection_id'', JStr k) # cursor_fields c)) xs)) = Some xs"
  unfolding decodeCursors_def
  using assms
  by (simp del: map_map, intro all_Some_inverse) (auto simp: list_all_iff decode_cursor_fields)

lemma decode_participant_json:
  assumes "participant_ok isoDate p"
  shows "decodeParticipant isoDate (participant_json p) = Some p"
proof -
  let ?v = "participant_json p"
  have fields: "prop_of ?v (js ''id'') = JStr (pt_id p)" "prop_of ?v (js ''nickname'') = JStr (pt_nickname p)"
    "prop_of ?v (js ''color'') = JStr (pt_color p)" "prop_of ?v (js ''current_tab'') = JStr (pt_currentTab p)"
    "prop_of ?v (js ''status'') = JStr (js (status_name (pt_status p)))"
    "prop_of ?v (js ''access_class'') = JStr (js (access_name (pt_accessClass p)))"
    "prop_of ?v (js ''can_edit'') = JBool (pt_canEdit p)" "prop_of ?v (js ''joined_at'') = JStr (pt_joinedAt p)"
    "prop_of ?v (js ''last_seen_at'') = JStr (pt_lastSeenAt p)"
    "prop_of ?v (js ''connection_count'') = JInt (pt_connectionCount p)"
    "decodeCursors (prop_of ?v (js ''cursors'')) = Some (pt_cursors p)"
    "prop_of ?v (js ''cursor'') = (case pt_cursor p of None \<Rightarrow> JUndefined | Some c \<Rightarrow> JObj (cursor_fields c))"
    using assms by (simp_all add: participant_json_def participant_ok_def decodeCursors_fields split: option.splits)
  have cursor: "(if prop_of ?v (js ''cursor'') = JUndefined then None else decodeCursor (prop_of ?v (js ''cursor''))) = pt_cursor p"
    "(prop_of ?v (js ''cursor'') \<noteq> JUndefined) = (pt_cursor p \<noteq> None)"
    using assms by (auto simp: fields(12) participant_ok_def decode_cursor_fields split: option.splits)
  have obj: "is_object ?v" by (simp add: participant_json_def)
  show ?thesis
    unfolding decodeParticipant_def Let_def cursor participant_of_def
    using assms
    by (cases "pt_cursor p"; cases "pt_status p = StatusConnected")
      (simp_all add: obj fields(1-11) wire_strings_def string_prop_def decode_status_name decode_access_name timestamp_def
        participant_ok_def iso_stamp_def)
qed

lemma decode_participants_json:
  "list_all (participant_ok isoDate) ps \<Longrightarrow> decodeParticipants isoDate (JArr (map participant_json ps)) = Some ps"
  by (simp add: decodeParticipants_def del: map_map, rule all_Some_inverse)
    (simp add: list_all_iff decode_participant_json)

lemma decode_revisions_json:
  "distinct (map fst rs) \<Longrightarrow> set (map fst rs) \<inter> set seen = {} \<Longrightarrow> list_all (\<lambda>(k, r). safe_nat r) rs \<Longrightarrow>
    document_revisions seen (map (\<lambda>(k, r). JObj [(js ''document_id'', JStr k), (js ''revision'', JInt r)]) rs) = Some rs"
  by (induction rs arbitrary: seen) (auto simp: string_prop_def)

lemma decode_joined_json:
  assumes "joined_ok isoDate e"
  shows "decodeJoined isoDate (event_json (Joined e)) = Some e"
  using assms decode_revisions_json [of "je_documentRevisions e" "[]"]
  by (simp add: decodeJoined_def Let_def joined_ok_def iso_stamp_def timestamp_def decode_participant_json
      decode_participants_json decodeDocumentRevisions_def layout_or_single_def)

lemma decode_document_json: "document_ok d \<Longrightarrow> decodeDocument (document_json d) = Some d"
  by (simp add: decodeDocument_def document_json_def wire_strings_def string_prop_def document_ok_def)

lemma decode_status_json: "decodeStatus (JStr (js (live_status_name s))) = Some s"
  by (cases s) (simp_all add: decodeStatus_def live_status_name_def)

lemma participant_json_defined: "participant_json p \<noteq> JUndefined"
  by (simp add: participant_json_def)

lemma decode_event_json:
  assumes "wire_event_ok isoDate e"
  shows "decodeLiveWireEvent isoDate (event_json e) = Some e"
proof (cases e)
  case (Joined j)
  have "is_object (event_json (Joined j))" "prop_of (event_json (Joined j)) (js ''type'') = JStr (js ''joined'')"
    by simp_all
  with assms Joined show ?thesis
    by (simp add: decodeLiveWireEvent_def string_prop_def decode_joined_json del: event_json.simps prop_JObj)
next
  case (Presence k p)
  with assms show ?thesis
    by (cases k) (simp_all add: decodeLiveWireEvent_def string_prop_def presence_name_def decode_participant_json)
next
  case (PresenceLeft i p)
  with assms show ?thesis
    by (cases p) (simp_all add: decodeLiveWireEvent_def string_prop_def decode_participant_json participant_json_defined)
next
  case (ErrorEvent c msg op st)
  then show ?thesis
    by (cases op; cases st) (simp_all add: decodeLiveWireEvent_def string_prop_def optional_string_def)
next
  case (DocumentReordered op cl m ds)
  with assms show ?thesis
    by (simp add: decodeLiveWireEvent_def string_prop_def meta_fields_def decodeMetadata_def wire_strings_def
        comp_def list_all_iff)
qed (use assms in \<open>simp_all add: decodeLiveWireEvent_def string_prop_def meta_fields_def decodeMetadata_def
      wire_strings_def decode_document_json decode_participants_json decode_status_json\<close>)

section \<open>Properties\<close>

text \<open>
  C26. Whatever JSON arrives, an admitted event is well-formed: revisions, positions and cursors are
  safe non-negative integers, dates are valid, document revisions name each document once, and a
  participant has a connection exactly when its status says connected.
\<close>
theorem wire_decode_sound:
  assumes "iso_laws isoDate" "decodeLiveWireEvent isoDate v = Some e"
  shows "wire_event_ok isoDate e"
  using assms by (rule decode_ok)

text \<open>
  C27. The decoder admits every well-formed event: decoding the JSON form of the event gives the event
  back, so a message is dropped only when it is malformed.
\<close>
theorem wire_decode_complete:
  assumes "wire_event_ok isoDate e"
  shows "decodeLiveWireEvent isoDate (event_json e) = Some e"
  using assms by (rule decode_event_json)

definition demo_participant :: liveParticipant where
  "demo_participant = \<lparr>pt_id = js ''p'', pt_nickname = js ''n'', pt_accessClass = ViewerAccess, pt_canEdit = False,
     pt_connectionCount = 1, pt_joinedAt = js ''2024'', pt_color = js ''c'', pt_currentTab = js ''d'',
     pt_cursor = Some \<lparr>cu_documentID = js ''d'', cu_revision = 1, cu_anchor = 2, cu_head = 3\<rparr>,
     pt_cursors = [], pt_status = StatusConnected, pt_lastSeenAt = js ''2024''\<rparr>"

lemma demo_participant_ok: "participant_ok Some demo_participant"
  by (simp add: participant_ok_def demo_participant_def iso_stamp_def cursor_ok_def safe_nat_def max_safe_integer_def)

theorem wire_decode_sound_witness:
  "wire_event_ok Some (Presence PresenceJoined demo_participant)"
proof (rule wire_decode_sound)
  show "iso_laws Some" by (simp add: iso_laws_def)
  show "decodeLiveWireEvent Some (event_json (Presence PresenceJoined demo_participant)) =
      Some (Presence PresenceJoined demo_participant)"
    by (rule decode_event_json) (simp add: demo_participant_ok)
qed

theorem wire_decode_complete_witness:
  "decodeLiveWireEvent Some (event_json (Presence PresenceJoined demo_participant)) =
     Some (Presence PresenceJoined demo_participant)"
  by (rule wire_decode_complete) (simp add: demo_participant_ok)

end
