(* ===== verification/Live_API.thy ===== *)
theory Live_API
  imports Paste_API Live_Wire Live_Connection
begin

text \<open>
  The live-room API client (\<open>web/src/live-api.ts\<close>): its error codes and request function, the checks
  and the normal form of a room snapshot and of the service configuration, the operations and the
  reconnect probe.
\<close>

section \<open>Errors\<close>

datatype liveAPIErrorCode =
    LiveInvalidRequest | LivePayloadTooLarge | LiveRateLimited | LiveNotFound | LiveServiceUnavailable
  | LiveInternalError | PasswordRequired | InvalidPassword | RoomLimitReached | RoomExpired | MessageTooLarge
  | ConnectionLimitReached | LiveNetworkError

definition normalizeLiveErrorCode :: "jsstring \<Rightarrow> liveAPIErrorCode" where
  "normalizeLiveErrorCode value =
     (case map_of [(js ''invalid_request'', LiveInvalidRequest), (js ''payload_too_large'', LivePayloadTooLarge),
        (js ''rate_limited'', LiveRateLimited), (js ''not_found'', LiveNotFound),
        (js ''service_unavailable'', LiveServiceUnavailable), (js ''internal_error'', LiveInternalError),
        (js ''password_required'', PasswordRequired), (js ''invalid_password'', InvalidPassword),
        (js ''room_limit_reached'', RoomLimitReached), (js ''room_expired'', RoomExpired),
        (js ''message_too_large'', MessageTooLarge), (js ''connection_limit_reached'', ConnectionLimitReached)] value of
        None \<Rightarrow> LiveServiceUnavailable
      | Some c \<Rightarrow> c)"

definition liveAPIURL :: "(jsstring \<Rightarrow> jsstring \<Rightarrow> jsstring option) \<Rightarrow> jsstring \<Rightarrow> jsstring \<Rightarrow> jsstring option" where
  "liveAPIURL resolve origin path =
     (if path \<noteq> js ''/api/v1/live'' \<and> \<not> starts_with path (js ''/api/v1/live/'') then None
      else apiURL resolve origin path)"

text \<open>\<open>request\<close> and \<open>decodeError\<close> of this file are those of \<open>api.ts\<close> with the codes of live rooms.\<close>

definition live_request ::
  "fetcher \<Rightarrow> (jsstring \<Rightarrow> jsstring \<Rightarrow> jsstring option) \<Rightarrow> jsstring \<Rightarrow> liveAPIErrorCode api" where
  "live_request fetcher resolve origin =
     api_request normalizeLiveErrorCode LiveServiceUnavailable LiveNetworkError fetcher (liveAPIURL resolve origin)"

definition createLiveAPI ::
  "fetcher \<Rightarrow> (jsstring \<Rightarrow> jsstring \<Rightarrow> jsstring option) \<Rightarrow> jsstring \<Rightarrow> liveAPIErrorCode api" where
  "createLiveAPI fetcher resolve origin path init = live_request fetcher resolve origin path init"

definition liveNetworkFailure :: "liveAPIErrorCode apiFailure" where
  "liveNetworkFailure = APIError 0 LiveNetworkError unavailable_message None"

section \<open>Snapshots and configuration\<close>

record liveServiceConfig =
  lc_maxBytes :: int
  lc_maxTabs :: int
  lc_maxWriters :: int
  lc_maxViewers :: int
  lc_maxParticipants :: int
  lc_roomLifetimeSeconds :: int

record liveRoomSnapshot =
  ls_slug :: jsstring
  ls_expiresAt :: jsstring
  ls_passwordRequired :: bool
  ls_metadataRevision :: int
  ls_config :: liveServiceConfig
  ls_documents :: "liveRoomDocument list"
  ls_acceptedOperationIDs :: "jsstring list"

text \<open>\<open>ls_config\<close> groups the six limit fields a snapshot shares with the service configuration.\<close>

record createdLiveRoom =
  cr_slug :: jsstring
  cr_url :: jsstring
  cr_expiresAt :: jsstring
  cr_passwordRequired :: bool

abbreviation nonneg_prop :: "jsval \<Rightarrow> string \<Rightarrow> bool" where
  "nonneg_prop v k \<equiv> has_prop v (js k) \<and> nonneg_integer (prop_of v (js k)) \<noteq> None"

definition positiveInteger :: "jsval \<Rightarrow> bool" where
  "positiveInteger v \<longleftrightarrow> (case nonneg_integer v of None \<Rightarrow> False | Some n \<Rightarrow> 0 < n)"

abbreviation positive_prop :: "jsval \<Rightarrow> string \<Rightarrow> bool" where
  "positive_prop v k \<equiv> has_prop v (js k) \<and> positiveInteger (prop_of v (js k))"

abbreviation string_field :: "jsval \<Rightarrow> string \<Rightarrow> bool" where
  "string_field v k \<equiv> has_prop v (js k) \<and> is_string (prop_of v (js k))"

definition isCreatedLiveRoom :: "jsval \<Rightarrow> bool" where
  "isCreatedLiveRoom value \<longleftrightarrow>
     is_object value \<and> string_field value ''slug'' \<and> string_field value ''url'' \<and> string_field value ''expires_at''
     \<and> has_prop value (js ''password_required'') \<and> is_boolean (prop_of value (js ''password_required''))"

text \<open>The limit checks that snapshot and configuration share.\<close>

definition limits_ok :: "jsval \<Rightarrow> bool" where
  "limits_ok value \<longleftrightarrow>
     positive_prop value ''max_bytes'' \<and> positive_prop value ''max_document_bytes''
     \<and> prop_of value (js ''max_document_bytes'') = prop_of value (js ''max_bytes'')
     \<and> positive_prop value ''max_tabs'' \<and> positive_prop value ''max_writers'' \<and> nonneg_prop value ''max_viewers''
     \<and> positive_prop value ''max_participants'' \<and> positive_prop value ''room_lifetime_seconds''"

definition isLiveServiceConfig :: "jsval \<Rightarrow> bool" where
  "isLiveServiceConfig value \<longleftrightarrow> is_object value \<and> limits_ok value"

definition snapshot_document_ok :: "jsval \<Rightarrow> bool" where
  "snapshot_document_ok document \<longleftrightarrow>
     is_object document \<and> string_field document ''id'' \<and> string_field document ''name''
     \<and> string_field document ''language'' \<and> string_field document ''content''
     \<and> nonneg_prop document ''revision'' \<and> nonneg_prop document ''position''
     \<and> nonneg_prop document ''snapshot_revision''"

definition operation_ids_ok :: "jsval \<Rightarrow> bool" where
  "operation_ids_ok value \<longleftrightarrow> (case value of
     JArr ids \<Rightarrow> length ids \<le> 64
       \<and> list_all (\<lambda>i. is_string i \<and> 1 \<le> length (the_string i) \<and> length (the_string i) \<le> 128) ids
   | _ \<Rightarrow> False)"

definition isLiveRoomSnapshot :: "jsval \<Rightarrow> bool" where
  "isLiveRoomSnapshot value \<longleftrightarrow>
     is_object value \<and> string_field value ''slug'' \<and> string_field value ''expires_at''
     \<and> has_prop value (js ''password_required'') \<and> is_boolean (prop_of value (js ''password_required''))
     \<and> nonneg_prop value ''metadata_revision'' \<and> nonneg_prop value ''metadata_snapshot_revision''
     \<and> limits_ok value
     \<and> has_prop value (js ''documents'')
     \<and> (case prop_of value (js ''documents'') of JArr ds \<Rightarrow> list_all snapshot_document_ok ds | _ \<Rightarrow> False)
     \<and> (\<not> has_prop value (js ''accepted_operation_ids'')
        \<or> operation_ids_ok (prop_of value (js ''accepted_operation_ids'')))"

definition config_of :: "jsval \<Rightarrow> liveServiceConfig" where
  "config_of value = \<lparr>lc_maxBytes = the (int_prop value ''max_bytes''), lc_maxTabs = the (int_prop value ''max_tabs''),
     lc_maxWriters = the (int_prop value ''max_writers''), lc_maxViewers = the (int_prop value ''max_viewers''),
     lc_maxParticipants = the (int_prop value ''max_participants''),
     lc_roomLifetimeSeconds = the (int_prop value ''room_lifetime_seconds'')\<rparr>"

definition snapshot_document :: "jsval \<Rightarrow> liveRoomDocument" where
  "snapshot_document d = \<lparr>doc_id = string_prop d ''id'', doc_name = string_prop d ''name'',
     doc_language = string_prop d ''language'', doc_content = string_prop d ''content'',
     doc_revision = the (int_prop d ''revision''), doc_position = the (int_prop d ''position'')\<rparr>"

definition normalizeLiveRoomSnapshot :: "jsval \<Rightarrow> liveRoomSnapshot" where
  "normalizeLiveRoomSnapshot value =
     \<lparr>ls_slug = string_prop value ''slug'', ls_expiresAt = string_prop value ''expires_at'',
      ls_passwordRequired = the_bool (prop_of value (js ''password_required'')),
      ls_metadataRevision = the (int_prop value ''metadata_revision''), ls_config = config_of value,
      ls_documents = sort_key doc_position
        (case prop_of value (js ''documents'') of JArr ds \<Rightarrow> map snapshot_document ds | _ \<Rightarrow> []),
      ls_acceptedOperationIDs =
        (case prop_of value (js ''accepted_operation_ids'') of JArr ids \<Rightarrow> map the_string ids | _ \<Rightarrow> [])\<rparr>"

section \<open>Operations\<close>

record liveRoomCreateRequest =
  lr_password :: "jsstring option"
  lr_documents :: "(jsstring \<times> jsstring \<times> jsstring) list"

definition live_path :: "jsstring \<Rightarrow> string \<Rightarrow> (liveAPIErrorCode apiFailure, jsstring) result" where
  "live_path slug suffix = (case encodeURIComponent slug of
     None \<Rightarrow> Inl URIError
   | Some s \<Rightarrow> Inr (js ''/api/v1/live/'' @ s @ js suffix))"

definition same_origin :: "requestInit \<Rightarrow> requestInit" where
  "same_origin init = init\<lparr>ri_credentials := Some (js ''same-origin'')\<rparr>"

definition no_store :: "requestInit \<Rightarrow> requestInit" where
  "no_store init = (same_origin init)\<lparr>ri_cache := Some (js ''no-store'')\<rparr>"

definition post_json :: "jsval \<Rightarrow> requestInit" where
  "post_json body = (same_origin plain_init)\<lparr>ri_method := js ''POST'',
     ri_headers := [(js ''Content-Type'', js ''application/json'')], ri_body := json_stringify body\<rparr>"

definition create_body :: "liveRoomCreateRequest \<Rightarrow> jsval" where
  "create_body req = JObj
     ((case lr_password req of
         None \<Rightarrow> [] | Some p \<Rightarrow> if p = [] then [] else [(js ''password'', JStr p)])
      @ [(js ''documents'', JArr (map (\<lambda>(n, l, c). JObj
          [(js ''name'', JStr n), (js ''language'', JStr l), (js ''content'', JStr c)]) (lr_documents req)))])"

definition createLiveRoom ::
  "liveAPIErrorCode api \<Rightarrow> liveRoomCreateRequest \<Rightarrow> (liveAPIErrorCode apiFailure, createdLiveRoom) result" where
  "createLiveRoom api req =
     bind_result (api (js ''/api/v1/live'') (post_json (create_body req))) (\<lambda>response.
       if \<not> isCreatedLiveRoom response then Inl liveNetworkFailure
       else Inr \<lparr>cr_slug = string_prop response ''slug'', cr_url = string_prop response ''url'',
                  cr_expiresAt = string_prop response ''expires_at'',
                  cr_passwordRequired = the_bool (prop_of response (js ''password_required''))\<rparr>)"

definition snapshot_of ::
  "(liveAPIErrorCode apiFailure, jsval) result \<Rightarrow> (liveAPIErrorCode apiFailure, liveRoomSnapshot) result" where
  "snapshot_of r = bind_result r (\<lambda>response.
     if \<not> isLiveRoomSnapshot response then Inl liveNetworkFailure else Inr (normalizeLiveRoomSnapshot response))"

definition getLiveRoom ::
  "liveAPIErrorCode api \<Rightarrow> jsstring \<Rightarrow> nat option \<Rightarrow> jsstring option
   \<Rightarrow> (liveAPIErrorCode apiFailure, liveRoomSnapshot) result" where
  "getLiveRoom api slug signal clientID =
     bind_result (live_path slug []) (\<lambda>path.
       snapshot_of (api path ((no_store plain_init)\<lparr>
         ri_headers := (case clientID of
                          None \<Rightarrow> []
                        | Some c \<Rightarrow> if c = [] then [] else [(js ''X-0xbin-Live-Client-ID'', c)]),
         ri_signal := signal\<rparr>)))"

definition probeLiveRoomReconnect ::
  "liveAPIErrorCode api \<Rightarrow> jsstring \<Rightarrow> jsstring option \<Rightarrow> liveReconnectProbeResult" where
  "probeLiveRoomReconnect api slug clientID =
     (case getLiveRoom api slug None clientID of
        Inr snapshot \<Rightarrow> Authorized
      | Inl (APIError status code message requestID) \<Rightarrow>
          (case code of
             PasswordRequired \<Rightarrow> AuthenticationRequired
           | LiveNotFound \<Rightarrow> RoomUnavailable
           | RoomExpired \<Rightarrow> RoomUnavailable
           | _ \<Rightarrow> RetryProbe)
      | Inl _ \<Rightarrow> RetryProbe)"

definition getLiveServiceConfig ::
  "liveAPIErrorCode api \<Rightarrow> nat option \<Rightarrow> (liveAPIErrorCode apiFailure, liveServiceConfig) result" where
  "getLiveServiceConfig api signal =
     bind_result (api (js ''/api/v1/live/config'') ((no_store plain_init)\<lparr>ri_signal := signal\<rparr>)) (\<lambda>response.
       if \<not> isLiveServiceConfig response then Inl liveNetworkFailure else Inr (config_of response))"

definition unlockLiveRoom ::
  "liveAPIErrorCode api \<Rightarrow> jsstring \<Rightarrow> jsstring \<Rightarrow> (liveAPIErrorCode apiFailure, liveRoomSnapshot) result" where
  "unlockLiveRoom api slug password =
     bind_result (live_path slug ''/unlock'') (\<lambda>path.
       snapshot_of (api path (post_json (JObj [(js ''password'', JStr password)]))))"

section \<open>What a snapshot promises\<close>

definition config_ok :: "liveServiceConfig \<Rightarrow> bool" where
  "config_ok c \<longleftrightarrow> list_all (\<lambda>n. 0 < n \<and> safe_nat n)
     [lc_maxBytes c, lc_maxTabs c, lc_maxWriters c, lc_maxParticipants c, lc_roomLifetimeSeconds c]
     \<and> safe_nat (lc_maxViewers c)"

definition snapshot_ok :: "liveRoomSnapshot \<Rightarrow> bool" where
  "snapshot_ok s \<longleftrightarrow> safe_nat (ls_metadataRevision s) \<and> config_ok (ls_config s)
     \<and> sorted (map doc_position (ls_documents s)) \<and> list_all document_ok (ls_documents s)
     \<and> length (ls_acceptedOperationIDs s) \<le> 64
     \<and> list_all (\<lambda>i. 1 \<le> length i \<and> length i \<le> 128) (ls_acceptedOperationIDs s)"

lemma positiveInteger_iff: "positiveInteger v \<longleftrightarrow> (\<exists>n. v = JInt n \<and> 0 < n \<and> safe_nat n)"
  by (auto simp: positiveInteger_def nonneg_integer_iff split: option.splits)

lemma limits_config: "limits_ok v \<Longrightarrow> config_ok (config_of v)"
  by (auto simp: limits_ok_def config_ok_def config_of_def positiveInteger_iff dest!: nonneg_integer_SomeD)

lemma snapshot_document_doc_ok: "snapshot_document_ok d \<Longrightarrow> document_ok (snapshot_document d)"
  by (auto simp: snapshot_document_ok_def document_ok_def snapshot_document_def dest!: nonneg_integer_SomeD)

lemma operation_ids_bound:
  "operation_ids_ok (JArr ids) \<Longrightarrow> length ids \<le> 64 \<and> list_all (\<lambda>i. 1 \<le> length i \<and> length i \<le> 128) (map the_string ids)"
  by (auto simp: operation_ids_ok_def list_all_iff)

lemma accepted_bound:
  assumes "\<not> has_prop v (js ''accepted_operation_ids'') \<or> operation_ids_ok (prop_of v (js ''accepted_operation_ids''))"
  shows "let ids = (case prop_of v (js ''accepted_operation_ids'') of JArr ids \<Rightarrow> map the_string ids | _ \<Rightarrow> [])
    in length ids \<le> 64 \<and> list_all (\<lambda>i. 1 \<le> length i \<and> length i \<le> 128) ids"
proof (cases "prop_of v (js ''accepted_operation_ids'')")
  case (JArr ids)
  with assms have "operation_ids_ok (JArr ids)" using has_prop_if_prop by fastforce
  then show ?thesis using operation_ids_bound [of ids] by (simp add: JArr)
qed simp_all

lemma normalized_snapshot_ok:
  assumes "isLiveRoomSnapshot v"
  shows "snapshot_ok (normalizeLiveRoomSnapshot v)"
proof -
  from assms obtain ds where ds: "prop_of v (js ''documents'') = JArr ds" "list_all snapshot_document_ok ds"
    by (auto simp: isLiveRoomSnapshot_def split: jsval.splits)
  have "list_all document_ok (sort_key doc_position (map snapshot_document ds))"
    using ds(2) by (auto simp: list_all_iff snapshot_document_doc_ok)
  moreover have "safe_nat (the (int_prop v ''metadata_revision''))"
    using assms by (auto simp: isLiveRoomSnapshot_def dest!: nonneg_integer_SomeD)
  ultimately show ?thesis
    using assms accepted_bound [of v] limits_config [of v]
    by (simp add: snapshot_ok_def normalizeLiveRoomSnapshot_def ds(1) isLiveRoomSnapshot_def Let_def)
qed


definition config_fields :: "liveServiceConfig \<Rightarrow> (jsstring \<times> jsval) list" where
  "config_fields c = [(js ''max_bytes'', JInt (lc_maxBytes c)), (js ''max_document_bytes'', JInt (lc_maxBytes c)),
     (js ''max_tabs'', JInt (lc_maxTabs c)), (js ''max_writers'', JInt (lc_maxWriters c)),
     (js ''max_viewers'', JInt (lc_maxViewers c)), (js ''max_participants'', JInt (lc_maxParticipants c)),
     (js ''room_lifetime_seconds'', JInt (lc_roomLifetimeSeconds c))]"

definition snapshot_document_json :: "liveRoomDocument \<Rightarrow> jsval" where
  "snapshot_document_json d = JObj [(js ''id'', JStr (doc_id d)), (js ''name'', JStr (doc_name d)),
     (js ''language'', JStr (doc_language d)), (js ''content'', JStr (doc_content d)),
     (js ''revision'', JInt (doc_revision d)), (js ''position'', JInt (doc_position d)),
     (js ''snapshot_revision'', JInt (doc_revision d))]"

definition snapshot_json :: "liveRoomSnapshot \<Rightarrow> jsval" where
  "snapshot_json s = JObj ([(js ''slug'', JStr (ls_slug s)), (js ''expires_at'', JStr (ls_expiresAt s)),
     (js ''password_required'', JBool (ls_passwordRequired s)),
     (js ''metadata_revision'', JInt (ls_metadataRevision s)),
     (js ''metadata_snapshot_revision'', JInt (ls_metadataRevision s)),
     (js ''documents'', JArr (map snapshot_document_json (ls_documents s))),
     (js ''accepted_operation_ids'', JArr (map JStr (ls_acceptedOperationIDs s)))] @ config_fields (ls_config s))"

lemma snapshot_document_json_ok:
  "document_ok d \<Longrightarrow> snapshot_document_ok (snapshot_document_json d) \<and> snapshot_document (snapshot_document_json d) = d"
  by (simp add: snapshot_document_ok_def snapshot_document_json_def snapshot_document_def document_ok_def string_prop_def)

lemma positive_JInt: "0 < n \<Longrightarrow> safe_nat n \<Longrightarrow> positiveInteger (JInt n)"
  by (simp add: positiveInteger_def)

lemma snapshot_json_limits:
  "config_ok (ls_config s) \<Longrightarrow> limits_ok (snapshot_json s) \<and> config_of (snapshot_json s) = ls_config s"
  by (simp add: limits_ok_def snapshot_json_def config_fields_def config_ok_def config_of_def positive_JInt)

lemma snapshot_json_ok:
  assumes "snapshot_ok s"
  shows "isLiveRoomSnapshot (snapshot_json s) \<and> normalizeLiveRoomSnapshot (snapshot_json s) = s"
proof -
  have limits: "limits_ok (snapshot_json s)" "config_of (snapshot_json s) = ls_config s"
    using snapshot_json_limits [of s] assms by (auto simp: snapshot_ok_def)
  have docs: "list_all snapshot_document_ok (map snapshot_document_json (ls_documents s))"
    "map (\<lambda>d. snapshot_document (snapshot_document_json d)) (ls_documents s) = ls_documents s"
    using assms snapshot_document_json_ok by (auto simp: snapshot_ok_def list_all_iff intro: map_idI)
  have fields: "is_object (snapshot_json s)" "prop_of (snapshot_json s) (js ''slug'') = JStr (ls_slug s)"
    "prop_of (snapshot_json s) (js ''expires_at'') = JStr (ls_expiresAt s)"
    "prop_of (snapshot_json s) (js ''password_required'') = JBool (ls_passwordRequired s)"
    "prop_of (snapshot_json s) (js ''metadata_revision'') = JInt (ls_metadataRevision s)"
    "prop_of (snapshot_json s) (js ''metadata_snapshot_revision'') = JInt (ls_metadataRevision s)"
    "prop_of (snapshot_json s) (js ''documents'') = JArr (map snapshot_document_json (ls_documents s))"
    "prop_of (snapshot_json s) (js ''accepted_operation_ids'') = JArr (map JStr (ls_acceptedOperationIDs s))"
    by (simp_all add: snapshot_json_def)
  have "isLiveRoomSnapshot (snapshot_json s)"
    using assms limits docs(1)
    by (simp add: isLiveRoomSnapshot_def fields has_prop_if_prop snapshot_ok_def operation_ids_ok_def list_all_iff)
  moreover have "sort_key doc_position (ls_documents s) = ls_documents s"
    using assms by (simp add: snapshot_ok_def sorted_sort_id sort_key_id_if_sorted)
  then have "normalizeLiveRoomSnapshot (snapshot_json s) = s"
    using assms docs(2)
    by (simp add: normalizeLiveRoomSnapshot_def fields limits(2) string_prop_def comp_def snapshot_ok_def)
  ultimately show ?thesis ..
qed

text \<open>
  A well-formed snapshot is never refused: when the service answers with the JSON form of a
  snapshot, \<open>getLiveRoom\<close> and \<open>unlockLiveRoom\<close> return that snapshot, documents in the same order.
\<close>
theorem room_snapshot_complete:
  assumes "snapshot_ok s" "live_path slug [] = Inr path" "live_path slug ''/unlock'' = Inr path'"
  shows "getLiveRoom (\<lambda>p init. Inr (snapshot_json s)) slug signal clientID = Inr s
    \<and> unlockLiveRoom (\<lambda>p init. Inr (snapshot_json s)) slug password = Inr s"
  using snapshot_json_ok [OF assms(1)] assms(2,3)
  by (simp add: getLiveRoom_def unlockLiveRoom_def snapshot_of_def)

definition demo_config :: liveServiceConfig where
  "demo_config = \<lparr>lc_maxBytes = 1000, lc_maxTabs = 8, lc_maxWriters = 4, lc_maxViewers = 0,
     lc_maxParticipants = 4, lc_roomLifetimeSeconds = 60\<rparr>"

definition demo_document :: "string \<Rightarrow> int \<Rightarrow> liveRoomDocument" where
  "demo_document i p = \<lparr>doc_id = js i, doc_name = js i, doc_language = js ''plaintext'', doc_content = [],
     doc_revision = 2, doc_position = p\<rparr>"

definition demo_snapshot :: liveRoomSnapshot where
  "demo_snapshot = \<lparr>ls_slug = js ''s'', ls_expiresAt = js ''e'', ls_passwordRequired = False, ls_metadataRevision = 3,
     ls_config = demo_config, ls_documents = [demo_document ''a'' 0, demo_document ''b'' 1],
     ls_acceptedOperationIDs = [js ''op'']\<rparr>"

lemma demo_snapshot_ok: "snapshot_ok demo_snapshot"
  by (simp add: snapshot_ok_def demo_snapshot_def demo_config_def config_ok_def demo_document_def document_ok_def
      safe_nat_def max_safe_integer_def)

lemma demo_live_path: "live_path (js ''s'') suffix = Inr (js ''/api/v1/live/'' @ js ''s'' @ js suffix)"
  by (simp add: live_path_def encodeURIComponent_def js_def high_surrogate_def low_surrogate_def uri_scalar_def
      uri_unreserved_def)

theorem room_snapshot_complete_witness:
  "getLiveRoom (\<lambda>p init. Inr (snapshot_json demo_snapshot)) (js ''s'') None None = Inr demo_snapshot"
  using room_snapshot_complete [OF demo_snapshot_ok demo_live_path demo_live_path] by blast


section \<open>The reconnect probe\<close>

text \<open>The error code a response carries.\<close>

definition response_code :: "httpResponse \<Rightarrow> jsstring option" where
  "response_code r = (case json_parse (rp_body r) of
     None \<Rightarrow> None
   | Some body \<Rightarrow> Some (string_prop (prop_of body (js ''error'')) ''code''))"

lemma normalizeLiveErrorCode_iff:
  "normalizeLiveErrorCode c = PasswordRequired \<longleftrightarrow> c = js ''password_required''"
  "normalizeLiveErrorCode c = LiveNotFound \<longleftrightarrow> c = js ''not_found''"
  "normalizeLiveErrorCode c = RoomExpired \<longleftrightarrow> c = js ''room_expired''"
  by (auto simp: normalizeLiveErrorCode_def split: if_splits)

lemma decodeError_code:
  assumes "decodeError normalizeCode unavailable r = (code, m, i)" "code \<noteq> unavailable"
  shows "\<exists>c. response_code r = Some c \<and> code = normalizeCode c"
  using assms by (auto simp: decodeError_def response_code_def Let_def split: option.splits if_splits)

lemma live_api_error:
  assumes "createLiveAPI fetcher resolve origin path init = Inl (APIError status code m i)"
    and "code \<noteq> LiveServiceUnavailable" "code \<noteq> LiveNetworkError"
  shows "\<exists>url r c. fetcher url (with_accept init) = Some r \<and> \<not> rp_ok r \<and> response_code r = Some c
    \<and> code = normalizeLiveErrorCode c"
  using assms
  by (auto simp: createLiveAPI_def live_request_def api_request_def split: option.splits if_splits prod.splits
      dest!: decodeError_code)

lemma getLiveRoom_error:
  assumes "getLiveRoom api slug signal clientID = Inl (APIError status code m i)" "code \<noteq> LiveNetworkError"
  shows "\<exists>path init. api path init = Inl (APIError status code m i)"
  using assms
  by (auto simp: getLiveRoom_def snapshot_of_def liveNetworkFailure_def live_path_def bind_result_def
      split: option.splits sum.splits if_splits)

text \<open>
  The reconnect probe gives up only on the service's word: it reports the room unavailable or
  authentication required only when a failed response says not found, expired or password required,
  and it reports the room authorized only with a well-formed snapshot; every other outcome is a retry.
\<close>
theorem probe_verdicts:
  "case probeLiveRoomReconnect (createLiveAPI fetcher resolve origin) slug clientID of
     Authorized \<Rightarrow> \<exists>s. getLiveRoom (createLiveAPI fetcher resolve origin) slug None clientID = Inr s \<and> snapshot_ok s
   | AuthenticationRequired \<Rightarrow>
       \<exists>url init r. fetcher url init = Some r \<and> \<not> rp_ok r \<and> response_code r = Some (js ''password_required'')
   | RoomUnavailable \<Rightarrow>
       \<exists>url init r. fetcher url init = Some r \<and> \<not> rp_ok r
         \<and> (response_code r = Some (js ''not_found'') \<or> response_code r = Some (js ''room_expired''))
   | RetryProbe \<Rightarrow> True"
proof (cases "getLiveRoom (createLiveAPI fetcher resolve origin) slug None clientID")
  case (Inr s)
  then have "snapshot_ok s"
    by (auto simp: getLiveRoom_def snapshot_of_def bind_result_Inr_iff normalized_snapshot_ok split: if_splits)
  with Inr show ?thesis by (simp add: probeLiveRoomReconnect_def)
next
  case (Inl e)
  show ?thesis
  proof (cases e)
    case (APIError status code m i)
    show ?thesis
    proof (cases "code \<in> {PasswordRequired, LiveNotFound, RoomExpired}")
      case True
      then obtain path init where
        "createLiveAPI fetcher resolve origin path init = Inl (APIError status code m i)"
        using getLiveRoom_error [of "createLiveAPI fetcher resolve origin" slug None clientID status code m i]
          Inl APIError by auto
      with True obtain url r c where r: "fetcher url (with_accept init) = Some r" "\<not> rp_ok r"
        "response_code r = Some c" and c: "normalizeLiveErrorCode c = code"
        using live_api_error [of fetcher resolve origin path init status code m i] by auto
      from True c have "code = PasswordRequired \<and> c = js ''password_required''
          \<or> code = LiveNotFound \<and> c = js ''not_found'' \<or> code = RoomExpired \<and> c = js ''room_expired''"
        using normalizeLiveErrorCode_iff [of c] by auto
      then show ?thesis
        using r by (elim disjE conjE) (simp_all add: probeLiveRoomReconnect_def Inl APIError, blast+)
    next
      case False
      with Inl APIError show ?thesis by (cases code) (auto simp: probeLiveRoomReconnect_def)
    qed
  qed (simp_all add: probeLiveRoomReconnect_def Inl)
qed

end
