(* ===== verification/Live_Room_UI.thy ===== *)
theory Live_Room_UI
  imports Live_Wire
begin

text \<open>
  The pure helpers of the room's interface (\<open>web/src/live-room-ui.ts\<close>): sizes, tab names, tab order,
  labels of remote cursors, menu navigation. Numbers are exact here; the doubles of the source
  agree with them up to the safe integers. \<open>date_parse\<close> is \<open>Date.parse\<close>, None for NaN.
\<close>

section \<open>Definitions\<close>

record liveRemoteCursor =
  rc_id :: jsstring
  rc_nickname :: jsstring
  rc_color :: jsstring
  rc_revision :: int
  rc_anchor :: int
  rc_head :: int
  rc_active :: bool

datatype liveTabDropPlacement = DropBefore | DropAfter

definition liveRemoteCursorLabelDurationMs :: int where
  "liveRemoteCursorLabelDurationMs = 2 * 60 * 1000"

definition aggregateLiveRoomBytes :: "liveRoomDocument list \<Rightarrow> (liveRoomDocument \<Rightarrow> jsstring) \<Rightarrow> nat" where
  "aggregateLiveRoomBytes documents contentForDocument =
     foldl (\<lambda>total d. total + length (utf8_encode (contentForDocument d))) 0 documents"

text \<open>The index a name like \<open>tab7\<close> or \<open>Tab-7\<close> carries: \<open>/^tab-?(\d+)$/i\<close> on the trimmed name.\<close>

definition same_letter :: "16 word \<Rightarrow> 16 word \<Rightarrow> bool" where
  "same_letter u lower \<longleftrightarrow> u = lower \<or> u + 32 = lower"

definition tab_index :: "jsstring \<Rightarrow> nat option" where
  "tab_index name = (case name of
     t # a # b # rest \<Rightarrow>
       (let digits = (case rest of u # us \<Rightarrow> if u = 0x2D then us else rest | [] \<Rightarrow> [])
        in if same_letter t 0x74 \<and> same_letter a 0x61 \<and> same_letter b 0x62
              \<and> digits \<noteq> [] \<and> list_all is_digit digits
           then Some (digits_value digits) else None)
   | _ \<Rightarrow> None)"

definition highest_index :: "jsstring list \<Rightarrow> nat" where
  "highest_index names =
     foldl (\<lambda>highest name. case tab_index (trim name) of None \<Rightarrow> highest | Some n \<Rightarrow> max highest n) 0 names"

definition nextLiveTabName :: "jsstring list \<Rightarrow> jsstring" where
  "nextLiveTabName names = js ''tab'' @ js (digits_of (max (length names + 1) (highest_index names + 1)))"

definition reorderLiveTabIDs ::
  "jsstring list \<Rightarrow> jsstring \<Rightarrow> jsstring \<Rightarrow> liveTabDropPlacement \<Rightarrow> jsstring list" where
  "reorderLiveTabIDs documentIDs sourceID targetID placement =
     (if sourceID = targetID then documentIDs
      else if index_of sourceID documentIDs = None \<or> index_of targetID documentIDs = None then documentIDs
      else
        let order = filter (\<lambda>d. d \<noteq> sourceID) documentIDs
        in case index_of targetID order of
             None \<Rightarrow> order
           | Some nextTargetIndex \<Rightarrow>
               splice_in (nextTargetIndex + (if placement = DropAfter then 1 else 0)) sourceID order)"

definition formatLiveRoomLifetime :: "int \<Rightarrow> jsstring" where
  "formatLiveRoomLifetime seconds =
     (if seconds > 0 \<and> seconds mod 86400 = 0 then int_str (seconds div 86400) @ js ''d''
      else if seconds > 0 \<and> seconds mod 3600 = 0 then int_str (seconds div 3600) @ js ''h''
      else if seconds > 0 \<and> seconds mod 60 = 0 then int_str (seconds div 60) @ js ''m''
      else int_str seconds @ js ''s'')"

text \<open>\<open>Array.from(value)\<close> has one element per code point.\<close>

definition liveInlineRenameWidth :: "jsstring \<Rightarrow> jsstring" where
  "liveInlineRenameWidth value = int_str (min (max (int (length (scalars value))) 8) 15) @ js ''ch''"

text \<open>\<open>toFixed\<close>: the decimal with \<open>f\<close> digits closest to a non-negative number, the larger on a tie.\<close>

definition pad_zeros :: "nat \<Rightarrow> string \<Rightarrow> string" where
  "pad_zeros n s = replicate (n - length s) CHR ''0'' @ s"

definition to_fixed :: "nat \<Rightarrow> rat \<Rightarrow> jsstring" where
  "to_fixed f x =
     (let n = nat \<lfloor>x * 10 ^ f + 1 / 2\<rfloor>
      in js (digits_of (n div 10 ^ f) @ ''.'' @ pad_zeros f (digits_of (n mod 10 ^ f))))"

definition formatLiveMebibytes :: "nat \<Rightarrow> jsstring" where
  "formatLiveMebibytes bytes =
     (if bytes mod 1048576 = 0 then js (digits_of (bytes div 1048576))
      else to_fixed 2 (rat_of_nat bytes / 1048576)) @ js '' MiB''"

definition formatLiveBytes :: "nat \<Rightarrow> jsstring" where
  "formatLiveBytes bytes =
     (if bytes \<ge> 1048576 then formatLiveMebibytes bytes
      else if bytes < 1024 then js (digits_of bytes) @ js '' B''
      else to_fixed 1 (rat_of_nat bytes / 1024) @ js '' KiB'')"

definition shown_participant :: "jsstring \<Rightarrow> liveParticipant \<Rightarrow> bool" where
  "shown_participant localID p \<longleftrightarrow> pt_id p \<noteq> localID \<and> pt_status p = StatusConnected"

definition participant_cursors :: "jsstring \<Rightarrow> liveParticipant \<Rightarrow> (jsstring \<times> liveCursor) list" where
  "participant_cursors activeDocumentID p =
     filter (\<lambda>(k, c). cu_documentID c = activeDocumentID)
       (if pt_cursors p \<noteq> [] then pt_cursors p
        else (case pt_cursor p of
                None \<Rightarrow> []
              | Some c \<Rightarrow> if pt_currentTab p = activeDocumentID then [(pt_id p, c)] else []))"

definition label_active :: "(jsstring \<Rightarrow> int option) \<Rightarrow> int \<Rightarrow> liveParticipant \<Rightarrow> bool" where
  "label_active date_parse now p = (case date_parse (pt_lastSeenAt p) of
     None \<Rightarrow> False | Some t \<Rightarrow> now - t < liveRemoteCursorLabelDurationMs)"

definition liveRemoteCursors ::
  "(jsstring \<Rightarrow> int option) \<Rightarrow> liveParticipant list \<Rightarrow> jsstring \<Rightarrow> jsstring \<Rightarrow> int \<Rightarrow> liveRemoteCursor list" where
  "liveRemoteCursors date_parse participants localParticipantID activeDocumentID now =
     concat (map (\<lambda>p. map (\<lambda>(k, c).
         \<lparr>rc_id = pt_id p @ js '':'' @ k, rc_nickname = pt_nickname p, rc_color = pt_color p,
          rc_revision = cu_revision c, rc_anchor = cu_anchor c, rc_head = cu_head c,
          rc_active = label_active date_parse now p\<rparr>) (participant_cursors activeDocumentID p))
       (filter (shown_participant localParticipantID) participants))"

definition has_cursor :: "jsstring \<Rightarrow> liveParticipant \<Rightarrow> bool" where
  "has_cursor activeDocumentID p \<longleftrightarrow>
     list_ex (\<lambda>(k, c). cu_documentID c = activeDocumentID) (pt_cursors p)
     \<or> (pt_cursors p = [] \<and> pt_currentTab p = activeDocumentID
        \<and> (case pt_cursor p of None \<Rightarrow> False | Some c \<Rightarrow> cu_documentID c = activeDocumentID))"

text \<open>One turn of the loop; \<open>None\<close> is \<open>undefined\<close>.\<close>

definition expiry_step ::
  "(jsstring \<Rightarrow> int option) \<Rightarrow> jsstring \<Rightarrow> jsstring \<Rightarrow> int \<Rightarrow> int option \<Rightarrow> liveParticipant \<Rightarrow> int option" where
  "expiry_step date_parse localParticipantID activeDocumentID now nextExpiry p =
     (if \<not> shown_participant localParticipantID p \<or> \<not> has_cursor activeDocumentID p then nextExpiry
      else (case date_parse (pt_lastSeenAt p) of
              None \<Rightarrow> nextExpiry
            | Some t \<Rightarrow>
                let expiresAt = t + liveRemoteCursorLabelDurationMs
                in if expiresAt \<le> now \<or> (case nextExpiry of None \<Rightarrow> False | Some n \<Rightarrow> expiresAt \<ge> n)
                   then nextExpiry else Some expiresAt))"

definition nextLiveRemoteCursorLabelExpiry ::
  "(jsstring \<Rightarrow> int option) \<Rightarrow> liveParticipant list \<Rightarrow> jsstring \<Rightarrow> jsstring \<Rightarrow> int \<Rightarrow> int option" where
  "nextLiveRemoteCursorLabelExpiry date_parse participants localParticipantID activeDocumentID now =
     foldl (expiry_step date_parse localParticipantID activeDocumentID now) None participants"

definition nextLiveMenuItemIndex :: "int \<Rightarrow> int \<Rightarrow> jsstring \<Rightarrow> int option" where
  "nextLiveMenuItemIndex currentIndex itemCount key =
     (if itemCount = 0 then None
      else if key = js ''Home'' then Some 0
      else if key = js ''End'' then Some (itemCount - 1)
      else if key = js ''ArrowDown'' then Some ((currentIndex + 1 + itemCount) mod itemCount)
      else if key = js ''ArrowUp'' then Some ((currentIndex - 1 + itemCount) mod itemCount)
      else None)"

section \<open>Tab names\<close>

lemma highest_index_bound:
  "m \<le> foldl (\<lambda>h name. case tab_index (trim name) of None \<Rightarrow> h | Some n \<Rightarrow> max h n) m names
   \<and> (\<forall>name \<in> set names. \<forall>n. tab_index (trim name) = Some n \<longrightarrow>
        n \<le> foldl (\<lambda>h name. case tab_index (trim name) of None \<Rightarrow> h | Some n \<Rightarrow> max h n) m names)"
proof (induction names arbitrary: m)
  case (Cons name names)
  show ?case
  proof (cases "tab_index (trim name)")
    case None
    with Cons [of m] show ?thesis by simp
  next
    case (Some n)
    with Cons [of "max m n"] show ?thesis by auto
  qed
qed simp

lemma highest_index_le: "name \<in> set names \<Longrightarrow> tab_index (trim name) = Some n \<Longrightarrow> n \<le> highest_index names"
  using highest_index_bound [of 0 names] by (simp add: highest_index_def)

lemma digit_not_dash: "is_digit u \<Longrightarrow> u \<noteq> 0x2D"
  by (auto simp: is_digit_def)

lemma tab_index_digits: "tab_index (js ''tab'' @ js (digits_of n)) = Some n"
proof -
  have digits: "js (digits_of n) \<noteq> []" "list_all is_digit (js (digits_of n))" "digits_value (js (digits_of n)) = n"
    using digits_of_facts [of n] by (auto simp: list_all_iff)
  then obtain u us where u: "js (digits_of n) = u # us" by (cases "js (digits_of n)") auto
  with digits(2) have "u \<noteq> 0x2D" using digit_not_dash by auto
  then show ?thesis
    using digits by (simp add: u tab_index_def js_def [of "''tab''"] same_letter_def)
qed

text \<open>
  A new tab never repeats a name: the proposed name differs from every existing tab's name, also
  when that name is written with other letter case, with a dash or with surrounding blanks, and its
  number is larger than the number of tabs.
\<close>
theorem next_tab_name_fresh:
  "(\<forall>name \<in> set names. tab_index (trim name) \<noteq> tab_index (nextLiveTabName names) \<and> trim name \<noteq> nextLiveTabName names)
   \<and> (\<exists>n. tab_index (nextLiveTabName names) = Some n \<and> length names < n)"
proof -
  let ?n = "max (length names + 1) (highest_index names + 1)"
  have next': "tab_index (nextLiveTabName names) = Some ?n"
    by (simp only: nextLiveTabName_def tab_index_digits)
  have "tab_index (trim name) \<noteq> Some ?n" if "name \<in> set names" for name
    using highest_index_le [OF that] by fastforce
  with next' show ?thesis by (metis less_add_one max.strict_coboundedI1)
qed

theorem next_tab_name_fresh_witness:
  "tab_index (trim (js '' Tab-7'')) \<noteq> tab_index (nextLiveTabName [js ''notes'', js '' Tab-7''])
   \<and> trim (js '' Tab-7'') \<noteq> nextLiveTabName [js ''notes'', js '' Tab-7'']"
  using next_tab_name_fresh [of "[js ''notes'', js '' Tab-7'']"] by simp

section \<open>Tab order\<close>

lemma filter_splice_in: "x \<notin> set xs \<Longrightarrow> filter (\<lambda>d. d \<noteq> x) (splice_in i x xs) = xs"
proof -
  assume "x \<notin> set xs"
  then have "filter (\<lambda>d. d \<noteq> x) (take i xs) = take i xs" "filter (\<lambda>d. d \<noteq> x) (drop i xs) = drop i xs"
    by (auto simp: filter_id_conv dest: in_set_takeD in_set_dropD)
  then show ?thesis by (simp add: splice_in_def)
qed

text \<open>The place of an element right before or after another in a list.\<close>

definition adjacent :: "liveTabDropPlacement \<Rightarrow> 'a \<Rightarrow> 'a \<Rightarrow> 'a list \<Rightarrow> bool" where
  "adjacent placement x y xs \<longleftrightarrow> (\<exists>us vs. xs = us @ (if placement = DropAfter then [y, x] else [x, y]) @ vs)"

lemma splice_adjacent:
  assumes "index_of y xs = Some i"
  shows "adjacent placement x y (splice_in (i + (if placement = DropAfter then 1 else 0)) x xs)"
proof -
  from index_of_SomeD [OF assms] have i: "i < length xs" "xs ! i = y" by auto
  then have drop: "drop i xs = y # drop (Suc i) xs" by (metis Cons_nth_drop_Suc)
  then show ?thesis
    unfolding adjacent_def splice_in_def using i
    by - (rule exI [of _ "take i xs"], rule exI [of _ "drop (Suc i) xs"], cases placement,
      simp_all add: take_Suc_conv_app_nth)
qed

text \<open>
  Dragging a tab moves that tab only: the other tabs keep their order, no tab is lost or
  duplicated, and the moved tab ends right before or right after the tab it was dropped on.
\<close>
theorem reorder_moves_one_tab:
  assumes "distinct ids" "source \<in> set ids" "target \<in> set ids" "source \<noteq> target"
  shows "set (reorderLiveTabIDs ids source target placement) = set ids
    \<and> distinct (reorderLiveTabIDs ids source target placement)
    \<and> filter (\<lambda>d. d \<noteq> source) (reorderLiveTabIDs ids source target placement) = filter (\<lambda>d. d \<noteq> source) ids
    \<and> adjacent placement source target (reorderLiveTabIDs ids source target placement)"
proof -
  let ?order = "filter (\<lambda>d. d \<noteq> source) ids"
  have "target \<in> set ?order" using assms by simp
  then obtain i where i: "index_of target ?order = Some i" by (metis index_of_None not_None_eq)
  then have eq: "reorderLiveTabIDs ids source target placement
      = splice_in (i + (if placement = DropAfter then 1 else 0)) source ?order"
    using assms by (simp add: reorderLiveTabIDs_def Let_def)
  show ?thesis
    unfolding eq using assms splice_adjacent [OF i] by (auto simp: filter_splice_in)
qed

theorem reorder_moves_one_tab_witness:
  "reorderLiveTabIDs [js ''a'', js ''b'', js ''c''] (js ''a'') (js ''c'') DropBefore = [js ''b'', js ''a'', js ''c'']
   \<and> adjacent DropBefore (js ''a'') (js ''c'') (reorderLiveTabIDs [js ''a'', js ''b'', js ''c''] (js ''a'') (js ''c'') DropBefore)"
  using reorder_moves_one_tab [of "[js ''a'', js ''b'', js ''c'']" "js ''a''" "js ''c''" DropBefore]
  by (simp add: reorderLiveTabIDs_def splice_in_def)

section \<open>Cursor labels\<close>

lemma has_cursor_iff: "has_cursor doc p \<longleftrightarrow> participant_cursors doc p \<noteq> []"
  by (auto simp: has_cursor_def participant_cursors_def list_ex_iff filter_empty_conv split: option.splits)

abbreviation "expiry_fold date_parse me doc now \<equiv> foldl (expiry_step date_parse me doc now)"

lemma expiry_fold_le:
  "n = Some e \<Longrightarrow> \<exists>e'. expiry_fold date_parse me doc now n ps = Some e' \<and> e' \<le> e"
proof (induction ps arbitrary: n e)
  case (Cons p ps)
  have "\<exists>e'. expiry_step date_parse me doc now n p = Some e' \<and> e' \<le> e"
    using Cons.prems by (auto simp: expiry_step_def Let_def split: option.splits)
  with Cons.IH show ?case by (metis foldl_Cons order_trans)
qed simp

lemma expiry_fold_covers:
  assumes "p \<in> set ps" "shown_participant me p" "has_cursor doc p" "date_parse (pt_lastSeenAt p) = Some t"
    and "now < t + liveRemoteCursorLabelDurationMs"
  shows "\<exists>e. expiry_fold date_parse me doc now n ps = Some e \<and> e \<le> t + liveRemoteCursorLabelDurationMs"
  using assms(1)
proof (induction ps arbitrary: n)
  case (Cons q ps)
  show ?case
  proof (cases "q = p")
    case True
    then have "\<exists>e. expiry_step date_parse me doc now n q = Some e \<and> e \<le> t + liveRemoteCursorLabelDurationMs"
      using assms by (auto simp: expiry_step_def Let_def split: option.splits)
    then show ?thesis using expiry_fold_le by (metis foldl_Cons order_trans)
  next
    case False
    with Cons show ?thesis by simp
  qed
qed simp

text \<open>
  The label timer is enough: between now and the expiry that \<open>nextLiveRemoteCursorLabelExpiry\<close>
  names (or for ever, when it names none) the rendered remote cursors do not change, so rendering
  again at that moment keeps every label right.
\<close>
theorem cursor_labels_stable:
  assumes "now \<le> t"
    and "case nextLiveRemoteCursorLabelExpiry date_parse ps me doc now of None \<Rightarrow> True | Some e \<Rightarrow> t < e"
  shows "liveRemoteCursors date_parse ps me doc t = liveRemoteCursors date_parse ps me doc now"
proof -
  have active: "label_active date_parse t p = label_active date_parse now p"
    if "p \<in> set ps" "shown_participant me p" "participant_cursors doc p \<noteq> []" for p
  proof (cases "date_parse (pt_lastSeenAt p)")
    case (Some s)
    show ?thesis
    proof (cases "now < s + liveRemoteCursorLabelDurationMs")
      case True
      with expiry_fold_covers [of p ps me doc date_parse s now None] that Some assms(2)
      have "t < s + liveRemoteCursorLabelDurationMs"
        by (auto simp: has_cursor_iff nextLiveRemoteCursorLabelExpiry_def)
      with True Some show ?thesis by (simp add: label_active_def)
    next
      case False
      with assms(1) Some show ?thesis by (simp add: label_active_def)
    qed
  qed (simp add: label_active_def)
  show ?thesis
    unfolding liveRemoteCursors_def
  proof (intro arg_cong [of _ _ concat] map_cong refl)
    fix p kc
    assume "p \<in> set (filter (shown_participant me) ps)" "kc \<in> set (participant_cursors doc p)"
    then have "label_active date_parse t p = label_active date_parse now p" by (intro active) auto
    then show "(case kc of (k, c) \<Rightarrow> \<lparr>rc_id = pt_id p @ js '':'' @ k, rc_nickname = pt_nickname p, rc_color = pt_color p,
          rc_revision = cu_revision c, rc_anchor = cu_anchor c, rc_head = cu_head c, rc_active = label_active date_parse t p\<rparr>)
        = (case kc of (k, c) \<Rightarrow> \<lparr>rc_id = pt_id p @ js '':'' @ k, rc_nickname = pt_nickname p, rc_color = pt_color p,
          rc_revision = cu_revision c, rc_anchor = cu_anchor c, rc_head = cu_head c, rc_active = label_active date_parse now p\<rparr>)"
      by simp
  qed
qed

theorem cursor_labels_stable_witness:
  "liveRemoteCursors (\<lambda>s. Some 0) [demo_participant] (js ''me'') (js ''d'') 5000
   = liveRemoteCursors (\<lambda>s. Some 0) [demo_participant] (js ''me'') (js ''d'') 3"
  by (rule cursor_labels_stable)
    (simp_all add: nextLiveRemoteCursorLabelExpiry_def expiry_step_def shown_participant_def has_cursor_def
      demo_participant_def liveRemoteCursorLabelDurationMs_def)

section \<open>Menus and sizes\<close>

lemma menu_index_in_range:
  "0 < count \<Longrightarrow> nextLiveMenuItemIndex i count key = Some j \<Longrightarrow> 0 \<le> j \<and> j < count"
  by (auto simp: nextLiveMenuItemIndex_def split: if_splits)

lemma menu_down_up:
  "0 \<le> i \<Longrightarrow> i < count \<Longrightarrow> nextLiveMenuItemIndex i count (js ''ArrowDown'') = Some j \<Longrightarrow>
    nextLiveMenuItemIndex j count (js ''ArrowUp'') = Some i"
proof -
  assume i: "0 \<le> i" "i < count" and j: "nextLiveMenuItemIndex i count (js ''ArrowDown'') = Some j"
  from i j have "j = (if i + 1 = count then 0 else i + 1)"
    by (auto simp: nextLiveMenuItemIndex_def)
  with i show ?thesis by (auto simp: nextLiveMenuItemIndex_def zmod_minus1)
qed

lemma aggregate_bytes_sum:
  "aggregateLiveRoomBytes ds f = sum_list (map (\<lambda>d. length (utf8_encode (f d))) ds)"
proof -
  have "foldl (\<lambda>total d. total + length (utf8_encode (f d))) n ds = n + sum_list (map (\<lambda>d. length (utf8_encode (f d))) ds)" for n
    by (induction ds arbitrary: n) auto
  then show ?thesis by (simp add: aggregateLiveRoomBytes_def)
qed

end
