(* ===== verification/Change_Sets.thy ===== *)
theory Change_Sets
  imports Json
begin

text \<open>
  Change sets. \<open>@codemirror/state\<close> is a package of its own and therefore an argument of the client's
  definitions: \<open>changeSetAPI\<close> lists the operations the client calls and the locale
  \<open>change_sets\<close> what it relies on. The repository's own implementation of the same format
  (\<open>internal/livecollab/changes.go\<close>) is modelled here and interprets the locale. Documents are
  sequences of UTF-16 code units on both sides.
\<close>

section \<open>The interface\<close>

text \<open>None: the call throws (wrong document length, malformed JSON).\<close>

record 'cs changeSetAPI =
  cs_empty :: "nat \<Rightarrow> 'cs"
  cs_of :: "nat \<Rightarrow> nat \<Rightarrow> jsstring \<Rightarrow> nat \<Rightarrow> 'cs"
  cs_apply :: "'cs \<Rightarrow> jsstring \<Rightarrow> jsstring option"
  cs_newLength :: "'cs \<Rightarrow> nat"
  cs_toJSON :: "'cs \<Rightarrow> jsval"
  cs_fromJSON :: "jsval \<Rightarrow> 'cs option"

locale change_sets =
  fixes api :: "'cs changeSetAPI"
  assumes apply_empty: "length doc = n \<Longrightarrow> cs_apply api (cs_empty api n) doc = Some doc"
    and apply_of: "from \<le> to \<Longrightarrow> to \<le> length doc \<Longrightarrow>
      cs_apply api (cs_of api from to ins (length doc)) doc = Some (take from doc @ ins @ drop to doc)"
    and apply_length: "cs_apply api cs doc = Some doc' \<Longrightarrow> length doc' = cs_newLength api cs"
begin

lemma apply_empty_after: "cs_apply api cs doc = Some doc' \<Longrightarrow> cs_apply api (cs_empty api (cs_newLength api cs)) doc' = Some doc'"
  by (rule apply_empty) (rule apply_length)

text \<open>Padding with empty change sets leaves the document as the first change set made it.\<close>

lemma apply_padded:
  "cs_apply api cs doc = Some doc' \<Longrightarrow>
    foldl (\<lambda>d c. Option.bind d (cs_apply api c)) (Some doc) (cs # replicate n (cs_empty api (cs_newLength api cs))) = Some doc'"
proof -
  assume app: "cs_apply api cs doc = Some doc'"
  have "foldl (\<lambda>d c. Option.bind d (cs_apply api c)) (Some doc') (replicate n (cs_empty api (cs_newLength api cs))) = Some doc'"
    by (induction n) (simp_all add: apply_empty_after [OF app])
  with app show ?thesis by simp
qed

end

section \<open>Sections\<close>

text \<open>\<open>NewLen\<close> is \<open>-1\<close> for an unchanged section.\<close>

record changeSection =
  sec_OldLen :: int
  sec_NewLen :: int
  sec_Insert :: jsstring

type_synonym changeSet = "changeSection list"

definition section_changed :: "changeSection \<Rightarrow> bool" where
  "section_changed s \<longleftrightarrow> 0 \<le> sec_NewLen s"

definition set_OldLen :: "changeSet \<Rightarrow> int" where
  "set_OldLen cs = sum_list (map sec_OldLen cs)"

definition set_NewLen :: "changeSet \<Rightarrow> int" where
  "set_NewLen cs = sum_list (map (\<lambda>s. if section_changed s then sec_NewLen s else sec_OldLen s) cs)"

definition validSections :: "changeSet \<Rightarrow> bool" where
  "validSections cs \<longleftrightarrow> list_all (\<lambda>s. 0 \<le> sec_OldLen s \<and> -1 \<le> sec_NewLen s
     \<and> (\<not> section_changed s \<longrightarrow> sec_Insert s = []) \<and> (section_changed s \<longrightarrow> sec_NewLen s = int (length (sec_Insert s)))) cs"

text \<open>\<open>ValidateForDocument\<close>\<close>

definition validateForDocument :: "changeSet \<Rightarrow> jsstring \<Rightarrow> bool" where
  "validateForDocument cs doc \<longleftrightarrow> set_OldLen cs = int (length doc) \<and> validSections cs"

text \<open>The loop of \<open>Apply\<close>: the input from the current position and the sections that are left.\<close>

fun apply_sections :: "changeSet \<Rightarrow> jsstring \<Rightarrow> jsstring option" where
  "apply_sections [] rest = (if rest = [] then Some [] else None)"
| "apply_sections (s # cs) rest =
     (if int (length rest) < sec_OldLen s then None
      else map_option (append (if section_changed s then sec_Insert s else take (nat (sec_OldLen s)) rest))
             (apply_sections cs (drop (nat (sec_OldLen s)) rest)))"

definition set_Apply :: "changeSet \<Rightarrow> jsstring \<Rightarrow> jsstring option" where
  "set_Apply cs doc = (if set_OldLen cs \<noteq> int (length doc) then None else apply_sections cs doc)"

definition addSection :: "int \<Rightarrow> int \<Rightarrow> jsstring \<Rightarrow> bool \<Rightarrow> changeSet \<Rightarrow> changeSet" where
  "addSection oldLength newLength ins forceJoin cs =
     (if oldLength = 0 \<and> newLength \<le> 0 then cs
      else if cs \<noteq> [] \<and> newLength \<le> 0 \<and> newLength = sec_NewLen (last cs)
        then butlast cs @ [(last cs)\<lparr>sec_OldLen := sec_OldLen (last cs) + oldLength\<rparr>]
      else if cs \<noteq> [] \<and> oldLength = 0 \<and> sec_OldLen (last cs) = 0
        then butlast cs @ [(last cs)\<lparr>sec_NewLen := sec_NewLen (last cs) + newLength,
               sec_Insert := sec_Insert (last cs) @ ins\<rparr>]
      else if forceJoin \<and> cs \<noteq> []
        then butlast cs @ [(last cs)\<lparr>sec_OldLen := sec_OldLen (last cs) + oldLength,
               sec_NewLen := sec_NewLen (last cs) + newLength, sec_Insert := sec_Insert (last cs) @ ins\<rparr>]
      else cs @ [\<lparr>sec_OldLen = oldLength, sec_NewLen = newLength, sec_Insert = ins\<rparr>])"

definition set_MapPos_step :: "int \<Rightarrow> int \<Rightarrow> changeSection \<Rightarrow> int \<Rightarrow> int \<Rightarrow> int + int \<times> int" where
  "set_MapPos_step position assoc s positionA positionB =
     (let endA = positionA + sec_OldLen s
      in if \<not> section_changed s then
           (if endA > position then Inl (positionB + position - positionA)
            else Inr (endA, positionB + sec_OldLen s))
         else if endA > position \<or> endA = position \<and> assoc < 0 \<and> sec_OldLen s = 0 then
           Inl (if position = positionA \<or> assoc < 0 then positionB else positionB + sec_NewLen s)
         else Inr (endA, positionB + sec_NewLen s))"

fun set_MapPos_loop :: "int \<Rightarrow> int \<Rightarrow> changeSet \<Rightarrow> int \<Rightarrow> int \<Rightarrow> int" where
  "set_MapPos_loop position assoc [] positionA positionB = positionB"
| "set_MapPos_loop position assoc (s # cs) positionA positionB =
     (case set_MapPos_step position assoc s positionA positionB of
        Inl p \<Rightarrow> p
      | Inr (a, b) \<Rightarrow> set_MapPos_loop position assoc cs a b)"

definition set_MapPos :: "int \<Rightarrow> int \<Rightarrow> changeSet \<Rightarrow> int option" where
  "set_MapPos position assoc cs =
     (if position < 0 \<or> position > set_OldLen cs then None else Some (set_MapPos_loop position assoc cs 0 0))"

section \<open>JSON\<close>

text \<open>
  \<open>ParseChangeSetJSON\<close>: a number keeps that many units, \<open>[n]\<close> deletes \<open>n\<close>, \<open>[n, line, ...]\<close>
  replaces \<open>n\<close> units by the lines. \<open>toJSON\<close> is its inverse on the format.
\<close>

definition parse_section :: "jsval \<Rightarrow> changeSection list option" where
  "parse_section v = (case v of
     JArr (n # ls) \<Rightarrow>
       (case nonneg_integer n of
          None \<Rightarrow> None
        | Some old \<Rightarrow>
            if list_all is_string ls
            then let ins = join_with [10] (map the_string ls)
                 in Some [\<lparr>sec_OldLen = old, sec_NewLen = int (length ins), sec_Insert = ins\<rparr>]
            else None)
   | JArr [] \<Rightarrow> None
   | _ \<Rightarrow> (case nonneg_integer v of
             None \<Rightarrow> None
           | Some n \<Rightarrow> Some (if 0 < n then [\<lparr>sec_OldLen = n, sec_NewLen = -1, sec_Insert = []\<rparr>] else [])))"

definition parseChangeSet :: "jsval \<Rightarrow> changeSet option" where
  "parseChangeSet v = (case v of
     JArr parts \<Rightarrow> map_option concat (all_Some (map parse_section parts))
   | _ \<Rightarrow> None)"

fun split_lines :: "jsstring \<Rightarrow> jsstring list" where
  "split_lines [] = [[]]"
| "split_lines (u # us) =
     (if u = 10 then [] # split_lines us
      else (case split_lines us of l # ls \<Rightarrow> (u # l) # ls | [] \<Rightarrow> [[u]]))"

definition section_json :: "changeSection \<Rightarrow> jsval" where
  "section_json s =
     (if section_changed s then
        JArr (JInt (sec_OldLen s) # (if sec_Insert s = [] then [] else map JStr (split_lines (sec_Insert s))))
      else JInt (sec_OldLen s))"

definition changeSet_json :: "changeSet \<Rightarrow> jsval" where
  "changeSet_json cs = JArr (map section_json cs)"

section \<open>Facts\<close>

lemma set_OldLen_simps [simp]: "set_OldLen [] = 0" "set_OldLen (s # cs) = sec_OldLen s + set_OldLen cs"
  "set_OldLen (a @ b) = set_OldLen a + set_OldLen b"
  by (simp_all add: set_OldLen_def)

lemma validSections_simps [simp]: "validSections []" "validSections (a @ b) \<longleftrightarrow> validSections a \<and> validSections b"
  by (simp_all add: validSections_def)

lemma set_OldLen_nonneg: "validSections cs \<Longrightarrow> 0 \<le> set_OldLen cs"
  by (induction cs) (auto simp: validSections_def)

lemma apply_sections_total:
  "validSections cs \<Longrightarrow> set_OldLen cs = int (length doc) \<Longrightarrow>
    \<exists>r. apply_sections cs doc = Some r \<and> int (length r) = set_NewLen cs"
proof (induction cs arbitrary: doc)
  case Nil
  then show ?case by (simp add: set_NewLen_def)
next
  case (Cons s cs)
  have v: "validSections cs" "0 \<le> sec_OldLen s" using Cons.prems(1) by (simp_all add: validSections_def)
  have rest: "set_OldLen cs = int (length (drop (nat (sec_OldLen s)) doc))"
    using Cons.prems(2) v set_OldLen_nonneg [OF v(1)] by auto
  obtain r where r: "apply_sections cs (drop (nat (sec_OldLen s)) doc) = Some r" "int (length r) = set_NewLen cs"
    using Cons.IH [OF v(1) rest] by blast
  have len: "sec_OldLen s \<le> int (length doc)"
    using Cons.prems(2) set_OldLen_nonneg [OF v(1)] by simp
  show ?case
    using r len v Cons.prems(1) by (auto simp: set_NewLen_def validSections_def)
qed

section \<open>The repository's change sets interpret the interface\<close>

definition livecollab_of :: "nat \<Rightarrow> nat \<Rightarrow> jsstring \<Rightarrow> nat \<Rightarrow> changeSet" where
  "livecollab_of start stop ins n =
     addSection (int n - int stop) (-1) [] False
       (addSection (int stop - int start) (int (length ins)) ins False
         (addSection (int start) (-1) [] False []))"

definition livecollab :: "changeSet changeSetAPI" where
  "livecollab = \<lparr>cs_empty = (\<lambda>n. addSection (int n) (-1) [] False []), cs_of = livecollab_of,
     cs_apply = (\<lambda>cs doc. if validateForDocument cs doc then set_Apply cs doc else None),
     cs_newLength = (\<lambda>cs. nat (set_NewLen cs)), cs_toJSON = changeSet_json, cs_fromJSON = parseChangeSet\<rparr>"

lemma livecollab_of_apply:
  assumes "start \<le> stop" "stop \<le> length doc"
  shows "validateForDocument (livecollab_of start stop ins (length doc)) doc
    \<and> set_Apply (livecollab_of start stop ins (length doc)) doc = Some (take start doc @ ins @ drop stop doc)"
  using assms
  by (cases "start = 0"; cases "stop = start"; cases "ins = []"; cases "stop = length doc")
    (auto simp: livecollab_of_def addSection_def validateForDocument_def set_Apply_def validSections_def
      section_changed_def drop_take nat_diff_distrib' take_add [symmetric])

interpretation livecollab: change_sets livecollab
proof
  fix doc :: jsstring and n
  assume "length doc = n"
  then show "cs_apply livecollab (cs_empty livecollab n) doc = Some doc"
    by (auto simp: livecollab_def addSection_def validateForDocument_def set_Apply_def validSections_def
        section_changed_def)
next
  fix "from" "to" :: nat and doc ins :: jsstring
  assume "from \<le> to" "to \<le> length doc"
  from livecollab_of_apply [OF this, of ins]
  show "cs_apply livecollab (cs_of livecollab from to ins (length doc)) doc = Some (take from doc @ ins @ drop to doc)"
    by (simp add: livecollab_def)
next
  fix cs doc doc'
  assume "cs_apply livecollab cs doc = Some doc'"
  then have "validSections cs" "set_OldLen cs = int (length doc)" "apply_sections cs doc = Some doc'"
    by (auto simp: livecollab_def validateForDocument_def set_Apply_def split: if_splits)
  with apply_sections_total [of cs doc] show "length doc' = cs_newLength livecollab cs"
    by (simp add: livecollab_def)
qed

section \<open>The JSON form reads back\<close>

lemma split_lines_not_Nil: "split_lines s \<noteq> []"
  by (induction s) (auto split: list.splits)

lemma join_with_Cons: "xs \<noteq> [] \<Longrightarrow> join_with sep (x # xs) = x @ sep @ join_with sep xs"
  by (cases xs) simp_all

lemma join_split_lines: "join_with [10] (split_lines s) = s"
proof (induction s)
  case (Cons u us)
  obtain l ls where ls: "split_lines us = l # ls" using split_lines_not_Nil by (cases "split_lines us") auto
  have "join_with [10] ((u # l) # ls) = u # join_with [10] (l # ls)" by (cases ls) simp_all
  with Cons ls show ?case by (simp add: join_with_Cons)
qed simp

definition section_normal :: "changeSection \<Rightarrow> bool" where
  "section_normal s \<longleftrightarrow> safe_nat (sec_OldLen s)
     \<and> (if section_changed s then sec_NewLen s = int (length (sec_Insert s))
        else sec_NewLen s = -1 \<and> sec_Insert s = [] \<and> 0 < sec_OldLen s)"

lemma parse_section_json: "section_normal s \<Longrightarrow> parse_section (section_json s) = Some [s]"
  by (cases s)
    (auto simp: section_normal_def section_json_def parse_section_def section_changed_def Let_def comp_def
      join_split_lines list_all_iff split: if_splits)

lemma changeSet_json_round_trip:
  "list_all section_normal cs \<Longrightarrow> parseChangeSet (changeSet_json cs) = Some cs"
proof -
  assume ok: "list_all section_normal cs"
  have "all_Some (map parse_section (map section_json cs)) = Some (map (\<lambda>s. [s]) cs)"
    using ok by (induction cs) (auto simp: parse_section_json)
  then show ?thesis by (simp add: parseChangeSet_def changeSet_json_def)
qed

end
