(* ===== verification/Live_Collab.thy ===== *)
theory Live_Collab
  imports Change_Sets Live_Wire
begin

text \<open>
  The bridge between editor states and the wire (\<open>web/src/live-collab.ts\<close>). The packages
  \<open>@codemirror/state\<close> and \<open>@codemirror/collab\<close> are arguments: change sets through
  \<open>changeSetAPI\<close>, editor states through \<open>collabAPI\<close>.
\<close>

section \<open>Types\<close>

record 'cs liveUpdate =
  up_changes :: 'cs
  up_clientID :: jsstring

text \<open>\<open>rebaseUpdates\<close> gives None when it throws.\<close>

record ('st, 'cs) collabAPI =
  co_sendableUpdates :: "'st \<Rightarrow> 'cs liveUpdate list"
  co_getSyncedVersion :: "'st \<Rightarrow> int"
  co_rebaseUpdates :: "'cs liveUpdate list \<Rightarrow> 'cs liveUpdate list \<Rightarrow> 'cs liveUpdate list option"

record 'cs liveOutboundUpdate =
  ou_baseVersion :: int
  ou_update :: "'cs liveUpdate"

record liveQueueLimits =
  ql_maxUpdates :: nat
  ql_maxBytes :: nat

definition liveQueueLimits_default :: liveQueueLimits where
  "liveQueueLimits_default = \<lparr>ql_maxUpdates = 64, ql_maxBytes = 48 * 1024\<rparr>"

record liveQueueState =
  qs_updates :: nat
  qs_bytes :: nat
  qs_full :: bool

section \<open>Outbound queue\<close>

definition nextLiveOutboundUpdate :: "('st, 'cs) collabAPI \<Rightarrow> 'st \<Rightarrow> 'cs liveOutboundUpdate option" where
  "nextLiveOutboundUpdate co state =
     (case co_sendableUpdates co state of
        [] \<Rightarrow> None
      | update # rest \<Rightarrow> Some \<lparr>ou_baseVersion = co_getSyncedVersion co state, ou_update = update\<rparr>)"

text \<open>The size of an update's wire JSON in bytes.\<close>

definition update_bytes :: "'cs changeSetAPI \<Rightarrow> 'cs liveUpdate \<Rightarrow> nat" where
  "update_bytes cs update = length (utf8_encode (case json_stringify (cs_toJSON cs (up_changes update)) of
     None \<Rightarrow> [] | Some t \<Rightarrow> t))"

definition liveQueueState ::
  "'cs changeSetAPI \<Rightarrow> ('st, 'cs) collabAPI \<Rightarrow> liveQueueLimits \<Rightarrow> 'st list \<Rightarrow> liveQueueState" where
  "liveQueueState cs co limits states =
     (let (updates, bytes) =
        foldl (\<lambda>(n, b) state.
            foldl (\<lambda>(n, b) update. (Suc n, b + update_bytes cs update)) (n, b) (co_sendableUpdates co state))
          (0, 0) states
      in \<lparr>qs_updates = updates, qs_bytes = bytes,
          qs_full = (updates > ql_maxUpdates limits \<or> bytes > ql_maxBytes limits)\<rparr>)"

definition operationAlphabet :: string where
  "operationAlphabet = ''0123456789abcdefghijklmnopqrstuvwxyz''"

text \<open>\<open>bytes\<close> are the sixteen random bytes.\<close>

definition randomLiveID :: "8 word list \<Rightarrow> jsstring \<Rightarrow> jsstring" where
  "randomLiveID bytes prefix =
     foldl (\<lambda>value b. value @ js [operationAlphabet ! (unat b mod length operationAlphabet)]) prefix bytes"

section \<open>Snapshots as changes\<close>

text \<open>\<open>Text.of(content.split("\n"))\<close> and \<open>toString\<close> only change the representation of the document.\<close>

definition applyLiveChanges :: "'cs changeSetAPI \<Rightarrow> jsstring \<Rightarrow> 'cs \<Rightarrow> jsstring option" where
  "applyLiveChanges cs content changes = cs_apply cs changes content"

function common_prefix :: "jsstring \<Rightarrow> jsstring \<Rightarrow> nat \<Rightarrow> nat" where
  "common_prefix before after prefix =
     (if prefix < min (length before) (length after) \<and> before ! prefix = after ! prefix
      then common_prefix before after (prefix + 1) else prefix)"
  by auto
termination by (relation "measure (\<lambda>(before, after, prefix). length before - prefix)") auto

function common_suffix :: "jsstring \<Rightarrow> jsstring \<Rightarrow> nat \<Rightarrow> nat \<Rightarrow> nat" where
  "common_suffix before after prefix suffix =
     (if suffix < length before - prefix \<and> suffix < length after - prefix
         \<and> before ! (length before - suffix - 1) = after ! (length after - suffix - 1)
      then common_suffix before after prefix (suffix + 1) else suffix)"
  by auto
termination by (relation "measure (\<lambda>(before, after, prefix, suffix). length before - suffix)") auto

declare common_prefix.simps [simp del] common_suffix.simps [simp del]

definition diffLiveDocuments :: "'cs changeSetAPI \<Rightarrow> jsstring \<Rightarrow> jsstring \<Rightarrow> 'cs" where
  "diffLiveDocuments cs before after =
     (if before = after then cs_empty cs (length before)
      else
        let prefix = common_prefix before after 0;
            suffix = common_suffix before after prefix 0
        in cs_of cs prefix (length before - suffix) (drop prefix (take (length after - suffix) after)) (length before))"

text \<open>None: \<open>undefined\<close>, when applying or rebasing throws.\<close>

definition rebaseAfterAcceptedSnapshot ::
  "'cs changeSetAPI \<Rightarrow> ('st, 'cs) collabAPI \<Rightarrow> jsstring \<Rightarrow> jsstring \<Rightarrow> 'cs liveUpdate list
   \<Rightarrow> 'cs liveUpdate list option" where
  "rebaseAfterAcceptedSnapshot cs co syncedContent snapshotContent pending =
     (case pending of
        [] \<Rightarrow> Some []
      | accepted # rest \<Rightarrow>
          (case applyLiveChanges cs syncedContent (up_changes accepted) of
             None \<Rightarrow> None
           | Some afterAccepted \<Rightarrow>
               co_rebaseUpdates co rest
                 [\<lparr>up_changes = diffLiveDocuments cs afterAccepted snapshotContent, up_clientID = js ''http-snapshot''\<rparr>]))"

definition liveSnapshotUpdates :: "'cs changeSetAPI \<Rightarrow> 'cs \<Rightarrow> int \<Rightarrow> int \<Rightarrow> 'cs liveUpdate list" where
  "liveSnapshotUpdates cs changes revision currentRevision =
     (let count = revision - currentRevision
      in if count \<le> 0 then []
         else \<lparr>up_changes = changes, up_clientID = js ''snapshot-resync''\<rparr>
              # map (\<lambda>i. \<lparr>up_changes = cs_empty cs (cs_newLength cs changes),
                          up_clientID = js ''snapshot-resync-'' @ int_str (int i)\<rparr>) [1..<nat count])"

definition normalizeLiveDocuments :: "liveRoomDocument list \<Rightarrow> liveRoomDocument list" where
  "normalizeLiveDocuments documents = sort_key doc_position documents"

datatype exportMode = CurrentTab | EveryTab

record pasteExport =
  pe_title :: jsstring
  pe_language :: jsstring
  pe_content :: jsstring

definition livePasteExport :: "liveRoomDocument list \<Rightarrow> jsstring \<Rightarrow> exportMode \<Rightarrow> pasteExport" where
  "livePasteExport documents activeDocumentID mode =
     (case (case List.find (\<lambda>d. doc_id d = activeDocumentID) documents of
              Some d \<Rightarrow> Some d
            | None \<Rightarrow> (case documents of [] \<Rightarrow> None | d # ds \<Rightarrow> Some d)) of
        None \<Rightarrow> \<lparr>pe_title = [], pe_language = js ''plaintext'', pe_content = []\<rparr>
      | Some active \<Rightarrow>
          (case mode of
             CurrentTab \<Rightarrow> \<lparr>pe_title = doc_name active, pe_language = doc_language active, pe_content = doc_content active\<rparr>
           | EveryTab \<Rightarrow> \<lparr>pe_title = js ''Live room'', pe_language = js ''plaintext'',
               pe_content = join_with [10, 10]
                 (map (\<lambda>d. js ''--- '' @ doc_name d @ js '' ---'' @ [10, 10] @ doc_content d) documents)\<rparr>))"

section \<open>The diff\<close>

lemma common_prefix_spec:
  "k \<le> min (length before) (length after) \<Longrightarrow> take k before = take k after \<Longrightarrow>
    k \<le> common_prefix before after k \<and> common_prefix before after k \<le> min (length before) (length after)
    \<and> take (common_prefix before after k) before = take (common_prefix before after k) after"
proof (induction before after k rule: common_prefix.induct)
  case (1 before after k)
  show ?case
  proof (cases "k < min (length before) (length after) \<and> before ! k = after ! k")
    case True
    then have "take (k + 1) before = take (k + 1) after"
      using 1(3) by (simp add: take_Suc_conv_app_nth)
    with 1(1) [OF True] True show ?thesis by (simp add: common_prefix.simps [of before after k])
  next
    case False
    then have "common_prefix before after k = k" by (subst common_prefix.simps) auto
    with 1(2,3) show ?thesis by simp
  qed
qed

lemma drop_last_Suc:
  "k < length s \<Longrightarrow> drop (length s - Suc k) s = s ! (length s - k - 1) # drop (length s - k) s"
  using Cons_nth_drop_Suc [of "length s - Suc k" s] by (simp add: Suc_diff_Suc)

lemma common_suffix_spec:
  "k \<le> length before - p \<Longrightarrow> k \<le> length after - p \<Longrightarrow>
    drop (length before - k) before = drop (length after - k) after \<Longrightarrow>
    common_suffix before after p k \<le> length before - p \<and> common_suffix before after p k \<le> length after - p
    \<and> drop (length before - common_suffix before after p k) before = drop (length after - common_suffix before after p k) after"
proof (induction before after p k rule: common_suffix.induct)
  case (1 before after p k)
  let ?c = "k < length before - p \<and> k < length after - p
      \<and> before ! (length before - k - 1) = after ! (length after - k - 1)"
  show ?case
  proof (cases ?c)
    case True
    then have "k < length before" "k < length after" by linarith+
    with True have "drop (length before - (k + 1)) before = drop (length after - (k + 1)) after"
      using 1(4) drop_last_Suc [of k before] drop_last_Suc [of k after] by simp
    moreover have "common_suffix before after p k = common_suffix before after p (k + 1)"
      by (subst common_suffix.simps) (simp only: True if_True simp_thms)
    ultimately show ?thesis using 1(1) [OF True] True by simp
  next
    case False
    have "common_suffix before after p k = k" by (subst common_suffix.simps) (simp only: False if_False)
    with 1(2-4) show ?thesis by simp
  qed
qed

context change_sets
begin

lemma diff_applies: "cs_apply api (diffLiveDocuments api before after) before = Some after"
proof (cases "before = after")
  case True
  then show ?thesis by (simp add: diffLiveDocuments_def apply_empty)
next
  case False
  define p where "p = common_prefix before after 0"
  define s where "s = common_suffix before after p 0"
  have p: "p \<le> length before" "p \<le> length after" "take p before = take p after"
    using common_prefix_spec [of 0 before after] by (simp_all add: p_def)
  have s: "s \<le> length before - p" "s \<le> length after - p"
    "drop (length before - s) before = drop (length after - s) after"
    using common_suffix_spec [of 0 before p after] by (simp_all add: s_def)
  have "cs_apply api (cs_of api p (length before - s) (drop p (take (length after - s) after)) (length before)) before
      = Some (take p before @ drop p (take (length after - s) after) @ drop (length before - s) before)"
    using p s by (intro apply_of) simp_all
  also have "take p before @ drop p (take (length after - s) after) @ drop (length before - s) before = after"
  proof -
    have "take p after @ drop p (take (length after - s) after) = take (length after - s) after"
      using append_take_drop_id [of p "take (length after - s) after"] min_absorb1 [of p "length after - s"] s(2) p(2)
      by (simp add: le_diff_conv2)
    then show ?thesis by (simp add: p(3) s(3) append_assoc [symmetric] del: append_assoc)
  qed
  finally show ?thesis
    using False by (simp add: diffLiveDocuments_def Let_def p_def s_def)
qed

lemma snapshot_updates_apply:
  assumes "currentRevision < revision"
  shows "length (liveSnapshotUpdates api (diffLiveDocuments api before after) revision currentRevision)
      = nat (revision - currentRevision)"
    and "foldl (\<lambda>d u. Option.bind d (cs_apply api (up_changes u))) (Some before)
      (liveSnapshotUpdates api (diffLiveDocuments api before after) revision currentRevision) = Some after"
proof -
  let ?d = "diffLiveDocuments api before after" and ?n = "nat (revision - currentRevision)"
  have n: "1 \<le> ?n" using assms by simp
  then show "length (liveSnapshotUpdates api ?d revision currentRevision) = ?n"
    by (simp add: liveSnapshotUpdates_def Let_def)
  have changes: "map up_changes (liveSnapshotUpdates api ?d revision currentRevision)
      = ?d # replicate (?n - 1) (cs_empty api (cs_newLength api ?d))"
    using n by (simp add: liveSnapshotUpdates_def Let_def comp_def map_replicate_const)
  have folds: "foldl (\<lambda>d u. Option.bind d (cs_apply api (up_changes u))) (Some before) us
      = foldl (\<lambda>d c. Option.bind d (cs_apply api c)) (Some before) (map up_changes us)" for us
    by (simp add: foldl_map)
  show "foldl (\<lambda>d u. Option.bind d (cs_apply api (up_changes u))) (Some before)
      (liveSnapshotUpdates api ?d revision currentRevision) = Some after"
    unfolding folds changes by (rule apply_padded [OF diff_applies])
qed

end

section \<open>Properties\<close>




definition demo_collab :: "(nat, changeSet) collabAPI" where
  "demo_collab = \<lparr>co_sendableUpdates = (\<lambda>s. []), co_getSyncedVersion = int, co_rebaseUpdates = (\<lambda>us over. Some us)\<rparr>"

definition demo_update :: "nat \<Rightarrow> nat \<Rightarrow> string \<Rightarrow> nat \<Rightarrow> changeSet liveUpdate" where
  "demo_update start stop ins n = \<lparr>up_changes = livecollab_of start stop (js ins) n, up_clientID = js ''c''\<rparr>"


section \<open>Queue, identifiers, order\<close>

lemma queue_fold_update:
  "foldl (\<lambda>(n, b) update. (Suc n, b + update_bytes cs update)) (n, b) us
   = (n + length us, b + sum_list (map (update_bytes cs) us))"
  by (induction us arbitrary: n b) auto

lemma queue_fold:
  "foldl (\<lambda>(n, b) state. foldl (\<lambda>(n, b) update. (Suc n, b + update_bytes cs update)) (n, b) (co_sendableUpdates co state)) (n, b) states
   = (n + length (concat (map (co_sendableUpdates co) states)),
      b + sum_list (map (update_bytes cs) (concat (map (co_sendableUpdates co) states))))"
  by (induction states arbitrary: n b) (auto simp: queue_fold_update)

text \<open>
  The queue is measured over the whole room: the nested loops over documents and their pending
  updates compute the number and the bytes of all pending updates together, whatever way they are
  spread over the documents, and the room is full exactly when one of the totals exceeds its limit.
\<close>
theorem liveQueueState_total:
  "liveQueueState cs co limits states =
    (let us = concat (map (co_sendableUpdates co) states); n = length us; b = sum_list (map (update_bytes cs) us)
     in \<lparr>qs_updates = n, qs_bytes = b, qs_full = (n > ql_maxUpdates limits \<or> b > ql_maxBytes limits)\<rparr>)"
  by (simp add: liveQueueState_def Let_def queue_fold)

lemma randomLiveID_shape:
  "randomLiveID bytes prefix = prefix @ js (map (\<lambda>b. operationAlphabet ! (unat b mod 36)) bytes)"
  by (induction bytes arbitrary: prefix) (simp_all add: randomLiveID_def operationAlphabet_def js_def)

lemma normalizeLiveDocuments_facts:
  "sorted (map doc_position (normalizeLiveDocuments ds))" "set (normalizeLiveDocuments ds) = set ds"
  "length (normalizeLiveDocuments ds) = length ds"
  by (simp_all add: normalizeLiveDocuments_def)

end
