(* ===== verification/Live_Identity.thy ===== *)
theory Live_Identity
  imports Live_Collab
begin

text \<open>
  The identity a browser keeps for a live room (\<open>web/src/live-identity.ts\<close>). \<open>createCredential\<close>
  draws from a source of randomness that is passed along; the storage is None where the browser
  has none. A lock request runs its callback alone, or is rejected.
\<close>

definition liveIdentityVersion :: int where "liveIdentityVersion = 1"

definition liveIdentityStoragePrefix :: jsstring where
  "liveIdentityStoragePrefix = js ''0xbin.live.identity.v1:''"

record liveBrowserIdentity =
  bi_credential :: jsstring
  bi_nickname :: "jsstring option"

datatype identityLock = NoLocks | LockGranted | LockRejected

definition liveIdentityStorageKey :: "jsstring \<Rightarrow> jsstring" where
  "liveIdentityStorageKey slug = liveIdentityStoragePrefix @ slug"

definition opaque_unit :: "16 word \<Rightarrow> bool" where
  "opaque_unit u \<longleftrightarrow> 65 \<le> unat u \<and> unat u \<le> 90 \<or> 97 \<le> unat u \<and> unat u \<le> 122
     \<or> 48 \<le> unat u \<and> unat u \<le> 57 \<or> unat u = 95 \<or> unat u = 45"

definition validOpaqueIdentifier :: "jsval \<Rightarrow> bool" where
  "validOpaqueIdentifier value \<longleftrightarrow> is_string value \<and> length (the_string value) > 0
     \<and> length (the_string value) \<le> 128 \<and> list_all opaque_unit (the_string value)"

definition validNickname :: "jsval \<Rightarrow> bool" where
  "validNickname value \<longleftrightarrow> is_string value \<and> length (the_string value) > 0
     \<and> the_string value = trim (the_string value) \<and> length (utf8_encode (the_string value)) \<le> 32
     \<and> \<not> list_ex (\<lambda>u. unat u \<le> 0x1F \<or> unat u = 0x7F) (the_string value)"

text \<open>
  \<open>Inl\<close>: \<open>getItem\<close> throws. A text that is no JSON, or a value with no properties, gives \<open>undefined\<close>.
\<close>

definition readIdentity :: "browserStorage \<Rightarrow> jsstring \<Rightarrow> (unit, liveBrowserIdentity option) result" where
  "readIdentity storage key = bind_result (getItem storage key) (\<lambda>raw.
     if raw = None \<or> raw = Some [] then Inr None
     else (case json_parse (the raw) of
         None \<Rightarrow> Inr None
       | Some value \<Rightarrow>
           if prop_of value (js ''version'') \<noteq> JInt liveIdentityVersion
              \<or> \<not> validOpaqueIdentifier (prop_of value (js ''credential'')) then Inr None
           else Inr (Some \<lparr>bi_credential = the_string (prop_of value (js ''credential'')),
             bi_nickname = (if validNickname (prop_of value (js ''nickname''))
               then Some (the_string (prop_of value (js ''nickname''))) else None)\<rparr>)))"

definition identity_json :: "liveBrowserIdentity \<Rightarrow> jsval" where
  "identity_json identity = JObj
     ([(js ''version'', JInt liveIdentityVersion), (js ''credential'', JStr (bi_credential identity))]
      @ (case bi_nickname identity of None \<Rightarrow> [] | Some n \<Rightarrow> [(js ''nickname'', JStr n)]))"

definition identity_text :: "liveBrowserIdentity \<Rightarrow> jsstring" where
  "identity_text identity = (case json_stringify (identity_json identity) of None \<Rightarrow> [] | Some t \<Rightarrow> t)"

definition identity_fallback :: "('g \<Rightarrow> jsstring \<times> 'g) \<Rightarrow> 'g \<Rightarrow> liveBrowserIdentity \<times> 'g" where
  "identity_fallback createCredential g =
     (let (credential, g') = createCredential g in (\<lparr>bi_credential = credential, bi_nickname = None\<rparr>, g'))"

text \<open>
  The callback of the lock. When it throws, what it drew and what it wrote before stays; the
  storage throws in \<open>readIdentity\<close> before anything is written, in \<open>setItem\<close> with nothing written,
  or in the second \<open>readIdentity\<close>.
\<close>

definition resolveStored :: "('g \<Rightarrow> jsstring \<times> 'g) \<Rightarrow> jsstring \<Rightarrow> browserStorage \<Rightarrow> 'g
    \<Rightarrow> (unit, liveBrowserIdentity) result \<times> browserStorage \<times> 'g" where
  "resolveStored createCredential key storage g =
     (case readIdentity storage key of
        Inl e \<Rightarrow> (Inl (), storage, g)
      | Inr (Some existing) \<Rightarrow> (Inr existing, storage, g)
      | Inr None \<Rightarrow>
          (let (created, g') = identity_fallback createCredential g
           in case setItem key (identity_text created) storage of
                Inl e \<Rightarrow> (Inl (), storage, g')
              | Inr storage' \<Rightarrow>
                  (case readIdentity storage' key of
                     Inl e \<Rightarrow> (Inl (), storage', g')
                   | Inr stored \<Rightarrow> (Inr (case stored of None \<Rightarrow> created | Some i \<Rightarrow> i), storage', g'))))"

definition resolveLiveBrowserIdentity :: "('g \<Rightarrow> jsstring \<times> 'g) \<Rightarrow> identityLock \<Rightarrow> jsstring
    \<Rightarrow> browserStorage option \<Rightarrow> 'g \<Rightarrow> liveBrowserIdentity \<times> browserStorage option \<times> 'g" where
  "resolveLiveBrowserIdentity createCredential locks slug storage g =
     (case storage of
        None \<Rightarrow> (let (identity, g') = identity_fallback createCredential g in (identity, None, g'))
      | Some st \<Rightarrow>
          (let (r, st', g') = (if locks = LockRejected then (Inl (), st, g)
                 else resolveStored createCredential (liveIdentityStorageKey slug) st g)
           in case r of
                Inr identity \<Rightarrow> (identity, Some st', g')
              | Inl e \<Rightarrow> (let (identity, g'') = identity_fallback createCredential g' in (identity, Some st', g''))))"

definition saveLiveBrowserNickname ::
  "jsstring \<Rightarrow> jsstring \<Rightarrow> jsstring \<Rightarrow> browserStorage option \<Rightarrow> browserStorage option" where
  "saveLiveBrowserNickname slug credential nickname storage =
     (case storage of
        None \<Rightarrow> None
      | Some st \<Rightarrow>
          Some (if \<not> validNickname (JStr nickname) then st
            else (let key = liveIdentityStorageKey slug
                  in case readIdentity st key of
                       Inl e \<Rightarrow> st
                     | Inr None \<Rightarrow> st
                     | Inr (Some identity) \<Rightarrow>
                         if bi_credential identity \<noteq> credential then st
                         else try_store st (setItem key (identity_text (identity\<lparr>bi_nickname := Some nickname\<rparr>)) st))))"

section \<open>Stored identities are read back\<close>

definition identity_ok :: "liveBrowserIdentity \<Rightarrow> bool" where
  "identity_ok i \<longleftrightarrow> validOpaqueIdentifier (JStr (bi_credential i))
     \<and> (case bi_nickname i of None \<Rightarrow> True | Some n \<Rightarrow> validNickname (JStr n))"

lemma identity_text_reads_back: "json_parse (identity_text i) = Some (identity_json i)"
proof -
  have "json_data (identity_json i)"
    by (auto simp: identity_json_def liveIdentityVersion_def is_safe_integer_def max_safe_integer_def split: option.splits)
  from json_round_trip [OF this] show ?thesis by (auto simp: identity_text_def)
qed

lemma json_parse_Nil: "json_parse [] = None"
  by (simp add: json_parse_def skip_space_def)

lemma identity_text_nonempty: "identity_text i \<noteq> []"
  using identity_text_reads_back [of i] json_parse_Nil by auto

lemma readIdentity_written:
  assumes "getItem st key = Inr (Some (identity_text i))" "identity_ok i"
  shows "readIdentity st key = Inr (Some i)"
proof (cases "bi_nickname i")
  case None
  then show ?thesis using assms
    by (simp add: readIdentity_def identity_text_nonempty identity_text_reads_back identity_json_def identity_ok_def
        validNickname_def)
next
  case (Some n)
  then show ?thesis using assms
    by (simp add: readIdentity_def identity_text_nonempty identity_text_reads_back identity_json_def identity_ok_def)
qed

lemma readIdentity_ok: "readIdentity st key = Inr (Some i) \<Longrightarrow> identity_ok i"
  by (auto simp: readIdentity_def identity_ok_def bind_result_Inr_iff is_string_iff validOpaqueIdentifier_def
      validNickname_def split: if_splits option.splits)

lemma readIdentity_same: "getItem st key = getItem st' key \<Longrightarrow> readIdentity st key = readIdentity st' key"
  by (simp add: readIdentity_def)

lemma identity_key_inject: "liveIdentityStorageKey a = liveIdentityStorageKey b \<longleftrightarrow> a = b"
  by (simp add: liveIdentityStorageKey_def)

lemma alphabet_opaque: "c \<in> set operationAlphabet \<Longrightarrow> list_all opaque_unit (js [c])"
  by (auto simp: operationAlphabet_def js_def opaque_unit_def)

lemma random_unit_opaque: "list_all opaque_unit (js [operationAlphabet ! (n mod 36)])"
  by (rule alphabet_opaque, rule nth_mem) (simp add: operationAlphabet_def)

lemma random_units_opaque: "list_all opaque_unit (js (map (\<lambda>b. operationAlphabet ! (f b mod 36)) bs))"
  using random_unit_opaque by (induction bs) (auto simp: js_def)

lemma random_credential_valid:
  assumes "length bytes = 16"
  shows "validOpaqueIdentifier (JStr (randomLiveID bytes (js ''browser-'')))"
proof -
  have "list_all opaque_unit (js ''browser-'')" by (simp add: js_def opaque_unit_def)
  then show ?thesis
    using assms random_units_opaque [of unat bytes]
    by (simp add: validOpaqueIdentifier_def randomLiveID_shape js_def)
qed

section \<open>Resolving\<close>

lemma readIdentity_readable: "bs_readable st \<Longrightarrow> \<exists>i. readIdentity st key = Inr i"
  using web_storage.get_readable [of st key] by (cases "getItem st key") (auto simp: readIdentity_def split: option.split)

lemma resolveStored_fresh:
  assumes "readIdentity st key = Inr None" "bs_readable st" "bs_writable st" "create g = (c, g')"
    "validOpaqueIdentifier (JStr c)"
  defines "i \<equiv> \<lparr>bi_credential = c, bi_nickname = None\<rparr>"
  shows "\<exists>st'. resolveStored create key st g = (Inr i, st', g') \<and> setItem key (identity_text i) st = Inr st'
    \<and> readIdentity st' key = Inr (Some i) \<and> bs_readable st' \<and> bs_writable st'"
proof -
  have ok: "identity_ok i" using assms(5) by (simp add: identity_ok_def i_def)
  obtain st1 where st1: "setItem key (identity_text i) st = Inr st1" "bs_writable st1" "bs_readable st1"
    using setItem_writable [OF assms(3)] assms(2) by blast
  have rd: "readIdentity st1 key = Inr (Some i)"
    by (rule readIdentity_written [OF web_storage.get_set [OF st1(1) assms(2)] ok])
  have "identity_fallback create g = (i, g')" using assms(4) by (simp add: identity_fallback_def i_def)
  then show ?thesis using assms(1) st1 rd by (simp add: resolveStored_def)
qed

text \<open>Where the storage works, resolving leaves a stored identity behind, which it returns.\<close>

lemma resolveStored_stored:
  assumes "bs_readable st" "bs_writable st" "\<And>h. validOpaqueIdentifier (JStr (fst (create h)))"
    and "resolveStored create key st g = (r, st', g')"
  shows "\<exists>i. r = Inr i \<and> readIdentity st' key = Inr (Some i) \<and> bs_readable st' \<and> bs_writable st'
    \<and> (\<forall>other. other \<noteq> key \<longrightarrow> getItem st' other = getItem st other)"
proof -
  obtain found where found: "readIdentity st key = Inr found" using readIdentity_readable [OF assms(1)] by blast
  show ?thesis
  proof (cases found)
    case (Some i)
    then show ?thesis using assms(1,2,4) found by (auto simp: resolveStored_def)
  next
    case None
    obtain c g1 where c: "create g = (c, g1)" by fastforce
    then have "validOpaqueIdentifier (JStr c)" using assms(3) [of g] by simp
    from resolveStored_fresh [of st key create g, OF _ assms(1,2) c this] found None
    show ?thesis using assms(4) web_storage.get_set_other by fastforce
  qed
qed

lemma resolve_existing:
  "readIdentity st (liveIdentityStorageKey slug) = Inr (Some i) \<Longrightarrow> locks \<noteq> LockRejected \<Longrightarrow>
    resolveLiveBrowserIdentity create locks slug (Some st) g = (i, Some st, g)"
  by (simp add: resolveLiveBrowserIdentity_def resolveStored_def)

lemma save_nickname_reads_back:
  assumes "readIdentity st (liveIdentityStorageKey slug) = Inr (Some i)" "bs_readable st" "bs_writable st"
    "validNickname (JStr n)" "saveLiveBrowserNickname slug (bi_credential i) n (Some st) = Some st'"
  shows "readIdentity st' (liveIdentityStorageKey slug) = Inr (Some (i\<lparr>bi_nickname := Some n\<rparr>))"
proof -
  obtain st1 where st1: "setItem (liveIdentityStorageKey slug) (identity_text (i\<lparr>bi_nickname := Some n\<rparr>)) st = Inr st1"
    using setItem_writable [OF assms(3)] by blast
  have "st' = st1" using assms(1,4,5) st1 by (simp add: saveLiveBrowserNickname_def Let_def)
  moreover have "identity_ok (i\<lparr>bi_nickname := Some n\<rparr>)"
    using readIdentity_ok [OF assms(1)] assms(4) by (simp add: identity_ok_def)
  ultimately show ?thesis using readIdentity_written web_storage.get_set [OF st1 assms(2)] by blast
qed

lemma save_nickname_other:
  assumes "saveLiveBrowserNickname slug credential n (Some st) = Some st'" "other \<noteq> slug"
  shows "readIdentity st' (liveIdentityStorageKey other) = readIdentity st (liveIdentityStorageKey other)"
proof (rule readIdentity_same)
  have "liveIdentityStorageKey other \<noteq> liveIdentityStorageKey slug" using assms(2) by (simp add: identity_key_inject)
  from web_storage.try_other [OF this] show "getItem st' (liveIdentityStorageKey other) = getItem st (liveIdentityStorageKey other)"
    using assms(1) by (auto simp: saveLiveBrowserNickname_def Let_def split: sum.splits option.splits if_splits)
qed

text \<open>
  C33. A browser keeps one identity per room: where the storage works and the credentials drawn are
  valid, resolving again, in any tab and with any source of credentials, gives the identity that the
  first resolve gave; a nickname saved under its credential is the only thing that changes it, a
  save under another credential changes nothing, and no save touches another room.
\<close>
theorem identity_stable:
  assumes "bs_readable st" "bs_writable st" "\<And>h. validOpaqueIdentifier (JStr (fst (create h)))"
    and "locks \<noteq> LockRejected" "locks' \<noteq> LockRejected"
    and "resolveLiveBrowserIdentity create locks slug (Some st) g = (i, Some st1, g1)"
    and "saveLiveBrowserNickname slug credential n (Some st1) = Some st2"
  shows "resolveLiveBrowserIdentity create' locks' slug (Some st1) h = (i, Some st1, h)
    \<and> resolveLiveBrowserIdentity create' locks' slug (Some st2) h =
        (if credential = bi_credential i \<and> validNickname (JStr n) then i\<lparr>bi_nickname := Some n\<rparr> else i, Some st2, h)
    \<and> (other \<noteq> slug \<longrightarrow> readIdentity st2 (liveIdentityStorageKey other) = readIdentity st (liveIdentityStorageKey other))"
proof -
  obtain r st' g' where rs: "resolveStored create (liveIdentityStorageKey slug) st g = (r, st', g')"
    by (cases "resolveStored create (liveIdentityStorageKey slug) st g") auto
  from resolveStored_stored [OF assms(1-3) rs] obtain j where
    j: "r = Inr j" "readIdentity st' (liveIdentityStorageKey slug) = Inr (Some j)" "bs_readable st'" "bs_writable st'"
      "\<forall>k. k \<noteq> liveIdentityStorageKey slug \<longrightarrow> getItem st' k = getItem st k" by blast
  have [simp]: "i = j" "st1 = st'" using assms(4,6) by (auto simp: resolveLiveBrowserIdentity_def rs j(1))
  have st2: "readIdentity st2 (liveIdentityStorageKey slug) = Inr (Some
      (if credential = bi_credential i \<and> validNickname (JStr n) then i\<lparr>bi_nickname := Some n\<rparr> else i))"
  proof (cases "credential = bi_credential i \<and> validNickname (JStr n)")
    case True
    then show ?thesis using save_nickname_reads_back [OF j(2-4)] assms(7) by simp
  next
    case False
    then have "st2 = st1" using assms(7) j(2) by (auto simp: saveLiveBrowserNickname_def Let_def)
    then show ?thesis using False j(2) by auto
  qed
  have others: "readIdentity st2 (liveIdentityStorageKey other) = readIdentity st (liveIdentityStorageKey other)"
    if "other \<noteq> slug"
    using save_nickname_other [OF assms(7) that] j(5) that readIdentity_same [of st' _ st]
    by (simp add: identity_key_inject)
  have first: "readIdentity st1 (liveIdentityStorageKey slug) = Inr (Some i)" using j(2) by simp
  show ?thesis
    by (intro conjI impI resolve_existing [OF first assms(5)] resolve_existing [OF st2 assms(5)] others)
qed

theorem identity_stable_witness:
  "fst (resolveLiveBrowserIdentity (\<lambda>h :: nat. (js ''a'', h)) NoLocks (js ''room'')
     (fst (snd (resolveLiveBrowserIdentity (\<lambda>h :: nat. (js ''a'', h)) LockGranted (js ''room'') (Some storage_new) 0))) 7)
   = \<lparr>bi_credential = js ''a'', bi_nickname = None\<rparr>"
proof -
  let ?create = "\<lambda>h :: nat. (js ''a'', h)"
  have ok: "validOpaqueIdentifier (JStr (fst (?create h)))" for h
    by (simp add: validOpaqueIdentifier_def opaque_unit_def js_def)
  have st: "bs_readable storage_new" "bs_writable storage_new" by (simp_all add: storage_new_def)
  have "readIdentity storage_new (liveIdentityStorageKey (js ''room'')) = Inr None"
    by (simp add: readIdentity_def storage_new_def getItem_def)
  from resolveStored_fresh [OF this st, of ?create 0, OF refl] ok obtain st1 where
    "resolveStored ?create (liveIdentityStorageKey (js ''room'')) storage_new 0
      = (Inr \<lparr>bi_credential = js ''a'', bi_nickname = None\<rparr>, st1, 0)" by auto
  then have r: "resolveLiveBrowserIdentity ?create LockGranted (js ''room'') (Some storage_new) 0
      = (\<lparr>bi_credential = js ''a'', bi_nickname = None\<rparr>, Some st1, 0)"
    by (simp add: resolveLiveBrowserIdentity_def)
  have "saveLiveBrowserNickname (js ''room'') [] [] (Some st1) = Some st1"
    by (simp add: saveLiveBrowserNickname_def validNickname_def)
  from identity_stable [of storage_new ?create LockGranted NoLocks, OF st ok _ _ r this, of ?create 7]
  show ?thesis by (simp add: r)
qed

end
