(* ===== verification/Loading.thy ===== *)
theory Loading
  imports Timers
begin

text \<open>
  The loading bar (\<open>web/src/loading.ts\<close>). The package \<open>topbar\<close> draws the bar; the model records the
  calls made to it. The state of the module has one more component than the source: the variable
  \<open>finished\<close> of each closure that \<open>beginLoading\<close> has returned, by the order of the calls.
\<close>

datatype topbarCall = TopbarConfig jsstring | TopbarShow | TopbarHide

record loading =
  ld_activeLoads :: int
  ld_delayedShow :: "nat option"
  ld_timers :: "unit timers"
  ld_finished :: "bool list"
  ld_topbar :: "topbarCall list"

definition loading_new :: loading where
  "loading_new = \<lparr>ld_activeLoads = 0, ld_delayedShow = None, ld_timers = timers_new, ld_finished = [], ld_topbar = []\<rparr>"

text \<open>\<open>accent\<close> is the trimmed value of the style property \<open>--accent\<close>.\<close>

definition configureTopbar :: "jsstring \<Rightarrow> loading \<Rightarrow> loading" where
  "configureTopbar accent s =
     s\<lparr>ld_topbar := ld_topbar s @ [TopbarConfig (if accent = [] then js ''#74172f'' else accent)]\<rparr>"

text \<open>The closure that is returned is \<open>finishLoading n\<close>, with \<open>n\<close> the number of calls so far.\<close>

definition beginLoading :: "jsstring \<Rightarrow> loading \<Rightarrow> loading \<times> nat" where
  "beginLoading accent s0 =
     (let s = s0\<lparr>ld_activeLoads := ld_activeLoads s0 + 1\<rparr>;
          s = (if ld_activeLoads s = 1
               then (let s = configureTopbar accent s; (t, i) = set_timer () 200 (ld_timers s)
                     in s\<lparr>ld_timers := t, ld_delayedShow := Some i\<rparr>)
               else s)
      in (s\<lparr>ld_finished := ld_finished s @ [False]\<rparr>, length (ld_finished s)))"

definition showFired :: "nat \<Rightarrow> loading \<Rightarrow> loading" where
  "showFired i s = s\<lparr>ld_timers := clear_timer i (ld_timers s), ld_delayedShow := None,
     ld_topbar := ld_topbar s @ [TopbarShow]\<rparr>"

definition finishLoading :: "nat \<Rightarrow> loading \<Rightarrow> loading" where
  "finishLoading n s0 =
     (if ld_finished s0 ! n then s0
      else (let s = s0\<lparr>ld_finished := (ld_finished s0)[n := True], ld_activeLoads := max 0 (ld_activeLoads s0 - 1)\<rparr>
            in if ld_activeLoads s \<noteq> 0 then s
               else (let s = (case ld_delayedShow s of
                       None \<Rightarrow> s
                     | Some i \<Rightarrow> s\<lparr>ld_timers := clear_timer i (ld_timers s), ld_delayedShow := None\<rparr>)
                     in s\<lparr>ld_topbar := ld_topbar s @ [TopbarHide]\<rparr>)))"

text \<open>Loads begin and end, and the timer fires, in any order.\<close>

inductive loading_step :: "loading \<Rightarrow> loading \<Rightarrow> bool" where
  step_begin: "loading_step s (fst (beginLoading accent s))"
| step_finish: "n < length (ld_finished s) \<Longrightarrow> loading_step s (finishLoading n s)"
| step_fire: "pending_timer (ld_timers s) i \<noteq> None \<Longrightarrow> loading_step s (showFired i s)"

text \<open>Whether the calls leave the bar on the screen.\<close>

fun bar_shown :: "topbarCall list \<Rightarrow> bool" where
  "bar_shown [] = False"
| "bar_shown (c # cs) = (if c = TopbarShow then True else if c = TopbarHide then False else bar_shown cs)"

definition bar_visible :: "loading \<Rightarrow> bool" where
  "bar_visible s \<longleftrightarrow> bar_shown (rev (ld_topbar s))"

definition unfinished :: "loading \<Rightarrow> nat" where
  "unfinished s = length (filter Not (ld_finished s))"

section \<open>The invariant\<close>

definition loading_inv :: "loading \<Rightarrow> bool" where
  "loading_inv s \<longleftrightarrow> timers_inv (ld_timers s) \<and> ld_activeLoads s = int (unfinished s)
     \<and> timers.owns (ld_delayedShow s) (\<lambda>k. True) (ld_timers s)
     \<and> (unfinished s = 0 \<longrightarrow> ld_delayedShow s = None \<and> \<not> bar_visible s)
     \<and> (unfinished s > 0 \<longrightarrow> (bar_visible s \<longleftrightarrow> ld_delayedShow s = None))"

lemma unfinished_update:
  "n < length fs \<Longrightarrow> \<not> fs ! n \<Longrightarrow> Suc (length (filter Not (fs[n := True]))) = length (filter Not fs)"
proof (induction fs arbitrary: n)
  case (Cons f fs)
  then show ?case by (cases n) auto
qed simp

lemma loading_inv_new: "loading_inv loading_new"
  by (simp add: loading_inv_def loading_new_def timers_inv_new unfinished_def bar_visible_def timers.owns_def)

lemma loading_inv_begin: "loading_inv s \<Longrightarrow> loading_inv (fst (beginLoading accent s))"
  using timers.inv_set [of "ld_timers s" "()" 200] timers.owns_set [of "ld_timers s" "\<lambda>k. True" "()" 200]
  by (cases "unfinished s")
    (auto simp: loading_inv_def beginLoading_def configureTopbar_def unfinished_def bar_visible_def Let_def split: prod.splits)

lemma loading_inv_fire:
  assumes "loading_inv s" "pending_timer (ld_timers s) i \<noteq> None"
  shows "loading_inv (showFired i s)"
proof -
  have owns: "timers.owns (ld_delayedShow s) (\<lambda>k. True) (ld_timers s)" using assms(1) by (simp add: loading_inv_def)
  with assms(2) have "ld_delayedShow s = Some i" using timers.owns_fired by fastforce
  with assms(1) timers.owns_clear [of i] show ?thesis
    by (auto simp: loading_inv_def showFired_def unfinished_def bar_visible_def timers.inv_clear)
qed

lemma loading_inv_finish:
  assumes "loading_inv s" "n < length (ld_finished s)"
  shows "loading_inv (finishLoading n s)"
proof (cases "ld_finished s ! n")
  case False
  define s1 where "s1 = s\<lparr>ld_finished := (ld_finished s)[n := True], ld_activeLoads := max 0 (ld_activeLoads s - 1)\<rparr>"
  have count: "Suc (unfinished s1) = unfinished s"
    using unfinished_update [OF assms(2) False] by (simp add: unfinished_def s1_def)
  with assms(1) have active: "ld_activeLoads s1 = int (unfinished s1)" by (simp add: loading_inv_def s1_def)
  have fin: "finishLoading n s = (if unfinished s1 \<noteq> 0 then s1
      else (let s = (case ld_delayedShow s1 of None \<Rightarrow> s1
              | Some i \<Rightarrow> s1\<lparr>ld_timers := clear_timer i (ld_timers s1), ld_delayedShow := None\<rparr>)
            in s\<lparr>ld_topbar := ld_topbar s @ [TopbarHide]\<rparr>))"
    using False active by (simp add: finishLoading_def s1_def [symmetric] Let_def)
  have keep: "ld_timers s1 = ld_timers s" "ld_delayedShow s1 = ld_delayedShow s" "bar_visible s1 = bar_visible s"
    by (simp_all add: s1_def bar_visible_def)
  show ?thesis
    using assms(1) count active keep timers.owns_clear [of _ "\<lambda>k. True" "ld_timers s"]
    by (auto simp: fin loading_inv_def unfinished_def bar_visible_def timers.inv_clear Let_def split: option.splits)
qed (use assms in \<open>simp add: finishLoading_def\<close>)

lemma loading_inv_step: "loading_step s s' \<Longrightarrow> loading_inv s \<Longrightarrow> loading_inv s'"
  by (induction rule: loading_step.induct) (auto intro: loading_inv_begin loading_inv_finish loading_inv_fire)

lemma loading_inv_reachable: "loading_step\<^sup>*\<^sup>* loading_new s \<Longrightarrow> loading_inv s"
  by (induction rule: rtranclp_induct) (auto intro: loading_inv_new loading_inv_step)

text \<open>
  In every state the module can reach, \<open>activeLoads\<close> counts the loads that have not finished,
  the bar is on the screen only during a load, and during a load it is either on the screen or its
  timer is pending; finishing a load a second time changes nothing.
\<close>
theorem loading_bar_tracks_loads:
  assumes "loading_step\<^sup>*\<^sup>* loading_new s"
  shows "ld_activeLoads s = int (unfinished s)
    \<and> (bar_visible s \<longrightarrow> 0 < unfinished s)
    \<and> (0 < unfinished s \<longrightarrow> bar_visible s \<or> (\<exists>i. ld_delayedShow s = Some i \<and> pending_timer (ld_timers s) i \<noteq> None))
    \<and> (unfinished s = 0 \<longrightarrow> (\<forall>i. pending_timer (ld_timers s) i = None))
    \<and> (n < length (ld_finished s) \<longrightarrow> finishLoading n (finishLoading n s) = finishLoading n s)"
proof -
  have inv: "loading_inv s" by (rule loading_inv_reachable [OF assms])
  have owns: "timers.owns (ld_delayedShow s) (\<lambda>k. True) (ld_timers s)" using inv by (simp add: loading_inv_def)
  have "finishLoading n (finishLoading n s) = finishLoading n s" if "n < length (ld_finished s)"
  proof -
    have "ld_finished (finishLoading n s) ! n"
      using that by (auto simp: finishLoading_def Let_def split: option.splits)
    then show ?thesis by (simp add: finishLoading_def [of n "finishLoading n s"])
  qed
  moreover have "pending_timer (ld_timers s) i = None" if "ld_delayedShow s = None" for i
    using owns that timers.owns_fired [OF owns, of i] by (cases "pending_timer (ld_timers s) i") auto
  moreover have "pending_timer (ld_timers s) i \<noteq> None" if "ld_delayedShow s = Some i" for i
    using owns that by (auto simp: timers.owns_def)
  ultimately show ?thesis using inv unfolding loading_inv_def by fastforce
qed

theorem loading_bar_tracks_loads_witness:
  "ld_activeLoads (fst (beginLoading [] loading_new)) = int (unfinished (fst (beginLoading [] loading_new)))"
proof -
  have "loading_step\<^sup>*\<^sup>* loading_new (fst (beginLoading [] loading_new))" by (blast intro: step_begin)
  from loading_bar_tracks_loads [OF this] show ?thesis by blast
qed

end
