(* ===== verification/Live_Editor.thy ===== *)
theory Live_Editor
  imports Live_Room_UI Live_Collab
begin

text \<open>
  The collaborative editor (\<open>web/src/live-editor.tsx\<close>): the positions of remote cursors and of the
  local selection. CodeMirror is an argument: \<open>editorAPI\<close> lists what the client uses of
  editor states and change descriptions, and the locale \<open>change_positions\<close> what it relies on when it
  maps positions. Drawing (markers, decorations on the screen, the mounted view) is left out.
\<close>

section \<open>What is used of the editor\<close>

text \<open>
  \<open>ed_make\<close> is \<open>EditorState.create\<close> with the collaboration extension at the document's revision,
  \<open>ed_receive\<close> is \<open>state.update(receiveUpdates(state, [update]))\<close> with whether the document changed,
  \<open>ed_change\<close> is \<open>state.update({changes}).state\<close>; None where the call throws. \<open>ed_origin\<close> names
  the transaction behind the first sendable update. \<open>ed_mapPos\<close> throws outside its document.
\<close>

record ('st, 'cs, 'd) editorAPI = "('st, 'cs) collabAPI" +
  ed_make :: "liveRoomDocument \<Rightarrow> jsstring \<Rightarrow> 'st"
  ed_doc :: "'st \<Rightarrow> jsstring"
  ed_selection :: "'st \<Rightarrow> int \<times> int"
  ed_receive :: "'cs liveUpdate \<Rightarrow> 'st \<Rightarrow> ('st \<times> bool) option"
  ed_change :: "'cs \<Rightarrow> 'st \<Rightarrow> 'st option"
  ed_origin :: "'st \<Rightarrow> nat"
  ed_desc :: "'cs \<Rightarrow> 'd"
  ed_composeDesc :: "'d \<Rightarrow> 'd \<Rightarrow> 'd"
  ed_invertedDesc :: "'d \<Rightarrow> 'd"
  ed_mapPos :: "'d \<Rightarrow> int \<Rightarrow> int \<Rightarrow> int option"

section \<open>Positions\<close>

definition clampPosition :: "int \<Rightarrow> int \<Rightarrow> int" where
  "clampPosition position len = max 0 (min position len)"

text \<open>None: \<open>mapPos\<close> throws.\<close>

definition mapRemoteCursor :: "('st, 'cs, 'd) editorAPI \<Rightarrow> 'd \<Rightarrow> int \<Rightarrow> liveRemoteCursor \<Rightarrow> liveRemoteCursor option" where
  "mapRemoteCursor ed changes documentLength cursor =
     (case ed_mapPos ed changes (rc_anchor cursor) (if rc_anchor cursor < rc_head cursor then -1 else 1) of
        None \<Rightarrow> None
      | Some anchor \<Rightarrow>
          (case ed_mapPos ed changes (rc_head cursor) (if rc_head cursor < rc_anchor cursor then -1 else 1) of
             None \<Rightarrow> None
           | Some head \<Rightarrow> Some (cursor\<lparr>rc_anchor := clampPosition anchor documentLength,
               rc_head := clampPosition head documentLength\<rparr>)))"

definition mapRemoteCursors ::
  "('st, 'cs, 'd) editorAPI \<Rightarrow> liveRemoteCursor list \<Rightarrow> 'd \<Rightarrow> int \<Rightarrow> liveRemoteCursor list option" where
  "mapRemoteCursors ed cursors changes documentLength = all_Some (map (mapRemoteCursor ed changes documentLength) cursors)"

definition pendingChangeDescription :: "('st, 'cs, 'd) editorAPI \<Rightarrow> 'st \<Rightarrow> 'd option" where
  "pendingChangeDescription ed state =
     foldl (\<lambda>pending update. Some (case pending of
          None \<Rightarrow> ed_desc ed (up_changes update)
        | Some d \<Rightarrow> ed_composeDesc ed d (ed_desc ed (up_changes update))))
       None (co_sendableUpdates ed state)"

record presenceSelection =
  ps_revision :: int
  ps_anchor :: int
  ps_head :: int

definition livePresenceSelection :: "('st, 'cs, 'd) editorAPI \<Rightarrow> 'st \<Rightarrow> presenceSelection option" where
  "livePresenceSelection ed state =
     (let (anchor, head) = ed_selection ed state; revision = co_getSyncedVersion ed state
      in case pendingChangeDescription ed state of
           None \<Rightarrow> Some \<lparr>ps_revision = revision, ps_anchor = anchor, ps_head = head\<rparr>
         | Some pendingChanges \<Rightarrow>
             let inverse = ed_invertedDesc ed pendingChanges
             in case ed_mapPos ed inverse anchor (if anchor < head then -1 else 1) of
                  None \<Rightarrow> None
                | Some a \<Rightarrow>
                    (case ed_mapPos ed inverse head (if head < anchor then -1 else 1) of
                       None \<Rightarrow> None
                     | Some h \<Rightarrow> Some \<lparr>ps_revision = revision, ps_anchor = a, ps_head = h\<rparr>))"

definition docLength :: "('st, 'cs, 'd) editorAPI \<Rightarrow> 'st \<Rightarrow> int" where
  "docLength ed state = int (length (ed_doc ed state))"

text \<open>The cursors a source cursor gives: none, one, or an exception.\<close>

definition reconcileRemoteCursor ::
  "('st, 'cs, 'd) editorAPI \<Rightarrow> (jsstring, liveRemoteCursor) jsmap \<Rightarrow> 'st \<Rightarrow> liveRemoteCursor \<Rightarrow> liveRemoteCursor list option" where
  "reconcileRemoteCursor ed existingByID state source =
     (if rc_revision source \<noteq> co_getSyncedVersion ed state then
        Some (case map_get existingByID (rc_id source) of
          None \<Rightarrow> []
        | Some existing \<Rightarrow> [existing\<lparr>rc_nickname := rc_nickname source, rc_color := rc_color source, rc_active := rc_active source\<rparr>])
      else (case pendingChangeDescription ed state of
          Some pendingChanges \<Rightarrow> mapRemoteCursors ed [source] pendingChanges (docLength ed state)
        | None \<Rightarrow> Some [source\<lparr>rc_anchor := clampPosition (rc_anchor source) (docLength ed state),
            rc_head := clampPosition (rc_head source) (docLength ed state)\<rparr>]))"

definition reconcileRemoteCursors ::
  "('st, 'cs, 'd) editorAPI \<Rightarrow> liveRemoteCursor list \<Rightarrow> liveRemoteCursor list \<Rightarrow> 'st \<Rightarrow> liveRemoteCursor list option" where
  "reconcileRemoteCursors ed sourceCursors existingCursors state =
     map_option concat (all_Some (map
       (reconcileRemoteCursor ed (map_new (map (\<lambda>c. (rc_id c, c)) existingCursors)) state) sourceCursors))"

section \<open>Colours and presentation\<close>

definition hex_unit :: "16 word \<Rightarrow> bool" where
  "hex_unit u \<longleftrightarrow> 48 \<le> unat u \<and> unat u \<le> 57 \<or> 65 \<le> unat u \<and> unat u \<le> 70 \<or> 97 \<le> unat u \<and> unat u \<le> 102"

definition safeParticipantColor :: "jsstring \<Rightarrow> jsstring" where
  "safeParticipantColor color =
     (if length color = 7 \<and> hd color = 0x23 \<and> list_all hex_unit (tl color) then color else js ''var(--accent)'')"

definition sameRemoteCursorPresentation :: "liveRemoteCursor list \<Rightarrow> liveRemoteCursor list \<Rightarrow> bool" where
  "sameRemoteCursorPresentation left right \<longleftrightarrow> length left = length right
     \<and> list_all (\<lambda>(c, d). rc_id c = rc_id d \<and> rc_nickname c = rc_nickname d \<and> rc_color c = rc_color d
         \<and> rc_active c = rc_active d) (zip left right)"

text \<open>A decoration is its range with the colour; the set is sorted by where ranges begin.\<close>

definition remoteSelectionDecorations :: "liveRemoteCursor list \<Rightarrow> (int \<times> int \<times> jsstring) list" where
  "remoteSelectionDecorations cursors =
     sort_key fst (concat (map (\<lambda>c.
       let f = min (rc_anchor c) (rc_head c); t = max (rc_anchor c) (rc_head c)
       in if f = t then [] else [(f, t, safeParticipantColor (rc_color c))]) cursors))"

section \<open>The field of remote cursors\<close>

record remoteCursorState =
  rf_sourceCursors :: "liveRemoteCursor list"
  rf_cursors :: "liveRemoteCursor list"
  rf_selections :: "(int \<times> int \<times> jsstring) list"

definition remoteCursorField_create :: remoteCursorState where
  "remoteCursorField_create = \<lparr>rf_sourceCursors = [], rf_cursors = [], rf_selections = []\<rparr>"

text \<open>What the field reads of a transaction; \<open>tr_effects\<close> are the values of its \<open>setRemoteCursors\<close> effects.\<close>

record ('st, 'd) editorTransaction =
  tr_effects :: "liveRemoteCursor list list"
  tr_startState :: 'st
  tr_state :: 'st
  tr_docChanged :: bool
  tr_changes :: 'd

definition remoteCursorField_update ::
  "('st, 'cs, 'd) editorAPI \<Rightarrow> remoteCursorState \<Rightarrow> ('st, 'd) editorTransaction \<Rightarrow> remoteCursorState option" where
  "remoteCursorField_update ed value transaction =
     (let sourceCursors = (if tr_effects transaction = [] then rf_sourceCursors value else last (tr_effects transaction));
          sourceChanged = (tr_effects transaction \<noteq> []);
          startRevision = co_getSyncedVersion ed (tr_startState transaction);
          syncedRevision = co_getSyncedVersion ed (tr_state transaction)
      in if \<not> tr_docChanged transaction \<and> \<not> sourceChanged \<and> startRevision = syncedRevision then Some value
         else (case (if tr_docChanged transaction
                     then mapRemoteCursors ed (rf_cursors value) (tr_changes transaction) (docLength ed (tr_state transaction))
                     else Some (rf_cursors value)) of
             None \<Rightarrow> None
           | Some existingCursors \<Rightarrow>
               let existingCursors = (if startRevision \<noteq> syncedRevision
                     then map (\<lambda>c. c\<lparr>rc_revision := syncedRevision\<rparr>) existingCursors else existingCursors)
               in map_option (\<lambda>cursors. \<lparr>rf_sourceCursors = sourceCursors, rf_cursors = cursors,
                      rf_selections = remoteSelectionDecorations cursors\<rparr>)
                    (reconcileRemoteCursors ed sourceCursors existingCursors (tr_state transaction))))"

section \<open>Remote cursors stay inside the document\<close>

definition cursor_inside :: "int \<Rightarrow> liveRemoteCursor \<Rightarrow> bool" where
  "cursor_inside n c \<longleftrightarrow> 0 \<le> rc_anchor c \<and> rc_anchor c \<le> n \<and> 0 \<le> rc_head c \<and> rc_head c \<le> n"

lemma clampPosition_inside: "0 \<le> n \<Longrightarrow> 0 \<le> clampPosition p n \<and> clampPosition p n \<le> n"
  by (simp add: clampPosition_def)

lemma docLength_nonneg: "0 \<le> docLength ed state"
  by (simp add: docLength_def)

lemma mapRemoteCursor_inside:
  "mapRemoteCursor ed d n c = Some c' \<Longrightarrow> 0 \<le> n \<Longrightarrow> cursor_inside n c' \<and> rc_id c' = rc_id c"
  by (auto simp: mapRemoteCursor_def cursor_inside_def clampPosition_inside split: option.splits)

lemma mapRemoteCursors_inside:
  "mapRemoteCursors ed cs d n = Some cs' \<Longrightarrow> 0 \<le> n \<Longrightarrow> list_all (cursor_inside n) cs' \<and> map rc_id cs' = map rc_id cs"
proof (induction cs arbitrary: cs')
  case (Cons c cs)
  then obtain c' cs1 where "mapRemoteCursor ed d n c = Some c'" "mapRemoteCursors ed cs d n = Some cs1" "cs' = c' # cs1"
    by (cases "mapRemoteCursor ed d n c") (auto simp: mapRemoteCursors_def)
  with Cons mapRemoteCursor_inside show ?case by fastforce
qed (simp add: mapRemoteCursors_def)

lemma reconcileRemoteCursor_inside:
  assumes "reconcileRemoteCursor ed existing state source = Some cs"
    "\<And>i c. map_get existing i = Some c \<Longrightarrow> cursor_inside (docLength ed state) c \<and> rc_id c = i"
  shows "list_all (cursor_inside (docLength ed state)) cs \<and> set (map rc_id cs) \<subseteq> {rc_id source}"
proof (cases "rc_revision source = co_getSyncedVersion ed state")
  case True
  show ?thesis
  proof (cases "pendingChangeDescription ed state")
    case None
    then show ?thesis using assms(1) True
      by (auto simp: reconcileRemoteCursor_def cursor_inside_def clampPosition_inside docLength_nonneg)
  next
    case (Some d)
    then have "mapRemoteCursors ed [source] d (docLength ed state) = Some cs"
      using assms(1) True by (simp add: reconcileRemoteCursor_def)
    from mapRemoteCursors_inside [OF this docLength_nonneg] show ?thesis by (simp flip: set_map)
  qed
next
  case False
  then show ?thesis using assms by (auto simp: reconcileRemoteCursor_def cursor_inside_def split: option.splits)
qed

lemma map_new_cursors:
  "map_get (map_new (map (\<lambda>c. (rc_id c, c)) cs)) i = Some c \<Longrightarrow> c \<in> set cs \<and> rc_id c = i"
  by (auto simp: map_get_map_new dest!: map_of_SomeD)

lemma reconcileRemoteCursors_inside:
  assumes "reconcileRemoteCursors ed source existing state = Some cs"
    "list_all (cursor_inside (docLength ed state)) existing"
  shows "list_all (cursor_inside (docLength ed state)) cs \<and> rc_id ` set cs \<subseteq> rc_id ` set source"
proof -
  define m where "m = map_new (map (\<lambda>c. (rc_id c, c)) existing)"
  have m: "cursor_inside (docLength ed state) c \<and> rc_id c = i" if "map_get m i = Some c" for i c
    using map_new_cursors [OF that [unfolded m_def]] assms(2) unfolding list_all_iff by blast
  obtain css where css: "all_Some (map (reconcileRemoteCursor ed m state) source) = Some css" "cs = concat css"
    using assms(1) unfolding reconcileRemoteCursors_def m_def [symmetric] by blast
  have "list_all (cursor_inside (docLength ed state)) xs \<and> set (map rc_id xs) \<subseteq> rc_id ` set source"
    if xs: "xs \<in> set css" for xs
  proof -
    have "Some xs \<in> reconcileRemoteCursor ed m state ` set source"
      using all_Some_set [OF css(1) xs] by simp
    then obtain s where s: "s \<in> set source" "reconcileRemoteCursor ed m state s = Some xs" by (metis imageE)
    show ?thesis using reconcileRemoteCursor_inside [OF s(2) m] s(1) by force
  qed
  then have "\<forall>xs \<in> set css. \<forall>c \<in> set xs. cursor_inside (docLength ed state) c \<and> rc_id c \<in> rc_id ` set source"
    unfolding list_all_iff set_map by blast
  then show ?thesis unfolding css(2) list_all_iff by auto
qed

text \<open>
  C34. After every transaction the remote cursors lie inside the document and belong to participants
  the room reported, whatever positions arrived on the wire and whatever the mapping of positions
  answers, provided they did so before and a transaction that changes nothing keeps the length.
\<close>
theorem remote_cursors_in_document:
  assumes "remoteCursorField_update ed value tr = Some value'"
    and "list_all (cursor_inside (docLength ed (tr_startState tr))) (rf_cursors value)"
    and "rc_id ` set (rf_cursors value) \<subseteq> rc_id ` set (rf_sourceCursors value)"
    and "\<not> tr_docChanged tr \<Longrightarrow> docLength ed (tr_state tr) = docLength ed (tr_startState tr)"
  shows "list_all (cursor_inside (docLength ed (tr_state tr))) (rf_cursors value')
    \<and> rc_id ` set (rf_cursors value') \<subseteq> rc_id ` set (rf_sourceCursors value')"
proof (cases "\<not> tr_docChanged tr \<and> tr_effects tr = []
    \<and> co_getSyncedVersion ed (tr_startState tr) = co_getSyncedVersion ed (tr_state tr)")
  case True
  then have "value' = value" using assms(1) by (simp add: remoteCursorField_update_def)
  then show ?thesis using assms True by simp
next
  case False
  obtain old where old: "(if tr_docChanged tr
      then mapRemoteCursors ed (rf_cursors value) (tr_changes tr) (docLength ed (tr_state tr))
      else Some (rf_cursors value)) = Some old"
    using assms(1) False by (auto simp: remoteCursorField_update_def Let_def split: option.splits if_splits)
  define new where "new = (if co_getSyncedVersion ed (tr_startState tr) \<noteq> co_getSyncedVersion ed (tr_state tr)
      then map (\<lambda>c. c\<lparr>rc_revision := co_getSyncedVersion ed (tr_state tr)\<rparr>) old else old)"
  have "list_all (cursor_inside (docLength ed (tr_state tr))) old"
    using old assms(2,4) by (auto split: if_splits dest: mapRemoteCursors_inside [OF _ docLength_nonneg])
  then have new: "list_all (cursor_inside (docLength ed (tr_state tr))) new"
    by (auto simp: new_def list_all_iff cursor_inside_def)
  obtain source cs where rec: "reconcileRemoteCursors ed source new (tr_state tr) = Some cs"
    "rf_cursors value' = cs" "rf_sourceCursors value' = source"
    using assms(1) False old by (auto simp: remoteCursorField_update_def Let_def new_def split: if_splits)
  from reconcileRemoteCursors_inside [OF rec(1) new] rec(2,3) show ?thesis by simp
qed

section \<open>The interface of change descriptions\<close>

text \<open>
  What the client relies on when it maps positions: a position inside the old document is mapped,
  and into the new document; composing and inverting descriptions composes and swaps the lengths.
\<close>

locale change_positions =
  fixes map_pos :: "'d \<Rightarrow> int \<Rightarrow> int \<Rightarrow> int option"
    and compose :: "'d \<Rightarrow> 'd \<Rightarrow> 'd"
    and inverted :: "'d \<Rightarrow> 'd"
    and old_length :: "'d \<Rightarrow> int"
    and new_length :: "'d \<Rightarrow> int"
    and valid :: "'d \<Rightarrow> bool"
  assumes map_inside: "valid d \<Longrightarrow> 0 \<le> p \<Longrightarrow> p \<le> old_length d \<Longrightarrow>
      \<exists>q. map_pos d p side = Some q \<and> 0 \<le> q \<and> q \<le> new_length d"
    and compose_valid: "valid d \<Longrightarrow> valid e \<Longrightarrow> new_length d = old_length e \<Longrightarrow>
      valid (compose d e) \<and> old_length (compose d e) = old_length d \<and> new_length (compose d e) = new_length e"
    and inverted_valid: "valid d \<Longrightarrow>
      valid (inverted d) \<and> old_length (inverted d) = new_length d \<and> new_length (inverted d) = old_length d"
begin

text \<open>Consecutive descriptions that lead from a document of length \<open>n\<close> to one of length \<open>m\<close>.\<close>

fun leads :: "int \<Rightarrow> 'd list \<Rightarrow> int \<Rightarrow> bool" where
  "leads n [] m \<longleftrightarrow> n = m"
| "leads n (d # ds) m \<longleftrightarrow> valid d \<and> old_length d = n \<and> leads (new_length d) ds m"

lemma leads_fold:
  "valid d \<Longrightarrow> old_length d = n \<Longrightarrow> leads (new_length d) ds m \<Longrightarrow>
    valid (foldl compose d ds) \<and> old_length (foldl compose d ds) = n \<and> new_length (foldl compose d ds) = m"
  by (induction ds arbitrary: d) (auto simp: compose_valid)

lemma inverse_inside:
  assumes "leads n (d # ds) m" "0 \<le> p" "p \<le> m"
  shows "\<exists>q. map_pos (inverted (foldl compose d ds)) p side = Some q \<and> 0 \<le> q \<and> q \<le> n"
proof -
  have f: "valid (foldl compose d ds)" "old_length (foldl compose d ds) = n" "new_length (foldl compose d ds) = m"
    using leads_fold [of d n ds m] assms(1) by auto
  then show ?thesis
    using inverted_valid [OF f(1)] map_inside [of "inverted (foldl compose d ds)" p side] assms(2,3) by auto
qed

end

section \<open>The presence of the local participant\<close>

lemma foldl_compose:
  "foldl (\<lambda>pending u. Some (case pending of None \<Rightarrow> f u | Some d \<Rightarrow> c d (f u))) (Some d) us = Some (foldl c d (map f us))"
  by (induction us arbitrary: d) simp_all

lemma pendingChangeDescription_fold:
  "pendingChangeDescription ed state = (case map (\<lambda>u. ed_desc ed (up_changes u)) (co_sendableUpdates ed state) of
     [] \<Rightarrow> None | d # ds \<Rightarrow> Some (foldl (ed_composeDesc ed) d ds))"
  by (cases "co_sendableUpdates ed state") (simp_all add: pendingChangeDescription_def
      foldl_compose [where f = "\<lambda>u. ed_desc ed (up_changes u)" and c = "ed_composeDesc ed"])

text \<open>
  C35. The selection that is announced always refers to the document the server has: when the
  pending updates lead from the document at the synchronised version, of length \<open>n\<close>, to the one in
  the editor and the selection is inside the editor, the announced positions are inside the former
  and carry its version.
\<close>
theorem presence_inside_synced_document:
  assumes "change_positions (ed_mapPos ed) (ed_composeDesc ed) (ed_invertedDesc ed) old_length new_length valid"
    and "change_positions.leads old_length new_length valid n
      (map (\<lambda>u. ed_desc ed (up_changes u)) (co_sendableUpdates ed state)) (docLength ed state)"
    and "ed_selection ed state = (a, h)" "0 \<le> a" "a \<le> docLength ed state" "0 \<le> h" "h \<le> docLength ed state"
  shows "\<exists>s. livePresenceSelection ed state = Some s \<and> ps_revision s = co_getSyncedVersion ed state
    \<and> 0 \<le> ps_anchor s \<and> ps_anchor s \<le> n \<and> 0 \<le> ps_head s \<and> ps_head s \<le> n"
proof (cases "map (\<lambda>u. ed_desc ed (up_changes u)) (co_sendableUpdates ed state)")
  case Nil
  then have "n = docLength ed state"
    using assms(2) by (simp add: change_positions.leads.simps [OF assms(1)])
  then show ?thesis using assms(3-7) Nil
    by (auto simp: livePresenceSelection_def pendingChangeDescription_fold)
next
  case (Cons d ds)
  note inv = change_positions.inverse_inside [OF assms(1) assms(2) [unfolded Cons]]
  obtain a' where a': "ed_mapPos ed (ed_invertedDesc ed (foldl (ed_composeDesc ed) d ds)) a (if a < h then -1 else 1) = Some a'"
    "0 \<le> a'" "a' \<le> n" using inv [OF assms(4,5)] by blast
  obtain h' where h': "ed_mapPos ed (ed_invertedDesc ed (foldl (ed_composeDesc ed) d ds)) h (if h < a then -1 else 1) = Some h'"
    "0 \<le> h'" "h' \<le> n" using inv [OF assms(6,7)] by blast
  show ?thesis
    using a' h' by (simp add: livePresenceSelection_def pendingChangeDescription_fold Cons assms(3))
qed

section \<open>The repository's change sets interpret the interface\<close>

text \<open>A description is a non-empty sequence of section lists; positions go through them in turn.\<close>

definition desc_section_ok :: "changeSection \<Rightarrow> bool" where
  "desc_section_ok s \<longleftrightarrow> 0 \<le> sec_OldLen s \<and> -1 \<le> sec_NewLen s"

definition invert_section :: "changeSection \<Rightarrow> changeSection" where
  "invert_section s = (if section_changed s then s\<lparr>sec_OldLen := sec_NewLen s, sec_NewLen := sec_OldLen s\<rparr> else s)"

definition path_mapPos :: "changeSet list \<Rightarrow> int \<Rightarrow> int \<Rightarrow> int option" where
  "path_mapPos d p side = foldl (\<lambda>q cs. Option.bind q (\<lambda>q. set_MapPos q side cs)) (Some p) d"

definition path_inverted :: "changeSet list \<Rightarrow> changeSet list" where
  "path_inverted d = rev (map (map invert_section) d)"

fun path_ok :: "changeSet list \<Rightarrow> bool" where
  "path_ok [] \<longleftrightarrow> False"
| "path_ok [cs] \<longleftrightarrow> list_all desc_section_ok cs"
| "path_ok (cs # ds # rest) \<longleftrightarrow> list_all desc_section_ok cs \<and> set_NewLen cs = set_OldLen ds \<and> path_ok (ds # rest)"

lemma set_NewLen_simps [simp]: "set_NewLen [] = 0"
  "set_NewLen (s # cs) = (if section_changed s then sec_NewLen s else sec_OldLen s) + set_NewLen cs"
  by (simp_all add: set_NewLen_def)

lemma desc_lengths_nonneg: "list_all desc_section_ok cs \<Longrightarrow> 0 \<le> set_OldLen cs \<and> 0 \<le> set_NewLen cs"
  by (induction cs) (auto simp: desc_section_ok_def section_changed_def)

lemma set_MapPos_loop_inside:
  "list_all desc_section_ok cs \<Longrightarrow> a \<le> p \<Longrightarrow> p \<le> a + set_OldLen cs \<Longrightarrow>
    b \<le> set_MapPos_loop p side cs a b \<and> set_MapPos_loop p side cs a b \<le> b + set_NewLen cs"
proof (induction cs arbitrary: a b)
  case (Cons s cs)
  then have ok: "list_all desc_section_ok cs" "0 \<le> sec_OldLen s" by (simp_all, simp add: desc_section_ok_def)
  have nn: "0 \<le> set_NewLen cs" using desc_lengths_nonneg [OF ok(1)] by simp
  show ?case
  proof (cases "set_MapPos_step p side s a b")
    case (Inl q)
    then show ?thesis using Cons.prems nn
      by (auto simp: set_MapPos_step_def Let_def section_changed_def split: if_splits)
  next
    case (Inr ab)
    then obtain a' b' where ab: "set_MapPos_step p side s a b = Inr (a', b')" by (cases ab) auto
    then have "a' = a + sec_OldLen s" "b' = b + (if section_changed s then sec_NewLen s else sec_OldLen s)" "a' \<le> p"
      by (auto simp: set_MapPos_step_def Let_def split: if_splits)
    with Cons.IH [OF ok(1), of a' b'] Cons.prems(3) ab ok(2) show ?thesis
      by (auto simp: section_changed_def)
  qed
qed simp

lemma set_MapPos_inside:
  "list_all desc_section_ok cs \<Longrightarrow> 0 \<le> p \<Longrightarrow> p \<le> set_OldLen cs \<Longrightarrow>
    \<exists>q. set_MapPos p side cs = Some q \<and> 0 \<le> q \<and> q \<le> set_NewLen cs"
  using set_MapPos_loop_inside [of cs 0 p 0 side] by (simp add: set_MapPos_def)

lemma path_mapPos_inside:
  "path_ok d \<Longrightarrow> 0 \<le> p \<Longrightarrow> p \<le> set_OldLen (hd d) \<Longrightarrow>
    \<exists>q. path_mapPos d p side = Some q \<and> 0 \<le> q \<and> q \<le> set_NewLen (last d)"
proof (induction d arbitrary: p rule: path_ok.induct)
  case (2 cs)
  then show ?case using set_MapPos_inside [of cs p side] by (auto simp: path_mapPos_def)
next
  case (3 cs ds rest)
  then obtain q where "set_MapPos p side cs = Some q" "0 \<le> q" "q \<le> set_NewLen cs"
    using set_MapPos_inside [of cs p side] by auto
  with 3 show ?case by (auto simp: path_mapPos_def)
qed simp

lemma path_ok_append:
  "path_ok d \<Longrightarrow> path_ok e \<Longrightarrow> set_NewLen (last d) = set_OldLen (hd e) \<Longrightarrow> path_ok (d @ e)"
  by (induction d rule: path_ok.induct) (auto, (cases e; auto)+)

lemma path_ok_Cons: "path_ok d \<Longrightarrow> d \<noteq> []"
  by auto

lemma invert_sections:
  "list_all desc_section_ok cs \<Longrightarrow> list_all desc_section_ok (map invert_section cs)
    \<and> set_OldLen (map invert_section cs) = set_NewLen cs \<and> set_NewLen (map invert_section cs) = set_OldLen cs"
  by (induction cs) (auto simp: invert_section_def desc_section_ok_def section_changed_def)

lemma path_inverted_ok:
  "path_ok d \<Longrightarrow> path_ok (path_inverted d) \<and> set_OldLen (hd (path_inverted d)) = set_NewLen (last d)
    \<and> set_NewLen (last (path_inverted d)) = set_OldLen (hd d)"
proof (induction d rule: path_ok.induct)
  case (2 cs)
  then show ?case using invert_sections [of cs] by (simp add: path_inverted_def)
next
  case (3 cs ds rest)
  then have IH: "path_ok (path_inverted (ds # rest))" "set_OldLen (hd (path_inverted (ds # rest))) = set_NewLen (last (ds # rest))"
    "set_NewLen (last (path_inverted (ds # rest))) = set_OldLen ds" by auto
  have inv: "path_inverted (cs # ds # rest) = path_inverted (ds # rest) @ [map invert_section cs]"
    by (simp add: path_inverted_def)
  have ne: "path_inverted (ds # rest) \<noteq> []" using IH(1) path_ok_Cons by blast
  from 3 have cs: "list_all desc_section_ok cs" "set_NewLen cs = set_OldLen ds" by auto
  note ics = invert_sections [OF cs(1)]
  have "path_ok (path_inverted (cs # ds # rest))"
    unfolding inv using IH(1,3) ics cs(2) by (intro path_ok_append) auto
  then show ?case using ne IH(2) ics by (simp add: inv)
qed simp

interpretation livecollab_positions: change_positions path_mapPos "(@)" path_inverted
  "\<lambda>d. set_OldLen (hd d)" "\<lambda>d. set_NewLen (last d)" path_ok
proof unfold_locales
  fix d e :: "changeSet list" and p side :: int
  show "path_ok d \<Longrightarrow> 0 \<le> p \<Longrightarrow> p \<le> set_OldLen (hd d) \<Longrightarrow>
      \<exists>q. path_mapPos d p side = Some q \<and> 0 \<le> q \<and> q \<le> set_NewLen (last d)"
    by (rule path_mapPos_inside)
  show "path_ok (path_inverted d) \<and> set_OldLen (hd (path_inverted d)) = set_NewLen (last d)
      \<and> set_NewLen (last (path_inverted d)) = set_OldLen (hd d)" if "path_ok d"
    using path_inverted_ok [OF that] .
  show "path_ok (d @ e) \<and> set_OldLen (hd (d @ e)) = set_OldLen (hd d) \<and> set_NewLen (last (d @ e)) = set_NewLen (last e)"
    if "path_ok d" "path_ok e" "set_NewLen (last d) = set_OldLen (hd e)"
    using path_ok_append [OF that] path_ok_Cons [OF that(1)] path_ok_Cons [OF that(2)] by simp
qed

section \<open>An editor for concrete runs\<close>

text \<open>
  A plain editor over the repository's change sets, used to show that the hypotheses on the editor can
  hold: it acknowledges its own pending update and applies a foreign one when nothing is pending.
\<close>

record plainEditor =
  pl_doc :: jsstring
  pl_version :: int
  pl_client :: jsstring
  pl_pending :: "changeSet liveUpdate list"
  pl_selection :: "int \<times> int"

definition plain_receive :: "changeSet liveUpdate \<Rightarrow> plainEditor \<Rightarrow> (plainEditor \<times> bool) option" where
  "plain_receive update st =
     (case pl_pending st of
        [] \<Rightarrow> map_option (\<lambda>d. (st\<lparr>pl_doc := d, pl_version := pl_version st + 1\<rparr>, d \<noteq> pl_doc st))
                (cs_apply livecollab (up_changes update) (pl_doc st))
      | first # rest \<Rightarrow>
          if up_clientID update = up_clientID first
          then Some (st\<lparr>pl_pending := rest, pl_version := pl_version st + 1\<rparr>, False) else None)"

definition plain_change :: "changeSet \<Rightarrow> plainEditor \<Rightarrow> plainEditor option" where
  "plain_change cs st = map_option
     (\<lambda>d. st\<lparr>pl_doc := d, pl_pending := pl_pending st @ [\<lparr>up_changes = cs, up_clientID = pl_client st\<rparr>]\<rparr>)
     (cs_apply livecollab cs (pl_doc st))"

definition plain_mapPos :: "changeSet list \<Rightarrow> int \<Rightarrow> int \<Rightarrow> int option" where
  "plain_mapPos d p side = Some (case path_mapPos d p side of None \<Rightarrow> 0 | Some q \<Rightarrow> q)"

definition plain_editor :: "(plainEditor, changeSet, changeSet list) editorAPI" where
  "plain_editor = \<lparr>co_sendableUpdates = pl_pending, co_getSyncedVersion = pl_version,
     co_rebaseUpdates = (\<lambda>updates over. if updates = [] then Some [] else None),
     ed_make = (\<lambda>d client. \<lparr>pl_doc = doc_content d, pl_version = doc_revision d, pl_client = client,
       pl_pending = [], pl_selection = (0, 0)\<rparr>),
     ed_doc = pl_doc, ed_selection = pl_selection, ed_receive = plain_receive, ed_change = plain_change,
     ed_origin = (\<lambda>st. 0), ed_desc = (\<lambda>cs. [cs]), ed_composeDesc = (@), ed_invertedDesc = path_inverted,
     ed_mapPos = plain_mapPos\<rparr>"

lemma plain_editor_simps [simp]:
  "co_sendableUpdates plain_editor = pl_pending" "co_getSyncedVersion plain_editor = pl_version"
  "ed_doc plain_editor = pl_doc" "ed_selection plain_editor = pl_selection"
  "ed_receive plain_editor = plain_receive" "ed_change plain_editor = plain_change"
  "ed_desc plain_editor cs = [cs]" "ed_composeDesc plain_editor = (@)"
  "ed_invertedDesc plain_editor = path_inverted" "ed_mapPos plain_editor = plain_mapPos"
  "ed_make plain_editor d client = \<lparr>pl_doc = doc_content d, pl_version = doc_revision d, pl_client = client,
     pl_pending = [], pl_selection = (0, 0)\<rparr>"
  by (simp_all add: plain_editor_def)

lemma plain_positions: "change_positions plain_mapPos (@) path_inverted
    (\<lambda>d. set_OldLen (hd d)) (\<lambda>d. set_NewLen (last d)) path_ok"
proof
  show "\<exists>q. plain_mapPos d p side = Some q \<and> 0 \<le> q \<and> q \<le> set_NewLen (last d)"
    if "path_ok d" "0 \<le> p" "p \<le> set_OldLen (hd d)" for d p side
    using path_mapPos_inside [OF that, of side] by (auto simp: plain_mapPos_def)
qed (use livecollab_positions.compose_valid livecollab_positions.inverted_valid in auto)

lemma plain_presence: "livePresenceSelection plain_editor st \<noteq> None"
  by (simp add: livePresenceSelection_def plain_mapPos_def Let_def split: option.split prod.split)

theorem remote_cursors_in_document_witness:
  "list_all (cursor_inside 2) [\<lparr>rc_id = js ''p'', rc_nickname = [], rc_color = [], rc_revision = 3, rc_anchor = 2,
     rc_head = 0, rc_active = True\<rparr>]"
proof -
  let ?st = "\<lparr>pl_doc = js ''ab'', pl_version = 3, pl_client = [], pl_pending = [], pl_selection = (0, 0)\<rparr>"
  let ?c = "\<lparr>rc_id = js ''p'', rc_nickname = [], rc_color = [], rc_revision = 3, rc_anchor = 9, rc_head = - 1, rc_active = True\<rparr>"
  let ?tr = "\<lparr>tr_effects = [[?c]], tr_startState = ?st, tr_state = ?st, tr_docChanged = False, tr_changes = []\<rparr>"
  have dl: "docLength plain_editor ?st = 2" by (simp add: docLength_def js_def)
  have upd: "remoteCursorField_update plain_editor remoteCursorField_create ?tr = Some
      \<lparr>rf_sourceCursors = [?c], rf_cursors = [?c\<lparr>rc_anchor := 2, rc_head := 0\<rparr>],
       rf_selections = remoteSelectionDecorations [?c\<lparr>rc_anchor := 2, rc_head := 0\<rparr>]\<rparr>"
    by (simp add: remoteCursorField_update_def remoteCursorField_create_def reconcileRemoteCursors_def
        reconcileRemoteCursor_def pendingChangeDescription_def clampPosition_def dl)
  from remote_cursors_in_document [OF upd] show ?thesis
    by (simp add: remoteCursorField_create_def dl)
qed

theorem presence_inside_synced_document_witness:
  "\<exists>s. livePresenceSelection plain_editor \<lparr>pl_doc = js ''abx'', pl_version = 3, pl_client = [],
      pl_pending = [\<lparr>up_changes = livecollab_of 2 2 (js ''x'') 2, up_clientID = []\<rparr>], pl_selection = (3, 3)\<rparr> = Some s
    \<and> ps_revision s = 3 \<and> ps_anchor s \<le> 2"
proof -
  let ?st = "\<lparr>pl_doc = js ''abx'', pl_version = 3, pl_client = [],
      pl_pending = [\<lparr>up_changes = livecollab_of 2 2 (js ''x'') 2, up_clientID = []\<rparr>], pl_selection = (3, 3)\<rparr>"
  have pos: "change_positions (ed_mapPos plain_editor) (ed_composeDesc plain_editor) (ed_invertedDesc plain_editor)
      (\<lambda>d. set_OldLen (hd d)) (\<lambda>d. set_NewLen (last d)) path_ok"
    using plain_positions by simp
  have dl: "docLength plain_editor ?st = 3" by (simp add: docLength_def js_def)
  have leads: "livecollab_positions.leads 2
      (map (\<lambda>u. ed_desc plain_editor (up_changes u)) (co_sendableUpdates plain_editor ?st)) (docLength plain_editor ?st)"
    unfolding dl by (simp add: livecollab_of_def addSection_def desc_section_ok_def section_changed_def js_def)
  have sel: "ed_selection plain_editor ?st = (3, 3)" by simp
  have "co_getSyncedVersion plain_editor ?st = 3" by simp
  with presence_inside_synced_document [OF pos leads sel] show ?thesis by (auto simp: dl)
qed

end
