(* ===== verification/Live_Workspace.thy ===== *)
theory Live_Workspace
  imports Live_Editor Live_Operations Live_Reconciliation Live_Connection Live_Identity Loading Live_API
begin

text \<open>
  The workspace of a live room (the state and the document operations of \<open>LiveRoomWorkspace\<close> in
  \<open>web/src/live-room.tsx\<close>). React state and refs form one record: where the component keeps a value
  both in a ref and in a state variable and always sets the two together, the record has one field;
  \<open>documents\<close> and \<open>documentsRef\<close>, which differ between renders, are \<open>ws_shown\<close> and \<open>ws_documents\<close>.
  Editors are mounted in \<open>ws_views\<close>, and a mounted view shows the state stored for its document.
  Scroll positions and focus are left out. Operations that may throw answer with a flag or an option
  beside the state they leave behind.
\<close>

section \<open>State\<close>

record recoveryNotice =
  rn_operationID :: jsstring
  rn_text :: jsstring
  rn_message :: jsstring

text \<open>What the room shows of its participants and its layout.\<close>

record roomView =
  rv_participants :: "liveParticipant list"
  rv_localParticipantID :: jsstring
  rv_localAccessClass :: accessClass
  rv_creator :: bool
  rv_roomWatchOnly :: bool
  rv_roomFull :: bool
  rv_creatorPreset :: liveLayoutPreset
  rv_lastSplitLayout :: liveLayoutPreset
  rv_layoutPreference :: layoutPreference
  rv_narrowWorkspace :: bool
  rv_tabRename :: "jsstring option"
  rv_storage :: "browserStorage option"

text \<open>The running loads: the module of the loading bar and the two stop functions that are held.\<close>

record roomWork =
  rw_loading :: loading
  rw_connectionWorkStop :: "nat option"
  rw_resyncWorkStop :: "nat option"

record 'st workspace =
  ws_documents :: "liveRoomDocument list"
  ws_shown :: "liveRoomDocument list"
  ws_metadataRevision :: int
  ws_active :: jsstring
  ws_editors :: "(jsstring, 'st) jsmap"
  ws_views :: "jsstring list"
  ws_synced :: "(jsstring, jsstring) jsmap"
  ws_tracker :: liveOperationTracker
  ws_operationIDs :: "(nat, jsstring) jsmap"
  ws_metadataOperation :: jsstring
  ws_metadataBusy :: bool
  ws_generation :: int
  ws_connection :: liveConnectionState
  ws_recovering :: bool
  ws_recovery :: "recoveryNotice option"
  ws_resyncing :: bool
  ws_localCanEdit :: bool
  ws_queueFull :: bool
  ws_fatal :: bool
  ws_flushTimer :: bool
  ws_usageTimer :: bool
  ws_roomBytes :: nat
  ws_pendingTabOrder :: "jsstring list option"
  ws_panes :: "jsstring list"
  ws_newDocumentPane :: "nat option"
  ws_controller :: liveConnection
  ws_readyState :: int
  ws_draws :: nat
  ws_status :: "jsstring list"
  ws_reauthentications :: nat
  ws_saved :: "pasteExport list"
  ws_uncaught :: bool
  ws_view :: roomView
  ws_work :: roomWork

text \<open>
  What does not change while the room is open: the props, the packages and the browser.
  \<open>re_random n\<close> are the bytes of the \<open>n\<close>-th draw of random bytes.
\<close>

record ('st, 'cs, 'd) roomEnv =
  re_cs :: "'cs changeSetAPI"
  re_ed :: "('st, 'cs, 'd) editorAPI"
  re_slug :: jsstring
  re_expiresAt :: jsstring
  re_clientID :: jsstring
  re_sessionID :: jsstring
  re_maxTabs :: int
  re_random :: "nat \<Rightarrow> 8 word list"
  re_accent :: jsstring
  re_isoDate :: "jsstring \<Rightarrow> jsstring option"

section \<open>Small setters\<close>

definition setConnectionState :: "liveConnectionState \<Rightarrow> 'st workspace \<Rightarrow> 'st workspace" where
  "setConnectionState next_state w =
     (if ws_recovering w \<and> next_state = Connected then w\<lparr>ws_connection := Recovery\<rparr>
      else w\<lparr>ws_connection := next_state\<rparr>)"

definition room_status :: "jsstring \<Rightarrow> 'st workspace \<Rightarrow> 'st workspace" where
  "room_status message w = w\<lparr>ws_status := ws_status w @ [message]\<rparr>"

definition room_send :: "jsval \<Rightarrow> 'st workspace \<Rightarrow> 'st workspace \<times> bool" where
  "room_send message w =
     (let (c, ok) = conn_send message (ws_readyState w) (ws_controller w) in (w\<lparr>ws_controller := c\<rparr>, ok))"

definition update_view :: "(roomView \<Rightarrow> roomView) \<Rightarrow> 'st workspace \<Rightarrow> 'st workspace" where
  "update_view f w = w\<lparr>ws_view := f (ws_view w)\<rparr>"

definition setLocalParticipantAuthority :: "liveParticipant \<Rightarrow> 'st workspace \<Rightarrow> 'st workspace" where
  "setLocalParticipantAuthority participant w =
     update_view (\<lambda>v. v\<lparr>rv_localAccessClass := pt_accessClass participant\<rparr>)
       (w\<lparr>ws_localCanEdit := pt_canEdit participant\<rparr>)"

definition setQueueBlocked :: "bool \<Rightarrow> 'st workspace \<Rightarrow> 'st workspace" where
  "setQueueBlocked blocked w = w\<lparr>ws_queueFull := blocked\<rparr>"

definition updateQueueState :: "('st, 'cs, 'd) roomEnv \<Rightarrow> bool \<Rightarrow> 'st workspace \<Rightarrow> 'st workspace" where
  "updateQueueState env replayed w =
     (if qs_full (liveQueueState (re_cs env) (collabAPI.truncate (re_ed env)) liveQueueLimits_default (map snd (ws_editors w)))
      then setQueueBlocked True w
      else if replayed \<and> ws_queueFull w then setQueueBlocked False w
      else w)"

definition editor_text :: "('st, 'cs, 'd) roomEnv \<Rightarrow> 'st workspace \<Rightarrow> liveRoomDocument \<Rightarrow> jsstring" where
  "editor_text env w d = (case map_get (ws_editors w) (doc_id d) of
     None \<Rightarrow> doc_content d | Some state \<Rightarrow> ed_doc (re_ed env) state)"

definition refreshRoomUsage :: "('st, 'cs, 'd) roomEnv \<Rightarrow> 'st workspace \<Rightarrow> 'st workspace" where
  "refreshRoomUsage env w = w\<lparr>ws_roomBytes := aggregateLiveRoomBytes (ws_documents w) (editor_text env w)\<rparr>"

text \<open>A timer is only set when none is pending, so the handle is a flag.\<close>

definition scheduleRoomUsage :: "'st workspace \<Rightarrow> 'st workspace" where
  "scheduleRoomUsage w = w\<lparr>ws_usageTimer := True\<rparr>"

definition usageTimerFired :: "('st, 'cs, 'd) roomEnv \<Rightarrow> 'st workspace \<Rightarrow> 'st workspace" where
  "usageTimerFired env w = refreshRoomUsage env (w\<lparr>ws_usageTimer := False\<rparr>)"

definition scheduleFlush :: "'st workspace \<Rightarrow> 'st workspace" where
  "scheduleFlush w = w\<lparr>ws_flushTimer := True\<rparr>"

definition settle_operation :: "jsstring \<Rightarrow> 'st workspace \<Rightarrow> 'st workspace" where
  "settle_operation operationID w =
     w\<lparr>ws_tracker := fst (settle (Some operationID) (ws_generation w) (ws_tracker w))\<rparr>"

definition release_metadata :: "jsstring \<Rightarrow> 'st workspace \<Rightarrow> 'st workspace" where
  "release_metadata operationID w =
     (if operationID = ws_metadataOperation w then w\<lparr>ws_metadataOperation := [], ws_metadataBusy := False\<rparr> else w)"

section \<open>Editors\<close>

definition getEditorState ::
  "('st, 'cs, 'd) roomEnv \<Rightarrow> liveRoomDocument \<Rightarrow> 'st workspace \<Rightarrow> 'st workspace \<times> 'st" where
  "getEditorState env document w =
     (case map_get (ws_editors w) (doc_id document) of
        Some existing \<Rightarrow> (w, existing)
      | None \<Rightarrow>
          let created = ed_make (re_ed env) document (re_clientID env)
          in (w\<lparr>ws_editors := AList.update (doc_id document) created (ws_editors w),
                ws_synced := AList.update (doc_id document) (doc_content document) (ws_synced w)\<rparr>, created))"

definition updateEditorState ::
  "('st, 'cs, 'd) roomEnv \<Rightarrow> jsstring \<Rightarrow> 'st \<Rightarrow> 'st workspace \<Rightarrow> 'st workspace" where
  "updateEditorState env documentID state w0 =
     (let previous = map_get (ws_editors w0) documentID;
          w = updateQueueState env False (w0\<lparr>ws_editors := AList.update documentID state (ws_editors w0)\<rparr>);
          documentChanged = (case previous of
              None \<Rightarrow> True
            | Some p \<Rightarrow> ed_doc (re_ed env) p \<noteq> ed_doc (re_ed env) state
                \<or> co_getSyncedVersion (re_ed env) p \<noteq> co_getSyncedVersion (re_ed env) state)
      in if documentChanged then scheduleFlush (scheduleRoomUsage w) else w)"

definition has_document :: "'st workspace \<Rightarrow> jsstring \<Rightarrow> bool" where
  "has_document w documentID \<longleftrightarrow> list_ex (\<lambda>d. doc_id d = documentID) (ws_documents w)"

text \<open>The flag is False when the selection cannot be mapped, which throws.\<close>

definition sendPresence ::
  "('st, 'cs, 'd) roomEnv \<Rightarrow> 'st \<Rightarrow> jsstring \<Rightarrow> 'st workspace \<Rightarrow> 'st workspace \<times> bool" where
  "sendPresence env state documentID w =
     (if documentID = [] \<or> documentID \<noteq> ws_active w then (w, True)
      else (case livePresenceSelection (re_ed env) state of
          None \<Rightarrow> (w, False)
        | Some selection \<Rightarrow>
            (fst (room_send (JObj [(js ''type'', JStr (js ''presence'')), (js ''current_tab'', JStr documentID),
               (js ''document_id'', JStr documentID), (js ''revision'', JInt (ps_revision selection)),
               (js ''anchor'', JInt (ps_anchor selection)), (js ''head'', JInt (ps_head selection))]) w), True)))"

text \<open>
  What a mounted view does with a transaction: the new state is stored while the document is in the
  room, and a changed document announces the selection.
\<close>

definition view_dispatched ::
  "('st, 'cs, 'd) roomEnv \<Rightarrow> jsstring \<Rightarrow> 'st \<Rightarrow> bool \<Rightarrow> 'st workspace \<Rightarrow> 'st workspace \<times> bool" where
  "view_dispatched env documentID state changed w =
     (let w = (if has_document w documentID then updateEditorState env documentID state w else w)
      in if changed then sendPresence env state documentID w else (w, True))"

definition applyToEditor ::
  "('st, 'cs, 'd) roomEnv \<Rightarrow> jsstring \<Rightarrow> 'cs liveUpdate \<Rightarrow> 'st workspace \<Rightarrow> 'st workspace \<times> bool" where
  "applyToEditor env documentID update w =
     (case map_get (ws_editors w) documentID of
        None \<Rightarrow> (w, True)
      | Some state \<Rightarrow>
          (case ed_receive (re_ed env) update state of
             None \<Rightarrow> (w, False)
           | Some (state', changed) \<Rightarrow>
               if documentID \<in> set (ws_views w) then view_dispatched env documentID state' changed w
               else (w\<lparr>ws_editors := AList.update documentID state' (ws_editors w)\<rparr>, True)))"

section \<open>Document events\<close>

text \<open>None: the call throws; \<open>Some False\<close>: the event cannot be applied and a snapshot is needed.\<close>

definition record_change ::
  "('st, 'cs, 'd) roomEnv \<Rightarrow> changesEvent \<Rightarrow> jsstring \<Rightarrow> 'st workspace \<Rightarrow> 'st workspace" where
  "record_change env event content w0 =
     (let w = w0\<lparr>ws_synced := AList.update (ch_documentID event) content (ws_synced w0)\<rparr>;
          w = (case map_get (ws_editors w) (ch_documentID event) of
                 None \<Rightarrow> w
               | Some state \<Rightarrow> w\<lparr>ws_documents := map (\<lambda>candidate.
                   if doc_id candidate = ch_documentID event
                   then candidate\<lparr>doc_content := ed_doc (re_ed env) state, doc_revision := ch_revision event\<rparr>
                   else candidate) (ws_documents w)\<rparr>)
      in scheduleFlush (scheduleRoomUsage (settle_operation (ch_operationID event) (updateQueueState env True w))))"

definition applyDocumentEvent ::
  "('st, 'cs, 'd) roomEnv \<Rightarrow> changesEvent \<Rightarrow> 'st workspace \<Rightarrow> 'st workspace \<times> bool option" where
  "applyDocumentEvent env event w =
     (case cs_fromJSON (re_cs env) (ch_changes event) of
        None \<Rightarrow> (w, Some False)
      | Some changes \<Rightarrow>
          (case List.find (\<lambda>d. doc_id d = ch_documentID event) (ws_documents w) of
             None \<Rightarrow> (w, Some True)
           | Some document \<Rightarrow>
               let (w, state) = getEditorState env document w;
                   synced = co_getSyncedVersion (re_ed env) state
               in if ch_revision event \<le> synced then (settle_operation (ch_operationID event) w, Some True)
                  else if ch_revision event \<noteq> synced + 1 then (w, Some False)
                  else
                    let (w, completed) = applyToEditor env (ch_documentID event)
                          \<lparr>up_changes = changes, up_clientID = ch_clientID event\<rparr> w
                    in if \<not> completed then (w, None)
                       else
                         let previous = (case map_get (ws_synced w) (ch_documentID event) of
                               None \<Rightarrow> doc_content document | Some t \<Rightarrow> t)
                         in case applyLiveChanges (re_cs env) previous changes of
                              None \<Rightarrow> (w, None)
                            | Some content \<Rightarrow> (record_change env event content w, Some True)))"

section \<open>Metadata events\<close>

text \<open>Pane indices come from the four panes, so they are in range.\<close>

definition assign_pane :: "nat \<Rightarrow> jsstring \<Rightarrow> jsstring list \<Rightarrow> jsstring list" where
  "assign_pane index documentID previous =
     (let next = (case index_of documentID previous of
            None \<Rightarrow> previous | Some other \<Rightarrow> previous[other := previous ! index])
      in next[index := documentID])"

definition assignPaneDocument :: "nat \<Rightarrow> jsstring \<Rightarrow> 'st workspace \<Rightarrow> 'st workspace" where
  "assignPaneDocument index documentID w = w\<lparr>ws_panes := assign_pane index documentID (ws_panes w)\<rparr>"

definition forget_document :: "jsstring \<Rightarrow> 'st workspace \<Rightarrow> 'st workspace" where
  "forget_document documentID w =
     w\<lparr>ws_editors := AList.delete documentID (ws_editors w),
       ws_views := removeAll documentID (ws_views w),
       ws_synced := AList.delete documentID (ws_synced w)\<rparr>"

definition renumber :: "liveRoomDocument list \<Rightarrow> liveRoomDocument list" where
  "renumber documents = map (\<lambda>(i, d). d\<lparr>doc_position := int i\<rparr>) (zip [0..<length documents] documents)"

definition place_created :: "jsstring \<Rightarrow> liveRoomDocument \<Rightarrow> 'st workspace \<Rightarrow> 'st workspace" where
  "place_created operationID document w =
     (case ws_newDocumentPane w of
        Some pane \<Rightarrow>
          if operationID = ws_metadataOperation w
          then (assignPaneDocument pane (doc_id document) w)\<lparr>ws_newDocumentPane := None, ws_active := doc_id document\<rparr>
          else w
      | None \<Rightarrow> w)"

text \<open>The switch: None when the event is refused, otherwise the state and the next documents.\<close>

definition metadata_documents ::
  "('st, 'cs, 'd) roomEnv \<Rightarrow> liveWireEvent \<Rightarrow> 'st workspace \<Rightarrow> ('st workspace \<times> liveRoomDocument list) option" where
  "metadata_documents env event w =
     (case event of
        DocumentCreated operationID client revision document \<Rightarrow>
          let (w, nextDocuments) =
                (if has_document w (doc_id document) then (w, ws_documents w)
                 else (fst (getEditorState env document w),
                       ws_documents w @ [document\<lparr>doc_position := int (length (ws_documents w))\<rparr>]));
              w = place_created operationID document w
          in Some (w\<lparr>ws_pendingTabOrder := None\<rparr>, nextDocuments)
      | DocumentUpdated operationID client revision documentID name language \<Rightarrow>
          Some (w, map (\<lambda>d. if doc_id d = documentID then d\<lparr>doc_name := name, doc_language := language\<rparr> else d)
                     (ws_documents w))
      | DocumentDeleted operationID client revision documentID \<Rightarrow>
          Some ((forget_document documentID w)\<lparr>ws_pendingTabOrder := None\<rparr>,
                renumber (filter (\<lambda>d. doc_id d \<noteq> documentID) (ws_documents w)))
      | DocumentReordered operationID client revision order \<Rightarrow>
          let position = map_new (zip order (map int [0..<length order]))
          in if length position \<noteq> length (ws_documents w)
                \<or> list_ex (\<lambda>d. map_get position (doc_id d) = None) (ws_documents w)
             then None
             else Some (w\<lparr>ws_pendingTabOrder := None\<rparr>,
               sort_key doc_position
                 (map (\<lambda>d. d\<lparr>doc_position := the (map_get position (doc_id d))\<rparr>) (ws_documents w)))
      | _ \<Rightarrow> Some (w, ws_documents w))"

definition metadata_header :: "liveWireEvent \<Rightarrow> jsstring \<times> int" where
  "metadata_header event = (case event of
     DocumentCreated operationID client revision document \<Rightarrow> (operationID, revision)
   | DocumentUpdated operationID client revision documentID name language \<Rightarrow> (operationID, revision)
   | DocumentDeleted operationID client revision documentID \<Rightarrow> (operationID, revision)
   | DocumentReordered operationID client revision order \<Rightarrow> (operationID, revision)
   | _ \<Rightarrow> ([], 0))"

definition first_document :: "liveRoomDocument list \<Rightarrow> jsstring" where
  "first_document documents = (case documents of [] \<Rightarrow> [] | d # ds \<Rightarrow> doc_id d)"

definition keep_active :: "liveRoomDocument list \<Rightarrow> 'st workspace \<Rightarrow> 'st workspace" where
  "keep_active documents w =
     (if list_ex (\<lambda>d. doc_id d = ws_active w) documents then w else w\<lparr>ws_active := first_document documents\<rparr>)"

definition show_documents :: "liveRoomDocument list \<Rightarrow> 'st workspace \<Rightarrow> 'st workspace" where
  "show_documents documents w = w\<lparr>ws_documents := documents, ws_shown := documents\<rparr>"

definition applyMetadataEvent ::
  "('st, 'cs, 'd) roomEnv \<Rightarrow> liveWireEvent \<Rightarrow> 'st workspace \<Rightarrow> 'st workspace \<times> bool" where
  "applyMetadataEvent env event w =
     (let (operationID, revision) = metadata_header event
      in if revision < ws_metadataRevision w then (settle_operation operationID w, True)
         else if revision > ws_metadataRevision w + 1 then (w, False)
         else (case metadata_documents env event w of
             None \<Rightarrow> (w, False)
           | Some (w, nextDocuments) \<Rightarrow>
               let w = refreshRoomUsage env (show_documents nextDocuments w);
                   w = keep_active nextDocuments (w\<lparr>ws_metadataRevision := revision\<rparr>)
               in (settle_operation operationID (release_metadata operationID w), True)))"

section \<open>Snapshots\<close>

definition currentRevisionAuthority :: "('st, 'cs, 'd) roomEnv \<Rightarrow> 'st workspace \<Rightarrow> liveRevisionAuthority" where
  "currentRevisionAuthority env w = captureLiveRevisionAuthority (ws_metadataRevision w)
     (map (\<lambda>d. \<lparr>lr_id = doc_id d, lr_revision = (case map_get (ws_editors w) (doc_id d) of
         None \<Rightarrow> doc_revision d | Some state \<Rightarrow> co_getSyncedVersion (re_ed env) state)\<rparr>) (ws_documents w))"

definition snapshot_authority :: "int \<Rightarrow> liveRoomDocument list \<Rightarrow> liveRevisionAuthority" where
  "snapshot_authority metadataRevision documents = captureLiveRevisionAuthority metadataRevision
     (map (\<lambda>d. \<lparr>lr_id = doc_id d, lr_revision = doc_revision d\<rparr>) documents)"

text \<open>The first loop: metadata operations that the snapshot reports as accepted.\<close>

definition settle_accepted :: "jsstring list \<Rightarrow> liveOperation \<Rightarrow> 'st workspace \<Rightarrow> 'st workspace" where
  "settle_accepted acceptedIDs operation w =
     (if op_id operation \<notin> set acceptedIDs \<or> op_kind operation \<noteq> KMetadata then w
      else release_metadata (op_id operation) (settle_operation (op_id operation) w))"

text \<open>\<open>current = current.update(...)\<close> for each update in turn.\<close>

fun edit_all :: "('u \<Rightarrow> 'st \<Rightarrow> 'st option) \<Rightarrow> 'u list \<Rightarrow> 'st \<Rightarrow> 'st option" where
  "edit_all f [] state = Some state"
| "edit_all f (u # us) state = Option.bind (f u state) (edit_all f us)"

definition store_synced :: "jsstring \<Rightarrow> 'st \<Rightarrow> jsstring \<Rightarrow> 'st workspace \<Rightarrow> 'st workspace" where
  "store_synced documentID state content w =
     w\<lparr>ws_editors := AList.update documentID state (ws_editors w),
       ws_synced := AList.update documentID content (ws_synced w)\<rparr>"

definition synced_text :: "('st, 'cs, 'd) roomEnv \<Rightarrow> jsstring \<Rightarrow> 'st \<Rightarrow> 'st workspace \<Rightarrow> jsstring" where
  "synced_text env documentID state w = (case map_get (ws_synced w) documentID of
     None \<Rightarrow> ed_doc (re_ed env) state | Some t \<Rightarrow> t)"

definition drop_editor :: "('st, 'cs, 'd) roomEnv \<Rightarrow> jsstring \<Rightarrow> 'st \<Rightarrow> 'st workspace \<Rightarrow> 'st workspace" where
  "drop_editor env documentID state w =
     forget_document documentID
       (if co_sendableUpdates (re_ed env) state \<noteq> []
        then setConnectionState Recovery (w\<lparr>ws_recovering := True,
               ws_recovery := Some \<lparr>rn_operationID = js ''deleted-'' @ documentID, rn_text = ed_doc (re_ed env) state,
                 rn_message = js ''A tab changed while this room resynchronized. Your local text is preserved for recovery.''\<rparr>\<rparr>)
        else w)"

definition accepted_operation :: "jsstring list \<Rightarrow> jsstring \<Rightarrow> liveOperationTracker \<Rightarrow> liveOperation option" where
  "accepted_operation acceptedIDs documentID ops =
     List.find (\<lambda>operation. op_kind operation = KDocument \<and> op_documentID operation = Some documentID
       \<and> op_id operation \<in> set acceptedIDs) (tracker_values ops)"

definition adopt_accepted ::
  "('st, 'cs, 'd) roomEnv \<Rightarrow> liveOperation \<Rightarrow> liveRoomDocument \<Rightarrow> 'st \<Rightarrow> 'st workspace \<Rightarrow> 'st workspace \<times> bool option" where
  "adopt_accepted env operation document state w =
     (case co_sendableUpdates (re_ed env) state of
        [] \<Rightarrow> (w, Some False)
      | first # rest \<Rightarrow>
          if json_stringify (cs_toJSON (re_cs env) (up_changes first))
             \<noteq> json_stringify (prop_of (op_message operation) (js ''changes'')) then (w, Some False)
          else (case rebaseAfterAcceptedSnapshot (re_cs env) (collabAPI.truncate (re_ed env))
                  (synced_text env (doc_id document) state w) (doc_content document) (first # rest) of
              None \<Rightarrow> (w, Some False)
            | Some rebased \<Rightarrow>
                (case edit_all (\<lambda>u. ed_change (re_ed env) (up_changes u)) rebased
                        (ed_make (re_ed env) document (re_clientID env)) of
                   None \<Rightarrow> (w, None)
                 | Some current \<Rightarrow>
                     (settle_operation (op_id operation) (store_synced (doc_id document) current (doc_content document) w),
                      Some True))))"

definition adopt_snapshot ::
  "('st, 'cs, 'd) roomEnv \<Rightarrow> liveRoomDocument \<Rightarrow> 'st \<Rightarrow> 'st workspace \<Rightarrow> 'st workspace \<times> bool option" where
  "adopt_snapshot env document state w =
     (let changes = diffLiveDocuments (re_cs env) (synced_text env (doc_id document) state w) (doc_content document);
          updates = liveSnapshotUpdates (re_cs env) changes (doc_revision document) (co_getSyncedVersion (re_ed env) state)
      in case edit_all (\<lambda>u st. map_option fst (ed_receive (re_ed env) u st)) updates state of
           None \<Rightarrow> (w, None)
         | Some current \<Rightarrow> (store_synced (doc_id document) current (doc_content document) w, Some True))"

text \<open>The second loop, over the editors; \<open>Some False\<close> leaves the function.\<close>

definition reconcile_editor ::
  "('st, 'cs, 'd) roomEnv \<Rightarrow> (jsstring, liveRoomDocument) jsmap \<Rightarrow> jsstring list \<Rightarrow> jsstring \<Rightarrow> 'st
   \<Rightarrow> 'st workspace \<Rightarrow> 'st workspace \<times> bool option" where
  "reconcile_editor env nextByID acceptedIDs documentID state w =
     (case map_get nextByID documentID of
        None \<Rightarrow> (drop_editor env documentID state w, Some True)
      | Some document \<Rightarrow>
          if doc_revision document \<le> co_getSyncedVersion (re_ed env) state then (w, Some True)
          else (case accepted_operation acceptedIDs documentID (ws_tracker w) of
              Some operation \<Rightarrow> adopt_accepted env operation document state w
            | None \<Rightarrow> adopt_snapshot env document state w))"

fun reconcile_editors ::
  "('st, 'cs, 'd) roomEnv \<Rightarrow> (jsstring, liveRoomDocument) jsmap \<Rightarrow> jsstring list \<Rightarrow> (jsstring \<times> 'st) list
   \<Rightarrow> 'st workspace \<Rightarrow> 'st workspace \<times> bool option" where
  "reconcile_editors env nextByID acceptedIDs [] w = (w, Some True)"
| "reconcile_editors env nextByID acceptedIDs ((documentID, state) # entries) w =
     (let (w, r) = reconcile_editor env nextByID acceptedIDs documentID state w
      in if r = Some True then reconcile_editors env nextByID acceptedIDs entries w else (w, r))"

fun merge_documents ::
  "('st, 'cs, 'd) roomEnv \<Rightarrow> liveRoomDocument list \<Rightarrow> 'st workspace \<Rightarrow> 'st workspace \<times> liveRoomDocument list" where
  "merge_documents env [] w = (w, [])"
| "merge_documents env (d # ds) w =
     (let (w, state) = getEditorState env d w; (w, merged) = merge_documents env ds w
      in (w, d\<lparr>doc_content := ed_doc (re_ed env) state, doc_revision := co_getSyncedVersion (re_ed env) state\<rparr> # merged))"

definition adopt_documents ::
  "('st, 'cs, 'd) roomEnv \<Rightarrow> liveRoomDocument list \<Rightarrow> int \<Rightarrow> 'st workspace \<Rightarrow> 'st workspace" where
  "adopt_documents env nextDocuments nextMetadataRevision w =
     (let (w, mergedDocuments) = merge_documents env nextDocuments w;
          w = refreshRoomUsage env ((show_documents mergedDocuments w)\<lparr>ws_pendingTabOrder := None\<rparr>);
          w = (if nextMetadataRevision > ws_metadataRevision w then w\<lparr>ws_metadataRevision := nextMetadataRevision\<rparr> else w)
      in keep_active mergedDocuments w)"

definition reconcileSnapshot ::
  "('st, 'cs, 'd) roomEnv \<Rightarrow> liveRoomDocument list \<Rightarrow> int \<Rightarrow> liveRevisionAuthority \<Rightarrow> jsstring list
   \<Rightarrow> 'st workspace \<Rightarrow> 'st workspace \<times> bool option" where
  "reconcileSnapshot env snapshotDocuments nextMetadataRevision requestedAuthority acceptedOperationIDs w =
     (let nextDocuments = normalizeLiveDocuments snapshotDocuments;
          snapshotAuthority = snapshot_authority nextMetadataRevision nextDocuments
      in if \<not> snapshotCanReconcile requestedAuthority snapshotAuthority
            \<or> \<not> snapshotCanReconcile (currentRevisionAuthority env w) snapshotAuthority then (w, Some False)
         else
           let nextByID = map_new (map (\<lambda>d. (doc_id d, d)) nextDocuments);
               w = fold (settle_accepted acceptedOperationIDs) (tracker_values (ws_tracker w)) w;
               (w, r) = reconcile_editors env nextByID acceptedOperationIDs (ws_editors w) w
           in if r = Some True then (adopt_documents env nextDocuments nextMetadataRevision w, Some True) else (w, r))"

end
