(* ===== verification/Live_Room.thy ===== *)
theory Live_Room
  imports Live_Workspace Live_Resync
begin

text \<open>
  The live room as a whole (\<open>LiveRoomWorkspace\<close> in \<open>web/src/live-room.tsx\<close>): event handling, sending,
  the user's operations, and how the component wires the connection controller, the
  resynchronisation controller, the loading bar and the identity store together. The state of a
  room is the resynchronisation controller around the workspace: its callbacks are the functions
  of the workspace. Calls of the connection controller run its model and then its callbacks, in order.
\<close>

section \<open>Callbacks of the connection controller\<close>

definition update_work :: "(roomWork \<Rightarrow> roomWork) \<Rightarrow> 'st workspace \<Rightarrow> 'st workspace" where
  "update_work f w = w\<lparr>ws_work := f (ws_work w)\<rparr>"

definition onWork :: "('st, 'cs, 'd) roomEnv \<Rightarrow> bool \<Rightarrow> 'st workspace \<Rightarrow> 'st workspace" where
  "onWork env active = update_work (\<lambda>work.
     case rw_connectionWorkStop work of
       None \<Rightarrow>
         if active
         then (let (l, stop) = beginLoading (re_accent env) (rw_loading work)
               in work\<lparr>rw_loading := l, rw_connectionWorkStop := Some stop\<rparr>)
         else work
     | Some stop \<Rightarrow>
         if active then work
         else work\<lparr>rw_loading := finishLoading stop (rw_loading work), rw_connectionWorkStop := None\<rparr>)"

definition stopResyncWork :: "'st workspace \<Rightarrow> 'st workspace" where
  "stopResyncWork = update_work (\<lambda>work.
     case rw_resyncWorkStop work of
       None \<Rightarrow> work
     | Some stop \<Rightarrow> work\<lparr>rw_loading := finishLoading stop (rw_loading work), rw_resyncWorkStop := None\<rparr>)"

definition onCloseStatus :: "int \<Rightarrow> jsstring \<Rightarrow> 'st workspace \<Rightarrow> 'st workspace" where
  "onCloseStatus code reason w =
     (if code = 1013 \<and> matches_ci ''expired'' reason
      then room_status (js ''Live room expired'') (w\<lparr>ws_fatal := True\<rparr>)
      else if code = 1013
      then room_status (js ''Live room is busy '' @ [0x2014] @ js '' reconnecting'') w
      else w)"

definition onRoomFull :: "'st workspace \<Rightarrow> 'st workspace" where
  "onRoomFull w =
     room_status (js ''Room is full. Ask someone to leave and reopen the link.'')
       (setConnectionState Offline (update_view (\<lambda>v. v\<lparr>rv_roomFull := True\<rparr>) (w\<lparr>ws_fatal := True\<rparr>)))"

definition onRoomUnavailable :: "'st workspace \<Rightarrow> 'st workspace" where
  "onRoomUnavailable w =
     room_status (js ''Live room is no longer available'')
       (setConnectionState Offline (w\<lparr>ws_fatal := True, ws_tracker := tracker_clear None (ws_tracker w)\<rparr>))"

definition onReconnectExhausted :: "'st workspace \<Rightarrow> 'st workspace" where
  "onReconnectExhausted w =
     room_status (js ''Could not reconnect to the live room. Reopen the room to try again.'') (setConnectionState Offline w)"

text \<open>Messages are handled by \<open>onMessage\<close> below; what the controller does with its socket is not a callback.\<close>

definition connection_callback :: "('st, 'cs, 'd) roomEnv \<Rightarrow> connectionEffect \<Rightarrow> 'st workspace \<Rightarrow> 'st workspace" where
  "connection_callback env effect w = (case effect of
     OnState state \<Rightarrow> setConnectionState state w
   | OnWork active \<Rightarrow> onWork env active w
   | OnCloseStatus code reason \<Rightarrow> onCloseStatus code reason w
   | OnAuthenticationRequired \<Rightarrow> w\<lparr>ws_reauthentications := Suc (ws_reauthentications w)\<rparr>
   | OnRoomFull \<Rightarrow> onRoomFull w
   | OnRoomUnavailable \<Rightarrow> onRoomUnavailable w
   | OnReconnectExhausted \<Rightarrow> onReconnectExhausted w
   | _ \<Rightarrow> w)"

definition call_connection ::
  "('st, 'cs, 'd) roomEnv \<Rightarrow> (liveConnection \<Rightarrow> liveConnection) \<Rightarrow> 'st workspace \<Rightarrow> 'st workspace" where
  "call_connection env f w =
     (let c = f (ws_controller w)
      in fold (connection_callback env) (drop (length (cn_log (ws_controller w))) (cn_log c)) (w\<lparr>ws_controller := c\<rparr>))"

section \<open>Recovery\<close>

definition enterRecovery :: "liveOperation \<Rightarrow> jsstring \<Rightarrow> 'st workspace \<Rightarrow> 'st workspace" where
  "enterRecovery operation message w0 =
     (let w = setConnectionState Recovery (w0\<lparr>ws_recovering := True,
            ws_recovery := Some \<lparr>rn_operationID = op_id operation, rn_text = op_recoveryText operation, rn_message = message\<rparr>\<rparr>);
          w = (if op_id operation = ws_metadataOperation w then w\<lparr>ws_metadataOperation := []\<rparr> else w)
      in room_status message (w\<lparr>ws_metadataBusy := False\<rparr>))"

definition export_documents :: "('st, 'cs, 'd) roomEnv \<Rightarrow> 'st workspace \<Rightarrow> liveRoomDocument list" where
  "export_documents env w = map (\<lambda>d. d\<lparr>doc_content := editor_text env w d\<rparr>) (ws_documents w)"

definition recoveryText :: "('st, 'cs, 'd) roomEnv \<Rightarrow> 'st workspace \<Rightarrow> jsstring" where
  "recoveryText env w = pe_content (livePasteExport (export_documents env w) (ws_active w)
     (if length (export_documents env w) > 1 then EveryTab else CurrentTab))"

definition draw_id :: "('st, 'cs, 'd) roomEnv \<Rightarrow> string \<Rightarrow> 'st workspace \<Rightarrow> 'st workspace \<times> jsstring" where
  "draw_id env prefix w = (w\<lparr>ws_draws := Suc (ws_draws w)\<rparr>, randomLiveID (re_random env (ws_draws w)) (js prefix))"

definition enterResyncRecovery :: "('st, 'cs, 'd) roomEnv \<Rightarrow> 'st workspace \<Rightarrow> 'st workspace" where
  "enterResyncRecovery env w =
     (let message = js ''Live room resynchronization could not reach a safe state. Your local text is preserved for recovery.'';
          (w, operationID) = draw_id env ''resync-recovery-'' (w\<lparr>ws_recovering := True\<rparr>);
          w = w\<lparr>ws_recovery := Some \<lparr>rn_operationID = operationID, rn_text = recoveryText env w, rn_message = message\<rparr>,
                ws_resyncing := False\<rparr>;
          w = call_connection env conn_stop (stopResyncWork w)
      in room_status message (setConnectionState Recovery w))"

section \<open>The resynchronisation controller's callbacks\<close>

definition resync_onStarted :: "('st, 'cs, 'd) roomEnv \<Rightarrow> 'st workspace \<Rightarrow> 'st workspace" where
  "resync_onStarted env w = update_work (\<lambda>work. case rw_resyncWorkStop work of
       Some stop \<Rightarrow> work
     | None \<Rightarrow> (let (l, stop) = beginLoading (re_accent env) (rw_loading work)
                in work\<lparr>rw_loading := l, rw_resyncWorkStop := Some stop\<rparr>))
     (setConnectionState Reconnecting (w\<lparr>ws_resyncing := True\<rparr>))"

definition resync_onSucceeded :: "('st, 'cs, 'd) roomEnv \<Rightarrow> 'st workspace \<Rightarrow> 'st workspace" where
  "resync_onSucceeded env w0 =
     (let w = stopResyncWork (w0\<lparr>ws_resyncing := False\<rparr>)
      in if ws_recovering w then setConnectionState Recovery (call_connection env conn_stop w)
         else call_connection env reconnectAfterResync w)"

text \<open>An exception in either of the next two is not caught by the component; the flag records it.\<close>

definition applyBuffered ::
  "('st, 'cs, 'd) roomEnv \<Rightarrow> liveWireEvent \<Rightarrow> 'st workspace \<Rightarrow> 'st workspace \<times> bool" where
  "applyBuffered env event w = (case event of
     Changes e \<Rightarrow> (case applyDocumentEvent env e w of
         (w, Some b) \<Rightarrow> (w, b) | (w, None) \<Rightarrow> (w\<lparr>ws_uncaught := True\<rparr>, False))
   | DocumentCreated operationID client revision document \<Rightarrow> applyMetadataEvent env event w
   | DocumentUpdated operationID client revision documentID name language \<Rightarrow> applyMetadataEvent env event w
   | DocumentDeleted operationID client revision documentID \<Rightarrow> applyMetadataEvent env event w
   | DocumentReordered operationID client revision order \<Rightarrow> applyMetadataEvent env event w
   | _ \<Rightarrow> (w, True))"

definition reconcile_callback ::
  "('st, 'cs, 'd) roomEnv \<Rightarrow> liveRoomSnapshot \<Rightarrow> liveRevisionAuthority \<Rightarrow> 'st workspace
   \<Rightarrow> 'st workspace \<times> liveResyncReconcileResult" where
  "reconcile_callback env snapshot requestedAuthority w =
     (case reconcileSnapshot env (ls_documents snapshot) (ls_metadataRevision snapshot) requestedAuthority
             (ls_acceptedOperationIDs snapshot) w of
        (w, Some b) \<Rightarrow> (w, if b then Reconciled else NotReconciled)
      | (w, None) \<Rightarrow> (w\<lparr>ws_uncaught := True\<rparr>, NotReconciled))"

definition room_options ::
  "('st, 'cs, 'd) roomEnv \<Rightarrow> (liveRoomSnapshot, liveWireEvent, liveRevisionAuthority, 'st workspace) liveResyncOptions" where
  "room_options env =
     \<lparr>ro_captureAuthority = currentRevisionAuthority env, ro_reconcile = reconcile_callback env,
      ro_applyBuffered = applyBuffered env, ro_onStarted = resync_onStarted env,
      ro_onSucceeded = resync_onSucceeded env, ro_onFailed = (\<lambda>reason. enterResyncRecovery env),
      ro_bufferLimit = liveResyncBufferLimit, ro_maxAttempts = 4, ro_maxElapsedMs = 10000, ro_retryBaseMs = 150,
      ro_retryMaxMs = 1200\<rparr>"

type_synonym 'st room = "(liveWireEvent, liveRevisionAuthority, 'st workspace) liveResync"

definition on_world :: "('st workspace \<Rightarrow> 'st workspace) \<Rightarrow> 'st room \<Rightarrow> 'st room" where
  "on_world f s = s\<lparr>rs_world := f (rs_world s)\<rparr>"

definition refreshSnapshot :: "('st, 'cs, 'd) roomEnv \<Rightarrow> 'st room \<Rightarrow> 'st room" where
  "refreshSnapshot env s = resync_start (room_options env) s"

section \<open>Operation errors\<close>

definition is_create_operation :: "liveOperation \<Rightarrow> bool" where
  "is_create_operation operation \<longleftrightarrow> op_kind operation = KMetadata
     \<and> prop_of (op_message operation) (js ''type'') = JStr (js ''document_create'')"

definition tab_limit_message :: "('st, 'cs, 'd) roomEnv \<Rightarrow> jsstring" where
  "tab_limit_message env = js ''This room is limited to '' @ int_str (re_maxTabs env) @ js '' tabs''"

definition rejection_message :: "liveOperationErrorClass \<Rightarrow> jsstring" where
  "rejection_message category = (case category of
     Auth \<Rightarrow> js ''This edit needs a new room session. Your text is preserved for recovery.''
   | Overload \<Rightarrow> js ''This edit could not be accepted because the room is busy. Your text is preserved for recovery.''
   | _ \<Rightarrow> js ''This edit was rejected. Your text is preserved for recovery.'')"

definition refresh_unless_resyncing :: "('st, 'cs, 'd) roomEnv \<Rightarrow> 'st room \<Rightarrow> 'st room" where
  "refresh_unless_resyncing env s = (if ws_resyncing (rs_world s) then s else refreshSnapshot env s)"

definition reject_operation :: "jsstring option \<Rightarrow> liveOperationErrorClass \<Rightarrow> 'st workspace \<Rightarrow> 'st workspace" where
  "reject_operation operationID category w =
     (case reject operationID (ws_generation w) (ws_tracker w) of
        (ops, None) \<Rightarrow> w\<lparr>ws_tracker := ops\<rparr>
      | (ops, Some operation) \<Rightarrow> enterRecovery operation (rejection_message category) (w\<lparr>ws_tracker := ops\<rparr>))"

definition recoverOperationError ::
  "('st, 'cs, 'd) roomEnv \<Rightarrow> jsstring \<Rightarrow> jsstring option \<Rightarrow> jsstring option \<Rightarrow> 'st room \<Rightarrow> 'st room" where
  "recoverOperationError env code operationID status s =
     (case tracker_get (ws_tracker (rs_world s)) operationID of
        Some pendingOperation \<Rightarrow>
          if code = js ''room_limit_reached'' \<and> is_create_operation pendingOperation
          then refresh_unless_resyncing env (on_world (\<lambda>w.
                 room_status (tab_limit_message env) (release_metadata (op_id pendingOperation)
                   (w\<lparr>ws_tracker := tracker_clear (Some (op_id pendingOperation)) (ws_tracker w)\<rparr>))) s)
          else
            let category = classifyLiveOperationError code status
            in if category = Retryable \<or> category = Resync then refresh_unless_resyncing env s
               else on_world (reject_operation operationID category) s
      | None \<Rightarrow>
          let category = classifyLiveOperationError code status
          in if category = Retryable \<or> category = Resync then refresh_unless_resyncing env s
             else on_world (reject_operation operationID category) s)"

section \<open>Sending\<close>

definition replayPendingMetadata :: "int \<Rightarrow> 'st workspace \<Rightarrow> 'st workspace" where
  "replayPendingMetadata generation w =
     (case tracker_get (ws_tracker w) (Some (ws_metadataOperation w)) of
        None \<Rightarrow> w
      | Some operation \<Rightarrow>
          if op_kind operation \<noteq> KMetadata \<or> \<not> shouldSend (ws_tracker w) (op_id operation) generation then w
          else
            let (w, sent) = room_send (op_message operation) w
            in if \<not> sent then w
               else w\<lparr>ws_tracker := fst (markSent (op_id operation) generation (ws_tracker w))\<rparr>)"

definition push_message :: "('st, 'cs, 'd) roomEnv \<Rightarrow> jsstring \<Rightarrow> jsstring \<Rightarrow> 'cs liveOutboundUpdate \<Rightarrow> jsval" where
  "push_message env operationID documentID pending = JObj
     [(js ''type'', JStr (js ''push_changes'')), (js ''operation_id'', JStr operationID),
      (js ''client_id'', JStr (re_clientID env)), (js ''document_id'', JStr documentID),
      (js ''base_version'', JInt (ou_baseVersion pending)),
      (js ''changes'', cs_toJSON (re_cs env) (up_changes (ou_update pending)))]"

definition operation_for :: "('st, 'cs, 'd) roomEnv \<Rightarrow> 'st \<Rightarrow> 'st workspace \<Rightarrow> 'st workspace \<times> jsstring" where
  "operation_for env state w0 =
     (let origin = ed_origin (re_ed env) state;
          (w, operationID) = (case map_get (ws_operationIDs w0) origin of
              Some i \<Rightarrow> (w0, i) | None \<Rightarrow> draw_id env ''op-'' w0)
      in (w\<lparr>ws_operationIDs := AList.update origin operationID (ws_operationIDs w)\<rparr>, operationID))"

definition track_document ::
  "('st, 'cs, 'd) roomEnv \<Rightarrow> int \<Rightarrow> jsstring \<Rightarrow> jsstring \<Rightarrow> 'st \<Rightarrow> jsval \<Rightarrow> 'st workspace \<Rightarrow> 'st workspace" where
  "track_document env generation operationID documentID state message w =
     (if tracker_get (ws_tracker w) (Some operationID) \<noteq> None then w
      else w\<lparr>ws_tracker := track \<lparr>op_id = operationID, op_kind = KDocument, op_generation = generation,
               op_documentID = Some documentID, op_recoveryText = ed_doc (re_ed env) state, op_message = message,
               op_sentGeneration = None, op_terminal = None\<rparr> (ws_tracker w)\<rparr>)"

text \<open>The loop over the editors; a send that fails ends it.\<close>

fun flush_editors ::
  "('st, 'cs, 'd) roomEnv \<Rightarrow> int \<Rightarrow> (jsstring \<times> 'st) list \<Rightarrow> 'st workspace \<Rightarrow> 'st workspace" where
  "flush_editors env generation [] w = w"
| "flush_editors env generation ((documentID, state) # entries) w =
     (case nextLiveOutboundUpdate (collabAPI.truncate (re_ed env)) state of
        None \<Rightarrow> flush_editors env generation entries w
      | Some pending \<Rightarrow>
          let (w, operationID) = operation_for env state w;
              message = push_message env operationID documentID pending;
              w = track_document env generation operationID documentID state message w
          in if \<not> shouldSend (ws_tracker w) operationID generation then flush_editors env generation entries w
             else
               let (w, sent) = room_send message w
               in if \<not> sent then w
                  else flush_editors env generation entries
                         (w\<lparr>ws_tracker := fst (markSent operationID generation (ws_tracker w))\<rparr>))"

definition flushChanges :: "('st, 'cs, 'd) roomEnv \<Rightarrow> 'st workspace \<Rightarrow> 'st workspace" where
  "flushChanges env w =
     (if ws_connection w \<noteq> Connected \<or> ws_resyncing w \<or> ws_recovering w \<or> \<not> ws_localCanEdit w then w
      else flush_editors env (ws_generation w) (ws_editors w) w)"

definition flushTimerFired :: "('st, 'cs, 'd) roomEnv \<Rightarrow> 'st workspace \<Rightarrow> 'st workspace" where
  "flushTimerFired env w = flushChanges env (w\<lparr>ws_flushTimer := False\<rparr>)"

section \<open>Incoming events\<close>

definition wire_type :: "liveWireEvent \<Rightarrow> jsstring" where
  "wire_type event = js (case event of
     Joined e \<Rightarrow> ''joined''
   | Changes e \<Rightarrow> ''changes''
   | DocumentCreated a b c d \<Rightarrow> ''document_created''
   | DocumentUpdated a b c d e f \<Rightarrow> ''document_updated''
   | DocumentDeleted a b c d \<Rightarrow> ''document_deleted''
   | DocumentReordered a b c d \<Rightarrow> ''document_reordered''
   | Presence k p \<Rightarrow> (case k of PresenceJoined \<Rightarrow> ''presence_joined'' | PresenceUpdated \<Rightarrow> ''presence_updated''
       | ParticipantRenamed \<Rightarrow> ''participant_renamed'')
   | PresenceLeft i p \<Rightarrow> ''presence_left''
   | RoomModeChanged b ps \<Rightarrow> ''room_mode_changed''
   | RoomLayoutChanged l \<Rightarrow> ''room_layout_changed''
   | ParticipantRemoved i \<Rightarrow> ''participant_removed''
   | StatusEvent st \<Rightarrow> ''status''
   | ErrorEvent a b c d \<Rightarrow> ''error'')"

definition save_nickname :: "('st, 'cs, 'd) roomEnv \<Rightarrow> jsstring \<Rightarrow> 'st workspace \<Rightarrow> 'st workspace" where
  "save_nickname env nickname = update_view (\<lambda>v.
     v\<lparr>rv_storage := saveLiveBrowserNickname (re_slug env) (re_sessionID env) nickname (rv_storage v)\<rparr>)"

definition handleJoined :: "('st, 'cs, 'd) roomEnv \<Rightarrow> joinedEvent \<Rightarrow> 'st workspace \<Rightarrow> 'st workspace" where
  "handleJoined env event w =
     (let local = je_participant event;
          w = update_view (\<lambda>v. v\<lparr>rv_participants := je_participants event, rv_localParticipantID := pt_id local\<rparr>) w;
          w = save_nickname env (pt_nickname local) (setLocalParticipantAuthority local w);
          w = update_view (\<lambda>v. v\<lparr>rv_creator := je_creator event, rv_creatorPreset := je_layoutPreset event,
                rv_roomWatchOnly := je_watchOnly event, rv_roomFull := False\<rparr>) w;
          w = (if tracker_get (ws_tracker w) (Some (ws_metadataOperation w)) = None
               then w\<lparr>ws_metadataBusy := False\<rparr> else w);
          w = call_connection env markJoined (w\<lparr>ws_generation := ws_generation w + 1\<rparr>);
          w = replayPendingMetadata (ws_generation w) w
      in scheduleFlush (updateQueueState env True w))"

definition upsert_participant :: "liveParticipant \<Rightarrow> liveParticipant list \<Rightarrow> liveParticipant list" where
  "upsert_participant p ps = filter (\<lambda>q. pt_id q \<noteq> pt_id p) ps @ [p]"

definition handlePresence ::
  "('st, 'cs, 'd) roomEnv \<Rightarrow> presenceKind \<Rightarrow> liveParticipant \<Rightarrow> 'st workspace \<Rightarrow> 'st workspace" where
  "handlePresence env kind participant w0 =
     (let w = update_view (\<lambda>v. v\<lparr>rv_participants := upsert_participant participant (rv_participants v)\<rparr>) w0
      in if kind = ParticipantRenamed \<and> pt_id participant = rv_localParticipantID (ws_view w)
         then save_nickname env (pt_nickname participant) w else w)"

definition handlePresenceLeft :: "jsstring \<Rightarrow> liveParticipant option \<Rightarrow> 'st workspace \<Rightarrow> 'st workspace" where
  "handlePresenceLeft participantID remaining w0 =
     (let w = update_view (\<lambda>v. v\<lparr>rv_participants := map (\<lambda>p.
            if pt_id p = participantID
            then (case remaining of Some r \<Rightarrow> r | None \<Rightarrow> p\<lparr>pt_status := StatusConnectionLost\<rparr>)
            else p) (rv_participants v)\<rparr>) w0
      in case remaining of
           Some r \<Rightarrow> if pt_id r = rv_localParticipantID (ws_view w) then setLocalParticipantAuthority r w else w
         | None \<Rightarrow> w)"

definition handleRoomMode :: "bool \<Rightarrow> liveParticipant list \<Rightarrow> 'st workspace \<Rightarrow> 'st workspace" where
  "handleRoomMode watchOnly participants w0 =
     (let w = update_view (\<lambda>v. v\<lparr>rv_participants := participants, rv_roomWatchOnly := watchOnly\<rparr>) w0
      in case List.find (\<lambda>p. pt_id p = rv_localParticipantID (ws_view w)) participants of
           Some local \<Rightarrow> setLocalParticipantAuthority local w
         | None \<Rightarrow> w)"

definition expireRoom :: "'st workspace \<Rightarrow> 'st workspace" where
  "expireRoom w = room_status (js ''Live room expired'')
     ((setConnectionState Offline (w\<lparr>ws_fatal := True\<rparr>))\<lparr>ws_tracker := tracker_clear None (ws_tracker w)\<rparr>)"

text \<open>The switch of \<open>handleEvent\<close>; the flag is False when it throws.\<close>

definition refresh_if_refused ::
  "('st, 'cs, 'd) roomEnv \<Rightarrow> 'st workspace \<times> bool \<Rightarrow> 'st room \<Rightarrow> 'st room" where
  "refresh_if_refused env r s =
     (let s = s\<lparr>rs_world := fst r\<rparr> in if snd r then s else refreshSnapshot env s)"

definition dispatchEvent :: "('st, 'cs, 'd) roomEnv \<Rightarrow> liveWireEvent \<Rightarrow> 'st room \<Rightarrow> 'st room \<times> bool" where
  "dispatchEvent env event s = (case event of
     Joined e \<Rightarrow> (on_world (handleJoined env e) s, True)
   | Changes e \<Rightarrow>
       (case applyDocumentEvent env e (rs_world s) of
          (w, None) \<Rightarrow> (s\<lparr>rs_world := w\<rparr>, False)
        | (w, Some applied) \<Rightarrow> (refresh_if_refused env (w, applied) s, True))
   | Presence kind participant \<Rightarrow> (on_world (handlePresence env kind participant) s, True)
   | PresenceLeft participantID remaining \<Rightarrow> (on_world (handlePresenceLeft participantID remaining) s, True)
   | RoomModeChanged watchOnly participants \<Rightarrow> (on_world (handleRoomMode watchOnly participants) s, True)
   | RoomLayoutChanged preset \<Rightarrow> (on_world (update_view (\<lambda>v. v\<lparr>rv_creatorPreset := preset\<rparr>)) s, True)
   | ParticipantRemoved participantID \<Rightarrow>
       (on_world (update_view (\<lambda>v. v\<lparr>rv_participants := filter (\<lambda>p. pt_id p \<noteq> participantID) (rv_participants v)\<rparr>)) s, True)
   | StatusEvent status \<Rightarrow>
       (if status = HttpResyncRequired \<and> \<not> isActive s then refreshSnapshot env s else s, True)
   | ErrorEvent code message operationID status \<Rightarrow>
       (if code = js ''room_expired'' \<or> status = Some (js ''expired'') then on_world expireRoom s
        else recoverOperationError env code operationID status s, True)
   | _ \<Rightarrow> (refresh_if_refused env (applyMetadataEvent env event (rs_world s)) s, True))"

definition handleEvent :: "('st, 'cs, 'd) roomEnv \<Rightarrow> liveWireEvent \<Rightarrow> 'st room \<Rightarrow> 'st room \<times> bool" where
  "handleEvent env event s =
     (if isAuthorityEvent (wire_type event) then
        (let (s, buffered) = bufferEvent (room_options env) event s
         in if buffered then (s, True) else dispatchEvent env event s)
      else dispatchEvent env event s)"

definition onMessage :: "('st, 'cs, 'd) roomEnv \<Rightarrow> jsstring \<Rightarrow> 'st room \<Rightarrow> 'st room" where
  "onMessage env data s =
     (case Option.bind (json_parse data) (decodeLiveWireEvent (re_isoDate env)) of
        None \<Rightarrow> on_world (room_status (js ''Received an invalid live room update'')) s
      | Some event \<Rightarrow>
          (case handleEvent env event s of
             (s, True) \<Rightarrow> s
           | (s, False) \<Rightarrow> on_world (room_status (js ''Received an invalid live room update'')) s))"

definition room_callback :: "('st, 'cs, 'd) roomEnv \<Rightarrow> connectionEffect \<Rightarrow> 'st room \<Rightarrow> 'st room" where
  "room_callback env effect s = (case effect of
     OnMessage data \<Rightarrow> onMessage env data s
   | _ \<Rightarrow> on_world (connection_callback env effect) s)"

definition connection_event :: "('st, 'cs, 'd) roomEnv \<Rightarrow> connectionEvent \<Rightarrow> 'st room \<Rightarrow> 'st room" where
  "connection_event env event s =
     (let c = ws_controller (rs_world s); c' = conn_step (default_options True) event c
      in fold (room_callback env) (drop (length (cn_log c)) (cn_log c')) (on_world (\<lambda>w. w\<lparr>ws_controller := c'\<rparr>) s))"

section \<open>The user's operations\<close>

definition currentPreset :: "roomView \<Rightarrow> liveLayoutPreset" where
  "currentPreset v = (if rv_creator v \<or> lp_followCreator (rv_layoutPreference v) then rv_creatorPreset v
     else lp_preset (rv_layoutPreference v))"

definition panelLayout :: "roomView \<Rightarrow> liveLayoutPreset" where
  "panelLayout v = (if currentPreset v = SinglePane then rv_lastSplitLayout v else currentPreset v)"

definition paneCount :: "roomView \<Rightarrow> nat" where
  "paneCount v = (case List.find (\<lambda>item. fst item = panelLayout v) livePanelLayouts of
     None \<Rightarrow> 0 | Some item \<Rightarrow> snd (snd item))"

definition room_split :: "roomView \<Rightarrow> bool" where
  "room_split v \<longleftrightarrow> currentPreset v \<noteq> SinglePane \<and> \<not> rv_narrowWorkspace v"

definition cancelTabRename :: "'st workspace \<Rightarrow> 'st workspace" where
  "cancelTabRename = update_view (\<lambda>v. v\<lparr>rv_tabRename := None\<rparr>)"

definition selectDocument :: "('st, 'cs, 'd) roomEnv \<Rightarrow> jsstring \<Rightarrow> 'st workspace \<Rightarrow> 'st workspace" where
  "selectDocument env documentID w =
     (if \<not> has_document w documentID then w
      else
        let w = (if documentID \<noteq> ws_active w then cancelTabRename w else w);
            n = paneCount (ws_view w);
            w = (if room_split (ws_view w) \<and> documentID \<notin> set (take n (ws_panes w))
                 then assignPaneDocument
                   (case index_of (ws_active w) (ws_panes w) of
                      Some focused \<Rightarrow> if focused < n then focused else 0 | None \<Rightarrow> 0) documentID w
                 else w);
            w = w\<lparr>ws_active := documentID\<rparr>
        in case map_get (ws_editors w) documentID of
             None \<Rightarrow> w
           | Some state \<Rightarrow> fst (sendPresence env state documentID w))"

definition metadata_message ::
  "('st, 'cs, 'd) roomEnv \<Rightarrow> string \<Rightarrow> jsstring \<Rightarrow> (jsstring \<times> jsval) list \<Rightarrow> 'st workspace \<Rightarrow> jsval" where
  "metadata_message env kind operationID extra w = JObj
     ([(js ''type'', JStr (js kind)), (js ''operation_id'', JStr operationID),
       (js ''client_id'', JStr (re_clientID env)), (js ''base_version'', JInt (ws_metadataRevision w))] @ extra)"

definition sendMetadata ::
  "('st, 'cs, 'd) roomEnv \<Rightarrow> string \<Rightarrow> (jsstring \<times> jsval) list \<Rightarrow> 'st workspace \<Rightarrow> 'st workspace \<times> bool" where
  "sendMetadata env kind extra w =
     (if ws_connection w \<noteq> Connected \<or> ws_metadataBusy w \<or> ws_recovering w \<or> \<not> ws_localCanEdit w then (w, False)
      else
        let (w, operationID) = draw_id env ''meta-'' w;
            message = metadata_message env kind operationID extra w;
            recovery = (case json_stringify (JObj extra) of None \<Rightarrow> [] | Some t \<Rightarrow> t);
            w = w\<lparr>ws_tracker := track \<lparr>op_id = operationID, op_kind = KMetadata, op_generation = ws_generation w,
                    op_documentID = None, op_recoveryText = recovery, op_message = message,
                    op_sentGeneration = None, op_terminal = None\<rparr> (ws_tracker w),
                  ws_metadataOperation := operationID, ws_metadataBusy := True\<rparr>;
            (w, sent) = room_send message w
        in if \<not> sent
           then (w\<lparr>ws_metadataOperation := [], ws_metadataBusy := False,
                    ws_tracker := tracker_clear (Some operationID) (ws_tracker w)\<rparr>, False)
           else (w\<lparr>ws_tracker := fst (markSent operationID (ws_generation w) (ws_tracker w))\<rparr>, True))"

definition addDocument :: "('st, 'cs, 'd) roomEnv \<Rightarrow> nat option \<Rightarrow> 'st workspace \<Rightarrow> 'st workspace" where
  "addDocument env pane w =
     (if int (length (ws_documents w)) \<ge> re_maxTabs env then room_status (tab_limit_message env) w
      else
        let (w, sent) = sendMetadata env ''document_create''
              [(js ''name'', JStr (nextLiveTabName (map doc_name (ws_documents w)))),
               (js ''language'', JStr (js ''plaintext'')), (js ''content'', JStr [])] w
        in if sent then w\<lparr>ws_newDocumentPane := pane\<rparr> else w)"

definition find_document :: "jsstring \<Rightarrow> 'st workspace \<Rightarrow> liveRoomDocument option" where
  "find_document documentID w = List.find (\<lambda>d. doc_id d = documentID) (ws_documents w)"

definition renameDocument :: "'st workspace \<Rightarrow> 'st workspace" where
  "renameDocument w = (case find_document (ws_active w) w of
     None \<Rightarrow> w | Some document \<Rightarrow> update_view (\<lambda>v. v\<lparr>rv_tabRename := Some (doc_name document)\<rparr>) w)"

text \<open>\<open>value\<close> is the text in the rename field.\<close>

definition submitRename :: "('st, 'cs, 'd) roomEnv \<Rightarrow> jsstring \<Rightarrow> 'st workspace \<Rightarrow> 'st workspace" where
  "submitRename env value w =
     (case find_document (ws_active w) w of
        None \<Rightarrow> cancelTabRename w
      | Some document \<Rightarrow>
          if trim value = [] then room_status (js ''Tab name cannot be empty'') (cancelTabRename w)
          else if trim value = doc_name document then cancelTabRename w
          else cancelTabRename (fst (sendMetadata env ''document_update''
            [(js ''document_id'', JStr (ws_active w)), (js ''name'', JStr (trim value)),
             (js ''language'', JStr (doc_language document))] w)))"

definition updateLanguage :: "('st, 'cs, 'd) roomEnv \<Rightarrow> jsstring \<Rightarrow> jsstring \<Rightarrow> 'st workspace \<Rightarrow> 'st workspace" where
  "updateLanguage env language documentID w =
     (case find_document documentID w of
        None \<Rightarrow> w
      | Some document \<Rightarrow> fst (sendMetadata env ''document_update''
          [(js ''document_id'', JStr documentID), (js ''name'', JStr (doc_name document)),
           (js ''language'', JStr language)] w))"

definition deleteDocument :: "('st, 'cs, 'd) roomEnv \<Rightarrow> jsstring \<Rightarrow> 'st workspace \<Rightarrow> 'st workspace" where
  "deleteDocument env documentID w =
     (if length (ws_documents w) \<le> 1 then room_status (js ''A live room needs at least one tab'') w
      else fst (sendMetadata env ''document_delete'' [(js ''document_id'', JStr documentID)] w))"

definition commitTabOrder :: "('st, 'cs, 'd) roomEnv \<Rightarrow> jsstring list \<Rightarrow> 'st workspace \<Rightarrow> 'st workspace" where
  "commitTabOrder env order w =
     (let currentOrder = map doc_id (ws_documents w)
      in if length order \<noteq> length currentOrder \<or> order = currentOrder then w
         else
           let (w, sent) = sendMetadata env ''document_reorder'' [(js ''order'', JArr (map JStr order))] w
           in if sent then w\<lparr>ws_pendingTabOrder := Some order\<rparr> else w)"

text \<open>\<open>offset\<close> is -1 or 1.\<close>

definition moveDocument :: "('st, 'cs, 'd) roomEnv \<Rightarrow> jsstring \<Rightarrow> int \<Rightarrow> 'st workspace \<Rightarrow> 'st workspace" where
  "moveDocument env documentID offset w =
     (let order = map doc_id (ws_documents w)
      in case index_of documentID order of
           None \<Rightarrow> w
         | Some index \<Rightarrow>
             let targetIndex = int index + offset
             in if targetIndex < 0 \<or> targetIndex \<ge> int (length order) then w
                else commitTabOrder env (reorderLiveTabIDs order documentID (order ! nat targetIndex)
                       (if offset < 0 then DropBefore else DropAfter)) w)"

definition exportPaste :: "('st, 'cs, 'd) roomEnv \<Rightarrow> exportMode \<Rightarrow> 'st workspace \<Rightarrow> 'st workspace" where
  "exportPaste env mode w =
     w\<lparr>ws_saved := ws_saved w @ [livePasteExport (export_documents env w) (ws_active w) mode]\<rparr>"

definition copyRecoveryText :: "bool \<Rightarrow> 'st workspace \<Rightarrow> 'st workspace" where
  "copyRecoveryText copied w = (case ws_recovery w of
     None \<Rightarrow> w
   | Some notice \<Rightarrow>
       if copied
       then room_status (js ''Recovery text copied'')
              (w\<lparr>ws_tracker := tracker_clear (Some (rn_operationID notice)) (ws_tracker w)\<rparr>)
       else room_status (js ''Could not copy recovery text'') w)"

definition chooseLayout :: "liveLayoutPreset \<Rightarrow> 'st workspace \<Rightarrow> 'st workspace" where
  "chooseLayout preset w =
     cancelTabRename
       (if rv_creator (ws_view w) then
          (let (w, sent) = room_send (JObj [(js ''type'', JStr (js ''room_layout'')),
                 (js ''layout_preset'', JStr (preset_id preset))]) w
           in if sent then w else room_status (js ''Could not change room layout'') w)
        else update_view (\<lambda>v. v\<lparr>rv_layoutPreference := \<lparr>lp_followCreator = False, lp_preset = preset\<rparr>\<rparr>) w)"

definition toggleSplit :: "'st workspace \<Rightarrow> 'st workspace" where
  "toggleSplit w = chooseLayout (if room_split (ws_view w) then SinglePane else panelLayout (ws_view w)) w"

section \<open>Effects of a render\<close>

definition sync_refs :: "'st workspace \<Rightarrow> 'st workspace" where
  "sync_refs w = w\<lparr>ws_documents := ws_shown w\<rparr>"

definition save_layout :: "('st, 'cs, 'd) roomEnv \<Rightarrow> 'st workspace \<Rightarrow> 'st workspace" where
  "save_layout env = update_view (\<lambda>v. v\<lparr>rv_storage := map_option
     (saveLiveLayoutPreference (re_slug env) (re_expiresAt env) (rv_layoutPreference v)) (rv_storage v)\<rparr>)"

definition remember_split :: "'st workspace \<Rightarrow> 'st workspace" where
  "remember_split = update_view (\<lambda>v. if currentPreset v \<noteq> SinglePane then v\<lparr>rv_lastSplitLayout := currentPreset v\<rparr> else v)"

text \<open>The loop that fills empty panes with documents that have no pane.\<close>

fun fill_panes :: "jsstring list \<Rightarrow> jsstring list \<Rightarrow> jsstring list" where
  "fill_panes available [] = []"
| "fill_panes available (p # ps) =
     (if p \<noteq> [] then p # fill_panes available ps
      else (case available of [] \<Rightarrow> [] # fill_panes [] ps | a # as \<Rightarrow> a # fill_panes as ps))"

definition reconcile_panes :: "jsstring list \<Rightarrow> jsstring list \<Rightarrow> jsstring list" where
  "reconcile_panes documents previous =
     (let next = map (\<lambda>i. if i \<in> set documents then i else []) previous
      in fill_panes (filter (\<lambda>i. i \<notin> set next) documents) next)"

definition panes_effect :: "'st workspace \<Rightarrow> 'st workspace" where
  "panes_effect w = w\<lparr>ws_panes := reconcile_panes (map doc_id (ws_shown w)) (ws_panes w)\<rparr>"

definition active_pane_effect :: "'st workspace \<Rightarrow> 'st workspace" where
  "active_pane_effect w =
     (let panes = take (paneCount (ws_view w)) (ws_panes w); shown = map doc_id (ws_shown w)
      in if \<not> room_split (ws_view w) \<or> ws_active w \<in> set panes then w
         else if ws_active w \<in> set shown then assignPaneDocument 0 (ws_active w) w
         else (case List.find (\<lambda>i. i \<in> set shown) panes of
                 Some next \<Rightarrow> if next \<noteq> [] then w\<lparr>ws_active := next\<rparr> else w
               | None \<Rightarrow> w))"

definition renderedDocuments :: "'st workspace \<Rightarrow> liveRoomDocument list" where
  "renderedDocuments w =
     (case ws_pendingTabOrder w of
        None \<Rightarrow> ws_shown w
      | Some order \<Rightarrow>
          if length order \<noteq> length (ws_shown w) then ws_shown w
          else
            let byID = map_new (map (\<lambda>d. (doc_id d, d)) (ws_shown w));
                ordered = concat (map (\<lambda>i. case map_get byID i of None \<Rightarrow> [] | Some d \<Rightarrow> [d]) order)
            in if length ordered = length (ws_shown w) then ordered else ws_shown w)"

definition render_editor :: "('st, 'cs, 'd) roomEnv \<Rightarrow> liveRoomDocument \<Rightarrow> 'st workspace \<Rightarrow> 'st workspace" where
  "render_editor env document w = fst (getEditorState env document w)"

definition view_ready :: "jsstring \<Rightarrow> bool \<Rightarrow> 'st workspace \<Rightarrow> 'st workspace" where
  "view_ready documentID mounted w =
     w\<lparr>ws_views := (if mounted then List.insert documentID (ws_views w) else removeAll documentID (ws_views w))\<rparr>"

definition authentication_effect :: "bool \<Rightarrow> 'st room \<Rightarrow> 'st room" where
  "authentication_effect authenticationRequired s =
     (if \<not> authenticationRequired then s
      else on_world (\<lambda>w. stopResyncWork (w\<lparr>ws_resyncing := False\<rparr>)) (resync_stop s))"

text \<open>\<open>newer\<close>: the generation of the reauthentication exceeds the one last handled.\<close>

definition reauthentication_effect :: "('st, 'cs, 'd) roomEnv \<Rightarrow> bool \<Rightarrow> bool \<Rightarrow> 'st room \<Rightarrow> 'st room" where
  "reauthentication_effect env authenticationRequired newer s =
     (if authenticationRequired \<or> \<not> newer then s
      else if ws_fatal (rs_world s) \<or> ws_recovering (rs_world s) then s
      else refreshSnapshot env s)"

section \<open>Panes\<close>

text \<open>The menu of a pane, which offers the documents shown, and the exchange of two panes.\<close>

definition selectPane :: "('st, 'cs, 'd) roomEnv \<Rightarrow> nat \<Rightarrow> jsstring \<Rightarrow> 'st workspace \<Rightarrow> 'st workspace" where
  "selectPane env index documentID w0 =
     (let w = cancelTabRename ((assignPaneDocument index documentID w0)\<lparr>ws_active := documentID\<rparr>)
      in case map_get (ws_editors w) documentID of
           None \<Rightarrow> w
         | Some state \<Rightarrow> fst (sendPresence env state documentID w))"

definition swap_panes :: "nat \<Rightarrow> nat \<Rightarrow> jsstring list \<Rightarrow> jsstring list" where
  "swap_panes source target previous = previous[source := previous ! target, target := previous ! source]"

definition swapPanes :: "nat \<Rightarrow> nat \<Rightarrow> 'st workspace \<Rightarrow> 'st workspace" where
  "swapPanes source target w = w\<lparr>ws_panes := swap_panes source target (ws_panes w)\<rparr>"

section \<open>Mounting and unmounting\<close>

text \<open>
  The state of a room at its first render. \<open>storage\<close> is the local storage, when there is one;
  \<open>date_parse\<close>, \<open>now\<close>, \<open>narrow\<close> and \<open>online\<close> are what the browser answers, \<open>loading\<close> the loading
  bar as the page has it.
\<close>

definition pane_documents :: "liveRoomDocument list \<Rightarrow> jsstring list" where
  "pane_documents documents = map (\<lambda>i. if i < length documents then doc_id (documents ! i) else []) [0..<4]"

definition roomView_new ::
  "(jsstring \<Rightarrow> int option) \<Rightarrow> int \<Rightarrow> bool \<Rightarrow> browserStorage option \<Rightarrow> ('st, 'cs, 'd) roomEnv \<Rightarrow> roomView" where
  "roomView_new date_parse now narrow storage env =
     \<lparr>rv_participants = [], rv_localParticipantID = [], rv_localAccessClass = CollaboratorAccess, rv_creator = False,
      rv_roomWatchOnly = False, rv_roomFull = False, rv_creatorPreset = SinglePane, rv_lastSplitLayout = Columns,
      rv_layoutPreference = (case storage of None \<Rightarrow> default_layout
        | Some st \<Rightarrow> readLiveLayoutPreference date_parse now st (re_slug env) (re_expiresAt env)),
      rv_narrowWorkspace = narrow, rv_tabRename = None, rv_storage = storage\<rparr>"

definition workspace_new :: "liveRoomSnapshot \<Rightarrow> bool \<Rightarrow> roomView \<Rightarrow> loading \<Rightarrow> 'st workspace" where
  "workspace_new room online view loading =
     \<lparr>ws_documents = normalizeLiveDocuments (ls_documents room), ws_shown = normalizeLiveDocuments (ls_documents room),
      ws_metadataRevision = ls_metadataRevision room, ws_active = first_document (ls_documents room),
      ws_editors = [], ws_views = [], ws_synced = [], ws_tracker = tracker_new, ws_operationIDs = [],
      ws_metadataOperation = [], ws_metadataBusy = False, ws_generation = 0, ws_connection = Connecting,
      ws_recovering = False, ws_recovery = None, ws_resyncing = False, ws_localCanEdit = True, ws_queueFull = False,
      ws_fatal = False, ws_flushTimer = False, ws_usageTimer = False,
      ws_roomBytes = aggregateLiveRoomBytes (ls_documents room) doc_content,
      ws_pendingTabOrder = None, ws_panes = pane_documents (ls_documents room), ws_newDocumentPane = None,
      ws_controller = liveConnection_new online, ws_readyState = 0, ws_draws = 0, ws_status = [],
      ws_reauthentications = 0, ws_saved = [], ws_uncaught = False, ws_view = view,
      ws_work = \<lparr>rw_loading = loading, rw_connectionWorkStop = None, rw_resyncWorkStop = None\<rparr>\<rparr>"

text \<open>The effect that creates both controllers and starts the connection.\<close>

definition room_mount :: "('st, 'cs, 'd) roomEnv \<Rightarrow> int \<Rightarrow> 'st workspace \<Rightarrow> 'st room" where
  "room_mount env now w = liveResync_new now (call_connection env (conn_start (default_options True))
     (w\<lparr>ws_fatal := False, ws_recovering := False, ws_recovery := None\<rparr>))"

text \<open>Its clean-up: both controllers stop, the tracked operations are dropped, no load is left running.\<close>

definition room_unmount :: "('st, 'cs, 'd) roomEnv \<Rightarrow> 'st room \<Rightarrow> 'st room" where
  "room_unmount env s =
     on_world (\<lambda>w0.
       let w = call_connection env conn_stop (w0\<lparr>ws_flushTimer := False, ws_usageTimer := False\<rparr>);
           w = w\<lparr>ws_tracker := tracker_clear None (ws_tracker w)\<rparr>
       in stopResyncWork (onWork env False w)) (resync_stop s)"

section \<open>Steps\<close>

text \<open>
  What happens to a mounted room: the socket and the network, answers to snapshot requests, timers,
  transactions of the mounted editors, the user, and React running effects after a render.
\<close>

datatype 'st roomEvent =
    ConnectionEvent connectionEvent
  | ReadyStateChanged int
  | SnapshotEvent "(liveRoomSnapshot, liveWireEvent) resync_event"
  | FlushTimer
  | UsageTimer
  | EditorDispatched jsstring 'st bool
  | EditorRendered liveRoomDocument
  | ViewReady jsstring bool
  | RefsEffect
  | LayoutEffect
  | SplitEffect
  | PanesEffect
  | ActivePaneEffect
  | NarrowChanged bool
  | AuthenticationEffect bool
  | ReauthenticationEffect bool bool
  | SelectDocument jsstring
  | SelectPane nat jsstring
  | SwapPanes nat nat
  | AddDocument "nat option"
  | RenameDocument
  | CancelTabRename
  | SubmitRename jsstring
  | UpdateLanguage jsstring jsstring
  | DeleteDocument jsstring
  | CommitTabOrder "jsstring list"
  | MoveDocument jsstring int
  | ExportPaste exportMode
  | CopyRecoveryText bool
  | ChooseLayout liveLayoutPreset
  | ToggleSplit

fun room_step :: "('st, 'cs, 'd) roomEnv \<Rightarrow> 'st roomEvent \<Rightarrow> 'st room \<Rightarrow> 'st room" where
  "room_step env (ConnectionEvent e) s = connection_event env e s"
| "room_step env (ReadyStateChanged n) s = on_world (\<lambda>w. w\<lparr>ws_readyState := n\<rparr>) s"
| "room_step env (SnapshotEvent e) s = resync_step (room_options env) e s"
| "room_step env FlushTimer s = (if ws_flushTimer (rs_world s) then on_world (flushTimerFired env) s else s)"
| "room_step env UsageTimer s = (if ws_usageTimer (rs_world s) then on_world (usageTimerFired env) s else s)"
| "room_step env (EditorDispatched i state changed) s = on_world (\<lambda>w. fst (view_dispatched env i state changed w)) s"
| "room_step env (EditorRendered d) s = on_world (render_editor env d) s"
| "room_step env (ViewReady i mounted) s = on_world (view_ready i mounted) s"
| "room_step env RefsEffect s = on_world sync_refs s"
| "room_step env LayoutEffect s = on_world (save_layout env) s"
| "room_step env SplitEffect s = on_world remember_split s"
| "room_step env PanesEffect s = on_world panes_effect s"
| "room_step env ActivePaneEffect s = on_world active_pane_effect s"
| "room_step env (NarrowChanged b) s = on_world (update_view (\<lambda>v. v\<lparr>rv_narrowWorkspace := b\<rparr>)) s"
| "room_step env (AuthenticationEffect required) s = authentication_effect required s"
| "room_step env (ReauthenticationEffect required newer) s = reauthentication_effect env required newer s"
| "room_step env (SelectDocument i) s = on_world (selectDocument env i) s"
| "room_step env (SelectPane n i) s = on_world (selectPane env n i) s"
| "room_step env (SwapPanes a b) s = on_world (swapPanes a b) s"
| "room_step env (AddDocument pane) s = on_world (addDocument env pane) s"
| "room_step env RenameDocument s = on_world renameDocument s"
| "room_step env CancelTabRename s = on_world cancelTabRename s"
| "room_step env (SubmitRename v) s = on_world (submitRename env v) s"
| "room_step env (UpdateLanguage l i) s = on_world (updateLanguage env l i) s"
| "room_step env (DeleteDocument i) s = on_world (deleteDocument env i) s"
| "room_step env (CommitTabOrder order) s = on_world (commitTabOrder env order) s"
| "room_step env (MoveDocument i offset) s = on_world (moveDocument env i offset) s"
| "room_step env (ExportPaste mode) s = on_world (exportPaste env mode) s"
| "room_step env (CopyRecoveryText copied) s = on_world (copyRecoveryText copied) s"
| "room_step env (ChooseLayout preset) s = on_world (chooseLayout preset) s"
| "room_step env ToggleSplit s = on_world toggleSplit s"

end
