(* ===== verification/Live_Room_Sync.thy ===== *)
theory Live_Room_Sync
  imports Live_Room
begin

text \<open>
  What a live room keeps of the server's documents. A \<open>history\<close> is what the server has recorded. The
  locale \<open>document_sync\<close> is the contract of an editor with the text recorded as synchronised for it; inside
  it every operation of the workspace is shown to keep the invariant that documents, editors and
  panes fit together and that the contract holds of every document.
\<close>

section \<open>Server history\<close>

text \<open>
  What the server has recorded so far: the text of a document at a revision, the update that made a
  revision with the client it came from; the documents that exist at a metadata revision and the ones
  that are ever deleted are given for the whole life of the room.
\<close>

record history =
  hs_text :: "jsstring \<Rightarrow> int \<Rightarrow> jsstring option"
  hs_update :: "jsstring \<Rightarrow> int \<Rightarrow> (jsstring \<times> jsval) option"
  hs_alive :: "jsstring \<Rightarrow> int \<Rightarrow> bool"
  hs_deleted :: "jsstring set"

text \<open>A recorded update leads from the text of one revision to the text of the next one.\<close>

definition history_ok :: "'cs changeSetAPI \<Rightarrow> history \<Rightarrow> bool" where
  "history_ok cs h \<longleftrightarrow> (\<forall>i m m'. i \<notin> hs_deleted h \<longrightarrow> hs_alive h i m \<longrightarrow> m \<le> m' \<longrightarrow> hs_alive h i m')
     \<and> (\<forall>i r client v changes t. hs_update h i r = Some (client, v) \<longrightarrow> cs_fromJSON cs v = Some changes \<longrightarrow>
          hs_text h i (r - 1) = Some t \<longrightarrow> (\<exists>t'. cs_apply cs changes t = Some t' \<and> hs_text h i r = Some t'))"

definition genuine_document :: "history \<Rightarrow> liveRoomDocument \<Rightarrow> bool" where
  "genuine_document h d \<longleftrightarrow> hs_text h (doc_id d) (doc_revision d) = Some (doc_content d)"

text \<open>An event repeats what the server has recorded.\<close>

definition genuine_change :: "history \<Rightarrow> changesEvent \<Rightarrow> bool" where
  "genuine_change h e \<longleftrightarrow> hs_update h (ch_documentID e) (ch_revision e) = Some (ch_clientID e, ch_changes e)"

definition genuine_event :: "history \<Rightarrow> liveWireEvent \<Rightarrow> bool" where
  "genuine_event h event = (case event of
     Changes e \<Rightarrow> genuine_change h e
   | DocumentCreated operationID client revision d \<Rightarrow> genuine_document h d \<and> hs_alive h (doc_id d) revision
   | DocumentDeleted operationID client revision documentID \<Rightarrow> documentID \<in> hs_deleted h
   | _ \<Rightarrow> True)"

definition own_update :: "jsstring \<Rightarrow> history \<Rightarrow> jsstring \<Rightarrow> int \<Rightarrow> bool" where
  "own_update client h i r \<longleftrightarrow> (\<exists>v. hs_update h i r = Some (client, v))"

text \<open>
  A snapshot is truthful, and no older than the updates of this browser that are recorded when it arrives.
\<close>

definition settled_document :: "jsstring \<Rightarrow> history \<Rightarrow> liveRoomDocument \<Rightarrow> bool" where
  "settled_document client h d \<longleftrightarrow> genuine_document h d
     \<and> (\<forall>r. own_update client h (doc_id d) r \<longrightarrow> r \<le> doc_revision d)"

definition genuine_snapshot :: "jsstring \<Rightarrow> history \<Rightarrow> liveRoomSnapshot \<Rightarrow> bool" where
  "genuine_snapshot client h s \<longleftrightarrow> distinct (map doc_id (ls_documents s))
     \<and> (\<forall>d\<in>set (ls_documents s). settled_document client h d \<and> hs_alive h (doc_id d) (ls_metadataRevision s))
     \<and> (\<forall>i. i \<notin> hs_deleted h \<longrightarrow> hs_alive h i (ls_metadataRevision s) \<longrightarrow> i \<in> doc_id ` set (ls_documents s))"

lemma settled_genuine: "settled_document client h d \<Longrightarrow> genuine_document h d"
  by (simp add: settled_document_def)

section \<open>The contract of editors\<close>

definition shown_text :: "('st, 'cs, 'd) roomEnv \<Rightarrow> jsstring \<Rightarrow> 'st \<Rightarrow> jsstring option" where
  "shown_text env t st = edit_all (\<lambda>u. cs_apply (re_cs env) (up_changes u)) (co_sendableUpdates (re_ed env) st) t"

text \<open>
  A transaction of the user: updates of this client are added to the pending ones, nothing is synchronised,
  and the document is what the pending updates make of the synchronised text.
\<close>

definition local_edit :: "('st, 'cs, 'd) roomEnv \<Rightarrow> 'st \<Rightarrow> 'st \<Rightarrow> bool" where
  "local_edit env st st' \<longleftrightarrow> co_getSyncedVersion (re_ed env) st' = co_getSyncedVersion (re_ed env) st
     \<and> (\<exists>new. co_sendableUpdates (re_ed env) st' = co_sendableUpdates (re_ed env) st @ new
          \<and> (\<forall>u\<in>set new. up_clientID u = re_clientID env))
     \<and> (\<forall>t. shown_text env t st = Some (ed_doc (re_ed env) st) \<longrightarrow> shown_text env t st' = Some (ed_doc (re_ed env) st'))"

text \<open>
  What has to hold of each document is a parameter \<open>P\<close> of this theory: \<open>P i None\<close> when document
  \<open>i\<close> has no editor yet and \<open>P i (Some (t, st))\<close> when its editor is in state \<open>st\<close> and \<open>t\<close> is the text
  recorded as synchronised. The locale lists what the operations of a room ask of \<open>P\<close>: that it
  holds of a new editor, and that it survives an edit, a received update and both ways to adopt a snapshot.
\<close>

locale document_sync =
  fixes env :: "('st, 'cs, 'd) roomEnv" and h :: history
    and P :: "jsstring \<Rightarrow> (jsstring \<times> 'st) option \<Rightarrow> bool"
  assumes history: "history_ok (re_cs env) h"
    and selection: "livePresenceSelection (re_ed env) st \<noteq> None"
    and created: "doc_id d \<notin> hs_deleted h \<Longrightarrow> genuine_document h d \<Longrightarrow> P (doc_id d) None \<Longrightarrow>
      P (doc_id d) (Some (doc_content d, ed_make (re_ed env) d (re_clientID env)))"
    and edited: "i \<notin> hs_deleted h \<Longrightarrow> P i (Some (t, st)) \<Longrightarrow> local_edit env st st' \<Longrightarrow> P i (Some (t, st'))"
    and received: "ch_documentID e \<notin> hs_deleted h \<Longrightarrow> genuine_change h e \<Longrightarrow> P (ch_documentID e) (Some (t, st)) \<Longrightarrow>
      ch_revision e = co_getSyncedVersion (re_ed env) st + 1 \<Longrightarrow> cs_fromJSON (re_cs env) (ch_changes e) = Some changes \<Longrightarrow>
      ed_receive (re_ed env) \<lparr>up_changes = changes, up_clientID = ch_clientID e\<rparr> st = Some (st', b) \<Longrightarrow>
      \<exists>t'. cs_apply (re_cs env) changes t = Some t' \<and> P (ch_documentID e) (Some (t', st'))"
    and replaced: "doc_id d \<notin> hs_deleted h \<Longrightarrow> settled_document (re_clientID env) h d \<Longrightarrow> P (doc_id d) (Some (t, st)) \<Longrightarrow>
      co_getSyncedVersion (re_ed env) st < doc_revision d \<Longrightarrow>
      edit_all (\<lambda>u. ed_change (re_ed env) (up_changes u)) (us :: 'cs liveUpdate list) (ed_make (re_ed env) d (re_clientID env)) = Some current \<Longrightarrow>
      P (doc_id d) (Some (doc_content d, current))"
    and bridged: "doc_id d \<notin> hs_deleted h \<Longrightarrow> settled_document (re_clientID env) h d \<Longrightarrow> P (doc_id d) (Some (t, st)) \<Longrightarrow>
      co_getSyncedVersion (re_ed env) st < doc_revision d \<Longrightarrow>
      edit_all (\<lambda>u st. map_option fst (ed_receive (re_ed env) u st))
        (liveSnapshotUpdates (re_cs env) (diffLiveDocuments (re_cs env) t (doc_content d)) (doc_revision d)
          (co_getSyncedVersion (re_ed env) st)) st = Some current \<Longrightarrow>
      P (doc_id d) (Some (doc_content d, current))"

section \<open>The invariant\<close>

definition shape_inv :: "'st workspace \<Rightarrow> bool" where
  "shape_inv w \<longleftrightarrow> distinct (map doc_id (ws_documents w))
     \<and> map doc_id (ws_shown w) = map doc_id (ws_documents w)
     \<and> distinct (map fst (ws_editors w))
     \<and> fst ` set (ws_editors w) \<subseteq> doc_id ` set (ws_documents w)
     \<and> fst ` set (ws_synced w) \<subseteq> fst ` set (ws_editors w)
     \<and> (if ws_documents w = [] then ws_active w = [] else ws_active w \<in> doc_id ` set (ws_documents w))"

definition document_known :: "history \<Rightarrow> 'st workspace \<Rightarrow> liveRoomDocument \<Rightarrow> bool" where
  "document_known h w d \<longleftrightarrow> doc_id d \<notin> hs_deleted h \<longrightarrow>
     hs_alive h (doc_id d) (ws_metadataRevision w)
     \<and> (map_get (ws_editors w) (doc_id d) = None \<longrightarrow> genuine_document h d)"

definition editor_synced ::
  "(jsstring \<Rightarrow> (jsstring \<times> 'st) option \<Rightarrow> bool) \<Rightarrow> history \<Rightarrow> 'st workspace \<Rightarrow> jsstring \<Rightarrow> bool" where
  "editor_synced P h w i \<longleftrightarrow> i \<notin> hs_deleted h \<longrightarrow> (map_get (ws_editors w) i = None \<longrightarrow> P i None)
     \<and> (\<forall>st. map_get (ws_editors w) i = Some st \<longrightarrow> (\<exists>t. map_get (ws_synced w) i = Some t \<and> P i (Some (t, st))))"

definition text_inv :: "(jsstring \<Rightarrow> (jsstring \<times> 'st) option \<Rightarrow> bool) \<Rightarrow> history \<Rightarrow> 'st workspace \<Rightarrow> bool" where
  "text_inv P h w \<longleftrightarrow> (\<forall>i. editor_synced P h w i)
     \<and> (\<forall>d\<in>set (ws_documents w) \<union> set (ws_shown w). document_known h w d)"

definition room_inv :: "(jsstring \<Rightarrow> (jsstring \<times> 'st) option \<Rightarrow> bool) \<Rightarrow> history \<Rightarrow> 'st workspace \<Rightarrow> bool" where
  "room_inv P h w \<longleftrightarrow> shape_inv w \<and> text_inv P h w"

text \<open>The invariant reads six fields; operations that leave them alone keep it.\<close>

definition core :: "'st workspace \<Rightarrow> liveRoomDocument list \<times> liveRoomDocument list \<times> int \<times> jsstring
    \<times> (jsstring, 'st) jsmap \<times> (jsstring, jsstring) jsmap" where
  "core w = (ws_documents w, ws_shown w, ws_metadataRevision w, ws_active w, ws_editors w, ws_synced w)"

lemma room_inv_core: "core w' = core w \<Longrightarrow> room_inv P h w' = room_inv P h w"
  by (simp add: core_def room_inv_def shape_inv_def text_inv_def document_known_def editor_synced_def)

named_theorems frame

lemma core_updates [frame]:
  "core (w\<lparr>ws_views := a1\<rparr>) = core w" "core (w\<lparr>ws_tracker := a2\<rparr>) = core w"
  "core (w\<lparr>ws_operationIDs := a3\<rparr>) = core w" "core (w\<lparr>ws_metadataOperation := a4\<rparr>) = core w"
  "core (w\<lparr>ws_metadataBusy := a5\<rparr>) = core w" "core (w\<lparr>ws_generation := a6\<rparr>) = core w"
  "core (w\<lparr>ws_recovering := a7\<rparr>) = core w" "core (w\<lparr>ws_recovery := a8\<rparr>) = core w"
  "core (w\<lparr>ws_resyncing := a9\<rparr>) = core w" "core (w\<lparr>ws_fatal := b1\<rparr>) = core w"
  "core (w\<lparr>ws_pendingTabOrder := b2\<rparr>) = core w" "core (w\<lparr>ws_panes := b3\<rparr>) = core w"
  "core (w\<lparr>ws_newDocumentPane := b4\<rparr>) = core w" "core (w\<lparr>ws_controller := b5\<rparr>) = core w"
  "core (w\<lparr>ws_draws := b6\<rparr>) = core w" "core (w\<lparr>ws_saved := b7\<rparr>) = core w"
  "core (w\<lparr>ws_uncaught := b8\<rparr>) = core w" "core (w\<lparr>ws_flushTimer := b9\<rparr>) = core w"
  "core (w\<lparr>ws_usageTimer := c1\<rparr>) = core w" "core (w\<lparr>ws_readyState := c2\<rparr>) = core w"
  "core (w\<lparr>ws_reauthentications := c3\<rparr>) = core w" "core (w\<lparr>ws_connection := c4\<rparr>) = core w"
  by (simp_all add: core_def)

lemma core_setters [frame]:
  "core (setConnectionState c w) = core w" "core (room_status m w) = core w" "core (update_view f w) = core w"
  "core (setLocalParticipantAuthority p w) = core w" "core (setQueueBlocked b w) = core w"
  "core (updateQueueState env b w) = core w" "core (refreshRoomUsage env w) = core w"
  "core (scheduleRoomUsage w) = core w" "core (scheduleFlush w) = core w" "core (usageTimerFired env w) = core w"
  "core (settle_operation i w) = core w" "core (release_metadata i w) = core w" "core (update_work g w) = core w"
  "core (assignPaneDocument n i w) = core w" "core (fst (room_send v w)) = core w"
  by (simp_all add: core_def setConnectionState_def room_status_def update_view_def setLocalParticipantAuthority_def
      setQueueBlocked_def updateQueueState_def refreshRoomUsage_def scheduleRoomUsage_def scheduleFlush_def
      usageTimerFired_def settle_operation_def release_metadata_def update_work_def assignPaneDocument_def room_send_def
      split: prod.splits)

lemma core_presence [frame]: "core (fst (sendPresence env st i w)) = core w"
  by (auto simp: sendPresence_def frame split: option.splits)

lemma core_connection_callback [frame]: "core (connection_callback env e w) = core w"
proof -
  have "core (onWork env b w) = core w" for b by (simp add: onWork_def frame)
  moreover have "core (onCloseStatus c r w) = core w" for c r
    by (simp add: onCloseStatus_def frame)
  moreover have "core (onRoomFull w) = core w" by (simp add: onRoomFull_def frame)
  moreover have "core (onRoomUnavailable w) = core w" by (simp add: onRoomUnavailable_def frame)
  moreover have "core (onReconnectExhausted w) = core w" by (simp add: onReconnectExhausted_def frame)
  moreover have "core (w\<lparr>ws_reauthentications := n\<rparr>) = core w" for n by (simp add: core_def)
  ultimately show ?thesis by (simp add: connection_callback_def frame split: connectionEffect.split)
qed

lemma core_fold_callbacks: "core (fold (connection_callback env) es w) = core w"
  by (induction es arbitrary: w) (simp_all add: frame)

lemma core_call_connection [frame]: "core (call_connection env f w) = core w"
  by (simp add: call_connection_def core_fold_callbacks Let_def frame)

section \<open>Operations of the workspace\<close>

lemma getEditorState_Some: "map_get (ws_editors w) (doc_id d) = Some st \<Longrightarrow> getEditorState env d w = (w, st)"
  by (simp add: getEditorState_def)

lemma getEditorState_None:
  "map_get (ws_editors w) (doc_id d) = None \<Longrightarrow> getEditorState env d w =
    (store_synced (doc_id d) (ed_make (re_ed env) d (re_clientID env)) (doc_content d) w,
     ed_make (re_ed env) d (re_clientID env))"
  by (simp add: getEditorState_def store_synced_def Let_def)

text \<open>Storing a state with its synchronised text.\<close>

lemma store_synced_inv:
  assumes "room_inv P h w" "i \<in> doc_id ` set (ws_documents w)" "i \<notin> hs_deleted h \<Longrightarrow> P i (Some (t, st))"
  shows "room_inv P h (store_synced i st t w)"
proof -
  have "shape_inv (store_synced i st t w)"
    using assms(1,2) by (auto simp: room_inv_def shape_inv_def store_synced_def AList.distinct_update keys_update)
  moreover have "editor_synced P h (store_synced i st t w) j" for j
    using assms(1,3) by (auto simp: room_inv_def text_inv_def editor_synced_def store_synced_def map_get_update)
  moreover have "document_known h (store_synced i st t w) d" if "document_known h w d" for d
    using that by (auto simp: document_known_def store_synced_def map_get_update)
  ultimately show ?thesis
    using assms(1) by (auto simp: room_inv_def text_inv_def) (auto simp: store_synced_def)
qed

lemma room_inv_None: "room_inv P h w \<Longrightarrow> i \<notin> hs_deleted h \<Longrightarrow> map_get (ws_editors w) i = None \<Longrightarrow> P i None"
  by (simp add: room_inv_def text_inv_def editor_synced_def)

lemma room_inv_Some:
  "room_inv P h w \<Longrightarrow> i \<notin> hs_deleted h \<Longrightarrow> map_get (ws_editors w) i = Some st \<Longrightarrow>
    \<exists>t. map_get (ws_synced w) i = Some t \<and> P i (Some (t, st))"
  by (simp add: room_inv_def text_inv_def editor_synced_def)

lemma shown_ids: "room_inv P h w \<Longrightarrow> doc_id ` set (ws_shown w) = doc_id ` set (ws_documents w)"
  unfolding room_inv_def shape_inv_def by (metis set_map)

lemma core_updateEditorState [frame]:
  "core (updateEditorState env i st w) = core (w\<lparr>ws_editors := AList.update i st (ws_editors w)\<rparr>)"
  by (simp add: updateEditorState_def Let_def frame)

definition note_change :: "('st, 'cs, 'd) roomEnv \<Rightarrow> changesEvent \<Rightarrow> 'st \<Rightarrow> liveRoomDocument \<Rightarrow> liveRoomDocument" where
  "note_change env e st d = (if doc_id d = ch_documentID e
     then d\<lparr>doc_content := ed_doc (re_ed env) st, doc_revision := ch_revision e\<rparr> else d)"

lemma note_change_facts: "doc_id (note_change env e st d) = doc_id d"
  "note_change env e st d \<noteq> d \<Longrightarrow> doc_id d = ch_documentID e"
  by (simp_all add: note_change_def split: if_splits)

lemma core_record_change [frame]:
  assumes "map_get (ws_editors w) (ch_documentID e) = Some st"
  shows "core (record_change env e t w) = core (w\<lparr>ws_synced := AList.update (ch_documentID e) t (ws_synced w),
     ws_documents := map (note_change env e st) (ws_documents w)\<rparr>)"
  using assms by (simp add: record_change_def Let_def frame) (simp add: core_def note_change_def [abs_def])

definition editors_inv :: "(jsstring \<Rightarrow> (jsstring \<times> 'st) option \<Rightarrow> bool) \<Rightarrow> history \<Rightarrow> 'st workspace \<Rightarrow> bool" where
  "editors_inv P h w \<longleftrightarrow> distinct (map fst (ws_editors w)) \<and> fst ` set (ws_synced w) \<subseteq> fst ` set (ws_editors w)
     \<and> (\<forall>i. editor_synced P h w i)"

definition same_text :: "liveRoomDocument \<Rightarrow> liveRoomDocument \<Rightarrow> bool" where
  "same_text d d' \<longleftrightarrow> doc_id d = doc_id d' \<and> doc_content d = doc_content d' \<and> doc_revision d = doc_revision d'"

definition adoptable :: "(jsstring \<Rightarrow> (jsstring \<times> 'st) option \<Rightarrow> bool) \<Rightarrow> history \<Rightarrow> 'st workspace \<Rightarrow> liveRoomDocument list \<Rightarrow> bool" where
  "adoptable P h w ds \<longleftrightarrow> editors_inv P h w \<and> distinct (map doc_id ds) \<and> fst ` set (ws_editors w) \<subseteq> doc_id ` set ds
     \<and> (\<forall>d\<in>set ds. document_known h w d)"

text \<open>What the loop over the editors keeps, from \<open>w\<close> to \<open>w'\<close>, when it has visited \<open>is\<close>.\<close>

definition reconciled :: "(jsstring \<Rightarrow> (jsstring \<times> 'st) option \<Rightarrow> bool) \<Rightarrow> history \<Rightarrow> jsstring set \<Rightarrow> 'st workspace \<Rightarrow> 'st workspace \<Rightarrow> bool" where
  "reconciled P h is w w' \<longleftrightarrow> room_inv P h w' \<and> (\<forall>j. j \<notin> is \<longrightarrow> map_get (ws_editors w') j = map_get (ws_editors w) j)
     \<and> fst ` set (ws_editors w') \<subseteq> fst ` set (ws_editors w)
     \<and> ws_documents w' = ws_documents w \<and> ws_metadataRevision w' = ws_metadataRevision w"

text \<open>What is known of a snapshot that may be adopted.\<close>

definition snapshot_facts :: "jsstring \<Rightarrow> history \<Rightarrow> (jsstring, liveRoomDocument) jsmap \<Rightarrow> jsstring set \<Rightarrow> bool" where
  "snapshot_facts client h nextByID is \<longleftrightarrow> (\<forall>i d. map_get nextByID i = Some d \<longrightarrow> settled_document client h d \<and> doc_id d = i)
     \<and> (\<forall>i\<in>is. map_get nextByID i = None \<longrightarrow> i \<in> hs_deleted h)"

context document_sync
begin

lemma getEditorState_inv:
  assumes inv: "room_inv P h w" and d: "d \<in> set (ws_documents w) \<union> set (ws_shown w)"
  shows "room_inv P h (fst (getEditorState env d w))"
proof (cases "map_get (ws_editors w) (doc_id d)")
  case (Some st)
  then show ?thesis using inv by (simp add: getEditorState_Some)
next
  case None
  have "doc_id d \<in> doc_id ` set (ws_documents w)"
    using d shown_ids [OF inv] by auto
  moreover have "P (doc_id d) (Some (doc_content d, ed_make (re_ed env) d (re_clientID env)))"
    if "doc_id d \<notin> hs_deleted h"
  proof (rule created [OF that])
    show "genuine_document h d" using inv d None that by (auto simp: room_inv_def text_inv_def document_known_def)
    show "P (doc_id d) None" by (rule room_inv_None [OF inv that None])
  qed
  ultimately show ?thesis
    using store_synced_inv [OF inv] by (simp add: getEditorState_None [OF None])
qed

lemma sendPresence_completes: "snd (sendPresence env st i w)"
proof -
  obtain s where "livePresenceSelection (re_ed env) st = Some s" using selection [of st] by blast
  then show ?thesis by (simp add: sendPresence_def)
qed

lemma applyToEditor_core:
  assumes "map_get (ws_editors w) i = Some st" "has_document w i" "ed_receive (re_ed env) u st = Some (st', b)"
  shows "snd (applyToEditor env i u w)"
    and "core (fst (applyToEditor env i u w)) = core (w\<lparr>ws_editors := AList.update i st' (ws_editors w)\<rparr>)"
  using assms sendPresence_completes
  by (simp_all add: applyToEditor_def view_dispatched_def Let_def frame)

lemma documents_map_inv:
  assumes "room_inv P h w" "\<And>d. doc_id (f d) = doc_id d"
    and "\<And>d. f d \<noteq> d \<Longrightarrow> d \<in> set (ws_documents w) \<Longrightarrow> map_get (ws_editors w) (doc_id d) \<noteq> None"
  shows "room_inv P h (w\<lparr>ws_documents := map f (ws_documents w)\<rparr>)"
proof -
  have ids: "map (doc_id \<circ> f) (ws_documents w) = map doc_id (ws_documents w)" using assms(2) by simp
  then have ids': "doc_id ` f ` set (ws_documents w) = doc_id ` set (ws_documents w)" by (metis set_map image_comp)
  have "shape_inv (w\<lparr>ws_documents := map f (ws_documents w)\<rparr>)"
    using assms(1) by (simp add: room_inv_def shape_inv_def ids ids' del: map_eq_conv)
  moreover have "document_known h w (f d)" if "d \<in> set (ws_documents w)" for d
    using assms(1,2) assms(3) [OF _ that] that by (cases "f d = d") (auto simp: room_inv_def text_inv_def document_known_def)
  then have "text_inv P h (w\<lparr>ws_documents := map f (ws_documents w)\<rparr>)"
    using assms(1) by (auto simp: room_inv_def text_inv_def document_known_def editor_synced_def)
  ultimately show ?thesis by (simp add: room_inv_def)
qed

text \<open>Nothing is claimed of a document that the server deletes.\<close>

lemma editors_update_deleted:
  assumes "room_inv P h w" "i \<in> hs_deleted h" "map_get (ws_editors w) i = Some st0"
  shows "room_inv P h (w\<lparr>ws_editors := AList.update i st (ws_editors w)\<rparr>)"
proof -
  have i: "i \<in> fst ` set (ws_editors w)" using assms(3) by (metis map_of_eq_None_iff option.distinct(1))
  have "shape_inv (w\<lparr>ws_editors := AList.update i st (ws_editors w)\<rparr>)"
    using assms(1) i by (auto simp: room_inv_def shape_inv_def AList.distinct_update keys_update)
  moreover have "text_inv P h (w\<lparr>ws_editors := AList.update i st (ws_editors w)\<rparr>)"
    using assms by (auto simp: room_inv_def text_inv_def document_known_def editor_synced_def map_get_update)
  ultimately show ?thesis by (simp add: room_inv_def)
qed

lemma find_document_SomeD:
  "List.find (\<lambda>d. doc_id d = i) ds = Some d \<Longrightarrow> d \<in> set ds \<and> doc_id d = i"
  by (auto dest: find_Some_set)

text \<open>The middle of \<open>applyDocumentEvent\<close>: the next revision is received and recorded.\<close>

lemma next_revision_inv:
  assumes inv: "room_inv P h w"
    and st: "map_get (ws_editors w) (ch_documentID e) = Some st" "has_document w (ch_documentID e)"
    and rev: "ch_revision e = co_getSyncedVersion (re_ed env) st + 1"
    and gen: "genuine_change h e" "cs_fromJSON (re_cs env) (ch_changes e) = Some changes"
    and ap: "applyToEditor env (ch_documentID e) \<lparr>up_changes = changes, up_clientID = ch_clientID e\<rparr> w = (w', completed)"
    and t: "t = (case map_get (ws_synced w') (ch_documentID e) of None \<Rightarrow> doc_content d | Some t \<Rightarrow> t)"
  shows "if \<not> completed \<or> cs_apply (re_cs env) changes t = None then room_inv P h w'
    else room_inv P h (record_change env e (the (cs_apply (re_cs env) changes t)) w')"
proof (cases "ed_receive (re_ed env) \<lparr>up_changes = changes, up_clientID = ch_clientID e\<rparr> st")
  case None
  then have "w' = w" "\<not> completed" using ap st by (auto simp: applyToEditor_def)
  then show ?thesis using inv by simp
next
  case (Some r)
  obtain st' b where r: "r = (st', b)" by (cases r)
  let ?i = "ch_documentID e"
  note ap' = applyToEditor_core [OF st Some [unfolded r], unfolded ap fst_conv snd_conv]
  have synced: "ws_synced w' = ws_synced w" "map_get (ws_editors w') ?i = Some st'" "ws_documents w' = ws_documents w"
    using ap'(2) by (auto simp: core_def map_get_update)
  have new: "\<exists>c. cs_apply (re_cs env) changes t = Some c \<and> P ?i (Some (c, st'))" if d: "?i \<notin> hs_deleted h"
  proof -
    obtain t0 where t0: "map_get (ws_synced w) ?i = Some t0" "P ?i (Some (t0, st))" using room_inv_Some [OF inv d st(1)] by blast
    from received [OF d gen(1) t0(2) rev gen(2) Some [unfolded r]] show ?thesis using t t0(1) synced(1) by simp
  qed
  show ?thesis
  proof (cases "cs_apply (re_cs env) changes t")
    case None
    then have "?i \<in> hs_deleted h" using new by auto
    from editors_update_deleted [OF inv this st(1)] room_inv_core [OF ap'(2), of P h] None ap'(1)
    show ?thesis by simp
  next
    case (Some c)
    have inv': "room_inv P h (store_synced ?i st' c w)"
      using st(2) new Some
      by (intro store_synced_inv [OF inv]) (auto simp: has_document_def list_ex_iff intro: rev_image_eqI)
    have "map_get (ws_editors (store_synced ?i st' c w)) (doc_id d) \<noteq> None" if "note_change env e st' d \<noteq> d" for d
      using note_change_facts(2) [OF that] by (simp add: store_synced_def map_get_update)
    from documents_map_inv [OF inv' note_change_facts(1) this]
    have "room_inv P h ((store_synced ?i st' c w)\<lparr>ws_documents := map (note_change env e st') (ws_documents w)\<rparr>)"
      by (simp add: store_synced_def)
    moreover have "core (record_change env e c w')
        = core ((store_synced ?i st' c w)\<lparr>ws_documents := map (note_change env e st') (ws_documents w)\<rparr>)"
      using core_record_change [OF synced(2), of env c] ap'(2) by (simp add: core_def store_synced_def)
    ultimately show ?thesis
      using room_inv_core [of "record_change env e c w'" _ P h] Some ap'(1) by simp
  qed
qed

lemma applyDocumentEvent_inv:
  assumes "room_inv P h w" "genuine_change h e"
  shows "room_inv P h (fst (applyDocumentEvent env e w))"
proof (cases "cs_fromJSON (re_cs env) (ch_changes e)")
  case (Some changes)
  show ?thesis
  proof (cases "List.find (\<lambda>d. doc_id d = ch_documentID e) (ws_documents w)")
    case None
    then show ?thesis using assms(1) Some by (simp add: applyDocumentEvent_def)
  next
    case found: (Some d)
    then have d: "d \<in> set (ws_documents w)" "doc_id d = ch_documentID e" using find_document_SomeD by blast+
    obtain w1 st where g: "getEditorState env d w = (w1, st)" by fastforce
    have inv1: "room_inv P h w1"
      using getEditorState_inv [OF assms(1), of d] d g by simp
    have st: "map_get (ws_editors w1) (ch_documentID e) = Some st" "ws_documents w1 = ws_documents w"
      using g d by (auto simp: getEditorState_def map_get_update Let_def split: option.splits)
    then have hd: "has_document w1 (ch_documentID e)" using d by (auto simp: has_document_def list_ex_iff)
    obtain w2 c where ap: "applyToEditor env (ch_documentID e) \<lparr>up_changes = changes, up_clientID = ch_clientID e\<rparr> w1 = (w2, c)"
      by fastforce
    note next_inv = next_revision_inv [OF inv1 st(1) hd _ assms(2) Some ap refl, where d = d]
    show ?thesis
      using next_inv inv1 room_inv_core [OF core_setters(11), of P h "ch_operationID e" w1]
      by (auto simp: applyDocumentEvent_def Some found g ap applyLiveChanges_def Let_def split: option.split if_splits)
  qed
qed (use assms(1) in \<open>simp add: applyDocumentEvent_def\<close>)

subsection \<open>Metadata events\<close>

lemma editors_inv_core: "core w' = core w \<Longrightarrow> editors_inv P h w' = editors_inv P h w"
  by (simp add: core_def editors_inv_def editor_synced_def)

lemma editors_inv_metadata: "editors_inv P h (w\<lparr>ws_metadataRevision := m\<rparr>) = editors_inv P h w"
  by (simp add: editors_inv_def editor_synced_def)

lemma room_inv_editors: "room_inv P h w \<Longrightarrow> editors_inv P h w"
  by (simp add: room_inv_def shape_inv_def text_inv_def editors_inv_def)

lemma store_keys: "fst ` set (ws_editors (store_synced i st t w)) = insert i (fst ` set (ws_editors w))"
  by (simp add: store_synced_def keys_update)

lemma store_editors_inv:
  assumes "editors_inv P h w" "i \<notin> hs_deleted h \<Longrightarrow> P i (Some (t, st))"
  shows "editors_inv P h (store_synced i st t w)"
proof -
  have "editor_synced P h (store_synced i st t w) j" for j
    using assms by (simp add: editors_inv_def editor_synced_def store_synced_def map_get_update)
  moreover have "fst ` set (ws_synced (store_synced i st t w)) \<subseteq> fst ` set (ws_editors (store_synced i st t w))"
    unfolding store_keys using assms(1) by (simp add: editors_inv_def store_synced_def keys_update) blast
  moreover have "distinct (map fst (ws_editors (store_synced i st t w)))"
    using assms(1) by (simp add: editors_inv_def store_synced_def AList.distinct_update)
  ultimately show ?thesis by (simp add: editors_inv_def)
qed

text \<open>Documents, editors and the metadata revision are adopted together.\<close>

lemma adopt_inv:
  assumes "editors_inv P h w" "distinct (map doc_id ds)" "fst ` set (ws_editors w) \<subseteq> doc_id ` set ds"
    and "\<And>d. d \<in> set ds \<Longrightarrow> document_known h w d"
    and "core w' = core (keep_active ds (show_documents ds w))"
  shows "room_inv P h w'"
proof -
  have active: "if ds = [] then ws_active w'' = [] else ws_active w'' \<in> doc_id ` set ds"
    if "w'' = keep_active ds (show_documents ds w)" for w''
    using that by (cases ds) (auto simp: keep_active_def show_documents_def first_document_def list_ex_iff intro: rev_image_eqI)
  have "shape_inv (keep_active ds (show_documents ds w))"
    using assms(1-3) active [OF refl]
    by (auto simp: shape_inv_def editors_inv_def keep_active_def show_documents_def split: if_splits)
  moreover have "text_inv P h (keep_active ds (show_documents ds w))"
    using assms(1,4)
    by (auto simp: text_inv_def editors_inv_def editor_synced_def document_known_def keep_active_def show_documents_def)
  ultimately show ?thesis using room_inv_core [OF assms(5), of P h] by (simp add: room_inv_def)
qed

lemma document_known_same: "same_text d d' \<Longrightarrow> document_known h w d \<longleftrightarrow> document_known h w d'"
  by (simp add: same_text_def document_known_def genuine_document_def)

lemma renumber_facts:
  "map doc_id (renumber ds) = map doc_id ds" "d \<in> set (renumber ds) \<Longrightarrow> \<exists>d'\<in>set ds. same_text d d'"
proof -
  show "map doc_id (renumber ds) = map doc_id ds"
    by (rule nth_equalityI) (simp_all add: renumber_def)
  show "\<exists>d'\<in>set ds. same_text d d'" if "d \<in> set (renumber ds)"
    using that by (auto simp: renumber_def same_text_def set_zip)
qed

lemma known_alive_mono:
  "document_known h w d \<Longrightarrow> ws_metadataRevision w \<le> m \<Longrightarrow> document_known h (w\<lparr>ws_metadataRevision := m\<rparr>) d"
  using history by (auto simp: document_known_def history_ok_def)

lemma metadata_core:
  assumes "applyMetadataEvent env event w = (w', True)" "metadata_header event = (i, m)"
    and "\<not> m < ws_metadataRevision w"
  obtains w1 ds where "metadata_documents env event w = Some (w1, ds)" "m \<le> ws_metadataRevision w + 1"
    "core w' = core (keep_active ds (show_documents ds (w1\<lparr>ws_metadataRevision := m\<rparr>)))"
proof -
  obtain w1 ds where md: "metadata_documents env event w = Some (w1, ds)" and le: "m \<le> ws_metadataRevision w + 1"
    and w': "w' = settle_operation i (release_metadata i
      (keep_active ds ((refreshRoomUsage env (show_documents ds w1))\<lparr>ws_metadataRevision := m\<rparr>)))"
    using assms by (auto simp: applyMetadataEvent_def Let_def split: if_splits option.splits)
  have "core w' = core (keep_active ds (show_documents ds (w1\<lparr>ws_metadataRevision := m\<rparr>)))"
    by (simp add: w' frame) (simp add: core_def keep_active_def show_documents_def refreshRoomUsage_def)
  with md le show ?thesis by (rule that)
qed

lemma adoptable_core: "core w' = core w \<Longrightarrow> adoptable P h w' ds = adoptable P h w ds"
  by (simp add: adoptable_def editors_inv_core [of w' w] document_known_def) (simp add: core_def)

lemma room_inv_adoptable:
  assumes "room_inv P h w" "map doc_id ds = map doc_id (ws_documents w)"
    and "\<And>d. d \<in> set ds \<Longrightarrow> \<exists>d'\<in>set (ws_documents w). same_text d d'"
  shows "adoptable P h w ds"
proof -
  have ids: "doc_id ` set ds = doc_id ` set (ws_documents w)" using assms(2) by (metis set_map)
  have known: "document_known h w d" if d: "d \<in> set ds" for d
  proof -
    obtain d' where "d' \<in> set (ws_documents w)" "same_text d d'" using assms(3) [OF d] by blast
    then show ?thesis using document_known_same [of d d' w] assms(1) by (auto simp: room_inv_def text_inv_def)
  qed
  show ?thesis using assms(1,2) ids known room_inv_editors [OF assms(1)]
    by (simp add: adoptable_def room_inv_def shape_inv_def)
qed

text \<open>Reordering sorts the documents by their new positions.\<close>

lemma adoptable_sorted: "adoptable P h w ds \<Longrightarrow> adoptable P h w (sort_key f ds)"
  by (simp add: adoptable_def distinct_map)

lemma adoptable_created:
  assumes inv: "room_inv P h w" and new: "\<not> has_document w (doc_id d)" and gen: "genuine_document h d"
    and alive: "\<And>d. d \<in> set (ws_documents w) \<Longrightarrow> document_known h (w\<lparr>ws_metadataRevision := m\<rparr>) d" "hs_alive h (doc_id d) m"
  shows "adoptable P h ((fst (getEditorState env d w))\<lparr>ws_metadataRevision := m\<rparr>)
    (ws_documents w @ [d\<lparr>doc_position := p\<rparr>])"
proof -
  let ?st = "ed_make (re_ed env) d (re_clientID env)"
  have fresh: "doc_id d \<notin> doc_id ` set (ws_documents w)" using new by (auto simp: has_document_def list_ex_iff)
  with inv have none: "map_get (ws_editors w) (doc_id d) = None"
    by (auto simp: room_inv_def shape_inv_def map_of_eq_None_iff)
  have g: "fst (getEditorState env d w) = store_synced (doc_id d) ?st (doc_content d) w"
    by (simp add: getEditorState_None [OF none])
  have "editors_inv P h (store_synced (doc_id d) ?st (doc_content d) w)"
    using created [OF _ gen] room_inv_None [OF inv _ none] by (intro store_editors_inv [OF room_inv_editors [OF inv]]) simp
  moreover have "fst ` set (ws_editors (store_synced (doc_id d) ?st (doc_content d) w))
      \<subseteq> doc_id ` set (ws_documents w @ [d\<lparr>doc_position := p\<rparr>])"
    using inv by (auto simp: store_synced_def keys_update room_inv_def shape_inv_def)
  moreover have "distinct (map doc_id (ws_documents w @ [d\<lparr>doc_position := p\<rparr>]))"
    using inv fresh by (simp add: room_inv_def shape_inv_def)
  moreover have "document_known h ((store_synced (doc_id d) ?st (doc_content d) w)\<lparr>ws_metadataRevision := m\<rparr>) d'"
    if "d' \<in> set (ws_documents w @ [d\<lparr>doc_position := p\<rparr>])" for d'
    using that alive by (auto simp: document_known_def store_synced_def map_get_update)
  ultimately show ?thesis unfolding g adoptable_def editors_inv_metadata by simp
qed

lemma forget_editors_inv:
  assumes "editors_inv P h w" "i \<in> hs_deleted h"
  shows "editors_inv P h (forget_document i w)"
proof -
  have "editor_synced P h (forget_document i w) j" for j
    using assms by (cases "j = i") (simp_all add: editors_inv_def editor_synced_def forget_document_def map_get_delete)
  moreover have "fst ` set (ws_synced (forget_document i w)) \<subseteq> fst ` set (ws_editors (forget_document i w))"
    using assms(1) by (simp add: editors_inv_def forget_document_def keys_delete) blast
  ultimately show ?thesis
    using assms(1) by (simp add: editors_inv_def) (simp add: forget_document_def AList.distinct_delete)
qed

lemma filter_ids: "doc_id ` set (filter (\<lambda>d. doc_id d \<noteq> i) ds) = doc_id ` set ds - {i}"
  by auto

lemma forget_keys: "fst ` set (ws_editors (forget_document i w)) = fst ` set (ws_editors w) - {i}"
  by (simp add: forget_document_def keys_delete)

lemma forget_known:
  "document_known h (w\<lparr>ws_metadataRevision := m\<rparr>) d \<Longrightarrow> doc_id d \<noteq> i \<Longrightarrow>
    document_known h ((forget_document i w)\<lparr>ws_metadataRevision := m\<rparr>) d"
  by (simp add: document_known_def forget_document_def map_get_delete)

lemma adoptable_deleted:
  assumes inv: "room_inv P h w" and gone: "i \<in> hs_deleted h"
    and known: "\<And>d. d \<in> set (ws_documents w) \<Longrightarrow> document_known h (w\<lparr>ws_metadataRevision := m\<rparr>) d"
  shows "adoptable P h ((forget_document i w)\<lparr>ws_metadataRevision := m\<rparr>)
    (renumber (filter (\<lambda>d. doc_id d \<noteq> i) (ws_documents w)))"
proof -
  define ds where "ds = filter (\<lambda>d. doc_id d \<noteq> i) (ws_documents w)"
  have ids: "map doc_id (renumber ds) = map doc_id ds" by (rule renumber_facts(1))
  have ids': "doc_id ` set (renumber ds) = doc_id ` set (ws_documents w) - {i}"
    using arg_cong [OF ids, of set] unfolding set_map ds_def filter_ids .
  have shape: "distinct (map doc_id (ws_documents w))" "fst ` set (ws_editors w) \<subseteq> doc_id ` set (ws_documents w)"
    using inv by (simp_all add: room_inv_def shape_inv_def)
  have "editors_inv P h (forget_document i w)" by (rule forget_editors_inv [OF room_inv_editors [OF inv] gone])
  moreover have "fst ` set (ws_editors (forget_document i w)) \<subseteq> doc_id ` set (renumber ds)"
    unfolding ids' forget_keys using shape(2) by blast
  moreover have "distinct (map doc_id (renumber ds))"
    unfolding ids by (simp add: ds_def distinct_map_filter [OF shape(1)])
  moreover have "document_known h ((forget_document i w)\<lparr>ws_metadataRevision := m\<rparr>) d" if d: "d \<in> set (renumber ds)" for d
  proof -
    obtain d' where d': "d' \<in> set ds" "same_text d d'" using renumber_facts(2) [OF d] by blast
    then have "document_known h ((forget_document i w)\<lparr>ws_metadataRevision := m\<rparr>) d'"
      using forget_known [OF known] by (simp add: ds_def)
    with d'(2) show ?thesis using document_known_same by blast
  qed
  ultimately show ?thesis unfolding adoptable_def editors_inv_metadata ds_def by (intro conjI ballI) simp_all
qed

lemma adoptable_cong:
  assumes "ws_editors w' = ws_editors w" "ws_synced w' = ws_synced w" "ws_metadataRevision w' = ws_metadataRevision w"
  shows "adoptable P h w' ds = adoptable P h w ds"
  using assms by (simp add: adoptable_def editors_inv_def editor_synced_def document_known_def)

lemma place_created_fields:
  "ws_editors (place_created i d w) = ws_editors w" "ws_synced (place_created i d w) = ws_synced w"
  "ws_metadataRevision (place_created i d w) = ws_metadataRevision w"
  by (simp_all add: place_created_def assignPaneDocument_def split: option.split)

lemma room_inv_metadata:
  assumes "room_inv P h w" "ws_metadataRevision w \<le> m"
  shows "room_inv P h (w\<lparr>ws_metadataRevision := m\<rparr>)"
  using assms known_alive_mono [OF _ assms(2)]
  by (simp add: room_inv_def shape_inv_def text_inv_def editor_synced_def)

lemma reordered_adoptable:
  assumes "room_inv P h w"
  shows "adoptable P h w (sort_key doc_position (map (\<lambda>d. d\<lparr>doc_position := f (doc_id d)\<rparr>) (ws_documents w)))"
  by (rule adoptable_sorted, rule room_inv_adoptable [OF assms]) (auto simp: same_text_def)

lemma updated_adoptable:
  assumes "room_inv P h w"
  shows "adoptable P h w (map (\<lambda>d. if doc_id d = i then d\<lparr>doc_name := n, doc_language := l\<rparr> else d) (ws_documents w))"
  by (rule room_inv_adoptable [OF assms]) (auto simp: same_text_def)

lemma unchanged_adoptable: "room_inv P h w \<Longrightarrow> adoptable P h w (ws_documents w)"
  by (rule room_inv_adoptable) (auto simp: same_text_def)

lemma created_adoptable:
  assumes "room_inv P h w" "room_inv P h (w\<lparr>ws_metadataRevision := m\<rparr>)"
    and "genuine_document h d" "hs_alive h (doc_id d) m"
    and md: "metadata_documents env (DocumentCreated i c m d) w = Some (w1, ds)"
  shows "adoptable P h (w1\<lparr>ws_metadataRevision := m\<rparr>) ds"
proof (cases "has_document w (doc_id d)")
  case True
  then have "ds = ws_documents w" "w1 = (place_created i d w)\<lparr>ws_pendingTabOrder := None\<rparr>"
    using md by (auto simp: metadata_documents_def)
  then show ?thesis
    using adoptable_cong [of "w1\<lparr>ws_metadataRevision := m\<rparr>" "w\<lparr>ws_metadataRevision := m\<rparr>" ds]
      unchanged_adoptable [OF assms(2)] by (simp add: place_created_fields)
next
  case False
  let ?w = "fst (getEditorState env d w)"
  have ds: "ds = ws_documents w @ [d\<lparr>doc_position := int (length (ws_documents w))\<rparr>]"
    "w1 = (place_created i d ?w)\<lparr>ws_pendingTabOrder := None\<rparr>"
    using md False by (auto simp: metadata_documents_def)
  have known: "document_known h (w\<lparr>ws_metadataRevision := m\<rparr>) d'" if "d' \<in> set (ws_documents w)" for d'
    using assms(2) that by (simp add: room_inv_def text_inv_def)
  have "adoptable P h (?w\<lparr>ws_metadataRevision := m\<rparr>) ds"
    unfolding ds(1) by (rule adoptable_created [OF assms(1) False assms(3) known assms(4)])
  then show ?thesis
    using adoptable_cong [of "w1\<lparr>ws_metadataRevision := m\<rparr>" "?w\<lparr>ws_metadataRevision := m\<rparr>" ds]
    by (simp add: ds(2) place_created_fields)
qed

lemma metadata_adoptable:
  assumes inv: "room_inv P h w" and gen: "genuine_event h event"
    and md: "metadata_documents env event w = Some (w1, ds)" and m: "metadata_header event = (i, m)" "ws_metadataRevision w \<le> m"
  shows "adoptable P h (w1\<lparr>ws_metadataRevision := m\<rparr>) ds"
proof -
  let ?w = "w\<lparr>ws_metadataRevision := m\<rparr>"
  have inv': "room_inv P h ?w" by (rule room_inv_metadata [OF inv m(2)])
  have known: "document_known h ?w d" if "d \<in> set (ws_documents w)" for d
    using inv' that by (simp add: room_inv_def text_inv_def)
  note facts = updated_adoptable [OF inv', simplified] unchanged_adoptable [OF inv', simplified]
  show ?thesis
  proof (cases event)
    case (DocumentCreated op client rev d)
    then show ?thesis using created_adoptable [OF inv inv', of d op client w1 ds] gen md m(1)
      by (simp add: genuine_event_def metadata_header_def)
  next
    case (DocumentDeleted op client rev x)
    have w1: "w1 = (forget_document x w)\<lparr>ws_pendingTabOrder := None\<rparr>"
      "ds = renumber (filter (\<lambda>d. doc_id d \<noteq> x) (ws_documents w))"
      using md DocumentDeleted by (auto simp: metadata_documents_def)
    show ?thesis
      using adoptable_deleted [OF inv _ known, of x] gen DocumentDeleted
        adoptable_cong [of "w1\<lparr>ws_metadataRevision := m\<rparr>" "(forget_document x w)\<lparr>ws_metadataRevision := m\<rparr>" ds]
      by (simp add: w1 genuine_event_def)
  next
    case (DocumentReordered op client rev order)
    obtain f where w1: "w1 = w\<lparr>ws_pendingTabOrder := None\<rparr>"
      "ds = sort_key doc_position (map (\<lambda>d. d\<lparr>doc_position := f (doc_id d)\<rparr>) (ws_documents w))"
      using md unfolding DocumentReordered metadata_documents_def by (auto simp: Let_def split: if_splits)
    show ?thesis
      using reordered_adoptable [OF inv', of f] adoptable_cong [of "w1\<lparr>ws_metadataRevision := m\<rparr>" ?w ds]
      by (simp add: w1)
  qed (use md facts in \<open>auto simp: metadata_documents_def\<close>)
qed

lemma applyMetadataEvent_refused: "applyMetadataEvent env event w = (w', False) \<Longrightarrow> w' = w"
  by (auto simp: applyMetadataEvent_def Let_def split: prod.splits if_splits option.splits)

lemma applyMetadataEvent_inv:
  assumes inv: "room_inv P h w" and gen: "genuine_event h event"
  shows "room_inv P h (fst (applyMetadataEvent env event w))"
proof -
  obtain w' b where ap: "applyMetadataEvent env event w = (w', b)" by fastforce
  obtain i m where m: "metadata_header event = (i, m)" by fastforce
  consider (refused) "\<not> b" | (old) "m < ws_metadataRevision w" | (new) b "\<not> m < ws_metadataRevision w" by blast
  then show ?thesis
  proof cases
    case refused
    then show ?thesis using ap applyMetadataEvent_refused [of event w] inv by (cases b) auto
  next
    case old
    then show ?thesis using room_inv_core [OF core_setters(11), of P h i w] inv
      by (simp add: applyMetadataEvent_def m)
  next
    case new
    from new(1) ap have "applyMetadataEvent env event w = (w', True)" by simp
    from metadata_core [OF this m new(2)] obtain w1 ds where md: "metadata_documents env event w = Some (w1, ds)"
      and core: "core w' = core (keep_active ds (show_documents ds (w1\<lparr>ws_metadataRevision := m\<rparr>)))" by blast
    have "adoptable P h (w1\<lparr>ws_metadataRevision := m\<rparr>) ds"
      by (rule metadata_adoptable [OF inv gen md m]) (use new(2) in simp)
    then have "room_inv P h w'"
      unfolding adoptable_def by (intro adopt_inv [OF _ _ _ _ core]) auto
    then show ?thesis by (simp add: ap)
  qed
qed

subsection \<open>Snapshots\<close>

lemma forget_inv:
  assumes "room_inv P h w" "i \<in> hs_deleted h"
  shows "room_inv P h (forget_document i w)"
proof -
  have same: "ws_documents (forget_document i w) = ws_documents w" "ws_shown (forget_document i w) = ws_shown w"
    "ws_active (forget_document i w) = ws_active w" by (simp_all add: forget_document_def)
  have "editors_inv P h (forget_document i w)" by (rule forget_editors_inv [OF room_inv_editors [OF assms(1)] assms(2)])
  moreover have "fst ` set (ws_editors (forget_document i w)) \<subseteq> doc_id ` set (ws_documents w)"
    unfolding forget_keys using assms(1) by (auto simp: room_inv_def shape_inv_def)
  moreover have "document_known h (forget_document i w) d" if "document_known h w d" for d
    using that assms(2) by (auto simp: document_known_def forget_document_def map_get_delete)
  ultimately show ?thesis
    using assms(1) unfolding room_inv_def shape_inv_def text_inv_def editors_inv_def same by (intro conjI ballI allI) simp_all
qed

lemma core_drop_editor: "core (drop_editor env i st w) = core (forget_document i w)"
  by (simp add: drop_editor_def forget_document_def core_def setConnectionState_def)

text \<open>What adopting one document of a snapshot does: nothing, or its text and an editor state for it are stored.\<close>

lemma adopt_accepted_cases:
  assumes ap: "adopt_accepted env operation d st w = (w', r)"
    and d: "settled_document (re_clientID env) h d" "doc_id d \<notin> hs_deleted h \<Longrightarrow> P (doc_id d) (Some (t, st))"
      "co_getSyncedVersion (re_ed env) st < doc_revision d"
  obtains "w' = w"
    | current where "core w' = core (store_synced (doc_id d) current (doc_content d) w)"
        "doc_id d \<notin> hs_deleted h \<longrightarrow> P (doc_id d) (Some (doc_content d, current))"
proof (cases "w' = w")
  case False
  then obtain us :: "'cs liveUpdate list" and current where e: "edit_all (\<lambda>u. ed_change (re_ed env) (up_changes u)) us
      (ed_make (re_ed env) d (re_clientID env)) = Some current"
    and w': "w' = settle_operation (op_id operation) (store_synced (doc_id d) current (doc_content d) w)"
    using ap by (auto simp: adopt_accepted_def split: list.splits if_splits option.splits)
  show ?thesis using that(2) [of current] w' replaced [OF _ d(1,2,3) e] by (simp add: frame)
qed (use that(1) in simp)

lemma adopt_snapshot_cases:
  assumes ap: "adopt_snapshot env d st w = (w', r)"
    and d: "settled_document (re_clientID env) h d" "doc_id d \<notin> hs_deleted h \<Longrightarrow> P (doc_id d) (Some (synced_text env (doc_id d) st w, st))"
      "co_getSyncedVersion (re_ed env) st < doc_revision d"
  obtains "w' = w"
    | current where "core w' = core (store_synced (doc_id d) current (doc_content d) w)"
        "doc_id d \<notin> hs_deleted h \<longrightarrow> P (doc_id d) (Some (doc_content d, current))"
proof (cases "w' = w")
  case False
  let ?us = "liveSnapshotUpdates (re_cs env) (diffLiveDocuments (re_cs env) (synced_text env (doc_id d) st w) (doc_content d))
    (doc_revision d) (co_getSyncedVersion (re_ed env) st)"
  obtain current where e: "edit_all (\<lambda>u st. map_option fst (ed_receive (re_ed env) u st)) ?us st = Some current"
    and w': "w' = store_synced (doc_id d) current (doc_content d) w"
    using ap False by (auto simp: adopt_snapshot_def Let_def split: option.splits)
  show ?thesis using that(2) [of current] w' bridged [OF _ d(1,2,3) e] by simp
qed (use that(1) in simp)

lemma reconciled_core: "core w'' = core w' \<Longrightarrow> reconciled P h is w w'' = reconciled P h is w w'"
  using room_inv_core [of w'' w' P h] by (auto simp: reconciled_def core_def)

lemma reconciled_store:
  assumes "room_inv P h w" "map_get (ws_editors w) i = Some st" "doc_id d = i"
    and "i \<notin> hs_deleted h \<Longrightarrow> P i (Some (doc_content d, current))"
  shows "reconciled P h {i} w (store_synced i current (doc_content d) w)"
proof -
  have key: "i \<in> fst ` set (ws_editors w)" using assms(2) by (force dest: map_of_SomeD)
  then have "i \<in> doc_id ` set (ws_documents w)" using assms(1) by (auto simp: room_inv_def shape_inv_def)
  then have "room_inv P h (store_synced i current (doc_content d) w)"
    using assms(4) by (intro store_synced_inv [OF assms(1)]) auto
  then show ?thesis using key by (auto simp: reconciled_def store_synced_def map_get_update keys_update)
qed

lemma reconcile_editor_inv:
  assumes inv: "room_inv P h w" and st: "map_get (ws_editors w) i = Some st"
    and next_doc: "\<And>d. map_get nextByID i = Some d \<Longrightarrow> settled_document (re_clientID env) h d \<and> doc_id d = i"
    and gone: "map_get nextByID i = None \<Longrightarrow> i \<in> hs_deleted h"
    and r: "reconcile_editor env nextByID acc i st w = (w', r)"
  shows "reconciled P h {i} w w' \<and> (r = Some True \<longrightarrow> map_get nextByID i = None \<longrightarrow> map_get (ws_editors w') i = None)"
proof (cases "map_get nextByID i")
  case None
  have "reconciled P h {i} w (forget_document i w)"
    using forget_inv [OF inv gone [OF None]] by (auto simp: reconciled_def forget_keys) (simp_all add: forget_document_def map_get_delete)
  moreover have w': "core w' = core (forget_document i w)" using r None core_drop_editor by (auto simp: reconcile_editor_def)
  moreover from w' have "map_get (ws_editors w') i = None" by (simp add: core_def forget_document_def map_get_delete)
  ultimately show ?thesis using reconciled_core by blast
next
  case (Some d)
  note d = next_doc [OF Some]
  have same: "reconciled P h {i} w w" using inv by (simp add: reconciled_def)
  have stored: "reconciled P h {i} w w'"
    if "core w' = core (store_synced (doc_id d) current (doc_content d) w)"
      "doc_id d \<notin> hs_deleted h \<longrightarrow> P (doc_id d) (Some (doc_content d, current))" for current
    using reconciled_store [OF inv st, of d current] reconciled_core [OF that(1), of "{i}" w] d that(2) by simp
  have old: "P (doc_id d) (Some (synced_text env (doc_id d) st w, st))" if "doc_id d \<notin> hs_deleted h"
    using room_inv_Some [OF inv _ st] that d by (auto simp: synced_text_def)
  consider "w' = w"
    | operation where "co_getSyncedVersion (re_ed env) st < doc_revision d" "adopt_accepted env operation d st w = (w', r)"
    | "co_getSyncedVersion (re_ed env) st < doc_revision d" "adopt_snapshot env d st w = (w', r)"
    using r Some by (auto simp: reconcile_editor_def split: if_splits option.splits)
  then have "reconciled P h {i} w w'"
  proof cases
    case 2
    from 2(2) conjunct1 [OF d] old 2(1) show ?thesis
      by (rule adopt_accepted_cases) (use same stored in auto)
  next
    case 3
    from 3(2) conjunct1 [OF d] old 3(1) show ?thesis
      by (rule adopt_snapshot_cases) (use same stored in auto)
  qed (use same in simp)
  then show ?thesis using Some by simp
qed

lemma reconciled_trans:
  "reconciled P h is w w' \<Longrightarrow> reconciled P h ks w' w'' \<Longrightarrow> reconciled P h (is \<union> ks) w w''"
  unfolding reconciled_def using subset_trans [of "fst ` set (ws_editors w'')" "fst ` set (ws_editors w')"] by (intro conjI) simp_all

lemma reconcile_editors_inv:
  "room_inv P h w \<Longrightarrow> distinct (map fst entries) \<Longrightarrow>
    (\<And>i st. (i, st) \<in> set entries \<Longrightarrow> map_get (ws_editors w) i = Some st) \<Longrightarrow>
    snapshot_facts (re_clientID env) h nextByID (fst ` set entries) \<Longrightarrow> reconcile_editors env nextByID acc entries w = (w', r) \<Longrightarrow>
    reconciled P h (fst ` set entries) w w'
    \<and> (r = Some True \<longrightarrow> (\<forall>i\<in>fst ` set entries. map_get nextByID i = None \<longrightarrow> map_get (ws_editors w') i = None))"
proof (induction entries arbitrary: w)
  case Nil
  then show ?case by (simp add: reconciled_def)
next
  case (Cons entry entries)
  obtain i st where e: "entry = (i, st)" by (cases entry)
  obtain w1 r1 where step: "reconcile_editor env nextByID acc i st w = (w1, r1)" by fastforce
  have facts: "snapshot_facts (re_clientID env) h nextByID (fst ` set entries)"
    "map_get nextByID i = Some d \<Longrightarrow> settled_document (re_clientID env) h d \<and> doc_id d = i" "map_get nextByID i = None \<Longrightarrow> i \<in> hs_deleted h" for d
    using Cons.prems(4) by (auto simp: e snapshot_facts_def)
  have one: "reconciled P h {i} w w1"
    "r1 = Some True \<Longrightarrow> map_get nextByID i = None \<Longrightarrow> map_get (ws_editors w1) i = None"
    using reconcile_editor_inv [OF Cons.prems(1) _ facts(2,3) step] Cons.prems(3) by (auto simp: e)
  show ?case
  proof (cases "r1 = Some True")
    case False
    then have "w' = w1" "r \<noteq> Some True" using Cons.prems(5) step by (auto simp: e)
    then show ?thesis using one(1) by (auto simp: reconciled_def e)
  next
    case True
    have rec: "reconcile_editors env nextByID acc entries w1 = (w', r)" using Cons.prems(5) step True by (simp add: e)
    have inv1: "room_inv P h w1" using one(1) by (simp add: reconciled_def)
    have i: "i \<notin> fst ` set entries" using Cons.prems(2) by (simp add: e)
    have cur: "map_get (ws_editors w1) j = Some st'" if "(j, st') \<in> set entries" for j st'
    proof -
      have "j \<noteq> i" using that i by force
      then show ?thesis using one(1) Cons.prems(3) [of j st'] that by (simp add: reconciled_def)
    qed
    have dist: "distinct (map fst entries)" using Cons.prems(2) by (simp add: e)
    note rest = Cons.IH [OF inv1 dist cur facts(1) rec]
    have "map_get (ws_editors w') i = map_get (ws_editors w1) i" using rest i by (simp add: reconciled_def)
    then show ?thesis using rest one(2) [OF True] reconciled_trans [OF one(1)] by (auto simp: e)
  qed
qed

text \<open>Merging: every document of the snapshot gets an editor.\<close>

lemma merge_documents_inv:
  "editors_inv P h w \<Longrightarrow> (\<And>d. d \<in> set ds \<Longrightarrow> genuine_document h d) \<Longrightarrow>
    merge_documents env ds w = (w', merged) \<Longrightarrow>
    editors_inv P h w' \<and> fst ` set (ws_editors w') = fst ` set (ws_editors w) \<union> doc_id ` set ds
    \<and> map doc_id merged = map doc_id ds \<and> ws_metadataRevision w' = ws_metadataRevision w"
proof (induction ds arbitrary: w merged)
  case (Cons d ds)
  obtain w1 st where g: "getEditorState env d w = (w1, st)" by fastforce
  obtain merged' where m: "merge_documents env ds w1 = (w', merged')" "map doc_id merged = doc_id d # map doc_id merged'"
    using Cons.prems(3) g by (auto split: prod.splits)
  have w1: "editors_inv P h w1 \<and> fst ` set (ws_editors w1) = insert (doc_id d) (fst ` set (ws_editors w))
      \<and> ws_metadataRevision w1 = ws_metadataRevision w"
  proof (cases "map_get (ws_editors w) (doc_id d)")
    case None
    let ?st = "ed_make (re_ed env) d (re_clientID env)"
    have gen: "genuine_document h d" using Cons.prems(2) by simp
    have "P (doc_id d) None" if "doc_id d \<notin> hs_deleted h"
      using Cons.prems(1) None that by (simp add: editors_inv_def editor_synced_def)
    then have "editors_inv P h (store_synced (doc_id d) ?st (doc_content d) w)"
      using created [OF _ gen] by (intro store_editors_inv [OF Cons.prems(1)]) simp
    moreover have w1: "w1 = store_synced (doc_id d) ?st (doc_content d) w" using g getEditorState_None [OF None, of env] by auto
    moreover have "ws_metadataRevision w1 = ws_metadataRevision w" by (simp add: w1 store_synced_def)
    ultimately show ?thesis by (simp add: store_keys)
  next
    case (Some s)
    then show ?thesis using Cons.prems(1) g by (force simp: getEditorState_Some dest: map_of_SomeD)
  qed
  then show ?case using Cons.IH [OF _ _ m(1)] Cons.prems(2) m(2) by auto
qed simp

lemma adopt_documents_inv:
  assumes ed: "editors_inv P h w"
    and keys: "fst ` set (ws_editors w) \<subseteq> doc_id ` set ds" and "distinct (map doc_id ds)"
    and docs: "\<And>d. d \<in> set ds \<Longrightarrow> genuine_document h d \<and> hs_alive h (doc_id d) m" and m: "ws_metadataRevision w \<le> m"
  shows "room_inv P h (adopt_documents env ds m w)"
proof -
  obtain w1 merged where mg: "merge_documents env ds w = (w1, merged)" by fastforce
  have mi: "editors_inv P h w1" "fst ` set (ws_editors w1) = doc_id ` set ds"
    "map doc_id merged = map doc_id ds" "ws_metadataRevision w1 = ws_metadataRevision w"
    using merge_documents_inv [OF ed _ mg] docs keys by auto
  have ids: "doc_id ` set merged = doc_id ` set ds" using arg_cong [OF mi(3), of set] by simp
  have known: "document_known h (w1\<lparr>ws_metadataRevision := m\<rparr>) d" if "d \<in> set merged" for d
  proof -
    have "doc_id d \<in> doc_id ` set ds" using that ids by blast
    then have "hs_alive h (doc_id d) m" "map_get (ws_editors w1) (doc_id d) \<noteq> None"
      using docs mi(2) by (auto simp: map_of_eq_None_iff)
    then show ?thesis unfolding document_known_def by auto
  qed
  have eq: "core (adopt_documents env ds m w) = core (keep_active merged (show_documents merged (w1\<lparr>ws_metadataRevision := m\<rparr>)))"
    using m mi(4) by (simp add: adopt_documents_def mg core_def keep_active_def show_documents_def refreshRoomUsage_def Let_def)
  have "fst ` set (ws_editors (w1\<lparr>ws_metadataRevision := m\<rparr>)) \<subseteq> doc_id ` set merged" using mi(2) ids by simp
  moreover have "distinct (map doc_id merged)" using mi(3) assms(3) by simp
  moreover have "editors_inv P h (w1\<lparr>ws_metadataRevision := m\<rparr>)" using mi(1) by (simp add: editors_inv_metadata)
  ultimately show ?thesis using adopt_inv [OF _ _ _ known eq] by blast
qed

lemma core_settle_accepted: "core (fold (settle_accepted acc) ops w) = core w"
  by (induction ops arbitrary: w) (simp_all add: settle_accepted_def frame)

lemma document_by_id:
  "map_get (map_new (map (\<lambda>d. (doc_id d, d)) ds)) i = Some d \<Longrightarrow> d \<in> set ds \<and> doc_id d = i"
  by (auto simp: map_get_map_new dest!: map_of_SomeD)

lemma snapshot_not_older:
  "snapshotCanReconcile (currentRevisionAuthority env w) (snapshot_authority m ds) \<Longrightarrow> ws_metadataRevision w \<le> m"
  by (simp add: snapshotCanReconcile_iff currentRevisionAuthority_def snapshot_authority_def captureLiveRevisionAuthority_def)

lemma genuine_snapshot_facts:
  assumes inv: "room_inv P h w" and gen: "genuine_snapshot (re_clientID env) h s"
    and m: "ws_metadataRevision w \<le> ls_metadataRevision s"
  shows "snapshot_facts (re_clientID env) h (map_new (map (\<lambda>d. (doc_id d, d)) (normalizeLiveDocuments (ls_documents s)))) (fst ` set (ws_editors w))"
  unfolding snapshot_facts_def
proof (intro conjI allI ballI impI)
  fix i d assume "map_get (map_new (map (\<lambda>d. (doc_id d, d)) (normalizeLiveDocuments (ls_documents s)))) i = Some d"
  from document_by_id [OF this] show "settled_document (re_clientID env) h d" "doc_id d = i"
    using gen by (auto simp: normalizeLiveDocuments_facts genuine_snapshot_def)
next
  fix i assume i: "i \<in> fst ` set (ws_editors w)"
    and none: "map_get (map_new (map (\<lambda>d. (doc_id d, d)) (normalizeLiveDocuments (ls_documents s)))) i = None"
  have gone: "i \<notin> doc_id ` set (ls_documents s)"
    using none by (simp add: map_get_map_new_None_iff image_image normalizeLiveDocuments_facts)
  obtain d where "d \<in> set (ws_documents w)" "doc_id d = i" using i inv by (auto simp: room_inv_def shape_inv_def)
  with inv have "i \<notin> hs_deleted h \<Longrightarrow> hs_alive h i (ws_metadataRevision w)"
    by (auto simp: room_inv_def text_inv_def document_known_def)
  with history gen gone m show "i \<in> hs_deleted h" unfolding history_ok_def genuine_snapshot_def by blast
qed

lemma reconcileSnapshot_inv:
  assumes inv: "room_inv P h w" and gen: "genuine_snapshot (re_clientID env) h s"
  shows "room_inv P h
    (fst (reconcileSnapshot env (ls_documents s) (ls_metadataRevision s) authority acc w))"
proof -
  define ds where "ds = normalizeLiveDocuments (ls_documents s)"
  define nextByID where "nextByID = map_new (map (\<lambda>d. (doc_id d, d)) ds)"
  define w1 where "w1 = fold (settle_accepted acc) (tracker_values (ws_tracker w)) w"
  obtain w2 r where rec: "reconcile_editors env nextByID acc (ws_editors w1) w1 = (w2, r)" by fastforce
  let ?ok = "snapshotCanReconcile authority (snapshot_authority (ls_metadataRevision s) ds)
    \<and> snapshotCanReconcile (currentRevisionAuthority env w) (snapshot_authority (ls_metadataRevision s) ds)"
  have eq: "fst (reconcileSnapshot env (ls_documents s) (ls_metadataRevision s) authority acc w)
      = (if \<not> ?ok then w else if r = Some True then adopt_documents env ds (ls_metadataRevision s) w2 else w2)"
    using rec by (simp add: reconcileSnapshot_def ds_def nextByID_def w1_def Let_def)
  show ?thesis
  proof (cases ?ok)
    case True
    then have m: "ws_metadataRevision w \<le> ls_metadataRevision s" using snapshot_not_older by blast
    have w1: "core w1 = core w" by (simp add: w1_def core_settle_accepted)
    then have inv1: "room_inv P h w1" "ws_editors w1 = ws_editors w" "ws_metadataRevision w1 = ws_metadataRevision w"
      using inv room_inv_core [OF w1, of P h] by (simp_all add: core_def)
    have facts: "snapshot_facts (re_clientID env) h nextByID (fst ` set (ws_editors w1))"
      using genuine_snapshot_facts [OF inv gen m] by (simp add: nextByID_def ds_def inv1(2))
    have dist: "distinct (map fst (ws_editors w1))" using inv1(1) by (simp add: room_inv_def shape_inv_def)
    have rec': "reconciled P h (fst ` set (ws_editors w1)) w1 w2"
      "r = Some True \<Longrightarrow> \<forall>i\<in>fst ` set (ws_editors w1). map_get nextByID i = None \<longrightarrow> map_get (ws_editors w2) i = None"
      using reconcile_editors_inv [OF inv1(1) dist _ facts rec] dist by simp_all
    have inv2: "room_inv P h w2" using rec'(1) by (simp add: reconciled_def)
    have "room_inv P h (adopt_documents env ds (ls_metadataRevision s) w2)" if "r = Some True"
    proof (rule adopt_documents_inv [OF room_inv_editors [OF inv2]])
      have "map_get nextByID i \<noteq> None" if "i \<in> fst ` set (ws_editors w2)" for i
        using rec'(1) rec'(2) [OF \<open>r = Some True\<close>] that unfolding reconciled_def map_of_eq_None_iff by blast
      then show "fst ` set (ws_editors w2) \<subseteq> doc_id ` set ds"
        unfolding nextByID_def map_get_map_new_None_iff by (force simp: image_image)
      show "distinct (map doc_id ds)" using gen by (simp add: ds_def normalizeLiveDocuments_def genuine_snapshot_def distinct_map)
      show "ws_metadataRevision w2 \<le> ls_metadataRevision s" using rec'(1) inv1(3) m by (simp add: reconciled_def)
    qed (use gen settled_genuine in \<open>auto simp: ds_def normalizeLiveDocuments_facts genuine_snapshot_def\<close>)
    then show ?thesis using inv2 True by (simp add: eq)
  qed (use inv in \<open>simp add: eq\<close>)
qed

end

end
