(* ===== verification/Live_Room_Run.thy ===== *)
theory Live_Room_Run
  imports Live_Room_Sync
begin

text \<open>
  Steps of a mounted live room. The locale \<open>resync_world\<close> says when the resynchronisation controller keeps an
  invariant of the room it serves; it is interpreted on the callbacks the component gives the
  controller. Every step of the room then keeps the invariant of the workspace.
\<close>

section \<open>What the resynchronisation controller keeps\<close>

definition world_holds :: "('w \<Rightarrow> bool) \<Rightarrow> ('ev \<Rightarrow> bool) \<Rightarrow> ('ev, 'auth, 'w) liveResync \<Rightarrow> bool" where
  "world_holds P E s \<longleftrightarrow> P (rs_world s) \<and> (\<forall>e\<in>set (rs_buffer s). E e)"

lemma attempt_world:
  "rs_world (cancelAttempt s) = rs_world s" "rs_buffer (cancelAttempt s) = rs_buffer s"
  "rs_world (clearDeadline s) = rs_world s" "rs_buffer (clearDeadline s) = rs_buffer s"
  by (simp_all add: cancelAttempt_def clearDeadline_def Let_def split: option.splits)

locale resync_world =
  fixes opts :: "('snap, 'ev, 'auth, 'w) liveResyncOptions"
    and P :: "'w \<Rightarrow> bool" and E :: "'ev \<Rightarrow> bool" and S :: "'snap \<Rightarrow> bool"
  assumes started: "P w \<Longrightarrow> P (ro_onStarted opts w)"
    and succeeded: "P w \<Longrightarrow> P (ro_onSucceeded opts w)"
    and failed: "P w \<Longrightarrow> P (ro_onFailed opts reason w)"
    and reconcile: "P w \<Longrightarrow> S snap \<Longrightarrow> P (fst (ro_reconcile opts snap auth w))"
    and buffered: "P w \<Longrightarrow> E e \<Longrightarrow> P (fst (ro_applyBuffered opts e w))"
begin

lemma fail_holds: "world_holds P E s \<Longrightarrow> world_holds P E (resync_fail opts reason s)"
  by (simp add: world_holds_def resync_fail_def failed attempt_world Let_def)

lemma begin_holds: "world_holds P E s \<Longrightarrow> world_holds P E (beginAttempt opts s)"
  using fail_holds [of "cancelAttempt s"] by (simp add: beginAttempt_def Let_def) (simp add: world_holds_def attempt_world)

lemma retry_holds: "world_holds P E s \<Longrightarrow> world_holds P E (resync_retry opts reason s)"
  using fail_holds [of s] by (simp add: resync_retry_def Let_def split: prod.split) (simp add: world_holds_def)

lemma start_holds: "world_holds P E s \<Longrightarrow> world_holds P E (resync_start opts s)"
  unfolding resync_start_def by (rule begin_holds) (simp add: world_holds_def started split: prod.split)

lemma buffer_holds: "world_holds P E s \<Longrightarrow> E e \<Longrightarrow> world_holds P E (fst (bufferEvent opts e s))"
  using begin_holds [of s] by (auto simp: bufferEvent_def) (auto simp: world_holds_def)

lemma stop_holds: "world_holds P E s \<Longrightarrow> world_holds P E (resync_stop s)"
  by (simp add: world_holds_def resync_stop_def attempt_world Let_def)

lemma replay_holds: "P w \<Longrightarrow> (\<And>e. e \<in> set es \<Longrightarrow> E e) \<Longrightarrow> P (fst (replay (ro_applyBuffered opts) es w))"
proof (induction es arbitrary: w)
  case (Cons e es)
  have "P (fst (ro_applyBuffered opts e w))" using Cons.prems by (simp add: buffered)
  then show ?case using Cons by (auto split: prod.split)
qed simp

lemma resolved_holds:
  assumes "world_holds P E s" "S snap"
  shows "world_holds P E (requestResolved opts generation controller auth snap s)"
proof -
  obtain w r where r: "ro_reconcile opts snap auth (rs_world s) = (w, r)" by fastforce
  have P: "P w" using reconcile [of "rs_world s" snap auth] assms r by (simp add: world_holds_def)
  obtain w' ok where replay: "replay (ro_applyBuffered opts) (rs_buffer s) w = (w', ok)" by fastforce
  have P': "P w'" using replay_holds [OF P, of "rs_buffer s"] replay assms(1) by (simp add: world_holds_def)
  have "world_holds P E (s\<lparr>rs_requestController := None, rs_world := w\<rparr>)"
    "world_holds P E (s\<lparr>rs_requestController := None, rs_world := w, rs_buffer := [], rs_world := w'\<rparr>)"
    using P P' assms(1) by (simp_all add: world_holds_def)
  note known = this fail_holds [OF this(1)] retry_holds [OF this(1)] retry_holds [OF this(2)]
  show ?thesis
    using assms(1) known succeeded [OF P']
    by (cases r) (simp_all add: requestResolved_def r replay Let_def, simp add: world_holds_def attempt_world)
qed

lemma rejected_holds:
  assumes "world_holds P E s"
  shows "world_holds P E (requestRejected opts generation controller b s)"
proof -
  have "world_holds P E (s\<lparr>rs_requestController := None\<rparr>)" using assms by (simp add: world_holds_def)
  then show ?thesis using retry_holds [of "s\<lparr>rs_requestController := None\<rparr>"] assms
    by (simp add: requestRejected_def Let_def)
qed

text \<open>Snapshots that arrive have to satisfy \<open>S\<close>, events that are buffered \<open>E\<close>.\<close>

lemma step_holds:
  assumes "world_holds P E s"
    and "\<And>c snap. event = Resolved c snap \<Longrightarrow> S snap" "\<And>e. event = BufferEvent e \<Longrightarrow> E e"
  shows "world_holds P E (resync_step opts event s)"
proof -
  have taken: "world_holds P E (take_inflight c s)" for c using assms(1) by (simp add: world_holds_def take_inflight_def)
  show ?thesis
  proof (cases event)
    case (TimerFired i)
    have fired: "world_holds P E (s\<lparr>rs_timers := ts, rs_deadlineTimer := None\<rparr>)"
      "world_holds P E (s\<lparr>rs_timers := ts, rs_retryTimer := None\<rparr>)" for ts
      using assms(1) by (simp_all add: world_holds_def)
    show ?thesis
      using assms(1) fail_holds [OF fired(1)] begin_holds [OF fired(2)] fired(1)
      by (simp add: TimerFired deadlineFired_def retryFired_def Let_def split: option.split resyncCallback.split)
  next
    case (ClockAdvanced d)
    then show ?thesis using assms(1) by (simp add: world_holds_def)
  qed (use assms start_holds buffer_holds stop_holds resolved_holds [OF taken] rejected_holds [OF taken] in
      \<open>auto split: option.split\<close>)
qed

end

section \<open>Operations that leave the documents alone\<close>

lemma core_recovery [frame]:
  "core (fst (draw_id env p w)) = core w" "core (enterRecovery operation message w) = core w"
  "core (stopResyncWork w) = core w" "core (onWork env b w) = core w"
  by (simp_all add: draw_id_def enterRecovery_def stopResyncWork_def onWork_def Let_def frame)

lemma core_draw_id [frame]: "draw_id env p w = (w', i) \<Longrightarrow> core w' = core w"
  using core_recovery(1) [of env p w] by simp

lemma core_resync_callbacks [frame]:
  "core (resync_onStarted env w) = core w" "core (resync_onSucceeded env w) = core w"
  by (simp_all add: resync_onStarted_def resync_onSucceeded_def Let_def frame)

lemma core_enterResyncRecovery [frame]: "core (enterResyncRecovery env w) = core w"
proof -
  obtain w1 i where d: "draw_id env ''resync-recovery-'' (w\<lparr>ws_recovering := True\<rparr>) = (w1, i)" by fastforce
  have "core w1 = core w" using core_draw_id [OF d] by (simp add: frame)
  then show ?thesis by (simp add: enterResyncRecovery_def d Let_def frame)
qed

lemma core_reject [frame]: "core (reject_operation i c w) = core w"
  by (simp add: reject_operation_def frame split: prod.split option.split)

lemma core_room_send [frame]: "room_send v w = (w', b) \<Longrightarrow> core w' = core w"
  using core_setters(15) [of v w] by simp

lemma core_replayPendingMetadata [frame]: "core (replayPendingMetadata g w) = core w"
  by (auto simp: replayPendingMetadata_def frame Let_def split: option.split prod.split)

lemma core_operation_for [frame]: "operation_for env st w = (w', i) \<Longrightarrow> core w' = core w"
  by (auto simp: operation_for_def frame Let_def split: option.splits prod.splits)

lemma core_track_document [frame]: "core (track_document env g i d st v w) = core w"
  by (simp add: track_document_def frame)

lemma core_flush_editors [frame]: "core (flush_editors env g es w) = core w"
proof (induction es arbitrary: w)
  case (Cons e es)
  show ?case
    by (cases e) (auto simp: Cons.IH frame Let_def split: option.split prod.split)
qed simp

lemma core_flush [frame]: "core (flushChanges env w) = core w" "core (flushTimerFired env w) = core w"
  by (simp_all add: flushChanges_def flushTimerFired_def frame)

lemma core_view_updates [frame]:
  "core (save_nickname env n w) = core w" "core (cancelTabRename w) = core w" "core (renameDocument w) = core w"
  "core (save_layout env w) = core w" "core (remember_split w) = core w" "core (panes_effect w) = core w"
  "core (handlePresence env k p w) = core w" "core (handleRoomMode locked ps w) = core w"
  "core (expireRoom w) = core w" "core (exportPaste env m w) = core w" "core (copyRecoveryText c w) = core w"
  "core (view_ready i c w) = core w" "core (swapPanes a b w) = core w"
  by (simp_all add: save_nickname_def cancelTabRename_def renameDocument_def save_layout_def remember_split_def
      panes_effect_def handlePresence_def handleRoomMode_def expireRoom_def exportPaste_def copyRecoveryText_def
      view_ready_def swapPanes_def frame Let_def split: option.split)

lemma core_presence_left [frame]: "core (handlePresenceLeft i p w) = core w"
  by (simp add: handlePresenceLeft_def frame Let_def split: option.split)

lemma core_joined [frame]: "core (handleJoined env e w) = core w"
  by (simp add: handleJoined_def frame Let_def)

lemma core_sendMetadata [frame]: "sendMetadata env k x w = (w', b) \<Longrightarrow> core w' = core w"
  by (auto simp: sendMetadata_def frame Let_def split: if_splits prod.splits)

lemma core_sendMetadata_fst [frame]: "core (fst (sendMetadata env k x w)) = core w"
  using core_sendMetadata [of env k x w] by (cases "sendMetadata env k x w") simp

lemma core_user_operations [frame]:
  "core (addDocument env pane w) = core w" "core (submitRename env v w) = core w"
  "core (updateLanguage env l i w) = core w" "core (deleteDocument env i w) = core w"
  "core (commitTabOrder env order w) = core w" "core (moveDocument env i n w) = core w"
  "core (chooseLayout p w) = core w" "core (toggleSplit w) = core w"
proof -
  show commit: "core (commitTabOrder env order w) = core w" for order
    by (auto simp: commitTabOrder_def frame Let_def split: prod.split)
  show "core (moveDocument env i n w) = core w"
    by (simp add: moveDocument_def commit Let_def split: option.split)
  show choose: "core (chooseLayout p w) = core w" for p
    by (auto simp: chooseLayout_def frame split: prod.split)
  show "core (toggleSplit w) = core w" by (simp add: toggleSplit_def choose)
qed (auto simp: addDocument_def submitRename_def updateLanguage_def deleteDocument_def frame Let_def
    split: option.split prod.split)

section \<open>Operations on the shown documents\<close>

lemma activate_inv:
  assumes "room_inv P h w" "i \<in> doc_id ` set (ws_documents w)"
  shows "room_inv P h (w\<lparr>ws_active := i\<rparr>)"
proof -
  have "shape_inv (w\<lparr>ws_active := i\<rparr>)"
    using assms by (cases "ws_documents w = []") (simp_all add: room_inv_def shape_inv_def)
  moreover have "text_inv P h (w\<lparr>ws_active := i\<rparr>)"
    using assms(1) by (simp add: room_inv_def text_inv_def editor_synced_def document_known_def)
  ultimately show ?thesis by (simp add: room_inv_def)
qed

lemma has_document_iff: "has_document w i \<longleftrightarrow> i \<in> doc_id ` set (ws_documents w)"
  by (auto simp: has_document_def list_ex_iff)

lemma core_active: "core w' = core w \<Longrightarrow> core (w'\<lparr>ws_active := i\<rparr>) = core (w\<lparr>ws_active := i\<rparr>)"
  by (simp add: core_def)

lemma core_announced:
  "core (case map_get es i of None \<Rightarrow> w | Some state \<Rightarrow> fst (sendPresence env state i w)) = core w"
  by (simp add: frame split: option.split)

lemma core_selectDocument:
  assumes "has_document w i"
  shows "core (selectDocument env i w) = core (w\<lparr>ws_active := i\<rparr>)"
proof -
  define w1 where "w1 = (if i \<noteq> ws_active w then cancelTabRename w else w)"
  define w2 where "w2 = (if room_split (ws_view w1) \<and> i \<notin> set (take (paneCount (ws_view w1)) (ws_panes w1))
    then assignPaneDocument (case index_of (ws_active w1) (ws_panes w1) of
      Some focused \<Rightarrow> if focused < paneCount (ws_view w1) then focused else 0 | None \<Rightarrow> 0) i w1 else w1)"
  have w2: "core w2 = core w" by (simp add: w1_def w2_def frame)
  have "selectDocument env i w = (case map_get (ws_editors (w2\<lparr>ws_active := i\<rparr>)) i of
      None \<Rightarrow> w2\<lparr>ws_active := i\<rparr> | Some state \<Rightarrow> fst (sendPresence env state i (w2\<lparr>ws_active := i\<rparr>)))"
    using assms unfolding selectDocument_def Let_def w1_def [symmetric] w2_def [symmetric] by simp
  then show ?thesis using core_active [OF w2] by (simp add: core_announced)
qed

lemma core_selectPane: "core (selectPane env n i w) = core (w\<lparr>ws_active := i\<rparr>)"
proof -
  have "core (cancelTabRename ((assignPaneDocument n i w)\<lparr>ws_active := i\<rparr>)) = core (w\<lparr>ws_active := i\<rparr>)"
    unfolding core_view_updates by (rule core_active) (simp add: frame)
  then show ?thesis unfolding selectPane_def Let_def core_announced .
qed

lemma selectDocument_inv: "room_inv P h w \<Longrightarrow> room_inv P h (selectDocument env i w)"
  using activate_inv [of P h w i] room_inv_core [OF core_selectDocument, of w i P h env]
  by (cases "has_document w i") (simp_all add: has_document_iff, simp add: selectDocument_def has_document_iff)

lemma selectPane_inv: "room_inv P h w \<Longrightarrow> i \<in> doc_id ` set (ws_shown w) \<Longrightarrow> room_inv P h (selectPane env n i w)"
  using activate_inv [of P h w i] shown_ids [of P h w] room_inv_core [OF core_selectPane, of P h env n i w] by simp

lemma active_pane_effect_inv:
  assumes "room_inv P h w"
  shows "room_inv P h (active_pane_effect w)"
proof -
  have "room_inv P h (w\<lparr>ws_active := i\<rparr>)" if "List.find (\<lambda>i. i \<in> set (map doc_id (ws_shown w))) ps = Some i" for ps i
    using that activate_inv [OF assms, of i] shown_ids [OF assms] by (auto simp: find_Some_iff)
  then show ?thesis using assms room_inv_core [OF core_setters(14), of P h 0 "ws_active w" w]
    by (auto simp: active_pane_effect_def Let_def split: option.split)
qed

lemma sync_refs_inv:
  assumes "room_inv P h w"
  shows "room_inv P h (sync_refs w)"
proof -
  have same: "map doc_id (ws_shown w) = map doc_id (ws_documents w)" using assms by (simp add: room_inv_def shape_inv_def)
  then have "ws_shown w = [] \<longleftrightarrow> ws_documents w = []" by (metis map_is_Nil_conv)
  then have "shape_inv (sync_refs w)"
    using assms same by (simp add: sync_refs_def room_inv_def shape_inv_def shown_ids [OF assms])
  moreover have "text_inv P h (sync_refs w)"
    using assms by (simp add: sync_refs_def room_inv_def text_inv_def editor_synced_def document_known_def)
  ultimately show ?thesis by (simp add: room_inv_def)
qed

text \<open>A transaction of a mounted editor: unless the document is deleted it edits the stored state.\<close>

definition local_transaction :: "('st, 'cs, 'd) roomEnv \<Rightarrow> history \<Rightarrow> jsstring \<Rightarrow> 'st \<Rightarrow> 'st workspace \<Rightarrow> bool" where
  "local_transaction env h i st w \<longleftrightarrow> i \<in> hs_deleted h
     \<or> (\<exists>st0. map_get (ws_editors w) i = Some st0 \<and> local_edit env st0 st)"

section \<open>The wired room\<close>

context document_sync
begin

lemma frame_inv: "core w' = core w \<Longrightarrow> room_inv P h w \<Longrightarrow> room_inv P h w'"
  using room_inv_core [of w' w P h] by simp

lemma editor_update_inv:
  assumes inv: "room_inv P h w" and i: "has_document w i" and local: "local_transaction env h i st w"
  shows "room_inv P h (w\<lparr>ws_editors := AList.update i st (ws_editors w)\<rparr>)"
proof -
  let ?w = "w\<lparr>ws_editors := AList.update i st (ws_editors w)\<rparr>"
  have "\<exists>t. map_get (ws_synced w) i = Some t \<and> P i (Some (t, st))" if i: "i \<notin> hs_deleted h"
  proof -
    obtain st0 where st0: "map_get (ws_editors w) i = Some st0" "local_edit env st0 st"
      using local i by (auto simp: local_transaction_def)
    with room_inv_Some [OF inv i st0(1)] edited [OF i _ st0(2)] show ?thesis by blast
  qed
  then have "editor_synced P h ?w j" for j
    using inv by (auto simp: room_inv_def text_inv_def editor_synced_def map_get_update)
  moreover have "document_known h ?w d" if "document_known h w d" for d
    using that by (simp add: document_known_def map_get_update)
  moreover have "shape_inv ?w"
    using inv i by (auto simp: room_inv_def shape_inv_def has_document_iff AList.distinct_update keys_update)
  ultimately show ?thesis using inv by (simp add: room_inv_def text_inv_def)
qed

lemma view_dispatched_inv:
  assumes "room_inv P h w" "local_transaction env h i st w"
  shows "room_inv P h (fst (view_dispatched env i st c w))"
proof (cases "has_document w i")
  case True
  have "core (fst (view_dispatched env i st c w)) = core (w\<lparr>ws_editors := AList.update i st (ws_editors w)\<rparr>)"
    by (simp add: view_dispatched_def True Let_def frame)
  from frame_inv [OF this] editor_update_inv [OF assms(1) True assms(2)] show ?thesis by simp
next
  case False
  have "core (fst (view_dispatched env i st c w)) = core w" by (simp add: view_dispatched_def False frame)
  from frame_inv [OF this] assms(1) show ?thesis by simp
qed

section \<open>The wired room\<close>

lemma applyBuffered_inv:
  assumes "room_inv P h w" "genuine_event h e"
  shows "room_inv P h (fst (applyBuffered env e w))"
proof (cases e)
  case (Changes c)
  have gen: "genuine_change h c" using assms(2) by (simp add: Changes genuine_event_def)
  obtain w' r where ap: "applyDocumentEvent env c w = (w', r)" by fastforce
  have "room_inv P h w'" using applyDocumentEvent_inv [OF assms(1) gen] by (simp add: ap)
  then show ?thesis using frame_inv [OF core_updates(17)] by (cases r) (simp_all add: applyBuffered_def Changes ap)
qed (use assms(1) applyMetadataEvent_inv [OF assms] in \<open>simp_all add: applyBuffered_def\<close>)

lemma reconcile_callback_inv:
  assumes "room_inv P h w" "genuine_snapshot (re_clientID env) h s"
  shows "room_inv P h (fst (reconcile_callback env s authority w))"
proof -
  obtain w' r where rec: "reconcileSnapshot env (ls_documents s) (ls_metadataRevision s) authority (ls_acceptedOperationIDs s) w = (w', r)"
    by fastforce
  have "room_inv P h w'" using reconcileSnapshot_inv [OF assms, of authority "ls_acceptedOperationIDs s"] by (simp add: rec)
  then show ?thesis using frame_inv [OF core_updates(17)] by (cases r) (simp_all add: reconcile_callback_def rec)
qed

end

text \<open>The callbacks the component gives the resynchronisation controller keep the invariant of the workspace.\<close>

sublocale document_sync \<subseteq> resync_world "room_options env" "room_inv P h" "genuine_event h" "genuine_snapshot (re_clientID env) h"
proof
  fix w :: "'st workspace" and reason
  assume w: "room_inv P h w"
  show "room_inv P h (ro_onStarted (room_options env) w)"
    by (rule frame_inv [OF _ w]) (simp add: room_options_def frame)
  show "room_inv P h (ro_onSucceeded (room_options env) w)"
    by (rule frame_inv [OF _ w]) (simp add: room_options_def frame)
  show "room_inv P h (ro_onFailed (room_options env) reason w)"
    by (rule frame_inv [OF _ w]) (simp add: room_options_def frame)
  show "room_inv P h (fst (ro_reconcile (room_options env) snap auth w))"
    if "genuine_snapshot (re_clientID env) h snap" for snap auth
    using reconcile_callback_inv [OF w that] by (simp add: room_options_def)
  show "room_inv P h (fst (ro_applyBuffered (room_options env) e w))" if "genuine_event h e" for e
    using applyBuffered_inv [OF w that] by (simp add: room_options_def)
qed

subsection \<open>Messages of the connection controller\<close>

text \<open>Only the message listener hands out messages, and it hands out the one it was given.\<close>

definition quiet :: "liveConnection \<Rightarrow> liveConnection \<Rightarrow> bool" where
  "quiet c c' \<longleftrightarrow> (\<exists>es. cn_log c' = cn_log c @ es \<and> (\<forall>d. OnMessage d \<notin> set es))"

lemma quiet_refl [simp]: "quiet c c"
  by (simp add: quiet_def)

lemma quiet_emit [simp]:
  assumes "quiet c c'" "\<And>d. e \<noteq> OnMessage d"
  shows "quiet c (emit e c')"
proof -
  obtain es where "cn_log c' = cn_log c @ es" "\<forall>d. OnMessage d \<notin> set es" using assms(1) by (auto simp: quiet_def)
  then show ?thesis using assms(2) unfolding quiet_def by (intro exI [of _ "es @ [e]"]) (simp, metis)
qed

lemma quiet_log: "cn_log c'' = cn_log c' \<Longrightarrow> quiet c c'' = quiet c c'"
  by (simp add: quiet_def)

lemma quiet_updates [simp]:
  "quiet c (c'\<lparr>cn_socket := a\<rparr>) = quiet c c'" "quiet c (c'\<lparr>cn_reconnectTimer := b\<rparr>) = quiet c c'"
  "quiet c (c'\<lparr>cn_connectTimer := b\<rparr>) = quiet c c'" "quiet c (c'\<lparr>cn_joinTimer := b\<rparr>) = quiet c c'"
  "quiet c (c'\<lparr>cn_stopped := x\<rparr>) = quiet c c'" "quiet c (c'\<lparr>cn_probing := x\<rparr>) = quiet c c'"
  "quiet c (c'\<lparr>cn_probeGeneration := n\<rparr>) = quiet c c'" "quiet c (c'\<lparr>cn_joined := x\<rparr>) = quiet c c'"
  "quiet c (c'\<lparr>cn_attempt := n\<rparr>) = quiet c c'" "quiet c (c'\<lparr>cn_state := st\<rparr>) = quiet c c'"
  "quiet c (c'\<lparr>cn_timers := ts\<rparr>) = quiet c c'" "quiet c (c'\<lparr>cn_online := x\<rparr>) = quiet c c'"
  "quiet c (c'\<lparr>cn_nextSocket := k\<rparr>) = quiet c c'"
  by (simp_all add: quiet_def)

lemma quiet_setState [simp]: "quiet c c' \<Longrightarrow> quiet c (setState st c')"
  by (simp add: setState_def)

lemma quiet_clear [simp]:
  "quiet c (clearReconnectTimer c') = quiet c c'" "quiet c (clearConnectTimer c') = quiet c c'"
  "quiet c (clearJoinTimer c') = quiet c c'" "quiet c (cancelProbe c') = quiet c c'"
  by (simp_all add: clearReconnectTimer_def clearConnectTimer_def clearJoinTimer_def cancelProbe_def split: option.split)

lemma quiet_clear_all [simp]: "quiet c (clearAttemptTimers c') = quiet c c'" "quiet c (clearTimers c') = quiet c c'"
  by (simp_all add: clearAttemptTimers_def clearTimers_def)

lemma quiet_close_socket [simp]: "quiet c c' \<Longrightarrow> quiet c (close_socket s r c')"
  by (simp add: close_socket_def split: option.split)

lemma quiet_methods [simp]:
  assumes "quiet c c'"
  shows "quiet c (scheduleReconnect n c')" "quiet c (retryOrExhaust opts r c')" "quiet c (connect opts c')"
    "quiet c (probeBeforeReconnect c')" "quiet c (conn_stop c')" "quiet c (conn_offline c')" "quiet c (markJoined c')"
    "quiet c (reconnectAfterResync c')" "quiet c (fst (conn_send v m c'))" "quiet c (timeoutFired s reason c')"
    "quiet c (socketOpened opts s c')"
  using assms
  by (simp_all add: scheduleReconnect_def retryOrExhaust_def connect_def probeBeforeReconnect_def conn_stop_def
      conn_offline_def markJoined_def reconnectAfterResync_def conn_send_def timeoutFired_def socketOpened_def Let_def
      split: option.split prod.split)

lemma quiet_callbacks [simp]:
  assumes "quiet c c'"
  shows "quiet c (handleClose opts s code reason r c')" "quiet c (probeResolved opts n res r c')"
    "quiet c (probeRejected opts n r c')"
  using assms
  by (simp_all add: handleClose_def probeResolved_def probeRejected_def Let_def split: liveReconnectProbeResult.split)

lemma conn_step_quiet: "(\<And>s d. event \<noteq> SocketMessage s d) \<Longrightarrow> quiet c (conn_step opts event c)"
  by (cases event) (auto simp: conn_start_def conn_online_def reconnectFired_def Let_def
      split: option.split connectionCallback.split)

lemma conn_step_messages:
  assumes "OnMessage d \<in> set (drop (length (cn_log c)) (cn_log (conn_step opts event c)))"
  obtains s where "event = SocketMessage s (JStr d)"
proof (cases "\<exists>s v. event = SocketMessage s v")
  case True
  then obtain s v where "event = SocketMessage s v" by blast
  then show ?thesis using assms that by (cases v) (auto simp: socketMessage_def split: if_splits)
next
  case False
  then have "quiet c (conn_step opts event c)" using conn_step_quiet [of event c opts] by blast
  then show ?thesis using assms by (auto simp: quiet_def)
qed

subsection \<open>Events and steps of the room\<close>

definition room_ok :: "(jsstring \<Rightarrow> (jsstring \<times> 'st) option \<Rightarrow> bool) \<Rightarrow> history \<Rightarrow> 'st room \<Rightarrow> bool" where
  "room_ok P h s \<longleftrightarrow> world_holds (room_inv P h) (genuine_event h) s"

text \<open>Messages are genuine when what they decode to is; everything else the environment may do freely.\<close>

definition genuine_message :: "('st, 'cs, 'd) roomEnv \<Rightarrow> history \<Rightarrow> jsstring \<Rightarrow> bool" where
  "genuine_message env h data \<longleftrightarrow> (\<forall>event. Option.bind (json_parse data) (decodeLiveWireEvent (re_isoDate env)) = Some event \<longrightarrow>
     genuine_event h event)"

definition genuine_step :: "('st, 'cs, 'd) roomEnv \<Rightarrow> history \<Rightarrow> 'st room \<Rightarrow> 'st roomEvent \<Rightarrow> bool" where
  "genuine_step env h s event = (case event of
     ConnectionEvent (SocketMessage socket (JStr data)) \<Rightarrow> genuine_message env h data
   | SnapshotEvent (Resolved c snapshot) \<Rightarrow> genuine_snapshot (re_clientID env) h snapshot
   | SnapshotEvent (BufferEvent e) \<Rightarrow> False
   | EditorDispatched i state changed \<Rightarrow> local_transaction env h i state (rs_world s)
   | EditorRendered d \<Rightarrow> d \<in> set (ws_shown (rs_world s))
   | SelectPane n i \<Rightarrow> i \<in> doc_id ` set (ws_shown (rs_world s))
   | _ \<Rightarrow> True)"

context document_sync
begin

lemma world_ok: "room_ok P h s \<Longrightarrow> (room_inv P h (rs_world s) \<Longrightarrow> room_inv P h w) \<Longrightarrow> room_ok P h (s\<lparr>rs_world := w\<rparr>)"
  by (simp add: room_ok_def world_holds_def)

lemma on_world_ok:
  "room_ok P h s \<Longrightarrow> (\<And>w. room_inv P h w \<Longrightarrow> room_inv P h (f w)) \<Longrightarrow> room_ok P h (on_world f s)"
  unfolding on_world_def by (rule world_ok)

lemma framed_ok: "room_ok P h s \<Longrightarrow> (\<And>w. core (f w) = core w) \<Longrightarrow> room_ok P h (on_world f s)"
  by (rule on_world_ok) (simp_all add: frame_inv)

lemma refresh_ok: "room_ok P h s \<Longrightarrow> room_ok P h (refreshSnapshot env s)"
  unfolding room_ok_def refreshSnapshot_def by (rule start_holds)

lemma recover_ok: "room_ok P h s \<Longrightarrow> room_ok P h (recoverOperationError env code i status s)"
  by (auto simp: recoverOperationError_def refresh_unless_resyncing_def Let_def frame split: option.split
      intro!: framed_ok refresh_ok)

lemma refused_ok: "room_ok P h s \<Longrightarrow> room_inv P h w \<Longrightarrow> room_ok P h (refresh_if_refused env (w, b) s)"
  using world_ok [of s w] refresh_ok [of "s\<lparr>rs_world := w\<rparr>"] by (simp add: refresh_if_refused_def Let_def)

lemma room_ok_world: "room_ok P h s \<Longrightarrow> room_inv P h (rs_world s)"
  by (simp add: room_ok_def world_holds_def)

lemma dispatch_ok:
  assumes ok: "room_ok P h s" and gen: "genuine_event h event"
  shows "room_ok P h (fst (dispatchEvent env event s))"
proof -
  note inv = room_ok_world [OF ok]
  have metadata: "room_ok P h (refresh_if_refused env (applyMetadataEvent env event (rs_world s)) s)"
    using applyMetadataEvent_inv [OF inv gen] refused_ok [OF ok]
    by (cases "applyMetadataEvent env event (rs_world s)") simp
  show ?thesis
  proof (cases event)
    case (Changes e)
    have "genuine_change h e" using gen by (simp add: Changes genuine_event_def)
    from applyDocumentEvent_inv [OF inv this] show ?thesis
      using world_ok [OF ok] refused_ok [OF ok]
      by (cases "applyDocumentEvent env e (rs_world s)"; cases "snd (applyDocumentEvent env e (rs_world s))")
        (simp_all add: Changes dispatchEvent_def)
  qed (use ok metadata in \<open>auto simp: dispatchEvent_def frame intro!: framed_ok refresh_ok recover_ok\<close>)
qed

lemma handle_ok:
  assumes ok: "room_ok P h s" and gen: "genuine_event h event"
  shows "room_ok P h (fst (handleEvent env event s))"
proof -
  obtain s' b where buf: "bufferEvent (room_options env) event s = (s', b)" by fastforce
  have "room_ok P h s'" using buffer_holds [OF ok [unfolded room_ok_def] gen] buf by (simp add: room_ok_def)
  then show ?thesis using dispatch_ok gen ok by (simp add: handleEvent_def buf)
qed

lemma message_ok: "room_ok P h s \<Longrightarrow> genuine_message env h data \<Longrightarrow> room_ok P h (onMessage env data s)"
  using handle_ok [of s] framed_ok [of s "room_status (js ''Received an invalid live room update'')"]
    framed_ok [of _ "room_status (js ''Received an invalid live room update'')"]
  by (auto simp: onMessage_def genuine_message_def frame split: option.split prod.split bool.split) (metis fst_conv)+

lemma callbacks_ok:
  "room_ok P h s \<Longrightarrow> (\<And>d. OnMessage d \<in> set es \<Longrightarrow> genuine_message env h d) \<Longrightarrow> room_ok P h (fold (room_callback env) es s)"
proof (induction es arbitrary: s)
  case (Cons e es)
  have "room_ok P h (room_callback env e s)"
    using Cons.prems message_ok framed_ok [of s "connection_callback env e"]
    by (cases e) (simp_all add: room_callback_def frame)
  then show ?case using Cons by simp
qed simp

lemma connection_ok:
  assumes ok: "room_ok P h s" and gen: "genuine_step env h s (ConnectionEvent event)"
  shows "room_ok P h (connection_event env event s)"
proof -
  have messages: "genuine_message env h d"
    if mem: "OnMessage d \<in> set (drop (length (cn_log (ws_controller (rs_world s))))
      (cn_log (conn_step (default_options True) event (ws_controller (rs_world s)))))" for d
  proof -
    obtain socket where "event = SocketMessage socket (JStr d)" by (rule conn_step_messages [OF mem])
    then show ?thesis using gen by (simp add: genuine_step_def)
  qed
  have set_controller: "room_ok P h (on_world (\<lambda>w. w\<lparr>ws_controller := c\<rparr>) s)" for c
    by (rule framed_ok [OF ok]) (simp add: frame)
  show ?thesis
    unfolding connection_event_def Let_def by (rule callbacks_ok [OF set_controller messages])
qed

lemma snapshot_ok:
  assumes ok: "room_ok P h s" and gen: "genuine_step env h s (SnapshotEvent event)"
  shows "room_ok P h (resync_step (room_options env) event s)"
  using step_holds [OF ok [unfolded room_ok_def], of event] gen
  by (auto simp: room_ok_def genuine_step_def split: resync_event.splits)

lemma room_step_ok:
  assumes ok: "room_ok P h s" and gen: "genuine_step env h s event"
  shows "room_ok P h (room_step env event s)"
proof -
  have local: "room_ok P h (on_world (\<lambda>w. fst (view_dispatched env i st c w)) s)" if "event = EditorDispatched i st c" for i st c
    unfolding on_world_def by (rule world_ok [OF ok], rule view_dispatched_inv) (use gen that in \<open>simp_all add: genuine_step_def\<close>)
  have render: "room_ok P h (on_world (render_editor env d) s)" if "event = EditorRendered d" for d
    unfolding on_world_def render_editor_def
    by (rule world_ok [OF ok], rule getEditorState_inv) (use gen that in \<open>simp_all add: genuine_step_def\<close>)
  have pane: "room_ok P h (on_world (selectPane env n i) s)" if "event = SelectPane n i" for n i
    unfolding on_world_def by (rule world_ok [OF ok], rule selectPane_inv) (use gen that in \<open>simp_all add: genuine_step_def\<close>)
  have auth: "room_ok P h (authentication_effect b s)" for b
    using ok stop_holds [of s] framed_ok [of "resync_stop s" "\<lambda>w. stopResyncWork (w\<lparr>ws_resyncing := False\<rparr>)"]
    by (simp add: authentication_effect_def room_ok_def frame)
  show ?thesis
    using ok local render pane auth connection_ok [OF ok] snapshot_ok [OF ok] gen refresh_ok [OF ok]
    by (cases event) (auto simp: reauthentication_effect_def frame
        intro!: framed_ok on_world_ok [OF ok sync_refs_inv] on_world_ok [OF ok active_pane_effect_inv]
          on_world_ok [OF ok selectDocument_inv])
qed

end

section \<open>A concrete room\<close>

text \<open>A room of one document over the repository's change sets.\<close>

definition demo_env :: "(plainEditor, changeSet, changeSet list) roomEnv" where
  "demo_env = \<lparr>re_cs = livecollab, re_ed = plain_editor, re_slug = js ''r'', re_expiresAt = [], re_clientID = js ''me'',
     re_sessionID = js ''s'', re_maxTabs = 8, re_random = (\<lambda>n. [of_nat n]), re_accent = [], re_isoDate = Some\<rparr>"

definition demo_document :: liveRoomDocument where
  "demo_document = \<lparr>doc_id = js ''d'', doc_name = js ''a'', doc_language = js ''plaintext'', doc_content = js ''hi'',
     doc_revision = 1, doc_position = 0\<rparr>"

definition demo_room :: liveRoomSnapshot where
  "demo_room = \<lparr>ls_slug = js ''r'', ls_expiresAt = [], ls_passwordRequired = False, ls_metadataRevision = 1,
     ls_config = \<lparr>lc_maxBytes = 100, lc_maxTabs = 8, lc_maxWriters = 2, lc_maxViewers = 2, lc_maxParticipants = 4,
       lc_roomLifetimeSeconds = 60\<rparr>, ls_documents = [demo_document], ls_acceptedOperationIDs = []\<rparr>"

definition demo_mounted :: "plainEditor room" where
  "demo_mounted = room_mount demo_env 0 (workspace_new demo_room True (roomView_new (\<lambda>s. None) 0 False None demo_env) loading_new)"

lemma demo_core: "core (rs_world demo_mounted) = ([demo_document], [demo_document], 1, js ''d'', [], [])"
proof -
  have "core (rs_world demo_mounted) = core (workspace_new demo_room True (roomView_new (\<lambda>s. None) 0 False None demo_env) loading_new)"
    by (simp add: demo_mounted_def room_mount_def liveResync_new_def frame)
  then show ?thesis
    by (simp add: core_def workspace_new_def demo_room_def normalizeLiveDocuments_def first_document_def demo_document_def)
qed

end
