(* ===== verification/Live_Room_Safety.thy ===== *)
theory Live_Room_Safety
  imports Live_Room_Run "HOL-Library.Sublist" "HOL-Library.Multiset"
begin

text \<open>
  What a live room sends and shows. Once a room is in recovery it stays there, is never shown as connected
  and pushes no further edit; a flush sends at most one update of each document and only over a
  synchronised connection; panes never show one document twice.
\<close>

section \<open>Recovery is final\<close>

definition is_push :: "connectionEffect \<Rightarrow> bool" where
  "is_push e = (case e of SocketSend socket m \<Rightarrow> prop_of m (js ''type'') = JStr (js ''push_changes'') | _ \<Rightarrow> False)"

definition pushes_of :: "liveConnection \<Rightarrow> connectionEffect list" where
  "pushes_of c = filter is_push (cn_log c)"

lemma pushes_emit [simp]: "\<not> is_push e \<Longrightarrow> pushes_of (emit e c) = pushes_of c"
  by (simp add: pushes_of_def)

lemma is_push_simps [simp]:
  "\<not> is_push (OnState st)" "\<not> is_push (OnWork b)" "\<not> is_push (OnMessage d)" "\<not> is_push (OnCloseStatus n r)"
  "\<not> is_push OnAuthenticationRequired" "\<not> is_push OnRoomFull" "\<not> is_push OnRoomUnavailable"
  "\<not> is_push OnReconnectExhausted" "\<not> is_push (CreateSocket k)" "\<not> is_push (SocketSendJoin k)"
  "\<not> is_push (SocketClose k n r)" "\<not> is_push (ProbeReconnect n)"
  by (simp_all add: is_push_def)

lemma pushes_updates [simp]:
  "pushes_of (c\<lparr>cn_socket := a\<rparr>) = pushes_of c" "pushes_of (c\<lparr>cn_reconnectTimer := b\<rparr>) = pushes_of c"
  "pushes_of (c\<lparr>cn_connectTimer := b\<rparr>) = pushes_of c" "pushes_of (c\<lparr>cn_joinTimer := b\<rparr>) = pushes_of c"
  "pushes_of (c\<lparr>cn_stopped := x\<rparr>) = pushes_of c" "pushes_of (c\<lparr>cn_probing := x\<rparr>) = pushes_of c"
  "pushes_of (c\<lparr>cn_probeGeneration := n\<rparr>) = pushes_of c" "pushes_of (c\<lparr>cn_joined := x\<rparr>) = pushes_of c"
  "pushes_of (c\<lparr>cn_attempt := n\<rparr>) = pushes_of c" "pushes_of (c\<lparr>cn_state := st\<rparr>) = pushes_of c"
  "pushes_of (c\<lparr>cn_timers := ts\<rparr>) = pushes_of c" "pushes_of (c\<lparr>cn_online := x\<rparr>) = pushes_of c"
  "pushes_of (c\<lparr>cn_nextSocket := k\<rparr>) = pushes_of c"
  by (simp_all add: pushes_of_def)

lemma pushes_setState [simp]: "pushes_of (setState st c) = pushes_of c"
  by (simp add: setState_def)

lemma pushes_clear [simp]:
  "pushes_of (clearReconnectTimer c) = pushes_of c" "pushes_of (clearConnectTimer c) = pushes_of c"
  "pushes_of (clearJoinTimer c) = pushes_of c" "pushes_of (cancelProbe c) = pushes_of c"
  by (simp_all add: clearReconnectTimer_def clearConnectTimer_def clearJoinTimer_def cancelProbe_def split: option.split)

lemma pushes_clear_all [simp]: "pushes_of (clearAttemptTimers c) = pushes_of c" "pushes_of (clearTimers c) = pushes_of c"
  by (simp_all add: clearAttemptTimers_def clearTimers_def)

lemma pushes_close_socket [simp]: "pushes_of (close_socket s r c) = pushes_of c"
  by (simp add: close_socket_def split: option.split)

lemma pushes_methods [simp]:
  "pushes_of (scheduleReconnect n c) = pushes_of c" "pushes_of (retryOrExhaust opts r c) = pushes_of c"
  "pushes_of (connect opts c) = pushes_of c" "pushes_of (probeBeforeReconnect c) = pushes_of c"
  "pushes_of (conn_stop c) = pushes_of c" "pushes_of (conn_offline c) = pushes_of c" "pushes_of (markJoined c) = pushes_of c"
  "pushes_of (reconnectAfterResync c) = pushes_of c" "pushes_of (timeoutFired s reason c) = pushes_of c"
  "pushes_of (socketOpened opts s c) = pushes_of c"
  by (simp_all add: scheduleReconnect_def retryOrExhaust_def connect_def probeBeforeReconnect_def conn_stop_def
      conn_offline_def markJoined_def reconnectAfterResync_def timeoutFired_def socketOpened_def Let_def
      split: option.split prod.split)

lemma pushes_callbacks [simp]:
  "pushes_of (handleClose opts s code reason r c) = pushes_of c" "pushes_of (probeResolved opts n res r c) = pushes_of c"
  "pushes_of (probeRejected opts n r c) = pushes_of c"
  by (simp_all add: handleClose_def probeResolved_def probeRejected_def Let_def split: liveReconnectProbeResult.split)

text \<open>Everything but a call of \<open>send\<close>, which only the room makes.\<close>

lemma pushes_conn_step: "(\<And>v n. event \<noteq> ConnSend v n) \<Longrightarrow> pushes_of (conn_step opts event c) = pushes_of c"
  by (cases event) (auto simp: conn_start_def conn_online_def reconnectFired_def socketMessage_def Let_def
      split: option.split connectionCallback.split)

text \<open>A tracked metadata operation never carries the message of an edit, so replaying it pushes nothing.\<close>

definition types_ok :: "liveOperationTracker \<Rightarrow> bool" where
  "types_ok ops \<longleftrightarrow> (\<forall>operation\<in>set (tracker_values ops). op_kind operation = KMetadata \<longrightarrow>
     prop_of (op_message operation) (js ''type'') \<noteq> JStr (js ''push_changes''))"

lemma set_alist_update_subset: "set (AList.update k v xs) \<subseteq> insert (k, v) (set xs)"
  by (induction xs) auto

lemma types_update:
  assumes "types_ok ops" "op_kind operation = KMetadata \<longrightarrow> prop_of (op_message operation) (js ''type'') \<noteq> JStr (js ''push_changes'')"
  shows "types_ok (AList.update i operation ops)"
  using assms set_alist_update_subset [of i operation ops] by (fastforce simp: types_ok_def tracker_values_def)

lemma types_lookup:
  "types_ok ops \<Longrightarrow> map_get ops k = Some operation \<Longrightarrow> op_kind operation = KMetadata \<longrightarrow>
    prop_of (op_message operation) (js ''type'') \<noteq> JStr (js ''push_changes'')"
  "types_ok ops \<Longrightarrow> tracker_get ops i = Some operation \<Longrightarrow> op_kind operation = KMetadata \<longrightarrow>
    prop_of (op_message operation) (js ''type'') \<noteq> JStr (js ''push_changes'')"
  by (force simp: types_ok_def tracker_values_def tracker_get_Some_iff dest: map_of_SomeD)+

lemma types_delete: "types_ok ops \<Longrightarrow> types_ok (AList.delete i ops)"
  by (auto simp: types_ok_def tracker_values_def AList.delete_eq)

lemma types_tracker [simp]:
  assumes "types_ok ops"
  shows "types_ok (fst (settle i g ops))" "types_ok (tracker_clear i ops)" "types_ok (fst (reject i g ops))"
    "types_ok (fst (markSent k g ops))"
proof -
  show "types_ok (fst (settle i g ops))" "types_ok (tracker_clear i ops)"
    using assms types_delete [OF assms]
    by (simp_all add: settle_def tracker_clear_def split: option.split) (simp add: types_ok_def tracker_values_def)
  have "types_ok (AList.update k (operation\<lparr>op_terminal := Some True\<rparr>) ops)"
    if "tracker_get ops i = Some operation" for k operation
    by (rule types_update [OF assms]) (use types_lookup(2) [OF assms that] in simp)
  then show "types_ok (fst (reject i g ops))" using assms by (simp add: reject_def Let_def split: option.split)
  have "types_ok (AList.update k (operation\<lparr>op_sentGeneration := Some g\<rparr>) ops)"
    if "map_get ops k = Some operation" for operation
    by (rule types_update [OF assms]) (use types_lookup(1) [OF assms that] in simp)
  then show "types_ok (fst (markSent k g ops))" using assms by (simp add: markSent_def split: option.split)
qed

lemma types_new [simp]: "types_ok tracker_new"
  by (simp add: types_ok_def tracker_values_def tracker_new_def)

text \<open>
  A room in recovery is not shown as connected; and, when \<open>ps\<close> is given, the room is in recovery
  and has pushed exactly \<open>ps\<close>.
\<close>

definition locked :: "connectionEffect list option \<Rightarrow> 'st workspace \<Rightarrow> bool" where
  "locked ps w \<longleftrightarrow> (ws_recovering w \<longrightarrow> ws_connection w \<noteq> Connected)
     \<and> (ps = None \<or> ws_recovering w \<and> ps = Some (pushes_of (ws_controller w)))
     \<and> types_ok (ws_tracker w)"

lemma locked_updates [simp]:
  "locked ps (w\<lparr>ws_documents := a1\<rparr>) = locked ps w" "locked ps (w\<lparr>ws_shown := a1\<rparr>) = locked ps w"
  "locked ps (w\<lparr>ws_metadataRevision := a2\<rparr>) = locked ps w" "locked ps (w\<lparr>ws_active := a3\<rparr>) = locked ps w"
  "locked ps (w\<lparr>ws_editors := a4\<rparr>) = locked ps w" "locked ps (w\<lparr>ws_views := a5\<rparr>) = locked ps w"
  "locked ps (w\<lparr>ws_synced := a6\<rparr>) = locked ps w"
  "locked ps (w\<lparr>ws_operationIDs := a8\<rparr>) = locked ps w" "locked ps (w\<lparr>ws_metadataOperation := a9\<rparr>) = locked ps w"
  "locked ps (w\<lparr>ws_metadataBusy := b1\<rparr>) = locked ps w" "locked ps (w\<lparr>ws_generation := b2\<rparr>) = locked ps w"
  "locked ps (w\<lparr>ws_recovery := b3\<rparr>) = locked ps w" "locked ps (w\<lparr>ws_resyncing := b4\<rparr>) = locked ps w"
  "locked ps (w\<lparr>ws_localCanEdit := b5\<rparr>) = locked ps w" "locked ps (w\<lparr>ws_queueFull := b6\<rparr>) = locked ps w"
  "locked ps (w\<lparr>ws_fatal := b7\<rparr>) = locked ps w" "locked ps (w\<lparr>ws_flushTimer := b8\<rparr>) = locked ps w"
  "locked ps (w\<lparr>ws_usageTimer := b9\<rparr>) = locked ps w" "locked ps (w\<lparr>ws_roomBytes := c1\<rparr>) = locked ps w"
  "locked ps (w\<lparr>ws_pendingTabOrder := c2\<rparr>) = locked ps w" "locked ps (w\<lparr>ws_panes := c3\<rparr>) = locked ps w"
  "locked ps (w\<lparr>ws_newDocumentPane := c4\<rparr>) = locked ps w" "locked ps (w\<lparr>ws_readyState := c5\<rparr>) = locked ps w"
  "locked ps (w\<lparr>ws_draws := c6\<rparr>) = locked ps w" "locked ps (w\<lparr>ws_status := c7\<rparr>) = locked ps w"
  "locked ps (w\<lparr>ws_reauthentications := c8\<rparr>) = locked ps w" "locked ps (w\<lparr>ws_saved := c9\<rparr>) = locked ps w"
  "locked ps (w\<lparr>ws_uncaught := d1\<rparr>) = locked ps w" "locked ps (w\<lparr>ws_view := d2\<rparr>) = locked ps w"
  "locked ps (w\<lparr>ws_work := d3\<rparr>) = locked ps w"
  by (simp_all add: locked_def)

lemma locked_tracker [simp]: "locked ps w \<Longrightarrow> types_ok ops \<Longrightarrow> locked ps (w\<lparr>ws_tracker := ops\<rparr>)"
  by (simp add: locked_def)

lemma locked_types [simp]: "locked ps w \<Longrightarrow> types_ok (ws_tracker w)"
  by (simp add: locked_def)

lemma locked_controller: "pushes_of c = pushes_of (ws_controller w) \<Longrightarrow> locked ps (w\<lparr>ws_controller := c\<rparr>) = locked ps w"
  by (simp add: locked_def)

lemma locked_state [simp]: "locked ps w \<Longrightarrow> locked ps (setConnectionState c w)"
  by (auto simp: locked_def setConnectionState_def)

lemma locked_recover [simp]:
  "locked ps w \<Longrightarrow> c \<noteq> Connected \<Longrightarrow> locked ps (setConnectionState c (w\<lparr>ws_recovering := True, ws_recovery := n\<rparr>))"
  by (auto simp: locked_def setConnectionState_def)

lemma locked_setters [simp]:
  "locked ps w \<Longrightarrow> locked ps (room_status m w)" "locked ps w \<Longrightarrow> locked ps (update_view f w)"
  "locked ps w \<Longrightarrow> locked ps (setLocalParticipantAuthority p w)" "locked ps w \<Longrightarrow> locked ps (setQueueBlocked b w)"
  "locked ps w \<Longrightarrow> locked ps (updateQueueState env b w)" "locked ps w \<Longrightarrow> locked ps (refreshRoomUsage env w)"
  "locked ps w \<Longrightarrow> locked ps (scheduleRoomUsage w)" "locked ps w \<Longrightarrow> locked ps (scheduleFlush w)"
  "locked ps w \<Longrightarrow> locked ps (usageTimerFired env w)" "locked ps w \<Longrightarrow> locked ps (settle_operation i w)"
  "locked ps w \<Longrightarrow> locked ps (release_metadata i w)" "locked ps w \<Longrightarrow> locked ps (update_work g w)"
  "locked ps w \<Longrightarrow> locked ps (assignPaneDocument k i w)" "locked ps w \<Longrightarrow> locked ps (store_synced i st t w)"
  "locked ps w \<Longrightarrow> locked ps (forget_document i w)" "locked ps w \<Longrightarrow> locked ps (show_documents ds w)"
  "locked ps w \<Longrightarrow> locked ps (keep_active ds w)"
  by (simp_all add: room_status_def update_view_def setLocalParticipantAuthority_def setQueueBlocked_def
      updateQueueState_def refreshRoomUsage_def scheduleRoomUsage_def scheduleFlush_def usageTimerFired_def
      settle_operation_def release_metadata_def update_work_def assignPaneDocument_def store_synced_def
      forget_document_def show_documents_def keep_active_def)

lemma locked_send:
  assumes "locked ps w" "prop_of v (js ''type'') \<noteq> JStr (js ''push_changes'')" "room_send v w = (w', b)"
  shows "locked ps w'"
proof -
  have "pushes_of (fst (conn_send v n c)) = pushes_of c" for n c
    using assms(2) by (simp add: conn_send_def is_push_def split: option.split)
  moreover have "w' = w\<lparr>ws_controller := fst (conn_send v (ws_readyState w) (ws_controller w))\<rparr>"
    using assms(3) by (simp add: room_send_def split: prod.splits)
  ultimately show ?thesis using assms(1) by (simp add: locked_controller)
qed

lemma locked_send_fst:
  "locked ps w \<Longrightarrow> prop_of v (js ''type'') \<noteq> JStr (js ''push_changes'') \<Longrightarrow> locked ps (fst (room_send v w))"
  by (cases "room_send v w") (simp add: locked_send)

lemma locked_presence [simp]: "locked ps w \<Longrightarrow> locked ps (fst (sendPresence env st i w))"
  by (auto simp: sendPresence_def intro!: locked_send_fst split: option.split)

lemma locked_getEditorState [simp]: "locked ps w \<Longrightarrow> locked ps (fst (getEditorState env d w))"
  by (simp add: getEditorState_def Let_def split: option.split)

lemma locked_updateEditorState [simp]: "locked ps w \<Longrightarrow> locked ps (updateEditorState env i st w)"
  by (simp add: updateEditorState_def Let_def)

lemma locked_view_dispatched [simp]: "locked ps w \<Longrightarrow> locked ps (fst (view_dispatched env i st c w))"
  by (simp add: view_dispatched_def Let_def)

lemma locked_applyToEditor: "locked ps w \<Longrightarrow> locked ps (fst (applyToEditor env i u w))"
  by (simp add: applyToEditor_def split: option.split prod.split)

lemma locked_record_change [simp]: "locked ps w \<Longrightarrow> locked ps (record_change env e t w)"
  by (simp add: record_change_def Let_def split: option.split)

lemma locked_applyDocumentEvent:
  assumes "locked ps w"
  shows "locked ps (fst (applyDocumentEvent env e w))"
proof -
  have "locked ps w1" if "getEditorState env d w = (w1, st)" for d w1 st
    using locked_getEditorState [OF assms, of env d] that by simp
  moreover have "locked ps w2" if "applyToEditor env i u w1 = (w2, c)" "locked ps w1" for i u w1 w2 c
    using locked_applyToEditor [OF that(2), of env i u] that(1) by simp
  ultimately show ?thesis
    using assms by (auto simp: applyDocumentEvent_def Let_def split: option.split prod.split)
qed

lemma locked_metadata_documents:
  assumes "locked ps w" "metadata_documents env event w = Some (w', ds)"
  shows "locked ps w'"
  using assms locked_getEditorState [OF assms(1), of env]
  by (auto simp: metadata_documents_def place_created_def Let_def split: liveWireEvent.splits option.splits if_splits)

lemma locked_applyMetadataEvent: "locked ps w \<Longrightarrow> locked ps (fst (applyMetadataEvent env event w))"
  by (auto simp: applyMetadataEvent_def Let_def dest: locked_metadata_documents split: prod.split option.split)

lemma locked_settle_accepted: "locked ps w \<Longrightarrow> locked ps (fold (settle_accepted acc) ops w)"
  by (induction ops arbitrary: w) (simp_all add: settle_accepted_def)

lemma locked_drop_editor [simp]: "locked ps w \<Longrightarrow> locked ps (drop_editor env i st w)"
  by (simp add: drop_editor_def)

lemma locked_reconcile_editor: "locked ps w \<Longrightarrow> locked ps (fst (reconcile_editor env next acc i st w))"
  by (auto simp: reconcile_editor_def adopt_accepted_def adopt_snapshot_def Let_def split: option.split list.split)

lemma locked_reconcile_editors: "locked ps w \<Longrightarrow> locked ps (fst (reconcile_editors env next acc es w))"
proof (induction es arbitrary: w)
  case (Cons e es)
  obtain i st where e: "e = (i, st)" by (cases e)
  obtain w1 r where r: "reconcile_editor env next acc i st w = (w1, r)" by fastforce
  have "locked ps w1" using locked_reconcile_editor [OF Cons.prems, of env "next" acc i st] by (simp add: r)
  then show ?case using Cons.IH by (simp add: e r)
qed simp

lemma locked_merge_documents: "locked ps w \<Longrightarrow> locked ps (fst (merge_documents env ds w))"
proof (induction ds arbitrary: w)
  case (Cons d ds)
  obtain w1 st where g: "getEditorState env d w = (w1, st)" by fastforce
  have "locked ps w1" using locked_getEditorState [OF Cons.prems, of env d] by (simp add: g)
  then show ?case using Cons.IH [of w1] by (auto simp: g split: prod.split)
qed simp

lemma locked_adopt_documents: "locked ps w \<Longrightarrow> locked ps (adopt_documents env ds m w)"
  using locked_merge_documents [of ps w env ds] by (auto simp: adopt_documents_def Let_def split: prod.split)

lemma locked_reconcileSnapshot:
  assumes "locked ps w"
  shows "locked ps (fst (reconcileSnapshot env ds m auth acc w))"
proof -
  let ?w = "fold (settle_accepted acc) (tracker_values (ws_tracker w)) w"
  have "locked ps w'" if "reconcile_editors env next acc (ws_editors ?w) ?w = (w', r)" for "next" w' r
    using locked_reconcile_editors [OF locked_settle_accepted [OF assms, of acc "tracker_values (ws_tracker w)"],
        of env "next" acc "ws_editors ?w"] that by simp
  then show ?thesis
    using assms by (auto simp: reconcileSnapshot_def Let_def intro!: locked_adopt_documents split: prod.split)
qed

subsection \<open>The wiring\<close>

lemma locked_work [simp]:
  "locked ps w \<Longrightarrow> locked ps (stopResyncWork w)" "locked ps w \<Longrightarrow> locked ps (onWork env b w)"
  by (simp_all add: stopResyncWork_def onWork_def)

lemma locked_connection_callback [simp]: "locked ps w \<Longrightarrow> locked ps (connection_callback env e w)"
  by (simp add: connection_callback_def onCloseStatus_def onRoomFull_def onRoomUnavailable_def onReconnectExhausted_def
      split: connectionEffect.split)

lemma locked_callbacks: "locked ps w \<Longrightarrow> locked ps (fold (connection_callback env) es w)"
  by (induction es arbitrary: w) simp_all

lemma locked_call_connection:
  "locked ps w \<Longrightarrow> pushes_of (f (ws_controller w)) = pushes_of (ws_controller w) \<Longrightarrow> locked ps (call_connection env f w)"
  by (simp add: call_connection_def Let_def locked_callbacks locked_controller)

lemma locked_calls [simp]:
  "locked ps w \<Longrightarrow> locked ps (call_connection env conn_stop w)"
  "locked ps w \<Longrightarrow> locked ps (call_connection env reconnectAfterResync w)"
  "locked ps w \<Longrightarrow> locked ps (call_connection env markJoined w)"
  by (rule locked_call_connection; simp)+

lemma locked_enterRecovery [simp]: "locked ps w \<Longrightarrow> locked ps (enterRecovery operation m w)"
  by (simp add: enterRecovery_def Let_def)

lemma locked_reject [simp]:
  assumes "locked ps w"
  shows "locked ps (reject_operation i c w)"
proof -
  obtain ops r where r: "reject i (ws_generation w) (ws_tracker w) = (ops, r)" by fastforce
  then have "types_ok ops" using types_tracker(3) [OF locked_types [OF assms], of i "ws_generation w"] by simp
  then show ?thesis using assms by (cases r) (simp_all add: reject_operation_def r)
qed

text \<open>Recovery from a failed resynchronisation stops the connection before it is shown.\<close>

lemma callbacks_keep:
  "ws_recovering (fold (connection_callback env) es w) = ws_recovering w"
  "ws_controller (fold (connection_callback env) es w) = ws_controller w"
  "types_ok (ws_tracker w) \<Longrightarrow> types_ok (ws_tracker (fold (connection_callback env) es w))"
proof (induction es arbitrary: w)
  case (Cons e es)
  have keep: "ws_recovering (connection_callback env e w) = ws_recovering w"
    "ws_controller (connection_callback env e w) = ws_controller w"
    "types_ok (ws_tracker w) \<Longrightarrow> types_ok (ws_tracker (connection_callback env e w))" for w
    by (simp_all add: connection_callback_def onCloseStatus_def onRoomFull_def onRoomUnavailable_def onReconnectExhausted_def
        onWork_def update_work_def room_status_def setConnectionState_def update_view_def split: connectionEffect.split)
  { case 1 show ?case by (simp add: Cons.IH keep) }
  { case 2 show ?case by (simp add: Cons.IH keep) }
  { case 3 then show ?case by (simp add: Cons.IH keep) }
qed simp_all

lemma locked_enterResyncRecovery [simp]:
  assumes "locked ps w"
  shows "locked ps (enterResyncRecovery env w)"
proof -
  obtain w1 i where d: "draw_id env ''resync-recovery-'' (w\<lparr>ws_recovering := True\<rparr>) = (w1, i)" by fastforce
  obtain m n where e: "enterResyncRecovery env w = room_status m (setConnectionState Recovery
      (call_connection env conn_stop (stopResyncWork (w1\<lparr>ws_recovery := n, ws_resyncing := False\<rparr>))))"
    unfolding enterResyncRecovery_def Let_def d prod.case by blast
  define w2 where "w2 = stopResyncWork (w1\<lparr>ws_recovery := n, ws_resyncing := False\<rparr>)"
  have w1: "w1 = w\<lparr>ws_recovering := True, ws_draws := Suc (ws_draws w)\<rparr>" using d by (simp add: draw_id_def)
  have w2: "ws_recovering w2" "ws_controller w2 = ws_controller w" "ws_tracker w2 = ws_tracker w"
    by (simp_all add: w2_def w1 stopResyncWork_def update_work_def)
  have w3: "ws_recovering (call_connection env conn_stop w2)"
    "pushes_of (ws_controller (call_connection env conn_stop w2)) = pushes_of (ws_controller w)"
    "types_ok (ws_tracker (call_connection env conn_stop w2))"
    using locked_types [OF assms] by (simp_all add: call_connection_def Let_def callbacks_keep w2)
  have "locked ps (setConnectionState Recovery (call_connection env conn_stop w2))"
    using assms w3 unfolding locked_def setConnectionState_def by auto
  then show ?thesis by (simp add: e flip: w2_def)
qed

lemma locked_resync_callbacks:
  "locked ps w \<Longrightarrow> locked ps (resync_onStarted env w)" "locked ps w \<Longrightarrow> locked ps (resync_onSucceeded env w)"
  by (simp_all add: resync_onStarted_def resync_onSucceeded_def Let_def)

lemma locked_applyBuffered: "locked ps w \<Longrightarrow> locked ps (fst (applyBuffered env e w))"
  using locked_applyMetadataEvent [of ps w env e]
  by (cases e) (auto simp: applyBuffered_def split: prod.split option.split
      dest!: arg_cong [where f = "\<lambda>r. locked ps (fst r)"] simp: locked_applyDocumentEvent)

lemma locked_reconcile_callback: "locked ps w \<Longrightarrow> locked ps (fst (reconcile_callback env s auth w))"
  using locked_reconcileSnapshot [of ps w env "ls_documents s" "ls_metadataRevision s" auth "ls_acceptedOperationIDs s"]
  by (auto simp: reconcile_callback_def split: prod.split option.split)

interpretation locked_resync: resync_world "room_options env" "locked ps" "\<lambda>e. True" "\<lambda>s. True"
  by unfold_locales (simp_all add: room_options_def locked_resync_callbacks locked_applyBuffered locked_reconcile_callback)

lemma message_types:
  "prop_of (metadata_message env k i x w) (js ''type'') = JStr (js k)"
  by (simp add: metadata_message_def prop_of_def)

lemma locked_draw_id: "draw_id env p w = (w', i) \<Longrightarrow> locked ps w \<Longrightarrow> locked ps w'"
  by (auto simp: draw_id_def)

lemma locked_replayPendingMetadata [simp]:
  assumes "locked ps w"
  shows "locked ps (replayPendingMetadata g w)"
proof (cases "tracker_get (ws_tracker w) (Some (ws_metadataOperation w))")
  case (Some operation)
  obtain w' b where r: "room_send (op_message operation) w = (w', b)" by fastforce
  have "locked ps w'" if "op_kind operation = KMetadata"
    using locked_send [OF assms _ r] types_lookup(2) [OF locked_types [OF assms] Some] that by simp
  then show ?thesis using assms by (cases "op_kind operation = KMetadata") (simp_all add: replayPendingMetadata_def Some r)
qed (use assms in \<open>simp add: replayPendingMetadata_def\<close>)

lemma locked_sendMetadata:
  assumes "locked ps w" "js k \<noteq> js ''push_changes''" "sendMetadata env k x w = (w', b)"
  shows "locked ps w'"
proof (cases "ws_connection w \<noteq> Connected \<or> ws_metadataBusy w \<or> ws_recovering w \<or> \<not> ws_localCanEdit w")
  case False
  obtain w1 i where d: "draw_id env ''meta-'' w = (w1, i)" by fastforce
  have w1: "locked ps w1" by (rule locked_draw_id [OF d assms(1)])
  define t where "t = \<lparr>op_id = i, op_kind = KMetadata, op_generation = ws_generation w1, op_documentID = None,
    op_recoveryText = (case json_stringify (JObj x) of None \<Rightarrow> [] | Some t \<Rightarrow> t),
    op_message = metadata_message env k i x w1, op_sentGeneration = None, op_terminal = None\<rparr>"
  define w2 where "w2 = w1\<lparr>ws_tracker := track t (ws_tracker w1), ws_metadataOperation := i, ws_metadataBusy := True\<rparr>"
  obtain w3 sent where r: "room_send (metadata_message env k i x w1) w2 = (w3, sent)" by fastforce
  have w': "w' = (if \<not> sent then w3\<lparr>ws_metadataOperation := [], ws_metadataBusy := False,
        ws_tracker := tracker_clear (Some i) (ws_tracker w3)\<rparr>
      else w3\<lparr>ws_tracker := fst (markSent i (ws_generation w3) (ws_tracker w3))\<rparr>)"
    using assms(3) unfolding sendMetadata_def if_not_P [OF False] d Let_def prod.case t_def [symmetric] w2_def [symmetric] r
    by (cases sent) simp_all
  have "types_ok (track t (ws_tracker w1))"
    unfolding track_def by (rule types_update) (use w1 assms(2) in \<open>simp_all add: t_def message_types\<close>)
  then have w2: "locked ps w2" using w1 by (simp add: w2_def)
  have "locked ps w3" by (rule locked_send [OF w2 _ r]) (use assms(2) in \<open>simp add: message_types\<close>)
  then show ?thesis by (simp add: w')
qed (use assms in \<open>simp add: sendMetadata_def\<close>)

lemma locked_sendMetadata_fst:
  "locked ps w \<Longrightarrow> js k \<noteq> js ''push_changes'' \<Longrightarrow> locked ps (fst (sendMetadata env k x w))"
  by (cases "sendMetadata env k x w") (simp add: locked_sendMetadata)

lemma locked_flush_editors: "locked None w \<Longrightarrow> locked None (flush_editors env g es w)"
proof (induction es arbitrary: w)
  case (Cons e es)
  obtain i st where e: "e = (i, st)" by (cases e)
  show ?case
  proof (cases "nextLiveOutboundUpdate (collabAPI.truncate (re_ed env)) st")
    case None
    then show ?thesis using Cons by (simp add: e)
  next
    case (Some p)
    obtain w1 k where op: "operation_for env st w = (w1, k)" by fastforce
    have w1: "locked None w1"
      using op Cons.prems locked_draw_id [of env "''op-''" w]
      by (auto simp: operation_for_def Let_def split: option.splits prod.splits)
    define w2 where "w2 = track_document env g k i st (push_message env k i p) w1"
    have w2: "locked None w2"
      using w1 by (auto simp: w2_def track_document_def track_def intro!: locked_tracker types_update)
    obtain w3 sent where r: "room_send (push_message env k i p) w2 = (w3, sent)" by fastforce
    have "locked None w3" using r w2 by (auto simp: room_send_def locked_def split: prod.splits)
    then show ?thesis using w2 by (simp add: e Some op r Cons.IH flip: w2_def)
  qed
qed simp

lemma locked_flushChanges [simp]:
  assumes "locked ps w"
  shows "locked ps (flushChanges env w)"
proof (cases ps)
  case None
  then show ?thesis using assms by (simp add: flushChanges_def locked_flush_editors)
next
  case (Some es)
  then have "ws_recovering w" using assms by (simp add: locked_def)
  then show ?thesis using assms by (simp add: flushChanges_def)
qed

lemma locked_view_operations [simp]:
  assumes "locked ps w"
  shows "locked ps (flushTimerFired env w)" "locked ps (save_nickname env n w)" "locked ps (cancelTabRename w)"
    "locked ps (renameDocument w)" "locked ps (save_layout env w)" "locked ps (remember_split w)" "locked ps (panes_effect w)"
    "locked ps (active_pane_effect w)" "locked ps (sync_refs w)" "locked ps (render_editor env d w)"
    "locked ps (handlePresence env k p w)" "locked ps (handlePresenceLeft i r w)" "locked ps (handleRoomMode b qs w)"
    "locked ps (expireRoom w)" "locked ps (exportPaste env m w)" "locked ps (copyRecoveryText c w)" "locked ps (view_ready i c w)"
    "locked ps (swapPanes x y w)"
  using assms
  by (simp_all add: flushTimerFired_def save_nickname_def cancelTabRename_def renameDocument_def save_layout_def
      remember_split_def panes_effect_def active_pane_effect_def sync_refs_def render_editor_def handlePresence_def
      handlePresenceLeft_def handleRoomMode_def expireRoom_def exportPaste_def copyRecoveryText_def view_ready_def
      swapPanes_def Let_def split: option.split)

lemma locked_selection [simp]:
  assumes "locked ps w"
  shows "locked ps (selectDocument env i w)" "locked ps (selectPane env n i w)"
  using assms by (simp_all add: selectDocument_def selectPane_def Let_def split: option.split)

lemma locked_handleJoined [simp]: "locked ps w \<Longrightarrow> locked ps (handleJoined env e w)"
  by (simp add: handleJoined_def Let_def)

lemma locked_chooseLayout [simp]:
  assumes "locked ps w"
  shows "locked ps (chooseLayout p w)"
proof -
  obtain w' b where r: "room_send (JObj [(js ''type'', JStr (js ''room_layout'')), (js ''layout_preset'', JStr (preset_id p))]) w
      = (w', b)" by fastforce
  have "locked ps w'" by (rule locked_send [OF assms _ r]) simp
  then show ?thesis using assms by (simp add: chooseLayout_def r)
qed

lemma locked_user_operations [simp]:
  assumes "locked ps w"
  shows "locked ps (addDocument env pane w)" "locked ps (submitRename env v w)" "locked ps (updateLanguage env l i w)"
    "locked ps (deleteDocument env i w)" "locked ps (commitTabOrder env order w)" "locked ps (moveDocument env i n w)"
    "locked ps (toggleSplit w)"
proof -
  show commit: "locked ps (commitTabOrder env order w)" for order
  proof -
    obtain w' b where r: "sendMetadata env ''document_reorder'' [(js ''order'', JArr (map JStr order))] w = (w', b)" by fastforce
    have "locked ps w'" by (rule locked_sendMetadata [OF assms _ r]) simp
    then show ?thesis using assms by (simp add: commitTabOrder_def r Let_def)
  qed
  show "locked ps (moveDocument env i n w)"
    using assms by (simp add: moveDocument_def commit Let_def split: option.split)
  show "locked ps (addDocument env pane w)"
  proof -
    obtain w' b where r: "sendMetadata env ''document_create''
        [(js ''name'', JStr (nextLiveTabName (map doc_name (ws_documents w)))),
         (js ''language'', JStr (js ''plaintext'')), (js ''content'', JStr [])] w = (w', b)" by fastforce
    have "locked ps w'" by (rule locked_sendMetadata [OF assms _ r]) simp
    then show ?thesis using assms by (simp add: addDocument_def r)
  qed
qed (use assms in \<open>simp_all add: submitRename_def updateLanguage_def deleteDocument_def toggleSplit_def locked_sendMetadata_fst
    split: option.split\<close>)

subsection \<open>Steps of the room\<close>

definition room_locked :: "connectionEffect list option \<Rightarrow> 'st room \<Rightarrow> bool" where
  "room_locked ps s \<longleftrightarrow> locked ps (rs_world s)"

lemma room_locked_holds: "world_holds (locked ps) (\<lambda>e. True) s \<longleftrightarrow> room_locked ps s"
  by (simp add: world_holds_def room_locked_def)

lemma room_locked_world [simp]: "room_locked ps (s\<lparr>rs_world := w\<rparr>) = locked ps w"
  by (simp add: room_locked_def)

lemma room_locked_on_world: "room_locked ps s \<Longrightarrow> (\<And>w. locked ps w \<Longrightarrow> locked ps (f w)) \<Longrightarrow> room_locked ps (on_world f s)"
  by (simp add: on_world_def room_locked_def)

lemma room_locked_refresh [simp]: "room_locked ps s \<Longrightarrow> room_locked ps (refreshSnapshot env s)"
  using locked_resync.start_holds [of ps s env] by (simp add: refreshSnapshot_def room_locked_holds)

lemma room_locked_recover: "room_locked ps s \<Longrightarrow> room_locked ps (recoverOperationError env code i status s)"
  by (auto simp: recoverOperationError_def refresh_unless_resyncing_def Let_def split: option.split
      intro!: room_locked_on_world room_locked_refresh)

lemma room_locked_dispatch:
  assumes "room_locked ps s"
  shows "room_locked ps (fst (dispatchEvent env event s))"
proof -
  have w: "locked ps (rs_world s)" using assms by (simp add: room_locked_def)
  have refused: "room_locked ps (refresh_if_refused env r s)" if "locked ps (fst r)" for r
    using that by (simp add: refresh_if_refused_def Let_def)
  note metadata = refused [OF locked_applyMetadataEvent [OF w]]
  show ?thesis
  proof (cases event)
    case (Changes e)
    obtain w' r where ap: "applyDocumentEvent env e (rs_world s) = (w', r)" by fastforce
    have "locked ps w'" using locked_applyDocumentEvent [OF w, of env e] by (simp add: ap)
    then show ?thesis using refused by (cases r) (simp_all add: Changes dispatchEvent_def ap)
  qed (use assms metadata room_locked_recover [OF assms] in
      \<open>auto simp: dispatchEvent_def intro!: room_locked_on_world\<close>)
qed

lemma room_locked_handle:
  assumes "room_locked ps s"
  shows "room_locked ps (fst (handleEvent env event s))"
proof -
  obtain s' b where buf: "bufferEvent (room_options env) event s = (s', b)" by fastforce
  have "room_locked ps s'" using locked_resync.buffer_holds [of ps s env event] assms buf by (simp add: room_locked_holds)
  then show ?thesis using assms by (simp add: handleEvent_def buf room_locked_dispatch)
qed

lemma room_locked_message:
  assumes "room_locked ps s"
  shows "room_locked ps (onMessage env data s)"
proof -
  have status: "room_locked ps (on_world (room_status m) s')" if "room_locked ps s'" for m s'
    by (rule room_locked_on_world [OF that]) simp
  show ?thesis
  proof (cases "Option.bind (json_parse data) (decodeLiveWireEvent (re_isoDate env))")
    case (Some event)
    obtain s' b where h: "handleEvent env event s = (s', b)" by fastforce
    have "room_locked ps s'" using room_locked_handle [OF assms, of env event] by (simp add: h)
    then show ?thesis using status by (cases b) (simp_all add: onMessage_def Some h)
  qed (use status [OF assms] in \<open>simp add: onMessage_def\<close>)
qed

lemma room_locked_callbacks: "room_locked ps s \<Longrightarrow> room_locked ps (fold (room_callback env) es s)"
proof (induction es arbitrary: s)
  case (Cons e es)
  have "room_locked ps (room_callback env e s)"
    using room_locked_message [OF Cons.prems] room_locked_on_world [OF Cons.prems, of "connection_callback env e"]
    by (cases e) (simp_all add: room_callback_def)
  then show ?case using Cons.IH by simp
qed simp

text \<open>Steps of the environment: the room itself calls \<open>send\<close>, nobody else does.\<close>

definition environment_event :: "'st roomEvent \<Rightarrow> bool" where
  "environment_event event = (case event of ConnectionEvent (ConnSend v n) \<Rightarrow> False | _ \<Rightarrow> True)"

lemma room_locked_connection:
  assumes "room_locked ps s" "environment_event (ConnectionEvent event)"
  shows "room_locked ps (connection_event env event s)"
proof -
  let ?c = "conn_step (default_options True) event (ws_controller (rs_world s))"
  have "pushes_of ?c = pushes_of (ws_controller (rs_world s))"
    by (rule pushes_conn_step) (use assms(2) in \<open>auto simp: environment_event_def\<close>)
  then have "room_locked ps (on_world (\<lambda>w. w\<lparr>ws_controller := ?c\<rparr>) s)"
    using assms(1) by (simp add: room_locked_def on_world_def locked_controller)
  then show ?thesis by (simp add: connection_event_def Let_def room_locked_callbacks)
qed

lemma room_locked_step:
  assumes "room_locked ps s" "environment_event event"
  shows "room_locked ps (room_step env event s)"
proof -
  have resync: "room_locked ps (resync_step (room_options env) e s)" for e
    using locked_resync.step_holds [of ps s e env] assms(1) by (simp add: room_locked_holds)
  have auth: "room_locked ps (authentication_effect b s)" for b
  proof -
    have "room_locked ps (resync_stop s)"
      using locked_resync.stop_holds [of ps s] assms(1) by (simp add: room_locked_holds)
    then have "room_locked ps (on_world (\<lambda>w. stopResyncWork (w\<lparr>ws_resyncing := False\<rparr>)) (resync_stop s))"
      by (rule room_locked_on_world) simp
    then show ?thesis using assms(1) by (simp add: authentication_effect_def)
  qed
  show ?thesis
    using assms resync auth room_locked_connection [OF assms(1)]
    by (cases event) (auto simp: reauthentication_effect_def intro!: room_locked_on_world)
qed

lemma room_locked_run:
  "room_locked ps s \<Longrightarrow> list_all environment_event events \<Longrightarrow> room_locked ps (fold (room_step env) events s)"
  by (induction events arbitrary: s) (simp_all add: room_locked_step)

lemma room_mount_locked: "room_locked None (room_mount env now (workspace_new room online view loading))"
proof -
  let ?w = "(workspace_new room online view loading)\<lparr>ws_fatal := False, ws_recovering := False, ws_recovery := None\<rparr>"
  have "locked None ?w" by (simp add: locked_def workspace_new_def)
  then have "locked None (call_connection env (conn_start (default_options True)) ?w)"
    by (rule locked_call_connection) (simp add: conn_start_def)
  then show ?thesis by (simp add: room_mount_def room_locked_def liveResync_new_def)
qed

text \<open>
  C3. Once a room has entered recovery it never leaves it: whatever the user does, the server answers
  and the network delivers, it stays in recovery, is never shown as connected again, and not a
  single further edit is pushed to the server, so the text offered for recovery is not overtaken.
\<close>
theorem recovery_is_final:
  assumes "list_all environment_event before" "list_all environment_event after"
    and s: "s = fold (room_step env) before (room_mount env now (workspace_new room online view loading))"
    and "ws_recovering (rs_world s)"
  shows "let w = rs_world (fold (room_step env) after s) in ws_recovering w \<and> ws_connection w \<noteq> Connected
    \<and> pushes_of (ws_controller w) = pushes_of (ws_controller (rs_world s))"
proof -
  have "room_locked None s" unfolding s by (rule room_locked_run [OF room_mount_locked assms(1)])
  with assms(4) have "room_locked (Some (pushes_of (ws_controller (rs_world s)))) s"
    by (simp add: room_locked_def locked_def)
  from room_locked_run [OF this assms(2), of env] show ?thesis
    by (simp add: room_locked_def locked_def Let_def)
qed

text \<open>
  The witness: the first resynchronisation of a room runs into its deadline, which puts the room in
  recovery; later steps leave it there.
\<close>

lemma enterResyncRecovery_recovering: "ws_recovering (enterResyncRecovery env w)"
proof -
  obtain w1 i where d: "draw_id env ''resync-recovery-'' (w\<lparr>ws_recovering := True\<rparr>) = (w1, i)" by fastforce
  then have "ws_recovering w1" by (auto simp: draw_id_def)
  then show ?thesis
    unfolding enterResyncRecovery_def Let_def d prod.case call_connection_def
    by (simp add: room_status_def setConnectionState_def callbacks_keep stopResyncWork_def update_work_def)
qed

lemma deadline_recovers:
  "ws_recovering (rs_world (fold (room_step env) [SnapshotEvent Start, SnapshotEvent (TimerFired 0)] (liveResync_new t w)))"
  by (simp add: resync_start_def beginAttempt_def cancelAttempt_def hasBudget_def liveResync_new_def set_timer_def
      timers_new_def pending_timer_def deadlineFired_def resync_fail_def clearDeadline_def clear_timer_def room_options_def
      enterResyncRecovery_recovering)

theorem recovery_is_final_witness:
  "let w = rs_world (fold (room_step demo_env) [SelectDocument (js ''d''), FlushTimer, ConnectionEvent ConnOnline]
      (fold (room_step demo_env) [SnapshotEvent Start, SnapshotEvent (TimerFired 0)] demo_mounted))
   in ws_recovering w \<and> ws_connection w \<noteq> Connected"
proof -
  let ?s = "fold (room_step demo_env) [SnapshotEvent Start, SnapshotEvent (TimerFired 0)] demo_mounted"
  have before: "list_all environment_event [SnapshotEvent Start, SnapshotEvent (TimerFired 0) :: plainEditor roomEvent]"
    and after: "list_all environment_event [SelectDocument (js ''d''), FlushTimer, ConnectionEvent ConnOnline :: plainEditor roomEvent]"
    by (simp_all add: environment_event_def)
  have "ws_recovering (rs_world ?s)" unfolding demo_mounted_def room_mount_def by (rule deadline_recovers)
  from recovery_is_final [OF before after _ this] show ?thesis
    unfolding demo_mounted_def Let_def by blast
qed

section \<open>A flush\<close>

text \<open>What one entry of the editor map sends: its first unsent update, on top of the version that is synchronised.\<close>

definition pushed_update :: "('st, 'cs, 'd) roomEnv \<Rightarrow> nat option \<Rightarrow> jsstring \<times> 'st \<Rightarrow> connectionEffect \<Rightarrow> bool" where
  "pushed_update env socket entry effect \<longleftrightarrow> (\<exists>k operationID pending. socket = Some k
     \<and> nextLiveOutboundUpdate (collabAPI.truncate (re_ed env)) (snd entry) = Some pending
     \<and> effect = SocketSend k (push_message env operationID (fst entry) pending))"

lemma flush_helpers_controller:
  "operation_for env st w = (w', i) \<Longrightarrow> ws_controller w' = ws_controller w"
  "ws_controller (track_document env g k i st v w) = ws_controller w"
  by (auto simp: operation_for_def draw_id_def track_document_def Let_def split: option.splits)

lemma room_send_log:
  assumes "room_send v w = (w', b)"
  shows "cn_log (ws_controller w') = cn_log (ws_controller w) @ (if b then [SocketSend (the (cn_socket (ws_controller w))) v] else [])"
    "cn_socket (ws_controller w') = cn_socket (ws_controller w)" "cn_joined (ws_controller w') = cn_joined (ws_controller w)"
    "b \<Longrightarrow> cn_joined (ws_controller w) \<and> cn_socket (ws_controller w) \<noteq> None"
  using assms by (auto simp: room_send_def conn_send_def split: prod.splits option.splits if_splits)

lemma flush_editors_log:
  "\<exists>sent effects. cn_log (ws_controller (flush_editors env g es w)) = cn_log (ws_controller w) @ effects
     \<and> subseq sent es \<and> list_all2 (pushed_update env (cn_socket (ws_controller w))) sent effects
     \<and> (effects \<noteq> [] \<longrightarrow> cn_joined (ws_controller w))"
proof (induction es arbitrary: w)
  case Nil
  show ?case by (intro exI [of _ "[]"]) simp
next
  case (Cons e es)
  obtain i st where e: "e = (i, st)" by (cases e)
  have skip: ?case if "flush_editors env g (e # es) w = flush_editors env g es w'" "ws_controller w' = ws_controller w" for w'
  proof -
    obtain sent effects where IH: "cn_log (ws_controller (flush_editors env g es w')) = cn_log (ws_controller w') @ effects"
      "subseq sent es" "list_all2 (pushed_update env (cn_socket (ws_controller w'))) sent effects"
      "effects \<noteq> [] \<longrightarrow> cn_joined (ws_controller w')" using Cons.IH [of w'] by blast
    then show ?thesis
      unfolding that by (intro exI [of _ sent] exI [of _ effects]) (simp add: list_emb_Cons flip: that(2))
  qed
  show ?case
  proof (cases "nextLiveOutboundUpdate (collabAPI.truncate (re_ed env)) st")
    case None
    then show ?thesis using skip [of w] by (simp add: e)
  next
    case (Some p)
    obtain w1 k where op: "operation_for env st w = (w1, k)" by fastforce
    define w2 where "w2 = track_document env g k i st (push_message env k i p) w1"
    have w2: "ws_controller w2 = ws_controller w" using flush_helpers_controller(1) [OF op] by (simp add: w2_def flush_helpers_controller(2))
    obtain w3 b where r: "room_send (push_message env k i p) w2 = (w3, b)" by fastforce
    note log = room_send_log [OF r, unfolded w2]
    have step: "flush_editors env g (e # es) w = (if \<not> shouldSend (ws_tracker w2) k g then flush_editors env g es w2
        else if \<not> b then w3 else flush_editors env g es (w3\<lparr>ws_tracker := fst (markSent k g (ws_tracker w3))\<rparr>))"
      by (simp add: e Some op r flip: w2_def)
    consider "\<not> shouldSend (ws_tracker w2) k g" | "shouldSend (ws_tracker w2) k g" "\<not> b" | "shouldSend (ws_tracker w2) k g" b by blast
    then show ?thesis
    proof cases
      case 1
      then show ?thesis using skip [of w2] w2 step by simp
    next
      case 2
      then show ?thesis using step log(1) by (intro exI [of _ "[]"]) simp
    next
      case 3
      let ?w = "w3\<lparr>ws_tracker := fst (markSent k g (ws_tracker w3))\<rparr>"
      obtain sent effects where IH: "cn_log (ws_controller (flush_editors env g es ?w)) = cn_log (ws_controller ?w) @ effects"
        "subseq sent es" "list_all2 (pushed_update env (cn_socket (ws_controller ?w))) sent effects"
        using Cons.IH [of ?w] by blast
      have "pushed_update env (cn_socket (ws_controller w)) e (SocketSend (the (cn_socket (ws_controller w))) (push_message env k i p))"
        using log(4) [OF 3(2)] Some by (auto simp: pushed_update_def e)
      with IH log 3 step show ?thesis
        by (intro exI [of _ "e # sent"] exI [of _ "SocketSend (the (cn_socket (ws_controller w))) (push_message env k i p) # effects"])
          simp
    qed
  qed
qed

text \<open>
  C4. A flush sends only over a joined connection that is synchronised, not in recovery and allowed to
  edit; it sends at most one message per document, in the order of the editors, and each is that
  document's first unsent update on top of the version the editor has synchronised.
\<close>
theorem flush_pushes_first_updates:
  "\<exists>sent effects. cn_log (ws_controller (flushChanges env w)) = cn_log (ws_controller w) @ effects
     \<and> subseq sent (ws_editors w) \<and> list_all2 (pushed_update env (cn_socket (ws_controller w))) sent effects
     \<and> (effects = [] \<or> ws_connection w = Connected \<and> cn_joined (ws_controller w) \<and> ws_resyncing w = False
          \<and> ws_recovering w = False \<and> ws_localCanEdit w)"
proof (cases "ws_connection w \<noteq> Connected \<or> ws_resyncing w \<or> ws_recovering w \<or> \<not> ws_localCanEdit w")
  case True
  then show ?thesis by (intro exI [of _ "[]"]) (auto simp: flushChanges_def)
next
  case False
  then have flush: "flushChanges env w = flush_editors env (ws_generation w) (ws_editors w) w" by (simp add: flushChanges_def)
  show ?thesis using flush_editors_log [of env "ws_generation w" "ws_editors w" w] False unfolding flush by blast
qed

section \<open>Panes\<close>

abbreviation panes_distinct :: "jsstring list \<Rightarrow> bool" where
  "panes_distinct ps \<equiv> distinct (filter (\<lambda>p. p \<noteq> []) ps)"

lemma fill_panes_spec:
  assumes "distinct available" "[] \<notin> set available" "set available \<inter> set ps = {}" "panes_distinct ps"
  shows "length (fill_panes available ps) = length ps \<and> set (fill_panes available ps) \<subseteq> set ps \<union> set available
    \<and> panes_distinct (fill_panes available ps)
    \<and> (\<forall>i<length ps. ps ! i \<noteq> [] \<longrightarrow> fill_panes available ps ! i = ps ! i)
    \<and> ([] \<in> set (fill_panes available ps) \<longrightarrow> set available \<subseteq> set (fill_panes available ps))"
  using assms
proof (induction available ps rule: fill_panes.induct)
  case (2 available p ps)
  show ?case
  proof (cases "p = []")
    case False
    then have "p \<notin> set (fill_panes available ps)" if "length (fill_panes available ps) = length ps"
      "set (fill_panes available ps) \<subseteq> set ps \<union> set available"
      using that "2.prems" False by auto
    then show ?thesis using 2 False by (auto simp: nth_Cons split: nat.splits)
  next
    case True
    show ?thesis
    proof (cases available)
      case Nil
      then show ?thesis using 2 True by (auto simp: nth_Cons split: nat.splits)
    next
      case (Cons a rest)
      then have "a \<notin> set (fill_panes rest ps)" if "set (fill_panes rest ps) \<subseteq> set ps \<union> set rest"
        using that "2.prems" by auto
      then show ?thesis using 2 True Cons by (auto simp: nth_Cons split: nat.splits)
    qed
  qed
qed simp

lemma panes_distinct_iff:
  "panes_distinct ps \<longleftrightarrow> (\<forall>i<length ps. \<forall>j<length ps. ps ! i = ps ! j \<longrightarrow> ps ! i \<noteq> [] \<longrightarrow> i = j)"
proof (induction ps)
  case (Cons p ps)
  have mem: "p \<in> set ps \<longleftrightarrow> (\<exists>j<length ps. ps ! j = p)" by (auto simp: in_set_conv_nth)
  have "panes_distinct (p # ps) \<longleftrightarrow> (p \<noteq> [] \<longrightarrow> \<not> (\<exists>j<length ps. ps ! j = p)) \<and> panes_distinct ps"
    by (simp flip: mem)
  also have "\<dots> \<longleftrightarrow> (\<forall>i<length (p # ps). \<forall>j<length (p # ps). (p # ps) ! i = (p # ps) ! j \<longrightarrow> (p # ps) ! i \<noteq> [] \<longrightarrow> i = j)"
    unfolding Cons.IH list.size(4) add_Suc_right add_0_right All_less_Suc2 nth_Cons_0 nth_Cons_Suc by auto
  finally show ?case .
qed simp

lemma reconcile_panes_kept: "panes_distinct ps \<Longrightarrow> panes_distinct (map (\<lambda>i. if i \<in> D then i else []) ps)"
  by (auto simp: panes_distinct_iff)

text \<open>
  C36. After documents came or went, panes are filled again without moving anything: a pane
  that shows a document of the room keeps it, every other pane gets a document that had no pane
  or stays empty, no document is shown in two panes, and a pane stays empty only when every
  document has one.
\<close>
theorem panes_refilled:
  assumes "distinct documents" "[] \<notin> set documents" "panes_distinct previous"
  shows "let panes = reconcile_panes documents previous in
    length panes = length previous \<and> set panes \<subseteq> insert [] (set documents) \<and> panes_distinct panes
    \<and> (\<forall>i<length previous. previous ! i \<in> set documents \<longrightarrow> panes ! i = previous ! i)
    \<and> ([] \<in> set panes \<longrightarrow> set documents \<subseteq> set panes)"
proof -
  define kept where "kept = map (\<lambda>i. if i \<in> set documents then i else []) previous"
  define free where "free = filter (\<lambda>i. i \<notin> set kept) documents"
  have "panes_distinct kept" unfolding kept_def by (rule reconcile_panes_kept [OF assms(3)])
  then have spec: "length (fill_panes free kept) = length kept" "set (fill_panes free kept) \<subseteq> set kept \<union> set free"
    "panes_distinct (fill_panes free kept)" "\<forall>i<length kept. kept ! i \<noteq> [] \<longrightarrow> fill_panes free kept ! i = kept ! i"
    "[] \<in> set (fill_panes free kept) \<longrightarrow> set free \<subseteq> set (fill_panes free kept)"
    using fill_panes_spec [of free kept] assms by (auto simp: free_def)
  have keeps: "fill_panes free kept ! i = previous ! i" if "i < length previous" "previous ! i \<in> set documents" for i
  proof -
    have "kept ! i = previous ! i" "previous ! i \<noteq> []" using that assms(2) by (auto simp: kept_def)
    then show ?thesis using spec(4) that(1) by (simp add: kept_def)
  qed
  have "d \<in> set (fill_panes free kept)" if "[] \<in> set (fill_panes free kept)" "d \<in> set documents" for d
  proof (cases "d \<in> set kept")
    case True
    then obtain i where "i < length kept" "kept ! i = d" unfolding in_set_conv_nth by blast
    moreover from this have "i < length previous" "previous ! i = d" using that(2) assms(2) by (auto simp: kept_def split: if_splits)
    ultimately show ?thesis using keeps [of i] that(2) spec(1) by (metis kept_def length_map nth_mem)
  qed (use spec(5) that in \<open>auto simp: free_def\<close>)
  moreover have "set (fill_panes free kept) \<subseteq> insert [] (set documents)"
    using spec(2) by (auto simp: kept_def free_def split: if_splits)
  ultimately show ?thesis
    using spec(1,3) keeps by (auto simp: reconcile_panes_def Let_def kept_def free_def)
qed

theorem panes_refilled_witness:
  "reconcile_panes [js ''a'', js ''b'', js ''c''] [js ''b'', js ''x'', [], []] = [js ''b'', js ''a'', js ''c'', []]
   \<and> panes_distinct [js ''b'', js ''a'', js ''c'', []]"
proof -
  have "reconcile_panes [js ''a'', js ''b'', js ''c''] [js ''b'', js ''x'', [], []] = [js ''b'', js ''a'', js ''c'', []]"
    by (simp add: reconcile_panes_def)
  then show ?thesis
    using panes_refilled [of "[js ''a'', js ''b'', js ''c'']" "[js ''b'', js ''x'', [], []]"] by simp
qed

lemma swap_panes_distinct:
  assumes "panes_distinct ps" "a < length ps" "b < length ps"
  shows "panes_distinct (swap_panes a b ps)"
proof -
  have "mset (swap_panes a b ps) = mset ps"
    using mset_swap [of b ps a] assms(2,3) by (simp add: swap_panes_def)
  then have "mset (filter (\<lambda>p. p \<noteq> []) (swap_panes a b ps)) = mset (filter (\<lambda>p. p \<noteq> []) ps)" by (simp add: mset_filter)
  then show ?thesis using assms(1) mset_eq_imp_distinct_iff by blast
qed

text \<open>Putting a document into a pane exchanges it with the pane that showed it.\<close>

lemma assign_pane_distinct:
  assumes "panes_distinct ps" "index < length ps"
  shows "panes_distinct (assign_pane index d ps) \<and> assign_pane index d ps ! index = d"
proof (cases "index_of d ps")
  case None
  then have "d \<notin> set ps" by simp
  then show ?thesis using assms unfolding panes_distinct_iff
    by (auto simp: assign_pane_def None nth_list_update)
next
  case (Some k)
  from index_of_SomeD [OF this] have k: "k < length ps" "ps ! k = d" by simp_all
  have "assign_pane index d ps = ps[k := ps ! index, index := d]" by (simp add: assign_pane_def Some)
  then have "assign_pane index d ps = swap_panes k index ps" unfolding swap_panes_def k(2) .
  moreover have "swap_panes k index ps ! index = d" using assms(2) k(2) by (simp add: swap_panes_def)
  ultimately show ?thesis using swap_panes_distinct [OF assms(1) k(1) assms(2)] by simp
qed

end
