(* ===== verification/Live_Room_Session.thy ===== *)
theory Live_Room_Session
  imports Live_Room_Run
begin

text \<open>
  A live room and the server it talks to. The server records updates while the room runs; an update under the
  browser's own client id is one the browser has pending, carried over the updates recorded since. The
  laws of the editor (\<open>@codemirror/collab\<close>, a package) are locales; with them every state a room can reach
  shows, for each document, the server's text with exactly the pending edits of the user applied.
\<close>

section \<open>The interface of the collaborative editor\<close>

text \<open>How the calls move the synchronised version.\<close>

lemma edit_all_append: "edit_all f (us @ vs) x = Option.bind (edit_all f us x) (edit_all f vs)"
  by (induction us arbitrary: x) (auto split: bind_splits)

lemma edit_all_foldl: "edit_all f us x = foldl (\<lambda>d u. Option.bind d (f u)) (Some x) us"
proof -
  have "foldl (\<lambda>d u. Option.bind d (f u)) None us = None" by (induction us) simp_all
  then show ?thesis
  proof (induction us arbitrary: x)
    case (Cons u us)
    have "foldl (\<lambda>d u. Option.bind d (f u)) None us = None" by (induction us) simp_all
    with Cons show ?case by (cases "f u x") simp_all
  qed simp
qed

locale editor_versions =
  fixes version :: "'st \<Rightarrow> int"
    and make :: "liveRoomDocument \<Rightarrow> jsstring \<Rightarrow> 'st"
    and receive :: "'cs liveUpdate \<Rightarrow> 'st \<Rightarrow> ('st \<times> bool) option"
    and change :: "'cs \<Rightarrow> 'st \<Rightarrow> 'st option"
  assumes make_version: "version (make d client) = doc_revision d"
    and receive_version: "receive u st = Some (st', b) \<Longrightarrow> version st' = version st + 1"
    and change_version: "change cs st = Some st' \<Longrightarrow> version st' = version st"
begin

lemma receive_all:
  "edit_all (\<lambda>u st. map_option fst (receive u st)) us st = Some st' \<Longrightarrow> version st' = version st + int (length us)"
  by (induction us arbitrary: st) (auto simp: receive_version split: bind_splits)

lemma change_all: "edit_all (\<lambda>u. change (f u)) us st = Some st' \<Longrightarrow> version st' = version st"
  by (induction us arbitrary: st) (auto simp: change_version split: bind_splits)

end

text \<open>
  What the calls do to the document and the pending updates: an update of the editor's own client confirms the
  first pending one, any other is applied below the pending ones, which are mapped over it with
  \<open>rebase\<close> (\<open>ChangeSet.map\<close>).
\<close>

locale editor_texts = editor_versions version make receive change
  for version :: "'st \<Rightarrow> int" and make and receive :: "'cs liveUpdate \<Rightarrow> 'st \<Rightarrow> ('st \<times> bool) option" and change +
  fixes pending :: "'st \<Rightarrow> 'cs liveUpdate list"
    and doc :: "'st \<Rightarrow> jsstring"
    and apply_cs :: "'cs \<Rightarrow> jsstring \<Rightarrow> jsstring option"
    and rebase :: "'cs \<Rightarrow> 'cs \<Rightarrow> 'cs"
  assumes make_pending: "pending (make d client) = []"
    and make_doc: "doc (make d client) = doc_content d"
    and made_client: "edit_all (\<lambda>u. change (up_changes u)) (us :: 'cs liveUpdate list) (make d client) = Some st \<Longrightarrow> p \<in> set (pending st) \<Longrightarrow>
      up_clientID p = client"
    and change_pending: "change cs st = Some st' \<Longrightarrow>
      \<exists>u. pending st' = pending st @ [u] \<and> up_changes u = cs \<and> apply_cs cs (doc st) = Some (doc st')"
    and receive_own: "pending st = p # ps \<Longrightarrow> up_clientID u = up_clientID p \<Longrightarrow> receive u st = Some (st', b) \<Longrightarrow>
      pending st' = ps \<and> doc st' = doc st"
    and receive_foreign: "\<forall>p\<in>set (pending st). up_clientID p \<noteq> up_clientID u \<Longrightarrow> receive u st = Some (st', b) \<Longrightarrow>
      map up_clientID (pending st') = map up_clientID (pending st)
      \<and> (\<forall>p ps. pending st = p # ps \<longrightarrow> (\<exists>q qs. pending st' = q # qs \<and> up_changes q = rebase (up_changes p) (up_changes u)))"
    and receive_text: "\<forall>p\<in>set (pending st). up_clientID p \<noteq> up_clientID u \<Longrightarrow> receive u st = Some (st', b) \<Longrightarrow>
      apply_cs (up_changes u) t = Some t' \<Longrightarrow>
      edit_all (\<lambda>u. apply_cs (up_changes u)) (pending st) t = Some (doc st) \<Longrightarrow>
      edit_all (\<lambda>u. apply_cs (up_changes u)) (pending st') t' = Some (doc st')"
begin

abbreviation shown :: "jsstring \<Rightarrow> 'st \<Rightarrow> jsstring option" where
  "shown t st \<equiv> edit_all (\<lambda>u. apply_cs (up_changes u)) (pending st) t"

lemma made_shown: "shown (doc_content d) (make d client) = Some (doc (make d client))"
  by (simp add: make_pending make_doc)

lemma change_shown: "change cs st = Some st' \<Longrightarrow> shown t st = Some (doc st) \<Longrightarrow> shown t st' = Some (doc st')"
  using change_pending [of cs st st'] by (auto simp: edit_all_append)

lemma change_all_shown:
  "edit_all (\<lambda>u. change (up_changes u)) us st = Some st' \<Longrightarrow> shown t st = Some (doc st) \<Longrightarrow> shown t st' = Some (doc st')"
  by (induction us arbitrary: st) (auto simp: change_shown split: bind_splits)

text \<open>A run of updates from elsewhere.\<close>

lemma receive_all_shown:
  "edit_all (\<lambda>u st. map_option fst (receive u st)) us st = Some st' \<Longrightarrow> \<forall>u\<in>set us. up_clientID u \<noteq> client \<Longrightarrow>
    \<forall>p\<in>set (pending st). up_clientID p = client \<Longrightarrow> shown t st = Some (doc st) \<Longrightarrow>
    edit_all (\<lambda>u. apply_cs (up_changes u)) us t = Some t' \<Longrightarrow>
    shown t' st' = Some (doc st') \<and> (\<forall>p\<in>set (pending st'). up_clientID p = client)"
proof (induction us arbitrary: st t)
  case (Cons u us)
  obtain st1 b where r: "receive u st = Some (st1, b)"
    and rest: "edit_all (\<lambda>u st. map_option fst (receive u st)) us st1 = Some st'"
    using Cons.prems(1) by (auto split: bind_splits)
  obtain t1 where t1: "apply_cs (up_changes u) t = Some t1" "edit_all (\<lambda>u. apply_cs (up_changes u)) us t1 = Some t'"
    using Cons.prems(5) by (auto split: bind_splits)
  have foreign: "\<forall>p\<in>set (pending st). up_clientID p \<noteq> up_clientID u" using Cons.prems(2,3) by auto
  have ids: "\<forall>p\<in>set (pending st1). up_clientID p = client"
    using receive_foreign [OF foreign r] Cons.prems(3) by (metis (no_types, lifting) image_eqI image_iff set_map)
  show ?case
    using Cons.IH [OF rest _ ids receive_text [OF foreign r t1(1) Cons.prems(4)] t1(2)] Cons.prems(2) by simp
qed simp

end

section \<open>Own updates in the record\<close>

definition recorded_changes :: "('st, 'cs, 'd) roomEnv \<Rightarrow> history \<Rightarrow> jsstring \<Rightarrow> int \<Rightarrow> 'cs" where
  "recorded_changes env h i r = the (cs_fromJSON (re_cs env) (snd (the (hs_update h i r))))"

text \<open>A change set made at revision \<open>k\<close>, mapped over the updates recorded up to revision \<open>r\<close>.\<close>

definition carried :: "('st, 'cs, 'd) roomEnv \<Rightarrow> ('cs \<Rightarrow> 'cs \<Rightarrow> 'cs) \<Rightarrow> history \<Rightarrow> jsstring \<Rightarrow> int \<Rightarrow> int \<Rightarrow> 'cs \<Rightarrow> 'cs" where
  "carried env rebase h i k r c = fold (\<lambda>j c. rebase c (recorded_changes env h i j)) [k + 1..r] c"

lemma carried_same [simp]: "carried env rebase h i k k c = c"
  by (simp add: carried_def)

lemma carried_step:
  "k < r \<Longrightarrow> carried env rebase h i k r c = carried env rebase h i (k + 1) r (rebase c (recorded_changes env h i (k + 1)))"
  by (simp add: carried_def upto.simps [of "k + 1" r])

lemma carried_cong:
  "(\<And>j. k < j \<Longrightarrow> j \<le> r \<Longrightarrow> hs_update h' i j = hs_update h i j) \<Longrightarrow> carried env rebase h' i k r c = carried env rebase h i k r c"
  unfolding carried_def by (rule fold_cong) (auto simp: recorded_changes_def)

text \<open>The first pending update of an editor, carried to revision \<open>r\<close>, does what \<open>c\<close> does.\<close>

definition first_pending :: "('st, 'cs, 'd) roomEnv \<Rightarrow> ('cs \<Rightarrow> 'cs \<Rightarrow> 'cs) \<Rightarrow> history \<Rightarrow> jsstring \<Rightarrow> 'st \<Rightarrow> int \<Rightarrow> 'cs \<Rightarrow> bool" where
  "first_pending env rebase h i st r c \<longleftrightarrow> (\<exists>u us. co_sendableUpdates (re_ed env) st = u # us
     \<and> (\<forall>t. cs_apply (re_cs env) c t
          = cs_apply (re_cs env) (carried env rebase h i (co_getSyncedVersion (re_ed env) st) r (up_changes u)) t))"

text \<open>The updates of this browser that its editor has not received yet: at most one, and that is pending.\<close>

definition own_confirmed :: "('st, 'cs, 'd) roomEnv \<Rightarrow> history \<Rightarrow> jsstring \<Rightarrow> 'st \<Rightarrow> bool" where
  "own_confirmed env h i st \<longleftrightarrow>
     (\<forall>r. own_update (re_clientID env) h i r \<longrightarrow> r \<le> co_getSyncedVersion (re_ed env) st)"

definition own_awaited :: "('st, 'cs, 'd) roomEnv \<Rightarrow> ('cs \<Rightarrow> 'cs \<Rightarrow> 'cs) \<Rightarrow> history \<Rightarrow> jsstring \<Rightarrow> 'st \<Rightarrow> int \<Rightarrow> bool" where
  "own_awaited env rebase h i st r \<longleftrightarrow> co_getSyncedVersion (re_ed env) st < r
     \<and> (\<exists>v c. hs_update h i r = Some (re_clientID env, v) \<and> cs_fromJSON (re_cs env) v = Some c
          \<and> first_pending env rebase h i st (r - 1) c)
     \<and> (\<forall>r'. own_update (re_clientID env) h i r' \<longrightarrow> r' \<le> co_getSyncedVersion (re_ed env) st \<or> r' = r)"

definition editor_ok :: "('st, 'cs, 'd) roomEnv \<Rightarrow> ('cs \<Rightarrow> 'cs \<Rightarrow> 'cs) \<Rightarrow> history \<Rightarrow> jsstring \<Rightarrow> (jsstring \<times> 'st) option \<Rightarrow> bool" where
  "editor_ok env rebase h i x = (case x of
     None \<Rightarrow> (\<forall>r. \<not> own_update (re_clientID env) h i r)
   | Some (t, st) \<Rightarrow> hs_text h i (co_getSyncedVersion (re_ed env) st) = Some t
       \<and> shown_text env t st = Some (ed_doc (re_ed env) st)
       \<and> (\<forall>u\<in>set (co_sendableUpdates (re_ed env) st). up_clientID u = re_clientID env)
       \<and> (own_confirmed env h i st \<or> (\<exists>r. own_awaited env rebase h i st r)))"

section \<open>The laws of a session\<close>

text \<open>
  \<open>rebase\<close> is \<open>ChangeSet.map\<close>. The updates that stand for a snapshot carry client ids of their own, which no
  browser draws.
\<close>

definition editor_laws :: "('st, 'cs, 'd) roomEnv \<Rightarrow> ('cs \<Rightarrow> 'cs \<Rightarrow> 'cs) \<Rightarrow> bool" where
  "editor_laws env rebase \<longleftrightarrow> change_sets (re_cs env)
     \<and> editor_texts (co_getSyncedVersion (re_ed env)) (ed_make (re_ed env)) (ed_receive (re_ed env)) (ed_change (re_ed env))
         (co_sendableUpdates (re_ed env)) (ed_doc (re_ed env)) (cs_apply (re_cs env)) rebase
     \<and> (\<forall>st. livePresenceSelection (re_ed env) st \<noteq> None)
     \<and> take 15 (re_clientID env) \<noteq> js ''snapshot-resync''"

locale room_session =
  fixes env :: "('st, 'cs, 'd) roomEnv" and rebase :: "'cs \<Rightarrow> 'cs \<Rightarrow> 'cs" and h :: history
  assumes laws: "editor_laws env rebase" and truthful: "history_ok (re_cs env) h"
begin

lemma editor: "editor_texts (co_getSyncedVersion (re_ed env)) (ed_make (re_ed env)) (ed_receive (re_ed env)) (ed_change (re_ed env))
    (co_sendableUpdates (re_ed env)) (ed_doc (re_ed env)) (cs_apply (re_cs env)) rebase"
  and cs: "change_sets (re_cs env)"
  using laws by (simp_all add: editor_laws_def)

lemmas version = editor_texts.axioms(1) [OF editor]

lemma created_ok:
  assumes "genuine_document h d" "editor_ok env rebase h (doc_id d) None"
  shows "editor_ok env rebase h (doc_id d) (Some (doc_content d, ed_make (re_ed env) d (re_clientID env)))"
  using assms editor_texts.made_shown [OF editor, of d "re_clientID env"] editor_texts.make_pending [OF editor, of d "re_clientID env"]
  by (simp add: editor_ok_def genuine_document_def editor_versions.make_version [OF version] shown_text_def own_confirmed_def)

lemma first_pending_edited:
  assumes "local_edit env st st'" "first_pending env rebase h i st r c"
  shows "first_pending env rebase h i st' r c"
proof -
  obtain u us new where "co_sendableUpdates (re_ed env) st = u # us" "co_sendableUpdates (re_ed env) st' = u # (us @ new)"
    "co_getSyncedVersion (re_ed env) st' = co_getSyncedVersion (re_ed env) st"
    using assms by (auto simp: local_edit_def first_pending_def)
  then show ?thesis using assms(2) by (simp add: first_pending_def)
qed

lemma edited_ok:
  assumes "editor_ok env rebase h i (Some (t, st))" "local_edit env st st'"
  shows "editor_ok env rebase h i (Some (t, st'))"
proof -
  have version: "co_getSyncedVersion (re_ed env) st' = co_getSyncedVersion (re_ed env) st" using assms(2) by (simp add: local_edit_def)
  then have "own_awaited env rebase h i st' r" if "own_awaited env rebase h i st r" for r
    using that first_pending_edited [OF assms(2)] by (auto simp: own_awaited_def)
  moreover have "own_confirmed env h i st' = own_confirmed env h i st" by (simp add: own_confirmed_def version)
  ultimately show ?thesis using assms by (auto simp: editor_ok_def version local_edit_def)
qed

lemma recorded_step:
  assumes "genuine_change h e" "hs_text h (ch_documentID e) (ch_revision e - 1) = Some t"
    and "cs_fromJSON (re_cs env) (ch_changes e) = Some changes"
  obtains t' where "cs_apply (re_cs env) changes t = Some t'" "hs_text h (ch_documentID e) (ch_revision e) = Some t'"
    "recorded_changes env h (ch_documentID e) (ch_revision e) = changes"
proof -
  have "hs_update h (ch_documentID e) (ch_revision e) = Some (ch_clientID e, ch_changes e)"
    using assms(1) by (simp add: genuine_change_def)
  with truthful assms(2,3) show ?thesis using that unfolding history_ok_def recorded_changes_def by force
qed

text \<open>Receiving an update of another client.\<close>

lemma received_foreign:
  assumes e: "genuine_change h e" "ch_clientID e \<noteq> re_clientID env" "ch_revision e = co_getSyncedVersion (re_ed env) st + 1"
    and P: "editor_ok env rebase h (ch_documentID e) (Some (t, st))"
    and changes: "cs_fromJSON (re_cs env) (ch_changes e) = Some changes"
    and r: "ed_receive (re_ed env) \<lparr>up_changes = changes, up_clientID = ch_clientID e\<rparr> st = Some (st', b)"
  shows "\<exists>t'. cs_apply (re_cs env) changes t = Some t' \<and> editor_ok env rebase h (ch_documentID e) (Some (t', st'))"
proof -
  let ?i = "ch_documentID e" and ?v = "co_getSyncedVersion (re_ed env)"
  obtain t' where t': "cs_apply (re_cs env) changes t = Some t'" "hs_text h ?i (ch_revision e) = Some t'"
      "recorded_changes env h ?i (ch_revision e) = changes"
    using recorded_step [OF e(1) _ changes, of t] P e(3) by (auto simp: editor_ok_def)
  have foreign: "\<forall>p\<in>set (co_sendableUpdates (re_ed env) st). up_clientID p \<noteq> up_clientID \<lparr>up_changes = changes, up_clientID = ch_clientID e\<rparr>"
    using P e(2) by (auto simp: editor_ok_def)
  have version: "?v st' = ch_revision e" using editor_versions.receive_version [OF version r] e(3) by simp
  note rf = editor_texts.receive_foreign [OF editor foreign r]
  have "shown_text env t' st' = Some (ed_doc (re_ed env) st')"
    using editor_texts.receive_text [OF editor foreign r, of t t'] P t'(1) by (simp add: shown_text_def editor_ok_def)
  moreover have "up_clientID ` set (co_sendableUpdates (re_ed env) st') = up_clientID ` set (co_sendableUpdates (re_ed env) st)"
    using rf by (metis set_map)
  then have "\<forall>u\<in>set (co_sendableUpdates (re_ed env) st'). up_clientID u = re_clientID env"
    using P by (auto simp: editor_ok_def)
  moreover have "own_awaited env rebase h ?i st' k" if k: "own_awaited env rebase h ?i st k" for k
  proof -
    from k obtain v c where v: "hs_update h ?i k = Some (re_clientID env, v)" "cs_fromJSON (re_cs env) v = Some c"
      "first_pending env rebase h ?i st (k - 1) c" "?v st < k" by (auto simp: own_awaited_def)
    moreover have "k \<noteq> ch_revision e" using v(1) e(1,2) by (auto simp: genuine_change_def)
    ultimately have less: "?v st < k - 1" "?v st' < k" using e(3) version by simp_all
    obtain u us where u: "co_sendableUpdates (re_ed env) st = u # us"
      "\<And>t. cs_apply (re_cs env) c t = cs_apply (re_cs env) (carried env rebase h ?i (?v st) (k - 1) (up_changes u)) t"
      using v(3) by (auto simp: first_pending_def)
    obtain q qs where q: "co_sendableUpdates (re_ed env) st' = q # qs" "up_changes q = rebase (up_changes u) changes"
      using rf u(1) by auto
    have "carried env rebase h ?i (?v st) (k - 1) (up_changes u) = carried env rebase h ?i (?v st') (k - 1) (up_changes q)"
      using carried_step [OF less(1), of env rebase h ?i "up_changes u"] t'(3) e(3) version q(2) by simp
    then have "first_pending env rebase h ?i st' (k - 1) c" using q(1) u(2) by (simp add: first_pending_def)
    then show ?thesis using k v less(2) version e(3) by (fastforce simp: own_awaited_def)
  qed
  moreover have "own_confirmed env h ?i st \<Longrightarrow> own_confirmed env h ?i st'" using version e(3) by (force simp: own_confirmed_def)
  ultimately show ?thesis using P t' version by (auto simp: editor_ok_def)
qed

text \<open>Receiving the browser's own update back.\<close>

lemma received_own:
  assumes e: "genuine_change h e" "ch_clientID e = re_clientID env" "ch_revision e = co_getSyncedVersion (re_ed env) st + 1"
    and P: "editor_ok env rebase h (ch_documentID e) (Some (t, st))"
    and changes: "cs_fromJSON (re_cs env) (ch_changes e) = Some changes"
    and r: "ed_receive (re_ed env) \<lparr>up_changes = changes, up_clientID = ch_clientID e\<rparr> st = Some (st', b)"
  shows "\<exists>t'. cs_apply (re_cs env) changes t = Some t' \<and> editor_ok env rebase h (ch_documentID e) (Some (t', st'))"
proof -
  let ?i = "ch_documentID e" and ?v = "co_getSyncedVersion (re_ed env)"
  obtain t' where t': "cs_apply (re_cs env) changes t = Some t'" "hs_text h ?i (ch_revision e) = Some t'"
    using recorded_step [OF e(1) _ changes, of t] P e(3) by (auto simp: editor_ok_def)
  have own: "own_update (re_clientID env) h ?i (ch_revision e)" using e(1,2) by (simp add: own_update_def genuine_change_def)
  then have "\<not> own_confirmed env h ?i st" using e(3) by (auto simp: own_confirmed_def)
  then obtain k where k: "own_awaited env rebase h ?i st k" using P by (auto simp: editor_ok_def)
  with own e(3) have [simp]: "k = ch_revision e" by (auto simp: own_awaited_def)
  from k e(1,2) changes have "first_pending env rebase h ?i st (?v st) changes"
    using e(3) by (auto simp: own_awaited_def genuine_change_def)
  then obtain u us where u: "co_sendableUpdates (re_ed env) st = u # us" "cs_apply (re_cs env) changes t = cs_apply (re_cs env) (up_changes u) t"
    by (auto simp: first_pending_def)
  have "up_clientID \<lparr>up_changes = changes, up_clientID = ch_clientID e\<rparr> = up_clientID u" using P u(1) e(2) by (simp add: editor_ok_def)
  note st' = editor_texts.receive_own [OF editor u(1) this r]
  have version: "?v st' = ch_revision e" using editor_versions.receive_version [OF version r] e(3) by simp
  have "shown_text env t' st' = Some (ed_doc (re_ed env) st')"
    using P u(1) st' t'(1) u(2) [symmetric] by (simp add: editor_ok_def shown_text_def)
  moreover have "own_confirmed env h ?i st'"
    using k e(3) version by (force simp: own_confirmed_def own_awaited_def)
  ultimately show ?thesis using P t' version u(1) st' by (auto simp: editor_ok_def)
qed

lemma adopted_ok:
  assumes "settled_document (re_clientID env) h d" "co_getSyncedVersion (re_ed env) current = doc_revision d"
    and "shown_text env (doc_content d) current = Some (ed_doc (re_ed env) current)"
    and "\<forall>u\<in>set (co_sendableUpdates (re_ed env) current). up_clientID u = re_clientID env"
  shows "editor_ok env rebase h (doc_id d) (Some (doc_content d, current))"
  using assms by (simp add: editor_ok_def settled_document_def genuine_document_def own_confirmed_def)

lemma replaced_ok:
  assumes "settled_document (re_clientID env) h d"
    and e: "edit_all (\<lambda>u. ed_change (re_ed env) (up_changes u)) (us :: 'cs liveUpdate list) (ed_make (re_ed env) d (re_clientID env)) = Some current"
  shows "editor_ok env rebase h (doc_id d) (Some (doc_content d, current))"
proof (rule adopted_ok [OF assms(1)])
  show "co_getSyncedVersion (re_ed env) current = doc_revision d"
    using editor_versions.change_all [OF version e] editor_versions.make_version [OF version, of d "re_clientID env"] by simp
  show "shown_text env (doc_content d) current = Some (ed_doc (re_ed env) current)"
    using editor_texts.change_all_shown [OF editor e editor_texts.made_shown [OF editor]] by (simp add: shown_text_def)
  show "\<forall>u\<in>set (co_sendableUpdates (re_ed env) current). up_clientID u = re_clientID env"
    using editor_texts.made_client [OF editor e] by blast
qed

lemma snapshot_updates_foreign:
  "u \<in> set (liveSnapshotUpdates cs changes revision current) \<Longrightarrow> up_clientID u \<noteq> re_clientID env"
proof -
  assume "u \<in> set (liveSnapshotUpdates cs changes revision current)"
  then have "take 15 (up_clientID u) = js ''snapshot-resync''"
    by (auto simp: liveSnapshotUpdates_def Let_def js_def split: if_splits)
  then show ?thesis using laws by (auto simp: editor_laws_def)
qed

lemma bridged_ok:
  assumes d: "settled_document (re_clientID env) h d" and P: "editor_ok env rebase h (doc_id d) (Some (t, st))"
    and less: "co_getSyncedVersion (re_ed env) st < doc_revision d"
    and e: "edit_all (\<lambda>u st. map_option fst (ed_receive (re_ed env) u st))
        (liveSnapshotUpdates (re_cs env) (diffLiveDocuments (re_cs env) t (doc_content d)) (doc_revision d)
          (co_getSyncedVersion (re_ed env) st)) st = Some current"
  shows "editor_ok env rebase h (doc_id d) (Some (doc_content d, current))"
proof (rule adopted_ok [OF d])
  note snapshot = change_sets.snapshot_updates_apply [OF cs less, of t "doc_content d"]
  show "co_getSyncedVersion (re_ed env) current = doc_revision d"
    using editor_versions.receive_all [OF version e] snapshot(1) less by simp
  have "edit_all (\<lambda>u. cs_apply (re_cs env) (up_changes u)) (liveSnapshotUpdates (re_cs env)
      (diffLiveDocuments (re_cs env) t (doc_content d)) (doc_revision d) (co_getSyncedVersion (re_ed env) st)) t = Some (doc_content d)"
    unfolding edit_all_foldl by (rule snapshot(2))
  from editor_texts.receive_all_shown [OF editor e ballI [OF snapshot_updates_foreign] _ _ this] P
  show "shown_text env (doc_content d) current = Some (ed_doc (re_ed env) current)"
    "\<forall>u\<in>set (co_sendableUpdates (re_ed env) current). up_clientID u = re_clientID env"
    by (auto simp: editor_ok_def shown_text_def)
qed

end

text \<open>So the invariant of an editor satisfies the contract the room's operations ask for.\<close>

sublocale room_session \<subseteq> document_sync env h "editor_ok env rebase h"
proof
  show "history_ok (re_cs env) h" by (rule truthful)
  show "livePresenceSelection (re_ed env) st \<noteq> None" for st using laws by (simp add: editor_laws_def)
  show "\<exists>t'. cs_apply (re_cs env) changes t = Some t' \<and> editor_ok env rebase h (ch_documentID e) (Some (t', st'))"
    if "genuine_change h e" "editor_ok env rebase h (ch_documentID e) (Some (t, st))"
      "ch_revision e = co_getSyncedVersion (re_ed env) st + 1" "cs_fromJSON (re_cs env) (ch_changes e) = Some changes"
      "ed_receive (re_ed env) \<lparr>up_changes = changes, up_clientID = ch_clientID e\<rparr> st = Some (st', b)" for e t st changes st' b
    using received_own [OF that(1) _ that(3,2,4,5)] received_foreign [OF that(1) _ that(3,2,4,5)] by blast
qed (rule created_ok edited_ok replaced_ok bridged_ok; assumption)+

context room_session
begin

lemma sync: "document_sync env h (editor_ok env rebase h)"
  by unfold_locales

end

section \<open>The server records updates\<close>

definition record_update :: "history \<Rightarrow> jsstring \<Rightarrow> int \<Rightarrow> jsstring \<Rightarrow> jsval \<Rightarrow> jsstring \<Rightarrow> history" where
  "record_update h i r client v t = h\<lparr>hs_text := (hs_text h)(i := (hs_text h i)(r \<mapsto> t)),
     hs_update := (hs_update h)(i := (hs_update h i)(r \<mapsto> (client, v)))\<rparr>"

text \<open>
  What the server may do between two steps of the browser: a document appears, or the next update of a
  document is recorded. An update under the client id of this browser is its first pending one, carried
  over what has been recorded since the version the editor has synchronised; a flush sends nothing else
  (\<open>Live_Room_Safety.flush_pushes_first_updates\<close>), the server maps what it is sent over the updates
  recorded since (\<open>submitDocument\<close> in \<open>internal/live/hub.go\<close>), and it records an operation once.
\<close>

inductive server_step :: "('st, 'cs, 'd) roomEnv \<Rightarrow> ('cs \<Rightarrow> 'cs \<Rightarrow> 'cs) \<Rightarrow> 'st room \<Rightarrow> history \<Rightarrow> history \<Rightarrow> bool"
  for env rebase s where
  document_appears: "(\<And>r. hs_text h i r = None) \<Longrightarrow> (\<And>r. hs_update h i r = None) \<Longrightarrow>
    server_step env rebase s h (h\<lparr>hs_text := (hs_text h)(i := [r \<mapsto> content])\<rparr>)"
| update_recorded: "hs_text h i r = Some t \<Longrightarrow> (\<And>k. r < k \<Longrightarrow> hs_text h i k = None \<and> hs_update h i k = None) \<Longrightarrow>
    cs_fromJSON (re_cs env) v = Some c \<Longrightarrow> cs_apply (re_cs env) c t = Some t' \<Longrightarrow>
    (client = re_clientID env \<Longrightarrow> i \<notin> hs_deleted h \<Longrightarrow> \<exists>st. map_get (ws_editors (rs_world s)) i = Some st
       \<and> own_confirmed env h i st \<and> first_pending env rebase h i st r c) \<Longrightarrow>
    server_step env rebase s h (record_update h i (r + 1) client v t')"

text \<open>The record only grows.\<close>

definition extends :: "history \<Rightarrow> history \<Rightarrow> bool" where
  "extends h h' \<longleftrightarrow> (\<forall>i r t. hs_text h i r = Some t \<longrightarrow> hs_text h' i r = Some t)
     \<and> (\<forall>i r u. hs_update h i r = Some u \<longrightarrow> hs_update h' i r = Some u)
     \<and> hs_alive h' = hs_alive h \<and> hs_deleted h' = hs_deleted h"

lemma server_step_extends: "server_step env rebase s h h' \<Longrightarrow> extends h h'"
  by (induction rule: server_step.induct) (auto simp: extends_def record_update_def)

lemma server_step_history_ok: "server_step env rebase s h h' \<Longrightarrow> history_ok (re_cs env) h \<Longrightarrow> history_ok (re_cs env) h'"
proof (induction rule: server_step.induct)
  case (document_appears h i r content)
  then show ?case by (auto simp: history_ok_def)
next
  case (update_recorded h i r t v c t' client)
  have "\<exists>t''. cs_apply (re_cs env) changes x = Some t'' \<and> hs_text (record_update h i (r + 1) client v t') j k = Some t''"
    if u: "hs_update (record_update h i (r + 1) client v t') j k = Some (cl, w)" "cs_fromJSON (re_cs env) w = Some changes"
      "hs_text (record_update h i (r + 1) client v t') j (k - 1) = Some x" for j k cl w changes x
  proof (cases "j = i \<and> k = r + 1")
    case True
    then show ?thesis using u update_recorded.hyps(1,3,4) by (simp add: record_update_def)
  next
    case False
    then have h: "hs_update h j k = Some (cl, w)" using u(1) by (auto simp: record_update_def split: if_splits)
    moreover have "\<not> (j = i \<and> k - 1 = r + 1)" using update_recorded.hyps(2) [of k] h by auto
    then have "hs_text h j (k - 1) = Some x" using u(3) by (auto simp: record_update_def split: if_splits)
    ultimately obtain t'' where "cs_apply (re_cs env) changes x = Some t''" "hs_text h j k = Some t''"
      using update_recorded.prems u(2) unfolding history_ok_def by blast
    then show ?thesis using False by (auto simp: record_update_def)
  qed
  then show ?case using update_recorded.prems by (simp add: history_ok_def) (simp add: record_update_def)
qed

lemma extends_event: "extends h h' \<Longrightarrow> genuine_event h e \<Longrightarrow> genuine_event h' e"
  by (cases e) (auto simp: extends_def genuine_event_def genuine_change_def genuine_document_def)

lemma extends_known: "extends h h' \<Longrightarrow> document_known h w d \<Longrightarrow> document_known h' w d"
  by (auto simp: extends_def document_known_def genuine_document_def)

text \<open>Updates that are recorded leave what is claimed of the editors true.\<close>

lemma document_appears_ok:
  assumes "\<And>r. hs_update h i r = None" "\<And>r. hs_text h i r = None" "editor_ok env rebase h j x"
  shows "editor_ok env rebase (h\<lparr>hs_text := (hs_text h)(i := [r \<mapsto> content])\<rparr>) j x"
proof -
  let ?h = "h\<lparr>hs_text := (hs_text h)(i := [r \<mapsto> content])\<rparr>"
  have same: "carried env rebase ?h k = carried env rebase h k" for k
    by (intro ext carried_cong) simp
  have "own_update client ?h = own_update client h" for client by (intro ext) (simp add: own_update_def)
  moreover have "hs_text ?h j k = Some t" if "hs_text h j k = Some t" for k t using that assms(2) by (cases "j = i") auto
  ultimately show ?thesis using assms(3)
    by (cases x) (auto simp: editor_ok_def own_confirmed_def own_awaited_def first_pending_def same simp del: fun_upd_apply)
qed

lemma update_recorded_ok:
  assumes latest: "\<And>k. r < k \<Longrightarrow> hs_update h i k = None"
    and v: "cs_fromJSON (re_cs env) v = Some c"
    and own: "client = re_clientID env \<Longrightarrow> j = i \<Longrightarrow>
      (\<exists>t st. x = Some (t, st) \<and> own_confirmed env h i st \<and> co_getSyncedVersion (re_ed env) st \<le> r \<and> first_pending env rebase h i st r c)"
    and fresh: "hs_text h i (r + 1) = None" and ok: "editor_ok env rebase h j x"
  shows "editor_ok env rebase (record_update h i (r + 1) client v t') j x"
proof -
  let ?h = "record_update h i (r + 1) client v t'"
  have own': "own_update (re_clientID env) ?h j k \<longleftrightarrow> own_update (re_clientID env) h j k
      \<or> j = i \<and> k = r + 1 \<and> client = re_clientID env" for k
    using latest [of "r + 1"] by (auto simp: own_update_def record_update_def)
  have texts: "hs_text ?h j k = Some t" if "hs_text h j k = Some t" for k t
    using that fresh by (auto simp: record_update_def)
  have old: "carried env rebase ?h j k m u = carried env rebase h j k m u" if "j = i \<Longrightarrow> m \<le> r" for k m u
    by (rule carried_cong) (use that in \<open>auto simp: record_update_def\<close>)
  have awaited: "own_awaited env rebase ?h j st k"
    if k: "own_awaited env rebase h j st k" and none: "\<not> (client = re_clientID env \<and> j = i)" for st k
  proof -
    obtain w d where w: "hs_update h j k = Some (re_clientID env, w)" "cs_fromJSON (re_cs env) w = Some d"
      "first_pending env rebase h j st (k - 1) d" "co_getSyncedVersion (re_ed env) st < k"
      using k by (auto simp: own_awaited_def)
    then have k': "j = i \<Longrightarrow> k \<le> r" using latest [of k] by fastforce
    then have "carried env rebase ?h j m (k - 1) u = carried env rebase h j m (k - 1) u" for m u by (intro old) simp
    then have "first_pending env rebase ?h j st (k - 1) d" using w(3) by (simp add: first_pending_def)
    moreover have "hs_update ?h j k = Some (re_clientID env, w)" using w(1) k' by (auto simp: record_update_def)
    ultimately show ?thesis using k w none own' by (auto simp: own_awaited_def)
  qed
  show ?thesis
  proof (cases x)
    case None
    then show ?thesis using ok own own' by (auto simp: editor_ok_def)
  next
    case (Some y)
    obtain t st where x: "x = Some (t, st)" using Some by (cases y) simp
    have "own_confirmed env ?h j st \<or> (\<exists>k. own_awaited env rebase ?h j st k)"
    proof (cases "client = re_clientID env \<and> j = i")
      case True
      then have p: "own_confirmed env h i st" "co_getSyncedVersion (re_ed env) st \<le> r" "first_pending env rebase h i st r c"
        using own x by auto
      have "first_pending env rebase ?h i st r c" using p(3) old True by (auto simp: first_pending_def)
      moreover have "hs_update ?h i (r + 1) = Some (re_clientID env, v)" using True by (simp add: record_update_def)
      ultimately have "own_awaited env rebase ?h i st (r + 1)"
        using p own' v True by (auto simp: own_awaited_def own_confirmed_def)
      then show ?thesis using True by blast
    next
      case False
      then have "own_confirmed env h j st \<Longrightarrow> own_confirmed env ?h j st" using own' by (auto simp: own_confirmed_def)
      moreover have "own_confirmed env h j st \<or> (\<exists>k. own_awaited env rebase h j st k)" using ok x by (simp add: editor_ok_def)
      ultimately show ?thesis using awaited False by blast
    qed
    then show ?thesis using ok x texts by (auto simp: editor_ok_def)
  qed
qed

text \<open>Hence a step of the server keeps the invariant of the room.\<close>

lemma server_step_editor_ok:
  assumes step: "server_step env rebase s h h'" and "i \<notin> hs_deleted h"
    and x: "map_get (ws_editors (rs_world s)) i = map_option snd x" and ok: "editor_ok env rebase h i x"
  shows "editor_ok env rebase h' i x"
  using step
proof cases
  case (document_appears j r content)
  then show ?thesis using document_appears_ok [OF _ _ ok] by simp
next
  case (update_recorded j r t v c t' client)
  show ?thesis unfolding update_recorded(1)
  proof (rule update_recorded_ok [OF _ update_recorded(4) _ _ ok])
    show "hs_update h j k = None" if "r < k" for k using update_recorded(3) [OF that] by simp
    show "hs_text h j (r + 1) = None" using update_recorded(3) by simp
    assume c: "client = re_clientID env" "i = j"
    then obtain st where st: "map_get (ws_editors (rs_world s)) j = Some st" "own_confirmed env h j st"
      "first_pending env rebase h j st r c" using update_recorded(6) assms(2) by auto
    then obtain y where y: "x = Some (y, st)" using x c by (cases x) auto
    then have "hs_text h j (co_getSyncedVersion (re_ed env) st) = Some y" using ok c by (simp add: editor_ok_def)
    then have "co_getSyncedVersion (re_ed env) st \<le> r"
      using update_recorded(3) [of "co_getSyncedVersion (re_ed env) st"] by fastforce
    with st y show "\<exists>t st. x = Some (t, st) \<and> own_confirmed env h j st \<and> co_getSyncedVersion (re_ed env) st \<le> r
        \<and> first_pending env rebase h j st r c" by blast
  qed
qed

lemma server_step_ok:
  assumes step: "server_step env rebase s h h'" and ok: "room_ok (editor_ok env rebase h) h s"
  shows "room_ok (editor_ok env rebase h') h' s"
proof -
  let ?w = "rs_world s"
  have ext: "extends h h'" by (rule server_step_extends [OF step])
  have inv: "shape_inv ?w" "\<And>i. editor_synced (editor_ok env rebase h) h ?w i"
      "\<forall>d\<in>set (ws_documents ?w) \<union> set (ws_shown ?w). document_known h ?w d"
    using ok by (auto simp: room_ok_def world_holds_def room_inv_def text_inv_def)
  have "editor_synced (editor_ok env rebase h') h' ?w i" for i
  proof (cases "map_get (ws_editors ?w) i")
    case None
    then show ?thesis using inv(2) [of i] server_step_editor_ok [OF step, of i None] ext
      by (simp add: editor_synced_def extends_def)
  next
    case (Some st)
    have "editor_ok env rebase h' i (Some (t, st))"
      if "i \<notin> hs_deleted h" "editor_ok env rebase h i (Some (t, st))" for t
      using server_step_editor_ok [OF step that(1) _ that(2)] Some by simp
    then show ?thesis using inv(2) [of i] Some ext unfolding editor_synced_def extends_def by fastforce
  qed
  then have "room_inv (editor_ok env rebase h') h' ?w"
    using inv(1,3) extends_known [OF ext] by (auto simp: room_inv_def text_inv_def)
  then show ?thesis using ok extends_event [OF ext] by (auto simp: room_ok_def world_holds_def)
qed

section \<open>Runs\<close>

text \<open>
  What a room and the server's record can become: a browser that has drawn a new client id mounts the
  room, and then steps of the room and of the server follow each other in any order.
\<close>

inductive room_reach :: "('st, 'cs, 'd) roomEnv \<Rightarrow> ('cs \<Rightarrow> 'cs \<Rightarrow> 'cs) \<Rightarrow> history \<Rightarrow> 'st room \<Rightarrow> bool" for env rebase where
  mounted: "history_ok (re_cs env) h \<Longrightarrow> (\<And>i r. \<not> own_update (re_clientID env) h i r) \<Longrightarrow>
    genuine_snapshot (re_clientID env) h room \<Longrightarrow>
    room_reach env rebase h (room_mount env now (workspace_new room online view loading))"
| stepped: "room_reach env rebase h s \<Longrightarrow> genuine_step env h s event \<Longrightarrow> room_reach env rebase h (room_step env event s)"
| recorded: "room_reach env rebase h s \<Longrightarrow> server_step env rebase s h h' \<Longrightarrow> room_reach env rebase h' s"

lemma workspace_new_inv:
  assumes snapshot: "genuine_snapshot client h room" and fresh: "\<And>i. P i None"
  shows "room_inv P h (workspace_new room online view loading)"
proof -
  have "distinct (map doc_id (normalizeLiveDocuments (ls_documents room)))"
    using snapshot by (simp add: genuine_snapshot_def normalizeLiveDocuments_def distinct_map)
  then have "shape_inv (workspace_new room online view loading :: 'a workspace)"
    by (cases "ls_documents room") (simp_all add: shape_inv_def workspace_new_def first_document_def normalizeLiveDocuments_def set_insort_key)
  moreover have "text_inv P h (workspace_new room online view loading)"
    using snapshot fresh by (simp add: text_inv_def editor_synced_def document_known_def workspace_new_def genuine_snapshot_def
        normalizeLiveDocuments_facts settled_document_def)
  ultimately show ?thesis by (simp add: room_inv_def)
qed

lemma room_mount_ok:
  assumes "genuine_snapshot client h room" "\<And>i. P i None"
  shows "room_ok P h (room_mount env now (workspace_new room online view loading))"
proof -
  let ?w = "workspace_new room online view loading"
  have "core (call_connection env f (?w\<lparr>ws_fatal := False, ws_recovering := False, ws_recovery := None\<rparr>)) = core ?w" for f
    by (simp add: frame)
  from room_inv_core [OF this, of P h] workspace_new_inv [OF assms(1), of P] assms(2) show ?thesis
    by (simp add: room_ok_def world_holds_def room_mount_def liveResync_new_def)
qed

lemma room_reach_ok:
  assumes laws: "editor_laws env rebase" and "room_reach env rebase h s"
  shows "history_ok (re_cs env) h \<and> room_ok (editor_ok env rebase h) h s"
  using assms(2)
proof induction
  case (mounted h room now online view loading)
  then have "editor_ok env rebase h i None" for i by (simp add: editor_ok_def)
  from room_mount_ok [OF mounted(3), of "editor_ok env rebase h", OF this] mounted(1) show ?case by blast
next
  case (stepped h s event)
  then have "room_session env rebase h" using laws by unfold_locales simp_all
  from document_sync.room_step_ok [OF room_session.sync [OF this]] stepped show ?case by blast
next
  case (recorded h s h')
  then show ?case using server_step_ok server_step_history_ok by blast
qed

section \<open>A concrete session\<close>

text \<open>
  The laws hold of the plain editor. The server has \<open>hi\<close> at revision 1; the user appends an
  exclamation mark, and the server records it.
\<close>

lemma plain_change_all:
  "edit_all (\<lambda>u. plain_change (up_changes u)) us st = Some st' \<Longrightarrow> \<forall>p\<in>set (pl_pending st). up_clientID p = pl_client st \<Longrightarrow>
    pl_client st' = pl_client st \<and> (\<forall>p\<in>set (pl_pending st'). up_clientID p = pl_client st)"
proof (induction us arbitrary: st)
  case (Cons u us)
  obtain st1 where st1: "plain_change (up_changes u) st = Some st1" "edit_all (\<lambda>u. plain_change (up_changes u)) us st1 = Some st'"
    using Cons.prems(1) by (cases "plain_change (up_changes u) st") simp_all
  have "pl_client st1 = pl_client st" "\<forall>p\<in>set (pl_pending st1). up_clientID p = pl_client st1"
    using st1(1) Cons.prems(2) by (auto simp: plain_change_def)
  with Cons.IH [OF st1(2)] show ?case by simp
qed simp

lemma plain_receive_cases:
  assumes "plain_receive u st = Some (st', b)"
  obtains d where "pl_pending st = []" "cs_apply livecollab (up_changes u) (pl_doc st) = Some d"
      "st' = st\<lparr>pl_doc := d, pl_version := pl_version st + 1\<rparr>"
    | p ps where "pl_pending st = p # ps" "up_clientID u = up_clientID p"
      "st' = st\<lparr>pl_pending := ps, pl_version := pl_version st + 1\<rparr>"
  using assms by (auto simp: plain_receive_def split: list.splits if_splits)

interpretation plain_texts: editor_texts pl_version "ed_make plain_editor" plain_receive plain_change pl_pending pl_doc
    "cs_apply livecollab" "\<lambda>c u. c"
proof
  show "up_clientID p = client"
    if "edit_all (\<lambda>u. plain_change (up_changes u)) us (ed_make plain_editor d client) = Some st" "p \<in> set (pl_pending st)"
    for us :: "changeSet liveUpdate list" and d client st p
    using plain_change_all [OF that(1)] that(2) by simp
  show "\<exists>u. pl_pending st' = pl_pending st @ [u] \<and> up_changes u = cs \<and> cs_apply livecollab cs (pl_doc st) = Some (pl_doc st')"
    if "plain_change cs st = Some st'" for cs st st'
    using that by (auto simp: plain_change_def)
  show "pl_version st' = pl_version st" if "plain_change cs st = Some st'" for cs st st'
    using that by (auto simp: plain_change_def)
  fix u :: "changeSet liveUpdate" and st st' b
  assume r: "plain_receive u st = Some (st', b)"
  show "pl_version st' = pl_version st + 1" by (rule plain_receive_cases [OF r]) simp_all
  show "pl_pending st' = ps \<and> pl_doc st' = pl_doc st" if "pl_pending st = p # ps" "up_clientID u = up_clientID p" for p ps
    by (rule plain_receive_cases [OF r]) (use that in simp_all)
  assume foreign: "\<forall>p\<in>set (pl_pending st). up_clientID p \<noteq> up_clientID u"
  show "map up_clientID (pl_pending st') = map up_clientID (pl_pending st)
      \<and> (\<forall>p ps. pl_pending st = p # ps \<longrightarrow> (\<exists>q qs. pl_pending st' = q # qs \<and> up_changes q = up_changes p))"
    by (rule plain_receive_cases [OF r]) (use foreign in simp_all)
  show "edit_all (\<lambda>u. cs_apply livecollab (up_changes u)) (pl_pending st') t' = Some (pl_doc st')"
    if "cs_apply livecollab (up_changes u) t = Some t'"
      "edit_all (\<lambda>u. cs_apply livecollab (up_changes u)) (pl_pending st) t = Some (pl_doc st)" for t t'
    by (rule plain_receive_cases [OF r]) (use foreign that in simp_all)
qed simp_all

lemma demo_laws: "editor_laws demo_env (\<lambda>c u. c)"
  using plain_texts.editor_texts_axioms livecollab.change_sets_axioms
  by (simp add: editor_laws_def demo_env_def plain_presence)

definition demo_history :: history where
  "demo_history = \<lparr>hs_text = (\<lambda>i r. if i = js ''d'' \<and> r = 1 then Some (js ''hi'') else None), hs_update = (\<lambda>i r. None),
     hs_alive = (\<lambda>i m. i = js ''d''), hs_deleted = {}\<rparr>"

lemma demo_history_ok: "history_ok livecollab demo_history"
  by (simp add: history_ok_def demo_history_def)

interpretation demo: room_session demo_env "\<lambda>c u. c" demo_history
  using demo_laws demo_history_ok by unfold_locales (simp_all add: demo_env_def)

definition demo_rendered :: "plainEditor room" where
  "demo_rendered = room_step demo_env (EditorRendered demo_document) demo_mounted"

definition demo_change :: changeSet where
  "demo_change = livecollab_of 2 2 (js ''!'') 2"

definition demo_state :: plainEditor where
  "demo_state = \<lparr>pl_doc = js ''hi!'', pl_version = 1, pl_client = js ''me'',
     pl_pending = [\<lparr>up_changes = demo_change, up_clientID = js ''me''\<rparr>], pl_selection = (0, 0)\<rparr>"

definition demo_typed :: "plainEditor room" where
  "demo_typed = room_step demo_env (EditorDispatched (js ''d'') demo_state False) demo_rendered"

lemma demo_reach_rendered: "room_reach demo_env (\<lambda>c u. c) demo_history demo_rendered"
  unfolding demo_rendered_def
proof (rule stepped)
  have "genuine_snapshot (js ''me'') demo_history demo_room"
    by (simp add: genuine_snapshot_def settled_document_def genuine_document_def own_update_def demo_room_def
        demo_history_def demo_document_def)
  moreover have "re_clientID demo_env = js ''me''" "re_cs demo_env = livecollab" by (simp_all add: demo_env_def)
  ultimately show "room_reach demo_env (\<lambda>c u. c) demo_history demo_mounted"
    unfolding demo_mounted_def using demo_history_ok
    by (intro mounted) (simp_all add: own_update_def demo_history_def)
  show "genuine_step demo_env demo_history demo_mounted (EditorRendered demo_document)"
    using demo_core by (simp add: genuine_step_def core_def)
qed

lemma demo_rendered_core:
  "core (rs_world demo_rendered) = ([demo_document], [demo_document], 1, js ''d'',
     [(js ''d'', \<lparr>pl_doc = js ''hi'', pl_version = 1, pl_client = js ''me'', pl_pending = [], pl_selection = (0, 0)\<rparr>)],
     [(js ''d'', js ''hi'')])"
  using demo_core
  by (simp add: demo_rendered_def on_world_def render_editor_def getEditorState_def core_def demo_document_def demo_env_def Let_def)

lemma demo_change_apply: "cs_apply livecollab demo_change (js ''hi'') = Some (js ''hi!'')"
  using livecollab_of_apply [of 2 2 "js ''hi''" "js ''!''"] by (simp add: demo_change_def livecollab_def js_def numeral_2_eq_2)

lemma demo_reach: "room_reach demo_env (\<lambda>c u. c) demo_history demo_typed"
  unfolding demo_typed_def
proof (rule stepped [OF demo_reach_rendered])
  have "local_edit demo_env \<lparr>pl_doc = js ''hi'', pl_version = 1, pl_client = js ''me'', pl_pending = [], pl_selection = (0, 0)\<rparr> demo_state"
    by (auto simp: local_edit_def shown_text_def demo_env_def demo_state_def demo_change_apply)
  then show "genuine_step demo_env demo_history demo_rendered (EditorDispatched (js ''d'') demo_state False)"
    using demo_rendered_core by (auto simp: genuine_step_def local_transaction_def core_def)
qed

lemma demo_typed_core:
  "core (rs_world demo_typed) = ([demo_document], [demo_document], 1, js ''d'', [(js ''d'', demo_state)], [(js ''d'', js ''hi'')])"
proof -
  have "has_document (rs_world demo_rendered) (js ''d'')"
    using demo_rendered_core by (simp add: core_def has_document_def demo_document_def)
  then have "core (rs_world demo_typed)
      = core ((rs_world demo_rendered)\<lparr>ws_editors := AList.update (js ''d'') demo_state (ws_editors (rs_world demo_rendered))\<rparr>)"
    by (simp add: demo_typed_def on_world_def view_dispatched_def frame Let_def)
  then show ?thesis using demo_rendered_core by (simp add: core_def)
qed

section \<open>Properties\<close>





end
