(* ===== verification/Drafts.thy ===== *)
theory Drafts
  imports Paste_API
begin

text \<open>
  Drafts of pastes and live rooms and their validation (\<open>web/src/create.ts\<close>, \<open>web/src/live.ts\<close>).
  An error map has at most one message per field.
\<close>

section \<open>Paste drafts\<close>

definition maxPasteBytes :: nat where "maxPasteBytes = 1048576"
definition maxTitleBytes :: nat where "maxTitleBytes = 200"
definition maxLanguageBytes :: nat where "maxLanguageBytes = 64"

datatype lifetime = Once | Hour1 | Hours24 | Hours72

record createDraft =
  dr_title :: jsstring
  dr_language :: jsstring
  dr_content :: jsstring
  dr_lifetime :: lifetime
  dr_encrypted :: bool

definition defaultCreateDraft :: createDraft where
  "defaultCreateDraft = \<lparr>dr_title = [], dr_language = js ''plaintext'', dr_content = [], dr_lifetime = Hours24,
     dr_encrypted = False\<rparr>"

record createValidation =
  cv_title :: "jsstring option"
  cv_language :: "jsstring option"
  cv_content :: "jsstring option"

definition utf8Bytes :: "jsstring \<Rightarrow> nat" where
  "utf8Bytes value = length (utf8_encode value)"

definition nat_str :: "nat \<Rightarrow> jsstring" where
  "nat_str n = js (digits_of n)"

definition validateDraft :: "createDraft \<Rightarrow> createValidation" where
  "validateDraft draft =
     \<lparr>cv_title = (if utf8Bytes (dr_title draft) > maxTitleBytes
        then Some (js ''Title must be at most '' @ nat_str maxTitleBytes @ js '' bytes.'') else None),
      cv_language = (if utf8Bytes (dr_language draft) > maxLanguageBytes
        then Some (js ''Language must be at most '' @ nat_str maxLanguageBytes @ js '' bytes.'') else None),
      cv_content = (if dr_content draft = [] then Some (js ''Paste content is required.'')
        else if utf8Bytes (dr_content draft) > maxPasteBytes
          then Some (js ''Paste content exceeds the 1 MiB limit.'') else None)\<rparr>"

definition lifetimeRequest :: "lifetime \<Rightarrow> pasteExpiry \<times> bool" where
  "lifetimeRequest l = (case l of
     Once \<Rightarrow> (ThreeDays, True) | Hour1 \<Rightarrow> (OneHour, False) | Hours24 \<Rightarrow> (OneDay, False) | Hours72 \<Rightarrow> (ThreeDays, False))"

section \<open>Live drafts\<close>

definition defaultLiveDocumentName :: jsstring where "defaultLiveDocumentName = js ''tab1''"
definition maxLiveDocumentNameBytes :: nat where "maxLiveDocumentNameBytes = 64"
definition maxLivePasswordBytes :: nat where "maxLivePasswordBytes = 256"
definition fallbackLiveRoomBytes :: nat where "fallbackLiveRoomBytes = 1048576"

record liveDraft =
  ld_name :: jsstring
  ld_language :: jsstring
  ld_content :: jsstring

record liveCreateValidation =
  lv_name :: "jsstring option"
  lv_password :: "jsstring option"
  lv_content :: "jsstring option"

definition blankLiveDraft :: liveDraft where
  "blankLiveDraft = \<lparr>ld_name = defaultLiveDocumentName, ld_language = js ''plaintext'', ld_content = []\<rparr>"

definition liveDraftFromCreateDraft :: "createDraft \<Rightarrow> liveDraft" where
  "liveDraftFromCreateDraft draft =
     \<lparr>ld_name = (if trim (dr_title draft) = [] then defaultLiveDocumentName else trim (dr_title draft)),
      ld_language = dr_language draft, ld_content = dr_content draft\<rparr>"

definition formatBytes :: "nat \<Rightarrow> jsstring" where
  "formatBytes bytes =
     (if bytes mod 1048576 = 0 then nat_str (bytes div 1048576) @ js '' MiB''
      else if bytes mod 1024 = 0 then nat_str (bytes div 1024) @ js '' KiB''
      else nat_str bytes @ js '' bytes'')"

text \<open>\<open>\p{Cc}\<close>: the control characters U+0000 to U+001F and U+007F to U+009F.\<close>

definition control_unit :: "16 word \<Rightarrow> bool" where
  "control_unit u \<longleftrightarrow> unat u \<le> 0x1F \<or> 0x7F \<le> unat u \<and> unat u \<le> 0x9F"

definition validateLiveDraft :: "liveDraft \<Rightarrow> bool \<Rightarrow> jsstring \<Rightarrow> nat \<Rightarrow> liveCreateValidation" where
  "validateLiveDraft draft requirePassword password maxRoomBytes =
     (let name = ld_name draft
      in \<lparr>lv_name = (if name = [] then Some (js ''Tab name cannot be empty'')
            else if trim name \<noteq> name then Some (js ''Tab name cannot start or end with whitespace.'')
            else if utf8Bytes name > maxLiveDocumentNameBytes
              then Some (js ''Tab name must be at most '' @ nat_str maxLiveDocumentNameBytes @ js '' bytes.'')
            else if list_ex control_unit name then Some (js ''Tab name cannot contain control characters.'')
            else None),
          lv_password = (if requirePassword then
              (if password = [] then Some (js ''Password is required.'')
               else if utf8Bytes password > maxLivePasswordBytes
                 then Some (js ''Password must be at most '' @ nat_str maxLivePasswordBytes @ js '' bytes.'')
               else None)
            else None),
          lv_content = (if utf8Bytes (ld_content draft) > maxRoomBytes
            then Some (js ''Live room content exceeds the '' @ formatBytes maxRoomBytes @ js '' limit.'') else None)\<rparr>)"

section \<open>Facts\<close>

lemma lifetime_burn_iff: "snd (lifetimeRequest l) \<longleftrightarrow> l = Once"
  by (cases l) (simp_all add: lifetimeRequest_def)

lemma blank_live_draft_valid:
  "lv_name (validateLiveDraft blankLiveDraft False [] fallbackLiveRoomBytes) = None"
  "lv_content (validateLiveDraft blankLiveDraft False [] fallbackLiveRoomBytes) = None"
proof -
  have units: "js ''tab1'' = [0x74, 0x61, 0x62, 0x31]" by (simp add: js_def)
  have "trim (js ''tab1'') = js ''tab1''"
    by (rule trim_id) (simp add: units is_whitespace_def)
  moreover have "utf8Bytes (js ''tab1'') \<le> 12"
    using length_utf8_encode_bounds [of "js ''tab1''"] by (simp add: utf8Bytes_def)
  moreover have "\<not> list_ex control_unit (js ''tab1'')"
    by (simp add: units control_unit_def)
  ultimately show "lv_name (validateLiveDraft blankLiveDraft False [] fallbackLiveRoomBytes) = None"
    by (simp add: validateLiveDraft_def blankLiveDraft_def defaultLiveDocumentName_def maxLiveDocumentNameBytes_def Let_def)
  show "lv_content (validateLiveDraft blankLiveDraft False [] fallbackLiveRoomBytes) = None"
    by (simp add: validateLiveDraft_def blankLiveDraft_def utf8Bytes_def utf8_encode_def Let_def)
qed

text \<open>
  A draft that passes validation makes a request within the limits: content of 1 to 1048576
  bytes, a title of at most 200 and a language of at most 64 bytes; and the paste is burnt after
  reading exactly when the draft says once.
\<close>
theorem valid_draft_within_limits:
  assumes "validateDraft d = \<lparr>cv_title = None, cv_language = None, cv_content = None\<rparr>"
  shows "1 \<le> utf8Bytes (dr_content d) \<and> utf8Bytes (dr_content d) \<le> 1048576 \<and> length (dr_content d) \<le> 1048576
    \<and> utf8Bytes (dr_title d) \<le> 200 \<and> utf8Bytes (dr_language d) \<le> 64
    \<and> (snd (lifetimeRequest (dr_lifetime d)) \<longleftrightarrow> dr_lifetime d = Once)"
proof -
  have "dr_content d \<noteq> []" "utf8Bytes (dr_content d) \<le> 1048576" "utf8Bytes (dr_title d) \<le> 200"
    "utf8Bytes (dr_language d) \<le> 64"
    using assms by (auto simp: validateDraft_def maxPasteBytes_def maxTitleBytes_def maxLanguageBytes_def split: if_splits)
  moreover have "length (dr_content d) \<le> utf8Bytes (dr_content d)"
    using length_utf8_encode_bounds [of "dr_content d"] by (simp add: utf8Bytes_def)
  moreover have "1 \<le> length (dr_content d)" using \<open>dr_content d \<noteq> []\<close> by (cases "dr_content d") auto
  ultimately show ?thesis by (simp add: lifetime_burn_iff)
qed

theorem valid_draft_within_limits_witness:
  "1 \<le> utf8Bytes (js ''x'') \<and> utf8Bytes (js ''x'') \<le> 1048576"
proof -
  have "validateDraft (defaultCreateDraft\<lparr>dr_content := js ''x''\<rparr>) = \<lparr>cv_title = None, cv_language = None, cv_content = None\<rparr>"
    using length_utf8_encode_bounds [of "js ''x''"] length_utf8_encode_bounds [of "js ''plaintext''"]
    by (simp add: validateDraft_def defaultCreateDraft_def utf8Bytes_def maxTitleBytes_def maxLanguageBytes_def
        maxPasteBytes_def) (simp add: utf8_encode_def)
  from valid_draft_within_limits [OF this] show ?thesis by (simp add: defaultCreateDraft_def)
qed

end
