(* ===== verification/Routing.thy ===== *)
theory Routing
  imports Browser_Storage
begin

text \<open>
  Routes, hosted pages, the theme preference and the search in a paste (\<open>web/src/router.ts\<close>,
  \<open>web/src/hosted.ts\<close>, \<open>web/src/theme.ts\<close>, \<open>web/src/search.ts\<close>). \<open>toLocaleLowerCase\<close> depends
  on the locale of the browser and is an argument of the search.
\<close>

section \<open>Hosted pages\<close>

datatype hostedPage = About | Privacy | Terms

definition hostedPagePaths :: "(jsstring \<times> hostedPage) list" where
  "hostedPagePaths = [(js ''/about'', About), (js ''/privacy'', Privacy), (js ''/terms'', Terms)]"

definition hostedPageFromPath :: "jsstring \<Rightarrow> hostedPage option" where
  "hostedPageFromPath pathname = map_get (map_new hostedPagePaths) pathname"

definition isHostedService :: "jsstring \<Rightarrow> jsstring option \<Rightarrow> bool" where
  "isHostedService hostname runtimeMarker \<longleftrightarrow>
     runtimeMarker = Some (js ''true'') \<or> hostname = js ''0xbin.app'' \<or> hostname = js ''www.0xbin.app''"

section \<open>Routes\<close>

datatype route =
    CreateRoute
  | PasteRoute jsstring
  | LiveCreateRoute
  | LiveRoomRoute jsstring
  | HostedRoute hostedPage

definition slugPattern :: "jsstring \<Rightarrow> bool" where
  "slugPattern s \<longleftrightarrow> 1 \<le> length s \<and> length s \<le> 128 \<and> list_all (\<lambda>u. 97 \<le> unat u \<and> unat u \<le> 122) s"

fun split_slash :: "jsstring \<Rightarrow> jsstring list" where
  "split_slash [] = [[]]"
| "split_slash (u # us) =
     (if u = 0x2F then [] # split_slash us
      else (case split_slash us of l # ls \<Rightarrow> (u # l) # ls | [] \<Rightarrow> [[u]]))"

definition path_segments :: "jsstring \<Rightarrow> jsstring list" where
  "path_segments pathname = filter (\<lambda>s. s \<noteq> []) (split_slash pathname)"

definition resolveRoute :: "jsstring \<Rightarrow> bool \<Rightarrow> bool \<Rightarrow> route" where
  "resolveRoute pathname hosted liveEnabled =
     (let segments = path_segments pathname
      in if segments = [] then CreateRoute
         else if hosted \<and> hostedPageFromPath pathname \<noteq> None then HostedRoute (the (hostedPageFromPath pathname))
         else if liveEnabled \<and> length segments = 1 \<and> segments ! 0 = js ''live'' then LiveCreateRoute
         else if liveEnabled \<and> length segments = 2 \<and> segments ! 0 = js ''live'' then
           LiveRoomRoute (if slugPattern (segments ! 1) then segments ! 1 else [])
         else if length segments = 1 \<and> slugPattern (segments ! 0) then PasteRoute (segments ! 0)
         else PasteRoute [])"

text \<open>None: the function throws.\<close>

definition pastePath :: "jsstring \<Rightarrow> jsstring option" where
  "pastePath slug = (if \<not> slugPattern slug then None else Some (js ''/'' @ slug))"

definition liveRoomPath :: "jsstring \<Rightarrow> jsstring option" where
  "liveRoomPath slug = (if \<not> slugPattern slug then None else Some (js ''/live/'' @ slug))"

section \<open>Theme\<close>

datatype theme = Light | Dark

definition theme_id :: "theme \<Rightarrow> jsstring" where
  "theme_id t = js (case t of Light \<Rightarrow> ''light'' | Dark \<Rightarrow> ''dark'')"

definition themeStorageKey :: jsstring where
  "themeStorageKey = js ''0xbin-theme''"

definition selectTheme :: "jsstring option \<Rightarrow> bool \<Rightarrow> theme" where
  "selectTheme storedTheme prefersDark =
     (if storedTheme = Some (js ''light'') then Light
      else if storedTheme = Some (js ''dark'') then Dark
      else if prefersDark then Dark else Light)"

text \<open>Both throw when the storage does; the caller handles it.\<close>

definition loadTheme :: "browserStorage \<Rightarrow> bool \<Rightarrow> (unit, theme) result" where
  "loadTheme st prefersDark =
     bind_result (getItem st themeStorageKey) (\<lambda>stored. Inr (selectTheme stored prefersDark))"

definition saveTheme :: "theme \<Rightarrow> browserStorage \<Rightarrow> (unit, browserStorage) result" where
  "saveTheme t st = setItem themeStorageKey (theme_id t) st"

lemma theme_round_trip:
  assumes "saveTheme t st = Inr st'" "bs_readable st"
  shows "loadTheme st' prefersDark = Inr t"
  using web_storage.get_set [OF assms(1) [unfolded saveTheme_def] assms(2)]
  by (cases t) (simp_all add: loadTheme_def selectTheme_def theme_id_def)

section \<open>Search\<close>

text \<open>
  The loop; each turn starts \<open>query.length\<close> later, so the length of the content bounds the turns.
  Fuel: one more than the content has units.
\<close>

fun search_loop :: "nat \<Rightarrow> jsstring \<Rightarrow> jsstring \<Rightarrow> nat \<Rightarrow> nat \<Rightarrow> (nat \<times> nat) list" where
  "search_loop 0 lowerContent lowerQuery n start = []"
| "search_loop (Suc fuel) lowerContent lowerQuery n start =
     (case index_of_from lowerContent lowerQuery start of
        None \<Rightarrow> []
      | Some i \<Rightarrow> (i, i + n) # search_loop fuel lowerContent lowerQuery n (i + n))"

definition findSearchMatches :: "(jsstring \<Rightarrow> jsstring) \<Rightarrow> jsstring \<Rightarrow> jsstring \<Rightarrow> (nat \<times> nat) list" where
  "findSearchMatches lower content query =
     (if query = [] then []
      else search_loop (length (lower content) + 2) (lower content) (lower query) (length query) 0)"

section \<open>Routes read back\<close>

lemma split_slash_plain: "\<forall>u \<in> set s. u \<noteq> 0x2F \<Longrightarrow> split_slash s = [s]"
  by (induction s) auto

lemma slug_no_slash: "slugPattern s \<Longrightarrow> \<forall>u \<in> set s. u \<noteq> 0x2F"
  by (auto simp: slugPattern_def list_all_iff)

lemma split_slash_word:
  "\<forall>u \<in> set a. u \<noteq> 0x2F \<Longrightarrow> split_slash (a @ 0x2F # b) = a # split_slash b"
  by (induction a) auto

lemma slug_nonempty: "slugPattern s \<Longrightarrow> s \<noteq> []"
  by (auto simp: slugPattern_def)

lemma segments_paste: "slugPattern s \<Longrightarrow> path_segments (js ''/'' @ s) = [s]"
  by (simp add: path_segments_def js_def split_slash_plain slug_no_slash slug_nonempty)

lemma segments_live: "slugPattern s \<Longrightarrow> path_segments (js ''/live/'' @ s) = [js ''live'', s]"
  using split_slash_word [of "js ''live''" s]
  by (simp add: path_segments_def js_def split_slash_plain slug_no_slash slug_nonempty)

lemma hosted_live: "hostedPageFromPath (js ''/live/'' @ s) = None"
  by (simp add: hostedPageFromPath_def map_get_map_new hostedPagePaths_def js_def)

lemma resolve_paste:
  assumes "slugPattern slug"
  shows "resolveRoute (js ''/'' @ slug) hosted live =
        (if hosted \<and> hostedPageFromPath (js ''/'' @ slug) \<noteq> None then HostedRoute (the (hostedPageFromPath (js ''/'' @ slug)))
         else if live \<and> slug = js ''live'' then LiveCreateRoute
         else PasteRoute slug)"
proof -
  define path where "path = js ''/'' @ slug"
  have "path_segments path = [slug]" unfolding path_def by (rule segments_paste [OF assms])
  then show ?thesis
    unfolding path_def [symmetric] using assms by (simp add: resolveRoute_def Let_def)
qed

text \<open>
  Links lead back to where they came from: the path of a live room resolves to that room, the
  path of a paste resolves to that paste unless it is the live page or, on the hosted service, a
  hosted page; and every slug that a path resolves to is empty or a valid slug.
\<close>
theorem route_round_trip:
  assumes "slugPattern slug"
  shows "map_option (\<lambda>p. resolveRoute p hosted True) (liveRoomPath slug) = Some (LiveRoomRoute slug)
    \<and> map_option (\<lambda>p. resolveRoute p hosted live) (pastePath slug) = Some
        (if hosted \<and> hostedPageFromPath (js ''/'' @ slug) \<noteq> None then HostedRoute (the (hostedPageFromPath (js ''/'' @ slug)))
         else if live \<and> slug = js ''live'' then LiveCreateRoute
         else PasteRoute slug)
    \<and> (resolveRoute path hosted live = PasteRoute s \<or> resolveRoute path hosted live = LiveRoomRoute s
         \<longrightarrow> s = [] \<or> slugPattern s)"
proof (intro conjI)
  show "map_option (\<lambda>p. resolveRoute p hosted True) (liveRoomPath slug) = Some (LiveRoomRoute slug)"
    using assms by (simp add: liveRoomPath_def resolveRoute_def segments_live hosted_live Let_def)
  show "map_option (\<lambda>p. resolveRoute p hosted live) (pastePath slug) = Some
        (if hosted \<and> hostedPageFromPath (js ''/'' @ slug) \<noteq> None then HostedRoute (the (hostedPageFromPath (js ''/'' @ slug)))
         else if live \<and> slug = js ''live'' then LiveCreateRoute
         else PasteRoute slug)"
    unfolding resolve_paste [OF assms, symmetric] using assms by (simp add: pastePath_def)
  show "resolveRoute path hosted live = PasteRoute s \<or> resolveRoute path hosted live = LiveRoomRoute s
         \<longrightarrow> s = [] \<or> slugPattern s"
    by (auto simp: resolveRoute_def Let_def split: if_splits)
qed

theorem route_round_trip_witness:
  "map_option (\<lambda>p. resolveRoute p True True) (liveRoomPath (js ''abc'')) = Some (LiveRoomRoute (js ''abc''))"
  using route_round_trip [of "js ''abc''" True] by (simp add: slugPattern_def js_def)

section \<open>Search finds what is there\<close>

lemma search_loop_spec:
  assumes "q \<noteq> []" "start \<le> length c" "length c - start < fuel"
  shows "(\<forall>(f, t) \<in> set (search_loop fuel c q (length q) start).
            start \<le> f \<and> t = f + length q \<and> t \<le> length c \<and> starts_with (drop f c) q)
    \<and> sorted_wrt (\<lambda>a b. snd a \<le> fst b) (search_loop fuel c q (length q) start)
    \<and> (\<forall>j. start \<le> j \<longrightarrow> j \<le> length c \<longrightarrow> starts_with (drop j c) q \<longrightarrow>
          (\<exists>(f, t) \<in> set (search_loop fuel c q (length q) start). f \<le> j \<and> j < t))"
  using assms(2,3)
proof (induction fuel arbitrary: start)
  case (Suc fuel)
  show ?case
  proof (cases "index_of_from c q start")
    case None
    then show ?thesis using index_of_from_NoneD [OF None] by auto
  next
    case (Some i)
    from index_of_from_SomeD [OF Some Suc.prems(1)]
    have i: "start \<le> i" "i + length q \<le> length c" "starts_with (drop i c) q"
      "\<And>j. start \<le> j \<Longrightarrow> j < i \<Longrightarrow> \<not> starts_with (drop j c) q" by auto
    have "0 < length q" using assms(1) by simp
    then have fuel: "length c - (i + length q) < fuel" using Suc.prems i by linarith
    note IH = Suc.IH [OF i(2) fuel]
    show ?thesis
    proof (intro conjI allI impI)
      show "\<forall>(f, t) \<in> set (search_loop (Suc fuel) c q (length q) start).
            start \<le> f \<and> t = f + length q \<and> t \<le> length c \<and> starts_with (drop f c) q"
        using IH i by (auto simp: Some)
      show "sorted_wrt (\<lambda>a b. snd a \<le> fst b) (search_loop (Suc fuel) c q (length q) start)"
        using IH by (auto simp: Some)
      fix j
      assume j: "start \<le> j" "j \<le> length c" "starts_with (drop j c) q"
      then have "i \<le> j" using i(4) by (meson not_le)
      then show "\<exists>(f, t) \<in> set (search_loop (Suc fuel) c q (length q) start). f \<le> j \<and> j < t"
        using IH j by (cases "j < i + length q") (auto simp: Some)
    qed
  qed
qed simp

lemma occurrence_inside: "q \<noteq> [] \<Longrightarrow> take (length q) (drop j c) = q \<Longrightarrow> j \<le> length c"
  by (cases "j \<le> length c") auto

text \<open>
  When lower-casing keeps lengths, the search is exact: every reported range lies inside the
  content and is an occurrence of the query up to case, ranges are in order and do not overlap, and
  every occurrence begins inside a reported range, so none is missed.
\<close>
theorem search_exact:
  assumes "query \<noteq> []" "length (lower content) = length content" "length (lower query) = length query"
  shows "(\<forall>(f, t) \<in> set (findSearchMatches lower content query).
            t = f + length query \<and> t \<le> length content \<and> take (length query) (drop f (lower content)) = lower query)
    \<and> sorted_wrt (\<lambda>a b. snd a \<le> fst b) (findSearchMatches lower content query)
    \<and> (\<forall>j. take (length query) (drop j (lower content)) = lower query \<longrightarrow>
          (\<exists>(f, t) \<in> set (findSearchMatches lower content query). f \<le> j \<and> j < t))"
proof -
  define c where "c = lower content"
  define q where "q = lower query"
  define fuel where "fuel = length c + 2"
  have q: "q \<noteq> []" and len: "length c = length content" "length q = length query"
    using assms by (auto simp: c_def q_def)
  have ms: "findSearchMatches lower content query = search_loop fuel c q (length q) 0"
    using assms(1,3) by (simp add: findSearchMatches_def fuel_def c_def q_def del: search_loop.simps)
  have "length c - 0 < fuel" by (simp add: fuel_def)
  note spec = search_loop_spec [OF q le0 this]
  show ?thesis
    unfolding ms c_def [symmetric] q_def [symmetric] len [symmetric]
    using spec occurrence_inside [OF q] unfolding starts_with_def by fast
qed

theorem search_exact_witness:
  "sorted_wrt (\<lambda>a b. snd a \<le> fst b) (findSearchMatches (\<lambda>s. s) (js ''abcabc'') (js ''bc''))"
  using search_exact [of "js ''bc''" "\<lambda>s. s" "js ''abcabc''"] by simp

end
