(* ===== verification/Markup.thy ===== *)
theory Markup
  imports Drafts
begin

text \<open>
  The markup a component renders: a JSX expression is a tree of elements with their attributes, their
  listeners and their children. A listener yields the event of the component that it stands for, from
  the value of a text field or of a check box where it reads one. What is computed of a page: its
  identifiers and references, the accessible names of its controls, and the events it offers, which
  are those of controls that are neither disabled nor hidden. The shared pieces of \<open>web/src/App.tsx\<close>
  (icons, \<open>ActionButton\<close>, \<open>CenteredState\<close>, \<open>LoadingAnnouncement\<close>) are at the end.
\<close>

section \<open>Trees\<close>

datatype attribute = Str jsstring | Flag bool | Num int

datatype 'e listener = Run 'e | WithText "jsstring \<Rightarrow> 'e" | WithFlag "bool \<Rightarrow> 'e"

text \<open>
  \<open>Mounted\<close> is the view CodeMirror puts into an element, with its accessible name, its document and the
  listeners of its keymap and of its changes, none in a read-only view.
\<close>

datatype 'e node =
    Txt jsstring
  | Element string "(string \<times> attribute) list" "(string \<times> 'e listener) list" "'e node list"
  | Mounted jsstring jsstring "(string \<times> 'e listener) list"

text \<open>\<open>cond ? markup : null\<close> and \<open>attribute={cond ? value : undefined}\<close>.\<close>

definition optional :: "bool \<Rightarrow> 'a list \<Rightarrow> 'a list" where
  "optional b xs = (if b then xs else [])"

lemma optional_simps [simp]: "optional True xs = xs" "optional False xs = []"
  by (simp_all add: optional_def)

lemma set_optional: "x \<in> set (optional b xs) \<longleftrightarrow> b \<and> x \<in> set xs"
  by (simp add: optional_def)

abbreviation attr :: "string \<Rightarrow> string \<Rightarrow> string \<times> attribute" where
  "attr name s \<equiv> (name, Str (js s))"

section \<open>Attributes\<close>

definition attribute_text :: "(string \<times> attribute) list \<Rightarrow> string \<Rightarrow> jsstring" where
  "attribute_text as name = (case map_of as name of Some (Str s) \<Rightarrow> s | _ \<Rightarrow> [])"

definition attribute_set :: "(string \<times> attribute) list \<Rightarrow> string \<Rightarrow> bool" where
  "attribute_set as name = (case map_of as name of Some (Flag b) \<Rightarrow> b | Some (Str s) \<Rightarrow> s = js ''true'' | _ \<Rightarrow> False)"

text \<open>Hidden from assistive technology, or from everybody.\<close>

definition concealed :: "(string \<times> attribute) list \<Rightarrow> bool" where
  "concealed as \<longleftrightarrow> attribute_set as ''aria-hidden'' \<or> attribute_set as ''hidden''"

section \<open>Identifiers and references\<close>

definition own_id :: "(string \<times> attribute) list \<Rightarrow> jsstring list" where
  "own_id as = (let i = attribute_text as ''id'' in if i = [] then [] else [i])"

text \<open>\<open>aria-controls\<close> may name an element that appears only when its control is expanded.\<close>

definition own_references :: "(string \<times> attribute) list \<Rightarrow> jsstring list" where
  "own_references as = filter (\<lambda>r. r \<noteq> [])
     (map (attribute_text as) [''htmlFor'', ''aria-labelledby'', ''aria-describedby'']
       @ (if map_of as ''aria-expanded'' = Some (Flag False) then [] else [attribute_text as ''aria-controls'']))"

fun ids :: "'e node \<Rightarrow> jsstring list" where
  "ids (Element t as ls ns) = own_id as @ concat (map ids ns)"
| "ids n = []"

fun references :: "'e node \<Rightarrow> jsstring list" where
  "references (Element t as ls ns) = own_references as @ concat (map references ns)"
| "references n = []"

section \<open>Accessible names\<close>

text \<open>What an element contributes to the name of the one around it.\<close>

fun spoken :: "'e node \<Rightarrow> jsstring" where
  "spoken (Txt s) = s"
| "spoken (Element t as ls ns) =
     (if concealed as then []
      else if attribute_text as ''aria-label'' \<noteq> [] then attribute_text as ''aria-label''
      else concat (map spoken ns))"
| "spoken (Mounted label doc ls) = label"

definition is_control :: "string \<Rightarrow> bool" where
  "is_control t \<longleftrightarrow> t \<in> {''button'', ''a'', ''summary'', ''input'', ''textarea''}"

definition is_field :: "string \<Rightarrow> bool" where
  "is_field t \<longleftrightarrow> t \<in> {''input'', ''textarea''}"

text \<open>
  A control has a name: a label of its own, its content, or for a field a label around it that says
  something or one that refers to it.
\<close>

fun named :: "jsstring set \<Rightarrow> bool \<Rightarrow> 'e node \<Rightarrow> bool" where
  "named labelled inside (Element t as ls ns) \<longleftrightarrow>
     (is_control t \<longrightarrow> attribute_text as ''aria-label'' \<noteq> []
       \<or> (if is_field t then inside \<or> own_id as \<noteq> [] \<and> set (own_id as) \<subseteq> labelled else concat (map spoken ns) \<noteq> []))
     \<and> (\<forall>n\<in>set ns. named labelled (inside \<or> t = ''label'' \<and> concat (map spoken ns) \<noteq> []) n)"
| "named labelled inside (Txt s) \<longleftrightarrow> True"
| "named labelled inside (Mounted label doc ls) \<longleftrightarrow> label \<noteq> []"

text \<open>What \<open>htmlFor\<close> refers to.\<close>

fun label_targets :: "'e node \<Rightarrow> jsstring list" where
  "label_targets (Element t as ls ns) =
     (if attribute_text as ''htmlFor'' \<noteq> [] \<and> concat (map spoken ns) \<noteq> [] then [attribute_text as ''htmlFor''] else [])
       @ concat (map label_targets ns)"
| "label_targets n = []"

text \<open>Nothing that is hidden from assistive technology can be operated.\<close>

fun hidden_inert :: "bool \<Rightarrow> 'e node \<Rightarrow> bool" where
  "hidden_inert quiet (Element t as ls ns) \<longleftrightarrow>
     (let quiet = (quiet \<or> attribute_set as ''aria-hidden'')
      in (quiet \<and> is_control t \<longrightarrow> attribute_set as ''disabled'') \<and> (\<forall>n\<in>set ns. hidden_inert quiet n))"
| "hidden_inert quiet (Mounted label doc ls) \<longleftrightarrow> \<not> quiet"
| "hidden_inert quiet (Txt s) \<longleftrightarrow> True"

definition accessible :: "'e node list \<Rightarrow> bool" where
  "accessible page \<longleftrightarrow> distinct (concat (map ids page))
     \<and> set (concat (map references page)) \<subseteq> set (concat (map ids page))
     \<and> (\<forall>n\<in>set page. named (set (concat (map label_targets page))) False n \<and> hidden_inert False n)"

section \<open>What a page offers and shows\<close>

text \<open>The button that submits a form when Enter is pressed in it; a disabled one prevents that.\<close>

fun submit_buttons :: "'e node \<Rightarrow> bool list" where
  "submit_buttons (Element t as ls ns) =
     (if t = ''button'' \<and> attribute_text as ''type'' = js ''submit'' then [\<not> attribute_set as ''disabled''] else [])
       @ concat (map submit_buttons ns)"
| "submit_buttons n = []"

text \<open>
  The listeners that can run, each with the name of its event. Those of a disabled or hidden element
  cannot.
\<close>

fun listeners :: "'e node \<Rightarrow> (string \<times> 'e listener) list" where
  "listeners (Element t as ls ns) =
     (if attribute_set as ''hidden'' then []
      else
        (if attribute_set as ''disabled'' then []
         else if t = ''form'' \<and> (case concat (map submit_buttons ns) of [] \<Rightarrow> False | b # bs \<Rightarrow> \<not> b)
           then filter (\<lambda>l. fst l \<noteq> ''onSubmit'') ls
         else ls)
        @ concat (map listeners ns))"
| "listeners (Mounted label doc ls) = ls"
| "listeners (Txt s) = []"

definition yields :: "'e listener \<Rightarrow> 'e \<Rightarrow> bool" where
  "yields l e \<longleftrightarrow> (case l of Run e' \<Rightarrow> e = e' | WithText f \<Rightarrow> e \<in> range f | WithFlag f \<Rightarrow> e \<in> range f)"

definition offers :: "'e node list \<Rightarrow> 'e \<Rightarrow> bool" where
  "offers page e \<longleftrightarrow> (\<exists>l\<in>set (concat (map listeners page)). yields (snd l) e)"

text \<open>The documents of the editors in a page.\<close>

fun shown_documents :: "'e node \<Rightarrow> jsstring list" where
  "shown_documents (Element t as ls ns) =
     (if attribute_set as ''hidden'' then [] else concat (map shown_documents ns))"
| "shown_documents (Mounted label doc ls) = [doc]"
| "shown_documents (Txt s) = []"

text \<open>The main landmarks a reader can reach.\<close>

fun landmarks :: "'e node \<Rightarrow> nat" where
  "landmarks (Element t as ls ns) =
     (if attribute_set as ''hidden'' then 0 else (if t = ''main'' then 1 else 0) + sum_list (map landmarks ns))"
| "landmarks n = 0"

text \<open>A component's markup in the markup of the one around it, whose events include those of the part.\<close>

definition map_listener :: "('a \<Rightarrow> 'b) \<Rightarrow> 'a listener \<Rightarrow> 'b listener" where
  "map_listener f l = (case l of Run e \<Rightarrow> Run (f e) | WithText g \<Rightarrow> WithText (f \<circ> g) | WithFlag g \<Rightarrow> WithFlag (f \<circ> g))"

fun embed :: "('a \<Rightarrow> 'b) \<Rightarrow> 'a node \<Rightarrow> 'b node" where
  "embed f (Element t as ls ns) = Element t as (map (\<lambda>(name, l). (name, map_listener f l)) ls) (map (embed f) ns)"
| "embed f (Txt s) = Txt s"
| "embed f (Mounted label doc ls) = Mounted label doc (map (\<lambda>(name, l). (name, map_listener f l)) ls)"

lemma yields_simps [simp]:
  "yields (Run e') e \<longleftrightarrow> e = e'" "yields (WithText f) e \<longleftrightarrow> e \<in> range f" "yields (WithFlag g) e \<longleftrightarrow> e \<in> range g"
  by (simp_all add: yields_def)

lemma offers_Nil [simp]: "\<not> offers [] e"
  by (simp add: offers_def)

lemma offers_Cons: "offers (n # ns) e \<longleftrightarrow> (\<exists>l\<in>set (listeners n). yields (snd l) e) \<or> offers ns e"
  by (auto simp: offers_def)

lemma offers_single: "offers [n] e \<longleftrightarrow> (\<exists>l\<in>set (listeners n). yields (snd l) e)"
  by (simp add: offers_def)

lemma offers_append: "offers (ns @ ms) e \<longleftrightarrow> offers ns e \<or> offers ms e"
  by (auto simp: offers_def)

lemma offers_container: "\<not> attribute_set as ''hidden'' \<Longrightarrow> offers [Element t as [] ns] e \<longleftrightarrow> offers ns e"
  by (simp add: offers_def)

lemma offers_optional: "offers (optional b ns) e \<longleftrightarrow> b \<and> offers ns e"
  by (cases b) simp_all

named_theorems markup \<open>definitions of markup, unfolded to compute what a page holds\<close>

lemma embed_facts [simp]:
  "ids (embed f n) = ids n" "references (embed f n) = references n" "spoken (embed f n) = spoken n"
  "label_targets (embed f n) = label_targets n" "submit_buttons (embed f n) = submit_buttons n"
  "landmarks (embed f n) = landmarks n" "shown_documents (embed f n) = shown_documents n"
  "named L b (embed f n) = named L b n" "hidden_inert q (embed f n) = hidden_inert q n"
proof -
  have map_eq: "map (g \<circ> h) ns = map k ns" if "\<And>n. n \<in> set ns \<Longrightarrow> g (h n) = k n" for g h k and ns :: "'x list"
    using that by simp
  show "ids (embed f n) = ids n" by (induction n) (simp_all add: comp_def cong: map_cong)
  show "references (embed f n) = references n" by (induction n) (simp_all add: comp_def cong: map_cong)
  show spoken: "spoken (embed f n) = spoken n" for n by (induction n) (simp_all add: comp_def cong: map_cong)
  show "label_targets (embed f n) = label_targets n"
    by (induction n) (simp_all add: comp_def spoken cong: map_cong)
  show "submit_buttons (embed f n) = submit_buttons n" by (induction n) (simp_all add: comp_def cong: map_cong)
  show "landmarks (embed f n) = landmarks n" by (induction n) (simp_all add: comp_def cong: map_cong)
  show "shown_documents (embed f n) = shown_documents n" by (induction n) (simp_all add: comp_def cong: map_cong)
  show "named L b (embed f n) = named L b n" by (induction n arbitrary: b) (simp_all add: comp_def spoken)
  show "hidden_inert q (embed f n) = hidden_inert q n" by (induction n arbitrary: q) (simp_all add: Let_def)
qed

lemma yields_map_listener: "yields (map_listener f l) e \<longleftrightarrow> (\<exists>e'. yields l e' \<and> e = f e')"
  by (cases l) (auto simp: map_listener_def)

lemma listeners_embed: "listeners (embed f n) = map (\<lambda>(name, l). (name, map_listener f l)) (listeners n)"
proof (induction n)
  case (Element t as ls ns)
  have "concat (map (listeners \<circ> embed f) ns) = map (\<lambda>(name, l). (name, map_listener f l)) (concat (map listeners ns))"
    using Element by (induction ns) simp_all
  then show ?case by (auto simp: filter_map comp_def case_prod_unfold split: list.split)
qed simp_all

lemma offers_embed: "offers (map (embed f) ns) e \<longleftrightarrow> (\<exists>e'. offers ns e' \<and> e = f e')"
  by (force simp: offers_def listeners_embed yields_map_listener)

section \<open>Icons\<close>

definition svg :: "string \<Rightarrow> 'e node list \<Rightarrow> 'e node" where
  "svg box shapes = Element ''svg'' [attr ''viewBox'' box, attr ''aria-hidden'' ''true''] [] shapes"

definition shape :: "string \<Rightarrow> (string \<times> attribute) list \<Rightarrow> 'e node" where
  "shape t as = Element t as [] []"

text \<open>Markup that only says something: no control, no identifier, no reference and no landmark.\<close>

definition plain_attribute :: "string \<Rightarrow> bool" where
  "plain_attribute a \<longleftrightarrow> a \<notin> {''id'', ''htmlFor'', ''aria-labelledby'', ''aria-describedby'', ''aria-controls'', ''hidden''}"

definition plain_tag :: "string \<Rightarrow> bool" where
  "plain_tag t \<longleftrightarrow> \<not> is_control t \<and> t \<noteq> ''main''"

fun inert :: "'e node \<Rightarrow> bool" where
  "inert (Txt s) \<longleftrightarrow> True"
| "inert (Element t as ls ns) \<longleftrightarrow> plain_tag t \<and> list_all plain_attribute (map fst as) \<and> ls = [] \<and> list_all inert ns"
| "inert (Mounted label doc ls) \<longleftrightarrow> False"

lemma plain_lookup: "list_all plain_attribute (map fst as) \<Longrightarrow> \<not> plain_attribute a \<Longrightarrow> map_of as a = None"
  by (induction as) auto

lemma plain_attributes:
  assumes "list_all plain_attribute (map fst as)"
  shows "own_id as = []" "own_references as = []" "attribute_text as ''htmlFor'' = []" "\<not> attribute_set as ''hidden''"
  using plain_lookup [OF assms]
  by (simp_all add: own_id_def own_references_def attribute_text_def attribute_set_def plain_attribute_def)

lemma inertD [simp]:
  assumes "inert n"
  shows "ids n = []" "references n = []" "label_targets n = []" "submit_buttons n = []" "listeners n = []"
    "shown_documents n = []" "landmarks n = 0" "named L b n" "hidden_inert q n"
proof -
  have tag: "t \<noteq> ''button''" "t \<noteq> ''main''" "\<not> is_control t" if "plain_tag t" for t
    using that by (auto simp: plain_tag_def is_control_def)
  have nil: "concat (map g ns) = []" if "\<And>n. n \<in> set ns \<Longrightarrow> g n = []" for g :: "'a node \<Rightarrow> 'b list" and ns
    using that by simp
  have zero: "sum_list (map g ns) = 0" if "\<And>n. n \<in> set ns \<Longrightarrow> g n = 0" for g :: "'a node \<Rightarrow> nat" and ns
    using that by (induction ns) simp_all
  show "ids n = []" using assms by (induction n) (simp_all add: plain_attributes list_all_iff nil)
  show "references n = []" using assms by (induction n) (simp_all add: plain_attributes list_all_iff nil)
  show "label_targets n = []" using assms by (induction n) (simp_all add: plain_attributes list_all_iff nil)
  show "submit_buttons n = []" using assms by (induction n) (simp_all add: tag list_all_iff nil)
  show "listeners n = []" using assms by (induction n) (simp_all add: list_all_iff nil)
  show "shown_documents n = []" using assms by (induction n) (simp_all add: list_all_iff nil)
  show "landmarks n = 0" using assms
    by (induction n) (simp_all add: tag list_all_iff zero)
  show "named L b n" using assms by (induction n arbitrary: b) (simp_all add: tag list_all_iff)
  show "hidden_inert q n" using assms by (induction n arbitrary: q) (simp_all add: tag list_all_iff Let_def)
qed

lemma plain_names [simp]:
  "plain_attribute ''className''" "plain_attribute ''role''" "plain_attribute ''aria-label''" "plain_attribute ''aria-hidden''"
  "plain_attribute ''aria-live''" "plain_attribute ''title''" "plain_attribute ''viewBox''" "plain_attribute ''style''"
  "plain_tag ''span''" "plain_tag ''div''" "plain_tag ''p''" "plain_tag ''h1''" "plain_tag ''svg''" "plain_tag ''path''"
  "plain_tag ''rect''" "plain_tag ''circle''"
  by (simp_all add: plain_attribute_def plain_tag_def is_control_def)

definition LogoIcon :: "'e node" where
  "LogoIcon = svg ''0 0 32 32'' [shape ''path'' [attr ''d'' ''M7 8h18M12 8V5.5h8V8M9.5 8l1.2 17.5h10.6L22.5 8M13.5 13l5 7M18.5 13l-5 7'']]"

definition SunIcon :: "'e node" where
  "SunIcon = svg ''0 0 24 24'' [shape ''circle'' [attr ''cx'' ''12'', attr ''cy'' ''12'', attr ''r'' ''3.5''],
     shape ''path'' [attr ''d'' ''M12 2v2M12 20v2M2 12h2M20 12h2M4.9 4.9l1.4 1.4M17.7 17.7l1.4 1.4M19.1 4.9l-1.4 1.4M6.3 17.7l-1.4 1.4'']]"

definition MoonIcon :: "'e node" where
  "MoonIcon = svg ''0 0 24 24'' [shape ''path'' [attr ''d'' ''M20 15.1A8.4 8.4 0 0 1 8.9 4a8.5 8.5 0 1 0 11.1 11.1Z'']]"

definition LockIcon :: "'e node" where
  "LockIcon = svg ''0 0 20 20'' [shape ''rect'' [attr ''x'' ''4'', attr ''y'' ''8'', attr ''width'' ''12'', attr ''height'' ''9'', attr ''rx'' ''2''],
     shape ''path'' [attr ''d'' ''M7 8V6a3 3 0 0 1 6 0v2'']]"

definition ArrowIcon :: "'e node" where
  "ArrowIcon = svg ''0 0 20 20'' [shape ''path'' [attr ''d'' ''M3 10h13M11 5l5 5-5 5'']]"

definition SearchIcon :: "'e node" where
  "SearchIcon = svg ''0 0 20 20'' [shape ''circle'' [attr ''cx'' ''8.5'', attr ''cy'' ''8.5'', attr ''r'' ''5.5''],
     shape ''path'' [attr ''d'' ''m13 13 4 4'']]"

definition PreviousIcon :: "'e node" where
  "PreviousIcon = svg ''0 0 20 20'' [shape ''path'' [attr ''d'' ''m13 5-5 5 5 5'']]"

definition NextIcon :: "'e node" where
  "NextIcon = svg ''0 0 20 20'' [shape ''path'' [attr ''d'' ''m7 5 5 5-5 5'']]"

definition CopyIcon :: "'e node" where
  "CopyIcon = svg ''0 0 20 20'' [shape ''rect'' [attr ''x'' ''6'', attr ''y'' ''6'', attr ''width'' ''10'', attr ''height'' ''10'', attr ''rx'' ''1.5''],
     shape ''path'' [attr ''d'' ''M14 6V4.5A1.5 1.5 0 0 0 12.5 3h-8A1.5 1.5 0 0 0 3 4.5v8A1.5 1.5 0 0 0 4.5 14H6'']]"

definition RawIcon :: "'e node" where
  "RawIcon = svg ''0 0 20 20'' [shape ''path'' [attr ''d'' ''m7 5-4 5 4 5M13 5l4 5-4 5'']]"

definition DownloadIcon :: "'e node" where
  "DownloadIcon = svg ''0 0 20 20'' [shape ''path'' [attr ''d'' ''M10 3v10M6 9l4 4 4-4M3 17h14'']]"

definition PlusIcon :: "'e node" where
  "PlusIcon = svg ''0 0 20 20'' [shape ''path'' [attr ''d'' ''M10 3v14M3 10h14'']]"

lemma shape_names [simp]:
  "plain_attribute ''d''" "plain_attribute ''x''" "plain_attribute ''y''" "plain_attribute ''rx''" "plain_attribute ''cx''"
  "plain_attribute ''cy''" "plain_attribute ''r''" "plain_attribute ''width''" "plain_attribute ''height''"
  by (simp_all add: plain_attribute_def)

lemmas icon_defs = LogoIcon_def SunIcon_def MoonIcon_def LockIcon_def ArrowIcon_def SearchIcon_def PreviousIcon_def NextIcon_def CopyIcon_def RawIcon_def DownloadIcon_def PlusIcon_def

lemma icons_inert [simp]:
  "inert LogoIcon" "inert SunIcon" "inert MoonIcon" "inert LockIcon"
  "inert ArrowIcon" "inert SearchIcon" "inert PreviousIcon" "inert NextIcon"
  "inert CopyIcon" "inert RawIcon" "inert DownloadIcon" "inert PlusIcon"
  by (simp_all add: icon_defs svg_def shape_def)

lemma svg_unspoken: "spoken (svg box shapes) = []"
  by (simp add: svg_def concealed_def attribute_set_def)

lemma icons_unspoken [simp]:
  "spoken LogoIcon = []" "spoken SunIcon = []" "spoken MoonIcon = []" "spoken LockIcon = []"
  "spoken ArrowIcon = []" "spoken SearchIcon = []" "spoken PreviousIcon = []" "spoken NextIcon = []"
  "spoken CopyIcon = []" "spoken RawIcon = []" "spoken DownloadIcon = []" "spoken PlusIcon = []"
  by (simp_all add: icon_defs svg_unspoken)

lemmas markup_attributes = own_id_def own_references_def attribute_text_def attribute_set_def concealed_def

section \<open>Pages made of parts\<close>

text \<open>Markup that needs nothing of the rest of the page.\<close>

definition self_contained :: "'e node \<Rightarrow> bool" where
  "self_contained n \<longleftrightarrow> ids n = [] \<and> references n = [] \<and> label_targets n = [] \<and> (\<forall>L b. named L b n) \<and> hidden_inert False n"

lemma accessible_around:
  assumes "accessible page" "\<And>n. n \<in> set before \<union> set after \<Longrightarrow> self_contained n"
  shows "accessible (before @ page @ after)"
proof -
  have none: "concat (map ids ns) = []" "concat (map references ns) = []" "concat (map label_targets ns) = []"
    if "\<And>n. n \<in> set ns \<Longrightarrow> self_contained n" for ns :: "'a node list"
    using that by (simp_all add: self_contained_def)
  have "concat (map ids (before @ page @ after)) = concat (map ids page)"
    "concat (map references (before @ page @ after)) = concat (map references page)"
    "concat (map label_targets (before @ page @ after)) = concat (map label_targets page)"
    using none [of before] none [of "after"] assms(2) by (simp_all only: map_append concat_append append_Nil append_Nil2 Un_iff simp_thms)
  moreover have "named L False n \<and> hidden_inert False n" if "n \<in> set before \<union> set after" for L n
    using assms(2) [OF that] by (simp add: self_contained_def)
  ultimately show ?thesis using assms(1) unfolding accessible_def by auto
qed

lemma accessible_wrapped: "accessible ns \<Longrightarrow> accessible [Element ''div'' [attr ''className'' c] [] ns]"
  by (simp add: accessible_def markup_attributes is_control_def)

lemma accessible_embed: "accessible (map (embed f) ns) \<longleftrightarrow> accessible ns"
  by (simp add: accessible_def comp_def)

section \<open>Shared pieces\<close>

definition ActionButton :: "jsstring \<Rightarrow> bool \<Rightarrow> 'e \<Rightarrow> 'e node list \<Rightarrow> 'e node" where
  "ActionButton label disabled onClick children =
     Element ''button''
       [attr ''className'' ''action-button'', attr ''type'' ''button'', (''disabled'', Flag disabled),
        (''aria-label'', Str label), (''title'', Str label)]
       [(''onClick'', Run onClick)] children"

definition CenteredState :: "jsstring \<Rightarrow> jsstring option \<Rightarrow> 'e node list \<Rightarrow> bool \<Rightarrow> 'e node" where
  "CenteredState label detail action accentLabel =
     Element ''main'' [attr ''className'' ''centered-state''] []
       (Element ''h1'' (optional accentLabel [attr ''className'' ''accent-label'']) [] [Txt label]
        # (case detail of None \<Rightarrow> [] | Some d \<Rightarrow> optional (d \<noteq> []) [Element ''p'' [] [] [Txt d]])
        @ action)"

definition LoadingAnnouncement :: "jsstring \<Rightarrow> 'e node" where
  "LoadingAnnouncement label =
     Element ''main'' [attr ''className'' ''sr-only'', attr ''role'' ''status'', attr ''aria-live'' ''polite''] [] [Txt label]"

end
