(* ===== verification/Pending_Tasks.thy ===== *)
theory Pending_Tasks
  imports Prelude
begin

text \<open>
  Promises a component waits for, as a list of tasks under the numbers they were started with. An effect
  of a component gives its tasks the number of its abort controller; a continuation that finds another
  controller in place returns at once. \<open>controller t\<close> is the controller a task looks at, if any.
\<close>

type_synonym 't tasks = "(nat \<times> 't) list"

definition without_task :: "nat \<Rightarrow> 't tasks \<Rightarrow> 't tasks" where
  "without_task i ts = filter (\<lambda>(j, t). j \<noteq> i) ts"

definition stale_in :: "('t \<Rightarrow> nat option) \<Rightarrow> nat option \<Rightarrow> 't \<Rightarrow> bool" where
  "stale_in controller current t \<longleftrightarrow> controller t \<noteq> None \<and> controller t \<noteq> current"

text \<open>The pending tasks of a kind, and those that are not stale.\<close>

definition pending_in :: "('t \<Rightarrow> bool) \<Rightarrow> 't tasks \<Rightarrow> 't list" where
  "pending_in P ts = filter P (map snd ts)"

abbreviation fresh_in :: "('t \<Rightarrow> nat option) \<Rightarrow> nat option \<Rightarrow> 't tasks \<Rightarrow> 't list" where
  "fresh_in controller current \<equiv> pending_in (\<lambda>t. \<not> stale_in controller current t)"

text \<open>
  Identifiers of their own below the next one, and controllers below the next controller. A task without
  a controller is \<open>in flight\<close> whatever happens to the component.
\<close>

definition tasks_ok :: "('t \<Rightarrow> nat option) \<Rightarrow> nat \<Rightarrow> nat \<Rightarrow> 't tasks \<Rightarrow> bool" where
  "tasks_ok controller nextTask nextController ts \<longleftrightarrow> distinct (map fst ts) \<and> (\<forall>(i, t)\<in>set ts. i < nextTask)
     \<and> (\<forall>(i, t)\<in>set ts. \<forall>c. controller t = Some c \<longrightarrow> c < nextController)"

definition uncontrolled :: "('t \<Rightarrow> nat option) \<Rightarrow> 't tasks \<Rightarrow> bool" where
  "uncontrolled controller ts \<longleftrightarrow> list_ex (\<lambda>(i, t). controller t = None) ts"

lemma without_absent: "i \<notin> fst ` set ts \<Longrightarrow> without_task i ts = ts"
  by (induction ts) (auto simp: without_task_def)

lemma without_append [simp]: "without_task i (ts @ us) = without_task i ts @ without_task i us"
  by (simp add: without_task_def)

lemma without_simps [simp]:
  "without_task i [] = []" "without_task i ((j, t) # ts) = (if j = i then without_task i ts else (j, t) # without_task i ts)"
  by (simp_all add: without_task_def)

lemma set_without: "set (without_task i ts) \<subseteq> set ts"
  by (auto simp: without_task_def)

lemma pending_in_simps [simp]:
  "pending_in P [] = []" "pending_in P (ts @ us) = pending_in P ts @ pending_in P us"
  "pending_in P ((i, t) # ts) = (if P t then [t] else []) @ pending_in P ts"
  by (simp_all add: pending_in_def)

lemma in_pending: "t \<in> set (pending_in P ts) \<longleftrightarrow> (\<exists>i. (i, t) \<in> set ts) \<and> P t"
  by (force simp: pending_in_def)

lemma end_other:
  "distinct (map fst ts) \<Longrightarrow> map_of ts i = Some t \<Longrightarrow> \<not> P t \<Longrightarrow> pending_in P (without_task i ts) = pending_in P ts"
proof (induction ts)
  case (Cons x ts)
  then show ?case by (cases x, cases "fst x = i") (simp_all add: without_absent)
qed simp

lemma end_only:
  "distinct (map fst ts) \<Longrightarrow> map_of ts i = Some t \<Longrightarrow> P t
    \<Longrightarrow> pending_in P ts = [u] \<Longrightarrow> u = t \<and> pending_in P (without_task i ts) = []"
proof (induction ts)
  case (Cons x ts)
  obtain j s where x: "x = (j, s)" by (cases x)
  show ?case
  proof (cases "j = i")
    case True
    with Cons.prems have "without_task i ts = ts" by (intro without_absent) (auto simp: x)
    with True Cons.prems show ?thesis by (auto simp: x)
  next
    case False
    with Cons.prems(2) have "(i, t) \<in> set ts" by (auto simp: x dest: map_of_SomeD)
    with Cons.prems(3) have "pending_in P ts \<noteq> []"
      by (metis empty_iff empty_set in_pending)
    with False Cons show ?thesis by (auto simp: x split: if_splits)
  qed
qed simp

lemma all_stale:
  assumes "tasks_ok controller nextTask nextController ts" "\<not> uncontrolled controller ts"
    "current = None \<or> current = Some nextController"
  shows "fresh_in controller current ts = []"
  using assms by (fastforce simp: pending_in_def filter_empty_conv stale_in_def uncontrolled_def list_ex_iff tasks_ok_def)

lemma tasks_ok_Nil [simp]: "tasks_ok controller n c []"
  by (simp add: tasks_ok_def)

lemma tasks_ok_without: "tasks_ok controller n c ts \<Longrightarrow> tasks_ok controller n c (without_task i ts)"
  by (auto simp: tasks_ok_def without_task_def distinct_map_filter)

lemma tasks_ok_start:
  "tasks_ok controller n c ts \<Longrightarrow> (\<And>k. controller t = Some k \<Longrightarrow> k < c) \<Longrightarrow> tasks_ok controller (Suc n) c (ts @ [(n, t)])"
  by (force simp: tasks_ok_def)

lemma tasks_ok_more: "tasks_ok controller n c ts \<Longrightarrow> c \<le> c' \<Longrightarrow> tasks_ok controller n c' ts"
  by (fastforce simp: tasks_ok_def)

lemma tasks_ok_pending:
  "tasks_ok controller n c ts \<Longrightarrow> map_of ts i = Some t \<Longrightarrow> controller t = Some k \<Longrightarrow> k < c"
  by (auto simp: tasks_ok_def dest!: map_of_SomeD)

lemma tasks_ok_fresh_id: "tasks_ok controller n c ts \<Longrightarrow> map_of ts n = None"
  by (auto simp: tasks_ok_def map_of_eq_None_iff)

end
