(* ===== verification/Paste_Viewer.thy ===== *)
theory Paste_Viewer
  imports Crypto Drafts Routing Pending_Tasks
begin

text \<open>
  The paste viewer (\<open>PasteViewer\<close> in \<open>web/src/App.tsx\<close>): the state of the component, the effect that
  loads a paste, the key gate, the burn screen, search, expiry and download. A promise the component
  waits for is a pending task; its continuation runs when the task ends, in any order. The clock, the
  date parser, the fragment of the location and the answers of the service are arguments of the
  events. Main facts: what is shown is the paste of the current slug as long as nobody navigates
  while a key is tried; a paste is consumed at most once per burn screen.
\<close>

section \<open>State\<close>

datatype viewerState = ViewLoading | ViewReady | ViewKey | ViewBurn | ViewUnavailable | ViewError

type_synonym pasteAnswer = "(apiErrorCode apiFailure, retrievedPaste) result"

text \<open>
  The promises: the GET with its abort controller and slug, the decryption with the key of the
  location, the decryption with the key of the gate, the consuming POST and the decryption of what it
  returned.
\<close>

datatype viewerTask =
    FetchTask nat jsstring
  | OpenTask nat jsval jsstring
  | GateTask jsval jsstring
  | ConsumeTask jsstring "jsstring option"
  | RevealTask jsval "jsstring option"

text \<open>What the component does to the outside; \<open>BurnScreen\<close> records that the burn screen appears.\<close>

datatype viewerEffect =
    GetRequest jsstring
  | ConsumeRequest jsstring
  | BurnScreen jsstring
  | StatusMessage jsstring
  | CopyText jsstring
  | DownloadFile jsstring jsstring

record viewerSearch =
  se_open :: bool
  se_closing :: bool
  se_query :: jsstring
  se_active :: nat

record viewer =
  vw_slug :: jsstring
  vw_controller :: "nat option"
  vw_nextController :: nat
  vw_paste :: "retrievedPaste option"
  vw_state :: viewerState
  vw_decrypted :: "jsval option"
  vw_keyInput :: jsstring
  vw_keyError :: bool
  vw_burnEncrypted :: bool
  vw_consuming :: bool
  vw_search :: viewerSearch
  vw_now :: int
  vw_tasks :: "viewerTask tasks"
  vw_nextTask :: nat
  vw_log :: "viewerEffect list"

definition viewer_new :: "jsstring \<Rightarrow> int \<Rightarrow> viewer" where
  "viewer_new slug now =
     \<lparr>vw_slug = slug, vw_controller = None, vw_nextController = 0, vw_paste = None, vw_state = ViewLoading,
      vw_decrypted = None, vw_keyInput = [], vw_keyError = False, vw_burnEncrypted = False, vw_consuming = False,
      vw_search = \<lparr>se_open = False, se_closing = False, se_query = [], se_active = 0\<rparr>,
      vw_now = now, vw_tasks = [], vw_nextTask = 0, vw_log = []\<rparr>"

definition viewer_log :: "viewerEffect \<Rightarrow> viewer \<Rightarrow> viewer" where
  "viewer_log e v = v\<lparr>vw_log := vw_log v @ [e]\<rparr>"

definition start_task :: "viewerTask \<Rightarrow> viewer \<Rightarrow> viewer" where
  "start_task t v = v\<lparr>vw_tasks := vw_tasks v @ [(vw_nextTask v, t)], vw_nextTask := Suc (vw_nextTask v)\<rparr>"

definition end_task :: "nat \<Rightarrow> viewer \<Rightarrow> viewer" where
  "end_task i v = v\<lparr>vw_tasks := without_task i (vw_tasks v)\<rparr>"

section \<open>Loading a paste\<close>

definition key_message :: jsstring where
  "key_message = js ''Unable to decrypt '' @ [0x2014] @ js '' check the key.''"

text \<open>The state a failed request leads to: a missing paste, or an error.\<close>

definition failure_state :: "apiErrorCode apiFailure \<Rightarrow> viewerState" where
  "failure_state e = (case e of APIError status NotFound message requestID \<Rightarrow> ViewUnavailable | _ \<Rightarrow> ViewError)"

text \<open>The effect on the slug, with the cleanup of the previous one, which aborts its controller.\<close>

definition load_paste :: "viewer \<Rightarrow> viewer" where
  "load_paste v =
     (let v = v\<lparr>vw_controller := None\<rparr>
      in if vw_slug v = [] then v\<lparr>vw_state := ViewUnavailable\<rparr>
         else
           let c = vw_nextController v;
               v = v\<lparr>vw_controller := Some c, vw_nextController := Suc c, vw_paste := None, vw_decrypted := None,
                 vw_burnEncrypted := False, vw_keyInput := [], vw_state := ViewLoading\<rparr>
           in start_task (FetchTask c (vw_slug v)) (viewer_log (GetRequest (vw_slug v)) v))"

text \<open>The answer to the GET; \<open>hash\<close> is the fragment of the location when it arrives.\<close>

definition fetch_done :: "'u urlAPI \<Rightarrow> jsstring \<Rightarrow> nat \<Rightarrow> pasteAnswer \<Rightarrow> viewer \<Rightarrow> viewer" where
  "fetch_done url hash c answer v =
     (if vw_controller v \<noteq> Some c then v
      else case answer of
        Inl e \<Rightarrow> v\<lparr>vw_state := failure_state e\<rparr>
      | Inr (BurnMetadata encrypted) \<Rightarrow>
          viewer_log (BurnScreen (vw_slug v)) (v\<lparr>vw_burnEncrypted := encrypted, vw_state := ViewBurn\<rparr>)
      | Inr (RetrievedPaste r) \<Rightarrow> v\<lparr>vw_paste := Some (RetrievedPaste r), vw_state := ViewReady\<rparr>
      | Inr (RetrievedEncryptedPaste r) \<Rightarrow>
          let v = v\<lparr>vw_paste := Some (RetrievedEncryptedPaste r)\<rparr>
          in (case keyFromFragmentOrURL url hash of
                Inl e \<Rightarrow> v\<lparr>vw_state := ViewKey\<rparr>
              | Inr key \<Rightarrow> start_task (OpenTask c (rt_data r) key) v))"

definition open_done :: "subtleCrypto \<Rightarrow> nat \<Rightarrow> jsval \<Rightarrow> jsstring \<Rightarrow> viewer \<Rightarrow> viewer" where
  "open_done sc c envelope key v =
     (if vw_controller v \<noteq> Some c then v
      else case decryptPayload sc envelope key of
        Inr payload \<Rightarrow> v\<lparr>vw_decrypted := Some payload, vw_state := ViewReady\<rparr>
      | Inl e \<Rightarrow> v\<lparr>vw_state := ViewKey\<rparr>)"

section \<open>The key gate\<close>

definition submitKey :: "'u urlAPI \<Rightarrow> viewer \<Rightarrow> viewer" where
  "submitKey url v =
     (if vw_state v \<noteq> ViewKey then v
      else case vw_paste v of
        Some (RetrievedEncryptedPaste r) \<Rightarrow>
          (case keyFromFragmentOrURL url (vw_keyInput v) of
             Inl e \<Rightarrow> viewer_log (StatusMessage key_message) (v\<lparr>vw_keyError := True\<rparr>)
           | Inr key \<Rightarrow> start_task (GateTask (rt_data r) key) (v\<lparr>vw_keyError := False, vw_state := ViewLoading\<rparr>))
      | _ \<Rightarrow> v)"

definition gate_done :: "subtleCrypto \<Rightarrow> jsval \<Rightarrow> jsstring \<Rightarrow> viewer \<Rightarrow> viewer" where
  "gate_done sc envelope key v =
     (case decryptPayload sc envelope key of
        Inr payload \<Rightarrow> v\<lparr>vw_decrypted := Some payload, vw_state := ViewReady\<rparr>
      | Inl e \<Rightarrow> viewer_log (StatusMessage key_message) (v\<lparr>vw_keyError := True, vw_state := ViewKey\<rparr>))"

section \<open>Reveal and destroy\<close>

text \<open>
  The click on the button of the burn screen, which is disabled while a paste is consumed. A failed
  \<open>encodeURIComponent\<close> rejects like the request it is part of.
\<close>

definition revealAndDestroy :: "'u urlAPI \<Rightarrow> jsstring \<Rightarrow> viewer \<Rightarrow> viewer" where
  "revealAndDestroy url hash v =
     (if vw_state v \<noteq> ViewBurn \<or> vw_consuming v then v
      else
        let consume = (\<lambda>key. start_task (ConsumeTask (vw_slug v) key)
              (viewer_log (ConsumeRequest (vw_slug v)) (v\<lparr>vw_consuming := True\<rparr>)))
        in if vw_burnEncrypted v then
             (case keyFromFragmentOrURL url (if vw_keyInput v = [] then hash else vw_keyInput v) of
                Inl e \<Rightarrow> v\<lparr>vw_keyError := True\<rparr>
              | Inr key \<Rightarrow> consume (Some key))
           else consume None)"

definition consume_done :: "jsstring option \<Rightarrow> pasteAnswer \<Rightarrow> viewer \<Rightarrow> viewer" where
  "consume_done key answer v =
     (case answer of
        Inl e \<Rightarrow> v\<lparr>vw_state := failure_state e, vw_consuming := False\<rparr>
      | Inr result \<Rightarrow>
          let v = v\<lparr>vw_paste := Some result\<rparr>
          in (case result of
                RetrievedEncryptedPaste r \<Rightarrow> start_task (RevealTask (rt_data r) key) v
              | _ \<Rightarrow> v\<lparr>vw_state := ViewReady, vw_consuming := False\<rparr>))"

text \<open>Without a key the decryption throws a \<open>TypeError\<close>, which the same handler catches.\<close>

definition reveal_done :: "subtleCrypto \<Rightarrow> jsval \<Rightarrow> jsstring option \<Rightarrow> viewer \<Rightarrow> viewer" where
  "reveal_done sc envelope key v =
     (case (case key of None \<Rightarrow> Inl DecryptionError | Some k \<Rightarrow> decryptPayload sc envelope k) of
        Inr payload \<Rightarrow> v\<lparr>vw_decrypted := Some payload, vw_state := ViewReady, vw_consuming := False\<rparr>
      | Inl e \<Rightarrow> v\<lparr>vw_state := ViewError, vw_consuming := False\<rparr>)"

section \<open>What is shown\<close>

definition shown_payload :: "viewer \<Rightarrow> jsval option" where
  "shown_payload v = (case vw_paste v of Some (RetrievedPaste r) \<Rightarrow> Some (rt_data r) | _ \<Rightarrow> vw_decrypted v)"

definition viewer_matches :: "(jsstring \<Rightarrow> jsstring) \<Rightarrow> viewer \<Rightarrow> (nat \<times> nat) list" where
  "viewer_matches lower v = (case shown_payload v of
     None \<Rightarrow> []
   | Some payload \<Rightarrow> findSearchMatches lower (string_prop payload ''content'') (se_query (vw_search v)))"

definition visibleActiveMatch :: "nat \<Rightarrow> nat \<Rightarrow> nat" where
  "visibleActiveMatch matchCount activeMatch = (if matchCount = 0 then 0 else min activeMatch (matchCount - 1))"

text \<open>\<open>parse\<close> is \<open>Date.parse\<close>, with None for NaN, which fails every comparison.\<close>

definition isOneHourPaste :: "(jsstring \<Rightarrow> int option) \<Rightarrow> 'a retrieved \<Rightarrow> bool" where
  "isOneHourPaste parse paste = (case (parse (rt_createdAt paste), parse (rt_expiresAt paste)) of
     (Some createdAt, Some expiresAt) \<Rightarrow>
       let lifetime = expiresAt - createdAt in 59 * 60 * 1000 \<le> lifetime \<and> lifetime \<le> 61 * 60 * 1000
   | _ \<Rightarrow> False)"

definition remainingSeconds :: "int \<Rightarrow> int \<Rightarrow> nat" where
  "remainingSeconds expiresAt currentTime = nat (max 0 ((expiresAt - currentTime + 999) div 1000))"

definition formatExpiryCountdown :: "int \<Rightarrow> int \<Rightarrow> jsstring" where
  "formatExpiryCountdown expiresAt currentTime =
     (let remaining = remainingSeconds expiresAt currentTime; seconds = nat_str (remaining mod 60)
      in nat_str (remaining div 60) @ js '':'' @ replicate (2 - length seconds) 0x30 @ seconds)"

definition expiryLastMinute :: "int \<Rightarrow> int \<Rightarrow> bool" where
  "expiryLastMinute expiresAt currentTime =
     (let remainingMs = expiresAt - currentTime in 0 < remainingMs \<and> remainingMs \<le> 60 * 1000)"

section \<open>Search\<close>

definition focusSearch :: "viewerSearch \<Rightarrow> viewerSearch" where
  "focusSearch s = s\<lparr>se_open := True\<rparr>"

definition closeSearch :: "viewerSearch \<Rightarrow> viewerSearch" where
  "closeSearch s = s\<lparr>se_query := [], se_open := False, se_closing := True\<rparr>"

definition toggleSearch :: "viewerSearch \<Rightarrow> viewerSearch" where
  "toggleSearch s =
     (if se_closing s then s\<lparr>se_closing := False, se_open := True\<rparr>
      else if se_open s then closeSearch s
      else focusSearch s)"

definition searchClosed :: "viewerSearch \<Rightarrow> viewerSearch" where
  "searchClosed s = s\<lparr>se_closing := False\<rparr>"

definition changeQuery :: "jsstring \<Rightarrow> viewerSearch \<Rightarrow> viewerSearch" where
  "changeQuery query s = s\<lparr>se_active := 0, se_query := query\<rparr>"

text \<open>The buttons, disabled without a match.\<close>

definition previousMatch :: "nat \<Rightarrow> viewerSearch \<Rightarrow> viewerSearch" where
  "previousMatch matchCount s =
     (if matchCount = 0 then s
      else s\<lparr>se_active := (if se_active s = 0 then matchCount - 1 else se_active s - 1)\<rparr>)"

definition nextMatch :: "nat \<Rightarrow> viewerSearch \<Rightarrow> viewerSearch" where
  "nextMatch matchCount s = (if matchCount = 0 then s else s\<lparr>se_active := (se_active s + 1) mod matchCount\<rparr>)"

text \<open>What happens to the search; the timer of \<open>closeSearch\<close> may end at any moment.\<close>

datatype searchEvent =
    FindKey | SearchToggled | EscapeKey | QueryTyped jsstring | ClearClicked | PreviousClicked | NextClicked
  | ClosingEnds

definition search_step :: "nat \<Rightarrow> searchEvent \<Rightarrow> viewerSearch \<Rightarrow> viewerSearch" where
  "search_step matchCount ev s = (case ev of
     FindKey \<Rightarrow> focusSearch s
   | SearchToggled \<Rightarrow> toggleSearch s
   | EscapeKey \<Rightarrow> closeSearch s
   | QueryTyped query \<Rightarrow> changeQuery query s
   | ClearClicked \<Rightarrow> changeQuery [] s
   | PreviousClicked \<Rightarrow> previousMatch matchCount s
   | NextClicked \<Rightarrow> nextMatch matchCount s
   | ClosingEnds \<Rightarrow> searchClosed s)"

section \<open>Copy and download\<close>

definition copyContent :: "bool \<Rightarrow> viewer \<Rightarrow> viewer" where
  "copyContent written v = (case shown_payload v of
     None \<Rightarrow> v
   | Some payload \<Rightarrow>
       viewer_log (StatusMessage (js (if written then ''Paste copied'' else ''Could not copy paste'')))
         (viewer_log (CopyText (string_prop payload ''content'')) v))"

definition word_unit :: "16 word \<Rightarrow> bool" where
  "word_unit u \<longleftrightarrow> 97 \<le> unat u \<and> unat u \<le> 122 \<or> 48 \<le> unat u \<and> unat u \<le> 57"

text \<open>\<open>replace(/[^a-z0-9]+/g, "-")\<close>; the flag says that the unit before is inside such a run.\<close>

fun collapse_runs :: "bool \<Rightarrow> jsstring \<Rightarrow> jsstring" where
  "collapse_runs inside [] = []"
| "collapse_runs inside (u # us) =
     (if word_unit u then u # collapse_runs False us
      else if inside then collapse_runs True us
      else 0x2D # collapse_runs True us)"

text \<open>\<open>replace(/^-|-$/g, "")\<close>.\<close>

definition strip_dashes :: "jsstring \<Rightarrow> jsstring" where
  "strip_dashes s =
     (let s = (if s \<noteq> [] \<and> hd s = 0x2D then tl s else s)
      in if s \<noteq> [] \<and> last s = 0x2D then butlast s else s)"

definition safeFilename :: "(jsstring \<Rightarrow> jsstring) \<Rightarrow> jsstring \<Rightarrow> jsstring \<Rightarrow> jsstring" where
  "safeFilename lower title slug =
     (let base = take 60 (strip_dashes (collapse_runs False (lower (trim title))))
      in (if base = [] then slug else base) @ js ''.txt'')"

definition paste_slug :: "retrievedPaste \<Rightarrow> jsstring" where
  "paste_slug p = (case p of RetrievedPaste r \<Rightarrow> rt_slug r | RetrievedEncryptedPaste r \<Rightarrow> rt_slug r | _ \<Rightarrow> [])"

definition downloadContent :: "(jsstring \<Rightarrow> jsstring) \<Rightarrow> viewer \<Rightarrow> viewer" where
  "downloadContent lower v = (case (vw_paste v, shown_payload v) of
     (Some paste, Some payload) \<Rightarrow>
       viewer_log (DownloadFile (safeFilename lower (string_prop payload ''title'') (paste_slug paste))
         (string_prop payload ''content'')) v
   | _ \<Rightarrow> v)"

section \<open>Runs\<close>

datatype viewerEvent =
    Navigate jsstring
  | FetchAnswer nat jsstring pasteAnswer
  | ConsumeAnswer nat pasteAnswer
  | DecryptionEnds nat
  | KeyTyped jsstring
  | KeySubmitted
  | RevealClicked jsstring
  | SearchUsed searchEvent
  | CopyClicked bool
  | DownloadClicked
  | ClockTicks int

definition viewer_step ::
  "subtleCrypto \<Rightarrow> 'u urlAPI \<Rightarrow> (jsstring \<Rightarrow> jsstring) \<Rightarrow> viewerEvent \<Rightarrow> viewer \<Rightarrow> viewer" where
  "viewer_step sc url lower ev v = (case ev of
     Navigate slug \<Rightarrow> load_paste (v\<lparr>vw_slug := slug\<rparr>)
   | FetchAnswer i hash answer \<Rightarrow>
       (case map_of (vw_tasks v) i of
          Some (FetchTask c slug) \<Rightarrow> fetch_done url hash c answer (end_task i v)
        | _ \<Rightarrow> v)
   | ConsumeAnswer i answer \<Rightarrow>
       (case map_of (vw_tasks v) i of
          Some (ConsumeTask slug key) \<Rightarrow> consume_done key answer (end_task i v)
        | _ \<Rightarrow> v)
   | DecryptionEnds i \<Rightarrow>
       (case map_of (vw_tasks v) i of
          Some (OpenTask c envelope key) \<Rightarrow> open_done sc c envelope key (end_task i v)
        | Some (GateTask envelope key) \<Rightarrow> gate_done sc envelope key (end_task i v)
        | Some (RevealTask envelope key) \<Rightarrow> reveal_done sc envelope key (end_task i v)
        | _ \<Rightarrow> v)
   | KeyTyped value \<Rightarrow> v\<lparr>vw_keyInput := value\<rparr>
   | KeySubmitted \<Rightarrow> submitKey url v
   | RevealClicked hash \<Rightarrow> revealAndDestroy url hash v
   | SearchUsed e \<Rightarrow> v\<lparr>vw_search := search_step (length (viewer_matches lower v)) e (vw_search v)\<rparr>
   | CopyClicked written \<Rightarrow> copyContent written v
   | DownloadClicked \<Rightarrow> downloadContent lower v
   | ClockTicks now \<Rightarrow> v\<lparr>vw_now := now\<rparr>)"

text \<open>The component appears with a slug; its effect runs at once.\<close>

definition viewer_mount :: "jsstring \<Rightarrow> int \<Rightarrow> viewer" where
  "viewer_mount slug now = load_paste (viewer_new slug now)"

definition viewer_run ::
  "subtleCrypto \<Rightarrow> 'u urlAPI \<Rightarrow> (jsstring \<Rightarrow> jsstring) \<Rightarrow> viewerEvent list \<Rightarrow> viewer \<Rightarrow> viewer" where
  "viewer_run sc url lower evs v = fold (viewer_step sc url lower) evs v"

section \<open>The screen shows the paste of the slug\<close>

text \<open>
  The controller a task looks at before it touches the state; a task of an earlier load is stale: its
  continuation returns at once.
\<close>

fun task_controller :: "viewerTask \<Rightarrow> nat option" where
  "task_controller (FetchTask c slug) = Some c"
| "task_controller (OpenTask c envelope key) = Some c"
| "task_controller t = None"

abbreviation stale_task :: "viewer \<Rightarrow> viewerTask \<Rightarrow> bool" where
  "stale_task v \<equiv> stale_in task_controller (vw_controller v)"

definition fresh_tasks :: "viewer \<Rightarrow> viewerTask list" where
  "fresh_tasks v = fresh_in task_controller (vw_controller v) (vw_tasks v)"

text \<open>
  \<open>served slug answer\<close> and \<open>opened slug answer\<close>: the answers the service may give to the GET and to
  the consuming POST for a slug.
\<close>

definition paste_from :: "(jsstring \<Rightarrow> pasteAnswer \<Rightarrow> bool) \<Rightarrow> (jsstring \<Rightarrow> pasteAnswer \<Rightarrow> bool) \<Rightarrow> jsstring \<Rightarrow> retrievedPaste \<Rightarrow> bool" where
  "paste_from served opened slug p \<longleftrightarrow> served slug (Inr p) \<or> opened slug (Inr p)"

fun paste_shown :: "subtleCrypto \<Rightarrow> retrievedPaste \<Rightarrow> jsval option \<Rightarrow> bool" where
  "paste_shown sc (RetrievedPaste r) shown = (shown = Some (rt_data r))"
| "paste_shown sc (RetrievedEncryptedPaste r) shown =
     (\<exists>key payload. decryptPayload sc (rt_data r) key = Inr payload \<and> shown = Some payload)"
| "paste_shown sc (BurnMetadata b) shown = False"

definition shows_own :: "subtleCrypto \<Rightarrow> (retrievedPaste \<Rightarrow> bool) \<Rightarrow> viewer \<Rightarrow> bool" where
  "shows_own sc own v \<longleftrightarrow> (\<exists>p. vw_paste v = Some p \<and> own p \<and> paste_shown sc p (shown_payload v))"

definition holds_envelope :: "(retrievedPaste \<Rightarrow> bool) \<Rightarrow> viewer \<Rightarrow> jsval \<Rightarrow> bool" where
  "holds_envelope own v envelope \<longleftrightarrow>
     (\<exists>r. vw_paste v = Some (RetrievedEncryptedPaste r) \<and> rt_data r = envelope \<and> own (RetrievedEncryptedPaste r))"

text \<open>What holds without a task of the current load, and with one, which is then the only one.\<close>

fun idle_state :: "subtleCrypto \<Rightarrow> (retrievedPaste \<Rightarrow> bool) \<Rightarrow> viewer \<Rightarrow> viewerState \<Rightarrow> bool" where
  "idle_state sc own v ViewReady = shows_own sc own v"
| "idle_state sc own v ViewKey = (\<exists>envelope. holds_envelope own v envelope)"
| "idle_state sc own v ViewLoading = False"
| "idle_state sc own v st = True"

fun task_phase :: "(retrievedPaste \<Rightarrow> bool) \<Rightarrow> viewer \<Rightarrow> viewerTask \<Rightarrow> bool" where
  "task_phase own v (FetchTask c slug) = (vw_state v = ViewLoading \<and> \<not> vw_consuming v \<and> slug = vw_slug v)"
| "task_phase own v (OpenTask c envelope key) =
     (vw_state v = ViewLoading \<and> \<not> vw_consuming v \<and> holds_envelope own v envelope)"
| "task_phase own v (GateTask envelope key) =
     (vw_state v = ViewLoading \<and> \<not> vw_consuming v \<and> holds_envelope own v envelope)"
| "task_phase own v (ConsumeTask slug key) = (vw_state v = ViewBurn \<and> vw_consuming v \<and> slug = vw_slug v)"
| "task_phase own v (RevealTask envelope key) =
     (vw_state v = ViewBurn \<and> vw_consuming v \<and> holds_envelope own v envelope)"

definition viewer_phase :: "subtleCrypto \<Rightarrow> (retrievedPaste \<Rightarrow> bool) \<Rightarrow> viewer \<Rightarrow> bool" where
  "viewer_phase sc own v \<longleftrightarrow>
     fresh_tasks v = [] \<and> \<not> vw_consuming v \<and> idle_state sc own v (vw_state v)
     \<or> (\<exists>t. fresh_tasks v = [t] \<and> task_phase own v t)"

definition viewer_ids :: "viewer \<Rightarrow> bool" where
  "viewer_ids v \<longleftrightarrow> tasks_ok task_controller (vw_nextTask v) (vw_nextController v) (vw_tasks v)"

text \<open>A try of a key, a consuming request or the decryption of its answer is in progress.\<close>

abbreviation key_in_flight :: "viewer \<Rightarrow> bool" where
  "key_in_flight v \<equiv> uncontrolled task_controller (vw_tasks v)"

text \<open>
  Runs in which the service gives its answers and nobody navigates while a key is tried or a paste is
  consumed.
\<close>

definition calm_event ::
  "(jsstring \<Rightarrow> pasteAnswer \<Rightarrow> bool) \<Rightarrow> (jsstring \<Rightarrow> pasteAnswer \<Rightarrow> bool) \<Rightarrow> viewer \<Rightarrow> viewerEvent \<Rightarrow> bool" where
  "calm_event served opened v ev = (case ev of
     Navigate slug \<Rightarrow> \<not> key_in_flight v
   | FetchAnswer i hash answer \<Rightarrow>
       (\<forall>c slug. map_of (vw_tasks v) i = Some (FetchTask c slug) \<longrightarrow> served slug answer)
   | ConsumeAnswer i answer \<Rightarrow>
       (\<forall>slug key. map_of (vw_tasks v) i = Some (ConsumeTask slug key) \<longrightarrow> opened slug answer)
         \<and> (\<forall>b. answer \<noteq> Inr (BurnMetadata b))
   | _ \<Rightarrow> True)"

inductive viewer_reach ::
  "subtleCrypto \<Rightarrow> 'u urlAPI \<Rightarrow> (jsstring \<Rightarrow> jsstring) \<Rightarrow> (jsstring \<Rightarrow> pasteAnswer \<Rightarrow> bool)
   \<Rightarrow> (jsstring \<Rightarrow> pasteAnswer \<Rightarrow> bool) \<Rightarrow> viewer \<Rightarrow> bool"
  for sc url lower served opened where
  reach_mount: "viewer_reach sc url lower served opened (viewer_mount slug now)"
| reach_step: "viewer_reach sc url lower served opened v \<Longrightarrow> calm_event served opened v ev
    \<Longrightarrow> viewer_reach sc url lower served opened (viewer_step sc url lower ev v)"

section \<open>The phases are kept\<close>

lemma frames [simp]:
  "vw_slug (end_task i v) = vw_slug v" "vw_controller (end_task i v) = vw_controller v"
  "vw_paste (end_task i v) = vw_paste v" "vw_state (end_task i v) = vw_state v"
  "vw_decrypted (end_task i v) = vw_decrypted v" "vw_consuming (end_task i v) = vw_consuming v"
  "vw_nextController (end_task i v) = vw_nextController v" "vw_log (end_task i v) = vw_log v"
  "vw_slug (start_task t v) = vw_slug v" "vw_controller (start_task t v) = vw_controller v"
  "vw_paste (start_task t v) = vw_paste v" "vw_state (start_task t v) = vw_state v"
  "vw_decrypted (start_task t v) = vw_decrypted v" "vw_consuming (start_task t v) = vw_consuming v"
  "vw_nextController (start_task t v) = vw_nextController v" "vw_log (start_task t v) = vw_log v"
  "vw_slug (viewer_log e v) = vw_slug v" "vw_controller (viewer_log e v) = vw_controller v"
  "vw_paste (viewer_log e v) = vw_paste v" "vw_state (viewer_log e v) = vw_state v"
  "vw_decrypted (viewer_log e v) = vw_decrypted v" "vw_consuming (viewer_log e v) = vw_consuming v"
  "vw_nextController (viewer_log e v) = vw_nextController v" "vw_tasks (viewer_log e v) = vw_tasks v"
  "vw_log (viewer_log e v) = vw_log v @ [e]" "vw_nextTask (viewer_log e v) = vw_nextTask v"
  by (simp_all add: end_task_def start_task_def viewer_log_def)

lemma fresh_tasks_cong:
  "vw_tasks v' = vw_tasks v \<Longrightarrow> vw_controller v' = vw_controller v \<Longrightarrow> fresh_tasks v' = fresh_tasks v"
  by (simp add: fresh_tasks_def)

lemma fresh_log [simp]: "fresh_tasks (viewer_log e v) = fresh_tasks v"
  by (rule fresh_tasks_cong) simp_all

lemma fresh_start: "fresh_tasks (start_task t v) = fresh_tasks v @ (if stale_task v t then [] else [t])"
  by (simp add: fresh_tasks_def start_task_def)

lemma end_stale_fresh:
  assumes "viewer_ids v" "map_of (vw_tasks v) i = Some t" "stale_task v t"
  shows "fresh_tasks (end_task i v) = fresh_tasks v"
  using end_other [OF _ assms(2), of "\<lambda>t. \<not> stale_task v t"] assms(1,3) by (simp add: fresh_tasks_def end_task_def viewer_ids_def tasks_ok_def)

lemma end_only_fresh:
  assumes "viewer_ids v" "map_of (vw_tasks v) i = Some t" "\<not> stale_task v t" "viewer_phase sc own v"
  shows "fresh_tasks v = [t] \<and> fresh_tasks (end_task i v) = []"
proof -
  have "t \<in> set (fresh_tasks v)" using assms(2,3) by (auto simp: fresh_tasks_def in_pending dest: map_of_SomeD)
  then obtain u where "fresh_tasks v = [u]"
    using assms(4) by (auto simp: viewer_phase_def)
  with end_only [OF _ assms(2), of "\<lambda>t. \<not> stale_task v t"] assms(1,3) show ?thesis
    by (fastforce simp: fresh_tasks_def end_task_def viewer_ids_def tasks_ok_def)
qed

lemma phase_cong:
  assumes "viewer_phase sc own v" "fresh_tasks v' = fresh_tasks v" "vw_state v' = vw_state v"
    "vw_consuming v' = vw_consuming v" "vw_paste v' = vw_paste v" "vw_decrypted v' = vw_decrypted v" "vw_slug v' = vw_slug v"
  shows "viewer_phase sc own v'"
proof -
  have "shown_payload v' = shown_payload v" using assms(5,6) by (simp add: shown_payload_def split: option.split retrievedPaste.split)
  then have same: "shows_own sc own v' = shows_own sc own v" "holds_envelope own v' = holds_envelope own v"
    using assms(5) by (simp_all add: shows_own_def holds_envelope_def fun_eq_iff)
  have "idle_state sc own v' st = idle_state sc own v st" for st
    by (cases st) (simp_all add: same)
  moreover have "task_phase own v' t = task_phase own v t" for t
    using assms(3,4,7) by (cases t) (simp_all add: same)
  ultimately show ?thesis using assms(1-4) by (simp add: viewer_phase_def)
qed

lemma phase_idle:
  "fresh_tasks v = [] \<Longrightarrow> \<not> vw_consuming v \<Longrightarrow> idle_state sc own v (vw_state v) \<Longrightarrow> viewer_phase sc own v"
  by (simp add: viewer_phase_def)

lemma fresh_update [simp]:
  "fresh_tasks (v\<lparr>vw_paste := p\<rparr>) = fresh_tasks v" "fresh_tasks (v\<lparr>vw_state := st\<rparr>) = fresh_tasks v"
  "fresh_tasks (v\<lparr>vw_decrypted := q\<rparr>) = fresh_tasks v" "fresh_tasks (v\<lparr>vw_consuming := b\<rparr>) = fresh_tasks v"
  "fresh_tasks (v\<lparr>vw_burnEncrypted := b\<rparr>) = fresh_tasks v" "fresh_tasks (v\<lparr>vw_keyError := b\<rparr>) = fresh_tasks v"
  "fresh_tasks (v\<lparr>vw_keyInput := k\<rparr>) = fresh_tasks v" "fresh_tasks (v\<lparr>vw_now := n\<rparr>) = fresh_tasks v"
  "fresh_tasks (v\<lparr>vw_search := se\<rparr>) = fresh_tasks v"
  by (auto intro!: fresh_tasks_cong)

lemma holds_update [simp]:
  "holds_envelope own (v\<lparr>vw_state := st\<rparr>) = holds_envelope own v"
  "holds_envelope own (v\<lparr>vw_keyError := b\<rparr>) = holds_envelope own v"
  "holds_envelope own (v\<lparr>vw_keyInput := k\<rparr>) = holds_envelope own v"
  "holds_envelope own (viewer_log e v) = holds_envelope own v"
  "holds_envelope own (start_task t v) = holds_envelope own v"
  "holds_envelope own (end_task i v) = holds_envelope own v"
  by (simp_all add: holds_envelope_def fun_eq_iff)

lemma failure_idle: "idle_state sc own v (failure_state e)"
  by (simp add: failure_state_def split: apiFailure.split apiErrorCode.split)

lemma fetch_done_phase:
  assumes fresh: "fresh_tasks v = []" and c: "vw_controller v = Some c" and v: "vw_state v = ViewLoading" "\<not> vw_consuming v"
    and own: "\<And>p. answer = Inr p \<Longrightarrow> own p"
  shows "viewer_phase sc own (fetch_done url hash c answer v)"
proof (cases answer)
  case (Inl e)
  then show ?thesis using fresh v c by (simp add: fetch_done_def phase_idle failure_idle)
next
  case (Inr p)
  note own = own [OF Inr]
  show ?thesis
  proof (cases p)
    case (RetrievedPaste r)
    with own Inr c fresh v show ?thesis
      by (auto intro!: phase_idle simp: fetch_done_def shows_own_def shown_payload_def)
  next
    case (RetrievedEncryptedPaste r)
    define w where "w = v\<lparr>vw_paste := Some p\<rparr>"
    have w: "fresh_tasks w = []" "vw_controller w = Some c" "vw_state w = ViewLoading" "\<not> vw_consuming w"
      using fresh c v by (simp_all add: w_def)
    have holds: "holds_envelope own w' (rt_data r)" if "vw_paste w' = Some p" for w'
      using that own RetrievedEncryptedPaste by (simp add: holds_envelope_def)
    have "fetch_done url hash c answer v = (case keyFromFragmentOrURL url hash of
        Inl e \<Rightarrow> w\<lparr>vw_state := ViewKey\<rparr> | Inr key \<Rightarrow> start_task (OpenTask c (rt_data r) key) w)"
      unfolding w_def RetrievedEncryptedPaste using Inr c RetrievedEncryptedPaste by (simp add: fetch_done_def Let_def)
    moreover have "viewer_phase sc own (w\<lparr>vw_state := ViewKey\<rparr>)"
      using w holds [of "w\<lparr>vw_state := ViewKey\<rparr>"] by (intro phase_idle) (auto simp: w_def)
    moreover have "viewer_phase sc own (start_task (OpenTask c (rt_data r) key) w)" for key
      using w holds [of "start_task (OpenTask c (rt_data r) key) w"]
      by (simp add: viewer_phase_def fresh_start stale_in_def w_def)
    ultimately show ?thesis by (simp split: sum.split)
  next
    case (BurnMetadata b)
    with Inr c fresh v show ?thesis
      by (auto intro!: phase_idle simp: fetch_done_def)
  qed
qed

lemma decryption_phase:
  assumes "fresh_tasks v = []" "\<not> vw_consuming v" "holds_envelope own v envelope"
    "decryptPayload sc envelope key = Inr payload" "vw_decrypted v = Some payload" "vw_state v = ViewReady"
  shows "viewer_phase sc own v"
  using assms by (intro phase_idle) (auto simp: shows_own_def shown_payload_def holds_envelope_def)

lemma open_done_phase:
  assumes "fresh_tasks v = []" "vw_controller v = Some c" "\<not> vw_consuming v" "holds_envelope own v envelope"
  shows "viewer_phase sc own (open_done sc c envelope key v)"
proof (cases "decryptPayload sc envelope key")
  case (Inl e)
  with assms show ?thesis
    by (auto intro!: phase_idle simp: open_done_def)
next
  case (Inr payload)
  with assms show ?thesis
    by (auto intro!: decryption_phase [OF _ _ _ Inr] simp: open_done_def holds_envelope_def)
qed

lemma gate_done_phase:
  assumes "fresh_tasks v = []" "\<not> vw_consuming v" "holds_envelope own v envelope"
  shows "viewer_phase sc own (gate_done sc envelope key v)"
proof (cases "decryptPayload sc envelope key")
  case (Inl e)
  with assms show ?thesis
    by (auto intro!: phase_idle simp: gate_done_def)
next
  case (Inr payload)
  with assms show ?thesis
    by (auto intro!: decryption_phase [OF _ _ _ Inr] simp: gate_done_def holds_envelope_def)
qed

lemma reveal_done_phase:
  assumes "fresh_tasks v = []" "holds_envelope own v envelope"
  shows "viewer_phase sc own (reveal_done sc envelope key v)"
proof (cases "\<exists>k payload. key = Some k \<and> decryptPayload sc envelope k = Inr payload")
  case True
  then obtain k payload where k: "key = Some k" "decryptPayload sc envelope k = Inr payload" by blast
  with assms show ?thesis
    by (auto intro!: decryption_phase [OF _ _ _ k(2)] simp: reveal_done_def holds_envelope_def)
next
  case False
  then have "reveal_done sc envelope key v = v\<lparr>vw_state := ViewError, vw_consuming := False\<rparr>"
    by (auto simp: reveal_done_def split: option.split sum.split)
  with assms show ?thesis by (auto intro!: phase_idle simp:)
qed

lemma consume_done_phase:
  assumes fresh: "fresh_tasks v = []" and v: "vw_state v = ViewBurn" "vw_consuming v"
    and own: "\<And>p. answer = Inr p \<Longrightarrow> own p" "\<And>b. answer \<noteq> Inr (BurnMetadata b)"
  shows "viewer_phase sc own (consume_done key answer v)"
proof (cases answer)
  case (Inl e)
  then show ?thesis using fresh by (simp add: consume_done_def phase_idle failure_idle)
next
  case (Inr p)
  note own = own(1) [OF Inr] own(2)
  show ?thesis
  proof (cases p)
    case (RetrievedPaste r)
    with own Inr fresh v show ?thesis
      by (auto intro!: phase_idle simp: consume_done_def shows_own_def shown_payload_def)
  next
    case (RetrievedEncryptedPaste r)
    have "fresh_tasks (v\<lparr>vw_paste := Some p\<rparr>) = []" using fresh by (simp add:)
    with RetrievedEncryptedPaste own Inr v show ?thesis
      by (simp add: consume_done_def viewer_phase_def fresh_start stale_in_def holds_envelope_def)
  next
    case (BurnMetadata b)
    with own Inr show ?thesis by blast
  qed
qed

lemma submitKey_phase:
  assumes "viewer_phase sc own v"
  shows "viewer_phase sc own (submitKey url v)"
proof (cases "vw_state v = ViewKey \<and> (\<exists>r. vw_paste v = Some (RetrievedEncryptedPaste r))")
  case True
  then obtain r where r: "vw_paste v = Some (RetrievedEncryptedPaste r)" and key: "vw_state v = ViewKey" by blast
  then have idle: "fresh_tasks v = []" "\<not> vw_consuming v" "\<exists>e. holds_envelope own v e"
    using assms by (auto simp: viewer_phase_def elim!: task_phase.elims)
  then have holds: "holds_envelope own v (rt_data r)" using r by (auto simp: holds_envelope_def)
  show ?thesis
  proof (cases "keyFromFragmentOrURL url (vw_keyInput v)")
    case (Inl e)
    with r key idle show ?thesis by (auto intro!: phase_idle simp: submitKey_def)
  next
    case (Inr k)
    with r key idle holds show ?thesis
      by (auto simp: submitKey_def viewer_phase_def fresh_start stale_in_def)
  qed
next
  case False
  then have "submitKey url v = v" by (auto simp: submitKey_def split: option.split retrievedPaste.split)
  with assms show ?thesis by simp
qed

lemma reveal_phase:
  assumes "viewer_phase sc own v"
  shows "viewer_phase sc own (revealAndDestroy url hash v)"
proof (cases "vw_state v = ViewBurn \<and> \<not> vw_consuming v")
  case True
  then have idle: "fresh_tasks v = []" using assms by (auto simp: viewer_phase_def elim!: task_phase.elims)
  define consume where "consume = (\<lambda>key. start_task (ConsumeTask (vw_slug v) key)
      (viewer_log (ConsumeRequest (vw_slug v)) (v\<lparr>vw_consuming := True\<rparr>)))"
  have "viewer_phase sc own (consume key)" for key
    using True idle by (simp add: consume_def viewer_phase_def fresh_start stale_in_def)
  moreover have "viewer_phase sc own (v\<lparr>vw_keyError := True\<rparr>)"
    using True idle by (intro phase_idle) simp_all
  ultimately show ?thesis
    using True by (simp add: revealAndDestroy_def consume_def [symmetric] split: sum.split)
qed (use assms in \<open>simp add: revealAndDestroy_def\<close>)

lemma not_in_flight:
  assumes "\<not> key_in_flight v" "viewer_phase sc own v"
  shows "\<not> vw_consuming v"
proof -
  have "\<not> vw_consuming v" if "fresh_tasks v = [t]" "task_phase own v t" for t
  proof -
    have "t \<in> set (fresh_tasks v)" using that by simp
    then have "task_controller t \<noteq> None"
      using assms(1) by (auto simp: fresh_tasks_def in_pending uncontrolled_def list_ex_iff)
    with that(2) show ?thesis by (cases t) auto
  qed
  with assms(2) show ?thesis by (auto simp: viewer_phase_def)
qed

lemma load_phase:
  assumes "\<not> key_in_flight v" "\<not> vw_consuming v" "viewer_ids v"
  shows "viewer_phase sc own (load_paste v)"
proof (cases "vw_slug v = []")
  case True
  have "fresh_tasks (v\<lparr>vw_controller := None\<rparr>) = []"
    using assms(1,3) by (auto simp: fresh_tasks_def viewer_ids_def intro: all_stale)
  with True assms(2) show ?thesis
    by (intro phase_idle) (simp_all add: load_paste_def)
next
  case False
  define w where "w = v\<lparr>vw_controller := Some (vw_nextController v), vw_nextController := Suc (vw_nextController v),
      vw_paste := None, vw_decrypted := None, vw_burnEncrypted := False, vw_keyInput := [], vw_state := ViewLoading\<rparr>"
  have "load_paste v = start_task (FetchTask (vw_nextController v) (vw_slug v)) (viewer_log (GetRequest (vw_slug v)) w)"
    using False by (simp add: load_paste_def Let_def w_def)
  moreover have "fresh_tasks w = []"
    using assms(1,3) by (auto simp: fresh_tasks_def viewer_ids_def w_def intro: all_stale)
  ultimately show ?thesis
    using assms(2) by (simp add: viewer_phase_def fresh_start stale_in_def) (simp add: w_def)
qed

section \<open>Identifiers\<close>

lemma ids_update:
  assumes "viewer_ids v" "vw_tasks v' = vw_tasks v" "vw_nextTask v' = vw_nextTask v" "vw_nextController v' = vw_nextController v"
  shows "viewer_ids v'"
  using assms by (simp add: viewer_ids_def)

lemma ids_end: "viewer_ids v \<Longrightarrow> viewer_ids (end_task i v)"
  by (simp add: viewer_ids_def end_task_def tasks_ok_without)

lemma ids_start:
  assumes "viewer_ids v" "\<And>c. task_controller t = Some c \<Longrightarrow> c < vw_nextController v"
  shows "viewer_ids (start_task t v)"
  using assms by (simp add: viewer_ids_def start_task_def tasks_ok_start)

lemma ids_log: "viewer_ids v \<Longrightarrow> viewer_ids (viewer_log e v)"
  by (rule ids_update) simp_all

lemma ids_load: "viewer_ids v \<Longrightarrow> viewer_ids (load_paste v)"
proof (cases "vw_slug v = []")
  case False
  assume ids: "viewer_ids v"
  define w where "w = v\<lparr>vw_controller := Some (vw_nextController v), vw_nextController := Suc (vw_nextController v),
      vw_paste := None, vw_decrypted := None, vw_burnEncrypted := False, vw_keyInput := [], vw_state := ViewLoading\<rparr>"
  have "viewer_ids w" using ids by (auto simp: viewer_ids_def w_def intro: tasks_ok_more)
  then have "viewer_ids (start_task (FetchTask (vw_nextController v) (vw_slug v)) (viewer_log (GetRequest (vw_slug v)) w))"
    by (intro ids_start ids_log) (simp_all add: w_def)
  with False show ?thesis by (simp add: load_paste_def Let_def w_def)
qed (simp add: load_paste_def viewer_ids_def)

lemma ids_fetch:
  assumes "viewer_ids v" "c < vw_nextController v"
  shows "viewer_ids (fetch_done url hash c answer v)"
proof -
  have "viewer_ids (start_task (OpenTask c e k) (v\<lparr>vw_paste := p\<rparr>))" for e k p
    by (rule ids_start) (use assms in \<open>simp_all add: viewer_ids_def\<close>)
  with assms(1) show ?thesis
    by (simp add: fetch_done_def Let_def ids_log ids_update [OF assms(1)] split: sum.split retrievedPaste.split)
qed

lemma ids_continue:
  assumes "viewer_ids v"
  shows "viewer_ids (open_done sc c e k v)" "viewer_ids (gate_done sc e k v)" "viewer_ids (reveal_done sc e k' v)"
    "viewer_ids (submitKey url v)"
proof -
  note up = ids_update [OF assms]
  show "viewer_ids (open_done sc c e k v)" "viewer_ids (gate_done sc e k v)" "viewer_ids (reveal_done sc e k' v)"
    by (simp_all add: open_done_def gate_done_def reveal_done_def up ids_log assms split: sum.split)
  have "viewer_ids (start_task (GateTask e k) (v\<lparr>vw_keyError := False, vw_state := ViewLoading\<rparr>))" for e k
    by (rule ids_start) (simp_all add: up)
  then show "viewer_ids (submitKey url v)"
    by (simp add: submitKey_def up ids_log assms split: sum.split option.split retrievedPaste.split)
qed

lemma ids_consume:
  assumes "viewer_ids v"
  shows "viewer_ids (consume_done k answer v)" "viewer_ids (revealAndDestroy url hash v)"
proof -
  note up = ids_update [OF assms]
  have "viewer_ids (start_task (RevealTask e k) (v\<lparr>vw_paste := p\<rparr>))" for e p
    by (rule ids_start) (simp_all add: up)
  then show "viewer_ids (consume_done k answer v)"
    by (simp add: consume_done_def Let_def up split: sum.split retrievedPaste.split)
  have "viewer_ids (start_task (ConsumeTask s k) (viewer_log e (v\<lparr>vw_consuming := True\<rparr>)))" for s k e
    by (rule ids_start) (simp_all add: up ids_log)
  then show "viewer_ids (revealAndDestroy url hash v)"
    by (simp add: revealAndDestroy_def Let_def up assms split: sum.split)
qed

lemma ids_other:
  assumes "viewer_ids v"
  shows "viewer_ids (copyContent b v)" "viewer_ids (downloadContent lower v)"
  using assms by (simp_all add: copyContent_def downloadContent_def ids_log split: option.split)

lemma pending_controller:
  assumes "viewer_ids v" "map_of (vw_tasks v) i = Some t" "task_controller t = Some c"
  shows "c < vw_nextController v"
  using tasks_ok_pending assms by (simp add: viewer_ids_def)

lemma viewer_step_ids:
  assumes "viewer_ids v"
  shows "viewer_ids (viewer_step sc url lower ev v)"
proof (cases ev)
  case (Navigate slug)
  then show ?thesis using ids_load [OF ids_update [OF assms], of "v\<lparr>vw_slug := slug\<rparr>"] by (simp add: viewer_step_def)
next
  case (FetchAnswer i hash answer)
  then show ?thesis
    using assms by (auto simp: viewer_step_def intro!: ids_fetch ids_end dest!: pending_controller [OF assms] split: option.split viewerTask.split)
next
  case (DecryptionEnds i)
  then show ?thesis using assms by (auto simp: viewer_step_def ids_continue ids_end split: option.split viewerTask.split)
next
  case (ConsumeAnswer i answer)
  then show ?thesis using assms by (auto simp: viewer_step_def ids_consume ids_end split: option.split viewerTask.split)
qed (use assms in \<open>simp_all add: viewer_step_def ids_continue ids_consume ids_other ids_update [OF assms]\<close>)

section \<open>Reachable states\<close>

lemma update_phase:
  assumes "viewer_phase sc own v"
  shows "viewer_phase sc own (v\<lparr>vw_keyInput := k\<rparr>)" "viewer_phase sc own (v\<lparr>vw_search := se\<rparr>)"
    "viewer_phase sc own (v\<lparr>vw_now := n\<rparr>)" "viewer_phase sc own (viewer_log e v)"
    "viewer_phase sc own (copyContent b v)" "viewer_phase sc own (downloadContent lower v)"
proof -
  have log: "viewer_phase sc own (viewer_log e w)" if "viewer_phase sc own w" for e w
    using that by (rule phase_cong) simp_all
  show "viewer_phase sc own (v\<lparr>vw_keyInput := k\<rparr>)" "viewer_phase sc own (v\<lparr>vw_search := se\<rparr>)"
    "viewer_phase sc own (v\<lparr>vw_now := n\<rparr>)"
    by (rule phase_cong [OF assms]; simp)+
  from assms log show "viewer_phase sc own (viewer_log e v)" "viewer_phase sc own (copyContent b v)"
    "viewer_phase sc own (downloadContent lower v)"
    by (simp_all add: copyContent_def downloadContent_def split: option.split)
qed

text \<open>A pending task is stale, and then ending it changes nothing that is shown, or it is the only one.\<close>

lemma end_task_phase:
  assumes "viewer_phase sc own v" "viewer_ids v" "map_of (vw_tasks v) i = Some t"
  shows "stale_task v t \<and> viewer_phase sc own (end_task i v)
    \<or> \<not> stale_task v t \<and> fresh_tasks (end_task i v) = [] \<and> task_phase own v t"
proof (cases "stale_task v t")
  case True
  with assms end_stale_fresh [OF assms(2,3)] show ?thesis by (auto intro!: phase_cong [OF assms(1)])
next
  case False
  from end_only_fresh [OF assms(2,3) False assms(1)] assms(1) show ?thesis
    using False by (auto simp: viewer_phase_def)
qed

lemma slug_frames [simp]:
  "vw_slug (fetch_done url hash c answer v) = vw_slug v" "vw_slug (consume_done k' answer v) = vw_slug v"
  "vw_slug (open_done sc c e k v) = vw_slug v" "vw_slug (gate_done sc e k v) = vw_slug v"
  "vw_slug (reveal_done sc e k' v) = vw_slug v" "vw_slug (submitKey url v) = vw_slug v"
  "vw_slug (revealAndDestroy url hash v) = vw_slug v" "vw_slug (copyContent b v) = vw_slug v"
  "vw_slug (downloadContent lower v) = vw_slug v"
  by (simp_all add: fetch_done_def consume_done_def open_done_def gate_done_def reveal_done_def submitKey_def
      revealAndDestroy_def copyContent_def downloadContent_def Let_def
      split: sum.split retrievedPaste.split option.split)

lemma step_slug: "\<forall>slug. ev \<noteq> Navigate slug \<Longrightarrow> vw_slug (viewer_step sc url lower ev v) = vw_slug v"
  by (cases ev) (simp_all add: viewer_step_def split: option.split viewerTask.split)

lemma step_fetch_phase:
  assumes phase: "viewer_phase sc own v" and ids: "viewer_ids v"
    and task: "map_of (vw_tasks v) i = Some (FetchTask c slug)"
    and own: "\<And>p. slug = vw_slug v \<Longrightarrow> answer = Inr p \<Longrightarrow> own p"
  shows "viewer_phase sc own (fetch_done url hash c answer (end_task i v))"
proof -
  define w where "w = end_task i v"
  from end_task_phase [OF phase ids task] consider "vw_controller w \<noteq> Some c" "viewer_phase sc own w"
    | "vw_controller w = Some c" "fresh_tasks w = []" "vw_state w = ViewLoading" "\<not> vw_consuming w" "slug = vw_slug v"
    by (auto simp: stale_in_def w_def)
  then have "viewer_phase sc own (fetch_done url hash c answer w)"
  proof cases
    case 1 then show ?thesis by (simp add: fetch_done_def)
  next
    case 2 with own show ?thesis by (intro fetch_done_phase)
  qed
  then show ?thesis by (simp add: w_def)
qed

lemma step_consume_phase:
  assumes phase: "viewer_phase sc own v" and ids: "viewer_ids v"
    and task: "map_of (vw_tasks v) i = Some (ConsumeTask slug key)"
    and own: "\<And>p. slug = vw_slug v \<Longrightarrow> answer = Inr p \<Longrightarrow> own p" "\<And>b. answer \<noteq> Inr (BurnMetadata b)"
  shows "viewer_phase sc own (consume_done key answer (end_task i v))"
proof -
  from end_task_phase [OF phase ids task]
  have "fresh_tasks (end_task i v) = []" "vw_state v = ViewBurn" "vw_consuming v" "slug = vw_slug v"
    by (auto simp: stale_in_def)
  with own show ?thesis by (intro consume_done_phase) simp_all
qed

lemma step_open_phase:
  assumes phase: "viewer_phase sc own v" and ids: "viewer_ids v"
    and task: "map_of (vw_tasks v) i = Some (OpenTask c e k)"
  shows "viewer_phase sc own (open_done sc c e k (end_task i v))"
proof -
  define w where "w = end_task i v"
  from end_task_phase [OF phase ids task] consider "vw_controller w \<noteq> Some c" "viewer_phase sc own w"
    | "vw_controller w = Some c" "fresh_tasks w = []" "\<not> vw_consuming w" "holds_envelope own w e"
    by (auto simp: stale_in_def w_def)
  then have "viewer_phase sc own (open_done sc c e k w)"
  proof cases
    case 1 then show ?thesis by (simp add: open_done_def)
  next
    case 2 then show ?thesis by (intro open_done_phase)
  qed
  then show ?thesis by (simp add: w_def)
qed

lemma step_decryption_phase:
  assumes phase: "viewer_phase sc own v" and ids: "viewer_ids v"
  shows "viewer_phase sc own (viewer_step sc url lower (DecryptionEnds i) v)"
proof (cases "map_of (vw_tasks v) i")
  case None
  with phase show ?thesis by (simp add: viewer_step_def)
next
  case (Some t)
  note ended = end_task_phase [OF phase ids Some]
  show ?thesis
  proof (cases t)
    case (OpenTask c e k)
    with Some step_open_phase [OF phase ids] show ?thesis by (simp add: viewer_step_def)
  next
    case (GateTask e k)
    with ended Some show ?thesis by (simp add: viewer_step_def gate_done_phase stale_in_def)
  next
    case (RevealTask e k)
    with ended Some show ?thesis by (simp add: viewer_step_def reveal_done_phase stale_in_def)
  qed (use phase Some in \<open>simp_all add: viewer_step_def\<close>)
qed

lemma step_navigate_phase:
  assumes "viewer_phase sc own v" "viewer_ids v" "\<not> key_in_flight v"
  shows "viewer_phase sc own' (viewer_step sc url lower (Navigate slug) v)"
proof -
  define w where "w = v\<lparr>vw_slug := slug\<rparr>"
  have "viewer_ids w" "\<not> vw_consuming w" "\<not> key_in_flight w"
    using assms not_in_flight [OF assms(3,1)] by (simp_all add: w_def viewer_ids_def)
  then have "viewer_phase sc own' (load_paste w)" by (intro load_phase)
  then show ?thesis by (simp add: viewer_step_def w_def)
qed

lemma viewer_step_phase:
  fixes served opened :: "jsstring \<Rightarrow> pasteAnswer \<Rightarrow> bool"
  defines "own \<equiv> paste_from served opened"
  assumes phase: "viewer_phase sc (own (vw_slug v)) v" and ids: "viewer_ids v" and calm: "calm_event served opened v ev"
  shows "viewer_phase sc (own (vw_slug (viewer_step sc url lower ev v))) (viewer_step sc url lower ev v)"
proof (cases "\<exists>slug. ev = Navigate slug")
  case True
  with calm step_navigate_phase [OF phase ids] show ?thesis by (auto simp: calm_event_def)
next
  case False
  have "viewer_phase sc (own (vw_slug v)) (viewer_step sc url lower ev v)"
  proof (cases ev)
    case (FetchAnswer i hash answer)
    with phase calm show ?thesis
      by (auto simp: viewer_step_def calm_event_def own_def paste_from_def
          intro!: step_fetch_phase [OF phase [unfolded own_def] ids] split: option.split viewerTask.split)
  next
    case (ConsumeAnswer i answer)
    with phase calm show ?thesis
      by (auto simp: viewer_step_def calm_event_def own_def paste_from_def
          intro!: step_consume_phase [OF phase [unfolded own_def] ids] split: option.split viewerTask.split)
  next
    case (DecryptionEnds i)
    then show ?thesis using step_decryption_phase [OF phase ids] by simp
  qed (use False update_phase [OF phase] submitKey_phase [OF phase] reveal_phase [OF phase] in
      \<open>simp_all add: viewer_step_def\<close>)
  with False show ?thesis by (simp add: step_slug)
qed

lemma viewer_mount_ok: "viewer_ids (viewer_mount slug now) \<and> viewer_phase sc own (viewer_mount slug now)"
proof -
  have ids: "viewer_ids (viewer_new slug now)" by (simp add: viewer_ids_def viewer_new_def)
  have "\<not> key_in_flight (viewer_new slug now)" "\<not> vw_consuming (viewer_new slug now)"
    by (simp_all add: viewer_new_def uncontrolled_def)
  with ids ids_load [OF ids] show ?thesis by (simp add: viewer_mount_def load_phase)
qed

lemma viewer_reach_inv:
  "viewer_reach sc url lower served opened v \<Longrightarrow> viewer_ids v \<and> viewer_phase sc (paste_from served opened (vw_slug v)) v"
  by (induction rule: viewer_reach.induct)
    (simp_all add: viewer_mount_ok viewer_step_ids viewer_step_phase)

text \<open>
  The viewer shows the paste of its slug: whatever the order of clicks, answers and decryptions,
  as long as nobody navigates while a key is tried or a paste is consumed, a ready screen shows a
  paste that the service gave for the current slug, and of an encrypted paste the payload that its own
  envelope decrypts to; at the key gate the envelope is one given for the slug.
\<close>
theorem viewer_shows_its_paste:
  assumes "viewer_reach sc url lower served opened v"
  shows "case vw_state v of
      ViewReady \<Rightarrow> \<exists>p. vw_paste v = Some p \<and> (served (vw_slug v) (Inr p) \<or> opened (vw_slug v) (Inr p))
        \<and> paste_shown sc p (shown_payload v)
    | ViewKey \<Rightarrow> \<exists>r. vw_paste v = Some (RetrievedEncryptedPaste r)
        \<and> (served (vw_slug v) (Inr (RetrievedEncryptedPaste r)) \<or> opened (vw_slug v) (Inr (RetrievedEncryptedPaste r)))
    | _ \<Rightarrow> True"
proof (cases "vw_state v \<in> {ViewReady, ViewKey}")
  case True
  then have "\<not> task_phase own v t" for own t by (cases t) auto
  with viewer_reach_inv [OF assms] have "idle_state sc (paste_from served opened (vw_slug v)) v (vw_state v)"
    by (simp add: viewer_phase_def)
  with True show ?thesis by (auto simp: shows_own_def holds_envelope_def paste_from_def)
qed (cases "vw_state v"; simp)

section \<open>One paste is consumed per burn screen\<close>

text \<open>
  Consuming requests so far, and one if the burn screen is ready for one, against burn screens: the
  count that every event keeps, also one that navigates at any time.
\<close>

definition burn_budget :: "jsstring \<Rightarrow> viewer \<Rightarrow> bool" where
  "burn_budget slug v \<longleftrightarrow>
     count_list (vw_log v) (ConsumeRequest slug)
       + (if vw_state v = ViewBurn \<and> \<not> vw_consuming v \<and> vw_slug v = slug then 1 else 0)
     \<le> count_list (vw_log v) (BurnScreen slug)"

lemma budget_log:
  "burn_budget slug v \<Longrightarrow> e \<noteq> ConsumeRequest slug \<Longrightarrow> burn_budget slug (viewer_log e v)"
  by (auto simp: burn_budget_def split: if_splits)

lemma failure_not_burn [simp]: "failure_state e \<noteq> ViewBurn"
  by (simp add: failure_state_def split: apiFailure.split apiErrorCode.split)

lemma budget_leaves:
  assumes "burn_budget slug v" "count_list (vw_log v') (ConsumeRequest slug) = count_list (vw_log v) (ConsumeRequest slug)"
    "count_list (vw_log v') (BurnScreen slug) = count_list (vw_log v) (BurnScreen slug)" "vw_state v' \<noteq> ViewBurn \<or> vw_consuming v'"
  shows "burn_budget slug v'"
  using assms by (auto simp: burn_budget_def split: if_splits)

lemma budget_load:
  assumes "burn_budget slug v"
  shows "burn_budget slug (load_paste (v\<lparr>vw_slug := s\<rparr>))"
proof (cases "s = []")
  case True
  then show ?thesis by (simp add: load_paste_def) (rule budget_leaves [OF assms]; simp)
next
  case False
  then have "load_paste (v\<lparr>vw_slug := s\<rparr>) = start_task (FetchTask (vw_nextController v) s) (viewer_log (GetRequest s)
      (v\<lparr>vw_slug := s, vw_controller := Some (vw_nextController v), vw_nextController := Suc (vw_nextController v),
         vw_paste := None, vw_decrypted := None, vw_burnEncrypted := False, vw_keyInput := [], vw_state := ViewLoading\<rparr>))"
    by (simp add: load_paste_def Let_def)
  then show ?thesis by (simp only:) (rule budget_leaves [OF assms]; simp)
qed

lemma budget_fetch:
  assumes "burn_budget slug v"
  shows "burn_budget slug (fetch_done url hash c answer v)"
proof -
  have leave: "burn_budget slug (v\<lparr>vw_state := failure_state e\<rparr>)"
    "burn_budget slug (v\<lparr>vw_paste := p, vw_state := ViewReady\<rparr>)" "burn_budget slug (v\<lparr>vw_paste := p, vw_state := ViewKey\<rparr>)" for e p
    by (rule budget_leaves [OF assms]; simp)+
  have "burn_budget slug (start_task t (v\<lparr>vw_paste := p\<rparr>))" for t p
    using assms by (simp add: burn_budget_def)
  moreover have "burn_budget slug (viewer_log (BurnScreen (vw_slug v)) (v\<lparr>vw_burnEncrypted := b, vw_state := ViewBurn\<rparr>))" for b
    using assms by (auto simp: burn_budget_def split: if_splits)
  ultimately show ?thesis
    using assms leave by (simp add: fetch_done_def Let_def split: sum.split retrievedPaste.split)
qed

lemma budget_reveal:
  assumes "burn_budget slug v"
  shows "burn_budget slug (revealAndDestroy url hash v)"
proof -
  have "burn_budget slug (start_task (ConsumeTask (vw_slug v) key)
      (viewer_log (ConsumeRequest (vw_slug v)) (v\<lparr>vw_consuming := True\<rparr>)))"
    if "vw_state v = ViewBurn" "\<not> vw_consuming v" for key
    using assms that by (auto simp: burn_budget_def split: if_splits)
  moreover have "burn_budget slug (v\<lparr>vw_keyError := True\<rparr>)" using assms by (simp add: burn_budget_def)
  ultimately show ?thesis
    using assms by (simp add: revealAndDestroy_def Let_def split: sum.split)
qed

lemma budget_decryption:
  assumes "burn_budget slug v"
  shows "burn_budget slug (open_done sc c e k v)" "burn_budget slug (gate_done sc e k v)"
    "burn_budget slug (reveal_done sc e k' v)"
proof -
  have keep: "burn_budget slug (v\<lparr>vw_decrypted := p, vw_state := ViewReady\<rparr>)" "burn_budget slug (v\<lparr>vw_state := ViewKey\<rparr>)"
    "burn_budget slug (v\<lparr>vw_decrypted := p, vw_state := ViewReady, vw_consuming := b\<rparr>)"
    "burn_budget slug (v\<lparr>vw_state := ViewError, vw_consuming := b\<rparr>)"
    "burn_budget slug (v\<lparr>vw_keyError := b, vw_state := ViewKey\<rparr>)" for p b
    by (rule budget_leaves [OF assms]; simp)+
  with assms budget_log show "burn_budget slug (open_done sc c e k v)" "burn_budget slug (gate_done sc e k v)"
    "burn_budget slug (reveal_done sc e k' v)"
    by (simp_all add: open_done_def gate_done_def reveal_done_def split: sum.split)
qed

lemma budget_submit:
  assumes "burn_budget slug v"
  shows "burn_budget slug (submitKey url v)"
proof -
  have "burn_budget slug (v\<lparr>vw_keyError := b\<rparr>)"
    "burn_budget slug (start_task t (v\<lparr>vw_keyError := b, vw_state := ViewLoading\<rparr>))" for b t
    using assms by (simp add: burn_budget_def) (rule budget_leaves [OF assms]; simp)
  with assms budget_log show ?thesis
    by (simp add: submitKey_def split: sum.split option.split retrievedPaste.split)
qed

lemma budget_consume:
  assumes "burn_budget slug v"
  shows "burn_budget slug (consume_done k answer v)"
proof -
  have "burn_budget slug (v\<lparr>vw_state := failure_state e, vw_consuming := b\<rparr>)"
    "burn_budget slug (v\<lparr>vw_paste := p, vw_state := ViewReady, vw_consuming := b\<rparr>)" for e b p
    by (rule budget_leaves [OF assms]; simp)+
  moreover have "burn_budget slug (start_task t (v\<lparr>vw_paste := p\<rparr>))" for t p
    using assms by (simp add: burn_budget_def)
  ultimately show ?thesis by (simp add: consume_done_def Let_def split: sum.split retrievedPaste.split)
qed

lemma budget_other:
  assumes "burn_budget slug v"
  shows "burn_budget slug (copyContent b v)" "burn_budget slug (downloadContent lower v)" "burn_budget slug (end_task i v)"
    "burn_budget slug (v\<lparr>vw_keyInput := k\<rparr>)" "burn_budget slug (v\<lparr>vw_search := se\<rparr>)" "burn_budget slug (v\<lparr>vw_now := n\<rparr>)"
  using assms budget_log by (simp_all add: copyContent_def downloadContent_def split: option.split)
    (simp_all add: burn_budget_def)

lemmas budget_rules = budget_fetch budget_decryption budget_submit budget_consume budget_other budget_load budget_reveal

lemma budget_step: "burn_budget slug v \<Longrightarrow> burn_budget slug (viewer_step sc url lower ev v)"
  by (cases ev) (simp_all add: viewer_step_def budget_rules split: option.split viewerTask.split)

lemma budget_run: "burn_budget slug v \<Longrightarrow> burn_budget slug (viewer_run sc url lower evs v)"
  unfolding viewer_run_def by (rule fold_invariant [where Q = "\<lambda>_. True"]) (simp_all add: budget_step)

text \<open>
  C6. A view-once paste is destroyed at most once per burn screen that the user saw: in every run,
  whatever is clicked, answered or navigated, the viewer sends no more consuming requests for a slug
  than it showed burn screens for that slug.
\<close>
theorem consumed_once_per_burn_screen:
  "count_list (vw_log (viewer_run sc url lower evs (viewer_mount start now))) (ConsumeRequest slug)
     \<le> count_list (vw_log (viewer_run sc url lower evs (viewer_mount start now))) (BurnScreen slug)"
proof -
  have "burn_budget slug (viewer_new start now)" by (simp add: burn_budget_def viewer_new_def)
  from budget_load [OF this, of start] have "burn_budget slug (viewer_mount start now)"
    by (simp add: viewer_mount_def viewer_new_def)
  from budget_run [OF this, of sc url lower evs] show ?thesis unfolding burn_budget_def by linarith
qed

section \<open>A run\<close>

text \<open>An encrypted paste opened without its key, and the key typed into the gate.\<close>

definition demo_encrypted :: encryptedPaste where
  "demo_encrypted = (case encryptPayload demo_crypto (replicate 32 7) (replicate 12 9) demo_payload of
     Inr e \<Rightarrow> e | Inl e \<Rightarrow> \<lparr>ep_envelope = JUndefined, ep_key = []\<rparr>)"

lemma demo_encrypted_facts:
  "decryptPayload demo_crypto (ep_envelope demo_encrypted) (ep_key demo_encrypted) = Inr demo_payload"
  "keyFromFragmentOrURL url (ep_key demo_encrypted) = Inr (ep_key demo_encrypted)"
proof -
  obtain e where e: "encryptPayload demo_crypto (replicate 32 7) (replicate 12 9) demo_payload = Inr e"
    "decryptPayload demo_crypto (ep_envelope e) (ep_key e) = Inr demo_payload"
    using decrypt_encrypt_core [OF demo_crypto_laws, of "replicate 32 7" "replicate 12 9" demo_payload]
    by (auto simp: demo_payload_ok)
  then have "ep_key e = encodeBase64url (replicate 32 7)"
    by (auto simp: encryptPayload_def bind_result_Inr_iff Let_def split: option.splits)
  with e key_of_encoded [of "replicate 32 7" url] show
    "decryptPayload demo_crypto (ep_envelope demo_encrypted) (ep_key demo_encrypted) = Inr demo_payload"
    "keyFromFragmentOrURL url (ep_key demo_encrypted) = Inr (ep_key demo_encrypted)"
    by (simp_all add: demo_encrypted_def)
qed

lemma no_key_in_empty_hash: "keyFromFragmentOrURL url [] = Inl DecryptionError"
proof -
  have "decodeBase64url [] = Inr []"
    by (simp add: decodeBase64url_def pad_end_def replace_unit_def atob_def strip_pad_def)
  moreover have "\<not> contains_sub [] (js ''://'')" by (simp add: contains_sub_def js_def starts_with_def)
  moreover have "\<not> starts_with [] (js ''#'')" by (simp add: starts_with_def js_def)
  ultimately show ?thesis by (simp add: keyFromFragmentOrURL_def keyBytes_def)
qed

definition demo_retrieved :: "jsstring \<Rightarrow> jsval retrieved" where
  "demo_retrieved slug = \<lparr>rt_slug = slug, rt_data = ep_envelope demo_encrypted, rt_expiresAt = [], rt_createdAt = []\<rparr>"

definition demo_gate :: viewer where
  "demo_gate = viewer_run demo_crypto demo_url (\<lambda>s. s)
     [FetchAnswer 0 [] (Inr (RetrievedEncryptedPaste (demo_retrieved (js ''a'')))), KeyTyped (ep_key demo_encrypted), KeySubmitted]
     (viewer_mount (js ''a'') 0)"

lemma demo_gate_facts:
  "vw_slug demo_gate = js ''a''" "vw_tasks demo_gate = [(1, GateTask (ep_envelope demo_encrypted) (ep_key demo_encrypted))]"
  "vw_nextTask demo_gate = 2" "vw_controller demo_gate = Some 0" "vw_nextController demo_gate = 1"
  "vw_paste demo_gate = Some (RetrievedEncryptedPaste (demo_retrieved (js ''a'')))"
  by (simp_all add: demo_gate_def viewer_run_def viewer_mount_def load_paste_def viewer_new_def viewer_step_def Let_def
      fetch_done_def no_key_in_empty_hash submitKey_def demo_encrypted_facts start_task_def end_task_def viewer_log_def
      demo_retrieved_def)

lemma reach_run:
  "viewer_reach sc url lower served opened v \<Longrightarrow> (\<And>w ev. ev \<in> set evs \<Longrightarrow> calm_event served opened w ev)
    \<Longrightarrow> viewer_reach sc url lower served opened (viewer_run sc url lower evs v)"
proof (induction evs arbitrary: v)
  case (Cons ev evs)
  then have "viewer_reach sc url lower served opened (viewer_step sc url lower ev v)" by (intro reach_step) auto
  from Cons.IH [OF this] Cons.prems(2) show ?case by (simp add: viewer_run_def)
qed (simp add: viewer_run_def)

lemma demo_opened:
  defines "v \<equiv> viewer_step demo_crypto demo_url (\<lambda>s. s) (DecryptionEnds 1) demo_gate"
  shows "viewer_reach demo_crypto demo_url (\<lambda>s. s) (\<lambda>slug answer. True) (\<lambda>slug answer. True) v"
    "vw_state v = ViewReady" "shown_payload v = Some demo_payload"
proof -
  have "calm_event (\<lambda>slug answer. True) (\<lambda>slug answer. True) w ev"
    if "ev \<in> set [FetchAnswer 0 [] (Inr (RetrievedEncryptedPaste (demo_retrieved (js ''a'')))), KeyTyped (ep_key demo_encrypted), KeySubmitted]"
    for w ev
    using that by (auto simp: calm_event_def)
  then have "viewer_reach demo_crypto demo_url (\<lambda>s. s) (\<lambda>slug answer. True) (\<lambda>slug answer. True) demo_gate"
    unfolding demo_gate_def by (intro reach_run reach_mount)
  then show "viewer_reach demo_crypto demo_url (\<lambda>s. s) (\<lambda>slug answer. True) (\<lambda>slug answer. True) v"
    unfolding v_def by (rule reach_step) (simp add: calm_event_def)
  show "vw_state v = ViewReady" "shown_payload v = Some demo_payload"
    by (simp_all add: v_def viewer_step_def demo_gate_facts gate_done_def demo_encrypted_facts shown_payload_def)
qed

theorem viewer_shows_its_paste_witness:
  "let v = viewer_step demo_crypto demo_url (\<lambda>s. s) (DecryptionEnds 1) demo_gate
   in vw_state v = ViewReady \<and> shown_payload v = Some demo_payload
     \<and> (\<exists>p. vw_paste v = Some p \<and> paste_shown demo_crypto p (shown_payload v))"
  using viewer_shows_its_paste [OF demo_opened(1)] demo_opened(2,3) by auto

text \<open>
  A key tried for one paste can open another: the gate's decryption looks at no controller, so when
  the user goes to a second encrypted paste before it ends, the second paste's key gate is skipped and
  the first one's content is shown as the second's.
\<close>
theorem late_key_shows_other_paste:
  assumes "viewer_ids v" "map_of (vw_tasks v) i = Some (GateTask envelope key)"
    and "decryptPayload sc envelope key = Inr payload"
    and "slug \<noteq> []" "keyFromFragmentOrURL url hash = Inl e"
  shows "let v' = viewer_run sc url lower [Navigate slug, FetchAnswer (vw_nextTask v) hash (Inr (RetrievedEncryptedPaste r)),
      DecryptionEnds i] v
    in vw_slug v' = slug \<and> vw_state v' = ViewReady \<and> vw_paste v' = Some (RetrievedEncryptedPaste r)
      \<and> shown_payload v' = Some payload"
proof -
  define n where "n = vw_nextTask v"
  define ts where "ts = vw_tasks v"
  have "map_of ts n = None" "map_of ts i = Some (GateTask envelope key)"
    using assms(1,2) tasks_ok_fresh_id by (simp_all add: viewer_ids_def n_def ts_def)
  moreover from this have "i \<noteq> n" by auto
  moreover have "without_task n ts = ts" if "map_of ts n = None"
    using that by (intro without_absent) (simp add: map_of_eq_None_iff)
  ultimately show ?thesis
    using assms(3-5) unfolding Let_def
    by (simp add: viewer_run_def viewer_step_def load_paste_def Let_def fetch_done_def gate_done_def shown_payload_def
        start_task_def end_task_def viewer_log_def map_add_def n_def [symmetric] ts_def [symmetric])
qed

theorem late_key_shows_other_paste_witness:
  "let v' = viewer_run demo_crypto demo_url (\<lambda>s. s)
      [Navigate (js ''b''), FetchAnswer 2 [] (Inr (RetrievedEncryptedPaste (demo_retrieved (js ''b'')))), DecryptionEnds 1] demo_gate
    in vw_slug v' = js ''b'' \<and> vw_state v' = ViewReady
      \<and> vw_paste v' = Some (RetrievedEncryptedPaste (demo_retrieved (js ''b''))) \<and> shown_payload v' = Some demo_payload"
proof -
  have "viewer_ids demo_gate" by (simp add: viewer_ids_def tasks_ok_def demo_gate_facts)
  moreover have "map_of (vw_tasks demo_gate) 1 = Some (GateTask (ep_envelope demo_encrypted) (ep_key demo_encrypted))"
    by (simp add: demo_gate_facts)
  ultimately show ?thesis
    using late_key_shows_other_paste [of demo_gate 1, OF _ _ demo_encrypted_facts(1) _ no_key_in_empty_hash,
        of "js ''b''" demo_url "\<lambda>s. s" "demo_retrieved (js ''b'')"]
    by (simp add: demo_gate_facts(3))
qed

section \<open>Search, countdown and file name\<close>

text \<open>The visible match exists when there is one, and the buttons stay inside and undo each other.\<close>

lemma visible_match_exists: "0 < n \<Longrightarrow> visibleActiveMatch n a < n"
  by (simp add: visibleActiveMatch_def)

lemma match_buttons:
  assumes "se_active s < n"
  shows "se_active (nextMatch n s) < n" "se_active (previousMatch n s) < n"
    "previousMatch n (nextMatch n s) = s" "nextMatch n (previousMatch n s) = s"
proof -
  have "se_active s + 1 < n \<or> se_active s + 1 = n" using assms by linarith
  with assms show "se_active (nextMatch n s) < n" "se_active (previousMatch n s) < n"
    "previousMatch n (nextMatch n s) = s" "nextMatch n (previousMatch n s) = s"
    by (auto simp: nextMatch_def previousMatch_def)
qed

text \<open>The countdown is urgent exactly when it reads 0:01 to 1:00.\<close>

lemma urgent_countdown:
  "expiryLastMinute expiresAt now \<longleftrightarrow> 1 \<le> remainingSeconds expiresAt now \<and> remainingSeconds expiresAt now \<le> 60"
  by (auto simp: expiryLastMinute_def remainingSeconds_def Let_def)

definition filename_unit :: "16 word \<Rightarrow> bool" where
  "filename_unit u \<longleftrightarrow> word_unit u \<or> u = 0x2D"

lemma word_unit_dash: "\<not> word_unit 0x2D"
  by (simp add: word_unit_def)

lemma collapse_units: "list_all filename_unit (collapse_runs inside s)"
  by (induction inside s rule: collapse_runs.induct) (auto simp: filename_unit_def)

lemma collapse_inside: "collapse_runs True s = u # us \<Longrightarrow> u \<noteq> 0x2D"
  by (induction s) (auto simp: word_unit_dash split: if_splits)

lemma strip_head:
  assumes "strip_dashes (collapse_runs False s) = u # us"
  shows "u \<noteq> 0x2D"
proof (cases s)
  case (Cons x xs)
  show ?thesis
  proof (cases "word_unit x")
    case True
    with Cons assms word_unit_dash show ?thesis
      by (auto simp: strip_dashes_def Let_def split: if_splits)
  next
    case False
    with Cons have "collapse_runs False s = 0x2D # collapse_runs True xs" by simp
    with assms collapse_inside [of xs] show ?thesis
      by (cases "collapse_runs True xs") (auto simp: strip_dashes_def Let_def split: if_splits)
  qed
qed (use assms in \<open>simp add: strip_dashes_def\<close>)

lemma strip_units: "list_all P s \<Longrightarrow> list_all P (strip_dashes s)"
  by (auto simp: strip_dashes_def Let_def list_all_iff dest: in_set_butlastD list.set_sel(2))

text \<open>
  The name of a downloaded file is harmless whatever the title: it is a nonempty run of at most 128
  lower-case letters, digits and dashes that does not begin with a dash, followed by \<open>.txt\<close>; so it has
  no path separator and is no option or hidden file.
\<close>
theorem download_name_safe:
  assumes "slugPattern slug"
  shows "\<exists>base. safeFilename lower title slug = base @ js ''.txt'' \<and> base \<noteq> [] \<and> length base \<le> 128
    \<and> hd base \<noteq> 0x2D \<and> list_all filename_unit base"
proof -
  define name where "name = strip_dashes (collapse_runs False (lower (trim title)))"
  have units: "list_all filename_unit (take 60 name)"
    using strip_units [OF collapse_units] by (auto simp: name_def list_all_iff dest: in_set_takeD)
  show ?thesis
  proof (cases "name = []")
    case True
    from assms obtain u us where "slug = u # us" by (cases slug) (auto simp: slugPattern_def)
    moreover have "list_all filename_unit slug" "u \<in> set slug \<Longrightarrow> word_unit u" for u
      using assms by (auto simp: slugPattern_def list_all_iff filename_unit_def word_unit_def)
    ultimately show ?thesis
      using assms True word_unit_dash by (auto simp: safeFilename_def name_def [symmetric] slugPattern_def)
  next
    case False
    then obtain u us where "name = u # us" by (cases name) auto
    with units strip_head [OF this [unfolded name_def]] show ?thesis
      by (auto simp: safeFilename_def name_def [symmetric])
  qed
qed

theorem download_name_safe_witness:
  "\<exists>base. safeFilename (\<lambda>s. s) (js ''../etc'') (js ''abc'') = base @ js ''.txt'' \<and> base \<noteq> [] \<and> length base \<le> 128
    \<and> hd base \<noteq> 0x2D \<and> list_all filename_unit base"
  by (rule download_name_safe) (simp add: slugPattern_def js_def)

end
