(* ===== verification/Paste_Page.thy ===== *)
theory Paste_Page
  imports Markup Paste_Viewer
begin

text \<open>
  What the paste page renders (the markup of \<open>PasteViewer\<close>, \<open>FlipCountdown\<close> and \<open>ReadonlyPasteViewer\<close> in
  \<open>web/src/App.tsx\<close>), as a function of the state of \<open>Paste_Viewer\<close>, and the read-only editor with its
  highlights. Main facts: the content appears on the ready screen only; the controls that are offered
  are those whose events the page acts on; every screen is complete and its fields are labelled; the
  clock shows the remaining time.
\<close>

section \<open>The clock\<close>

definition padStart2 :: "jsstring \<Rightarrow> jsstring" where
  "padStart2 s = replicate (2 - length s) 0x30 @ s"

definition slice2 :: "jsstring \<Rightarrow> jsstring" where
  "slice2 s = drop (length s - 2) s"

definition is_colon :: "16 word \<Rightarrow> bool" where
  "is_colon u \<longleftrightarrow> u = 0x3A"

text \<open>\<open>value.split(":")\<close> with its defaults; \<open>Number\<close> and back drop leading zeros.\<close>

definition clock_parts :: "jsstring \<Rightarrow> jsstring \<times> jsstring" where
  "clock_parts value' =
     (let minutes = takeWhile (\<lambda>u. \<not> is_colon u) value'; rest = dropWhile (\<lambda>u. \<not> is_colon u) value'
      in (minutes, if rest = [] then js ''00'' else takeWhile (\<lambda>u. \<not> is_colon u) (tl rest)))"

definition FlipDigit :: "16 word \<Rightarrow> 'e node" where
  "FlipDigit digit = Element ''span'' [attr ''className'' ''flip-digit''] [] [Txt [digit]]"

definition clock_digits :: "jsstring \<Rightarrow> jsstring \<times> jsstring" where
  "clock_digits value' = (case clock_parts value' of (minutes, seconds) \<Rightarrow> (slice2 (padStart2 minutes), slice2 (padStart2 seconds)))"

definition clock_label :: "jsstring \<Rightarrow> jsstring" where
  "clock_label value' = (case clock_parts value' of (minutes, seconds) \<Rightarrow>
     js ''Expires in '' @ nat_str (digits_value minutes) @ js '' minutes '' @ nat_str (digits_value seconds) @ js '' seconds'')"

definition FlipCountdown :: "jsstring \<Rightarrow> bool \<Rightarrow> 'e node" where
  "FlipCountdown value' urgent =
     Element ''span''
       [attr ''className'' (if urgent then ''flip-clock expiry-last-minute'' else ''flip-clock''), attr ''role'' ''timer'',
        (''aria-label'', Str (clock_label value'))] []
       [Element ''span'' [attr ''className'' ''flip-digit-group'', attr ''aria-hidden'' ''true''] []
          (map FlipDigit (fst (clock_digits value'))),
        Element ''span'' [attr ''className'' ''flip-colon'', attr ''aria-hidden'' ''true''] [] [Txt (js '':'')],
        Element ''span'' [attr ''className'' ''flip-digit-group'', attr ''aria-hidden'' ''true''] []
          (map FlipDigit (snd (clock_digits value')))]"

section \<open>The page\<close>

text \<open>
  What the controls of the page do: an event of the component, or one of its callbacks. Some events
  carry what the browser answers at the time: the fragment of the location, and whether the clipboard
  takes a text.
\<close>

datatype pasteControl = Viewer viewerEvent | NewPasteAsked | CopyRetryAsked

record browserAnswers =
  ba_hash :: jsstring
  ba_written :: bool

text \<open>What the shell passes to the page.\<close>

record pasteProps =
  pp_shareURL :: "jsstring option"
  pp_copyFailed :: bool

text \<open>The search row, above the icons; \<open>count\<close> is the number of matches.\<close>

definition search_count :: "nat \<Rightarrow> nat \<Rightarrow> jsstring" where
  "search_count count active =
     (if count > 0 then nat_str (visibleActiveMatch count active + 1) @ js '' / '' @ nat_str count else js ''0 / 0'')"

definition search_row :: "nat \<Rightarrow> viewerSearch \<Rightarrow> pasteControl node" where
  "search_row count s =
     Element ''div'' [attr ''className'' (if se_closing s then ''viewer-search-row is-closing'' else ''viewer-search-row'')] []
      [Element ''div'' [attr ''className'' ''search-control''] []
        [Element ''div'' [attr ''className'' ''search-input-cell''] []
          (Element ''input''
             (optional (se_query s \<noteq> []) [attr ''className'' ''has-query'']
              @ [attr ''type'' ''search'', (''value'', Str (se_query s)), attr ''placeholder'' ''Find'', attr ''aria-label'' ''Search paste''])
             [(''onChange'', WithText (\<lambda>query. Viewer (SearchUsed (QueryTyped query)))),
              (''onKeyDown'', Run (Viewer (SearchUsed EscapeKey)))] []
           # optional (se_query s \<noteq> [])
              [Element ''button''
                [attr ''className'' ''search-clear'', attr ''type'' ''button'', attr ''aria-label'' ''Clear search'', attr ''title'' ''Clear search'']
                [(''onClick'', Run (Viewer (SearchUsed ClearClicked)))] [Txt [0xD7]]]),
         Element ''span'' [attr ''className'' ''search-count'', attr ''aria-live'' ''polite''] [] [Txt (search_count count (se_active s))],
         Element ''div'' [attr ''className'' ''search-navigation''] []
          [ActionButton (js ''Previous match'') (count = 0) (Viewer (SearchUsed PreviousClicked)) [PreviousIcon],
           ActionButton (js ''Next match'') (count = 0) (Viewer (SearchUsed NextClicked)) [NextIcon]]]]"

definition raw_path :: "jsstring \<Rightarrow> jsstring" where
  "raw_path slug = js ''/api/v1/pastes/'' @ the (encodeURIComponent slug) @ js ''/raw''"

definition action_icons :: "browserAnswers \<Rightarrow> bool \<Rightarrow> jsstring \<Rightarrow> pasteControl node" where
  "action_icons answers plaintext slug =
     Element ''div'' [attr ''className'' ''viewer-action-icons''] []
      ([ActionButton (js ''Search'') False (Viewer (SearchUsed SearchToggled)) [SearchIcon],
        ActionButton (js ''Copy'') False (Viewer (CopyClicked (ba_written answers))) [CopyIcon]]
       @ optional plaintext
          [Element ''a''
            [attr ''className'' ''action-button'', (''href'', Str (raw_path slug)), attr ''target'' ''_blank'', attr ''rel'' ''noreferrer'',
             attr ''aria-label'' ''Open raw paste'', attr ''title'' ''Raw''] [] [RawIcon]]
       @ [ActionButton (js ''Download'') False (Viewer DownloadClicked) [DownloadIcon],
          ActionButton (js ''Create new paste'') False NewPasteAsked [PlusIcon]])"

text \<open>\<open>expiryCountdown\<close> and \<open>expiryLastMinute\<close> of a one-hour paste.\<close>

definition expiry_clock :: "(jsstring \<Rightarrow> int option) \<Rightarrow> 'a retrieved \<Rightarrow> int \<Rightarrow> 'e node list" where
  "expiry_clock parse r now = (case parse (rt_expiresAt r) of
     Some expiresAt \<Rightarrow>
       optional (isOneHourPaste parse r)
         [Element ''span'' [attr ''className'' ''viewer-expiry-row''] []
           [FlipCountdown (formatExpiryCountdown expiresAt now) (expiryLastMinute expiresAt now)]]
   | None \<Rightarrow> [])"

definition paste_clock :: "(jsstring \<Rightarrow> int option) \<Rightarrow> retrievedPaste \<Rightarrow> int \<Rightarrow> pasteControl node list" where
  "paste_clock parse p now = (case p of
     RetrievedPaste r \<Rightarrow> expiry_clock parse r now
   | RetrievedEncryptedPaste r \<Rightarrow> expiry_clock parse r now
   | BurnMetadata encrypted \<Rightarrow> [])"

definition is_plaintext :: "retrievedPaste \<Rightarrow> bool" where
  "is_plaintext p = (case p of RetrievedPaste r \<Rightarrow> True | _ \<Rightarrow> False)"

text \<open>The heading of the ready screen.\<close>

definition viewer_heading :: "jsstring \<Rightarrow> 'e node" where
  "viewer_heading title =
     Element ''div'' [attr ''className'' ''viewer-identity''] []
      [if title \<noteq> [] then Element ''h1'' [attr ''id'' ''viewer-heading''] [] [Txt title]
       else Element ''h1'' [attr ''className'' ''sr-only'', attr ''id'' ''viewer-heading''] [] [Txt (js ''Paste'')]]"

definition copy_retry :: "pasteProps \<Rightarrow> pasteControl node list" where
  "copy_retry props =
     optional (pp_copyFailed props \<and> (case pp_shareURL props of Some url \<Rightarrow> url \<noteq> [] | None \<Rightarrow> False))
      [Element ''button'' [attr ''className'' ''copy-link-retry'', attr ''type'' ''button''] [(''onClick'', Run CopyRetryAsked)]
        [Txt (js ''Paste created '' @ [0x2014] @ js '' copy link'')]]"

definition ReadonlyPasteViewer :: "jsstring \<Rightarrow> 'e node" where
  "ReadonlyPasteViewer content =
     Element ''div'' [attr ''className'' ''readonly-paste-editor''] [] [Mounted (js ''Paste content'') content []]"

definition ready_screen ::
  "(jsstring \<Rightarrow> int option) \<Rightarrow> (jsstring \<Rightarrow> jsstring) \<Rightarrow> browserAnswers \<Rightarrow> pasteProps \<Rightarrow> retrievedPaste \<Rightarrow> jsval \<Rightarrow> viewer
   \<Rightarrow> pasteControl node" where
  "ready_screen parse lower answers props p payload v =
     Element ''main'' [attr ''className'' ''viewer-canvas'', attr ''aria-labelledby'' ''viewer-heading''] []
      ([Element ''header'' [attr ''className'' ''viewer-toolbar''] []
         (viewer_heading (string_prop payload ''title'')
          # paste_clock parse p (vw_now v)
          @ [Element ''div'' [attr ''className'' ''viewer-actions'', attr ''aria-label'' ''Paste actions''] []
              (optional (se_open (vw_search v) \<or> se_closing (vw_search v)) [search_row (length (viewer_matches lower v)) (vw_search v)]
               @ [action_icons answers (is_plaintext p) (vw_slug v)])])]
       @ copy_retry props
       @ [Element ''div'' [attr ''className'' ''paste-content''] [] [ReadonlyPasteViewer (string_prop payload ''content'')]])"

definition check_key_message :: jsstring where
  "check_key_message = js ''Unable to decrypt '' @ [0x2014] @ js '' check the key.''"

definition burn_screen :: "browserAnswers \<Rightarrow> viewer \<Rightarrow> pasteControl node" where
  "burn_screen answers v =
     Element ''main'' [attr ''className'' ''centered-state''] []
      ([Element ''h1'' [] [] [Txt (js ''View-once paste'')],
        Element ''p'' [] [] [Txt (js ''Opening this paste will permanently destroy the server copy.'')]]
       @ optional (vw_burnEncrypted v)
          ([Element ''p'' [] [] [Txt (js ''0xbin cannot verify this key before the paste is consumed.'')],
            Element ''label'' [attr ''className'' ''sr-only'', attr ''htmlFor'' ''burn-decryption-key''] [] [Txt (js ''Paste decryption key'')],
            Element ''input'' [attr ''id'' ''burn-decryption-key'', (''value'', Str (vw_keyInput v))]
              [(''onChange'', WithText (\<lambda>key. Viewer (KeyTyped key)))] []]
           @ optional (vw_keyError v) [Element ''p'' [attr ''role'' ''alert''] [] [Txt check_key_message]])
       @ [Element ''button'' [attr ''type'' ''button'', (''disabled'', Flag (vw_consuming v))]
           [(''onClick'', Run (Viewer (RevealClicked (ba_hash answers))))]
           [Txt (if vw_consuming v then js ''Revealing'' @ [0x2026] else js ''Reveal and destroy'')]])"

definition key_gate :: "viewer \<Rightarrow> pasteControl node" where
  "key_gate v =
     Element ''main'' [attr ''className'' ''key-gate''] []
      [Element ''form'' [attr ''className'' ''key-entry-form''] [(''onSubmit'', Run (Viewer KeySubmitted))]
        [Element ''label'' [attr ''className'' ''sr-only'', attr ''htmlFor'' ''decryption-key''] [] [Txt (js ''Paste decryption key'')],
         Element ''input''
           [attr ''id'' ''decryption-key'', (''aria-invalid'', Flag (vw_keyError v)), (''value'', Str (vw_keyInput v)),
            attr ''placeholder'' ''Decryption key here'']
           [(''onChange'', WithText (\<lambda>key. Viewer (KeyTyped key)))] [],
         Element ''button'' [attr ''type'' ''submit'', attr ''aria-label'' ''Decrypt'', attr ''title'' ''Decrypt''] [] [ArrowIcon]]]"

text \<open>The screens of the page; without a paste the ready page is empty.\<close>

definition PasteViewer ::
  "(jsstring \<Rightarrow> int option) \<Rightarrow> (jsstring \<Rightarrow> jsstring) \<Rightarrow> browserAnswers \<Rightarrow> pasteProps \<Rightarrow> viewer \<Rightarrow> pasteControl node list" where
  "PasteViewer parse lower answers props v = (case vw_state v of
     ViewLoading \<Rightarrow> [LoadingAnnouncement (js ''Loading paste'' @ [0x2026])]
   | ViewUnavailable \<Rightarrow>
       [CenteredState (js ''Paste unavailable'')
         (Some (js ''It may have expired, been consumed, been deleted, or never existed.''))
         [Element ''button'' [attr ''type'' ''button''] [(''onClick'', Run NewPasteAsked)] [Txt (js ''Create new paste'')]] True]
   | ViewError \<Rightarrow> [CenteredState (js ''Service unavailable'') (Some (js ''Try again in a moment.'')) [] False]
   | ViewBurn \<Rightarrow> [burn_screen answers v]
   | ViewKey \<Rightarrow> [key_gate v]
   | ViewReady \<Rightarrow>
       (case vw_paste v of
          None \<Rightarrow> []
        | Some p \<Rightarrow>
            (case shown_payload v of
               None \<Rightarrow> [CenteredState (js ''Decrypting'' @ [0x2026]) None [] False]
             | Some payload \<Rightarrow> [ready_screen parse lower answers props p payload v])))"

section \<open>The parts of the page\<close>

lemma clock_inert [simp]: "inert (FlipCountdown c u)"
  by (simp add: FlipCountdown_def FlipDigit_def list_all_iff)

lemma paste_clock_shape:
  "\<exists>clock. list_all inert clock \<and> length clock \<le> 1 \<and> paste_clock parse p now = clock"
  by (simp add: paste_clock_def expiry_clock_def optional_def split: retrievedPaste.split option.split)

lemma paste_clock_cases:
  obtains "paste_clock parse p now = []" | n where "paste_clock parse p now = [n]" "inert n"
  using paste_clock_shape [of parse p now] by (cases "paste_clock parse p now") auto

lemma search_row_facts [simp]:
  "ids (search_row n s) = []" "references (search_row n s) = []" "label_targets (search_row n s) = []"
  "submit_buttons (search_row n s) = []" "shown_documents (search_row n s) = []" "landmarks (search_row n s) = 0"
  "named L b (search_row n s)" "hidden_inert False (search_row n s)"
  by (simp_all add: search_row_def ActionButton_def optional_def markup_attributes is_control_def is_field_def)

lemma action_icons_facts [simp]:
  "ids (action_icons ans b slug) = []" "references (action_icons ans b slug) = []" "label_targets (action_icons ans b slug) = []"
  "submit_buttons (action_icons ans b slug) = []" "shown_documents (action_icons ans b slug) = []" "landmarks (action_icons ans b slug) = 0"
  "named L c (action_icons ans b slug)" "hidden_inert False (action_icons ans b slug)"
  by (simp_all add: action_icons_def ActionButton_def optional_def markup_attributes is_control_def is_field_def)

lemma viewer_heading_facts [simp]:
  "ids (viewer_heading title) = [js ''viewer-heading'']" "references (viewer_heading title) = []"
  "label_targets (viewer_heading title) = []" "listeners (viewer_heading title) = []"
  "shown_documents (viewer_heading title) = []" "landmarks (viewer_heading title) = 0"
  "named L b (viewer_heading title)" "hidden_inert False (viewer_heading title)"
  by (simp_all add: viewer_heading_def markup_attributes is_control_def Let_def)

lemma copy_retry_facts [simp]:
  "concat (map ids (copy_retry props)) = []" "concat (map references (copy_retry props)) = []"
  "concat (map label_targets (copy_retry props)) = []" "concat (map shown_documents (copy_retry props)) = []"
  "sum_list (map landmarks (copy_retry props)) = 0" "\<forall>n\<in>set (copy_retry props). named L b n"
  "\<forall>n\<in>set (copy_retry props). hidden_inert False n"
  by (simp_all add: copy_retry_def optional_def markup_attributes is_control_def is_field_def)

lemma page_attributes [simp]:
  "own_id [attr ''className'' c] = []" "own_references [attr ''className'' c] = []"
  "attribute_text [attr ''className'' c] ''htmlFor'' = []" "attribute_text [attr ''className'' c] ''aria-label'' = []"
  "\<not> attribute_set [attr ''className'' c] ''hidden''" "\<not> attribute_set [attr ''className'' c] ''aria-hidden''"
  by (simp_all add: markup_attributes)

lemma ready_screen_accessible: "accessible [ready_screen parse lower ans props p payload v]"
  by (cases rule: paste_clock_cases [of parse p "vw_now v"])
    (simp_all add: accessible_def ready_screen_def ReadonlyPasteViewer_def
      optional_def markup_attributes is_control_def Let_def)

lemma burn_screen_accessible: "accessible [burn_screen answers v]"
  by (cases "vw_burnEncrypted v"; cases "vw_keyError v")
    (simp_all add: accessible_def burn_screen_def markup_attributes is_control_def is_field_def)

lemma key_gate_accessible: "accessible [key_gate v]"
  by (simp add: accessible_def key_gate_def optional_def markup_attributes is_control_def is_field_def Let_def)

lemma paste_page_accessible: "accessible (PasteViewer parse lower answers props v)"
proof -
  have "accessible [CenteredState label None [] b :: pasteControl node]" for label b
    by (simp add: accessible_def CenteredState_def optional_def markup_attributes is_control_def)
  moreover have "accessible [CenteredState label (Some detail) [] b :: pasteControl node]" for label detail b
    by (simp add: accessible_def CenteredState_def optional_def markup_attributes is_control_def)
  moreover have "accessible [CenteredState label (Some detail)
      [Element ''button'' [attr ''type'' ''button''] [(''onClick'', Run NewPasteAsked)] [Txt (js ''Create new paste'')]] b]" for label detail b
    by (simp add: accessible_def CenteredState_def optional_def markup_attributes is_control_def is_field_def)
  moreover have "accessible [LoadingAnnouncement label :: pasteControl node]" for label
    by (simp add: accessible_def LoadingAnnouncement_def markup_attributes is_control_def)
  moreover have "accessible ([] :: pasteControl node list)" by (simp add: accessible_def)
  ultimately show ?thesis
    by (simp add: PasteViewer_def ready_screen_accessible burn_screen_accessible key_gate_accessible
        split: viewerState.split option.split)
qed

section \<open>What is offered and shown\<close>

text \<open>The ready screen with its content.\<close>

definition content_shown :: "viewer \<Rightarrow> jsval option" where
  "content_shown v = (if vw_state v = ViewReady \<and> vw_paste v \<noteq> None then shown_payload v else None)"

lemma search_row_listeners: "listeners (search_row n s) =
    [(''onChange'', WithText (\<lambda>query. Viewer (SearchUsed (QueryTyped query)))), (''onKeyDown'', Run (Viewer (SearchUsed EscapeKey)))]
    @ optional (se_query s \<noteq> []) [(''onClick'', Run (Viewer (SearchUsed ClearClicked)))]
    @ optional (n \<noteq> 0) [(''onClick'', Run (Viewer (SearchUsed PreviousClicked))), (''onClick'', Run (Viewer (SearchUsed NextClicked)))]"
  by (cases "se_query s = []"; cases "n = 0") (simp_all add: search_row_def ActionButton_def markup_attributes)

lemma action_icons_listeners: "listeners (action_icons answers b slug) = map (\<lambda>e. (''onClick'', Run e))
    [Viewer (SearchUsed SearchToggled), Viewer (CopyClicked (ba_written answers)), Viewer DownloadClicked, NewPasteAsked]"
  by (simp add: action_icons_def ActionButton_def optional_def markup_attributes)

lemma copy_retry_listeners: "set (concat (map listeners (copy_retry props))) \<subseteq> {(''onClick'', Run CopyRetryAsked)}"
  by (simp add: copy_retry_def optional_def markup_attributes)

lemma ready_screen_listeners: "set (listeners (ready_screen parse lower answers props p payload v)) =
    (if se_open (vw_search v) \<or> se_closing (vw_search v) then set (listeners (search_row (length (viewer_matches lower v)) (vw_search v))) else {})
    \<union> set (listeners (action_icons answers (is_plaintext p) (vw_slug v))) \<union> set (concat (map listeners (copy_retry props)))"
  by (cases rule: paste_clock_cases [of parse p "vw_now v"])
    (simp_all add: ready_screen_def ReadonlyPasteViewer_def optional_def markup_attributes Un_assoc)

lemma burn_screen_listeners: "listeners (burn_screen answers v) =
    optional (vw_burnEncrypted v) [(''onChange'', WithText (\<lambda>key. Viewer (KeyTyped key)))]
    @ optional (\<not> vw_consuming v) [(''onClick'', Run (Viewer (RevealClicked (ba_hash answers))))]"
  by (cases "vw_burnEncrypted v"; cases "vw_consuming v"; cases "vw_keyError v") (simp_all add: burn_screen_def markup_attributes)

lemma key_gate_listeners: "listeners (key_gate v) =
    [(''onSubmit'', Run (Viewer KeySubmitted)), (''onChange'', WithText (\<lambda>key. Viewer (KeyTyped key)))]"
  by (simp add: key_gate_def markup_attributes)

text \<open>The events a reader can cause on the ready screen, and on the page.\<close>

definition search_event_allowed :: "(jsstring \<Rightarrow> jsstring) \<Rightarrow> viewer \<Rightarrow> searchEvent \<Rightarrow> bool" where
  "search_event_allowed lower v s \<longleftrightarrow> s = SearchToggled
     \<or> (se_open (vw_search v) \<or> se_closing (vw_search v))
       \<and> (case s of PreviousClicked \<Rightarrow> viewer_matches lower v \<noteq> [] | NextClicked \<Rightarrow> viewer_matches lower v \<noteq> []
          | ClearClicked \<Rightarrow> se_query (vw_search v) \<noteq> [] | EscapeKey \<Rightarrow> True | QueryTyped query \<Rightarrow> True | _ \<Rightarrow> False)"

definition ready_event :: "(jsstring \<Rightarrow> jsstring) \<Rightarrow> browserAnswers \<Rightarrow> viewer \<Rightarrow> viewerEvent \<Rightarrow> bool" where
  "ready_event lower answers v e \<longleftrightarrow> (case e of
     SearchUsed s \<Rightarrow> search_event_allowed lower v s
   | CopyClicked written \<Rightarrow> written = ba_written answers
   | DownloadClicked \<Rightarrow> True
   | _ \<Rightarrow> False)"

lemma ready_screen_offers:
  "offers [ready_screen parse lower answers props p payload v] (Viewer e) \<longleftrightarrow> ready_event lower answers v e"
proof -
  have none: "\<not> yields (snd l) (Viewer e)" if "l \<in> set (concat (map listeners (copy_retry props)))" for l e
    using copy_retry_listeners [of props] that by auto
  have "offers [ready_screen parse lower answers props p payload v] (Viewer e) \<longleftrightarrow>
      (se_open (vw_search v) \<or> se_closing (vw_search v))
        \<and> (\<exists>l\<in>set (listeners (search_row (length (viewer_matches lower v)) (vw_search v))). yields (snd l) (Viewer e))
      \<or> (\<exists>l\<in>set (listeners (action_icons answers (is_plaintext p) (vw_slug v))). yields (snd l) (Viewer e))"
    using none [of _ e] by (simp only: offers_single ready_screen_listeners) auto
  moreover have "(\<exists>l\<in>set (listeners (search_row n s)). yields (snd l) (Viewer e)) \<longleftrightarrow>
      (\<exists>query. e = SearchUsed (QueryTyped query)) \<or> e = SearchUsed EscapeKey \<or> e = SearchUsed ClearClicked \<and> se_query s \<noteq> []
      \<or> e \<in> {SearchUsed PreviousClicked, SearchUsed NextClicked} \<and> n \<noteq> 0" for n s
    by (auto simp: search_row_listeners set_optional)
  moreover have "(\<exists>l\<in>set (listeners (action_icons answers b slug)). yields (snd l) (Viewer e)) \<longleftrightarrow>
      e \<in> {SearchUsed SearchToggled, CopyClicked (ba_written answers), DownloadClicked}" for b slug
    by (auto simp: action_icons_listeners)
  ultimately have offered: "offers [ready_screen parse lower answers props p payload v] (Viewer e) \<longleftrightarrow>
      (se_open (vw_search v) \<or> se_closing (vw_search v))
        \<and> ((\<exists>query. e = SearchUsed (QueryTyped query)) \<or> e = SearchUsed EscapeKey
          \<or> e = SearchUsed ClearClicked \<and> se_query (vw_search v) \<noteq> []
          \<or> e \<in> {SearchUsed PreviousClicked, SearchUsed NextClicked} \<and> length (viewer_matches lower v) \<noteq> 0)
      \<or> e \<in> {SearchUsed SearchToggled, CopyClicked (ba_written answers), DownloadClicked}"
    by (simp only:)
  show ?thesis
  proof (cases e)
    case (SearchUsed s)
    with offered show ?thesis by (cases s) (auto simp: ready_event_def search_event_allowed_def)
  qed (use offered in \<open>auto simp: ready_event_def\<close>)
qed

lemma screen_offers:
  "\<not> offers [LoadingAnnouncement label] e" "\<not> offers [CenteredState label detail [] b] e"
  "offers [CenteredState label detail [Element ''button'' [attr ''type'' ''button''] [(''onClick'', Run NewPasteAsked)] ns] b] e
     \<longleftrightarrow> e = NewPasteAsked \<or> offers ns e"
  by (cases detail; simp add: offers_def LoadingAnnouncement_def CenteredState_def optional_def markup_attributes)+

lemma burn_screen_offers: "offers [burn_screen answers v] (Viewer e) \<longleftrightarrow>
    vw_burnEncrypted v \<and> (\<exists>key. e = KeyTyped key) \<or> \<not> vw_consuming v \<and> e = RevealClicked (ba_hash answers)"
  by (auto simp: offers_single burn_screen_listeners set_optional)

lemma key_gate_offers: "offers [key_gate v] (Viewer e) \<longleftrightarrow> e = KeySubmitted \<or> (\<exists>key. e = KeyTyped key)"
  by (auto simp: offers_single key_gate_listeners)

lemma no_offer: "\<not> offers [] e" "offers [Txt s] e \<longleftrightarrow> False"
  by (simp_all add: offers_def)

text \<open>
  C10. The controls of the paste page and the guards of its operations agree. What a reader can cause is
  exactly: typing a key where one is asked for, submitting it at the key gate, revealing on the confirmation
  screen while no reveal is under way and with the fragment of the location, and on the ready screen with its
  content searching, copying and downloading; stepping between matches only when there are matches, so
  that no index is computed modulo zero. No control is offered for an answer, a timer or an address.
\<close>
theorem paste_controls_allowed:
  "offers (PasteViewer parse lower answers props v) (Viewer e) \<longleftrightarrow> (case e of
      RevealClicked hash \<Rightarrow> vw_state v = ViewBurn \<and> \<not> vw_consuming v \<and> hash = ba_hash answers
    | KeyTyped key \<Rightarrow> vw_state v = ViewKey \<or> vw_state v = ViewBurn \<and> vw_burnEncrypted v
    | KeySubmitted \<Rightarrow> vw_state v = ViewKey
    | SearchUsed s \<Rightarrow> content_shown v \<noteq> None \<and> (s = SearchToggled
        \<or> (se_open (vw_search v) \<or> se_closing (vw_search v))
          \<and> (case s of PreviousClicked \<Rightarrow> viewer_matches lower v \<noteq> [] | NextClicked \<Rightarrow> viewer_matches lower v \<noteq> []
             | ClearClicked \<Rightarrow> se_query (vw_search v) \<noteq> [] | EscapeKey \<Rightarrow> True | QueryTyped query \<Rightarrow> True | _ \<Rightarrow> False))
    | CopyClicked written \<Rightarrow> content_shown v \<noteq> None \<and> written = ba_written answers
    | DownloadClicked \<Rightarrow> content_shown v \<noteq> None
    | _ \<Rightarrow> False)"
proof (cases "vw_state v = ViewReady")
  case True
  have "offers (PasteViewer parse lower answers props v) (Viewer e) \<longleftrightarrow> content_shown v \<noteq> None \<and> ready_event lower answers v e"
    using True by (auto simp: PasteViewer_def content_shown_def screen_offers no_offer ready_screen_offers split: option.split)
  with True show ?thesis by (cases e) (simp_all add: ready_event_def search_event_allowed_def)
next
  case False
  then have "content_shown v = None" by (simp add: content_shown_def)
  with False show ?thesis
    by (cases "vw_state v"; cases e)
      (simp_all add: PasteViewer_def screen_offers no_offer burn_screen_offers key_gate_offers)
qed

lemma page_contents:
  "concat (map shown_documents (PasteViewer parse lower answers props v)) =
     (case content_shown v of None \<Rightarrow> [] | Some payload \<Rightarrow> [string_prop payload ''content''])"
  "sum_list (map landmarks (PasteViewer parse lower answers props v)) =
     (if vw_state v = ViewReady \<and> vw_paste v = None then 0 else 1)"
proof -
  have centered: "shown_documents (CenteredState label detail ns b) = concat (map shown_documents ns)"
    "landmarks (CenteredState label detail ns b) = Suc (sum_list (map landmarks ns))" for label detail b and ns :: "pasteControl node list"
    by (cases detail; simp add: CenteredState_def optional_def markup_attributes)+
  have loading: "shown_documents (LoadingAnnouncement label) = []" "landmarks (LoadingAnnouncement label) = 1" for label
    by (simp_all add: LoadingAnnouncement_def markup_attributes)
  have burn: "shown_documents (burn_screen answers v) = []" "landmarks (burn_screen answers v) = 1"
    by (cases "vw_burnEncrypted v"; cases "vw_keyError v"; simp add: burn_screen_def markup_attributes)+
  have gate: "shown_documents (key_gate v) = []" "landmarks (key_gate v) = 1" by (simp_all add: key_gate_def markup_attributes)
  have ready: "shown_documents (ready_screen parse lower answers props p payload v) = [string_prop payload ''content'']"
    "landmarks (ready_screen parse lower answers props p payload v) = 1" for p payload
    by (cases rule: paste_clock_cases [of parse p "vw_now v"];
        simp add: ready_screen_def ReadonlyPasteViewer_def optional_def markup_attributes)+
  show "concat (map shown_documents (PasteViewer parse lower answers props v)) =
     (case content_shown v of None \<Rightarrow> [] | Some payload \<Rightarrow> [string_prop payload ''content''])"
    by (cases "vw_state v") (simp_all add: PasteViewer_def content_shown_def centered loading burn gate ready markup_attributes
        split: option.split)
  show "sum_list (map landmarks (PasteViewer parse lower answers props v)) =
     (if vw_state v = ViewReady \<and> vw_paste v = None then 0 else 1)"
    by (cases "vw_state v") (simp_all add: PasteViewer_def centered loading burn gate ready markup_attributes split: option.split)
qed



section \<open>The clock shows the remaining time\<close>

lemma digit_value_zero: "digits_value (0x30 # ds) = digits_value ds"
  by (simp add: digits_value_def)

lemma digits_value_pad: "digits_value (replicate k 0x30 @ ds) = digits_value ds"
proof -
  have "foldl (\<lambda>a d. 10 * a + (unat d - 48)) 0 (replicate k (0x30 :: 16 word)) = (0 :: nat)" by (induction k) simp_all
  then show ?thesis by (simp add: digits_value_def)
qed

lemma nat_str_facts:
  "digits_value (nat_str n) = n" "list_all is_digit (nat_str n)" "nat_str n \<noteq> []" "n < 100 \<Longrightarrow> length (nat_str n) \<le> 2"
proof -
  show "length (nat_str n) \<le> 2" if "n < 100"
  proof -
    have "n div 10 < 10" using that by linarith
    then show ?thesis by (simp add: nat_str_def digits_of.simps [of n] digits_of.simps [of "n div 10"])
  qed
qed (use digits_of_facts [of n] in \<open>simp_all add: nat_str_def list_all_iff\<close>)

lemma digit_not_colon: "is_digit u \<Longrightarrow> \<not> is_colon u"
  by (auto simp: is_digit_def is_colon_def)

lemma clock_parts_digits:
  assumes "list_all is_digit m" "list_all is_digit s"
  shows "clock_parts (m @ js '':'' @ s) = (m, s)"
proof -
  have plain: "\<forall>u\<in>set m. \<not> is_colon u" "\<forall>u\<in>set s. \<not> is_colon u"
    using assms digit_not_colon by (auto simp: list_all_iff)
  then have "takeWhile (\<lambda>u. \<not> is_colon u) (m @ js '':'' @ s) = m" "dropWhile (\<lambda>u. \<not> is_colon u) (m @ js '':'' @ s) = js '':'' @ s"
    "takeWhile (\<lambda>u. \<not> is_colon u) s = s"
    by (simp_all add: js_def is_colon_def takeWhile_append2 dropWhile_append2)
  then show ?thesis by (simp add: clock_parts_def Let_def js_def)
qed

text \<open>
  The clock of a one-hour paste is right: from its creation on it has two digits for the minutes and two for the
  seconds, which read as a number give the seconds that remain until it expires, rounded up, and what is
  spoken names the same minutes and seconds.
\<close>
theorem clock_shows_remaining_time:
  assumes "isOneHourPaste parse r" "parse (rt_createdAt r) = Some created" "parse (rt_expiresAt r) = Some expires" "created \<le> now"
  shows "let value' = formatExpiryCountdown expires now; (m, s) = clock_digits value'; rest = remainingSeconds expires now
    in length m = 2 \<and> length s = 2 \<and> list_all is_digit (m @ s)
      \<and> digits_value m * 60 + digits_value s = rest \<and> digits_value s < 60
      \<and> clock_label value' = js ''Expires in '' @ nat_str (digits_value m) @ js '' minutes '' @ nat_str (digits_value s) @ js '' seconds''"
proof -
  define rest where "rest = remainingSeconds expires now"
  define s where "s = replicate (2 - length (nat_str (rest mod 60))) 0x30 @ nat_str (rest mod 60)"
  have "expires - created \<le> 61 * 60 * 1000" using assms(1-3) by (simp add: isOneHourPaste_def Let_def)
  then have "(expires - now + 999) div 1000 \<le> 3660" using assms(4) by linarith
  then have "rest div 60 < 100" by (simp add: rest_def remainingSeconds_def)
  then have minutes: "length (nat_str (rest div 60)) \<le> 2" by (rule nat_str_facts)
  have seconds: "length (nat_str (rest mod 60)) \<le> 2" by (rule nat_str_facts) simp
  have padded: "padStart2 t = t" "slice2 t = t" if "length t = 2" for t using that by (simp_all add: padStart2_def slice2_def)
  have s: "length s = 2" "list_all is_digit s" "digits_value s = rest mod 60"
    using seconds nat_str_facts [of "rest mod 60"] by (auto simp: s_def digits_value_pad list_all_iff is_digit_def)
  have m: "length (padStart2 (nat_str (rest div 60))) = 2" "list_all is_digit (padStart2 (nat_str (rest div 60)))"
    "digits_value (padStart2 (nat_str (rest div 60))) = rest div 60"
    using minutes nat_str_facts [of "rest div 60"] by (auto simp: padStart2_def digits_value_pad list_all_iff is_digit_def)
  have "formatExpiryCountdown expires now = nat_str (rest div 60) @ js '':'' @ s"
    by (simp add: formatExpiryCountdown_def rest_def s_def Let_def)
  with clock_parts_digits [OF nat_str_facts(2) s(2)] have parts: "clock_parts (formatExpiryCountdown expires now) = (nat_str (rest div 60), s)"
    by simp
  then have "clock_digits (formatExpiryCountdown expires now) = (padStart2 (nat_str (rest div 60)), s)"
    by (simp add: clock_digits_def padded m(1) s(1))
  moreover have "clock_label (formatExpiryCountdown expires now) =
      js ''Expires in '' @ nat_str (rest div 60) @ js '' minutes '' @ nat_str (rest mod 60) @ js '' seconds''"
    by (simp add: clock_label_def parts nat_str_facts s(3))
  ultimately show ?thesis using m s by (simp add: rest_def [symmetric] Let_def)
qed

definition demo_hour :: "unit retrieved" where
  "demo_hour = \<lparr>rt_slug = [], rt_data = (), rt_expiresAt = js ''b'', rt_createdAt = js ''a''\<rparr>"

theorem clock_shows_remaining_time_witness:
  "let (m, s) = clock_digits (formatExpiryCountdown 3600000 55000) in digits_value m * 60 + digits_value s = 3545"
  using clock_shows_remaining_time [of "\<lambda>t. if t = js ''a'' then Some 0 else Some 3600000" demo_hour 0 3600000 55000]
  by (simp add: demo_hour_def isOneHourPaste_def Let_def remainingSeconds_def split: prod.splits)

section \<open>The read-only editor\<close>

text \<open>
  The effects of \<open>ReadonlyPasteViewer\<close>. The matches are a memoised array: \<open>rp_stamp\<close> is its identity, which
  the effects compare. The effect that loads the language is that of the editor (\<open>Editor_Controls\<close>).
\<close>

record readonlyProps =
  rp_content :: jsstring
  rp_matches :: "(nat \<times> nat) list"
  rp_stamp :: nat
  rp_activeMatch :: nat

record readonlyEditor =
  ro_document :: jsstring
  ro_highlights :: "(nat \<times> nat) list"
  ro_active :: "(nat \<times> nat) option"
  ro_selection :: "(nat \<times> nat) option"
  ro_scrolled :: nat
  ro_previousMatches :: "nat option"

definition active_match :: "readonlyProps \<Rightarrow> (nat \<times> nat) option" where
  "active_match p = (if rp_activeMatch p < length (rp_matches p) then Some (rp_matches p ! rp_activeMatch p) else None)"

text \<open>The effect on the content creates an editor in the place of the one before.\<close>

definition create_editor :: "readonlyProps \<Rightarrow> readonlyEditor \<Rightarrow> readonlyEditor" where
  "create_editor p e =
     e\<lparr>ro_document := rp_content p, ro_highlights := rp_matches p, ro_active := active_match p, ro_selection := None\<rparr>"

definition matches_effect :: "readonlyProps \<Rightarrow> readonlyEditor \<Rightarrow> readonlyEditor" where
  "matches_effect p e = e\<lparr>ro_highlights := rp_matches p\<rparr>"

definition active_effect :: "readonlyProps \<Rightarrow> readonlyEditor \<Rightarrow> readonlyEditor" where
  "active_effect p e =
     (let shouldScroll = (ro_previousMatches e = Some (rp_stamp p)); match = active_match p
      in e\<lparr>ro_active := match, ro_selection := (if match = None then ro_selection e else match),
        ro_scrolled := ro_scrolled e + (if shouldScroll \<and> match \<noteq> None then 1 else 0),
        ro_previousMatches := Some (rp_stamp p)\<rparr>)"

definition readonly_mount :: "readonlyProps \<Rightarrow> readonlyEditor" where
  "readonly_mount p = active_effect p (matches_effect p (create_editor p
     \<lparr>ro_document = [], ro_highlights = [], ro_active = None, ro_selection = None, ro_scrolled = 0, ro_previousMatches = None\<rparr>))"

text \<open>The effects after a render whose dependencies changed, in their order.\<close>

definition readonly_render :: "readonlyProps \<Rightarrow> readonlyProps \<Rightarrow> readonlyEditor \<Rightarrow> readonlyEditor" where
  "readonly_render before p e =
     (let e = (if rp_content p \<noteq> rp_content before then create_editor p e else e);
          e = (if rp_stamp p \<noteq> rp_stamp before then matches_effect p e else e)
      in if rp_stamp p \<noteq> rp_stamp before \<or> rp_activeMatch p \<noteq> rp_activeMatch before then active_effect p e else e)"

fun readonly_run :: "readonlyProps \<Rightarrow> readonlyProps list \<Rightarrow> readonlyEditor \<Rightarrow> readonlyEditor" where
  "readonly_run before [] e = e"
| "readonly_run before (p # ps) e = readonly_run p ps (readonly_render before p e)"

text \<open>Renders pass the same array only for the same content and matches.\<close>

definition memoised :: "readonlyProps \<Rightarrow> readonlyProps \<Rightarrow> bool" where
  "memoised p q \<longleftrightarrow> (rp_stamp p = rp_stamp q \<longrightarrow> rp_content p = rp_content q \<and> rp_matches p = rp_matches q)"

definition steps_to_match :: "readonlyProps \<Rightarrow> readonlyProps \<Rightarrow> bool" where
  "steps_to_match p q \<longleftrightarrow> rp_stamp p = rp_stamp q \<and> rp_activeMatch p \<noteq> rp_activeMatch q \<and> active_match q \<noteq> None"

definition readonly_shows :: "readonlyProps \<Rightarrow> readonlyEditor \<Rightarrow> bool" where
  "readonly_shows p e \<longleftrightarrow> ro_document e = rp_content p \<and> ro_highlights e = rp_matches p \<and> ro_active e = active_match p
     \<and> ro_previousMatches e = Some (rp_stamp p)"

lemma readonly_mount_shows: "readonly_shows p (readonly_mount p) \<and> ro_scrolled (readonly_mount p) = 0"
  by (simp add: readonly_mount_def readonly_shows_def active_effect_def matches_effect_def create_editor_def Let_def)

lemma readonly_render_shows:
  assumes "readonly_shows before e" "memoised before p"
  shows "readonly_shows p (readonly_render before p e)
    \<and> ro_scrolled (readonly_render before p e) = ro_scrolled e + (if steps_to_match before p then 1 else 0)"
proof (cases "rp_stamp p = rp_stamp before")
  case True
  with assms have same: "rp_content p = rp_content before" "rp_matches p = rp_matches before" by (auto simp: memoised_def)
  show ?thesis
  proof (cases "rp_activeMatch p = rp_activeMatch before")
    case True
    with \<open>rp_stamp p = _\<close> same assms(1) show ?thesis
      by (simp add: readonly_shows_def readonly_render_def steps_to_match_def active_match_def)
  next
    case False
    with \<open>rp_stamp p = _\<close> same assms(1) show ?thesis
      by (simp add: readonly_shows_def readonly_render_def active_effect_def steps_to_match_def Let_def)
  qed
next
  case False
  with assms(1) show ?thesis
    by (simp add: readonly_shows_def readonly_render_def active_effect_def matches_effect_def create_editor_def
        steps_to_match_def Let_def)
qed

text \<open>
  After any renders the editor shows the content with all matches marked and the current one marked
  apart, and it has scrolled once for each step from one match to another and not while the query was typed.
\<close>
theorem readonly_editor_follows:
  assumes "successively memoised (p # ps)"
  shows "readonly_shows (last (p # ps)) (readonly_run p ps (readonly_mount p))
    \<and> ro_scrolled (readonly_run p ps (readonly_mount p))
      = length (filter (\<lambda>(a, b). steps_to_match a b) (zip (p # ps) ps))"
proof -
  have "readonly_shows p e \<Longrightarrow> successively memoised (p # ps) \<Longrightarrow> readonly_shows (last (p # ps)) (readonly_run p ps e)
      \<and> ro_scrolled (readonly_run p ps e) = ro_scrolled e + length (filter (\<lambda>(a, b). steps_to_match a b) (zip (p # ps) ps))" for e
  proof (induction ps arbitrary: p e)
    case (Cons q qs)
    with readonly_render_shows [of p e q] Cons.IH [of q "readonly_render p q e"] show ?case by simp
  qed simp
  with readonly_mount_shows [of p] assms show ?thesis by fastforce
qed

text \<open>The marks are not empty and lie inside the document, as CodeMirror requires of them.\<close>

lemma marks_inside_document:
  assumes "length (lower content) = length content" "length (lower query) = length query"
    and "(f, t) \<in> set (findSearchMatches lower content query)"
  shows "f < t \<and> t \<le> length content"
proof -
  have "query \<noteq> []" using assms(3) by (auto simp: findSearchMatches_def)
  then show ?thesis using search_exact [OF _ assms(1,2)] assms(3) by fastforce
qed

end
