(* ===== verification/Editor_Controls.thy ===== *)
theory Editor_Controls
  imports Js_Values Pending_Tasks
begin

text \<open>
  The editor of the creation pages: the grouping of edits in the undo history
  (\<open>web/src/editor-history.ts\<close>), the languages (\<open>web/src/languages.ts\<close>), the language menu and
  the loading of a language (\<open>web/src/editor.tsx\<close>). CodeMirror's history and language packages are
  not in the repository: a transaction is what the code reads of it, and an extension a value that is loaded.
\<close>

section \<open>Undo groups\<close>

datatype editKind = Typing | Deletion

text \<open>What is read of a transaction: whether it changes the document, the lengths, the inserted texts in order.\<close>

record transaction =
  tx_docChanged :: bool
  tx_oldLength :: int
  tx_newLength :: int
  tx_inserted :: "jsstring list"

record previousEdit =
  pe_kind :: "editKind option"
  pe_endedWithWhitespace :: bool

definition editKind_of :: "transaction \<Rightarrow> editKind option" where
  "editKind_of t =
     (if \<not> tx_docChanged t then None
      else
        let lengthChange = tx_newLength t - tx_oldLength t
        in if lengthChange > 0 then Some Typing else if lengthChange < 0 then Some Deletion else None)"

text \<open>The last unit of the last insertion that is not empty, tested with \<open>/\s/\<close>.\<close>

definition endsWithWhitespace :: "transaction \<Rightarrow> bool" where
  "endsWithWhitespace t = (case filter (\<lambda>s. s \<noteq> []) (tx_inserted t) of
     [] \<Rightarrow> False
   | s # ss \<Rightarrow> is_whitespace (last (last (s # ss))))"

definition previousEdit_create :: previousEdit where
  "previousEdit_create = \<lparr>pe_kind = None, pe_endedWithWhitespace = False\<rparr>"

definition previousEdit_update :: "transaction \<Rightarrow> previousEdit" where
  "previousEdit_update t =
     \<lparr>pe_kind = (if tx_docChanged t then editKind_of t else None),
      pe_endedWithWhitespace = (if tx_docChanged t \<and> editKind_of t = Some Typing then endsWithWhitespace t else False)\<rparr>"

text \<open>Whether the history starts a new group before the transaction.\<close>

definition separateEditKinds :: "previousEdit \<Rightarrow> transaction \<Rightarrow> bool" where
  "separateEditKinds previous t = (case (editKind_of t, pe_kind previous) of
     (Some current, Some kind) \<Rightarrow> current \<noteq> kind \<or> current = Typing \<and> pe_endedWithWhitespace previous
   | _ \<Rightarrow> False)"

text \<open>The groups into which isolation divides a run of transactions; the newest is last.\<close>

definition add_edit :: "previousEdit \<times> transaction list list \<Rightarrow> transaction \<Rightarrow> previousEdit \<times> transaction list list" where
  "add_edit h t =
     (let (previous, groups) = h
      in (previousEdit_update t,
          if groups = [] \<or> separateEditKinds previous t then groups @ [[t]] else butlast groups @ [last groups @ [t]]))"

definition undo_groups :: "transaction list \<Rightarrow> transaction list list" where
  "undo_groups ts = snd (foldl add_edit (previousEdit_create, []) ts)"

text \<open>The specification: where two edits that follow each other must not be undone together.\<close>

definition apart :: "transaction \<Rightarrow> transaction \<Rightarrow> bool" where
  "apart a b \<longleftrightarrow> editKind_of a \<noteq> None \<and> editKind_of b \<noteq> None
     \<and> (editKind_of a \<noteq> editKind_of b \<or> editKind_of b = Some Typing \<and> endsWithWhitespace a)"

lemma separate_apart: "separateEditKinds (previousEdit_update a) b = apart a b"
  by (auto simp: separateEditKinds_def previousEdit_update_def apart_def editKind_of_def Let_def split: if_splits)

lemma foldl_previous: "fst (foldl add_edit (previousEdit_create, []) (ts @ [t])) = previousEdit_update t"
  by (simp add: add_edit_def split_def Let_def)

lemma undo_groups_snoc:
  "undo_groups (ts @ [t]) = (let groups = undo_groups ts in
     if ts = [] \<or> groups = [] \<or> apart (last ts) t then groups @ [[t]] else butlast groups @ [last groups @ [t]])"
proof (cases ts rule: rev_cases)
  case Nil
  then show ?thesis by (simp add: undo_groups_def add_edit_def)
next
  case (snoc us u)
  have "fst (foldl add_edit (previousEdit_create, []) ts) = previousEdit_update u" unfolding snoc by (rule foldl_previous)
  then show ?thesis using snoc
    by (simp add: undo_groups_def add_edit_def separate_apart split_def Let_def)
qed

definition groups_ok :: "transaction list \<Rightarrow> transaction list list \<Rightarrow> bool" where
  "groups_ok ts groups \<longleftrightarrow> concat groups = ts \<and> [] \<notin> set groups
     \<and> (\<forall>g\<in>set groups. successively (\<lambda>a b. \<not> apart a b) g) \<and> successively (\<lambda>g g'. apart (last g) (hd g')) groups"

lemma groups_ok_run: "groups_ok ts (undo_groups ts)"
proof (induction ts rule: rev_induct)
  case Nil
  then show ?case by (simp add: groups_ok_def undo_groups_def)
next
  case (snoc t ts)
  define gs where "gs = undo_groups ts"
  from snoc have ok: "concat gs = ts" "[] \<notin> set gs" "\<forall>g\<in>set gs. successively (\<lambda>a b. \<not> apart a b) g"
    "successively (\<lambda>g g'. apart (last g) (hd g')) gs" by (simp_all add: groups_ok_def gs_def)
  have empty: "gs = [] \<longleftrightarrow> ts = []" using ok(1,2) by (cases gs) auto
  show ?case
  proof (cases "gs = []")
    case True
    then show ?thesis using empty by (simp add: undo_groups_def add_edit_def groups_ok_def Let_def)
  next
    case False
    then obtain hs g where gs: "gs = hs @ [g]" by (metis rev_exhaust)
    have g: "g \<noteq> []" using ok(2) gs by auto
    then have last: "last g = last ts" using ok(1) gs by auto
    show ?thesis
    proof (cases "apart (last ts) t")
      case True
      then show ?thesis using ok gs g last empty
        by (auto simp: undo_groups_snoc groups_ok_def successively_append_iff simp flip: gs_def)
    next
      case False
      have "hd (g @ [t]) = hd g" using g by simp
      then show ?thesis using ok gs g last empty False
        by (auto simp: undo_groups_snoc groups_ok_def successively_append_iff simp flip: gs_def)
    qed
  qed
qed

text \<open>
  The undo history separates what it should and nothing else: the groups are the transactions in order,
  two edits next to each other stand in different groups exactly when one types and the other deletes,
  or when the first typed up to a blank and the second types on.
\<close>
theorem undo_groups_exact:
  "concat (undo_groups ts) = ts \<and> [] \<notin> set (undo_groups ts)
   \<and> (\<forall>g\<in>set (undo_groups ts). successively (\<lambda>a b. \<not> apart a b) g)
   \<and> successively (\<lambda>g g'. apart (last g) (hd g')) (undo_groups ts)"
  using groups_ok_run [of ts] by (simp add: groups_ok_def)

definition demo_edits :: "transaction list" where
  "demo_edits = [\<lparr>tx_docChanged = True, tx_oldLength = 0, tx_newLength = 1, tx_inserted = [js ''a'']\<rparr>,
    \<lparr>tx_docChanged = True, tx_oldLength = 1, tx_newLength = 2, tx_inserted = [js '' '']\<rparr>,
    \<lparr>tx_docChanged = True, tx_oldLength = 2, tx_newLength = 3, tx_inserted = [js ''b'']\<rparr>,
    \<lparr>tx_docChanged = True, tx_oldLength = 3, tx_newLength = 2, tx_inserted = [[]]\<rparr>]"

theorem undo_groups_exact_witness:
  "map length (undo_groups demo_edits) = [2, 1, 1] \<and> concat (undo_groups demo_edits) = demo_edits"
proof -
  have "map length (undo_groups demo_edits) = [2, 1, 1]"
    by (simp add: demo_edits_def undo_groups_def add_edit_def previousEdit_create_def previousEdit_update_def separateEditKinds_def
        editKind_of_def endsWithWhitespace_def is_whitespace_def js_def Let_def)
  with undo_groups_exact [of demo_edits] show ?thesis by simp
qed

section \<open>Languages\<close>

datatype languagePackage = JavaScript bool | Html | Cpp | Java | Rust | Python | Go | PlainText

definition languages :: "(jsstring \<times> jsstring) list" where
  "languages = map (\<lambda>(language, label). (js language, js label))
     [(''plaintext'', ''Plain text''), (''javascript'', ''JavaScript''), (''typescript'', ''TypeScript''), (''html'', ''HTML''),
      (''python'', ''Python''), (''go'', ''Go''), (''c'', ''C''), (''cpp'', ''C++''), (''java'', ''Java''), (''rust'', ''Rust'')]"

text \<open>The package \<open>loadEditorLanguage\<close> imports; the flag of JavaScript is its option typescript.\<close>

definition loadEditorLanguage :: "jsstring \<Rightarrow> languagePackage" where
  "loadEditorLanguage language =
     (if language = js ''javascript'' then JavaScript False
      else if language = js ''typescript'' then JavaScript True
      else if language = js ''html'' then Html
      else if language = js ''c'' \<or> language = js ''cpp'' then Cpp
      else if language = js ''java'' then Java
      else if language = js ''rust'' then Rust
      else if language = js ''python'' then Python
      else if language = js ''go'' then Go
      else PlainText)"

definition language_label :: "jsstring \<Rightarrow> jsstring" where
  "language_label value' = (case List.find (\<lambda>item. fst item = value') languages of Some item \<Rightarrow> snd item | None \<Rightarrow> value')"

lemma offered_languages_highlighted:
  "item \<in> set languages \<Longrightarrow> fst item \<noteq> js ''plaintext'' \<Longrightarrow> loadEditorLanguage (fst item) \<noteq> PlainText"
  by (auto simp: languages_def loadEditorLanguage_def)

section \<open>The language of the editor\<close>

text \<open>
  The effect on the language: each run has a number, by which its continuations know whether they are
  still \<open>active\<close>; \<open>le_extension\<close> is what the compartment holds. The view exists until the unmount.
\<close>

record languageEffect =
  le_language :: jsstring
  le_run :: nat
  le_mounted :: bool
  le_tasks :: "jsstring tasks"
  le_extension :: languagePackage

definition language_effect :: "jsstring \<Rightarrow> languageEffect \<Rightarrow> languageEffect" where
  "language_effect language e =
     e\<lparr>le_language := language, le_run := le_run e + 1, le_tasks := le_tasks e @ [(le_run e + 1, language)]\<rparr>"

definition languageEffect_new :: "jsstring \<Rightarrow> languageEffect" where
  "languageEffect_new language = language_effect language
     \<lparr>le_language = language, le_run = 0, le_mounted = True, le_tasks = [], le_extension = PlainText\<rparr>"

text \<open>An import that ends, with its package or with a failure, which configures no language.\<close>

definition language_loaded :: "nat \<Rightarrow> bool \<Rightarrow> languageEffect \<Rightarrow> languageEffect" where
  "language_loaded i ok e = (case map_of (le_tasks e) i of
     None \<Rightarrow> e
   | Some language \<Rightarrow>
       let e' = e\<lparr>le_tasks := without_task i (le_tasks e)\<rparr>
       in if i \<noteq> le_run e \<or> \<not> le_mounted e then e'
          else e'\<lparr>le_extension := (if ok then loadEditorLanguage language else PlainText)\<rparr>)"

datatype languageEvent = LanguageProp jsstring | PackageEnds nat bool | EditorUnmounted

definition language_step :: "languageEvent \<Rightarrow> languageEffect \<Rightarrow> languageEffect" where
  "language_step ev e = (case ev of
     LanguageProp language \<Rightarrow> if language = le_language e then e else language_effect language e
   | PackageEnds i ok \<Rightarrow> language_loaded i ok e
   | EditorUnmounted \<Rightarrow> e\<lparr>le_mounted := False\<rparr>)"

definition language_run :: "languageEvent list \<Rightarrow> languageEffect \<Rightarrow> languageEffect" where
  "language_run evs e = fold language_step evs e"

text \<open>
  Either the import of the current language is under way, or its end has configured the editor; \<open>failing\<close>
  says whether imports may have failed.
\<close>

definition language_ok :: "bool \<Rightarrow> languageEffect \<Rightarrow> bool" where
  "language_ok failing e \<longleftrightarrow> distinct (map fst (le_tasks e))
     \<and> (\<forall>(i, l)\<in>set (le_tasks e). i \<le> le_run e \<and> (i = le_run e \<longrightarrow> l = le_language e))
     \<and> (le_mounted e \<and> le_run e \<notin> fst ` set (le_tasks e) \<longrightarrow>
          le_extension e = loadEditorLanguage (le_language e) \<or> failing \<and> le_extension e = PlainText)"

lemma without_task_keys: "fst ` set (without_task i ts) = fst ` set ts - {i}"
  by (force simp: without_task_def)

lemma language_ok_effect: "language_ok failing e \<Longrightarrow> language_ok failing (language_effect language e)"
  by (fastforce simp: language_ok_def language_effect_def)

lemma language_ok_loaded:
  assumes "language_ok failing e" "\<not> ok \<Longrightarrow> failing"
  shows "language_ok failing (language_loaded i ok e)"
proof (cases "map_of (le_tasks e) i")
  case (Some language)
  then have "(i, language) \<in> set (le_tasks e)" by (rule map_of_SomeD)
  then have current: "i = le_run e \<Longrightarrow> language = le_language e" using assms by (auto simp: language_ok_def)
  have "distinct (map fst (without_task i (le_tasks e)))"
    using assms by (simp add: language_ok_def without_task_def distinct_map_filter)
  moreover have "\<forall>(j, l)\<in>set (without_task i (le_tasks e)). j \<le> le_run e \<and> (j = le_run e \<longrightarrow> l = le_language e)"
    using assms(1) set_without [of i "le_tasks e"] unfolding language_ok_def by blast
  ultimately show ?thesis using assms Some current without_task_keys [of i "le_tasks e"]
    by (auto simp: language_ok_def language_loaded_def Let_def)
qed (use assms in \<open>simp add: language_loaded_def\<close>)

lemma language_ok_step:
  "language_ok failing e \<Longrightarrow> (\<And>i. ev = PackageEnds i False \<Longrightarrow> failing) \<Longrightarrow> language_ok failing (language_step ev e)"
  by (cases ev) (auto simp: language_step_def language_ok_effect intro: language_ok_loaded, simp add: language_ok_def)

text \<open>
  A late package never replaces the language that is chosen: in every run, in whatever order the
  imports end, a mounted editor for which the import of the current language has ended is configured
  with that language's package; only a failed import can leave it without one, and never with another
  language's.
\<close>
theorem editor_language_current:
  assumes "e = language_run evs (languageEffect_new language)" "le_mounted e" "le_run e \<notin> fst ` set (le_tasks e)"
  shows "le_extension e = loadEditorLanguage (le_language e)
    \<or> (\<exists>i. PackageEnds i False \<in> set evs) \<and> le_extension e = PlainText"
proof -
  define failing where "failing \<longleftrightarrow> (\<exists>i. PackageEnds i False \<in> set evs)"
  have "language_ok failing (language_run evs' e')" if "language_ok failing e'" "set evs' \<subseteq> set evs" for e' evs'
    using that
  proof (induction evs' arbitrary: e')
    case (Cons ev evs')
    have "language_ok failing (language_step ev e')"
      using Cons.prems by (intro language_ok_step) (auto simp: failing_def)
    from Cons.IH [OF this] Cons.prems(2) show ?case by (simp add: language_run_def)
  qed (simp add: language_run_def)
  moreover have "language_ok failing (languageEffect_new language)"
    by (simp add: language_ok_def languageEffect_new_def language_effect_def)
  ultimately have "language_ok failing e" using assms(1) by blast
  then show ?thesis using assms(2,3) by (auto simp: language_ok_def failing_def)
qed

theorem editor_language_current_witness:
  "let e = language_run [LanguageProp (js ''rust''), PackageEnds 2 True, PackageEnds 1 True] (languageEffect_new (js ''go''))
   in le_tasks e = [] \<and> le_extension e = Rust"
  using editor_language_current [OF refl, of "[LanguageProp (js ''rust''), PackageEnds 2 True, PackageEnds 1 True]" "js ''go''"]
  by (simp add: language_run_def language_step_def languageEffect_new_def language_effect_def language_loaded_def loadEditorLanguage_def Let_def)

section \<open>The language menu\<close>

text \<open>
  The menu closes with an animation: \<open>lm_timers\<close> are the timers that are set and not cleared,
  \<open>lm_timeout\<close> the one the component remembers, \<open>lm_chosen\<close> the calls of onChange.
\<close>

record languageMenu =
  lm_open :: bool
  lm_closing :: bool
  lm_timeout :: "nat option"
  lm_timers :: "nat list"
  lm_nextTimer :: nat
  lm_chosen :: "jsstring list"

definition languageMenu_new :: languageMenu where
  "languageMenu_new = \<lparr>lm_open = False, lm_closing = False, lm_timeout = None, lm_timers = [], lm_nextTimer = 0, lm_chosen = []\<rparr>"

definition closeMenu :: "languageMenu \<Rightarrow> languageMenu" where
  "closeMenu m =
     (if \<not> lm_open m \<or> lm_closing m then m
      else m\<lparr>lm_closing := True, lm_timeout := Some (lm_nextTimer m), lm_timers := lm_timers m @ [lm_nextTimer m],
        lm_nextTimer := lm_nextTimer m + 1\<rparr>)"

definition closeMenuFired :: "nat \<Rightarrow> languageMenu \<Rightarrow> languageMenu" where
  "closeMenuFired t m =
     (if t \<notin> set (lm_timers m) then m
      else m\<lparr>lm_timers := removeAll t (lm_timers m), lm_open := False, lm_closing := False, lm_timeout := None\<rparr>)"

definition clear_close_timeout :: "languageMenu \<Rightarrow> languageMenu" where
  "clear_close_timeout m = (case lm_timeout m of
     None \<Rightarrow> m
   | Some t \<Rightarrow> m\<lparr>lm_timers := removeAll t (lm_timers m), lm_timeout := None\<rparr>)"

definition toggleMenu :: "languageMenu \<Rightarrow> languageMenu" where
  "toggleMenu m =
     (if lm_closing m then (clear_close_timeout m)\<lparr>lm_closing := False, lm_open := True\<rparr>
      else if lm_open m then closeMenu m
      else m\<lparr>lm_open := True\<rparr>)"

definition chooseLanguage :: "nat \<Rightarrow> languageMenu \<Rightarrow> languageMenu" where
  "chooseLanguage i m =
     (if lm_open m \<and> i < length languages then closeMenu (m\<lparr>lm_chosen := lm_chosen m @ [fst (languages ! i)]\<rparr>) else m)"

text \<open>The events; the flag says that the menu is disabled, which its buttons are then too.\<close>

datatype languageMenuEvent =
    MenuToggled bool
  | LanguageClicked bool nat
  | MenuEscape
  | MenuPressedOutside
  | MenuTimerFired nat

definition languageMenu_step :: "languageMenuEvent \<Rightarrow> languageMenu \<Rightarrow> languageMenu" where
  "languageMenu_step ev m = (case ev of
     MenuToggled disabled \<Rightarrow> if disabled then m else toggleMenu m
   | LanguageClicked disabled i \<Rightarrow> if disabled then m else chooseLanguage i m
   | MenuEscape \<Rightarrow> closeMenu m
   | MenuPressedOutside \<Rightarrow> closeMenu m
   | MenuTimerFired t \<Rightarrow> closeMenuFired t m)"

definition languageMenu_run :: "languageMenuEvent list \<Rightarrow> languageMenu \<Rightarrow> languageMenu" where
  "languageMenu_run evs m = fold languageMenu_step evs m"

definition languageMenu_ok :: "languageMenu \<Rightarrow> bool" where
  "languageMenu_ok m \<longleftrightarrow> lm_timers m = (case lm_timeout m of None \<Rightarrow> [] | Some t \<Rightarrow> [t])
     \<and> (lm_closing m \<longleftrightarrow> lm_timeout m \<noteq> None) \<and> (lm_closing m \<longrightarrow> lm_open m)
     \<and> (\<forall>t\<in>set (lm_timers m). t < lm_nextTimer m) \<and> set (lm_chosen m) \<subseteq> fst ` set languages"

lemma languageMenu_ok_close: "languageMenu_ok m \<Longrightarrow> languageMenu_ok (closeMenu m)"
  by (auto simp: languageMenu_ok_def closeMenu_def)

lemma languageMenu_ok_step: "languageMenu_ok m \<Longrightarrow> languageMenu_ok (languageMenu_step ev m)"
proof (cases ev)
  case (LanguageClicked disabled i)
  assume ok: "languageMenu_ok m"
  have "languageMenu_ok (m\<lparr>lm_chosen := lm_chosen m @ [fst (languages ! i)]\<rparr>)" if "i < length languages"
    using ok that by (auto simp: languageMenu_ok_def)
  then show ?thesis using LanguageClicked ok by (auto simp: languageMenu_step_def chooseLanguage_def intro: languageMenu_ok_close)
next
  case (MenuToggled disabled)
  assume ok: "languageMenu_ok m"
  then have "languageMenu_ok (toggleMenu m)"
    by (auto simp: toggleMenu_def languageMenu_ok_close) (auto simp: languageMenu_ok_def clear_close_timeout_def split: option.splits)
  with ok MenuToggled show ?thesis by (simp add: languageMenu_step_def)
next
  case (MenuTimerFired t)
  assume "languageMenu_ok m"
  with MenuTimerFired show ?thesis
    by (auto simp: languageMenu_step_def closeMenuFired_def languageMenu_ok_def split: option.splits)
qed (simp_all add: languageMenu_step_def languageMenu_ok_close)

text \<open>
  The language menu closes by itself and only when it should: a menu that is closing has exactly one timer,
  which closes it; one that was opened again has none, so no timer of an earlier closing hides it; and only
  languages of the list are chosen.
\<close>
lemma language_menu_closes:
  assumes "m = languageMenu_run evs languageMenu_new"
  shows "(if lm_closing m then \<exists>t. lm_timers m = [t] \<and> \<not> lm_open (closeMenuFired t m) else lm_timers m = [])
    \<and> set (lm_chosen m) \<subseteq> fst ` set languages"
proof -
  have "languageMenu_ok m' \<Longrightarrow> languageMenu_ok (languageMenu_run evs m')" for m'
    unfolding languageMenu_run_def by (rule fold_invariant [where Q = "\<lambda>_. True"]) (simp_all add: languageMenu_ok_step)
  moreover have "languageMenu_ok languageMenu_new" by (simp add: languageMenu_ok_def languageMenu_new_def)
  ultimately have "languageMenu_ok m" using assms by blast
  then show ?thesis by (auto simp: languageMenu_ok_def closeMenuFired_def split: option.splits)
qed

section \<open>The menu of the hosted service\<close>

text \<open>
  \<open>HostedMenu\<close> of \<open>web/src/policies.tsx\<close>: whether the menu is open, and the calls of onNavigate. A
  click with another button or a modifier is left to the browser.
\<close>

record hostedMenu =
  hm_open :: bool
  hm_navigated :: "jsstring list"

record linkClick =
  ck_button :: int
  ck_modified :: bool

definition closeOnEscape :: "hostedMenu \<Rightarrow> hostedMenu" where
  "closeOnEscape m = (if hm_open m then m\<lparr>hm_open := False\<rparr> else m)"

definition closeOutside :: "bool \<Rightarrow> hostedMenu \<Rightarrow> hostedMenu" where
  "closeOutside inside m = (if hm_open m \<and> \<not> inside then m\<lparr>hm_open := False\<rparr> else m)"

text \<open>The second value says whether the browser's own navigation is prevented.\<close>

definition follow :: "linkClick \<Rightarrow> jsstring \<Rightarrow> hostedMenu \<Rightarrow> hostedMenu \<times> bool" where
  "follow click path m =
     (if ck_button click \<noteq> 0 \<or> ck_modified click then (m, False)
      else (m\<lparr>hm_open := False, hm_navigated := hm_navigated m @ [path]\<rparr>, True))"

text \<open>A click goes either through the application or through the browser, never both.\<close>

lemma follow_once:
  "length (hm_navigated (fst (follow click path m))) = length (hm_navigated m) + (if snd (follow click path m) then 1 else 0)"
  by (simp add: follow_def)

end
