(* ===== verification/Policies.thy ===== *)
theory Policies
  imports Markup Routing Editor_Controls
begin

text \<open>
  The pages and the menu of the hosted service (\<open>web/src/policies.tsx\<close>): what the menu offers, and the texts of
  the three pages. White space in the markup is what React keeps of it. The state of the menu is in
  \<open>Editor_Controls\<close>. Main facts: the menu leads to every page and marks the current one; the pages have names for
  all their links and nothing to operate but links.
\<close>

section \<open>The menu\<close>

definition contactEmail :: jsstring where "contactEmail = js ''hello@atulk.me''"
definition contactHref :: jsstring where "contactHref = js ''mailto:'' @ contactEmail"
definition githubURL :: jsstring where "githubURL = js ''https://github.com/0atxl/0xbin''"
definition cloudflarePrivacyURL :: jsstring where "cloudflarePrivacyURL = js ''https://www.cloudflare.com/privacypolicy/''"
definition lastUpdated :: jsstring where "lastUpdated = js ''8 August 2026''"

definition menuItems :: "(hostedPage \<times> jsstring) list" where
  "menuItems = [(About, js ''Who & why''), (Terms, js ''Terms & conditions''), (Privacy, js ''Privacy & reports'')]"

text \<open>\<open>hostedPagePaths[page]\<close>\<close>

definition hosted_path :: "hostedPage \<Rightarrow> jsstring" where
  "hosted_path page = (case find (\<lambda>entry. snd entry = page) hostedPagePaths of Some entry \<Rightarrow> fst entry | None \<Rightarrow> [])"

definition MenuIcon :: "'e node" where
  "MenuIcon = svg ''0 0 20 20'' [shape ''circle'' [attr ''cx'' ''4'', attr ''cy'' ''10'', attr ''r'' ''1''],
     shape ''circle'' [attr ''cx'' ''10'', attr ''cy'' ''10'', attr ''r'' ''1''],
     shape ''circle'' [attr ''cx'' ''16'', attr ''cy'' ''10'', attr ''r'' ''1'']]"

text \<open>A link yields the event of \<open>onNavigate\<close>; with a modifier key the browser follows it itself.\<close>

definition HostedMenu :: "hostedPage option \<Rightarrow> (jsstring \<Rightarrow> 'e) \<Rightarrow> 'e node" where
  "HostedMenu currentPage onNavigate =
     Element ''details'' [attr ''className'' ''site-menu''] []
      [Element ''summary'' [attr ''aria-label'' ''Site menu'', attr ''title'' ''About and policies''] [] [MenuIcon],
       Element ''nav'' [attr ''aria-label'' ''About and policies''] []
        (map (\<lambda>(page, label).
            Element ''a'' ((''href'', Str (hosted_path page)) # optional (currentPage = Some page) [attr ''aria-current'' ''page''])
              [(''onClick'', Run (onNavigate (hosted_path page)))] [Txt label]) menuItems
         @ [Element ''span'' [attr ''className'' ''site-menu-separator'', attr ''aria-hidden'' ''true''] [] [],
            Element ''a'' [(''href'', Str githubURL)] [] [Txt (js ''GitHub'')]])]"

section \<open>The pages\<close>

abbreviation elem :: "string \<Rightarrow> 'e node list \<Rightarrow> 'e node" where
  "elem t ns \<equiv> Element t [] [] ns"

definition PageHeader :: "jsstring \<Rightarrow> jsstring \<Rightarrow> bool \<Rightarrow> 'e node" where
  "PageHeader title summary dated =
     Element ''header'' [attr ''className'' ''policy-heading''] []
      ([Element ''p'' [attr ''className'' ''policy-kicker''] [] [Txt (js ''0xbin'')], elem ''h1'' [Txt title], elem ''p'' [Txt summary]]
       @ optional dated [Element ''p'' [attr ''className'' ''policy-date''] [] [Txt (js ''Last updated ''), Txt lastUpdated]])"

definition AboutPage :: "'e node list" where
  "AboutPage = [
    PageHeader (js ''Who & why'') (js ''An independent open-source project for quick, understandable temporary sharing.'') False,
    elem ''section'' [
     elem ''h2'' [Txt (js ''Temporary by design'')],
     elem ''p'' [Txt (js ''0xbin shares text, code, logs, and configuration without accounts or permanent publishing. Every paste expires after one hour, one day, or three days. A View-once paste is destroyed after one deliberate reveal and expires unopened after three days.'')]],
    elem ''section'' [
     elem ''h2'' [Txt (js ''Memorable links'')],
     elem ''p'' [Txt (js ''Paste addresses use three ordinary words instead of long random identifiers. Those links are unlisted, not secret. Anyone who obtains an unencrypted link may be able to read it until it expires.'')]],
    elem ''section'' [
     elem ''h2'' [Txt (js ''Encryption when it matters'')],
     elem ''p'' [
      Txt (js ''Optional encryption happens in your browser with AES-GCM. The key stays after the ''),
      elem ''code'' [Txt (js ''#'')],
      Txt (js '' in the sharing URL, which browsers do not send to the server. The server stores ciphertext but never receives the key.'')]],
    elem ''section'' [
     elem ''h2'' [Txt (js ''Open and self-hostable'')],
     elem ''p'' [
      Txt (js ''0xbin is open-source software built as one Go service with an embedded web interface and SQLite storage. You can inspect the implementation or run your own instance from the''),
      Txt (js '' ''),
      Element ''a'' [(''href'', Str githubURL)] [] [Txt (js ''public GitHub repository'')],
      Txt (js ''.'')]],
    elem ''section'' [
     elem ''h2'' [Txt (js ''Who made this'')],
     elem ''p'' [Txt (js ''0xbin is an independent open-source project created and maintained by Atul. It was made to work equally well as a public utility and a self-hosted tool, with its product decisions, implementation, tests, and deployment files developed in public.'')]],
    elem ''section'' [
     elem ''h2'' [Txt (js ''Contact and source'')],
     elem ''p'' [
      Txt (js ''General questions can be sent to''),
      Txt (js '' ''),
      Element ''a'' [(''href'', Str contactHref)] [] [Txt contactEmail],
      Txt (js ''. Source code, issue tracking, and contribution guidance are available on''),
      Txt (js '' ''),
      Element ''a'' [(''href'', Str githubURL)] [] [Txt (js ''GitHub'')],
      Txt (js ''.'')]]]"

definition TermsPage :: "'e node list" where
  "TermsPage = [
    PageHeader (js ''Terms & conditions'') (js ''The terms, acceptable-use rules, and security guidance for the hosted service at 0xbin.app.'') True,
    elem ''section'' [
     elem ''h2'' [Txt (js ''Using the service'')],
     elem ''p'' [Txt (js ''By using 0xbin.app, you agree to these terms and acceptable-use rules. If you do not agree, do not use the hosted service. You are responsible for the content you submit and must have the right to share it.'')]],
    elem ''section'' [
     elem ''h2'' [Txt (js ''Acceptable use'')],
     elem ''p'' [Txt (js ''You must not use 0xbin to:'')],
     elem ''ul'' [
      elem ''li'' [Txt (js ''publish or facilitate unlawful content or activity;'')],
      elem ''li'' [Txt (js ''distribute malware, phishing material, stolen credentials, or instructions primarily intended to compromise systems;'')],
      elem ''li'' [Txt (js ''exploit, endanger, harass, threaten, impersonate, or expose private information about another person;'')],
      elem ''li'' [Txt (js ''publish sexual abuse or exploitation material, especially material involving minors;'')],
      elem ''li'' [Txt (js ''infringe copyright, trademark, privacy, confidentiality, or other rights;'')],
      elem ''li'' [Txt (js ''scan or enumerate paste addresses, bypass rate limits, disrupt the service, or impose excessive automated load; or'')],
      elem ''li'' [Txt (js ''misrepresent an unencrypted paste as private or use the service as durable storage.'')]]],
    elem ''section'' [
     elem ''h2'' [Txt (js ''Enforcement'')],
     elem ''p'' [Txt (js ''Access may be limited and reported content may be removed when reasonably necessary to enforce these rules, protect users or systems, or comply with applicable law. Serious or repeated abuse may be reported to relevant service providers or authorities when required.'')]],
    elem ''section'' [
     elem ''h2'' [Txt (js ''Temporary storage'')],
     elem ''p'' [Txt (js ''0xbin is not a backup or permanent publishing service. Pastes expire, View-once pastes can disappear after one deliberate reveal, and content may be removed earlier for operational, security, abuse, or legal reasons. Keep your own copy of anything you need to retain.'')]],
    elem ''section'' [
     elem ''h2'' [Txt (js ''Your content'')],
     elem ''p'' [Txt (js ''You retain any rights you hold in submitted content. You grant the service limited permission to store, process, and transmit that content only as needed to provide, secure, and operate the service until it expires or is removed.'')]],
    elem ''section'' [
     elem ''h2'' [Txt (js ''Security and confidentiality'')],
     elem ''p'' [Txt (js ''An unencrypted paste is unlisted, not private. Three-word links are not access control. Optional client-side encryption protects content only when the key is kept confidential and the receiving browser obtains trustworthy 0xbin code. A compromised frontend could still capture plaintext or keys.'')],
     elem ''p'' [Txt (js ''LiveBin rooms are server-readable plaintext collaboration rooms. Their optional shared password controls entry but does not encrypt room content from the service. Participant presence is temporary and used only while the room is active.'')]],
    elem ''section'' [
     elem ''h2'' [Txt (js ''Availability and liability'')],
     elem ''p'' [Txt (js ''The service is provided on an '' @ [0x201C] @ js ''as available'' @ [0x201D] @ js '' basis without a promise of uninterrupted operation, preservation, fitness for a particular purpose, or recovery of content. To the extent permitted by applicable law, the operator is not liable for indirect, incidental, or consequential loss arising from use or inability to use the service. Rights that cannot legally be excluded remain unaffected.'')]],
    elem ''section'' [
     elem ''h2'' [Txt (js ''Report a vulnerability'')],
     elem ''p'' [
      Txt (js ''Send security reports to ''),
      Element ''a'' [(''href'', Str contactHref)] [] [Txt contactEmail],
      Txt (js ''. Include affected components, reproduction steps, and impact. Do not include active paste contents, encryption keys, credentials, or personal data unless necessary and explicitly requested.'')],
     elem ''p'' [
      Txt (js ''The repository'' @ [0x2019] @ js ''s current disclosure guidance is available in''),
      Txt (js '' ''),
      Element ''a'' [(''href'', Str (githubURL @ js ''/blob/main/SECURITY.md''))] [] [Txt (js ''SECURITY.md'')],
      Txt (js ''.'')]],
    elem ''section'' [
     elem ''h2'' [Txt (js ''Changes and contact'')],
     elem ''p'' [
      Txt (js ''The service or these terms may change as security, legal, and operational needs evolve. Material revisions will update the date on this page. Questions can be sent to''),
      Txt (js '' ''),
      Element ''a'' [(''href'', Str contactHref)] [] [Txt contactEmail],
      Txt (js ''.'')]]]"

definition PrivacyPage :: "'e node list" where
  "PrivacyPage = [
    PageHeader (js ''Privacy & reports'') (js ''How the hosted service at 0xbin.app handles information and reports of misuse.'') True,
    elem ''section'' [
     elem ''h2'' [Txt (js ''Scope'')],
     elem ''p'' [Txt (js ''This policy applies to the public service at 0xbin.app. Independent self-hosted installations are operated by their respective owners and have their own data practices.'')]],
    elem ''section'' [
     elem ''h2'' [Txt (js ''Paste data'')],
     elem ''p'' [Txt (js ''For an unencrypted paste, 0xbin stores its text and optional title and language until expiry. Unencrypted pastes are unlisted, not private. For an encrypted paste, your browser encrypts the content and metadata before upload; the server stores the resulting ciphertext and does not receive the fragment key.'')],
     elem ''p'' [Txt (js ''Paste reads stop working as soon as their server-enforced expiry is reached. A background cleanup process subsequently reclaims the expired database rows. View-once content is deleted by the first successful deliberate reveal.'')]],
    elem ''section'' [
     elem ''h2'' [Txt (js ''Live room data'')],
     elem ''p'' [Txt (js ''LiveBin rooms are collaborative plaintext rooms. The service transiently processes and stores their unencrypted text, tab details, and optional password verifier to provide the room until expiry. Live rooms are not protected by the paste encryption feature.'')],
     elem ''p'' [Txt (js ''While a room is active, the service also keeps participant display names, joined time, connection state, selected tab, and cursor or selection information in process memory to show collaboration. This presence data is not stored in SQLite and is cleared on expiry or a service restart.'')]],
    elem ''section'' [
     elem ''h2'' [Txt (js ''Connection and abuse-prevention data'')],
     elem ''p'' [
      Txt (js ''Requests pass through Cloudflare, which processes connection details such as IP addresses and traffic metadata under its''),
      Txt (js '' ''),
      Element ''a'' [(''href'', Str cloudflarePrivacyURL)] [] [Txt (js ''privacy policy'')],
      Txt (js ''. 0xbin temporarily uses a resolved network address in memory to enforce rate limits and detect repeated missing-link requests. Inactive limiter entries are removed after approximately two hours. The application does not currently place visitor IP addresses in its request logs or paste database.'')]],
    elem ''section'' [
     elem ''h2'' [Txt (js ''Browser storage and analytics'')],
     elem ''p'' [Txt (js ''0xbin stores your light or dark theme preference in local browser storage. For each LiveBin room, it also stores a random room-scoped participant credential and the last authoritative nickname so normal tabs, reloads, and reopenings represent one participant. Different rooms cannot use that credential to correlate participants. Clearing site data creates a new participant identity.'')],
     elem ''p'' [Txt (js ''LiveBin room access and creator authority use room-scoped HttpOnly cookies. The creator cookie is not a recoverable account: clearing it loses creator authority. 0xbin does not store paste bodies, live-room text, passwords, or encryption keys in persistent script-visible browser storage. The hosted interface currently uses no advertising, third-party analytics, tracking cookies, or third-party executable scripts.'')]],
    elem ''section'' [
     elem ''h2'' [Txt (js ''Disclosure and legal requests'')],
     elem ''p'' [Txt (js ''Information may be disclosed when reasonably necessary to operate and secure the service, investigate abuse, comply with applicable law, or respond to a valid legal request. Because pastes expire quickly, requested information may no longer be available.'')]],
    elem ''section'' [
     elem ''h2'' [Txt (js ''Your choices and privacy contact'')],
     elem ''p'' [
      Txt (js ''Do not submit personal or sensitive information unless you are authorized to share it. Use client-side encryption for sensitive content. For privacy questions or requests, email''),
      Txt (js '' ''),
      Element ''a'' [(''href'', Str contactHref)] [] [Txt contactEmail],
      Txt (js '' and include enough detail to identify the request without sending an encryption key.'')]],
    elem ''section'' [
     elem ''h2'' [Txt (js ''How to report abuse'')],
     elem ''p'' [
      Txt (js ''Email ''),
      Element ''a'' [(''href'', Str contactHref)] [] [Txt contactEmail],
      Txt (js '' with:'')],
     elem ''ul'' [
      elem ''li'' [Txt (js ''the complete 0xbin paste URL without an encryption key;'')],
      elem ''li'' [Txt (js ''the type of abuse or right affected;'')],
      elem ''li'' [Txt (js ''enough context to evaluate the report; and'')],
      elem ''li'' [Txt (js ''a reliable way to contact you if clarification is required.'')]],
     elem ''p'' [Txt (js ''Do not send passwords, private keys, identity documents, or unrelated personal data. Do not attempt to access content you are not authorized to view.'')]],
    elem ''section'' [
     elem ''h2'' [Txt (js ''What happens next'')],
     elem ''p'' [Txt (js ''Reports are reviewed against the acceptable-use rules and applicable obligations. Content may already be unavailable because all pastes expire within three days. Encrypted content cannot be inspected without a key; do not send a fragment key unless it is necessary, lawful, and specifically requested.'')]],
    elem ''section'' [
     elem ''h2'' [Txt (js ''Copyright and legal requests'')],
     elem ''p'' [Txt (js ''Clearly identify the protected work or legal right, the reported URL, your authority to act, and the requested action. False or misleading reports may harm users and delay legitimate requests.'')]]]"

definition policyContent :: "hostedPage \<Rightarrow> 'e node list" where
  "policyContent page = (case page of About \<Rightarrow> AboutPage | Terms \<Rightarrow> TermsPage | Privacy \<Rightarrow> PrivacyPage)"

definition PolicyPage :: "hostedPage \<Rightarrow> 'e node" where
  "PolicyPage page = Element ''main'' [attr ''className'' ''policy-page''] [] [elem ''article'' (policyContent page)]"

section \<open>What they hold\<close>

text \<open>Text with links that have names, and nothing else to operate.\<close>

fun prose :: "'e node \<Rightarrow> bool" where
  "prose (Txt s) \<longleftrightarrow> True"
| "prose (Element t as ls ns) \<longleftrightarrow> (plain_tag t \<or> t = ''a'' \<and> concat (map spoken ns) \<noteq> [])
     \<and> list_all (\<lambda>a. plain_attribute a \<and> a \<noteq> ''aria-hidden'') (map fst as) \<and> ls = [] \<and> list_all prose ns"
| "prose (Mounted label doc ls) \<longleftrightarrow> False"

lemma prose_attributes:
  assumes "list_all (\<lambda>a. plain_attribute a \<and> a \<noteq> ''aria-hidden'') (map fst as)"
  shows "list_all plain_attribute (map fst as)" "\<not> attribute_set as ''aria-hidden''"
proof -
  have "map_of as ''aria-hidden'' = None" using assms by (induction as) auto
  then show "\<not> attribute_set as ''aria-hidden''" by (simp add: attribute_set_def)
  show "list_all plain_attribute (map fst as)" using assms by (simp add: list_all_iff)
qed

lemma proseD:
  assumes "prose n"
  shows "ids n = []" "references n = []" "label_targets n = []" "submit_buttons n = []" "listeners n = []"
    "shown_documents n = []" "landmarks n = 0" "named L b n" "hidden_inert False n"
proof -
  have tag: "t \<noteq> ''button''" "t \<noteq> ''main''" "\<not> is_field t" if "plain_tag t \<or> t = ''a'' \<and> P" for t P
    using that by (auto simp: plain_tag_def is_control_def is_field_def)
  have nil: "concat (map g ns) = []" if "\<And>n. n \<in> set ns \<Longrightarrow> g n = []" for g :: "'a node \<Rightarrow> 'b list" and ns
    using that by simp
  have zero: "sum_list (map g ns) = 0" if "\<And>n. n \<in> set ns \<Longrightarrow> g n = 0" for g :: "'a node \<Rightarrow> nat" and ns
    using that by (induction ns) simp_all
  note attrs = prose_attributes plain_attributes [OF prose_attributes(1)]
  show "ids n = []" using assms by (induction n) (simp_all add: attrs list_all_iff [of prose] nil)
  show "references n = []" using assms by (induction n) (simp_all add: attrs list_all_iff [of prose] nil)
  show "label_targets n = []" using assms by (induction n) (simp_all add: attrs list_all_iff [of prose] nil)
  show "submit_buttons n = []" using assms
  proof (induction n)
    case (Element t as ls ns)
    then show ?case using tag(1) [of t] by (auto simp: list_all_iff)
  qed simp_all
  show "listeners n = []" using assms by (induction n) (simp_all add: list_all_iff nil)
  show "shown_documents n = []" using assms by (induction n) (simp_all add: list_all_iff nil)
  show "landmarks n = 0" using assms
  proof (induction n)
    case (Element t as ls ns)
    then show ?case using tag(2) [of t] by (auto simp: list_all_iff intro!: zero)
  qed simp_all
  show "named L b n" using assms
  proof (induction n arbitrary: b)
    case (Element t as ls ns)
    then show ?case using tag(3) [of t] by (auto simp: list_all_iff plain_tag_def)
  qed simp_all
  show "hidden_inert False n" using assms
    by (induction n) (simp_all add: attrs list_all_iff [of prose] Let_def)
qed

lemma prose_names [simp]:
  "plain_tag ''section''" "plain_tag ''h2''" "plain_tag ''ul''" "plain_tag ''li''" "plain_tag ''code''" "plain_tag ''header''"
  "plain_tag ''article''" "plain_attribute ''href''"
  by (simp_all add: plain_tag_def plain_attribute_def is_control_def)

lemma address_texts [simp]: "contactEmail \<noteq> []" "githubURL \<noteq> []" "lastUpdated \<noteq> []"
  by (simp_all add: contactEmail_def githubURL_def lastUpdated_def)

lemma PageHeader_prose [simp]: "prose (PageHeader title summary dated)"
  by (simp add: PageHeader_def optional_def)

lemma pages_prose:
  "list_all prose AboutPage" "list_all prose TermsPage" "list_all prose PrivacyPage"
  by (simp_all add: AboutPage_def TermsPage_def PrivacyPage_def)

lemma policyContent_prose: "list_all prose (policyContent page)"
  by (cases page) (simp_all add: policyContent_def pages_prose)

lemma prose_article: "list_all prose ns \<Longrightarrow> prose (elem ''article'' ns)"
  by simp

lemma PolicyPage_parts:
  fixes n :: "'e node"
  assumes "n = PolicyPage page"
  shows "ids n = []" "references n = []" "label_targets n = []" "submit_buttons n = []" "listeners n = []"
    "shown_documents n = []" "landmarks n = 1" "named L b n" "hidden_inert False n"
proof -
  have "prose (elem ''article'' (policyContent page) :: 'e node)" by (rule prose_article [OF policyContent_prose])
  note facts = proseD [OF this]
  show "ids n = []" "references n = []" "label_targets n = []" "submit_buttons n = []" "listeners n = []"
    "shown_documents n = []" "landmarks n = 1" "named L b n" "hidden_inert False n"
    using facts by (simp_all add: assms PolicyPage_def markup_attributes is_control_def)
qed

lemmas PolicyPage_facts [simp] = PolicyPage_parts [OF refl]

lemma HostedMenu_facts [simp]:
  "ids (HostedMenu page f) = []" "references (HostedMenu page f) = []" "label_targets (HostedMenu page f) = []"
  "submit_buttons (HostedMenu page f) = []" "shown_documents (HostedMenu page f) = []" "landmarks (HostedMenu page f) = 0"
  "named L b (HostedMenu page f)" "hidden_inert False (HostedMenu page f)"
  by (simp_all add: HostedMenu_def menuItems_def MenuIcon_def svg_def shape_def optional_def markup_attributes is_control_def
      is_field_def Let_def)

lemma HostedMenu_listeners:
  "listeners (HostedMenu current f) = map (\<lambda>page. (''onClick'', Run (f (hosted_path page)))) [About, Terms, Privacy]"
  by (simp add: HostedMenu_def menuItems_def MenuIcon_def svg_def shape_def optional_def markup_attributes)

lemma any_page: "(\<exists>page. P page) \<longleftrightarrow> P About \<or> P Terms \<or> P Privacy"
proof
  assume "\<exists>page. P page"
  then obtain page where "P page" ..
  then show "P About \<or> P Terms \<or> P Privacy" by (cases page) simp_all
qed blast

lemma HostedMenu_offers: "offers [HostedMenu current f] e \<longleftrightarrow> (\<exists>page. e = f (hosted_path page))"
  by (simp add: any_page offers_def yields_def HostedMenu_listeners)

text \<open>The menu leads to every page of the hosted service and nowhere else: each link is the path of its page.\<close>

lemma menu_leads_to_pages: "resolveRoute (hosted_path page) True live = HostedRoute page"
proof -
  have "hostedPageFromPath (hosted_path page) = Some page"
    by (cases page) (simp_all add: hosted_path_def hostedPagePaths_def hostedPageFromPath_def map_get_map_new)
  moreover have "path_segments (hosted_path page) \<noteq> []"
    by (cases page) (simp_all add: hosted_path_def hostedPagePaths_def path_segments_def js_def)
  ultimately show ?thesis by (simp add: resolveRoute_def Let_def)
qed

end
