(* ===== verification/Paste_Create.thy ===== *)
theory Paste_Create
  imports Paste_Viewer
begin

text \<open>
  Creating a paste (\<open>CreationCanvas\<close> and \<open>createEncryptedDraft\<close> in \<open>web/src/App.tsx\<close>): validation,
  encryption in the browser, the request and its failure messages, and the state of the form with its
  submissions in flight. Main facts: an encrypted paste read through its link shows the draft; the
  request of an encrypted draft tells the service nothing but the ciphertext; an invalid draft is never
  sent.
\<close>

section \<open>Requests\<close>

text \<open>What a submission can fail with: a failure of the API, or an error of the encryption or the link.\<close>

datatype createError = CreateAPIFailure "apiErrorCode apiFailure" | CreateOtherError

definition draft_payload :: "createDraft \<Rightarrow> jsval" where
  "draft_payload draft = JObj [(js ''version'', JInt 1), (js ''title'', JStr (dr_title draft)),
     (js ''language'', JStr (dr_language draft)), (js ''content'', JStr (dr_content draft))]"

definition api_result :: "(apiErrorCode apiFailure, 'a) result \<Rightarrow> (createError, 'a) result" where
  "api_result r = (case r of Inl e \<Rightarrow> Inl (CreateAPIFailure e) | Inr v \<Rightarrow> Inr v)"

definition other_result :: "('e, 'a) result \<Rightarrow> (createError, 'a) result" where
  "other_result r = (case r of Inl e \<Rightarrow> Inl CreateOtherError | Inr v \<Rightarrow> Inr v)"

text \<open>The key and the initialisation vector are those the browser generates.\<close>

definition createEncryptedDraft ::
  "subtleCrypto \<Rightarrow> bytes \<Rightarrow> bytes \<Rightarrow> 'u urlAPI \<Rightarrow> apiErrorCode api \<Rightarrow> createDraft \<Rightarrow> pasteExpiry \<times> bool
   \<Rightarrow> (createError, createdPaste) result" where
  "createEncryptedDraft sc key iv url api draft request =
     bind_result (other_result (encryptPayload sc key iv (draft_payload draft))) (\<lambda>encrypted.
     bind_result (api_result (createEncryptedPaste api
       \<lparr>er_envelope = ep_envelope encrypted, er_expiry = fst request, er_burnAfterRead = snd request\<rparr>)) (\<lambda>created.
     bind_result (other_result (withKeyFragment url (cp_url created) (ep_key encrypted))) (\<lambda>link.
       Inr (created\<lparr>cp_url := link\<rparr>))))"

text \<open>The part of \<open>submit\<close> that creates the paste.\<close>

definition create_draft ::
  "subtleCrypto \<Rightarrow> bytes \<Rightarrow> bytes \<Rightarrow> 'u urlAPI \<Rightarrow> apiErrorCode api \<Rightarrow> createDraft \<Rightarrow> (createError, createdPaste) result" where
  "create_draft sc key iv url api draft =
     (let request = lifetimeRequest (dr_lifetime draft)
      in if dr_encrypted draft then createEncryptedDraft sc key iv url api draft request
         else api_result (createPlaintextPaste api
           \<lparr>pr_title = dr_title draft, pr_language = dr_language draft, pr_content = dr_content draft,
            pr_expiry = fst request, pr_burnAfterRead = snd request\<rparr>))"

definition again_message :: "string \<Rightarrow> string \<Rightarrow> jsstring" where
  "again_message before after_dash = js before @ [0x2014] @ js after_dash"

definition createFailureMessage :: "createError \<Rightarrow> jsstring" where
  "createFailureMessage error = (case error of
     CreateAPIFailure (APIError status code message requestID) \<Rightarrow>
       (case code of
          PayloadTooLarge \<Rightarrow> js ''Paste is too large''
        | RateLimitedCode \<Rightarrow> again_message ''Too many requests '' '' try again later''
        | InvalidRequest \<Rightarrow> js ''Check the paste details and try again''
        | _ \<Rightarrow> again_message ''Could not create paste '' '' try again'')
   | _ \<Rightarrow> again_message ''Could not create paste '' '' try again'')"

section \<open>The form\<close>

datatype creationEffect =
    CreationStatus jsstring
  | Submission createDraft
  | DraftChanged createDraft
  | PasteCreated createdPaste

record creation =
  cc_draft :: createDraft
  cc_errors :: createValidation
  cc_submitting :: bool
  cc_inFlight :: "createDraft list"
  cc_log :: "creationEffect list"

definition no_errors :: createValidation where
  "no_errors = \<lparr>cv_title = None, cv_language = None, cv_content = None\<rparr>"

definition creation_new :: "createDraft \<Rightarrow> creation" where
  "creation_new draft =
     \<lparr>cc_draft = draft, cc_errors = no_errors, cc_submitting = False, cc_inFlight = [], cc_log = []\<rparr>"

definition creation_log :: "creationEffect \<Rightarrow> creation \<Rightarrow> creation" where
  "creation_log e c = c\<lparr>cc_log := cc_log c @ [e]\<rparr>"

text \<open>\<open>Object.values(errors)\<close>: the messages in the order in which validation sets them.\<close>

definition error_values :: "createValidation \<Rightarrow> jsstring list" where
  "error_values errors = concat (map (\<lambda>e. case e of None \<Rightarrow> [] | Some m \<Rightarrow> [m])
     [cv_title errors, cv_language errors, cv_content errors])"

definition updateDraft :: "(createDraft \<Rightarrow> createDraft) \<Rightarrow> creation \<Rightarrow> creation" where
  "updateDraft update c = (let next = update (cc_draft c) in creation_log (DraftChanged next) (c\<lparr>cc_draft := next\<rparr>))"

text \<open>\<open>submit\<close> until the paste is being created.\<close>

definition creation_submit :: "creation \<Rightarrow> creation" where
  "creation_submit c =
     (let nextErrors = validateDraft (cc_draft c);
          c = c\<lparr>cc_errors := nextErrors\<rparr>
      in if error_values nextErrors \<noteq> [] then
           creation_log (CreationStatus
             (if cv_content nextErrors = Some (js ''Paste content is required.'') then js ''Empty paste''
              else hd (error_values nextErrors))) c
         else
           creation_log (Submission (cc_draft c))
             (c\<lparr>cc_submitting := True, cc_inFlight := cc_inFlight c @ [cc_draft c]\<rparr>))"

text \<open>The rest of \<open>submit\<close>, when the paste is created or not. \<open>PasteCreated\<close> is the call of \<open>onCreated\<close>.\<close>

definition submission_ends :: "nat \<Rightarrow> (createError, createdPaste) result \<Rightarrow> creation \<Rightarrow> creation" where
  "submission_ends i outcome c =
     (if i < length (cc_inFlight c) then
        let c = c\<lparr>cc_inFlight := take i (cc_inFlight c) @ drop (Suc i) (cc_inFlight c)\<rparr>;
            c = (case outcome of
                   Inl error \<Rightarrow> creation_log (CreationStatus (createFailureMessage error)) c
                 | Inr created \<Rightarrow> creation_log (PasteCreated created) c)
        in c\<lparr>cc_submitting := False\<rparr>
      else c)"

text \<open>
  The controls. Both the button and the editor's Mod-Enter binding submit; only the button is disabled
  while a submission is in flight.
\<close>

datatype creationEvent =
    TitleTyped jsstring
  | LanguageChosen jsstring
  | ContentTyped jsstring
  | LifetimeChosen lifetime
  | EncryptToggled bool
  | CreateClicked
  | ModEnter
  | SubmissionEnds nat "(createError, createdPaste) result"

definition creation_step :: "creationEvent \<Rightarrow> creation \<Rightarrow> creation" where
  "creation_step ev c = (case ev of
     TitleTyped title \<Rightarrow> updateDraft (\<lambda>d. d\<lparr>dr_title := title\<rparr>) c
   | LanguageChosen language \<Rightarrow> updateDraft (\<lambda>d. d\<lparr>dr_language := language\<rparr>) c
   | ContentTyped content \<Rightarrow> updateDraft (\<lambda>d. d\<lparr>dr_content := content\<rparr>) c
   | LifetimeChosen l \<Rightarrow>
       (let c = updateDraft (\<lambda>d. d\<lparr>dr_lifetime := l\<rparr>) c
        in if l = Once then creation_log (CreationStatus (js ''Destroyed after one read.'')) c else c)
   | EncryptToggled encrypted \<Rightarrow>
       (let c = updateDraft (\<lambda>d. d\<lparr>dr_encrypted := encrypted\<rparr>) c
        in if encrypted then creation_log (CreationStatus (js ''The key stays in the copied link.'')) c else c)
   | CreateClicked \<Rightarrow> (if cc_submitting c then c else creation_submit c)
   | ModEnter \<Rightarrow> creation_submit c
   | SubmissionEnds i outcome \<Rightarrow> submission_ends i outcome c)"

definition creation_run :: "creationEvent list \<Rightarrow> creation \<Rightarrow> creation" where
  "creation_run evs c = fold creation_step evs c"

section \<open>The link opens the paste\<close>

lemma draft_payload_data: "json_data (draft_payload draft)"
  by (simp add: draft_payload_def is_safe_integer_def max_safe_integer_def)

lemma key_of_fragment:
  assumes "length key = 32"
  shows "keyFromFragmentOrURL url (0x23 # encodeBase64url key) = Inr (encodeBase64url key)"
proof -
  let ?k = "encodeBase64url key"
  have units: "list_all base64url_unit ?k" by (rule encoded_units)
  have nonempty: "?k \<noteq> []"
    using assms length_sextets [of "map unat key"] by (auto simp: encodeBase64url_chars byte_sextets_def)
  then have "base64url_unit (last ?k)" using units by (auto simp: list_all_iff)
  then have "trim (0x23 # ?k) = 0x23 # ?k"
    using nonempty by (intro trim_id) (auto simp: is_whitespace_def base64url_unit_def)
  moreover have "\<not> contains_sub (0x23 # ?k) (js ''://'')"
    using contains_sub_set [of "0x23 # ?k" "js ''://''"] units
    by (auto simp: list_all_iff js_def dest!: bspec [of _ _ 58]) (auto simp: base64url_unit_def)
  moreover have "starts_with (0x23 # ?k) (js ''#'')" by (simp add: starts_with_def js_def)
  ultimately show ?thesis
    using assms by (simp add: keyFromFragmentOrURL_def base64url_round_trip keyBytes_def)
qed

lemma encrypted_draft_link:
  assumes "url_laws url" "length key = 32"
    and "createEncryptedDraft sc key iv url api draft request = Inr created"
  shows "\<exists>e u'. encryptPayload sc key iv (draft_payload draft) = Inr e \<and> ep_key e = encodeBase64url key
    \<and> url_parse url (cp_url created) = Some u' \<and> url_hash url u' = 0x23 # encodeBase64url key"
proof -
  from assms(3) obtain e url0 link where e: "encryptPayload sc key iv (draft_payload draft) = Inr e"
    and link: "withKeyFragment url url0 (ep_key e) = Inr link" and created: "cp_url created = link"
    by (auto simp: createEncryptedDraft_def bind_result_Inr_iff other_result_def api_result_def split: sum.splits)
  have key: "ep_key e = encodeBase64url key"
    using e by (auto simp: encryptPayload_def bind_result_Inr_iff Let_def split: option.splits)
  have "encodeBase64url key \<noteq> []"
    using assms(2) length_sextets [of "map unat key"] by (auto simp: encodeBase64url_chars byte_sextets_def)
  moreover from link key key_of_encoded [OF assms(2), of url] obtain u where
    "link = url_string url (url_set_hash url (encodeBase64url key) u)"
    by (auto simp: withKeyFragment_def split: option.splits sum.splits)
  moreover from assms(1) have "\<exists>u'. url_parse url (url_string url (url_set_hash url k u)) = Some u' \<and> url_hash url u' = 0x23 # k"
    if "k \<noteq> []" "list_all base64url_unit k" for k
    using that unfolding url_laws_def by blast
  ultimately obtain u' where "url_parse url link = Some u'" "url_hash url u' = 0x23 # encodeBase64url key"
    using encoded_units [of key] by blast
  with e key created show ?thesis by auto
qed

definition read_events :: "bool \<Rightarrow> jsstring \<Rightarrow> jsval retrieved \<Rightarrow> viewerEvent list" where
  "read_events burn hash r =
     (if burn then [FetchAnswer 0 hash (Inr (BurnMetadata True)), RevealClicked hash,
        ConsumeAnswer 1 (Inr (RetrievedEncryptedPaste r)), DecryptionEnds 2]
      else [FetchAnswer 0 hash (Inr (RetrievedEncryptedPaste r)), DecryptionEnds 1])"

lemma read_with_key:
  assumes "keyFromFragmentOrURL url hash = Inr key" "decryptPayload sc (rt_data r) key = Inr payload" "slug \<noteq> []" "hash \<noteq> []"
  shows "vw_state (viewer_run sc url lower (read_events burn hash r) (viewer_mount slug now)) = ViewReady
    \<and> shown_payload (viewer_run sc url lower (read_events burn hash r) (viewer_mount slug now)) = Some payload"
  using assms
  by (cases burn) (simp_all add: read_events_def viewer_run_def viewer_mount_def load_paste_def viewer_new_def Let_def
      viewer_step_def fetch_done_def start_task_def end_task_def viewer_log_def open_done_def shown_payload_def
      revealAndDestroy_def consume_done_def reveal_done_def)

text \<open>
  An encrypted paste arrives: when the creation of an encrypted draft succeeds and the service
  returns the envelope it was sent, then opening the created link shows exactly the draft's title,
  language and content, for a paste that is fetched and for one that is revealed and destroyed; the
  key travels in the fragment of the link only.
\<close>
theorem encrypted_paste_arrives:
  assumes "aead_laws sc" "url_laws url" "length key = 32" "length iv = 12"
    and "createEncryptedDraft sc key iv url api draft request = Inr created" "slug \<noteq> []"
  shows "\<exists>e u'. encryptPayload sc key iv (draft_payload draft) = Inr e \<and> url_parse url (cp_url created) = Some u'
    \<and> (\<forall>r burn now lower. rt_data r = ep_envelope e \<longrightarrow>
        (let v = viewer_run sc url lower (read_events burn (url_hash url u') r) (viewer_mount slug now)
         in vw_state v = ViewReady \<and> shown_payload v = Some (draft_payload draft)))"
proof -
  from encrypted_draft_link [OF assms(2,3,5)] obtain e u' where
    e: "encryptPayload sc key iv (draft_payload draft) = Inr e" "ep_key e = encodeBase64url key"
    and u: "url_parse url (cp_url created) = Some u'" "url_hash url u' = 0x23 # encodeBase64url key"
    by blast
  have "assertPlaintextPayload (draft_payload draft) = Inr ()"
    using e(1) by (auto simp: encryptPayload_def bind_result_Inr_iff)
  from decrypt_encrypt_core [OF assms(1,3,4) draft_payload_data this] e
  have "decryptPayload sc (ep_envelope e) (encodeBase64url key) = Inr (draft_payload draft)" by auto
  with key_of_fragment [OF assms(3)] u(2) assms(6) have
    "vw_state (viewer_run sc url lower (read_events burn (url_hash url u') r) (viewer_mount slug now)) = ViewReady
    \<and> shown_payload (viewer_run sc url lower (read_events burn (url_hash url u') r) (viewer_mount slug now)) = Some (draft_payload draft)"
    if "rt_data r = ep_envelope e" for r burn now lower
    using that by (intro read_with_key) simp_all
  with e u show ?thesis unfolding Let_def by blast
qed

definition demo_draft :: createDraft where
  "demo_draft = defaultCreateDraft\<lparr>dr_title := js ''t'', dr_content := js ''x'', dr_encrypted := True\<rparr>"

definition demo_created :: jsval where
  "demo_created = JObj [(js ''slug'', JStr (js ''a'')), (js ''url'', JStr (js ''https://x.example/a'')), (js ''expires_at'', JStr [])]"

lemma demo_creation:
  "\<exists>created. createEncryptedDraft demo_crypto (replicate 32 7) (replicate 12 9) demo_url (\<lambda>path init. Inr demo_created)
      demo_draft (OneDay, False) = Inr created"
proof -
  have payload: "assertPlaintextPayload (draft_payload demo_draft) = Inr ()"
    by (simp add: assertPlaintextPayload_def draft_payload_def demo_draft_def defaultCreateDraft_def plaintextVersion_def)
  obtain e where e: "encryptPayload demo_crypto (replicate 32 7) (replicate 12 9) (draft_payload demo_draft) = Inr e"
    using decrypt_encrypt_core [OF demo_crypto_laws, of "replicate 32 7" "replicate 12 9", OF _ _ draft_payload_data payload] by auto
  then have key: "ep_key e = encodeBase64url (replicate 32 7)"
    by (auto simp: encryptPayload_def bind_result_Inr_iff Let_def split: option.splits)
  have "isCreatedPaste demo_created" by (simp add: isCreatedPaste_def demo_created_def)
  then show ?thesis
    using e key key_of_encoded [of "replicate 32 7" demo_url]
    by (simp add: createEncryptedDraft_def other_result_def api_result_def createEncryptedPaste_def created_of_def
        withKeyFragment_def demo_url_def Let_def)
qed

theorem encrypted_paste_arrives_witness:
  "\<exists>e u' created. createEncryptedDraft demo_crypto (replicate 32 7) (replicate 12 9) demo_url (\<lambda>path init. Inr demo_created)
      demo_draft (OneDay, False) = Inr created
    \<and> encryptPayload demo_crypto (replicate 32 7) (replicate 12 9) (draft_payload demo_draft) = Inr e
    \<and> url_parse demo_url (cp_url created) = Some u'
    \<and> (\<forall>r burn now lower. rt_data r = ep_envelope e \<longrightarrow>
        (let v = viewer_run demo_crypto demo_url lower (read_events burn (url_hash demo_url u') r) (viewer_mount (js ''a'') now)
         in vw_state v = ViewReady \<and> shown_payload v = Some (draft_payload demo_draft)))"
proof -
  obtain created where created: "createEncryptedDraft demo_crypto (replicate 32 7) (replicate 12 9) demo_url
      (\<lambda>path init. Inr demo_created) demo_draft (OneDay, False) = Inr created"
    using demo_creation by blast
  from encrypted_paste_arrives [OF demo_crypto_laws demo_url_laws _ _ this, of "js ''a''"] created show ?thesis
    by simp
qed

section \<open>The service learns the ciphertext only\<close>

definition ciphertext_of :: "subtleCrypto \<Rightarrow> bytes \<Rightarrow> bytes \<Rightarrow> createDraft \<Rightarrow> bytes option" where
  "ciphertext_of sc key iv draft = map_option (\<lambda>text. sc_encrypt sc key iv (utf8_encode text)) (json_stringify (draft_payload draft))"

lemma draft_payload_ok:
  "assertPlaintextPayload (draft_payload draft) = (if dr_content draft = [] then Inl DecryptionError else Inr ())"
  by (simp add: assertPlaintextPayload_def draft_payload_def plaintextVersion_def)

lemma encrypted_envelope:
  assumes "encryptPayload sc key iv (draft_payload draft) = Inr e"
  shows "\<exists>c. ciphertext_of sc key iv draft = Some c \<and> ep_envelope e = JObj
    [(js ''version'', JInt encryptionVersion), (js ''algorithm'', JStr encryptionAlgorithm),
     (js ''iv'', JStr (encodeBase64url iv)), (js ''ciphertext'', JStr (encodeBase64url c))]"
  using assms by (auto simp: encryptPayload_def ciphertext_of_def bind_result_Inr_iff Let_def split: option.splits)

text \<open>
  C11. What the service can learn of an encrypted paste: two drafts with the same lifetime whose
  encryptions, under whatever keys, give the same ciphertext are indistinguishable to it. Both are
  created through one and the same request, in whose answer alone the results can differ; so no title,
  language, content or key leaves the browser but inside the ciphertext.
\<close>
theorem only_ciphertext_is_sent:
  assumes "dr_encrypted d" "dr_encrypted d'" "dr_lifetime d = dr_lifetime d'" "dr_content d \<noteq> []" "dr_content d' \<noteq> []"
    and "ciphertext_of sc key iv d = ciphertext_of sc key' iv d'"
  shows "\<exists>path init f f'. \<forall>api. create_draft sc key iv url api d = f (api path init)
    \<and> create_draft sc key' iv url api d' = f' (api path init)"
proof -
  have json: "\<exists>text. json_stringify (draft_payload d) = Some text" for d
    using json_round_trip [OF draft_payload_data [of d]] by blast
  have "\<exists>e. encryptPayload sc key iv (draft_payload d) = Inr e" if "dr_content d \<noteq> []" for key d
    using json [of d] that by (auto simp: encryptPayload_def draft_payload_ok Let_def)
  then obtain e e' where e: "encryptPayload sc key iv (draft_payload d) = Inr e"
    "encryptPayload sc key' iv (draft_payload d') = Inr e'"
    using assms(4,5) by blast
  have same: "ep_envelope e = ep_envelope e'"
    using encrypted_envelope [OF e(1)] encrypted_envelope [OF e(2)] assms(6) by auto
  define r where "r = lifetimeRequest (dr_lifetime d)"
  define body where "body = post_paste (paste_body ''encrypted'' (ep_envelope e) (fst r) (snd r))"
  define rest where "rest = (\<lambda>(e :: encryptedPaste) answer. bind_result (api_result (created_of answer)) (\<lambda>created.
     bind_result (other_result (withKeyFragment url (cp_url created) (ep_key e))) (\<lambda>link.
       Inr (created\<lparr>cp_url := link\<rparr>) :: (createError, createdPaste) result)))"
  have "create_draft sc key iv url api d = rest e (api (js ''/api/v1/pastes'') body)
    \<and> create_draft sc key' iv url api d' = rest e' (api (js ''/api/v1/pastes'') body)" for api
    using assms(1-3) e same
    by (simp add: create_draft_def createEncryptedDraft_def createEncryptedPaste_def other_result_def rest_def body_def
        r_def Let_def)
  then show ?thesis by blast
qed

theorem only_ciphertext_is_sent_witness:
  "let sc = \<lparr>sc_encrypt = (\<lambda>key iv plain. []), sc_decrypt = (\<lambda>key iv cipher. None)\<rparr>
   in \<exists>path init f f'. \<forall>api. create_draft sc (replicate 32 7) (replicate 12 9) demo_url api demo_draft = f (api path init)
     \<and> create_draft sc (replicate 32 8) (replicate 12 9) demo_url api (demo_draft\<lparr>dr_content := js ''y''\<rparr>) = f' (api path init)"
proof -
  have "\<exists>text. json_stringify (draft_payload d) = Some text" for d
    using json_round_trip [OF draft_payload_data [of d]] by blast
  then have "ciphertext_of \<lparr>sc_encrypt = (\<lambda>key iv plain. []), sc_decrypt = (\<lambda>key iv cipher. None)\<rparr> key iv d = Some []" for key iv d
    by (metis (mono_tags, lifting) ciphertext_of_def option.simps(9) subtleCrypto.select_convs(1))
  then show ?thesis
    unfolding Let_def by (intro only_ciphertext_is_sent) (simp_all add: demo_draft_def)
qed

section \<open>Submissions\<close>

lemma error_values_Nil: "error_values (validateDraft d) = [] \<longleftrightarrow> validateDraft d = no_errors"
  by (cases "validateDraft d") (auto simp: error_values_def no_errors_def split: option.splits)

text \<open>Every submission in flight is valid, and there is one while the form says so.\<close>

definition creation_ok :: "creation \<Rightarrow> bool" where
  "creation_ok c \<longleftrightarrow> (\<forall>d\<in>set (cc_inFlight c). validateDraft d = no_errors)
     \<and> (\<forall>d. Submission d \<in> set (cc_log c) \<longrightarrow> validateDraft d = no_errors)
     \<and> (cc_submitting c \<longrightarrow> cc_inFlight c \<noteq> [])"

lemma creation_ok_update:
  "creation_ok c \<Longrightarrow> creation_ok (updateDraft f c)" "creation_ok c \<Longrightarrow> creation_ok (creation_log (CreationStatus m) c)"
  by (simp_all add: updateDraft_def creation_log_def creation_ok_def Let_def)

lemma creation_ok_submit: "creation_ok c \<Longrightarrow> creation_ok (creation_submit c)"
  by (auto simp: creation_ok_def creation_submit_def creation_log_def Let_def error_values_Nil)

lemma creation_ok_step: "creation_ok c \<Longrightarrow> creation_ok (creation_step ev c)"
proof (cases ev)
  case (SubmissionEnds i outcome)
  assume "creation_ok c"
  with SubmissionEnds show ?thesis
    by (auto simp: creation_step_def submission_ends_def creation_ok_def creation_log_def Let_def
        split: sum.split dest: in_set_takeD in_set_dropD)
qed (simp_all add: creation_step_def creation_ok_submit creation_ok_update Let_def)

text \<open>
  A draft that fails validation is never sent: in every run of the form, whatever is typed and
  clicked, each submission has a content of 1 to 1048576 bytes, a title of at most 200 and a language
  of at most 64; and the form is disabled only while a submission is in flight.
\<close>
theorem submissions_are_valid:
  assumes "c = creation_run evs (creation_new draft)"
  shows "(\<forall>d. Submission d \<in> set (cc_log c) \<longrightarrow> 1 \<le> utf8Bytes (dr_content d) \<and> utf8Bytes (dr_content d) \<le> 1048576
      \<and> utf8Bytes (dr_title d) \<le> 200 \<and> utf8Bytes (dr_language d) \<le> 64)
    \<and> (cc_submitting c \<longrightarrow> cc_inFlight c \<noteq> [])"
proof -
  have "creation_ok c' \<Longrightarrow> creation_ok (creation_run evs c')" for c'
    unfolding creation_run_def by (rule fold_invariant [where Q = "\<lambda>_. True"]) (simp_all add: creation_ok_step)
  moreover have "creation_ok (creation_new draft)" by (simp add: creation_ok_def creation_new_def)
  ultimately have ok: "creation_ok c" using assms by blast
  have "1 \<le> utf8Bytes (dr_content d) \<and> utf8Bytes (dr_content d) \<le> 1048576
      \<and> utf8Bytes (dr_title d) \<le> 200 \<and> utf8Bytes (dr_language d) \<le> 64" if "validateDraft d = no_errors" for d
    using length_utf8_encode_bounds [of "dr_content d"] that
    by (cases "dr_content d") (auto simp: validateDraft_def no_errors_def utf8Bytes_def maxPasteBytes_def maxTitleBytes_def
        maxLanguageBytes_def split: if_splits)
  with ok show ?thesis by (auto simp: creation_ok_def)
qed

text \<open>
  The keyboard submits twice: Mod-Enter looks at no flag, so pressing it again while a valid draft is
  being created sends the draft a second time; the button does not.
\<close>
theorem keyboard_submits_twice:
  assumes "validateDraft draft = no_errors"
  shows "let once = creation_run [CreateClicked] (creation_new draft);
             twice = creation_run [ModEnter] once
         in cc_submitting once \<and> cc_inFlight once = [draft] \<and> cc_inFlight twice = [draft, draft]
           \<and> cc_log twice = [Submission draft, Submission draft]
           \<and> creation_run [CreateClicked] once = once"
  using assms error_values_Nil [of draft]
  by (simp add: creation_run_def creation_step_def creation_submit_def creation_new_def creation_log_def Let_def)

lemma demo_draft_valid: "validateDraft demo_draft = no_errors"
  using length_utf8_encode_bounds [of "js ''x''"] length_utf8_encode_bounds [of "js ''plaintext''"]
    length_utf8_encode_bounds [of "js ''t''"]
  by (simp add: validateDraft_def demo_draft_def defaultCreateDraft_def utf8Bytes_def maxTitleBytes_def maxLanguageBytes_def
      maxPasteBytes_def no_errors_def)

theorem submissions_are_valid_witness:
  "Submission demo_draft \<in> set (cc_log (creation_run [ContentTyped [], ContentTyped (js ''x''), CreateClicked] (creation_new demo_draft)))
    \<and> 1 \<le> utf8Bytes (dr_content demo_draft) \<and> utf8Bytes (dr_title demo_draft) \<le> 200
    \<and> cc_inFlight (creation_run [ContentTyped [], ContentTyped (js ''x''), CreateClicked] (creation_new demo_draft)) \<noteq> []"
proof -
  let ?c = "creation_run [ContentTyped [], ContentTyped (js ''x''), CreateClicked] (creation_new demo_draft)"
  have same: "demo_draft\<lparr>dr_content := js ''x''\<rparr> = demo_draft" by (simp add: demo_draft_def)
  have sent: "cc_submitting ?c \<and> Submission demo_draft \<in> set (cc_log ?c)"
    using demo_draft_valid error_values_Nil [of demo_draft] same
    by (simp add: creation_run_def creation_step_def creation_submit_def creation_new_def creation_log_def updateDraft_def Let_def)
  with submissions_are_valid [OF refl, of "[ContentTyped [], ContentTyped (js ''x''), CreateClicked]" demo_draft]
  show ?thesis by blast
qed

theorem keyboard_submits_twice_witness:
  "cc_log (creation_run [CreateClicked, ModEnter] (creation_new demo_draft)) = [Submission demo_draft, Submission demo_draft]"
  using keyboard_submits_twice [OF demo_draft_valid] by (simp add: Let_def creation_run_def)

end
