(* ===== verification/App_Shell.thy ===== *)
theory App_Shell
  imports Paste_Create Live_API
begin

text \<open>
  The shell of the application (\<open>App\<close> and \<open>StatusToast\<close> in \<open>web/src/App.tsx\<close>, \<open>web/src/share-url.ts\<close>):
  the route and navigation, drafts handed from page to page, the share link with its copy button, the
  theme and the notifications with their timers. The location of the browser is part of the state;
  whether the clipboard accepts a text is an argument. Main facts: notifications have identifiers of
  their own and leave one by one; a notification is shown for exactly its duration of unpaused time.
\<close>

section \<open>Share links\<close>

text \<open>The parts of a parsed URL the shell uses; \<open>url_resolve\<close> is \<open>new URL(relative, base)\<close>.\<close>

record 'u locationAPI = "'u urlAPI" +
  url_pathname :: "'u \<Rightarrow> jsstring"
  url_search :: "'u \<Rightarrow> jsstring"
  url_resolve :: "jsstring \<Rightarrow> jsstring \<Rightarrow> 'u option"

definition browserShareURL :: "'u locationAPI \<Rightarrow> jsstring \<Rightarrow> jsstring \<Rightarrow> jsstring option" where
  "browserShareURL api serverURL browserOrigin =
     (case url_parse api serverURL of
        None \<Rightarrow> None
      | Some destination \<Rightarrow>
          map_option (url_string api) (url_resolve api
            (url_pathname api destination @ url_search api destination @ url_hash api destination) browserOrigin))"

section \<open>State\<close>

record statusToast =
  st_id :: nat
  st_message :: jsstring

record appEnv =
  ae_hosted :: bool
  ae_liveEnabled :: bool
  ae_origin :: jsstring

record appShell =
  ap_location :: jsstring
  ap_fragment :: jsstring
  ap_route :: route
  ap_theme :: theme
  ap_statuses :: "statusToast list"
  ap_keyGateOpen :: bool
  ap_notificationsPaused :: bool
  ap_nextStatusID :: nat
  ap_shareURL :: "jsstring option"
  ap_copyFailed :: bool
  ap_liveDraft :: liveDraft
  ap_liveGateOpen :: bool
  ap_createDraftSeed :: createDraft
  ap_createDraftRef :: createDraft
  ap_themeTransition :: bool
  ap_transitionTimer :: "nat option"
  ap_nextTimer :: nat

definition currentRoute :: "appEnv \<Rightarrow> jsstring \<Rightarrow> route" where
  "currentRoute env pathname = resolveRoute pathname (ae_hosted env) (ae_liveEnabled env)"

definition app_new :: "appEnv \<Rightarrow> jsstring \<Rightarrow> jsstring \<Rightarrow> theme \<Rightarrow> appShell" where
  "app_new env pathname fragment t =
     \<lparr>ap_location = pathname, ap_fragment = fragment, ap_route = currentRoute env pathname, ap_theme = t,
      ap_statuses = [], ap_keyGateOpen = False, ap_notificationsPaused = False, ap_nextStatusID = 0,
      ap_shareURL = None, ap_copyFailed = False, ap_liveDraft = blankLiveDraft, ap_liveGateOpen = False,
      ap_createDraftSeed = defaultCreateDraft, ap_createDraftRef = defaultCreateDraft,
      ap_themeTransition = False, ap_transitionTimer = None, ap_nextTimer = 0\<rparr>"

section \<open>Navigation\<close>

text \<open>\<open>pushState\<close> takes a path with its query and fragment; the query is not used by any route.\<close>

definition navigate :: "appEnv \<Rightarrow> jsstring \<Rightarrow> jsstring \<Rightarrow> appShell \<Rightarrow> appShell" where
  "navigate env pathname fragment a =
     a\<lparr>ap_keyGateOpen := False, ap_location := pathname, ap_fragment := fragment,
       ap_route := currentRoute env pathname\<rparr>"

text \<open>The browser's back and forward buttons.\<close>

definition onPopState :: "appEnv \<Rightarrow> jsstring \<Rightarrow> jsstring \<Rightarrow> appShell \<Rightarrow> appShell" where
  "onPopState env pathname fragment a =
     a\<lparr>ap_location := pathname, ap_fragment := fragment, ap_route := currentRoute env pathname\<rparr>"

definition navigateToNewPaste :: "appEnv \<Rightarrow> appShell \<Rightarrow> appShell" where
  "navigateToNewPaste env a =
     navigate env (js ''/'') [] (a\<lparr>ap_createDraftRef := defaultCreateDraft, ap_createDraftSeed := defaultCreateDraft,
       ap_liveDraft := blankLiveDraft\<rparr>)"

definition handleLiveShare :: "appEnv \<Rightarrow> appShell \<Rightarrow> appShell" where
  "handleLiveShare env a =
     navigate env (js ''/live'') [] (a\<lparr>ap_copyFailed := False, ap_shareURL := None,
       ap_liveDraft := (if ap_route a = CreateRoute then liveDraftFromCreateDraft (ap_createDraftRef a) else blankLiveDraft)\<rparr>)"

definition draft_changed :: "createDraft \<Rightarrow> appShell \<Rightarrow> appShell" where
  "draft_changed draft a = a\<lparr>ap_createDraftRef := draft\<rparr>"

section \<open>Notifications\<close>

definition showStatus :: "jsstring \<Rightarrow> appShell \<Rightarrow> appShell" where
  "showStatus message a =
     (let i = Suc (ap_nextStatusID a)
      in a\<lparr>ap_nextStatusID := i, ap_statuses := ap_statuses a @ [\<lparr>st_id = i, st_message = message\<rparr>]\<rparr>)"

text \<open>The last line is the effect on the number of notifications.\<close>

definition dismissStatus :: "nat \<Rightarrow> appShell \<Rightarrow> appShell" where
  "dismissStatus i a =
     (let a = a\<lparr>ap_statuses := filter (\<lambda>status. st_id status \<noteq> i) (ap_statuses a)\<rparr>
      in if ap_statuses a = [] then a\<lparr>ap_notificationsPaused := False\<rparr> else a)"

definition pause_notifications :: "bool \<Rightarrow> appShell \<Rightarrow> appShell" where
  "pause_notifications paused a =
     (if ap_statuses a = [] then a else a\<lparr>ap_notificationsPaused := paused\<rparr>)"

section \<open>Theme\<close>

text \<open>
  The class \<open>theme-transition\<close> of the document is a field; its timer is the last one set, and the one
  before is cleared. The effect that stores the theme is \<open>saveTheme\<close>.
\<close>

definition toggleTheme :: "appShell \<Rightarrow> appShell" where
  "toggleTheme a =
     a\<lparr>ap_themeTransition := True, ap_theme := (if ap_theme a = Dark then Light else Dark),
       ap_transitionTimer := Some (ap_nextTimer a), ap_nextTimer := Suc (ap_nextTimer a)\<rparr>"

definition transition_ends :: "nat \<Rightarrow> appShell \<Rightarrow> appShell" where
  "transition_ends i a =
     (if ap_transitionTimer a = Some i then a\<lparr>ap_themeTransition := False, ap_transitionTimer := None\<rparr> else a)"

section \<open>Created pastes and rooms\<close>

text \<open>
  The state and whether the function returns; it throws when a URL does not parse, and its caller shows
  the failure message of a creation.
\<close>

definition share_created ::
  "'u locationAPI \<Rightarrow> appEnv \<Rightarrow> bool \<Rightarrow> jsstring \<Rightarrow> jsstring \<Rightarrow> jsstring \<Rightarrow> appShell \<Rightarrow> appShell \<times> bool" where
  "share_created api env copied copied_message failed_message url a =
     (case browserShareURL api url (ae_origin env) of
        None \<Rightarrow> (a, False)
      | Some shareURL \<Rightarrow>
          let a = showStatus (if copied then copied_message else failed_message)
                (a\<lparr>ap_shareURL := Some shareURL, ap_copyFailed := \<not> copied\<rparr>)
          in case url_parse api shareURL of
               None \<Rightarrow> (a, False)
             | Some destination \<Rightarrow> (navigate env (url_pathname api destination) (url_hash api destination) a, True))"

definition handleCreated :: "'u locationAPI \<Rightarrow> appEnv \<Rightarrow> bool \<Rightarrow> createdPaste \<Rightarrow> appShell \<Rightarrow> appShell \<times> bool" where
  "handleCreated api env copied created a =
     share_created api env copied (js ''Link copied'') (js ''Paste created '' @ [0x2014] @ js '' copy the link manually'')
       (cp_url created) a"

definition handleLiveCreated :: "'u locationAPI \<Rightarrow> appEnv \<Rightarrow> bool \<Rightarrow> createdLiveRoom \<Rightarrow> appShell \<Rightarrow> appShell \<times> bool" where
  "handleLiveCreated api env copied created a =
     share_created api env copied (js ''LiveBin room link copied'')
       (js ''LiveBin room created '' @ [0x2014] @ js '' copy the link manually'') (cr_url created) a"

definition retryCopy :: "bool \<Rightarrow> appShell \<Rightarrow> appShell" where
  "retryCopy copied a = (case ap_shareURL a of
     None \<Rightarrow> a
   | Some url \<Rightarrow>
       if url = [] then a
       else if copied then showStatus (js ''Link copied'') (a\<lparr>ap_copyFailed := False\<rparr>)
       else showStatus (js ''Could not copy the link'') a)"

definition handleLiveSaveAsPaste :: "appEnv \<Rightarrow> jsstring \<Rightarrow> jsstring \<Rightarrow> jsstring \<Rightarrow> appShell \<Rightarrow> appShell" where
  "handleLiveSaveAsPaste env title language content a =
     (let nextDraft = defaultCreateDraft\<lparr>dr_title := title, dr_language := language, dr_content := content\<rparr>
      in showStatus (js ''Live room content ready to save'')
           (navigate env (js ''/'') [] (a\<lparr>ap_createDraftRef := nextDraft, ap_createDraftSeed := nextDraft\<rparr>)))"

section \<open>The timer of a notification\<close>

definition toastDurationMs :: int where "toastDurationMs = 6000"

record toastTimer =
  to_remainingMs :: int
  to_startedAt :: "int option"

definition toast_new :: toastTimer where
  "toast_new = \<lparr>to_remainingMs = toastDurationMs, to_startedAt = None\<rparr>"

text \<open>
  The effect of \<open>StatusToast\<close> and its cleanup at the time \<open>now\<close>. It runs again whenever the shell
  renders, since the callback it depends on is a new one then, and when \<open>paused\<close> changes.
\<close>

definition toast_effect :: "bool \<Rightarrow> int \<Rightarrow> toastTimer \<Rightarrow> toastTimer" where
  "toast_effect paused now t = (if paused then t else t\<lparr>to_startedAt := Some now\<rparr>)"

definition toast_cleanup :: "int \<Rightarrow> toastTimer \<Rightarrow> toastTimer" where
  "toast_cleanup now t = (case to_startedAt t of
     None \<Rightarrow> t
   | Some startedAt \<Rightarrow> t\<lparr>to_remainingMs := max 0 (to_remainingMs t - (now - startedAt)), to_startedAt := None\<rparr>)"

definition toast_deadline :: "toastTimer \<Rightarrow> int option" where
  "toast_deadline t = map_option (\<lambda>s. s + to_remainingMs t) (to_startedAt t)"

definition toast_rerun :: "int \<times> bool \<Rightarrow> toastTimer \<Rightarrow> toastTimer" where
  "toast_rerun ev t = toast_effect (snd ev) (fst ev) (toast_cleanup (fst ev) t)"

section \<open>Notifications stay apart\<close>

datatype appEvent =
    Navigated jsstring jsstring
  | PopState jsstring jsstring
  | NewPaste
  | LiveShare
  | DraftEdited createDraft
  | StatusShown jsstring
  | Dismissed nat
  | Paused bool
  | ThemeToggled
  | TransitionEnds nat
  | PasteCreatedHere bool createdPaste
  | RoomCreatedHere bool createdLiveRoom
  | CopyRetried bool
  | SaveAsPaste jsstring jsstring jsstring
  | KeyGateChanged bool
  | LiveGateChanged bool

definition app_step :: "'u locationAPI \<Rightarrow> appEnv \<Rightarrow> appEvent \<Rightarrow> appShell \<Rightarrow> appShell" where
  "app_step api env ev a = (case ev of
     Navigated pathname fragment \<Rightarrow> navigate env pathname fragment a
   | PopState pathname fragment \<Rightarrow> onPopState env pathname fragment a
   | NewPaste \<Rightarrow> navigateToNewPaste env a
   | LiveShare \<Rightarrow> handleLiveShare env a
   | DraftEdited draft \<Rightarrow> draft_changed draft a
   | StatusShown message \<Rightarrow> showStatus message a
   | Dismissed i \<Rightarrow> dismissStatus i a
   | Paused paused \<Rightarrow> pause_notifications paused a
   | ThemeToggled \<Rightarrow> toggleTheme a
   | TransitionEnds i \<Rightarrow> transition_ends i a
   | PasteCreatedHere copied created \<Rightarrow> fst (handleCreated api env copied created a)
   | RoomCreatedHere copied created \<Rightarrow> fst (handleLiveCreated api env copied created a)
   | CopyRetried copied \<Rightarrow> retryCopy copied a
   | SaveAsPaste title language content \<Rightarrow> handleLiveSaveAsPaste env title language content a
   | KeyGateChanged isOpen \<Rightarrow> a\<lparr>ap_keyGateOpen := isOpen\<rparr>
   | LiveGateChanged isOpen \<Rightarrow> a\<lparr>ap_liveGateOpen := isOpen\<rparr>)"

definition app_run :: "'u locationAPI \<Rightarrow> appEnv \<Rightarrow> appEvent list \<Rightarrow> appShell \<Rightarrow> appShell" where
  "app_run api env evs a = fold (app_step api env) evs a"

definition app_inv :: "appEnv \<Rightarrow> appShell \<Rightarrow> bool" where
  "app_inv env a \<longleftrightarrow> sorted_wrt (<) (map st_id (ap_statuses a)) \<and> (\<forall>s\<in>set (ap_statuses a). st_id s \<le> ap_nextStatusID a)
     \<and> (ap_statuses a = [] \<longrightarrow> \<not> ap_notificationsPaused a) \<and> ap_route a = currentRoute env (ap_location a)
     \<and> (ap_themeTransition a \<longleftrightarrow> ap_transitionTimer a \<noteq> None)"

lemma app_inv_update:
  assumes "app_inv env a" "ap_statuses a' = ap_statuses a" "ap_nextStatusID a' = ap_nextStatusID a"
    "ap_notificationsPaused a' = ap_notificationsPaused a" "ap_route a' = currentRoute env (ap_location a')"
    "ap_themeTransition a' = ap_themeTransition a" "ap_transitionTimer a' = ap_transitionTimer a"
  shows "app_inv env a'"
  using assms by (simp add: app_inv_def)

lemma app_inv_show: "app_inv env a \<Longrightarrow> app_inv env (showStatus m a)"
  by (auto simp: app_inv_def showStatus_def Let_def sorted_wrt_append le_imp_less_Suc intro: le_SucI)

lemma app_inv_navigate: "app_inv env a \<Longrightarrow> app_inv env (navigate env p f a)"
  by (erule app_inv_update) (simp_all add: navigate_def)

lemma sorted_ids_filter: "sorted_wrt (<) (map f xs) \<Longrightarrow> sorted_wrt (<) (map f (filter P xs))"
  by (induction xs) auto

lemma app_inv_dismiss: "app_inv env a \<Longrightarrow> app_inv env (dismissStatus i a)"
  by (auto simp: app_inv_def dismissStatus_def Let_def intro: sorted_ids_filter)

lemma app_inv_shared:
  assumes "app_inv env a"
  shows "app_inv env (fst (share_created api env copied m m' url a))"
proof -
  have "app_inv env (showStatus msg (a\<lparr>ap_shareURL := q, ap_copyFailed := b\<rparr>))" for msg q b
    using assms by (intro app_inv_show) (simp add: app_inv_def)
  with assms app_inv_navigate show ?thesis
    by (simp add: share_created_def Let_def split: option.split)
qed

lemma app_inv_set:
  assumes "app_inv env a"
  shows "app_inv env (a\<lparr>ap_createDraftRef := d\<rparr>)" "app_inv env (a\<lparr>ap_copyFailed := b\<rparr>)"
    "app_inv env (a\<lparr>ap_keyGateOpen := b\<rparr>)" "app_inv env (a\<lparr>ap_liveGateOpen := b\<rparr>)"
    "app_inv env (a\<lparr>ap_createDraftRef := d, ap_createDraftSeed := d'\<rparr>)"
    "app_inv env (a\<lparr>ap_createDraftRef := d, ap_createDraftSeed := d', ap_liveDraft := l\<rparr>)"
    "app_inv env (a\<lparr>ap_copyFailed := b, ap_shareURL := q, ap_liveDraft := l\<rparr>)"
  using assms by (simp_all add: app_inv_def)

lemmas app_inv_rules = app_inv_show app_inv_navigate app_inv_dismiss app_inv_shared app_inv_set

lemma app_inv_step: "app_inv env a \<Longrightarrow> app_inv env (app_step api env ev a)"
proof (cases ev)
  case (PopState p f)
  assume "app_inv env a"
  then show ?thesis using PopState by (simp add: app_step_def onPopState_def app_inv_def)
next
  case (TransitionEnds i)
  assume "app_inv env a"
  then show ?thesis using TransitionEnds by (simp add: app_step_def transition_ends_def app_inv_def)
next
  case ThemeToggled
  assume "app_inv env a"
  then show ?thesis using ThemeToggled by (simp add: app_step_def toggleTheme_def app_inv_def)
next
  case (Paused b)
  assume "app_inv env a"
  then show ?thesis using Paused by (simp add: app_step_def pause_notifications_def app_inv_def)
qed (simp_all add: app_step_def navigateToNewPaste_def handleLiveShare_def draft_changed_def
    handleCreated_def handleLiveCreated_def retryCopy_def handleLiveSaveAsPaste_def Let_def app_inv_rules
    split: option.split)

lemma filter_unique:
  assumes "sorted_wrt (<) (map st_id ss)" "s \<in> set ss"
  shows "filter (\<lambda>status. st_id status \<noteq> st_id s) ss = remove1 s ss"
  using assms
proof (induction ss)
  case (Cons x ss)
  show ?case
  proof (cases "s = x")
    case True
    with Cons.prems show ?thesis by (auto simp: filter_id_conv)
  qed (use Cons in auto)
qed simp

text \<open>
  The shell stays coherent in every run, whatever is clicked, created or navigated: the route is the
  one of the browser's path, notifications have increasing identifiers, so dismissing one removes
  exactly that one and keeps the others in order, an empty list is never paused, and the class that
  animates a change of theme is there exactly while its timer is pending.
\<close>
theorem app_shell_coherent:
  assumes "a = app_run api env evs (app_new env pathname fragment t)"
  shows "ap_route a = resolveRoute (ap_location a) (ae_hosted env) (ae_liveEnabled env)
    \<and> sorted_wrt (<) (map st_id (ap_statuses a))
    \<and> (\<forall>s\<in>set (ap_statuses a). ap_statuses (dismissStatus (st_id s) a) = remove1 s (ap_statuses a))
    \<and> (ap_statuses a = [] \<longrightarrow> \<not> ap_notificationsPaused a)
    \<and> (ap_themeTransition a \<longleftrightarrow> ap_transitionTimer a \<noteq> None)"
proof -
  have "app_inv env a' \<Longrightarrow> app_inv env (app_run api env evs a')" for a'
    unfolding app_run_def by (rule fold_invariant [where Q = "\<lambda>_. True"]) (simp_all add: app_inv_step)
  moreover have "app_inv env (app_new env pathname fragment t)" by (simp add: app_inv_def app_new_def)
  ultimately have inv: "app_inv env a" using assms by blast
  then have "ap_statuses (dismissStatus (st_id s) a) = remove1 s (ap_statuses a)" if "s \<in> set (ap_statuses a)" for s
    using filter_unique [OF _ that] by (simp add: app_inv_def dismissStatus_def Let_def)
  with inv show ?thesis by (simp add: app_inv_def currentRoute_def)
qed

section \<open>A notification lives six seconds\<close>

text \<open>Every run of the effect comes while the timer of the one before is pending, since the notification is still there.\<close>

fun timely :: "toastTimer \<Rightarrow> (int \<times> bool) list \<Rightarrow> bool" where
  "timely t [] = True"
| "timely t (ev # evs) = ((case to_startedAt t of None \<Rightarrow> True | Some s \<Rightarrow> s \<le> fst ev \<and> fst ev \<le> s + to_remainingMs t)
     \<and> timely (toast_rerun ev t) evs)"

fun unpaused_time :: "(int \<times> bool) list \<Rightarrow> int" where
  "unpaused_time ((now, paused) # (later, p) # evs) = (if paused then 0 else later - now) + unpaused_time ((later, p) # evs)"
| "unpaused_time evs = 0"

definition toast_run :: "(int \<times> bool) list \<Rightarrow> toastTimer \<Rightarrow> toastTimer" where
  "toast_run evs t = fold toast_rerun evs t"

lemma toast_remaining:
  assumes "evs \<noteq> []" "timely t evs"
  shows "to_remainingMs (toast_run evs t) = to_remainingMs (toast_cleanup (fst (hd evs)) t) - unpaused_time evs
    \<and> to_startedAt (toast_run evs t) = (if snd (last evs) then None else Some (fst (last evs)))"
  using assms
proof (induction evs arbitrary: t rule: list_nonempty_induct)
  case (single ev)
  then show ?case
    by (cases ev) (auto simp: toast_run_def toast_rerun_def toast_effect_def toast_cleanup_def split: option.split)
next
  case (cons ev evs)
  obtain now paused where ev: "ev = (now, paused)" by (cases ev)
  obtain later p rest where evs: "evs = (later, p) # rest" using cons.hyps by (cases evs) auto
  define t' where "t' = toast_rerun ev t"
  have "timely t' evs" using cons.prems by (simp add: t'_def)
  note IH = cons.IH [OF this]
  have "to_startedAt (toast_cleanup now t) = None" by (simp add: toast_cleanup_def split: option.split)
  with \<open>timely t' evs\<close> have "to_remainingMs (toast_cleanup later t')
      = to_remainingMs (toast_cleanup now t) - (if paused then 0 else later - now)"
    by (auto simp: evs ev t'_def toast_rerun_def toast_effect_def toast_cleanup_def [of later])
  moreover have "unpaused_time (ev # evs) = (if paused then 0 else later - now) + unpaused_time evs"
    by (simp add: ev evs)
  moreover have "toast_run (ev # evs) t = toast_run evs t'" by (simp add: toast_run_def t'_def)
  moreover have "last (ev # evs) = last evs" "hd evs = (later, p)" "hd (ev # evs) = (now, paused)"
    using cons.hyps by (simp_all add: ev evs)
  ultimately show ?case using IH cons.hyps by simp
qed

text \<open>
  C12. A notification disappears after exactly 6000 ms in which it was not paused: however often the shell
  renders and the pointer rests on it, the pending timer ends when the unpaused time since it appeared
  adds up to the duration.
\<close>
theorem toast_lives_its_duration:
  assumes "timely toast_new evs" "evs \<noteq> []" "\<not> snd (last evs)"
  shows "toast_deadline (toast_run evs toast_new) = Some (fst (last evs) + (6000 - unpaused_time evs))"
  using toast_remaining [OF assms(2,1)] assms(3)
  by (simp add: toast_deadline_def toast_cleanup_def toast_new_def toastDurationMs_def)

theorem toast_lives_its_duration_witness:
  "toast_deadline (toast_run [(0, False), (1000, False), (2500, True), (9000, False)] toast_new) = Some 12500"
  using toast_lives_its_duration [of "[(0, False), (1000, False), (2500, True), (9000, False)]"]
  by (simp add: toast_new_def toastDurationMs_def toast_rerun_def toast_effect_def toast_cleanup_def)

definition demo_location :: "(jsstring \<times> jsstring) locationAPI" where
  "demo_location = urlAPI.extend demo_url \<lparr>url_pathname = fst, url_search = (\<lambda>u. []), url_resolve = (\<lambda>path base. Some (path, []))\<rparr>"

theorem app_shell_coherent_witness:
  "let a = app_run demo_location \<lparr>ae_hosted = False, ae_liveEnabled = True, ae_origin = []\<rparr>
      [StatusShown (js ''a''), StatusShown (js ''b''), Paused True, Dismissed 1]
      (app_new \<lparr>ae_hosted = False, ae_liveEnabled = True, ae_origin = []\<rparr> (js ''/'') [] Light)
   in map st_id (ap_statuses a) = [2] \<and> sorted_wrt (<) (map st_id (ap_statuses a))"
proof -
  have "map st_id (ap_statuses (app_run demo_location \<lparr>ae_hosted = False, ae_liveEnabled = True, ae_origin = []\<rparr>
      [StatusShown (js ''a''), StatusShown (js ''b''), Paused True, Dismissed 1]
      (app_new \<lparr>ae_hosted = False, ae_liveEnabled = True, ae_origin = []\<rparr> (js ''/'') [] Light))) = [2]"
    by (simp add: app_run_def app_step_def showStatus_def dismissStatus_def pause_notifications_def app_new_def)
  with app_shell_coherent [OF refl, of demo_location _ "[StatusShown (js ''a''), StatusShown (js ''b''), Paused True, Dismissed 1]"
      "js ''/''" "[]" Light]
  show ?thesis by (simp add: Let_def)
qed

end
