(* ===== verification/Editor_Markup.thy ===== *)
theory Editor_Markup
  imports Markup Editor_Controls
begin

text \<open>
  The markup of \<open>LanguageMenu\<close> and \<open>CodeEditor\<close> (\<open>web/src/editor.tsx\<close>), which the creation page, the page that
  creates a room and the room share: what they offer, and that they are labelled.
\<close>

section \<open>The language menu\<close>

definition ChevronIcon :: "'e node" where
  "ChevronIcon = svg ''0 0 20 20'' [shape ''path'' [attr ''d'' ''m6 8 4 4 4-4'']]"

definition CheckIcon :: "'e node" where
  "CheckIcon = svg ''0 0 20 20'' [shape ''path'' [attr ''d'' ''m4 10 4 4 8-8'']]"

definition CodeIcon :: "'e node" where
  "CodeIcon = svg ''0 0 20 20'' [shape ''path'' [attr ''d'' ''m7 5-5 5 5 5M13 5l5 5-5 5'']]"

definition language_option :: "jsstring \<Rightarrow> bool \<Rightarrow> nat \<times> jsstring \<times> jsstring \<Rightarrow> languageMenuEvent node" where
  "language_option value' disabled item = (case item of (i, language, label) \<Rightarrow>
     Element ''li'' [attr ''role'' ''option'', (''aria-selected'', Flag (language = value'))] []
      [Element ''button'' [attr ''type'' ''button'', (''disabled'', Flag disabled)]
        [(''onClick'', Run (LanguageClicked disabled i))]
        (Element ''span'' [] [] [Txt label] # optional (language = value') [CheckIcon])])"

text \<open>\<open>menuID\<close> is the identifier React generates.\<close>

definition LanguageMenu :: "jsstring \<Rightarrow> jsstring \<Rightarrow> bool \<Rightarrow> languageMenu \<Rightarrow> languageMenuEvent node" where
  "LanguageMenu menuID value' disabled m =
     Element ''div'' [attr ''className'' ''custom-select''] []
      (Element ''button''
        [attr ''type'' ''button'', (''disabled'', Flag disabled), attr ''aria-haspopup'' ''listbox'', (''aria-expanded'', Flag (lm_open m)),
         (''aria-controls'', Str menuID)]
        [(''onClick'', Run (MenuToggled disabled))]
        [CodeIcon, Element ''span'' [] [] [Txt (language_label value')], ChevronIcon]
      # optional (lm_open m)
         [Element ''ul''
           ((''id'', Str menuID) # optional (lm_closing m) [attr ''className'' ''is-closing'']
            @ [attr ''role'' ''listbox'', attr ''aria-label'' ''Language''])
           [] (map (language_option value' disabled) (enumerate 0 languages))])"

section \<open>The editor\<close>

definition placeholder_text :: jsstring where
  "placeholder_text = js ''Write text or code here'' @ [0x2026]"

text \<open>
  CodeMirror's view covers the text area, which is what remains when it cannot be created (\<open>mounted\<close> says whether
  it was).
\<close>

definition CodeEditor :: "jsstring \<Rightarrow> jsstring \<Rightarrow> bool \<Rightarrow> (jsstring \<Rightarrow> 'e) \<Rightarrow> 'e \<Rightarrow> 'e node" where
  "CodeEditor value' ariaLabel mounted onChange onSubmit =
     Element ''div'' [attr ''className'' ''code-editor''] []
      (Element ''textarea''
        [attr ''className'' ''editor-fallback'', (''aria-label'', Str ariaLabel), (''placeholder'', Str placeholder_text),
         attr ''wrap'' ''soft'', (''value'', Str value')]
        [(''onChange'', WithText onChange), (''onKeyDown'', Run onSubmit)] []
      # optional mounted [Mounted ariaLabel value' [(''docChanged'', WithText onChange), (''Mod-Enter'', Run onSubmit)]])"

section \<open>What they offer\<close>

lemma editor_icons [simp]:
  "inert ChevronIcon" "inert CheckIcon" "inert CodeIcon"
  by (simp_all add: ChevronIcon_def CheckIcon_def CodeIcon_def svg_def shape_def)

lemma language_option_listeners:
  "listeners (language_option value' disabled item)
    = (if disabled then [] else [(''onClick'', Run (LanguageClicked disabled (fst item)))])"
  by (cases item) (simp add: language_option_def optional_def editor_icons markup_attributes)

lemma enumerate_indices: "fst ` set (enumerate 0 xs) = {..<length xs}"
  by (simp only: set_map [symmetric] map_fst_enumerate) auto

lemma LanguageMenu_offers:
  "offers [LanguageMenu menuID value' disabled m] e \<longleftrightarrow>
    \<not> disabled \<and> (e = MenuToggled False \<or> lm_open m \<and> (\<exists>i<length languages. e = LanguageClicked False i))"
proof -
  have "(\<exists>l\<in>set (concat (map listeners (map (language_option value' disabled) (enumerate 0 languages)))). yields (snd l) e)
      \<longleftrightarrow> \<not> disabled \<and> (\<exists>i\<in>fst ` set (enumerate 0 languages). e = LanguageClicked False i)"
    by (auto simp: language_option_listeners)
  also have "fst ` set (enumerate 0 languages) = {..<length languages}" by (rule enumerate_indices)
  finally have options: "(\<exists>l\<in>set (concat (map listeners (map (language_option value' disabled) (enumerate 0 languages)))). yields (snd l) e)
      \<longleftrightarrow> \<not> disabled \<and> (\<exists>i<length languages. e = LanguageClicked False i)" by auto
  have "listeners (LanguageMenu menuID value' disabled m) =
      optional (\<not> disabled) [(''onClick'', Run (MenuToggled disabled))]
      @ optional (lm_open m) (concat (map listeners (map (language_option value' disabled) (enumerate 0 languages))))"
    by (simp add: LanguageMenu_def optional_def markup_attributes editor_icons del: map_map)
  with options show ?thesis by (auto simp: offers_Cons optional_def simp del: map_map)
qed

lemma CodeEditor_offers: "offers [CodeEditor value' label mounted f submit] e \<longleftrightarrow> e \<in> range f \<or> e = submit"
  by (auto simp: offers_Cons CodeEditor_def optional_def markup_attributes)

section \<open>Their labels\<close>

lemma language_options_contained:
  "self_contained (language_option value' disabled item)" if "snd (snd item) \<noteq> []"
  using that by (cases item)
    (simp add: self_contained_def language_option_def optional_def markup_attributes is_control_def is_field_def Let_def)

lemma language_label_said: "value' \<noteq> [] \<Longrightarrow> language_label value' \<noteq> []"
proof -
  assume "value' \<noteq> []"
  moreover have "snd item \<noteq> []" if "List.find P languages = Some item" for P item
    using that by (auto simp: find_Some_iff languages_def nth_Cons' split: if_splits)
  ultimately show ?thesis by (auto simp: language_label_def split: option.split)
qed

lemma language_options_said: "item \<in> set (enumerate 0 languages) \<Longrightarrow> snd (snd item) \<noteq> []"
  by (auto simp: languages_def)

lemma LanguageMenu_facts:
  assumes "value' \<noteq> []" "menuID \<noteq> []"
  shows "ids (LanguageMenu menuID value' disabled m) = (if lm_open m then [menuID] else [])"
    "references (LanguageMenu menuID value' disabled m) = (if lm_open m then [menuID] else [])"
    "label_targets (LanguageMenu menuID value' disabled m) = []"
    "named L b (LanguageMenu menuID value' disabled m)" "hidden_inert False (LanguageMenu menuID value' disabled m)"
proof -
  have options: "self_contained n" if "n \<in> set (map (language_option value' disabled) (enumerate 0 languages))" for n
    using that language_options_said by (auto intro: language_options_contained)
  then have none: "concat (map ids (map (language_option value' disabled) (enumerate 0 languages))) = []"
    "concat (map references (map (language_option value' disabled) (enumerate 0 languages))) = []"
    "concat (map label_targets (map (language_option value' disabled) (enumerate 0 languages))) = []"
    by (simp_all only: concat_eq_Nil_conv set_map) (auto simp: self_contained_def)
  have each: "\<forall>n\<in>set (map (language_option value' disabled) (enumerate 0 languages)). named L b n"
    "\<forall>n\<in>set (map (language_option value' disabled) (enumerate 0 languages)). hidden_inert False n" for L b
    using options unfolding self_contained_def by blast+
  note menu = LanguageMenu_def optional_def markup_attributes is_control_def is_field_def language_label_said [OF assms(1)] assms(2)
  show "ids (LanguageMenu menuID value' disabled m) = (if lm_open m then [menuID] else [])"
    using none(1) by (simp add: menu del: map_map)
  show "references (LanguageMenu menuID value' disabled m) = (if lm_open m then [menuID] else [])"
    using none(2) by (simp add: menu del: map_map)
  show "label_targets (LanguageMenu menuID value' disabled m) = []"
    using none(3) by (simp add: menu del: map_map)
  show "named L b (LanguageMenu menuID value' disabled m)"
    using each(1) by (simp add: menu del: map_map set_map)
  show "hidden_inert False (LanguageMenu menuID value' disabled m)"
    using each(2) by (simp add: menu Let_def del: map_map set_map)
qed

lemma CodeEditor_contained: "label \<noteq> [] \<Longrightarrow> self_contained (CodeEditor value' label mounted f e)"
  by (simp add: self_contained_def CodeEditor_def optional_def markup_attributes is_control_def)

end
