(* ===== verification/App_Page.thy ===== *)
theory App_Page
  imports Paste_Page Policies App_Shell Live_Room_UI Editor_Markup
begin

text \<open>
  The application as a whole (the markup of \<open>App\<close>, \<open>CreationCanvas\<close> and \<open>StatusToast\<close> in \<open>web/src/App.tsx\<close>), and the
  composition of the shell with the page it shows: a navigation mounts and unmounts pages, a page reports to the shell, and promises of pages that
  were left go on. The events are those that the rendered page offers, the answers of the service and
  the history of the browser. Main facts: the bar of the application is missing exactly while a key is asked
  for; a created paste is shown to its creator; every page is complete and labelled.
\<close>

section \<open>The creation page\<close>

datatype createControl = Form creationEvent | LanguageUsed languageMenuEvent

definition lifetime_name :: "lifetime \<Rightarrow> string" where
  "lifetime_name l = (case l of Once \<Rightarrow> ''once'' | Hour1 \<Rightarrow> ''1h'' | Hours24 \<Rightarrow> ''24h'' | Hours72 \<Rightarrow> ''72h'')"

definition LifetimeButton :: "lifetime \<Rightarrow> string \<Rightarrow> lifetime \<Rightarrow> createControl node" where
  "LifetimeButton l label selected =
     Element ''button'' (attr ''type'' ''button'' # optional (selected = l) [attr ''className'' ''selected'']
        @ [(''aria-pressed'', Flag (selected = l))])
      [(''onClick'', Run (Form (LifetimeChosen l)))] [Txt (js label)]"

text \<open>\<open>formatBytes\<close> of \<open>web/src/App.tsx\<close>.\<close>

definition shown_bytes :: "nat \<Rightarrow> jsstring" where
  "shown_bytes bytes = (if bytes < 1024 then nat_str bytes @ js '' B'' else to_fixed 1 (rat_of_nat bytes / 1024) @ js '' KiB'')"

definition creation_metadata :: "jsstring \<Rightarrow> creation \<Rightarrow> languageMenu \<Rightarrow> createControl node" where
  "creation_metadata menuID c m =
     Element ''div'' [attr ''className'' ''metadata-bar''] []
      [Element ''label'' [attr ''className'' ''title-field''] []
        [Element ''span'' [attr ''className'' ''sr-only''] [] [Txt (js ''Title, optional'')],
         Element ''input''
          [(''value'', Str (dr_title (cc_draft c))), (''maxLength'', Num (int maxTitleBytes)), attr ''placeholder'' ''Untitled paste'',
           (''aria-invalid'', Flag (case cv_title (cc_errors c) of None \<Rightarrow> False | Some e \<Rightarrow> e \<noteq> []))]
          [(''onChange'', WithText (\<lambda>title. Form (TitleTyped title)))] []],
       embed LanguageUsed (LanguageMenu menuID (dr_language (cc_draft c)) False m)]"

definition creation_toolbar :: "creation \<Rightarrow> createControl node" where
  "creation_toolbar c =
     Element ''footer'' [attr ''className'' ''creation-toolbar''] []
      [Element ''div'' [attr ''className'' ''toolbar-spacer''] [] [],
       Element ''span''
        [attr ''className'' (if utf8Bytes (dr_content (cc_draft c)) > maxPasteBytes then ''byte-count over-limit'' else ''byte-count'')] []
        [Txt (shown_bytes (utf8Bytes (dr_content (cc_draft c)))), Txt (js '' / 1 MiB'')],
       Element ''fieldset''
        [attr ''className'' ''lifetime-selector'', attr ''data-selected-lifetime'' (lifetime_name (dr_lifetime (cc_draft c)))] []
        [Element ''legend'' [attr ''className'' ''sr-only''] [] [Txt (js ''Lifetime'')],
         Element ''span'' [attr ''className'' ''lifetime-indicator'', attr ''aria-hidden'' ''true''] [] [],
         LifetimeButton Once ''Once'' (dr_lifetime (cc_draft c)), LifetimeButton Hour1 ''1h'' (dr_lifetime (cc_draft c)),
         LifetimeButton Hours24 ''1d'' (dr_lifetime (cc_draft c)), LifetimeButton Hours72 ''3d'' (dr_lifetime (cc_draft c))],
       Element ''label'' [attr ''className'' ''encrypt-toggle encrypt-icon-toggle'', attr ''title'' ''Encrypt''] []
        [Element ''input'' [attr ''type'' ''checkbox'', (''checked'', Flag (dr_encrypted (cc_draft c)))]
          [(''onChange'', WithFlag (\<lambda>encrypted. Form (EncryptToggled encrypted)))] [],
         LockIcon,
         Element ''span'' [attr ''className'' ''sr-only''] [] [Txt (js ''Encrypt'')]],
       Element ''button'' [attr ''className'' ''primary-action'', attr ''type'' ''button'', (''disabled'', Flag (cc_submitting c))]
        [(''onClick'', Run (Form CreateClicked))]
        [Txt (if cc_submitting c then js ''Creating'' @ [0x2026] else js ''Create'')]]"

definition CreationCanvas :: "jsstring \<Rightarrow> bool \<Rightarrow> creation \<Rightarrow> languageMenu \<Rightarrow> createControl node" where
  "CreationCanvas menuID mounted c m =
     Element ''main'' [attr ''className'' ''create-canvas'', attr ''aria-labelledby'' ''create-heading''] []
      [Element ''h1'' [attr ''className'' ''sr-only'', attr ''id'' ''create-heading''] [] [Txt (js ''Create a paste'')],
       creation_metadata menuID c m,
       CodeEditor (dr_content (cc_draft c)) (js ''Paste content'') mounted (\<lambda>content. Form (ContentTyped content)) (Form ModEnter),
       creation_toolbar c]"

section \<open>The shell\<close>

text \<open>What the controls of a page do: an event of the shell, of the creation page or of the paste page.\<close>

datatype appControl = Shell appEvent | Creating createControl | Viewing viewerEvent

definition StatusToast :: "bool \<Rightarrow> statusToast \<Rightarrow> appControl node" where
  "StatusToast paused status =
     Element ''div''
       [attr ''className'' ''status-toast'', attr ''role'' ''status'', attr ''aria-live'' ''polite'',
        (''style'', Str (js ''--toast-duration: '' @ int_str toastDurationMs @ js ''ms''))] []
       [Element ''span'' [attr ''className'' ''toast-message'', (''title'', Str (st_message status))] [] [Txt (st_message status)],
        Element ''button''
          [attr ''className'' ''toast-close'', attr ''type'' ''button'', attr ''aria-label'' ''Dismiss notification'', attr ''title'' ''Dismiss'']
          [(''onClick'', Run (Shell (Dismissed (st_id status))))] [Txt [0xD7]],
        Element ''span'' [attr ''className'' (if paused then ''toast-timer paused'' else ''toast-timer''), attr ''aria-hidden'' ''true''] [] []]"

definition site_header :: "appEnv \<Rightarrow> appShell \<Rightarrow> appControl node" where
  "site_header env a =
     Element ''header'' [attr ''className'' ''site-header''] []
      [Element ''button''
        [attr ''className'' ''icon-button brand-icon'', attr ''type'' ''button'', attr ''aria-label'' ''0xbin: create a new paste'',
         attr ''title'' ''New paste''] [(''onClick'', Run (Shell NewPaste))] [LogoIcon],
       Element ''div'' [attr ''className'' ''header-actions''] []
        (optional (ae_liveEnabled env \<and> (case ap_route a of CreateRoute \<Rightarrow> True | PasteRoute slug \<Rightarrow> True | _ \<Rightarrow> False))
          [Element ''button''
            [attr ''className'' ''header-live-bin'', attr ''type'' ''button'', attr ''aria-label'' ''Open LiveBin'', attr ''title'' ''Open LiveBin'']
            [(''onClick'', Run (Shell LiveShare))] [Txt (js ''LiveBin'')]]
         @ [Element ''button''
             [attr ''className'' ''icon-button theme-toggle'', attr ''type'' ''button'',
              attr ''aria-label'' (if ap_theme a = Dark then ''Switch to light theme'' else ''Switch to dark theme''),
              attr ''title'' (if ap_theme a = Dark then ''Switch to light theme'' else ''Switch to dark theme'')]
             [(''onClick'', Run (Shell ThemeToggled))] [if ap_theme a = Dark then SunIcon else MoonIcon]])]"

text \<open>Losing the focus pauses no longer only when the focus leaves the notifications.\<close>

definition status_stack :: "appShell \<Rightarrow> appControl node" where
  "status_stack a =
     Element ''div'' [attr ''className'' ''status-stack'', attr ''aria-label'' ''Notifications'']
       [(''onMouseEnter'', Run (Shell (Paused True))), (''onMouseLeave'', Run (Shell (Paused False))),
        (''onFocusCapture'', Run (Shell (Paused True))), (''onBlurCapture'', Run (Shell (Paused False)))]
       (map (StatusToast (ap_notificationsPaused a)) (ap_statuses a))"

definition hosted_page :: "route \<Rightarrow> hostedPage option" where
  "hosted_page r = (case r of HostedRoute page \<Rightarrow> Some page | _ \<Rightarrow> None)"

text \<open>\<open>App\<close> around the markup of the page of its route.\<close>

definition gate_open :: "appShell \<Rightarrow> bool" where
  "gate_open a \<longleftrightarrow> ap_keyGateOpen a \<or> ap_liveGateOpen a"

definition App :: "appEnv \<Rightarrow> appShell \<Rightarrow> appControl node list \<Rightarrow> appControl node" where
  "App env a page =
     Element ''div'' [attr ''className'' (if gate_open a then ''app-shell key-gate-open'' else ''app-shell'')] []
      (optional (\<not> gate_open a) [site_header env a]
       @ page
       @ optional (ae_hosted env \<and> \<not> ap_keyGateOpen a)
          [HostedMenu (hosted_page (ap_route a)) (\<lambda>path. Shell (Navigated path []))]
       @ optional (ap_statuses a \<noteq> []) [status_stack a])"

section \<open>The page of a route\<close>

text \<open>
  The component a route shows. The pages of live rooms are in \<open>Live_Page\<close>; here they are what reports to the shell.
\<close>

datatype pageChild =
    CreateChild creation languageMenu
  | PasteChild viewer
  | LiveCreateChild
  | LiveRoomChild
  | HostedChild hostedPage

record appPage =
  pg_shell :: appShell
  pg_child :: pageChild
  pg_left :: "pageChild list"

text \<open>What the page asks of the browser and of the locale, and when.\<close>

record pageWorld =
  wd_env :: appEnv
  wd_crypto :: subtleCrypto
  wd_lower :: "jsstring \<Rightarrow> jsstring"
  wd_parse :: "jsstring \<Rightarrow> int option"

definition paste_props :: "appShell \<Rightarrow> pasteProps" where
  "paste_props a = \<lparr>pp_shareURL = ap_shareURL a, pp_copyFailed = ap_copyFailed a\<rparr>"

definition paste_control :: "bool \<Rightarrow> pasteControl \<Rightarrow> appControl" where
  "paste_control written e = (case e of
     Viewer ev \<Rightarrow> Viewing ev | NewPasteAsked \<Rightarrow> Shell NewPaste | CopyRetryAsked \<Rightarrow> Shell (CopyRetried written))"

definition child_markup :: "pageWorld \<Rightarrow> jsstring \<Rightarrow> bool \<Rightarrow> bool \<Rightarrow> appPage \<Rightarrow> appControl node list" where
  "child_markup w menuID mounted written p = (case pg_child p of
     CreateChild c m \<Rightarrow> [embed Creating (CreationCanvas menuID mounted c m)]
   | PasteChild v \<Rightarrow> map (embed (paste_control written))
       (PasteViewer (wd_parse w) (wd_lower w) \<lparr>ba_hash = ap_fragment (pg_shell p), ba_written = written\<rparr> (paste_props (pg_shell p)) v)
   | HostedChild page \<Rightarrow> [PolicyPage page]
   | _ \<Rightarrow> [])"

definition page_markup :: "pageWorld \<Rightarrow> jsstring \<Rightarrow> bool \<Rightarrow> bool \<Rightarrow> appPage \<Rightarrow> appControl node" where
  "page_markup w menuID mounted written p = App (wd_env w) (pg_shell p) (child_markup w menuID mounted written p)"

section \<open>Mounting and leaving pages\<close>

definition mount_child :: "int \<Rightarrow> appShell \<Rightarrow> pageChild" where
  "mount_child now a = (case ap_route a of
     CreateRoute \<Rightarrow> CreateChild (creation_new (ap_createDraftSeed a)) languageMenu_new
   | PasteRoute slug \<Rightarrow> PasteChild (viewer_mount slug now)
   | LiveCreateRoute \<Rightarrow> LiveCreateChild
   | LiveRoomRoute slug \<Rightarrow> LiveRoomChild
   | HostedRoute page \<Rightarrow> HostedChild page)"

text \<open>The component stays when the kind of the route does, and takes its new properties.\<close>

definition stays :: "appShell \<Rightarrow> pageChild \<Rightarrow> bool" where
  "stays a child \<longleftrightarrow> (case (ap_route a, child) of
     (CreateRoute, CreateChild c m) \<Rightarrow> True
   | (PasteRoute slug, PasteChild v) \<Rightarrow> True
   | (LiveCreateRoute, LiveCreateChild) \<Rightarrow> True
   | (LiveRoomRoute slug, LiveRoomChild) \<Rightarrow> True
   | (HostedRoute page, HostedChild page') \<Rightarrow> True
   | _ \<Rightarrow> False)"

text \<open>The effect on the state of the paste page reports the key gate; its cleanup reports that it is closed.\<close>

definition report_gate :: "viewer \<Rightarrow> viewer \<Rightarrow> appShell \<Rightarrow> appShell" where
  "report_gate v v' a = (if vw_state v' \<noteq> vw_state v then a\<lparr>ap_keyGateOpen := (vw_state v' = ViewKey)\<rparr> else a)"

definition leave_child :: "pageChild \<Rightarrow> pageChild" where
  "leave_child child = (case child of PasteChild v \<Rightarrow> PasteChild (v\<lparr>vw_controller := None\<rparr>) | _ \<Rightarrow> child)"

definition left_shell :: "pageChild \<Rightarrow> appShell \<Rightarrow> appShell" where
  "left_shell child a = (case child of
     PasteChild v \<Rightarrow> a\<lparr>ap_keyGateOpen := False\<rparr>
   | LiveRoomChild \<Rightarrow> a\<lparr>ap_liveGateOpen := False\<rparr>
   | _ \<Rightarrow> a)"

definition settle_page :: "int \<Rightarrow> appPage \<Rightarrow> appPage" where
  "settle_page now p =
     (let a = pg_shell p; child = pg_child p
      in if stays a child then
           (case (ap_route a, child) of
              (PasteRoute slug, PasteChild v) \<Rightarrow>
                if vw_slug v = slug then p
                else
                  let v' = load_paste (v\<lparr>vw_slug := slug\<rparr>)
                  in p\<lparr>pg_child := PasteChild v', pg_shell := report_gate v v' a\<rparr>
            | (HostedRoute page, HostedChild page') \<Rightarrow> p\<lparr>pg_child := HostedChild page\<rparr>
            | _ \<Rightarrow> p)
         else
           let a' = left_shell child a
           in p\<lparr>pg_shell := a', pg_child := mount_child now a', pg_left := pg_left p @ [leave_child child]\<rparr>)"

definition page_new :: "pageWorld \<Rightarrow> jsstring \<Rightarrow> jsstring \<Rightarrow> theme \<Rightarrow> int \<Rightarrow> appPage" where
  "page_new w pathname fragment t now =
     (let a = app_new (wd_env w) pathname fragment t in \<lparr>pg_shell = a, pg_child = mount_child now a, pg_left = []\<rparr>)"

section \<open>Steps\<close>

text \<open>
  What a page reports to the shell is what it appends to its log. A creation whose link cannot be parsed is
  reported by the same handler as one that failed.
\<close>

definition creation_effect :: "'u locationAPI \<Rightarrow> appEnv \<Rightarrow> bool \<Rightarrow> creationEffect \<Rightarrow> appShell \<Rightarrow> appShell" where
  "creation_effect api env copied e a = (case e of
     CreationStatus m \<Rightarrow> showStatus m a
   | DraftChanged d \<Rightarrow> draft_changed d a
   | PasteCreated created \<Rightarrow>
       (case handleCreated api env copied created a of
          (a', finished) \<Rightarrow> if finished then a' else showStatus (createFailureMessage CreateOtherError) a')
   | Submission d \<Rightarrow> a)"

definition report_creation :: "'u locationAPI \<Rightarrow> appEnv \<Rightarrow> bool \<Rightarrow> creation \<Rightarrow> creation \<Rightarrow> appShell \<Rightarrow> appShell" where
  "report_creation api env copied c c' a = fold (creation_effect api env copied) (drop (length (cc_log c)) (cc_log c')) a"

definition viewer_effect :: "viewerEffect \<Rightarrow> appShell \<Rightarrow> appShell" where
  "viewer_effect e a = (case e of StatusMessage m \<Rightarrow> showStatus m a | _ \<Rightarrow> a)"

definition report_viewer :: "viewer \<Rightarrow> viewer \<Rightarrow> appShell \<Rightarrow> appShell" where
  "report_viewer v v' a = fold viewer_effect (drop (length (vw_log v)) (vw_log v')) a"

definition creation_page_step ::
  "'u locationAPI \<Rightarrow> appEnv \<Rightarrow> bool \<Rightarrow> createControl \<Rightarrow> creation \<times> languageMenu \<times> appShell \<Rightarrow> creation \<times> languageMenu \<times> appShell" where
  "creation_page_step api env copied e s = (case s of (c, m, a) \<Rightarrow> (case e of
     Form ev \<Rightarrow> let c' = creation_step ev c in (c', m, report_creation api env copied c c' a)
   | LanguageUsed ev \<Rightarrow>
       let m' = languageMenu_step ev m;
           c' = fold (\<lambda>language. creation_step (LanguageChosen language)) (drop (length (lm_chosen m)) (lm_chosen m')) c
       in (c', m', report_creation api env copied c c' a)))"

definition viewer_url :: "'u locationAPI \<Rightarrow> 'u urlAPI" where
  "viewer_url api = urlAPI.truncate api"

text \<open>
  An event of the page shown, with what the clipboard says to a created link, or the end of a promise of a page
  that was left.
\<close>

datatype pageEvent =
    Happens appControl bool
  | LeftCreation nat nat "(createError, createdPaste) result" bool
  | LeftViewer nat viewerEvent

definition left_step :: "'u locationAPI \<Rightarrow> pageWorld \<Rightarrow> nat \<Rightarrow> (pageChild \<Rightarrow> appShell \<Rightarrow> pageChild \<times> appShell) \<Rightarrow> appPage \<Rightarrow> appPage" where
  "left_step api w i f p =
     (if i < length (pg_left p) then
        (case f (pg_left p ! i) (pg_shell p) of (child, a) \<Rightarrow> p\<lparr>pg_left := (pg_left p)[i := child], pg_shell := a\<rparr>)
      else p)"

definition page_step :: "'u locationAPI \<Rightarrow> pageWorld \<Rightarrow> int \<Rightarrow> pageEvent \<Rightarrow> appPage \<Rightarrow> appPage" where
  "page_step api w now ev p = settle_page now (case ev of
     Happens (Shell e) copied \<Rightarrow> p\<lparr>pg_shell := app_step api (wd_env w) e (pg_shell p)\<rparr>
   | Happens (Creating e) copied \<Rightarrow>
       (case pg_child p of
          CreateChild c m \<Rightarrow>
            (case creation_page_step api (wd_env w) copied e (c, m, pg_shell p) of
               (c', m', a') \<Rightarrow> p\<lparr>pg_child := CreateChild c' m', pg_shell := a'\<rparr>)
        | _ \<Rightarrow> p)
   | Happens (Viewing e) copied \<Rightarrow>
       (case pg_child p of
          PasteChild v \<Rightarrow>
            let v' = viewer_step (wd_crypto w) (viewer_url api) (wd_lower w) e v
            in p\<lparr>pg_child := PasteChild v', pg_shell := report_gate v v' (report_viewer v v' (pg_shell p))\<rparr>
        | _ \<Rightarrow> p)
   | LeftCreation i j outcome copied \<Rightarrow>
       left_step api w i (\<lambda>child a. case child of
           CreateChild c m \<Rightarrow>
             let c' = submission_ends j outcome c in (CreateChild c' m, report_creation api (wd_env w) copied c c' a)
         | _ \<Rightarrow> (child, a)) p
   | LeftViewer i e \<Rightarrow>
       left_step api w i (\<lambda>child a. case child of
           PasteChild v \<Rightarrow>
             let v' = viewer_step (wd_crypto w) (viewer_url api) (wd_lower w) e v in (PasteChild v', report_viewer v v' a)
         | _ \<Rightarrow> (child, a)) p)"

text \<open>
  What can happen without a control of the page: answers, timers, the history of the browser, and what a page of a live
  room reports.
\<close>

fun answer_event :: "viewerEvent \<Rightarrow> bool" where
  "answer_event (FetchAnswer i hash answer) \<longleftrightarrow> True"
| "answer_event (ConsumeAnswer i answer) \<longleftrightarrow> True"
| "answer_event (DecryptionEnds i) \<longleftrightarrow> True"
| "answer_event (ClockTicks now) \<longleftrightarrow> True"
| "answer_event (SearchUsed s) \<longleftrightarrow> s = FindKey \<or> s = ClosingEnds"
| "answer_event e \<longleftrightarrow> False"

fun background :: "pageChild \<Rightarrow> appControl \<Rightarrow> bool" where
  "background child (Shell (PopState pathname fragment)) \<longleftrightarrow> True"
| "background child (Shell (TransitionEnds i)) \<longleftrightarrow> True"
| "background child (Shell (Dismissed i)) \<longleftrightarrow> True"
| "background child (Shell (StatusShown m)) \<longleftrightarrow> child = LiveCreateChild \<or> child = LiveRoomChild"
| "background child (Shell (RoomCreatedHere copied created)) \<longleftrightarrow> child = LiveCreateChild"
| "background child (Shell (SaveAsPaste title language content)) \<longleftrightarrow> child = LiveRoomChild"
| "background child (Shell (CopyRetried copied)) \<longleftrightarrow> child = LiveRoomChild"
| "background child (Shell (LiveGateChanged isOpen)) \<longleftrightarrow> child = LiveRoomChild"
| "background child (Creating (Form (SubmissionEnds i outcome))) \<longleftrightarrow> True"
| "background child (Creating (LanguageUsed e)) \<longleftrightarrow> e = MenuEscape \<or> e = MenuPressedOutside \<or> (\<exists>t. e = MenuTimerFired t)"
| "background child (Viewing e) \<longleftrightarrow> answer_event e"
| "background child e \<longleftrightarrow> False"

text \<open>The address of a created paste is not the one that is shown.\<close>

definition fresh_address :: "'u locationAPI \<Rightarrow> appEnv \<Rightarrow> appShell \<Rightarrow> (createError, createdPaste) result \<Rightarrow> bool" where
  "fresh_address api env a outcome \<longleftrightarrow> (\<forall>created url u. outcome = Inr created
     \<longrightarrow> browserShareURL api (cp_url created) (ae_origin env) = Some url \<longrightarrow> url_parse api url = Some u
     \<longrightarrow> currentRoute env (url_pathname api u) \<noteq> ap_route a)"

definition page_allows :: "'u locationAPI \<Rightarrow> pageWorld \<Rightarrow> pageEvent \<Rightarrow> appPage \<Rightarrow> bool" where
  "page_allows api w ev p \<longleftrightarrow> (case ev of
     Happens e copied \<Rightarrow> background (pg_child p) e
       \<or> (\<exists>menuID mounted written. menuID \<noteq> [] \<and> offers [page_markup w menuID mounted written p] e)
   | LeftCreation i j outcome copied \<Rightarrow> fresh_address api (wd_env w) (pg_shell p) outcome
   | LeftViewer i e \<Rightarrow> answer_event e)"

inductive page_reach :: "'u locationAPI \<Rightarrow> pageWorld \<Rightarrow> appPage \<Rightarrow> bool" for api w where
  page_opened: "page_reach api w (page_new w pathname fragment t now)"
| page_used: "page_reach api w p \<Longrightarrow> page_allows api w ev p \<Longrightarrow> page_reach api w (page_step api w now ev p)"

section \<open>What a page offers\<close>

lemma site_header_offers: "offers [site_header env a] e \<longleftrightarrow> e = Shell NewPaste \<or> e = Shell ThemeToggled
    \<or> e = Shell LiveShare \<and> ae_liveEnabled env \<and> (case ap_route a of CreateRoute \<Rightarrow> True | PasteRoute slug \<Rightarrow> True | _ \<Rightarrow> False)"
  by (auto simp: offers_Cons site_header_def optional_def markup_attributes)

lemma status_stack_offers: "offers [status_stack a] e \<longleftrightarrow> (\<exists>b. e = Shell (Paused b))
    \<or> (\<exists>s\<in>set (ap_statuses a). e = Shell (Dismissed (st_id s)))"
proof -
  have "offers [status_stack a] e \<longleftrightarrow> (\<exists>b\<in>{True, False}. e = Shell (Paused b))
      \<or> (\<exists>s\<in>set (ap_statuses a). \<exists>l\<in>set (listeners (StatusToast (ap_notificationsPaused a) s)). yields (snd l) e)"
    by (auto simp: offers_Cons status_stack_def markup_attributes)
  moreover have "listeners (StatusToast paused s) = [(''onClick'', Run (Shell (Dismissed (st_id s))))]" for paused s
    by (simp add: StatusToast_def markup_attributes)
  ultimately show ?thesis by auto
qed

lemma App_offers: "offers [App env a page] e \<longleftrightarrow> \<not> gate_open a \<and> offers [site_header env a] e \<or> offers page e
    \<or> ae_hosted env \<and> \<not> ap_keyGateOpen a \<and> (\<exists>page. e = Shell (Navigated (hosted_path page) []))
    \<or> ap_statuses a \<noteq> [] \<and> offers [status_stack a] e"
proof -
  have shown: "\<not> attribute_set [attr ''className'' c] ''hidden''" for c by (simp add: attribute_set_def)
  show ?thesis
    unfolding App_def by (simp only: offers_container [OF shown] offers_append offers_optional HostedMenu_offers conj_assoc)
qed

lemma CreationCanvas_navigates_not: "offers (map (embed Creating) ns) e \<Longrightarrow> \<exists>e'. e = Creating e'"
  by (auto simp: offers_embed)

text \<open>The callbacks of the paste page: of its ready screen and of the one that says that the paste is gone.\<close>

lemma paste_callbacks:
  assumes "offers (PasteViewer parse lower answers props v) e" "e = NewPasteAsked \<or> e = CopyRetryAsked"
  shows "vw_state v \<noteq> ViewKey"
proof
  assume "vw_state v = ViewKey"
  with assms show False by (auto simp: PasteViewer_def offers_single key_gate_listeners)
qed

text \<open>What the paste page offers at the key gate.\<close>

lemma key_gate_child_offers:
  assumes "vw_state v = ViewKey"
  shows "offers (PasteViewer parse lower answers props v) e \<longleftrightarrow> e = Viewer KeySubmitted \<or> (\<exists>key. e = Viewer (KeyTyped key))"
  using assms by (auto simp: PasteViewer_def offers_single key_gate_listeners)

section \<open>The gates and the address\<close>

definition asks_for_key :: "pageChild \<Rightarrow> bool" where
  "asks_for_key child \<longleftrightarrow> (case child of PasteChild v \<Rightarrow> vw_state v = ViewKey | _ \<Rightarrow> False)"

text \<open>Before the page is settled, and after.\<close>

definition page_pre :: "appEnv \<Rightarrow> appPage \<Rightarrow> bool" where
  "page_pre env p \<longleftrightarrow> app_inv env (pg_shell p)
     \<and> (ap_keyGateOpen (pg_shell p) \<longrightarrow> asks_for_key (pg_child p))
     \<and> (\<forall>v. pg_child p = PasteChild v \<longrightarrow> ap_route (pg_shell p) = PasteRoute (vw_slug v) \<longrightarrow> vw_state v = ViewKey
         \<longrightarrow> ap_keyGateOpen (pg_shell p))
     \<and> (ap_liveGateOpen (pg_shell p) \<longrightarrow> pg_child p = LiveRoomChild)"

definition page_matches :: "appPage \<Rightarrow> bool" where
  "page_matches p \<longleftrightarrow> stays (pg_shell p) (pg_child p)
     \<and> (\<forall>v. pg_child p = PasteChild v \<longrightarrow> ap_route (pg_shell p) = PasteRoute (vw_slug v))
     \<and> (\<forall>page. pg_child p = HostedChild page \<longrightarrow> ap_route (pg_shell p) = HostedRoute page)"

definition page_ok :: "appEnv \<Rightarrow> appPage \<Rightarrow> bool" where
  "page_ok env p \<longleftrightarrow> app_inv env (pg_shell p) \<and> page_matches p
     \<and> (ap_keyGateOpen (pg_shell p) \<longleftrightarrow> asks_for_key (pg_child p))
     \<and> (ap_liveGateOpen (pg_shell p) \<longrightarrow> pg_child p = LiveRoomChild)"

lemma load_paste_slug: "vw_slug (load_paste v) = vw_slug v" "vw_state (load_paste v) \<noteq> ViewKey"
  by (simp_all add: load_paste_def Let_def)

lemma mount_child_facts:
  "stays a (mount_child now a)" "\<not> asks_for_key (mount_child now a)"
  "mount_child now a = PasteChild v \<Longrightarrow> ap_route a = PasteRoute (vw_slug v)"
  "mount_child now a = HostedChild page \<Longrightarrow> ap_route a = HostedRoute page"
  by (auto simp: mount_child_def stays_def asks_for_key_def viewer_mount_def load_paste_slug viewer_new_def
      split: route.splits)

lemma settle_page_ok:
  assumes "page_pre env p"
  shows "page_ok env (settle_page now p)"
proof (cases "stays (pg_shell p) (pg_child p)")
  case True
  have unchanged: "settle_page now p = p"
    if "\<And>v. pg_child p \<noteq> PasteChild v" "\<And>page. pg_child p \<noteq> HostedChild page"
    using True that by (cases "pg_child p") (auto simp: settle_page_def Let_def split: route.split)
  show ?thesis
  proof (cases "pg_child p")
    case (PasteChild v)
    with True obtain slug where route: "ap_route (pg_shell p) = PasteRoute slug" by (auto simp: stays_def split: route.splits)
    show ?thesis
    proof (cases "vw_slug v = slug")
      case True
      with route PasteChild assms \<open>stays _ _\<close> show ?thesis
        by (auto simp: settle_page_def page_ok_def page_pre_def page_matches_def asks_for_key_def)
    next
      case False
      define v' where "v' = load_paste (v\<lparr>vw_slug := slug\<rparr>)"
      have v': "vw_slug v' = slug" "vw_state v' \<noteq> ViewKey" by (simp_all add: v'_def load_paste_slug)
      have "settle_page now p = p\<lparr>pg_child := PasteChild v', pg_shell := report_gate v v' (pg_shell p)\<rparr>"
        using True False route PasteChild by (simp add: settle_page_def v'_def Let_def)
      with v' route PasteChild assms True show ?thesis
        by (auto simp: page_ok_def page_pre_def page_matches_def asks_for_key_def report_gate_def stays_def app_inv_set)
    qed
  next
    case (HostedChild page)
    with True obtain page' where "ap_route (pg_shell p) = HostedRoute page'" by (auto simp: stays_def split: route.splits)
    with True HostedChild assms show ?thesis
      by (auto simp: settle_page_def page_ok_def page_pre_def page_matches_def asks_for_key_def stays_def)
  qed (use True assms unchanged in \<open>auto simp: page_ok_def page_pre_def page_matches_def asks_for_key_def\<close>)
next
  case False
  define a' where "a' = left_shell (pg_child p) (pg_shell p)"
  have "app_inv env a'" using assms by (auto simp: a'_def left_shell_def page_pre_def app_inv_set split: pageChild.split)
  moreover have "\<not> ap_keyGateOpen a'" "\<not> ap_liveGateOpen a'"
    using assms by (auto simp: a'_def left_shell_def page_pre_def asks_for_key_def split: pageChild.splits)
  ultimately show ?thesis
    using False mount_child_facts [where a = a' and now = now]
    by (auto simp: settle_page_def page_ok_def page_matches_def a'_def [symmetric] Let_def)
qed

text \<open>Notifications touch neither gate nor address.\<close>

definition same_gates :: "appShell \<Rightarrow> appShell \<Rightarrow> bool" where
  "same_gates a a' \<longleftrightarrow> ap_keyGateOpen a' = ap_keyGateOpen a \<and> ap_liveGateOpen a' = ap_liveGateOpen a \<and> ap_route a' = ap_route a"

lemma same_gates_refl [simp]: "same_gates a a"
  by (simp add: same_gates_def)

lemma same_gates_trans: "same_gates a b \<Longrightarrow> same_gates b c \<Longrightarrow> same_gates a c"
  by (simp add: same_gates_def)

lemma same_gates_show [simp]: "same_gates a (showStatus m a)" "same_gates a (draft_changed d a)"
  by (simp_all add: same_gates_def showStatus_def draft_changed_def Let_def)

lemma report_viewer_facts:
  "same_gates a (report_viewer v v' a)" "app_inv env a \<Longrightarrow> app_inv env (report_viewer v v' a)"
proof -
  have "same_gates a (fold viewer_effect es a)" for es a
  proof (induction es arbitrary: a)
    case (Cons e es)
    have "same_gates a (viewer_effect e a)" by (simp add: viewer_effect_def split: viewerEffect.split)
    with Cons.IH show ?case by (auto intro: same_gates_trans)
  qed simp
  then show "same_gates a (report_viewer v v' a)" by (simp add: report_viewer_def)
  have "app_inv env a \<Longrightarrow> app_inv env (fold viewer_effect es a)" for es a
    by (induction es arbitrary: a) (auto simp: viewer_effect_def app_inv_show split: viewerEffect.split)
  then show "app_inv env a \<Longrightarrow> app_inv env (report_viewer v v' a)" by (simp add: report_viewer_def)
qed

text \<open>A creation either leaves gates and address alone or goes to the address of what was created.\<close>

lemma handleCreated_gates:
  assumes "handleCreated api env copied created a = (a', finished)" "app_inv env a"
  shows "app_inv env a'" "ap_liveGateOpen a' = ap_liveGateOpen a"
    "same_gates a a' \<or> \<not> ap_keyGateOpen a' \<and> (fresh_address api env a (Inr created) \<longrightarrow> ap_route a' \<noteq> ap_route a)"
proof -
  have "a' = fst (handleCreated api env copied created a)" by (simp add: assms(1))
  then show "app_inv env a'" using app_inv_shared [OF assms(2)] by (simp add: handleCreated_def)
  show "ap_liveGateOpen a' = ap_liveGateOpen a"
    "same_gates a a' \<or> \<not> ap_keyGateOpen a' \<and> (fresh_address api env a (Inr created) \<longrightarrow> ap_route a' \<noteq> ap_route a)"
    using assms(1)
    by (auto simp: handleCreated_def share_created_def fresh_address_def same_gates_def showStatus_def navigate_def Let_def
        split: option.splits)
qed

definition creation_result :: "'u locationAPI \<Rightarrow> appEnv \<Rightarrow> appShell \<Rightarrow> appShell \<Rightarrow> bool" where
  "creation_result api env a a' \<longleftrightarrow> app_inv env a' \<and> ap_liveGateOpen a' = ap_liveGateOpen a \<and> (ap_keyGateOpen a' \<longrightarrow> ap_keyGateOpen a)"

lemma creation_effect_result:
  assumes "app_inv env a"
  shows "creation_result api env a (creation_effect api env copied e a)"
proof (cases e)
  case (PasteCreated created)
  obtain a' finished where h: "handleCreated api env copied created a = (a', finished)" by fastforce
  from handleCreated_gates [OF this assms] have "creation_result api env a a'"
    by (auto simp: creation_result_def same_gates_def)
  then have "creation_result api env a (showStatus m a')" for m
    using same_gates_show(1) [of a' m] by (auto simp: creation_result_def same_gates_def app_inv_show)
  with \<open>creation_result api env a a'\<close> show ?thesis by (simp add: PasteCreated creation_effect_def h)
qed (use assms same_gates_show in \<open>auto simp: creation_effect_def creation_result_def same_gates_def app_inv_show draft_changed_def app_inv_set\<close>)

lemma report_creation_result:
  assumes "app_inv env a"
  shows "creation_result api env a (report_creation api env copied c c' a)"
proof -
  have "app_inv env a \<Longrightarrow> creation_result api env a (fold (creation_effect api env copied) es a)" for es a
  proof (induction es arbitrary: a)
    case (Cons e es)
    from creation_effect_result [OF Cons.prems, of api copied e]
    have step: "creation_result api env a (creation_effect api env copied e a)" .
    then have "app_inv env (creation_effect api env copied e a)" by (simp add: creation_result_def)
    from Cons.IH [OF this] step show ?case by (auto simp: creation_result_def)
  qed (simp add: creation_result_def)
  with assms show ?thesis by (simp add: report_creation_def)
qed

lemma child_offers_shell:
  assumes "offers (child_markup w menuID mounted written p) (Shell e)"
  shows "\<exists>v. pg_child p = PasteChild v \<and> vw_state v \<noteq> ViewKey \<and> (e = NewPaste \<or> e = CopyRetried written)"
proof (cases "pg_child p")
  case (CreateChild c m)
  with assms show ?thesis
    using offers_embed [of Creating "[CreationCanvas menuID mounted c m]" "Shell e"] by (simp add: child_markup_def)
next
  case (PasteChild v)
  with assms obtain e' where e': "Shell e = paste_control written e'"
    "offers (PasteViewer (wd_parse w) (wd_lower w) \<lparr>ba_hash = ap_fragment (pg_shell p), ba_written = written\<rparr> (paste_props (pg_shell p)) v) e'"
    by (auto simp: child_markup_def offers_embed)
  then have "e' = NewPasteAsked \<or> e' = CopyRetryAsked" by (cases e') (simp_all add: paste_control_def)
  with e' paste_callbacks [OF e'(2)] PasteChild show ?thesis by (auto simp: paste_control_def)
next
  case (HostedChild page)
  with assms show ?thesis by (simp add: child_markup_def offers_Cons)
qed (use assms in \<open>simp_all add: child_markup_def\<close>)

fun quiet_event :: "appEvent \<Rightarrow> bool" where
  "quiet_event (Paused b) \<longleftrightarrow> True"
| "quiet_event (Dismissed i) \<longleftrightarrow> True"
| "quiet_event (PopState pathname fragment) \<longleftrightarrow> True"
| "quiet_event (TransitionEnds i) \<longleftrightarrow> True"
| "quiet_event e \<longleftrightarrow> False"

lemma shell_event_allowed:
  assumes "page_allows api w (Happens (Shell e) copied) p" "page_ok (wd_env w) p"
  shows "e \<noteq> KeyGateChanged b" "e = LiveGateChanged b \<Longrightarrow> pg_child p = LiveRoomChild"
    "asks_for_key (pg_child p) \<Longrightarrow> quiet_event e"
proof -
  let ?a = "pg_shell p"
  have gate: "gate_open ?a" if "asks_for_key (pg_child p)" using assms(2) that by (simp add: page_ok_def gate_open_def)
  have "background (pg_child p) (Shell e) \<or> \<not> gate_open ?a \<and> e \<in> {NewPaste, ThemeToggled, LiveShare}
    \<or> (\<exists>v written. pg_child p = PasteChild v \<and> vw_state v \<noteq> ViewKey \<and> (e = NewPaste \<or> e = CopyRetried written))
    \<or> \<not> ap_keyGateOpen ?a \<and> (\<exists>page. e = Navigated (hosted_path page) []) \<or> (\<exists>b. e = Paused b) \<or> (\<exists>i. e = Dismissed i)"
    using assms(1) child_offers_shell
    by (simp add: page_allows_def page_markup_def App_offers site_header_offers status_stack_offers) blast
  then have event: "background (pg_child p) (Shell e) \<or> \<not> gate_open ?a \<and> e \<in> {NewPaste, ThemeToggled, LiveShare}
    \<or> \<not> asks_for_key (pg_child p) \<and> (e = NewPaste \<or> (\<exists>written. e = CopyRetried written))
    \<or> \<not> ap_keyGateOpen ?a \<and> (\<exists>page. e = Navigated (hosted_path page) []) \<or> (\<exists>b. e = Paused b) \<or> (\<exists>i. e = Dismissed i)"
    by (auto simp: asks_for_key_def)
  show "e \<noteq> KeyGateChanged b" using event by auto
  show "pg_child p = LiveRoomChild" if "e = LiveGateChanged b" using event that by auto
  show "quiet_event e" if "asks_for_key (pg_child p)"
  proof -
    have "pg_child p \<noteq> LiveCreateChild" "pg_child p \<noteq> LiveRoomChild" using that by (auto simp: asks_for_key_def)
    moreover have "ap_keyGateOpen ?a" using that assms(2) by (simp add: page_ok_def)
    ultimately show ?thesis using event gate that by (cases e) auto
  qed
qed

lemma shell_frames:
  "ap_keyGateOpen (showStatus m a) = ap_keyGateOpen a" "ap_liveGateOpen (showStatus m a) = ap_liveGateOpen a"
  "\<not> ap_keyGateOpen (navigate env path fragment a)" "ap_liveGateOpen (navigate env path fragment a) = ap_liveGateOpen a"
  by (simp_all add: showStatus_def navigate_def Let_def)

lemma share_created_gates:
  "ap_keyGateOpen (fst (share_created api env copied m m' url a)) \<Longrightarrow> ap_keyGateOpen a"
  "ap_liveGateOpen (fst (share_created api env copied m m' url a)) = ap_liveGateOpen a"
  by (auto simp: share_created_def shell_frames Let_def split: option.splits)

lemma app_step_key_gate:
  assumes "\<And>b. e \<noteq> KeyGateChanged b" "ap_keyGateOpen (app_step api env e a)"
  shows "ap_keyGateOpen a"
proof (cases e)
  case (PasteCreatedHere copied created)
  with assms(2) share_created_gates(1) show ?thesis by (auto simp: app_step_def handleCreated_def)
next
  case (RoomCreatedHere copied created)
  with assms(2) share_created_gates(1) show ?thesis by (auto simp: app_step_def handleLiveCreated_def)
qed (use assms in \<open>auto simp: app_step_def onPopState_def navigateToNewPaste_def handleLiveShare_def draft_changed_def shell_frames
      dismissStatus_def pause_notifications_def toggleTheme_def transition_ends_def retryCopy_def handleLiveSaveAsPaste_def Let_def
      split: option.splits if_splits\<close>)

lemma app_step_live_gate:
  assumes "\<And>b. e \<noteq> LiveGateChanged b"
  shows "ap_liveGateOpen (app_step api env e a) = ap_liveGateOpen a"
  using assms
  by (cases e) (auto simp: app_step_def onPopState_def navigateToNewPaste_def handleLiveShare_def draft_changed_def shell_frames
      dismissStatus_def pause_notifications_def toggleTheme_def transition_ends_def retryCopy_def handleLiveSaveAsPaste_def
      handleCreated_def handleLiveCreated_def share_created_gates Let_def split: option.splits)

lemma app_step_quiet: "quiet_event e \<Longrightarrow> ap_keyGateOpen (app_step api env e a) = ap_keyGateOpen a"
  by (cases e) (simp_all add: app_step_def onPopState_def dismissStatus_def pause_notifications_def transition_ends_def Let_def)

lemma shell_step_pre:
  assumes "page_allows api w (Happens (Shell e) copied) p" "page_ok (wd_env w) p"
  shows "page_pre (wd_env w) (p\<lparr>pg_shell := app_step api (wd_env w) e (pg_shell p)\<rparr>)"
proof -
  note allowed = shell_event_allowed [OF assms]
  have "ap_keyGateOpen (app_step api (wd_env w) e (pg_shell p)) \<Longrightarrow> ap_keyGateOpen (pg_shell p)"
    using app_step_key_gate [OF allowed(1)] .
  moreover have "ap_keyGateOpen (app_step api (wd_env w) e (pg_shell p))" if "asks_for_key (pg_child p)"
    using app_step_quiet [OF allowed(3) [OF that], of api "wd_env w" "pg_shell p"] assms(2) that by (simp add: page_ok_def)
  moreover have "pg_child p = LiveRoomChild" if "ap_liveGateOpen (app_step api (wd_env w) e (pg_shell p))"
    using app_step_live_gate [of e api "wd_env w" "pg_shell p"] allowed(2) assms(2) that by (auto simp: page_ok_def)
  ultimately show ?thesis
    using assms(2) by (auto simp: page_pre_def page_ok_def app_inv_step asks_for_key_def)
qed

lemma offered_viewing_stays:
  assumes "offers (PasteViewer parse lower answers props v) (Viewer e)"
  shows "e \<noteq> Navigate slug"
  using assms
  by (cases "vw_state v")
    (auto simp: PasteViewer_def screen_offers no_offer burn_screen_offers key_gate_offers ready_screen_offers ready_event_def
      split: option.splits)

lemma paste_control_viewing: "Viewing e = paste_control written e' \<longleftrightarrow> e' = Viewer e"
  by (cases e') (auto simp: paste_control_def)

lemma viewing_allowed:
  assumes "page_allows api w (Happens (Viewing e) copied) p" "pg_child p = PasteChild v"
  shows "e \<noteq> Navigate slug"
proof -
  have "answer_event e \<or> (\<exists>written. offers (PasteViewer (wd_parse w) (wd_lower w)
      \<lparr>ba_hash = ap_fragment (pg_shell p), ba_written = written\<rparr> (paste_props (pg_shell p)) v) (Viewer e))"
    using assms
    by (auto simp: page_allows_def page_markup_def App_offers site_header_offers status_stack_offers child_markup_def offers_embed
        paste_control_viewing)
  then show ?thesis by (auto dest: offered_viewing_stays)
qed

lemma viewing_step_pre:
  assumes "page_allows api w (Happens (Viewing e) copied) p" "page_ok (wd_env w) p" "pg_child p = PasteChild v"
  defines "v' \<equiv> viewer_step (wd_crypto w) (viewer_url api) (wd_lower w) e v"
  shows "page_pre (wd_env w) (p\<lparr>pg_child := PasteChild v', pg_shell := report_gate v v' (report_viewer v v' (pg_shell p))\<rparr>)"
proof -
  have "app_inv (wd_env w) (report_viewer v v' (pg_shell p))" "same_gates (pg_shell p) (report_viewer v v' (pg_shell p))"
    using assms(2) report_viewer_facts by (auto simp: page_ok_def)
  with assms(2,3) show ?thesis
    by (auto simp: page_pre_def page_ok_def report_gate_def same_gates_def asks_for_key_def app_inv_set)
qed

lemma log_grows:
  "drop (length (cc_log c)) (cc_log (submission_ends i outcome c)) =
     (if i < length (cc_inFlight c) then
        [case outcome of Inl error \<Rightarrow> CreationStatus (createFailureMessage error) | Inr created \<Rightarrow> PasteCreated created]
      else [])"
  by (simp add: submission_ends_def creation_log_def Let_def split: sum.split)

lemma left_creation_pre:
  fixes copied c j
  assumes "page_ok (wd_env w) p" "fresh_address api (wd_env w) (pg_shell p) outcome"
  defines "a' \<equiv> report_creation api (wd_env w) copied c (submission_ends j outcome c) (pg_shell p)"
  shows "page_pre (wd_env w) (p\<lparr>pg_left := left, pg_shell := a'\<rparr>)"
proof -
  have inv: "app_inv (wd_env w) (pg_shell p)" using assms(1) by (simp add: page_ok_def)
  have result: "creation_result api (wd_env w) (pg_shell p) a'" unfolding a'_def by (rule report_creation_result [OF inv])
  have "same_gates (pg_shell p) a' \<or> \<not> ap_keyGateOpen a' \<and> ap_route a' \<noteq> ap_route (pg_shell p)"
  proof (cases "j < length (cc_inFlight c)")
    case True
    show ?thesis
    proof (cases outcome)
      case (Inl error)
      with True show ?thesis by (simp add: a'_def report_creation_def log_grows creation_effect_def)
    next
      case (Inr created)
      obtain b finished where h: "handleCreated api (wd_env w) copied created (pg_shell p) = (b, finished)" by fastforce
      have "a' = (if finished then b else showStatus (createFailureMessage CreateOtherError) b)"
        using True Inr h by (simp add: a'_def report_creation_def log_grows creation_effect_def)
      moreover have "same_gates (pg_shell p) b \<or> \<not> ap_keyGateOpen b \<and> ap_route b \<noteq> ap_route (pg_shell p)"
        using handleCreated_gates(3) [OF h inv] assms(2) Inr by blast
      ultimately show ?thesis using same_gates_show(1) [of b] by (auto simp: same_gates_def)
    qed
  qed (simp add: a'_def report_creation_def log_grows)
  with result assms(1) show ?thesis
    by (auto simp: page_pre_def page_ok_def page_matches_def creation_result_def same_gates_def asks_for_key_def)
qed

lemma creation_step_pre:
  assumes "page_ok (wd_env w) p" "pg_child p = CreateChild c m"
    "creation_page_step api (wd_env w) copied e (c, m, pg_shell p) = (c', m', a')"
  shows "page_pre (wd_env w) (p\<lparr>pg_child := CreateChild c' m', pg_shell := a'\<rparr>)"
proof -
  have inv: "app_inv (wd_env w) (pg_shell p)" using assms(1) by (simp add: page_ok_def)
  have "\<exists>c''. a' = report_creation api (wd_env w) copied c c'' (pg_shell p)"
    using assms(3) by (auto simp: creation_page_step_def Let_def split: createControl.splits)
  then have "creation_result api (wd_env w) (pg_shell p) a'" using report_creation_result [OF inv] by blast
  with assms(1,2) show ?thesis
    by (auto simp: page_pre_def page_ok_def creation_result_def asks_for_key_def)
qed

lemma page_ok_pre: "page_ok env p \<Longrightarrow> page_pre env p"
  by (auto simp: page_ok_def page_pre_def asks_for_key_def)

lemma page_pre_left [simp]: "page_pre env (p\<lparr>pg_left := left\<rparr>) \<longleftrightarrow> page_pre env p"
  by (simp add: page_pre_def)

lemma page_step_ok:
  assumes "page_ok (wd_env w) p" "page_allows api w ev p"
  shows "page_ok (wd_env w) (page_step api w now ev p)"
proof -
  note same = page_ok_pre [OF assms(1)]
  show ?thesis
  proof (cases ev)
    case (Happens e copied)
    show ?thesis
    proof (cases e)
      case (Shell s)
      with Happens assms show ?thesis by (simp add: page_step_def settle_page_ok shell_step_pre)
    next
      case (Creating s)
      with Happens assms(1) same show ?thesis
        by (auto simp: page_step_def intro!: settle_page_ok creation_step_pre split: pageChild.split prod.split)
    next
      case (Viewing s)
      with Happens assms same show ?thesis
        by (auto simp: page_step_def Let_def intro!: settle_page_ok viewing_step_pre [of api w s copied] split: pageChild.split)
    qed
  next
    case (LeftCreation i j outcome copied)
    with assms same show ?thesis
      by (auto simp: page_step_def page_allows_def left_step_def Let_def intro!: settle_page_ok left_creation_pre
          split: pageChild.split prod.split)
  next
    case (LeftViewer i e)
    have "page_pre (wd_env w) (p\<lparr>pg_left := left, pg_shell := report_viewer v v' (pg_shell p)\<rparr>)" for left v v'
      using assms(1) report_viewer_facts(1) [of "pg_shell p" v v'] report_viewer_facts(2)
      by (auto simp: page_pre_def page_ok_def same_gates_def asks_for_key_def)
    with LeftViewer same show ?thesis
      by (auto simp: page_step_def left_step_def Let_def intro!: settle_page_ok split: pageChild.split)
  qed
qed

lemma page_reach_ok: "page_reach api w p \<Longrightarrow> page_ok (wd_env w) p"
proof (induction rule: page_reach.induct)
  case (page_opened pathname fragment t now)
  have "app_inv (wd_env w) (app_new (wd_env w) pathname fragment t)" by (simp add: app_inv_def app_new_def)
  then show ?case
    using mount_child_facts [where a = "app_new (wd_env w) pathname fragment t" and now = now]
    by (auto simp: page_new_def page_ok_def page_matches_def Let_def app_new_def)
qed (rule page_step_ok)

text \<open>
  C8. The chrome of the application is missing exactly while a key or a password is asked for. In every reachable state the
  page is that of the address; the gate is open exactly when the paste page asks for a key; the header, with which one
  leaves a page, is offered exactly when no gate is open; and while a key is asked for, nothing can be operated
  but the key, its submission and the notifications.
\<close>
theorem chrome_hidden_at_gates:
  assumes "page_reach api w p"
  shows "page_matches p \<and> (ap_keyGateOpen (pg_shell p) \<longleftrightarrow> asks_for_key (pg_child p))
    \<and> (ap_liveGateOpen (pg_shell p) \<longrightarrow> pg_child p = LiveRoomChild)
    \<and> (offers [page_markup w menuID mounted written p] (Shell ThemeToggled)
        \<longleftrightarrow> \<not> asks_for_key (pg_child p) \<and> \<not> ap_liveGateOpen (pg_shell p))
    \<and> (asks_for_key (pg_child p) \<longrightarrow> (\<forall>e. offers [page_markup w menuID mounted written p] e \<longrightarrow>
        e = Viewing KeySubmitted \<or> (\<exists>key. e = Viewing (KeyTyped key)) \<or> (\<exists>b. e = Shell (Paused b))
        \<or> (\<exists>s\<in>set (ap_statuses (pg_shell p)). e = Shell (Dismissed (st_id s)))))"
proof -
  have ok: "page_ok (wd_env w) p" by (rule page_reach_ok [OF assms])
  have theme: "\<not> offers (child_markup w menuID mounted written p) (Shell ThemeToggled)"
    using child_offers_shell by blast
  have key: "e = Viewing KeySubmitted \<or> (\<exists>key. e = Viewing (KeyTyped key))"
    if "asks_for_key (pg_child p)" "offers (child_markup w menuID mounted written p) e" for e
    using that by (auto simp: asks_for_key_def child_markup_def offers_embed key_gate_child_offers paste_control_def
        split: pageChild.splits)
  show ?thesis
    using ok theme key
    by (auto simp: page_ok_def page_markup_def App_offers site_header_offers status_stack_offers gate_open_def)
qed

section \<open>A created paste is shown to its creator\<close>

text \<open>
  The link of the service is resolved against the origin of the page; a path of one segment and a key survive
  that.
\<close>

definition location_laws :: "'u locationAPI \<Rightarrow> jsstring \<Rightarrow> bool" where
  "location_laws api origin \<longleftrightarrow> (\<forall>u slug key. slugPattern slug \<longrightarrow> url_pathname api u = js ''/'' @ slug
     \<longrightarrow> url_hash api u = 0x23 # key \<longrightarrow> list_all base64url_unit key \<longrightarrow>
     (\<exists>u' u''. url_resolve api (url_pathname api u @ url_search api u @ url_hash api u) origin = Some u'
        \<and> url_parse api (url_string api u') = Some u''
        \<and> url_pathname api u'' = url_pathname api u \<and> url_hash api u'' = url_hash api u))"

definition page_run :: "'u locationAPI \<Rightarrow> pageWorld \<Rightarrow> int \<Rightarrow> pageEvent list \<Rightarrow> appPage \<Rightarrow> appPage" where
  "page_run api w now evs p = fold (page_step api w now) evs p"

lemma viewer_url_simps [simp]:
  "url_parse (viewer_url api) = url_parse api" "url_hash (viewer_url api) = url_hash api"
  by (simp_all add: viewer_url_def urlAPI.truncate_def)

text \<open>Viewing does not leave the page.\<close>

lemma viewing_run:
  assumes "pg_child p = PasteChild v" "ap_route (pg_shell p) = PasteRoute (vw_slug v)"
    "\<And>ev slug. ev \<in> set evs \<Longrightarrow> ev \<noteq> Navigate slug"
  shows "pg_child (page_run api w now (map (\<lambda>ev. Happens (Viewing ev) True) evs) p)
    = PasteChild (viewer_run (wd_crypto w) (viewer_url api) (wd_lower w) evs v)"
  using assms
proof (induction evs arbitrary: p v)
  case (Cons ev evs)
  define v' where "v' = viewer_step (wd_crypto w) (viewer_url api) (wd_lower w) ev v"
  define p' where "p' = page_step api w now (Happens (Viewing ev) True) p"
  have slug: "vw_slug v' = vw_slug v" unfolding v'_def using Cons.prems(3) by (intro step_slug) auto
  have route: "ap_route (report_gate v v' (report_viewer v v' (pg_shell p))) = ap_route (pg_shell p)"
    using report_viewer_facts(1) [of "pg_shell p" v v'] by (simp add: report_gate_def same_gates_def)
  have "p' = p\<lparr>pg_child := PasteChild v', pg_shell := report_gate v v' (report_viewer v v' (pg_shell p))\<rparr>"
    using Cons.prems(1,2) slug route
    by (simp add: p'_def page_step_def v'_def [symmetric] settle_page_def stays_def Let_def)
  then have "pg_child p' = PasteChild v'" "ap_route (pg_shell p') = PasteRoute (vw_slug v')"
    using Cons.prems(2) slug route by simp_all
  from Cons.IH [OF this] Cons.prems(3) show ?case
    by (simp add: page_run_def viewer_run_def p'_def v'_def)
qed (simp add: page_run_def viewer_run_def)

text \<open>The end of a submission brings its creator to the address of the paste.\<close>

lemma created_paste_opens:
  assumes "pg_child p = CreateChild c m" "i < length (cc_inFlight c)"
    and "browserShareURL api (cp_url created) (ae_origin (wd_env w)) = Some url" "url_parse api url = Some u"
    and "currentRoute (wd_env w) (url_pathname api u) = PasteRoute slug"
  shows "pg_child (page_step api w now (Happens (Creating (Form (SubmissionEnds i (Inr created)))) copied) p)
      = PasteChild (viewer_mount slug now)
    \<and> ap_route (pg_shell (page_step api w now (Happens (Creating (Form (SubmissionEnds i (Inr created)))) copied) p)) = PasteRoute slug
    \<and> ap_fragment (pg_shell (page_step api w now (Happens (Creating (Form (SubmissionEnds i (Inr created)))) copied) p)) = url_hash api u"
proof -
  define c' where "c' = submission_ends i (Inr created) c"
  define a' where "a' = fst (handleCreated api (wd_env w) copied created (pg_shell p))"
  have fin: "snd (handleCreated api (wd_env w) copied created (pg_shell p))"
    using assms(3,4) by (simp add: handleCreated_def share_created_def Let_def)
  have a': "ap_route a' = PasteRoute slug" "ap_fragment a' = url_hash api u"
    using assms(3-5) by (simp_all add: a'_def handleCreated_def share_created_def navigate_def Let_def)
  have step: "creation_page_step api (wd_env w) copied (Form (SubmissionEnds i (Inr created))) (c, m, pg_shell p) = (c', m, a')"
    using assms(2) fin by (simp add: creation_page_step_def creation_step_def report_creation_def log_grows creation_effect_def
        c'_def a'_def Let_def case_prod_beta)
  have "page_step api w now (Happens (Creating (Form (SubmissionEnds i (Inr created)))) copied) p
      = p\<lparr>pg_shell := a', pg_child := PasteChild (viewer_mount slug now), pg_left := pg_left p @ [CreateChild c' m]\<rparr>"
    using assms(1) a'(1) step
    by (simp add: page_step_def settle_page_def stays_def left_shell_def leave_child_def mount_child_def Let_def)
  with a' show ?thesis by simp
qed

lemma draft_payload_content: "string_prop (draft_payload draft) ''content'' = dr_content draft"
  by (simp add: string_prop_def draft_payload_def)

lemma read_events_stay: "ev \<in> set (read_events burn hash r) \<Longrightarrow> ev \<noteq> Navigate slug"
  by (auto simp: read_events_def split: if_splits)

lemma shown_child:
  assumes "pg_child p = PasteChild v" "vw_state v = ViewReady" "vw_paste v \<noteq> None" "shown_payload v = Some payload"
  shows "concat (map shown_documents (child_markup w menuID mounted written p)) = [string_prop payload ''content'']"
  using assms page_contents(1) [where v = v] by (simp add: child_markup_def content_shown_def comp_def)

lemma read_paste_kept:
  assumes "keyFromFragmentOrURL url hash = Inr key" "decryptPayload sc (rt_data r) key = Inr payload" "slug \<noteq> []" "hash \<noteq> []"
  shows "vw_paste (viewer_run sc url lower (read_events burn hash r) (viewer_mount slug now)) = Some (RetrievedEncryptedPaste r)"
  using assms
  by (cases burn) (simp_all add: read_events_def viewer_run_def viewer_mount_def load_paste_def viewer_new_def Let_def
      viewer_step_def fetch_done_def start_task_def end_task_def viewer_log_def open_done_def
      revealAndDestroy_def consume_done_def reveal_done_def)

text \<open>
  C7. What is created is what its creator sees next. When an encrypted draft was created, the end of its submission
  brings the application to the address of the paste with the key in the fragment, and once the service
  returned the envelope it was sent, also through the confirmation of a paste that is read once, the page
  shows one document, the content of the draft.
\<close>
theorem created_paste_is_shown:
  assumes laws: "aead_laws (wd_crypto w)" "url_laws (viewer_url api)" "location_laws api (ae_origin (wd_env w))"
    and size: "length key = 32" "length iv = 12"
    and page: "pg_child p = CreateChild c m" "i < length (cc_inFlight c)"
    and created: "createEncryptedDraft (wd_crypto w) key iv (viewer_url api) server (cc_inFlight c ! i) request = Inr created"
    and path: "\<And>u. url_parse api (cp_url created) = Some u \<Longrightarrow> url_pathname api u = js ''/'' @ slug" "slugPattern slug"
      "currentRoute (wd_env w) (js ''/'' @ slug) = PasteRoute slug"
  shows "\<exists>e. encryptPayload (wd_crypto w) key iv (draft_payload (cc_inFlight c ! i)) = Inr e \<and>
    (\<forall>r burn. rt_data r = ep_envelope e \<longrightarrow>
      (let p1 = page_step api w now (Happens (Creating (Form (SubmissionEnds i (Inr created)))) copied) p;
           p2 = page_run api w now (map (\<lambda>ev. Happens (Viewing ev) True) (read_events burn (ap_fragment (pg_shell p1)) r)) p1
       in ap_route (pg_shell p1) = PasteRoute slug \<and> ap_fragment (pg_shell p1) = 0x23 # encodeBase64url key
         \<and> concat (map shown_documents (child_markup w menuID mounted written p2)) = [dr_content (cc_inFlight c ! i)]))"
proof -
  let ?draft = "cc_inFlight c ! i" and ?hash = "0x23 # encodeBase64url key"
  from encrypted_draft_link [OF laws(2) size(1) created] obtain e u where
    e: "encryptPayload (wd_crypto w) key iv (draft_payload ?draft) = Inr e" "ep_key e = encodeBase64url key"
    and u: "url_parse api (cp_url created) = Some u" "url_hash api u = ?hash"
    by auto
  obtain u' u'' where resolved:
    "url_resolve api (url_pathname api u @ url_search api u @ url_hash api u) (ae_origin (wd_env w)) = Some u'"
    "url_parse api (url_string api u') = Some u''" "url_pathname api u'' = js ''/'' @ slug" "url_hash api u'' = ?hash"
    using laws(3) path(1) [OF u(1)] path(2) u(2) encoded_units [of key] unfolding location_laws_def by metis
  have share: "browserShareURL api (cp_url created) (ae_origin (wd_env w)) = Some (url_string api u')"
    using u(1) resolved(1) by (simp add: browserShareURL_def)
  define p1 where "p1 = page_step api w now (Happens (Creating (Form (SubmissionEnds i (Inr created)))) copied) p"
  have p1: "pg_child p1 = PasteChild (viewer_mount slug now)" "ap_route (pg_shell p1) = PasteRoute slug"
    "ap_fragment (pg_shell p1) = ?hash"
    using created_paste_opens [OF page share resolved(2), of slug now copied] path(3) resolved(3,4) by (simp_all add: p1_def)
  have slug: "slug \<noteq> []" "vw_slug (viewer_mount slug now) = slug"
    using path(2) by (auto simp: slugPattern_def viewer_mount_def load_paste_slug viewer_new_def)
  have "assertPlaintextPayload (draft_payload ?draft) = Inr ()"
    using e(1) by (auto simp: encryptPayload_def bind_result_Inr_iff)
  from decrypt_encrypt_core [OF laws(1) size draft_payload_data this] e
  have decrypt: "decryptPayload (wd_crypto w) (ep_envelope e) (encodeBase64url key) = Inr (draft_payload ?draft)" by auto
  have "concat (map shown_documents (child_markup w menuID mounted written
      (page_run api w now (map (\<lambda>ev. Happens (Viewing ev) True) (read_events burn ?hash r)) p1))) = [dr_content ?draft]"
    if "rt_data r = ep_envelope e" for r burn
  proof -
    let ?v = "viewer_run (wd_crypto w) (viewer_url api) (wd_lower w) (read_events burn ?hash r) (viewer_mount slug now)"
    have key: "keyFromFragmentOrURL (viewer_url api) ?hash = Inr (encodeBase64url key)" by (rule key_of_fragment [OF size(1)])
    have "vw_state ?v = ViewReady" "shown_payload ?v = Some (draft_payload ?draft)" "vw_paste ?v \<noteq> None"
      using read_with_key [OF key, of "wd_crypto w" r] read_paste_kept [OF key, of "wd_crypto w" r] decrypt that slug(1)
      by simp_all
    moreover have "pg_child (page_run api w now (map (\<lambda>ev. Happens (Viewing ev) True) (read_events burn ?hash r)) p1) = PasteChild ?v"
      using p1(1,2) slug(2) read_events_stay by (intro viewing_run) auto
    ultimately show ?thesis using shown_child draft_payload_content by metis
  qed
  with e(1) p1 show ?thesis unfolding p1_def [symmetric] Let_def by auto
qed

text \<open>A site whose only address is \<open>/a\<close>, and a page on which a draft is being created.\<close>

definition demo_site :: "(jsstring \<times> jsstring) locationAPI" where
  "demo_site = urlAPI.extend demo_url
     \<lparr>url_pathname = (\<lambda>u. js ''/a''), url_search = (\<lambda>u. []), url_resolve = (\<lambda>path base. url_parse demo_url path)\<rparr>"

definition demo_world :: pageWorld where
  "demo_world = \<lparr>wd_env = \<lparr>ae_hosted = False, ae_liveEnabled = True, ae_origin = []\<rparr>, wd_crypto = demo_crypto, wd_lower = (\<lambda>s. s),
     wd_parse = (\<lambda>s. None)\<rparr>"

definition demo_creating :: appPage where
  "demo_creating = \<lparr>pg_shell = app_new (wd_env demo_world) (js ''/'') [] Light,
     pg_child = CreateChild (creation_run [CreateClicked] (creation_new demo_draft)) languageMenu_new, pg_left = []\<rparr>"

lemma demo_site_simps [simp]:
  "viewer_url demo_site = demo_url" "url_parse demo_site = url_parse demo_url" "url_string demo_site = url_string demo_url"
  "url_hash demo_site = url_hash demo_url" "url_pathname demo_site u = js ''/a''" "url_search demo_site u = []"
  "url_resolve demo_site path base = url_parse demo_url path"
  by (simp_all add: demo_site_def viewer_url_def urlAPI.truncate_def urlAPI.extend_def)

lemma demo_site_laws: "location_laws demo_site origin"
  unfolding location_laws_def
proof (intro allI impI)
  fix u :: "jsstring \<times> jsstring" and slug key
  assume h: "url_hash demo_site u = 0x23 # key" "list_all base64url_unit key"
  then have key: "key \<noteq> []" "snd u = key" by (auto simp: demo_url_def split: if_splits)
  have "trim (js ''/a'' @ 0x23 # key) = js ''/a'' @ 0x23 # key"
    using h(2) key(1) base64url_no_whitespace [of "last key"]
    by (intro trim_id) (auto simp: js_def is_whitespace_def list_all_iff)
  then have "url_parse demo_url (js ''/a'' @ 0x23 # key) = Some (js ''/a'', key)"
    by (simp add: demo_url_def js_def Let_def)
  then show "\<exists>u' u''. url_resolve demo_site (url_pathname demo_site u @ url_search demo_site u @ url_hash demo_site u) origin = Some u'
      \<and> url_parse demo_site (url_string demo_site u') = Some u''
      \<and> url_pathname demo_site u'' = url_pathname demo_site u \<and> url_hash demo_site u'' = url_hash demo_site u"
    using h(1) key by (simp add: demo_url_def)
qed

lemma demo_route: "currentRoute (wd_env demo_world) (js ''/'' @ js ''a'') = PasteRoute (js ''a'')" "slugPattern (js ''a'')"
proof -
  show "slugPattern (js ''a'')" by (simp add: slugPattern_def js_def)
  from resolve_paste [OF this, of False True] show "currentRoute (wd_env demo_world) (js ''/'' @ js ''a'') = PasteRoute (js ''a'')"
    by (simp add: currentRoute_def demo_world_def)
qed

lemma demo_in_flight: "cc_inFlight (creation_run [CreateClicked] (creation_new demo_draft)) = [demo_draft]"
  using demo_draft_valid error_values_Nil [of demo_draft]
  by (simp add: creation_run_def creation_step_def creation_submit_def creation_new_def creation_log_def Let_def)

theorem created_paste_is_shown_witness:
  "\<exists>created r. let p1 = page_step demo_site demo_world 0 (Happens (Creating (Form (SubmissionEnds 0 (Inr created)))) True) demo_creating;
        p2 = page_run demo_site demo_world 0
          (map (\<lambda>ev. Happens (Viewing ev) True) (read_events True (ap_fragment (pg_shell p1)) r)) p1
      in concat (map shown_documents (child_markup demo_world [] True True p2)) = [js ''x'']"
proof -
  obtain created where created: "createEncryptedDraft demo_crypto (replicate 32 7) (replicate 12 9) demo_url
      (\<lambda>path init. Inr demo_created) demo_draft (OneDay, False) = Inr created"
    using demo_creation by blast
  have world: "wd_crypto demo_world = demo_crypto" by (simp add: demo_world_def)
  have child: "pg_child demo_creating = CreateChild (creation_run [CreateClicked] (creation_new demo_draft)) languageMenu_new"
    by (simp add: demo_creating_def)
  have sent: "createEncryptedDraft (wd_crypto demo_world) (replicate 32 7) (replicate 12 9) (viewer_url demo_site)
      (\<lambda>path init. Inr demo_created) (cc_inFlight (creation_run [CreateClicked] (creation_new demo_draft)) ! 0) (OneDay, False) = Inr created"
    using created by (simp add: world demo_in_flight)
  have path: "url_pathname demo_site u = js ''/'' @ js ''a''" for u by (simp add: js_append [symmetric])
  have laws: "aead_laws (wd_crypto demo_world)" "url_laws (viewer_url demo_site)"
    by (simp_all add: world demo_crypto_laws demo_url_laws)
  have sizes: "length (replicate 32 7 :: bytes) = 32" "length (replicate 12 9 :: bytes) = 12" by simp_all
  have one: "0 < length (cc_inFlight (creation_run [CreateClicked] (creation_new demo_draft)))" by (simp add: demo_in_flight)
  obtain e :: encryptedPaste where e: "\<forall>r burn. rt_data r = ep_envelope e \<longrightarrow>
      (let p1 = page_step demo_site demo_world 0 (Happens (Creating (Form (SubmissionEnds 0 (Inr created)))) True) demo_creating;
           p2 = page_run demo_site demo_world 0
             (map (\<lambda>ev. Happens (Viewing ev) True) (read_events burn (ap_fragment (pg_shell p1)) r)) p1
       in ap_route (pg_shell p1) = PasteRoute (js ''a'') \<and> ap_fragment (pg_shell p1) = 0x23 # encodeBase64url (replicate 32 7)
         \<and> concat (map shown_documents (child_markup demo_world [] True True p2)) = [dr_content demo_draft])"
    using created_paste_is_shown [OF laws demo_site_laws sizes child one sent path demo_route(2,1), of 0 True "[]" True True]
    unfolding demo_in_flight nth_Cons_0 by (elim exE conjE) (rule that)
  define r where "r = (demo_retrieved [])\<lparr>rt_data := ep_envelope e\<rparr>"
  have "rt_data r = ep_envelope e" by (simp add: r_def)
  with e have "let p1 = page_step demo_site demo_world 0 (Happens (Creating (Form (SubmissionEnds 0 (Inr created)))) True) demo_creating;
        p2 = page_run demo_site demo_world 0
          (map (\<lambda>ev. Happens (Viewing ev) True) (read_events True (ap_fragment (pg_shell p1)) r)) p1
      in concat (map shown_documents (child_markup demo_world [] True True p2)) = [dr_content demo_draft]"
    unfolding Let_def by blast
  moreover have "dr_content demo_draft = js ''x''" by (simp add: demo_draft_def)
  ultimately show ?thesis by auto
qed

section \<open>Drafts that are handed over\<close>

lemma route_facts: "currentRoute env (js ''/'') = CreateRoute"
  by (simp add: currentRoute_def resolveRoute_def path_segments_def js_def)

lemma settle_keeps_drafts:
  "ap_liveDraft (pg_shell (settle_page now p)) = ap_liveDraft (pg_shell p)"
  "ap_createDraftRef (pg_shell (settle_page now p)) = ap_createDraftRef (pg_shell p)"
  "ap_createDraftSeed (pg_shell (settle_page now p)) = ap_createDraftSeed (pg_shell p)"
  by (simp_all add: settle_page_def report_gate_def left_shell_def Let_def split: route.split pageChild.split)

lemma live_share_draft:
  assumes "ap_route (pg_shell p) = CreateRoute"
  shows "ap_liveDraft (pg_shell (page_step api w now (Happens (Shell LiveShare) b) p))
    = liveDraftFromCreateDraft (ap_createDraftRef (pg_shell p))"
  using assms by (simp add: page_step_def settle_keeps_drafts app_step_def handleLiveShare_def navigate_def)

text \<open>The events that edit the draft.\<close>

definition edits_draft :: "creationEvent \<Rightarrow> bool" where
  "edits_draft e \<longleftrightarrow> (case e of CreateClicked \<Rightarrow> False | ModEnter \<Rightarrow> False | SubmissionEnds i outcome \<Rightarrow> False | _ \<Rightarrow> True)"

text \<open>
  After an edit, opening a live room hands over the draft on the screen.
\<close>
theorem edited_draft_handed_over:
  assumes "pg_child p = CreateChild c m" "ap_route (pg_shell p) = CreateRoute" "edits_draft e"
  shows "let p1 = page_step api w now (Happens (Creating (Form e)) b) p;
             p2 = page_step api w now (Happens (Shell LiveShare) b) p1
         in pg_child p1 = CreateChild (creation_step e c) m
           \<and> ap_liveDraft (pg_shell p2) = liveDraftFromCreateDraft (cc_draft (creation_step e c))"
proof -
  define p1 where "p1 = page_step api w now (Happens (Creating (Form e)) b) p"
  define a where "a = report_creation api (wd_env w) b c (creation_step e c) (pg_shell p)"
  have a: "ap_createDraftRef a = cc_draft (creation_step e c) \<and> ap_route a = ap_route (pg_shell p)"
    using assms(3)
    by (cases e) (auto simp: a_def edits_draft_def report_creation_def creation_step_def updateDraft_def creation_log_def
        creation_effect_def draft_changed_def showStatus_def Let_def)
  have "p1 = p\<lparr>pg_child := CreateChild (creation_step e c) m, pg_shell := a\<rparr>"
    using assms(1,2) a by (simp add: p1_def page_step_def creation_page_step_def a_def settle_page_def stays_def Let_def)
  moreover from this a assms(2) have "ap_liveDraft (pg_shell (page_step api w now (Happens (Shell LiveShare) b) p1))
      = liveDraftFromCreateDraft (cc_draft (creation_step e c))"
    by (subst live_share_draft) simp_all
  ultimately show ?thesis by (simp add: p1_def [symmetric] Let_def)
qed

text \<open>
  Two ways in which the draft that is handed over is not the one on the screen. A new paste on the creation page empties the
  draft the shell remembers but not the form, which stays as it is; and on the way back from another page the
  form is empty while the shell still remembers the old draft.
\<close>
theorem new_paste_forgets_draft:
  assumes "pg_child p = CreateChild c m" "ap_route (pg_shell p) = CreateRoute"
  shows "let p1 = page_step api w now (Happens (Shell NewPaste) b) p;
             p2 = page_step api w now (Happens (Shell LiveShare) b) p1
         in pg_child p1 = CreateChild c m \<and> ap_liveDraft (pg_shell p2) = liveDraftFromCreateDraft defaultCreateDraft"
proof -
  define p1 where "p1 = page_step api w now (Happens (Shell NewPaste) b) p"
  define a where "a = navigateToNewPaste (wd_env w) (pg_shell p)"
  have a: "ap_createDraftRef a = defaultCreateDraft" "ap_route a = CreateRoute"
    by (simp_all add: a_def navigateToNewPaste_def navigate_def route_facts)
  have "p1 = p\<lparr>pg_shell := a\<rparr>"
    using assms a(2) by (simp add: p1_def page_step_def app_step_def a_def [symmetric] settle_page_def stays_def Let_def)
  with assms a live_share_draft [of p1 api w now b] show ?thesis by (simp add: p1_def [symmetric] Let_def)
qed

theorem back_hands_over_old_draft:
  assumes "pg_child p = LiveCreateChild"
  shows "let p1 = page_step api w now (Happens (Shell (PopState (js ''/'') [])) b) p;
             p2 = page_step api w now (Happens (Shell LiveShare) b) p1
         in pg_child p1 = CreateChild (creation_new (ap_createDraftSeed (pg_shell p))) languageMenu_new
           \<and> ap_liveDraft (pg_shell p2) = liveDraftFromCreateDraft (ap_createDraftRef (pg_shell p))"
proof -
  define p1 where "p1 = page_step api w now (Happens (Shell (PopState (js ''/'') [])) b) p"
  define a where "a = onPopState (wd_env w) (js ''/'') [] (pg_shell p)"
  have a: "ap_route a = CreateRoute" "ap_createDraftSeed a = ap_createDraftSeed (pg_shell p)"
    "ap_createDraftRef a = ap_createDraftRef (pg_shell p)"
    by (simp_all add: a_def onPopState_def route_facts)
  have "p1 = p\<lparr>pg_shell := a, pg_child := CreateChild (creation_new (ap_createDraftSeed a)) languageMenu_new,
      pg_left := pg_left p @ [LiveCreateChild]\<rparr>"
    using assms a(1) by (simp add: p1_def page_step_def app_step_def a_def [symmetric] settle_page_def stays_def left_shell_def
        mount_child_def leave_child_def Let_def)
  with a live_share_draft [of p1 api w now b] show ?thesis by (simp add: p1_def [symmetric] Let_def)
qed

theorem chrome_hidden_at_gates_witness:
  "asks_for_key (pg_child (page_step demo_site demo_world 0
      (Happens (Viewing (FetchAnswer 0 [] (Inr (RetrievedEncryptedPaste (demo_retrieved (js ''a'')))))) True)
      (page_new demo_world (js ''/'' @ js ''a'') [] Light 0)))
   \<and> ap_keyGateOpen (pg_shell (page_step demo_site demo_world 0
      (Happens (Viewing (FetchAnswer 0 [] (Inr (RetrievedEncryptedPaste (demo_retrieved (js ''a'')))))) True)
      (page_new demo_world (js ''/'' @ js ''a'') [] Light 0)))"
proof -
  define p where "p = page_new demo_world (js ''/'' @ js ''a'') [] Light 0"
  define ev where "ev = Happens (Viewing (FetchAnswer 0 [] (Inr (RetrievedEncryptedPaste (demo_retrieved (js ''a'')))))) True"
  define q where "q = page_step demo_site demo_world 0 ev p"
  have "page_reach demo_site demo_world q"
    unfolding q_def p_def by (rule page_used [OF page_opened]) (simp add: ev_def page_allows_def)
  note gate = chrome_hidden_at_gates [OF this]
  have child: "pg_child p = PasteChild (viewer_mount (js ''a'') 0)" "ap_route (pg_shell p) = PasteRoute (js ''a'')"
    using demo_route(1) by (simp_all add: p_def page_new_def app_new_def mount_child_def Let_def)
  then have "asks_for_key (pg_child q)"
    by (simp add: q_def ev_def page_step_def Let_def viewer_step_def viewer_mount_def load_paste_def viewer_new_def start_task_def
        viewer_log_def fetch_done_def end_task_def no_key_in_empty_hash settle_page_def stays_def report_gate_def
        report_viewer_def asks_for_key_def)
  with gate show ?thesis by (simp add: q_def p_def ev_def)
qed

section \<open>Every page is complete\<close>

lemma header_contained: "self_contained (site_header env a)"
  by (simp add: self_contained_def site_header_def optional_def markup_attributes is_control_def)

lemma stack_contained: "self_contained (status_stack a)"
proof -
  have "self_contained (StatusToast paused s)" for paused s
    by (simp add: self_contained_def StatusToast_def markup_attributes is_control_def Let_def)
  then show ?thesis
    by (simp add: self_contained_def status_stack_def markup_attributes is_control_def)
qed

lemma menu_contained: "self_contained (HostedMenu current f)"
  by (simp add: self_contained_def)

lemma App_accessible: "accessible page \<Longrightarrow> accessible [App env a page]"
proof -
  assume "accessible page"
  then have "accessible (optional (\<not> gate_open a) [site_header env a] @ page
      @ optional (ae_hosted env \<and> \<not> ap_keyGateOpen a) [HostedMenu (hosted_page (ap_route a)) (\<lambda>path. Shell (Navigated path []))]
      @ optional (ap_statuses a \<noteq> []) [status_stack a])"
    by (rule accessible_around) (auto simp: set_optional header_contained stack_contained menu_contained)
  then show ?thesis unfolding App_def by (rule accessible_wrapped)
qed

lemma toolbar_contained: "self_contained (creation_toolbar c)"
proof -
  have "self_contained (LifetimeButton l label selected)" if "label \<noteq> ''''" for l label selected
    using that by (simp add: self_contained_def LifetimeButton_def optional_def markup_attributes is_control_def is_field_def)
  then show ?thesis
    by (simp add: self_contained_def creation_toolbar_def markup_attributes is_control_def is_field_def Let_def)
qed

lemma metadata_facts:
  assumes "dr_language (cc_draft c) \<noteq> []" "menuID \<noteq> []"
  shows "ids (creation_metadata menuID c m) = (if lm_open m then [menuID] else [])"
    "references (creation_metadata menuID c m) = (if lm_open m then [menuID] else [])"
    "label_targets (creation_metadata menuID c m) = []"
    "named L b (creation_metadata menuID c m)" "hidden_inert False (creation_metadata menuID c m)"
  by (simp_all add: creation_metadata_def LanguageMenu_facts assms markup_attributes is_control_def is_field_def)

lemma CreationCanvas_accessible:
  assumes "dr_language (cc_draft c) \<noteq> []" "menuID \<noteq> []" "menuID \<noteq> js ''create-heading''"
  shows "accessible [CreationCanvas menuID mounted c m]"
proof -
  have editor: "self_contained (CodeEditor value' (js ''Paste content'') mounted f e)" for value' f and e :: createControl
    by (rule CodeEditor_contained) simp
  show ?thesis
    using toolbar_contained [of c] editor assms metadata_facts [OF assms(1,2)]
    by (simp add: accessible_def CreationCanvas_def self_contained_def markup_attributes is_control_def)
qed



end
