(* ===== verification/Live_Page.thy ===== *)
theory Live_Page
  imports Live_API Live_Identity Drafts Pending_Tasks
begin

text \<open>
  The pages of live rooms (\<open>web/src/live-page.tsx\<close>): the form that creates a room and the page that
  loads a room, asks for its password, renews the session of an open room and shows the workspace. As
  in the paste viewer, a promise is a pending task. Main facts: only valid rooms are created, within
  the limits the page knows; the workspace shows the room of the current slug with the identity of that
  slug, and renewing a session never replaces the room that is open.
\<close>

section \<open>Creating a room\<close>

definition fallbackLiveServiceConfig :: liveServiceConfig where
  "fallbackLiveServiceConfig = \<lparr>lc_maxBytes = int fallbackLiveRoomBytes, lc_maxTabs = 8, lc_maxWriters = 10,
     lc_maxViewers = 100, lc_maxParticipants = 110, lc_roomLifetimeSeconds = 24 * 60 * 60\<rparr>"

text \<open>\<open>(bytes / unit).toFixed(1)\<close>: the nearest tenth, the larger one of two.\<close>

definition toFixed1 :: "nat \<Rightarrow> nat \<Rightarrow> jsstring" where
  "toFixed1 bytes unit =
     (let tenths = (20 * bytes + unit) div (2 * unit)
      in nat_str (tenths div 10) @ js ''.'' @ nat_str (tenths mod 10))"

definition page_formatBytes :: "nat \<Rightarrow> jsstring" where
  "page_formatBytes bytes =
     (if 1048576 \<le> bytes then
        (if bytes mod 1048576 = 0 then nat_str (bytes div 1048576) else toFixed1 bytes 1048576) @ js '' MiB''
      else if bytes < 1024 then nat_str bytes @ js '' B''
      else toFixed1 bytes 1024 @ js '' KiB'')"

definition dashed :: "string \<Rightarrow> string \<Rightarrow> jsstring" where
  "dashed a b = js a @ [0x2014] @ js b"

definition liveCreateFailureMessage :: "liveAPIErrorCode apiFailure \<Rightarrow> jsstring" where
  "liveCreateFailureMessage error = (case error of
     APIError status code message requestID \<Rightarrow>
       (case code of
          MessageTooLarge \<Rightarrow> js ''LiveBin room content is too large''
        | RoomLimitReached \<Rightarrow> js ''LiveBin room content is too large''
        | LiveRateLimited \<Rightarrow> dashed ''Too many requests '' '' try again later''
        | LiveServiceUnavailable \<Rightarrow> js ''LiveBin is unavailable on this service''
        | LiveInvalidRequest \<Rightarrow> js ''Check the LiveBin room details and try again''
        | _ \<Rightarrow> dashed ''Could not create LiveBin room '' '' try again'')
   | _ \<Rightarrow> dashed ''Could not create LiveBin room '' '' try again'')"

datatype liveCreateEffect =
    LiveCreateStatus jsstring
  | RoomSubmission liveDraft "jsstring option"
  | RoomCreated createdLiveRoom
  | CreateButtonFocused

record liveCreate =
  lf_draft :: liveDraft
  lf_usesDefaultName :: bool
  lf_requirePassword :: bool
  lf_password :: jsstring
  lf_showPassword :: bool
  lf_errors :: liveCreateValidation
  lf_submitting :: bool
  lf_limits :: "liveServiceConfig option"
  lf_limitsUnavailable :: bool
  lf_inFlight :: nat
  lf_log :: "liveCreateEffect list"

definition no_live_errors :: liveCreateValidation where
  "no_live_errors = \<lparr>lv_name = None, lv_password = None, lv_content = None\<rparr>"

definition liveCreate_new :: "liveDraft \<Rightarrow> liveCreate" where
  "liveCreate_new draft =
     \<lparr>lf_draft = draft, lf_usesDefaultName = (ld_name draft = defaultLiveDocumentName), lf_requirePassword = False,
      lf_password = [], lf_showPassword = False, lf_errors = no_live_errors, lf_submitting = False, lf_limits = None,
      lf_limitsUnavailable = False, lf_inFlight = 0, lf_log = []\<rparr>"

definition live_log :: "liveCreateEffect \<Rightarrow> liveCreate \<Rightarrow> liveCreate" where
  "live_log e f = f\<lparr>lf_log := lf_log f @ [e]\<rparr>"

definition effectiveLimits :: "liveCreate \<Rightarrow> liveServiceConfig" where
  "effectiveLimits f = (case lf_limits f of None \<Rightarrow> fallbackLiveServiceConfig | Some c \<Rightarrow> c)"

definition limits_answer :: "(liveAPIErrorCode apiFailure, liveServiceConfig) result \<Rightarrow> liveCreate \<Rightarrow> liveCreate" where
  "limits_answer answer f = (case answer of
     Inr config \<Rightarrow> f\<lparr>lf_limits := Some config\<rparr>
   | Inl e \<Rightarrow> f\<lparr>lf_limitsUnavailable := True\<rparr>)"

text \<open>\<open>updateDocument\<close> with each of the updates the form makes; it drops the error of the field.\<close>

definition updateDocument_name :: "jsstring \<Rightarrow> liveCreate \<Rightarrow> liveCreate" where
  "updateDocument_name name f = f\<lparr>lf_draft := (lf_draft f)\<lparr>ld_name := name\<rparr>, lf_errors := (lf_errors f)\<lparr>lv_name := None\<rparr>\<rparr>"

definition updateDocument_language :: "jsstring \<Rightarrow> liveCreate \<Rightarrow> liveCreate" where
  "updateDocument_language language f = f\<lparr>lf_draft := (lf_draft f)\<lparr>ld_language := language\<rparr>\<rparr>"

definition updateDocument_content :: "jsstring \<Rightarrow> liveCreate \<Rightarrow> liveCreate" where
  "updateDocument_content content f =
     f\<lparr>lf_draft := (lf_draft f)\<lparr>ld_content := content\<rparr>, lf_errors := (lf_errors f)\<lparr>lv_content := None\<rparr>\<rparr>"

definition clear_password_error :: "liveCreate \<Rightarrow> liveCreate" where
  "clear_password_error f = f\<lparr>lf_errors := (lf_errors f)\<lparr>lv_password := None\<rparr>\<rparr>"

definition confirmPassword :: "liveCreate \<Rightarrow> liveCreate" where
  "confirmPassword f =
     (case lv_password (validateLiveDraft (lf_draft f) True (lf_password f) (nat (lc_maxBytes (effectiveLimits f)))) of
        Some passwordError \<Rightarrow>
          live_log (LiveCreateStatus passwordError) (f\<lparr>lf_errors := (lf_errors f)\<lparr>lv_password := Some passwordError\<rparr>\<rparr>)
      | None \<Rightarrow> live_log CreateButtonFocused (clear_password_error f))"

definition require_password :: "bool \<Rightarrow> liveCreate \<Rightarrow> liveCreate" where
  "require_password required f =
     (let f = f\<lparr>lf_requirePassword := required\<rparr>
      in if required then f
         else clear_password_error (f\<lparr>lf_password := [], lf_showPassword := False\<rparr>))"

text \<open>\<open>Object.values(errors)\<close>, in the order in which validation sets them.\<close>

definition live_error_values :: "liveCreateValidation \<Rightarrow> jsstring list" where
  "live_error_values errors = concat (map (\<lambda>e. case e of None \<Rightarrow> [] | Some m \<Rightarrow> [m])
     [lv_name errors, lv_content errors, lv_password errors])"

definition live_submit :: "liveCreate \<Rightarrow> liveCreate" where
  "live_submit f =
     (if lf_limits f = None \<and> \<not> lf_limitsUnavailable f then f
      else if ld_name (lf_draft f) = [] then
        live_log (LiveCreateStatus (js ''Tab name cannot be empty''))
          ((updateDocument_name defaultLiveDocumentName f)\<lparr>lf_usesDefaultName := True, lf_errors := no_live_errors\<rparr>)
      else
        let nextErrors = validateLiveDraft (lf_draft f) (lf_requirePassword f) (lf_password f)
              (nat (lc_maxBytes (effectiveLimits f)));
            f = f\<lparr>lf_errors := nextErrors\<rparr>
        in if live_error_values nextErrors \<noteq> [] then
             fold (\<lambda>message. live_log (LiveCreateStatus message)) (live_error_values nextErrors) f
           else
             live_log (RoomSubmission (lf_draft f) (if lf_requirePassword f then Some (lf_password f) else None))
               (f\<lparr>lf_submitting := True, lf_inFlight := Suc (lf_inFlight f)\<rparr>))"

definition room_submission_ends :: "(liveAPIErrorCode apiFailure, createdLiveRoom) result \<Rightarrow> liveCreate \<Rightarrow> liveCreate" where
  "room_submission_ends outcome f =
     (if lf_inFlight f = 0 then f
      else
        let f = f\<lparr>lf_inFlight := lf_inFlight f - 1\<rparr>;
            f = (case outcome of
                   Inr created \<Rightarrow> live_log (RoomCreated created) f
                 | Inl error \<Rightarrow> live_log (LiveCreateStatus (liveCreateFailureMessage error)) f)
        in f\<lparr>lf_submitting := False\<rparr>)"

datatype liveCreateEvent =
    LimitsAnswer "(liveAPIErrorCode apiFailure, liveServiceConfig) result"
  | TabNameTyped jsstring
  | TabLanguageChosen jsstring
  | TabContentTyped jsstring
  | RoomPasswordTyped jsstring
  | PasswordShownToggled
  | PasswordConfirmed
  | PasswordRequiredToggled bool
  | FormSubmitted
  | EditorModEnter
  | RoomSubmissionEnds "(liveAPIErrorCode apiFailure, createdLiveRoom) result"

text \<open>
  The controls. The form submits through its button, which is disabled while a room is created or the
  limits are unknown; the editor's Mod-Enter binding calls \<open>submit\<close> itself. The password controls are
  disabled unless a password is required.
\<close>

definition liveCreate_step :: "liveCreateEvent \<Rightarrow> liveCreate \<Rightarrow> liveCreate" where
  "liveCreate_step ev f = (case ev of
     LimitsAnswer answer \<Rightarrow> limits_answer answer f
   | TabNameTyped name \<Rightarrow> updateDocument_name name (f\<lparr>lf_usesDefaultName := False\<rparr>)
   | TabLanguageChosen language \<Rightarrow> updateDocument_language language f
   | TabContentTyped content \<Rightarrow> updateDocument_content content f
   | RoomPasswordTyped password \<Rightarrow>
       (if \<not> lf_requirePassword f then f else clear_password_error (f\<lparr>lf_password := password\<rparr>))
   | PasswordShownToggled \<Rightarrow> (if \<not> lf_requirePassword f then f else f\<lparr>lf_showPassword := \<not> lf_showPassword f\<rparr>)
   | PasswordConfirmed \<Rightarrow> (if \<not> lf_requirePassword f then f else confirmPassword f)
   | PasswordRequiredToggled required \<Rightarrow> require_password required f
   | FormSubmitted \<Rightarrow>
       (if lf_submitting f \<or> (lf_limits f = None \<and> \<not> lf_limitsUnavailable f) then f else live_submit f)
   | EditorModEnter \<Rightarrow> live_submit f
   | RoomSubmissionEnds outcome \<Rightarrow> room_submission_ends outcome f)"

definition liveCreate_run :: "liveCreateEvent list \<Rightarrow> liveCreate \<Rightarrow> liveCreate" where
  "liveCreate_run evs f = fold liveCreate_step evs f"

section \<open>The page of a room\<close>

datatype liveRoomState = PageLoading | PagePassword | PageReady | PageUnavailable | PageExpired | PageError

type_synonym roomAnswer = "(liveAPIErrorCode apiFailure, liveRoomSnapshot) result"

text \<open>
  The promises: the GET of the room and the identity, each with the number of the run of its effect, and
  an unlock with its password and whether it renews the session of an open room.
\<close>

datatype pageTask =
    RoomFetch nat jsstring
  | IdentityTask nat jsstring
  | UnlockTask jsstring jsstring bool

datatype pageEffect = RoomRequest jsstring | UnlockRequest jsstring jsstring | PageStatus jsstring

record roomPage =
  rp_slug :: jsstring
  rp_generation :: nat
  rp_room :: "liveRoomSnapshot option"
  rp_state :: liveRoomState
  rp_password :: jsstring
  rp_passwordError :: bool
  rp_unlocking :: bool
  rp_reauthenticationGeneration :: nat
  rp_browserIdentity :: "liveBrowserIdentity option"
  rp_tasks :: "pageTask tasks"
  rp_nextTask :: nat
  rp_log :: "pageEffect list"

definition page_start :: "pageTask \<Rightarrow> roomPage \<Rightarrow> roomPage" where
  "page_start t p = p\<lparr>rp_tasks := rp_tasks p @ [(rp_nextTask p, t)], rp_nextTask := Suc (rp_nextTask p)\<rparr>"

definition page_end :: "nat \<Rightarrow> roomPage \<Rightarrow> roomPage" where
  "page_end i p = p\<lparr>rp_tasks := without_task i (rp_tasks p)\<rparr>"

definition page_log :: "pageEffect \<Rightarrow> roomPage \<Rightarrow> roomPage" where
  "page_log e p = p\<lparr>rp_log := rp_log p @ [e]\<rparr>"

text \<open>The effect that resolves the identity, and the effect that loads the room, both on the slug.\<close>

definition resolve_identity :: "roomPage \<Rightarrow> roomPage" where
  "resolve_identity p = page_start (IdentityTask (rp_generation p) (rp_slug p)) (p\<lparr>rp_browserIdentity := None\<rparr>)"

definition load_room :: "roomPage \<Rightarrow> roomPage" where
  "load_room p =
     (if rp_slug p = [] then p\<lparr>rp_state := PageUnavailable\<rparr>
      else page_start (RoomFetch (rp_generation p) (rp_slug p)) (page_log (RoomRequest (rp_slug p))
        (p\<lparr>rp_room := None, rp_password := [], rp_passwordError := False, rp_state := PageLoading\<rparr>)))"

definition page_effects :: "roomPage \<Rightarrow> roomPage" where
  "page_effects p = load_room (resolve_identity (p\<lparr>rp_generation := Suc (rp_generation p)\<rparr>))"

definition page_mount :: "jsstring \<Rightarrow> roomPage" where
  "page_mount slug = page_effects
     \<lparr>rp_slug = slug, rp_generation = 0, rp_room = None, rp_state = PageLoading, rp_password = [],
      rp_passwordError = False, rp_unlocking = False, rp_reauthenticationGeneration = 0, rp_browserIdentity = None,
      rp_tasks = [], rp_nextTask = 0, rp_log = []\<rparr>"

definition identity_resolved :: "nat \<Rightarrow> liveBrowserIdentity \<Rightarrow> roomPage \<Rightarrow> roomPage" where
  "identity_resolved g identity p =
     (if g \<noteq> rp_generation p then p else p\<lparr>rp_browserIdentity := Some identity\<rparr>)"

definition room_fetched :: "nat \<Rightarrow> roomAnswer \<Rightarrow> roomPage \<Rightarrow> roomPage" where
  "room_fetched g answer p =
     (if g \<noteq> rp_generation p then p
      else case answer of
        Inr nextRoom \<Rightarrow> p\<lparr>rp_room := Some nextRoom, rp_state := PageReady\<rparr>
      | Inl (APIError status code message requestID) \<Rightarrow>
          (case code of
             PasswordRequired \<Rightarrow> p\<lparr>rp_state := PagePassword\<rparr>
           | RoomExpired \<Rightarrow> p\<lparr>rp_state := PageExpired\<rparr>
           | LiveNotFound \<Rightarrow> p\<lparr>rp_state := PageUnavailable\<rparr>
           | _ \<Rightarrow> p\<lparr>rp_state := PageError\<rparr>)
      | Inl _ \<Rightarrow> p\<lparr>rp_state := PageError\<rparr>)"

text \<open>The submission of the password form, whose only button is disabled while unlocking.\<close>

definition unlock :: "roomPage \<Rightarrow> roomPage" where
  "unlock p =
     (if rp_state p \<noteq> PagePassword \<or> rp_unlocking p then p
      else page_start (UnlockTask (rp_slug p) (rp_password p) (rp_room p \<noteq> None))
        (page_log (UnlockRequest (rp_slug p) (rp_password p)) (p\<lparr>rp_unlocking := True, rp_passwordError := False\<rparr>)))"

definition unlock_failed :: "liveAPIErrorCode apiFailure \<Rightarrow> bool \<Rightarrow> roomPage \<Rightarrow> roomPage" where
  "unlock_failed error renewing p =
     (case error of
        APIError status InvalidPassword message requestID \<Rightarrow> p\<lparr>rp_passwordError := True\<rparr>
      | APIError status RoomExpired message requestID \<Rightarrow> p\<lparr>rp_state := PageExpired\<rparr>
      | _ \<Rightarrow>
          (if renewing then page_log (PageStatus (dashed ''Could not renew the room session '' '' try again'')) p
           else p\<lparr>rp_state := PageError\<rparr>))"

definition unlock_done :: "bool \<Rightarrow> roomAnswer \<Rightarrow> roomPage \<Rightarrow> roomPage" where
  "unlock_done renewing answer p =
     (let p = (case answer of
          Inl error \<Rightarrow> unlock_failed error renewing p
        | Inr nextRoom \<Rightarrow>
            let p = p\<lparr>rp_password := []\<rparr>;
                p = (if renewing then p\<lparr>rp_reauthenticationGeneration := Suc (rp_reauthenticationGeneration p)\<rparr>
                     else p\<lparr>rp_room := Some nextRoom\<rparr>)
            in p\<lparr>rp_state := PageReady\<rparr>)
      in p\<lparr>rp_unlocking := False\<rparr>)"

text \<open>Whether the workspace is on the page, shown or hidden behind the password form.\<close>

definition workspace_mounted :: "roomPage \<Rightarrow> bool" where
  "workspace_mounted p \<longleftrightarrow> rp_state p \<in> {PageReady, PagePassword} \<and> rp_room p \<noteq> None \<and> rp_browserIdentity p \<noteq> None"

text \<open>\<open>onReauthenticate\<close>, called by the workspace.\<close>

definition onReauthenticate :: "roomPage \<Rightarrow> roomPage" where
  "onReauthenticate p =
     (if workspace_mounted p then p\<lparr>rp_password := [], rp_passwordError := False, rp_state := PagePassword\<rparr> else p)"

definition security_gate :: "roomPage \<Rightarrow> bool" where
  "security_gate p \<longleftrightarrow> rp_state p = PagePassword"

datatype pageEvent =
    GoTo jsstring
  | RoomAnswer nat roomAnswer
  | IdentityAnswer nat liveBrowserIdentity
  | UnlockAnswer nat roomAnswer
  | PasswordTyped jsstring
  | UnlockSubmitted
  | Reauthenticate

definition page_step :: "pageEvent \<Rightarrow> roomPage \<Rightarrow> roomPage" where
  "page_step ev p = (case ev of
     GoTo slug \<Rightarrow> page_effects (p\<lparr>rp_slug := slug\<rparr>)
   | RoomAnswer i answer \<Rightarrow>
       (case map_of (rp_tasks p) i of Some (RoomFetch g slug) \<Rightarrow> room_fetched g answer (page_end i p) | _ \<Rightarrow> p)
   | IdentityAnswer i identity \<Rightarrow>
       (case map_of (rp_tasks p) i of Some (IdentityTask g slug) \<Rightarrow> identity_resolved g identity (page_end i p) | _ \<Rightarrow> p)
   | UnlockAnswer i answer \<Rightarrow>
       (case map_of (rp_tasks p) i of Some (UnlockTask slug pw renewing) \<Rightarrow> unlock_done renewing answer (page_end i p) | _ \<Rightarrow> p)
   | PasswordTyped value \<Rightarrow> (if rp_state p = PagePassword then p\<lparr>rp_password := value\<rparr> else p)
   | UnlockSubmitted \<Rightarrow> unlock p
   | Reauthenticate \<Rightarrow> onReauthenticate p)"

section \<open>Only valid rooms are created\<close>

text \<open>\<open>limits\<close>: the configurations the page has gone by, the fallback included.\<close>

definition room_valid :: "liveServiceConfig set \<Rightarrow> liveDraft \<Rightarrow> jsstring option \<Rightarrow> bool" where
  "room_valid limits draft password \<longleftrightarrow>
     ld_name draft \<noteq> [] \<and> trim (ld_name draft) = ld_name draft \<and> utf8Bytes (ld_name draft) \<le> 64
     \<and> \<not> list_ex control_unit (ld_name draft)
     \<and> (\<exists>c\<in>limits. utf8Bytes (ld_content draft) \<le> nat (lc_maxBytes c))
     \<and> (\<forall>pw. password = Some pw \<longrightarrow> pw \<noteq> [] \<and> utf8Bytes pw \<le> 256)"

lemma live_error_values_Nil:
  "live_error_values e = [] \<longleftrightarrow> lv_name e = None \<and> lv_content e = None \<and> lv_password e = None"
  by (simp add: live_error_values_def split: option.split)

lemma validated_room:
  assumes "live_error_values (validateLiveDraft draft required password (nat (lc_maxBytes c))) = []" "c \<in> limits"
  shows "room_valid limits draft (if required then Some password else None)"
  using assms by (auto simp: live_error_values_Nil validateLiveDraft_def Let_def room_valid_def maxLiveDocumentNameBytes_def
      maxLivePasswordBytes_def not_less split: if_splits)

definition form_ok :: "liveServiceConfig set \<Rightarrow> liveCreate \<Rightarrow> bool" where
  "form_ok limits f \<longleftrightarrow> (\<forall>d pw. RoomSubmission d pw \<in> set (lf_log f) \<longrightarrow> room_valid limits d pw)
     \<and> (\<forall>c. lf_limits f = Some c \<longrightarrow> c \<in> limits) \<and> (lf_submitting f \<longrightarrow> 0 < lf_inFlight f)"

lemma form_ok_update:
  assumes "form_ok limits f" "lf_limits f' = lf_limits f" "lf_log f' = lf_log f"
    "lf_submitting f' = lf_submitting f" "lf_inFlight f' = lf_inFlight f"
  shows "form_ok limits f'"
  using assms by (simp add: form_ok_def)

lemma form_ok_log: "form_ok limits f \<Longrightarrow> (\<And>d pw. e = RoomSubmission d pw \<Longrightarrow> room_valid limits d pw) \<Longrightarrow> form_ok limits (live_log e f)"
  by (auto simp: form_ok_def live_log_def)

lemma form_ok_messages:
  "form_ok limits f \<Longrightarrow> form_ok limits (fold (\<lambda>m. live_log (LiveCreateStatus m)) ms f)"
proof (induction ms arbitrary: f)
  case (Cons m ms)
  from Cons.prems have "form_ok limits (live_log (LiveCreateStatus m) f)" by (rule form_ok_log) simp
  from Cons.IH [OF this] show ?case by simp
qed simp

lemma form_ok_submit:
  assumes "form_ok limits f" "fallbackLiveServiceConfig \<in> limits"
  shows "form_ok limits (live_submit f)"
proof -
  define nextErrors where "nextErrors = validateLiveDraft (lf_draft f) (lf_requirePassword f) (lf_password f)
      (nat (lc_maxBytes (effectiveLimits f)))"
  have limits: "effectiveLimits f \<in> limits"
    using assms by (auto simp: effectiveLimits_def form_ok_def split: option.split)
  have errors: "form_ok limits (f\<lparr>lf_errors := nextErrors\<rparr>)" by (rule form_ok_update [OF assms(1)]) simp_all
  have name: "form_ok limits ((updateDocument_name defaultLiveDocumentName f)\<lparr>lf_usesDefaultName := True, lf_errors := no_live_errors\<rparr>)"
    by (rule form_ok_update [OF assms(1)]) (simp_all add: updateDocument_name_def)
  have "form_ok limits (f\<lparr>lf_errors := nextErrors, lf_submitting := True, lf_inFlight := Suc (lf_inFlight f)\<rparr>)"
    using assms(1) by (simp add: form_ok_def)
  with validated_room [OF _ limits, of "lf_draft f" "lf_requirePassword f" "lf_password f", folded nextErrors_def] assms(1)
    form_ok_messages [OF errors] name show ?thesis
    by (auto simp: live_submit_def Let_def nextErrors_def [symmetric] intro!: form_ok_log)
qed

lemma form_ok_ends: "form_ok limits f \<Longrightarrow> form_ok limits (room_submission_ends outcome f)"
  by (auto simp: room_submission_ends_def form_ok_def live_log_def Let_def split: sum.split)

lemma form_ok_step:
  assumes "form_ok limits f" "fallbackLiveServiceConfig \<in> limits" "\<And>c. ev = LimitsAnswer (Inr c) \<Longrightarrow> c \<in> limits"
  shows "form_ok limits (liveCreate_step ev f)"
proof (cases ev)
  case (LimitsAnswer answer)
  with assms show ?thesis by (cases answer) (auto simp: liveCreate_step_def limits_answer_def form_ok_def)
next
  case PasswordConfirmed
  have "form_ok limits (f\<lparr>lf_errors := e\<rparr>)" for e by (rule form_ok_update [OF assms(1)]) simp_all
  with PasswordConfirmed assms(1) show ?thesis
    by (auto simp: liveCreate_step_def confirmPassword_def clear_password_error_def intro!: form_ok_log split: option.split)
qed (use assms in \<open>simp_all add: liveCreate_step_def form_ok_submit form_ok_ends\<close>,
    (simp add: form_ok_def updateDocument_name_def updateDocument_language_def updateDocument_content_def clear_password_error_def
      require_password_def Let_def)+)

text \<open>The configurations that a run has received, and the fallback.\<close>

definition limits_seen :: "liveCreateEvent list \<Rightarrow> liveServiceConfig set" where
  "limits_seen evs = insert fallbackLiveServiceConfig {c. LimitsAnswer (Inr c) \<in> set evs}"



section \<open>The page shows the room of its slug\<close>

text \<open>
  \<open>given slug answer\<close>: the answers of the service to the GET and the unlock of a slug;
  \<open>owner slug identity\<close>: the identities the browser resolves for a slug. A foreground task is an unlock
  or the room's GET of the latest run of the effect; there is at most one.
\<close>

definition foreground :: "roomPage \<Rightarrow> pageTask \<Rightarrow> bool" where
  "foreground p t \<longleftrightarrow> (case t of RoomFetch g slug \<Rightarrow> g = rp_generation p | IdentityTask g slug \<Rightarrow> False | _ \<Rightarrow> True)"

lemma foreground_simps [simp]:
  "foreground p (RoomFetch g slug) \<longleftrightarrow> g = rp_generation p" "\<not> foreground p (IdentityTask g slug)"
  "foreground p (UnlockTask slug pw r)"
  by (simp_all add: foreground_def)

fun page_task :: "roomPage \<Rightarrow> pageTask \<Rightarrow> bool" where
  "page_task p (RoomFetch g slug) = (slug = rp_slug p \<and> rp_state p = PageLoading \<and> \<not> rp_unlocking p \<and> rp_room p = None)"
| "page_task p (UnlockTask slug pw renewing) = (slug = rp_slug p \<and> rp_state p = PagePassword \<and> rp_unlocking p
     \<and> (renewing \<longleftrightarrow> rp_room p \<noteq> None))"
| "page_task p (IdentityTask g slug) = True"

definition page_phase :: "roomPage \<Rightarrow> bool" where
  "page_phase p \<longleftrightarrow>
     pending_in (foreground p) (rp_tasks p) = [] \<and> \<not> rp_unlocking p
     \<or> (\<exists>t. pending_in (foreground p) (rp_tasks p) = [t] \<and> page_task p t)"

fun numbered :: "nat \<Rightarrow> jsstring \<Rightarrow> pageTask \<Rightarrow> bool" where
  "numbered n s (RoomFetch g slug) = (g \<le> n)"
| "numbered n s (IdentityTask g slug) = (g \<le> n \<and> (g = n \<longrightarrow> slug = s))"
| "numbered n s (UnlockTask slug pw renewing) = True"

definition page_tasks_ok :: "roomPage \<Rightarrow> bool" where
  "page_tasks_ok p \<longleftrightarrow> distinct (map fst (rp_tasks p)) \<and> (\<forall>(i, t)\<in>set (rp_tasks p). i < rp_nextTask p)
     \<and> (\<forall>(i, t)\<in>set (rp_tasks p). numbered (rp_generation p) (rp_slug p) t)"

definition page_own :: "(jsstring \<Rightarrow> roomAnswer \<Rightarrow> bool) \<Rightarrow> (jsstring \<Rightarrow> liveBrowserIdentity \<Rightarrow> bool) \<Rightarrow> roomPage \<Rightarrow> bool" where
  "page_own given owner p \<longleftrightarrow> (\<forall>r. rp_room p = Some r \<longrightarrow> rp_state p \<noteq> PageUnavailable \<longrightarrow> given (rp_slug p) (Inr r))
     \<and> (\<forall>i. rp_browserIdentity p = Some i \<longrightarrow> owner (rp_slug p) i)"

definition is_unlock :: "pageTask \<Rightarrow> bool" where
  "is_unlock t \<longleftrightarrow> (case t of UnlockTask slug pw renewing \<Rightarrow> True | _ \<Rightarrow> False)"

definition unlock_in_flight :: "roomPage \<Rightarrow> bool" where
  "unlock_in_flight p \<longleftrightarrow> list_ex (\<lambda>(i, t). is_unlock t) (rp_tasks p)"

definition calm_page ::
  "(jsstring \<Rightarrow> roomAnswer \<Rightarrow> bool) \<Rightarrow> (jsstring \<Rightarrow> liveBrowserIdentity \<Rightarrow> bool) \<Rightarrow> roomPage \<Rightarrow> pageEvent \<Rightarrow> bool" where
  "calm_page given owner p ev = (case ev of
     GoTo slug \<Rightarrow> \<not> unlock_in_flight p
   | RoomAnswer i answer \<Rightarrow> (\<forall>g slug. map_of (rp_tasks p) i = Some (RoomFetch g slug) \<longrightarrow> given slug answer)
   | UnlockAnswer i answer \<Rightarrow> (\<forall>slug pw r. map_of (rp_tasks p) i = Some (UnlockTask slug pw r) \<longrightarrow> given slug answer)
   | IdentityAnswer i identity \<Rightarrow> (\<forall>g slug. map_of (rp_tasks p) i = Some (IdentityTask g slug) \<longrightarrow> owner slug identity)
   | _ \<Rightarrow> True)"

inductive page_reach :: "(jsstring \<Rightarrow> roomAnswer \<Rightarrow> bool) \<Rightarrow> (jsstring \<Rightarrow> liveBrowserIdentity \<Rightarrow> bool) \<Rightarrow> roomPage \<Rightarrow> bool"
  for given owner where
  page_mounted: "page_reach given owner (page_mount slug)"
| page_stepped: "page_reach given owner p \<Longrightarrow> calm_page given owner p ev \<Longrightarrow> page_reach given owner (page_step ev p)"

definition page_inv :: "(jsstring \<Rightarrow> roomAnswer \<Rightarrow> bool) \<Rightarrow> (jsstring \<Rightarrow> liveBrowserIdentity \<Rightarrow> bool) \<Rightarrow> roomPage \<Rightarrow> bool" where
  "page_inv given owner p \<longleftrightarrow> page_tasks_ok p \<and> page_phase p \<and> page_own given owner p"

lemma page_frames [simp]:
  "rp_slug (page_end i p) = rp_slug p" "rp_state (page_end i p) = rp_state p" "rp_room (page_end i p) = rp_room p"
  "rp_unlocking (page_end i p) = rp_unlocking p" "rp_generation (page_end i p) = rp_generation p"
  "rp_browserIdentity (page_end i p) = rp_browserIdentity p" "rp_nextTask (page_end i p) = rp_nextTask p"
  "rp_tasks (page_end i p) = without_task i (rp_tasks p)"
  "rp_slug (page_start t p) = rp_slug p" "rp_state (page_start t p) = rp_state p" "rp_room (page_start t p) = rp_room p"
  "rp_unlocking (page_start t p) = rp_unlocking p" "rp_generation (page_start t p) = rp_generation p"
  "rp_browserIdentity (page_start t p) = rp_browserIdentity p" "rp_nextTask (page_start t p) = Suc (rp_nextTask p)"
  "rp_tasks (page_start t p) = rp_tasks p @ [(rp_nextTask p, t)]"
  "rp_slug (page_log e p) = rp_slug p" "rp_state (page_log e p) = rp_state p" "rp_room (page_log e p) = rp_room p"
  "rp_unlocking (page_log e p) = rp_unlocking p" "rp_generation (page_log e p) = rp_generation p"
  "rp_browserIdentity (page_log e p) = rp_browserIdentity p" "rp_nextTask (page_log e p) = rp_nextTask p"
  "rp_tasks (page_log e p) = rp_tasks p"
  by (simp_all add: page_end_def page_start_def page_log_def)

lemma foreground_cong: "rp_generation p' = rp_generation p \<Longrightarrow> foreground p' = foreground p"
  by (simp add: foreground_def fun_eq_iff split: pageTask.split)

lemma page_tasks_end: "page_tasks_ok p \<Longrightarrow> page_tasks_ok (page_end i p)"
  by (auto simp: page_tasks_ok_def without_task_def distinct_map_filter)

lemma page_tasks_same:
  assumes "page_tasks_ok p" "rp_tasks p' = rp_tasks p" "rp_nextTask p' = rp_nextTask p" "rp_generation p' = rp_generation p" "rp_slug p' = rp_slug p"
  shows "page_tasks_ok p'"
  using assms by (simp add: page_tasks_ok_def)

lemma page_tasks_start:
  assumes "page_tasks_ok p" "numbered (rp_generation p) (rp_slug p) t"
  shows "page_tasks_ok (page_start t p)"
  using assms by (force simp: page_tasks_ok_def)

lemma page_tasks_next:
  "page_tasks_ok p \<Longrightarrow> page_tasks_ok (p\<lparr>rp_slug := slug, rp_generation := Suc (rp_generation p), rp_browserIdentity := b\<rparr>)"
proof -
  have "numbered n s t \<Longrightarrow> numbered (Suc n) s' t" for n s s' t by (cases t) auto
  then show "page_tasks_ok p \<Longrightarrow> page_tasks_ok (p\<lparr>rp_slug := slug, rp_generation := Suc (rp_generation p), rp_browserIdentity := b\<rparr>)"
    by (fastforce simp: page_tasks_ok_def)
qed

text \<open>Ending a task: the foreground is empty then, or the task was not in it.\<close>

lemma page_ended:
  assumes "page_tasks_ok p" "page_phase p" "map_of (rp_tasks p) i = Some t"
  shows "foreground p t \<and> pending_in (foreground p) (rp_tasks (page_end i p)) = [] \<and> page_task p t
    \<or> \<not> foreground p t \<and> pending_in (foreground p) (rp_tasks (page_end i p)) = pending_in (foreground p) (rp_tasks p)"
proof -
  have d: "distinct (map fst (rp_tasks p))" using assms(1) by (simp add: page_tasks_ok_def)
  show ?thesis
  proof (cases "foreground p t")
    case True
    then have "t \<in> set (pending_in (foreground p) (rp_tasks p))"
      using assms(3) by (auto simp: in_pending dest: map_of_SomeD)
    then obtain u where u: "pending_in (foreground p) (rp_tasks p) = [u]" "page_task p u"
      using assms(2) by (auto simp: page_phase_def)
    with end_only [OF d assms(3), of "foreground p"] True show ?thesis by fastforce
  next
    case False
    with end_other [OF d assms(3), of "foreground p"] show ?thesis by simp
  qed
qed

lemma no_unlock:
  assumes "page_phase p" "\<not> unlock_in_flight p"
  shows "\<not> rp_unlocking p"
proof -
  have "\<not> rp_unlocking p" if "pending_in (foreground p) (rp_tasks p) = [t]" "page_task p t" for t
  proof -
    have "t \<in> set (pending_in (foreground p) (rp_tasks p))" using that by simp
    with assms(2) that(2) show ?thesis by (cases t) (force simp: in_pending unlock_in_flight_def is_unlock_def list_ex_iff)+
  qed
  with assms(1) show ?thesis by (auto simp: page_phase_def)
qed

lemma page_effects_inv:
  assumes "page_tasks_ok p" "\<not> rp_unlocking p" "\<not> unlock_in_flight p"
  shows "page_inv given owner (page_effects (p\<lparr>rp_slug := slug\<rparr>))"
proof -
  define q where "q = p\<lparr>rp_slug := slug, rp_generation := Suc (rp_generation p), rp_browserIdentity := None\<rparr>"
  define q' where "q' = page_start (IdentityTask (rp_generation q) slug) q"
  have none: "\<not> foreground q t" if "(i, t) \<in> set (rp_tasks p)" for i t
    using assms(1,3) that by (cases t) (fastforce simp: page_tasks_ok_def unlock_in_flight_def is_unlock_def list_ex_iff q_def)+
  have q: "page_tasks_ok q" "pending_in (foreground q) (rp_tasks q) = []" "rp_slug q = slug" "\<not> rp_unlocking q" "rp_browserIdentity q = None"
    using assms none page_tasks_next [OF assms(1)] by (auto simp: q_def pending_in_def filter_empty_conv)
  have q': "page_tasks_ok q'" "pending_in (foreground q') (rp_tasks q') = []" "rp_slug q' = slug" "\<not> rp_unlocking q'"
    "rp_browserIdentity q' = None" "rp_generation q' = rp_generation q"
    using q foreground_cong [of q' q] by (simp_all add: q'_def page_tasks_start)
  have eq: "page_effects (p\<lparr>rp_slug := slug\<rparr>) = load_room q'"
    by (simp add: page_effects_def resolve_identity_def q'_def q_def)
  show ?thesis
  proof (cases "slug = []")
    case True
    define r where "r = q'\<lparr>rp_state := PageUnavailable\<rparr>"
    have "page_tasks_ok r" by (rule page_tasks_same [OF q'(1)]) (simp_all add: r_def)
    then show ?thesis
      using True q' foreground_cong [of r q'] unfolding eq
      by (simp add: load_room_def page_inv_def page_phase_def page_own_def r_def)
  next
    case False
    define r where "r = page_log (RoomRequest slug)
        (q'\<lparr>rp_room := None, rp_password := [], rp_passwordError := False, rp_state := PageLoading\<rparr>)"
    have "page_tasks_ok r" by (rule page_tasks_same [OF q'(1)]) (simp_all add: r_def)
    then have "page_tasks_ok (page_start (RoomFetch (rp_generation r) slug) r)" by (intro page_tasks_start) simp_all
    moreover have "foreground (page_start (RoomFetch (rp_generation r) slug) r) = foreground q'"
      by (rule foreground_cong) (simp add: r_def)
    moreover have "load_room q' = page_start (RoomFetch (rp_generation r) slug) r"
      using False q' by (simp add: load_room_def r_def)
    ultimately show ?thesis
      using q' unfolding eq by (simp add: page_inv_def page_phase_def page_own_def r_def)
  qed
qed

text \<open>An update that leaves the tasks alone.\<close>

lemma page_inv_same:
  assumes "page_inv given owner p" "rp_tasks p' = rp_tasks p" "rp_nextTask p' = rp_nextTask p" "rp_generation p' = rp_generation p"
    "rp_slug p' = rp_slug p" "rp_unlocking p' = rp_unlocking p" "rp_room p' = rp_room p" "rp_state p' = rp_state p"
    "rp_browserIdentity p' = rp_browserIdentity p"
  shows "page_inv given owner p'"
proof -
  have "foreground p' = foreground p" by (rule foreground_cong) (rule assms)
  moreover have "page_task p' t = page_task p t" for t using assms by (cases t) auto
  moreover have "page_tasks_ok p'" using assms by (auto simp: page_inv_def intro: page_tasks_same)
  ultimately show ?thesis using assms by (simp add: page_inv_def page_phase_def page_own_def)
qed

lemma page_idle_inv:
  assumes "page_tasks_ok q" "pending_in (foreground q) (rp_tasks q) = []" "rp_tasks p' = rp_tasks q"
    "rp_nextTask p' = rp_nextTask q" "rp_generation p' = rp_generation q" "rp_slug p' = rp_slug q"
    "\<not> rp_unlocking p'" "page_own given owner p'"
  shows "page_inv given owner p'"
proof -
  have "foreground p' = foreground q" by (rule foreground_cong) (rule assms)
  moreover have "page_tasks_ok p'" using assms by (auto intro: page_tasks_same)
  ultimately show ?thesis using assms by (simp add: page_inv_def page_phase_def)
qed

lemma page_ended_inv:
  assumes "page_inv given owner p" "map_of (rp_tasks p) i = Some t" "\<not> foreground p t"
  shows "page_inv given owner (page_end i p)"
proof -
  have "foreground (page_end i p) = foreground p" by (rule foreground_cong) simp
  moreover have "page_task (page_end i p) t = page_task p t" for t by (cases t) auto
  ultimately show ?thesis
    using assms page_ended [of p i t] page_tasks_end [of p i]
    by (simp add: page_inv_def page_phase_def page_own_def)
qed

lemma identity_step_inv:
  assumes inv: "page_inv given owner p" and task: "map_of (rp_tasks p) i = Some (IdentityTask g slug)" and own: "owner slug identity"
  shows "page_inv given owner (identity_resolved g identity (page_end i p))"
proof (cases "g = rp_generation p")
  case True
  define q where "q = page_end i p"
  have slug: "slug = rp_slug p"
    using inv task True by (auto simp: page_inv_def page_tasks_ok_def dest!: map_of_SomeD)
  have q: "page_inv given owner q" using page_ended_inv [OF inv task] by (simp add: q_def)
  define r where "r = q\<lparr>rp_browserIdentity := Some identity\<rparr>"
  have "foreground r = foreground q" by (rule foreground_cong) (simp add: r_def)
  moreover have "page_task r t = page_task q t" for t by (cases t) (auto simp: r_def)
  moreover have "page_tasks_ok r" using q by (auto simp: page_inv_def r_def intro: page_tasks_same)
  ultimately have "page_inv given owner r"
    using q own slug by (simp add: page_inv_def page_phase_def page_own_def r_def q_def)
  then show ?thesis using True by (simp add: identity_resolved_def r_def q_def)
next
  case False
  then show ?thesis using page_ended_inv [OF inv task] by (simp add: identity_resolved_def)
qed

lemma fetch_step_inv:
  assumes inv: "page_inv given owner p" and task: "map_of (rp_tasks p) i = Some (RoomFetch g slug)" and own: "given slug answer"
  shows "page_inv given owner (room_fetched g answer (page_end i p))"
proof (cases "g = rp_generation p")
  case True
  define q where "q = page_end i p"
  from page_ended [OF _ _ task] inv True
  have t: "pending_in (foreground q) (rp_tasks q) = []" "page_task p (RoomFetch g slug)"
    by (auto simp: page_inv_def q_def foreground_cong [of "page_end i p" p])
  have q: "page_tasks_ok q" "\<forall>b. rp_browserIdentity q = Some b \<longrightarrow> owner (rp_slug q) b"
    using inv page_tasks_end by (auto simp: page_inv_def page_own_def q_def)
  have "page_own given owner (room_fetched g answer q)" "\<not> rp_unlocking (room_fetched g answer q)"
    using own t q True by (auto simp: room_fetched_def page_own_def q_def split: sum.split apiFailure.split liveAPIErrorCode.split)
  moreover have "rp_tasks (room_fetched g answer q) = rp_tasks q" "rp_nextTask (room_fetched g answer q) = rp_nextTask q"
    "rp_generation (room_fetched g answer q) = rp_generation q" "rp_slug (room_fetched g answer q) = rp_slug q"
    by (auto simp: room_fetched_def split: sum.split apiFailure.split liveAPIErrorCode.split)
  ultimately have "page_inv given owner (room_fetched g answer q)"
    using page_idle_inv [OF q(1) t(1)] by blast
  then show ?thesis by (simp add: q_def)
next
  case False
  then show ?thesis using page_ended_inv [OF inv task] by (simp add: room_fetched_def)
qed

lemma unlock_done_frames:
  "rp_tasks (unlock_done renewing answer q) = rp_tasks q" "rp_nextTask (unlock_done renewing answer q) = rp_nextTask q"
  "rp_generation (unlock_done renewing answer q) = rp_generation q" "rp_slug (unlock_done renewing answer q) = rp_slug q"
  "\<not> rp_unlocking (unlock_done renewing answer q)" "rp_browserIdentity (unlock_done renewing answer q) = rp_browserIdentity q"
  by (auto simp: unlock_done_def unlock_failed_def Let_def split: sum.split apiFailure.split liveAPIErrorCode.split)

lemma unlock_done_room:
  "rp_room (unlock_done renewing answer q) =
    (case answer of Inr nextRoom \<Rightarrow> if renewing then rp_room q else Some nextRoom | Inl e \<Rightarrow> rp_room q)"
  by (auto simp: unlock_done_def unlock_failed_def Let_def split: sum.split apiFailure.split liveAPIErrorCode.split)

lemma unlock_step_inv:
  assumes inv: "page_inv given owner p" and task: "map_of (rp_tasks p) i = Some (UnlockTask slug pw renewing)"
    and own: "given slug answer"
  shows "page_inv given owner (unlock_done renewing answer (page_end i p))"
proof -
  define q where "q = page_end i p"
  from page_ended [OF _ _ task] inv
  have t: "pending_in (foreground q) (rp_tasks q) = []" "page_task p (UnlockTask slug pw renewing)"
    by (auto simp: page_inv_def q_def foreground_cong [of "page_end i p" p])
  have q: "page_tasks_ok q" "page_own given owner q" using inv page_tasks_end by (auto simp: page_inv_def page_own_def q_def)
  have "page_own given owner (unlock_done renewing answer q)"
    using own t(2) q(2) by (auto simp: page_own_def unlock_done_frames unlock_done_room q_def split: sum.split)
  with page_idle_inv [OF q(1) t(1)] unlock_done_frames show ?thesis unfolding q_def [symmetric] by blast
qed

lemma unlock_inv:
  assumes inv: "page_inv given owner p"
  shows "page_inv given owner (unlock p)"
proof (cases "rp_state p = PagePassword \<and> \<not> rp_unlocking p")
  case True
  define q where "q = page_log (UnlockRequest (rp_slug p) (rp_password p)) (p\<lparr>rp_unlocking := True, rp_passwordError := False\<rparr>)"
  define t where "t = UnlockTask (rp_slug p) (rp_password p) (rp_room p \<noteq> None)"
  have "\<not> page_task p t" if "pending_in (foreground p) (rp_tasks p) = [t]" for t
  proof -
    have "t \<in> set (pending_in (foreground p) (rp_tasks p))" using that by simp
    then have "foreground p t" by (simp only: in_pending)
    then show ?thesis using True by (cases t) simp_all
  qed
  then have none: "pending_in (foreground p) (rp_tasks p) = []"
    using inv by (auto simp: page_inv_def page_phase_def)
  have "page_tasks_ok q" using inv by (auto simp: page_inv_def q_def intro: page_tasks_same)
  then have "page_tasks_ok (page_start t q)" by (intro page_tasks_start) (simp_all add: t_def)
  moreover have "foreground (page_start t q) = foreground p" by (rule foreground_cong) (simp add: q_def)
  ultimately have "page_inv given owner (page_start t q)"
    using none inv True by (simp add: page_inv_def page_phase_def page_own_def q_def t_def)
  then show ?thesis using True by (simp add: unlock_def q_def t_def)
qed (use inv in \<open>auto simp: unlock_def\<close>)

lemma reauthenticate_inv:
  assumes inv: "page_inv given owner p"
  shows "page_inv given owner (onReauthenticate p)"
proof (cases "workspace_mounted p")
  case True
  define q where "q = p\<lparr>rp_password := [], rp_passwordError := False, rp_state := PagePassword\<rparr>"
  have mounted: "rp_state p = PageReady \<or> rp_state p = PagePassword" "rp_room p \<noteq> None"
    using True by (auto simp: workspace_mounted_def)
  have "page_tasks_ok q" using inv by (auto simp: page_inv_def q_def intro: page_tasks_same)
  moreover have "foreground q = foreground p" by (rule foreground_cong) (simp add: q_def)
  moreover have "page_task p t \<Longrightarrow> foreground p t \<Longrightarrow> page_task q t" for t
    using mounted by (cases t) (auto simp: q_def)
  moreover have "t \<in> set (pending_in (foreground p) (rp_tasks p)) \<Longrightarrow> foreground p t" for t by (simp add: in_pending)
  ultimately have "page_inv given owner q"
    using inv mounted by (force simp: page_inv_def page_phase_def page_own_def q_def)
  then show ?thesis using True by (simp add: onReauthenticate_def q_def)
qed (use inv in \<open>simp add: onReauthenticate_def\<close>)

lemma page_step_inv:
  assumes inv: "page_inv given owner p" and calm: "calm_page given owner p ev"
  shows "page_inv given owner (page_step ev p)"
proof (cases ev)
  case (GoTo slug)
  then show ?thesis
    using inv calm no_unlock [of p] page_effects_inv [of p] by (simp add: page_step_def calm_page_def page_inv_def)
next
  case (PasswordTyped pw)
  with inv show ?thesis by (auto simp: page_step_def intro: page_inv_same)
qed (insert inv calm, auto simp: page_step_def calm_page_def unlock_inv reauthenticate_inv
    intro!: identity_step_inv fetch_step_inv unlock_step_inv split: option.split pageTask.split)

lemma page_reach_inv: "page_reach given owner p \<Longrightarrow> page_inv given owner p"
proof (induction rule: page_reach.induct)
  case (page_mounted slug)
  define p0 where "p0 = \<lparr>rp_slug = slug, rp_generation = 0, rp_room = None, rp_state = PageLoading, rp_password = [],
      rp_passwordError = False, rp_unlocking = False, rp_reauthenticationGeneration = 0, rp_browserIdentity = None,
      rp_tasks = [], rp_nextTask = 0, rp_log = []\<rparr>"
  have "page_inv given owner (page_effects (p0\<lparr>rp_slug := slug\<rparr>))"
    by (rule page_effects_inv) (simp_all add: p0_def page_tasks_ok_def unlock_in_flight_def)
  then show ?case by (simp add: page_mount_def p0_def)
next
  case (page_stepped p ev)
  then show ?case by (intro page_step_inv)
qed

text \<open>
  The page shows the room of its slug: whatever the order of answers and clicks, as long as nobody
  navigates while a password is tried, the workspace is on the page only with a room the service gave
  for the current slug and the identity the browser resolved for that slug.
\<close>
theorem page_shows_its_room:
  assumes "page_reach given owner p" "workspace_mounted p"
  shows "\<exists>room identity. rp_room p = Some room \<and> given (rp_slug p) (Inr room)
    \<and> rp_browserIdentity p = Some identity \<and> owner (rp_slug p) identity"
  using page_reach_inv [OF assms(1)] assms(2)
  by (auto simp: page_inv_def page_own_def workspace_mounted_def)


section \<open>Runs of the page\<close>

definition page_run :: "pageEvent list \<Rightarrow> roomPage \<Rightarrow> roomPage" where
  "page_run evs p = fold page_step evs p"

definition demo_identity :: liveBrowserIdentity where
  "demo_identity = \<lparr>bi_credential = js ''c'', bi_nickname = None\<rparr>"

lemma page_reach_run:
  "page_reach given owner p \<Longrightarrow> (\<And>q ev. ev \<in> set evs \<Longrightarrow> calm_page given owner q ev) \<Longrightarrow> page_reach given owner (page_run evs p)"
proof (induction evs arbitrary: p)
  case (Cons ev evs)
  then have "page_reach given owner (page_step ev p)" by (intro page_stepped) auto
  from Cons.IH [OF this] Cons.prems(2) show ?case by (simp add: page_run_def)
qed (simp add: page_run_def)

lemmas page_run_defs = page_run_def page_step_def page_mount_def page_effects_def load_room_def resolve_identity_def
  page_start_def page_end_def page_log_def identity_resolved_def room_fetched_def unlock_def unlock_done_def
  onReauthenticate_def workspace_mounted_def

abbreviation demo_open :: roomPage where
  "demo_open \<equiv> page_run [IdentityAnswer 0 demo_identity, RoomAnswer 1 (Inr demo_snapshot)] (page_mount (js ''s''))"

abbreviation demo_renewal :: roomPage where
  "demo_renewal \<equiv> page_run [IdentityAnswer 0 demo_identity, RoomAnswer 1 (Inr demo_snapshot), Reauthenticate,
     PasswordTyped (js ''p''), UnlockSubmitted] (page_mount (js ''s''))"

lemma demo_page_reach:
  "page_reach (\<lambda>slug answer. True) (\<lambda>slug identity. True) demo_open"
  "page_reach (\<lambda>slug answer. True) (\<lambda>slug identity. True) demo_renewal"
  by (intro page_reach_run page_mounted; auto simp: calm_page_def)+

theorem page_shows_its_room_witness:
  "rp_room demo_open = Some demo_snapshot \<and> (\<exists>identity. rp_browserIdentity demo_open = Some identity)"
proof -
  have "workspace_mounted demo_open" "rp_room demo_open = Some demo_snapshot" by (simp_all add: page_run_defs)
  with page_shows_its_room [OF demo_page_reach(1)] show ?thesis by blast
qed


text \<open>
  A password tried for one room can open it under another: the unlock looks at no controller, so when
  the user goes to a second protected room before it is answered, the second room's password form
  disappears and the page of the second slug shows the first room, with the second slug's identity.
\<close>
theorem late_unlock_shows_other_room:
  assumes "page_tasks_ok p" "map_of (rp_tasks p) i = Some (UnlockTask old pw False)" "slug \<noteq> []"
  shows "let p' = page_run [GoTo slug, RoomAnswer (Suc (rp_nextTask p)) (Inl (APIError 401 PasswordRequired m r)),
        IdentityAnswer (rp_nextTask p) identity, UnlockAnswer i (Inr room)] p
    in rp_slug p' = slug \<and> workspace_mounted p' \<and> rp_state p' = PageReady \<and> rp_room p' = Some room
      \<and> rp_browserIdentity p' = Some identity"
proof -
  define n where "n = rp_nextTask p"
  define ts where "ts = rp_tasks p"
  have ids: "map_of ts i = Some (UnlockTask old pw False)" "\<forall>j\<in>fst ` set ts. j < n"
    using assms(1,2) by (auto simp: page_tasks_ok_def n_def ts_def)
  then have "map_of ts n = None" "map_of ts (Suc n) = None" by (auto simp: map_of_eq_None_iff)
  moreover from this ids(1) have "i \<noteq> n" "i \<noteq> Suc n" by auto
  moreover have "without_task j ts = ts" if "map_of ts j = None" for j
    using that by (intro without_absent) (simp add: map_of_eq_None_iff)
  ultimately show ?thesis
    using assms(3) ids(1) unfolding Let_def
    by (simp add: page_run_defs map_add_def n_def [symmetric] ts_def [symmetric])
qed

theorem late_unlock_shows_other_room_witness:
  "let p = page_run [RoomAnswer 1 (Inl (APIError 401 PasswordRequired [] None)), PasswordTyped (js ''p''), UnlockSubmitted]
        (page_mount (js ''s''));
      p' = page_run [GoTo (js ''t''), RoomAnswer 4 (Inl (APIError 401 PasswordRequired [] None)),
        IdentityAnswer 3 demo_identity, UnlockAnswer 2 (Inr demo_snapshot)] p
    in rp_slug p' = js ''t'' \<and> workspace_mounted p' \<and> rp_room p' = Some demo_snapshot"
proof -
  let ?p = "page_run [RoomAnswer 1 (Inl (APIError 401 PasswordRequired [] None)), PasswordTyped (js ''p''), UnlockSubmitted]
        (page_mount (js ''s''))"
  have "page_tasks_ok ?p" "map_of (rp_tasks ?p) 2 = Some (UnlockTask (js ''s'') (js ''p'') False)" "rp_nextTask ?p = 3"
    by (simp_all add: page_run_defs page_tasks_ok_def)
  with late_unlock_shows_other_room [of ?p 2 _ _ "js ''t''" "[]" None demo_identity demo_snapshot] show ?thesis
    by (simp add: Let_def numeral_eq_Suc)
qed

end
