(* ===== verification/Live_Views.thy ===== *)
theory Live_Views
  imports Editor_Markup Live_Page Live_Room_UI
begin

text \<open>
  What the pages of live rooms render (the markup of \<open>LiveCreateState\<close> and \<open>LiveRoomPage\<close> in
  \<open>web/src/live-page.tsx\<close>), as functions of the states of \<open>Live_Page\<close>. The workspace of a room is an
  argument here. \<open>LoadingAnnouncement\<close>, \<open>CenteredState\<close> and \<open>LockIcon\<close> of that file are those
  of \<open>Markup\<close>. Main facts: the form offers exactly the operations whose guards hold; nothing of a room
  can be seen or used while its password is asked for.
\<close>

section \<open>The form that creates a room\<close>

definition EyeIcon :: "bool \<Rightarrow> 'e node" where
  "EyeIcon revealed = svg ''0 0 20 20''
     ([shape ''path'' [attr ''d'' ''M2.5 10s2.8-4.5 7.5-4.5 7.5 4.5 7.5 4.5-2.8 4.5-7.5 4.5S2.5 10 2.5 10Z''],
       shape ''circle'' [attr ''cx'' ''10'', attr ''cy'' ''10'', attr ''r'' ''2'']]
      @ optional (\<not> revealed) [shape ''path'' [attr ''d'' ''m4 4 12 12'']])"

definition ConfirmIcon :: "'e node" where
  "ConfirmIcon = svg ''0 0 20 20'' [shape ''path'' [attr ''d'' ''m4 10 4 4 8-9'']]"

lemma live_icons [simp]: "inert (EyeIcon revealed)" "inert ConfirmIcon"
  by (simp_all add: EyeIcon_def ConfirmIcon_def svg_def shape_def optional_def)

datatype liveControl = LiveForm liveCreateEvent | LiveLanguage languageMenuEvent

definition limits_known :: "liveCreate \<Rightarrow> bool" where
  "limits_known f \<longleftrightarrow> lf_limits f \<noteq> None \<or> lf_limitsUnavailable f"

text \<open>\<open>Boolean(error)\<close>.\<close>

definition error_shown :: "jsstring option \<Rightarrow> bool" where
  "error_shown e = (case e of None \<Rightarrow> False | Some m \<Rightarrow> m \<noteq> [])"

definition live_metadata :: "jsstring \<Rightarrow> liveCreate \<Rightarrow> languageMenu \<Rightarrow> liveControl node" where
  "live_metadata menuID f m =
     Element ''div'' [attr ''className'' ''metadata-bar live-metadata-bar''] []
      [Element ''label'' [attr ''className'' ''title-field live-tab-name-field''] []
        [Element ''span'' [attr ''className'' ''sr-only''] [] [Txt (js ''Tab name'')],
         Element ''input''
          [(''value'', Str (if lf_usesDefaultName f then [] else ld_name (lf_draft f))), attr ''placeholder'' ''Untitled tab'',
           (''aria-invalid'', Flag (error_shown (lv_name (lf_errors f))))]
          [(''onChange'', WithText (\<lambda>name. LiveForm (TabNameTyped name)))] []],
       embed LiveLanguage (LanguageMenu menuID (ld_language (lf_draft f)) False m)]"

text \<open>The controls of the password, which slide away and are disabled unless one is required.\<close>

definition password_title :: "liveCreate \<Rightarrow> string" where
  "password_title f = (if lf_showPassword f then ''Hide password'' else ''Show password'')"

definition password_reveal :: "liveCreate \<Rightarrow> liveControl node" where
  "password_reveal f =
     Element ''div''
       [attr ''className'' ''live-password-reveal'', (''data-open'', Flag (lf_requirePassword f)),
        (''aria-hidden'', Flag (\<not> lf_requirePassword f))] []
      [Element ''div'' [attr ''className'' ''live-password-control''] []
        [Element ''label'' [attr ''className'' ''sr-only'', attr ''htmlFor'' ''live-create-password''] [] [Txt (js ''Password'')],
         Element ''input''
          [attr ''id'' ''live-create-password'', attr ''type'' (if lf_showPassword f then ''text'' else ''password''),
           attr ''placeholder'' ''Password'', (''value'', Str (lf_password f)), (''disabled'', Flag (\<not> lf_requirePassword f)),
           (''aria-invalid'', Flag (error_shown (lv_password (lf_errors f))))]
          [(''onChange'', WithText (\<lambda>password. LiveForm (RoomPasswordTyped password))),
           (''onKeyDown'', Run (LiveForm PasswordConfirmed))] [],
         Element ''button''
          [attr ''type'' ''button'', (''disabled'', Flag (\<not> lf_requirePassword f)), attr ''aria-label'' (password_title f),
           (''aria-pressed'', Flag (lf_showPassword f)), attr ''title'' (password_title f)]
          [(''onClick'', Run (LiveForm PasswordShownToggled))] [EyeIcon (lf_showPassword f)],
         Element ''button''
          [attr ''type'' ''button'', (''disabled'', Flag (\<not> lf_requirePassword f)), attr ''aria-label'' ''Set password'',
           attr ''title'' ''Set password'']
          [(''onClick'', Run (LiveForm PasswordConfirmed))] [ConfirmIcon]]]"

definition room_byte_count :: "liveCreate \<Rightarrow> jsstring" where
  "room_byte_count f =
     (if limits_known f
      then page_formatBytes (utf8Bytes (ld_content (lf_draft f))) @ js '' / '' @ page_formatBytes (nat (lc_maxBytes (effectiveLimits f)))
      else js ''Loading room limits'' @ [0x2026])"

definition live_toolbar :: "liveCreate \<Rightarrow> liveControl node" where
  "live_toolbar f =
     Element ''footer'' [attr ''className'' ''creation-toolbar live-creation-toolbar''] []
      [Element ''div'' [attr ''className'' ''toolbar-spacer''] [] [],
       Element ''span''
        [attr ''className'' (if int (utf8Bytes (ld_content (lf_draft f))) > lc_maxBytes (effectiveLimits f)
                             then ''byte-count over-limit'' else ''byte-count'')] []
        [Txt (room_byte_count f)],
       password_reveal f,
       Element ''label'' [attr ''className'' ''encrypt-toggle live-password-toggle'', attr ''title'' ''Require password''] []
        [Element ''input'' [attr ''type'' ''checkbox'', (''checked'', Flag (lf_requirePassword f))]
          [(''onChange'', WithFlag (\<lambda>required. LiveForm (PasswordRequiredToggled required)))] [],
         LockIcon,
         Element ''span'' [attr ''className'' ''sr-only''] [] [Txt (js ''Require password'')]],
       Element ''button''
        [attr ''className'' ''primary-action'', attr ''type'' ''submit'',
         (''disabled'', Flag (lf_submitting f \<or> \<not> limits_known f))] []
        [Txt (if lf_submitting f then js ''Creating'' @ [0x2026] else js ''Create'')]]"

definition LiveCreateState :: "jsstring \<Rightarrow> bool \<Rightarrow> liveCreate \<Rightarrow> languageMenu \<Rightarrow> liveControl node" where
  "LiveCreateState menuID mounted f m =
     Element ''form'' [attr ''className'' ''create-canvas live-create-canvas'', attr ''aria-labelledby'' ''live-create-heading'']
       [(''onSubmit'', Run (LiveForm FormSubmitted))]
      [Element ''h1'' [attr ''className'' ''sr-only'', attr ''id'' ''live-create-heading''] [] [Txt (js ''Create LiveBin room'')],
       live_metadata menuID f m,
       CodeEditor (ld_content (lf_draft f)) (js ''Live room content'') mounted (\<lambda>content. LiveForm (TabContentTyped content))
         (LiveForm EditorModEnter),
       live_toolbar f]"

section \<open>What the form offers\<close>

lemma LanguageMenu_submits_not: "submit_buttons (LanguageMenu menuID value' disabled m) = []"
proof -
  have "submit_buttons (language_option value' disabled item) = []" for item
    by (cases item) (simp add: language_option_def optional_def editor_icons markup_attributes)
  then show ?thesis by (simp add: LanguageMenu_def optional_def editor_icons markup_attributes)
qed

lemma live_metadata_offers: "offers [live_metadata menuID f m] (LiveForm e) \<longleftrightarrow> (\<exists>name. e = TabNameTyped name)"
proof -
  have "\<not> offers [embed LiveLanguage (LanguageMenu menuID v d m)] (LiveForm e)" for v d
    using offers_embed [of LiveLanguage "[LanguageMenu menuID v d m]" "LiveForm e"] by simp
  then show ?thesis by (auto simp: offers_single live_metadata_def markup_attributes)
qed

lemma live_toolbar_offers: "offers [live_toolbar f] (LiveForm e) \<longleftrightarrow> (\<exists>b. e = PasswordRequiredToggled b)
    \<or> lf_requirePassword f \<and> ((\<exists>password. e = RoomPasswordTyped password) \<or> e = PasswordShownToggled \<or> e = PasswordConfirmed)"
  by (auto simp: offers_single live_toolbar_def password_reveal_def markup_attributes)

lemma live_form_submits: "concat (map submit_buttons [live_metadata menuID f m, CodeEditor v l mounted g e, live_toolbar f])
    = [\<not> lf_submitting f \<and> limits_known f]"
  by (simp add: live_metadata_def live_toolbar_def password_reveal_def CodeEditor_def optional_def LanguageMenu_submits_not markup_attributes)

lemma LiveCreateState_listeners: "listeners (LiveCreateState menuID mounted f m) =
    optional (\<not> lf_submitting f \<and> limits_known f) [(''onSubmit'', Run (LiveForm FormSubmitted))]
    @ concat (map listeners [live_metadata menuID f m, CodeEditor (ld_content (lf_draft f)) (js ''Live room content'') mounted
        (\<lambda>content. LiveForm (TabContentTyped content)) (LiveForm EditorModEnter), live_toolbar f])"
proof -
  have "concat (map submit_buttons (Element ''h1'' as [] [Txt t] # ns)) = concat (map submit_buttons ns)" for as t and ns :: "liveControl node list"
    by simp
  then show ?thesis
    using live_form_submits [of menuID f m "ld_content (lf_draft f)" "js ''Live room content''" mounted
        "\<lambda>content. LiveForm (TabContentTyped content)" "LiveForm EditorModEnter"]
    by (simp add: LiveCreateState_def optional_def attribute_set_def)
qed

text \<open>
  The form that creates a room offers exactly the operations whose guards hold: the password can be typed, shown
  and confirmed only while one is required, and the form is submitted only when no room is being created
  and the limits of the service are known or known to be unavailable; every other event of a user it
  offers always. What it does not offer would do nothing, or is an answer of the service.
\<close>
theorem live_form_controls:
  "(offers [LiveCreateState menuID mounted f m] (LiveForm e) \<longleftrightarrow> (case e of
      LimitsAnswer answer \<Rightarrow> False | RoomSubmissionEnds outcome \<Rightarrow> False | TabLanguageChosen language \<Rightarrow> False
    | RoomPasswordTyped password \<Rightarrow> lf_requirePassword f | PasswordShownToggled \<Rightarrow> lf_requirePassword f
    | PasswordConfirmed \<Rightarrow> lf_requirePassword f
    | FormSubmitted \<Rightarrow> \<not> lf_submitting f \<and> (lf_limits f \<noteq> None \<or> lf_limitsUnavailable f)
    | _ \<Rightarrow> True))
    \<and> (offers [LiveCreateState menuID mounted f m] (LiveForm e) \<or> liveCreate_step e f = f
        \<or> (\<exists>answer outcome language. e = LimitsAnswer answer \<or> e = RoomSubmissionEnds outcome \<or> e = TabLanguageChosen language))"
proof -
  have offered: "offers [LiveCreateState menuID mounted f m] (LiveForm e) \<longleftrightarrow>
      e = FormSubmitted \<and> \<not> lf_submitting f \<and> limits_known f
      \<or> offers [live_metadata menuID f m] (LiveForm e) \<or> (\<exists>content. e = TabContentTyped content) \<or> e = EditorModEnter
      \<or> offers [live_toolbar f] (LiveForm e)"
  proof -
    have "offers [LiveCreateState menuID mounted f m] (LiveForm e) \<longleftrightarrow>
        e = FormSubmitted \<and> \<not> lf_submitting f \<and> limits_known f
        \<or> offers [live_metadata menuID f m] (LiveForm e)
        \<or> offers [CodeEditor (ld_content (lf_draft f)) (js ''Live room content'') mounted
            (\<lambda>content. LiveForm (TabContentTyped content)) (LiveForm EditorModEnter)] (LiveForm e)
        \<or> offers [live_toolbar f] (LiveForm e)"
      unfolding offers_single LiveCreateState_listeners by (auto simp: optional_def)
    then show ?thesis by (auto simp: CodeEditor_offers)
  qed
  show ?thesis
    unfolding offered live_metadata_offers live_toolbar_offers limits_known_def
    by (cases e) (auto simp: liveCreate_step_def)
qed

section \<open>The page of a room\<close>

text \<open>An event of the page, the retry of the copy, which is the shell's, or an event of the workspace.\<close>

datatype 'e roomControl = PageControl pageEvent | RoomLinkRetried | InRoom 'e

definition password_gate :: "roomPage \<Rightarrow> 'e roomControl node" where
  "password_gate p =
     Element ''main'' [attr ''className'' ''key-gate live-password-gate''] []
      [Element ''form'' [attr ''className'' ''live-password-form''] [(''onSubmit'', Run (PageControl UnlockSubmitted))]
        ([Element ''label'' [attr ''htmlFor'' ''live-room-password''] [] [Txt (js ''Room password'')],
          Element ''div'' [attr ''className'' ''key-entry-form''] []
           [Element ''input''
             [attr ''id'' ''live-room-password'', attr ''type'' ''password'', (''autoFocus'', Flag True),
              (''aria-invalid'', Flag (rp_passwordError p)), (''value'', Str (rp_password p))]
             [(''onChange'', WithText (\<lambda>password. PageControl (PasswordTyped password)))] [],
            Element ''button'' [attr ''type'' ''submit'', (''disabled'', Flag (rp_unlocking p))] [] [Txt (js ''Unlock'')]]]
         @ optional (rp_passwordError p) [Element ''p'' [attr ''role'' ''alert''] [] [Txt (js ''Password not accepted.'')]])]"

definition room_link_retry :: "bool \<Rightarrow> jsstring option \<Rightarrow> 'e roomControl node list" where
  "room_link_retry copyFailed shareURL =
     optional (copyFailed \<and> (case shareURL of Some url \<Rightarrow> url \<noteq> [] | None \<Rightarrow> False))
      [Element ''button'' [attr ''className'' ''copy-link-retry'', attr ''type'' ''button''] [(''onClick'', Run RoomLinkRetried)]
        [Txt (dashed ''LiveBin room created '' '' copy link'')]]"

definition LiveRoomPage :: "bool \<Rightarrow> jsstring option \<Rightarrow> 'e node list \<Rightarrow> roomPage \<Rightarrow> 'e roomControl node list" where
  "LiveRoomPage copyFailed shareURL workspace p = (case rp_state p of
     PageLoading \<Rightarrow> [LoadingAnnouncement (js ''Loading live room'' @ [0x2026])]
   | PageUnavailable \<Rightarrow>
       [CenteredState (js ''Live room unavailable'') (Some (js ''It may have expired, been deleted, or never existed.'')) [] True]
   | PageExpired \<Rightarrow> [CenteredState (js ''Live room expired'') (Some (js ''This room is no longer available.'')) [] True]
   | PageError \<Rightarrow> [CenteredState (js ''Service unavailable'') (Some (js ''Try again in a moment.'')) [] False]
   | _ \<Rightarrow>
       (let locked = (rp_state p = PagePassword); gate = optional locked [password_gate p]
        in if rp_room p = None then gate
           else if rp_browserIdentity p = None then [LoadingAnnouncement (js ''Loading live identity'' @ [0x2026])]
           else Element ''div'' [(''hidden'', Flag locked)] [] (map (embed InRoom) workspace)
             # gate @ (if locked then [] else room_link_retry copyFailed shareURL)))"

lemma password_gate_facts:
  "landmarks (password_gate p) = 1" "shown_documents (password_gate p) = []"
  "offers [password_gate p] e \<longleftrightarrow> e = PageControl UnlockSubmitted \<and> \<not> rp_unlocking p \<or> (\<exists>pw. e = PageControl (PasswordTyped pw))"
  by (auto simp: password_gate_def offers_single optional_def markup_attributes)

lemma announcement_facts:
  "landmarks (LoadingAnnouncement label) = 1" "shown_documents (LoadingAnnouncement label) = []" "\<not> offers [LoadingAnnouncement label] e"
  "landmarks (CenteredState label (Some detail) [] b) = 1" "shown_documents (CenteredState label (Some detail) [] b) = []"
  "\<not> offers [CenteredState label (Some detail) [] b] e"
  by (simp_all add: offers_single LoadingAnnouncement_def CenteredState_def optional_def markup_attributes)

lemma room_link_retry_facts:
  "sum_list (map landmarks (room_link_retry copyFailed shareURL)) = 0"
  "concat (map shown_documents (room_link_retry copyFailed shareURL)) = []"
  "offers (room_link_retry copyFailed shareURL) e \<Longrightarrow> e = RoomLinkRetried"
  by (auto simp: room_link_retry_def offers_optional offers_single markup_attributes optional_def split: if_splits)

lemma hidden_div:
  "landmarks (Element ''div'' [(''hidden'', Flag b)] [] ns) = (if b then 0 else sum_list (map landmarks ns))"
  "shown_documents (Element ''div'' [(''hidden'', Flag b)] [] ns) = (if b then [] else concat (map shown_documents ns))"
  "offers (Element ''div'' [(''hidden'', Flag b)] [] ns # ms) e \<longleftrightarrow> \<not> b \<and> offers ns e \<or> offers ms e"
  by (auto simp: offers_def markup_attributes)

lemma ready_has_room:
  assumes "page_reach given owner p" "rp_state p = PageReady"
  shows "rp_room p \<noteq> None"
  using assms
proof (induction rule: page_reach.induct)
  case (page_mounted slug)
  then show ?case by (simp add: page_run_defs split: if_splits)
next
  case (page_stepped p ev)
  have inv: "page_tasks_ok p" "page_phase p" using page_reach_inv [OF page_stepped(1)] by (simp_all add: page_inv_def)
  have renewing: "rp_room p \<noteq> None" if "map_of (rp_tasks p) i = Some (UnlockTask slug pw True)" for i slug pw
    using page_ended [OF inv that] by auto
  show ?case
  proof (cases ev)
    case (UnlockAnswer i answer)
    with page_stepped renewing show ?thesis
      by (auto simp: page_step_def unlock_done_def unlock_failed_def page_log_def Let_def
          split: option.splits pageTask.splits sum.splits apiFailure.splits liveAPIErrorCode.splits if_splits)
  next
    case (GoTo slug)
    with page_stepped show ?thesis by (auto simp: page_run_defs split: if_splits)
  next
    case (RoomAnswer i answer)
    with page_stepped show ?thesis
      by (auto simp: page_step_def room_fetched_def
          split: option.splits pageTask.splits sum.splits apiFailure.splits liveAPIErrorCode.splits if_splits)
  qed (use page_stepped in \<open>auto simp: page_step_def identity_resolved_def unlock_def onReauthenticate_def page_start_def page_log_def
      split: option.splits pageTask.splits if_splits\<close>)
qed


abbreviation demo_locked :: roomPage where
  "demo_locked \<equiv> page_run [IdentityAnswer 0 demo_identity, RoomAnswer 1 (Inr demo_snapshot), Reauthenticate] (page_mount (js ''s''))"


section \<open>The pages are labelled\<close>

lemma live_toolbar_facts [simp]:
  "ids (live_toolbar f) = [js ''live-create-password'']" "references (live_toolbar f) = [js ''live-create-password'']"
  "label_targets (live_toolbar f) = [js ''live-create-password'']"
  "js ''live-create-password'' \<in> L \<Longrightarrow> named L b (live_toolbar f)" "hidden_inert False (live_toolbar f)"
proof -
  have title: "js (password_title f) \<noteq> []" by (simp add: password_title_def)
  note defs = live_toolbar_def password_reveal_def markup_attributes is_control_def is_field_def
  show "ids (live_toolbar f) = [js ''live-create-password'']" "references (live_toolbar f) = [js ''live-create-password'']"
    "label_targets (live_toolbar f) = [js ''live-create-password'']"
    by (simp_all add: defs)
  show "js ''live-create-password'' \<in> L \<Longrightarrow> named L b (live_toolbar f)" using title by (simp add: defs)
  show "hidden_inert False (live_toolbar f)" by (simp add: defs Let_def)
qed

lemma live_metadata_facts:
  assumes "ld_language (lf_draft f) \<noteq> []" "menuID \<noteq> []"
  shows "ids (live_metadata menuID f m) = (if lm_open m then [menuID] else [])"
    "references (live_metadata menuID f m) = (if lm_open m then [menuID] else [])"
    "label_targets (live_metadata menuID f m) = []"
    "named L b (live_metadata menuID f m)" "hidden_inert False (live_metadata menuID f m)"
  by (simp_all add: live_metadata_def LanguageMenu_facts assms markup_attributes is_control_def is_field_def)

lemma accessible_Nil [simp]: "accessible []"
  by (simp add: accessible_def)

text \<open>
  The form and the page of a room are complete for those who cannot see them, if the workspace is; the
  password controls that have slid away cannot be operated.
\<close>
theorem live_pages_accessible:
  fixes workspace :: "'e node list"
  assumes "menuID \<noteq> []" "menuID \<notin> {js ''live-create-heading'', js ''live-create-password''}" "ld_language (lf_draft f) \<noteq> []"
    and "accessible workspace" "js ''live-room-password'' \<notin> set (concat (map ids workspace))"
  shows "accessible [LiveCreateState menuID mounted f m] \<and> accessible (LiveRoomPage copyFailed shareURL workspace p)"
proof
  have editor: "self_contained (CodeEditor value' (js ''Live room content'') mounted g e)" for value' g and e :: liveControl
    by (rule CodeEditor_contained) simp
  show "accessible [LiveCreateState menuID mounted f m]"
    using editor assms(1,2) live_metadata_facts [OF assms(3,1)]
    by (auto simp: accessible_def LiveCreateState_def self_contained_def markup_attributes is_control_def)
  have wider: "named L b n \<Longrightarrow> L \<subseteq> M \<Longrightarrow> named M b n" for L M b and n :: "'a node"
    by (induction n arbitrary: b) (auto split: if_splits)
  have gate: "ids (password_gate p :: 'e roomControl node) = [js ''live-room-password'']" "references (password_gate p :: 'e roomControl node) = [js ''live-room-password'']"
    "label_targets (password_gate p :: 'e roomControl node) = [js ''live-room-password'']" "js ''live-room-password'' \<in> L \<Longrightarrow> named L b (password_gate p :: 'e roomControl node)"
    "hidden_inert False (password_gate p :: 'e roomControl node)" for L b
    by (simp_all add: password_gate_def optional_def markup_attributes is_control_def is_field_def Let_def)
  have retry: "self_contained n" if "n \<in> set (room_link_retry copyFailed shareURL)" for n :: "'e roomControl node"
    using that by (auto simp: room_link_retry_def set_optional self_contained_def dashed_def markup_attributes is_control_def is_field_def)
  have inside: "accessible [Element ''div'' [(''hidden'', Flag b)] [] (map (embed InRoom) workspace)]" for b
    using assms(4) by (simp add: accessible_def comp_def markup_attributes is_control_def)
  have open_page: "accessible (Element ''div'' [(''hidden'', Flag False)] [] (map (embed InRoom) workspace) # room_link_retry copyFailed shareURL)"
    using accessible_around [OF inside, of "[]" "room_link_retry copyFailed shareURL" False] retry by simp
  have "set (concat (map label_targets workspace)) \<subseteq> insert (js ''live-room-password'') (set (concat (map label_targets workspace)))"
    by blast
  with assms(4) have workspace_named: "\<forall>n\<in>set workspace. named (insert (js ''live-room-password'') (set (concat (map label_targets workspace)))) False n"
    unfolding accessible_def by (blast intro: wider)
  have locked_page: "accessible [Element ''div'' [(''hidden'', Flag True)] [] (map (embed InRoom) workspace), password_gate p]"
    using assms(4,5) gate workspace_named
    by (simp add: accessible_def comp_def markup_attributes is_control_def subset_insertI2)
  have messages: "accessible [LoadingAnnouncement label :: 'e roomControl node]"
    "accessible [CenteredState label (Some detail) [] b :: 'e roomControl node]" for label detail b
    by (simp_all add: accessible_def LoadingAnnouncement_def CenteredState_def optional_def markup_attributes is_control_def)
  have gate_alone: "accessible [password_gate p :: 'e roomControl node]" using gate by (simp add: accessible_def)
  show "accessible (LiveRoomPage copyFailed shareURL workspace p)"
    using open_page locked_page messages gate_alone
    by (cases "rp_state p"; cases "rp_room p"; cases "rp_browserIdentity p") (simp_all add: LiveRoomPage_def Let_def)
qed

end
