(* ===== verification/Live_Tab_Drag.thy ===== *)
theory Live_Tab_Drag
  imports Live_Room
begin

text \<open>
  Dragging tabs in the strip of a room (\<open>beginTabPointerDrag\<close>, \<open>moveTabPointerDrag\<close> and
  \<open>finishTabPointerDrag\<close> of \<open>web/src/live-room.tsx\<close>). Coordinates are rational numbers. What the
  browser answers during an event (the rectangles of the tabs and of the strip, the gap between tabs, how
  far the strip can scroll) are its arguments; the strip is on the page, as it carries the handlers.
\<close>

section \<open>State\<close>

text \<open>A tab in the coordinates of the strip's content.\<close>

record tabRect =
  tr_id :: jsstring
  tr_left :: rat
  tr_width :: rat

record tabPointer =
  tp_pointerID :: int
  tp_sourceID :: jsstring
  tp_startX :: rat
  tp_startY :: rat
  tp_startScrollLeft :: rat
  tp_dragging :: bool
  tp_targetID :: jsstring
  tp_placement :: liveTabDropPlacement
  tp_layout :: "tabRect list"
  tp_gap :: rat

record tabDrag =
  td_sourceID :: jsstring
  td_targetID :: jsstring
  td_placement :: liveTabDropPlacement

text \<open>\<open>ts_transforms\<close> are the horizontal translations set on the tabs.\<close>

record tabStrip =
  ts_pointer :: "tabPointer option"
  ts_drag :: "tabDrag option"
  ts_transforms :: "(jsstring, rat) jsmap"
  ts_scrollLeft :: rat
  ts_suppressClick :: bool

definition tabStrip_new :: tabStrip where
  "tabStrip_new = \<lparr>ts_pointer = None, ts_drag = None, ts_transforms = [], ts_scrollLeft = 0, ts_suppressClick = False\<rparr>"

record stripGeometry =
  sg_tabs :: "tabRect list"
  sg_left :: rat
  sg_right :: rat
  sg_gap :: rat
  sg_maxScroll :: rat

section \<open>Operations\<close>

text \<open>\<open>blocked\<close>: the workspace is split, its structure is disabled, a tab is renamed, or a control was hit.\<close>

definition beginTabPointerDrag :: "bool \<Rightarrow> int \<Rightarrow> int \<Rightarrow> rat \<Rightarrow> rat \<Rightarrow> jsstring \<Rightarrow> tabStrip \<Rightarrow> tabStrip" where
  "beginTabPointerDrag blocked button pointerId clientX clientY documentID s =
     (if blocked \<or> button \<noteq> 0 then s
      else s\<lparr>ts_pointer := Some \<lparr>tp_pointerID = pointerId, tp_sourceID = documentID, tp_startX = clientX,
        tp_startY = clientY, tp_startScrollLeft = ts_scrollLeft s, tp_dragging = False, tp_targetID = documentID,
        tp_placement = DropAfter, tp_layout = [], tp_gap = 0\<rparr>\<rparr>)"

definition near_tab_start :: "tabPointer \<Rightarrow> rat \<Rightarrow> rat \<Rightarrow> bool" where
  "near_tab_start pointer clientX clientY \<longleftrightarrow>
     (clientX - tp_startX pointer)\<^sup>2 + (clientY - tp_startY pointer)\<^sup>2 < 6\<^sup>2"

definition start_dragging :: "stripGeometry \<Rightarrow> tabPointer \<Rightarrow> tabPointer" where
  "start_dragging g pointer =
     (if tp_dragging pointer then pointer
      else pointer\<lparr>tp_dragging := True, tp_layout := sg_tabs g, tp_gap := sg_gap g\<rparr>)"

text \<open>Near an edge the strip scrolls by 14 pixels, within what the browser allows.\<close>

definition autoscroll :: "stripGeometry \<Rightarrow> rat \<Rightarrow> rat \<Rightarrow> rat" where
  "autoscroll g clientX scrollLeft =
     (if clientX < sg_left g + 32 then max 0 (scrollLeft - 14)
      else if clientX > sg_right g - 32 then min (sg_maxScroll g) (scrollLeft + 14)
      else scrollLeft)"

text \<open>The loop over the other tabs: before the first one whose middle is right of the pointer, else after the last.\<close>

fun drop_target :: "rat \<Rightarrow> jsstring \<times> liveTabDropPlacement \<Rightarrow> tabRect list \<Rightarrow> jsstring \<times> liveTabDropPlacement" where
  "drop_target x found [] = found"
| "drop_target x found (t # ts) =
     (if x < tr_left t + tr_width t / 2 then (tr_id t, DropBefore) else drop_target x (tr_id t, DropAfter) ts)"

definition layoutByID :: "tabRect list \<Rightarrow> jsstring \<Rightarrow> tabRect option" where
  "layoutByID layout = map_get (map_new (map (\<lambda>item. (tr_id item, item)) layout))"

text \<open>The loop over the previewed order; the tab that is dragged keeps its own translation.\<close>

fun preview_transforms ::
  "(jsstring \<Rightarrow> tabRect option) \<Rightarrow> jsstring set \<Rightarrow> jsstring \<Rightarrow> rat \<Rightarrow> rat \<Rightarrow> jsstring list \<Rightarrow> (jsstring, rat) jsmap \<Rightarrow> (jsstring, rat) jsmap" where
  "preview_transforms items shells source gap nextLeft [] tr = tr"
| "preview_transforms items shells source gap nextLeft (i # order) tr =
     (case items i of
        None \<Rightarrow> preview_transforms items shells source gap nextLeft order tr
      | Some item \<Rightarrow>
          let offset = nextLeft - tr_left item;
              tr = (if i = source \<or> i \<notin> shells then tr
                    else if \<bar>offset\<bar> < 1 / 2 then AList.delete i tr
                    else AList.update i offset tr)
          in preview_transforms items shells source gap (nextLeft + (tr_width item + gap)) order tr)"

definition moveTabPointerDrag :: "int \<Rightarrow> rat \<Rightarrow> rat \<Rightarrow> stripGeometry \<Rightarrow> tabStrip \<Rightarrow> tabStrip" where
  "moveTabPointerDrag pointerId clientX clientY g s = (case ts_pointer s of
     None \<Rightarrow> s
   | Some pointer \<Rightarrow>
       if tp_pointerID pointer \<noteq> pointerId then s
       else if \<not> tp_dragging pointer \<and> near_tab_start pointer clientX clientY then s
       else
         let pointer = start_dragging g pointer;
             scrollLeft = autoscroll g clientX (ts_scrollLeft s);
             source = tp_sourceID pointer;
             shells = set (map tr_id (sg_tabs g));
             tr = (if source \<in> shells
                   then AList.update source (clientX - tp_startX pointer + (scrollLeft - tp_startScrollLeft pointer)) (ts_transforms s)
                   else ts_transforms s);
             pointerContentX = clientX - sg_left g + scrollLeft;
             layout = tp_layout pointer;
             (targetID, placement) = drop_target pointerContentX (source, DropAfter) (filter (\<lambda>item. tr_id item \<noteq> source) layout);
             previewOrder = reorderLiveTabIDs (map tr_id layout) source targetID placement;
             tr = preview_transforms (layoutByID layout) shells source (tp_gap pointer)
                    (case layout of item # items \<Rightarrow> tr_left item | [] \<Rightarrow> 0) previewOrder tr
         in s\<lparr>ts_pointer := Some (pointer\<lparr>tp_targetID := targetID, tp_placement := placement\<rparr>),
              ts_drag := Some \<lparr>td_sourceID = source, td_targetID = targetID, td_placement = placement\<rparr>,
              ts_transforms := tr, ts_scrollLeft := scrollLeft\<rparr>)"

text \<open>
  The end of a drag, with the order that is committed, if any; \<open>documents\<close> are the identifiers of
  the room's documents at that moment.
\<close>

definition finish_drag :: "int \<Rightarrow> bool \<Rightarrow> jsstring list \<Rightarrow> tabStrip \<Rightarrow> tabStrip \<times> jsstring list option" where
  "finish_drag pointerId commit documents s = (case ts_pointer s of
     None \<Rightarrow> (s, None)
   | Some pointer \<Rightarrow>
       if tp_pointerID pointer \<noteq> pointerId then (s, None)
       else
         let s = s\<lparr>ts_transforms := [], ts_pointer := None, ts_drag := None\<rparr>
         in if \<not> tp_dragging pointer then (s, None)
            else
              (s\<lparr>ts_suppressClick := True\<rparr>,
               if commit
               then Some (reorderLiveTabIDs documents (tp_sourceID pointer) (tp_targetID pointer) (tp_placement pointer))
               else None))"

definition finishTabPointerDrag ::
  "('st, 'cs, 'd) roomEnv \<Rightarrow> int \<Rightarrow> bool \<Rightarrow> tabStrip \<times> 'st workspace \<Rightarrow> tabStrip \<times> 'st workspace" where
  "finishTabPointerDrag env pointerId commit sw =
     (let (s, w) = sw; (s', order) = finish_drag pointerId commit (map doc_id (ws_documents w)) s
      in (s', case order of Some order \<Rightarrow> commitTabOrder env order w | None \<Rightarrow> w))"

definition suppress_ends :: "tabStrip \<Rightarrow> tabStrip" where
  "suppress_ends s = s\<lparr>ts_suppressClick := False\<rparr>"

text \<open>The document shown as the active one.\<close>

definition shown_active :: "'st workspace \<Rightarrow> liveRoomDocument option" where
  "shown_active w = (case find_document (ws_active w) w of
     Some document \<Rightarrow> Some document
   | None \<Rightarrow> (case ws_documents w of document # documents \<Rightarrow> Some document | [] \<Rightarrow> None))"

text \<open>The click on a tab that follows the release of the pointer.\<close>

definition tabClick :: "('st, 'cs, 'd) roomEnv \<Rightarrow> bool \<Rightarrow> jsstring \<Rightarrow> tabStrip \<Rightarrow> 'st workspace \<Rightarrow> 'st workspace" where
  "tabClick env structuralDisabled documentID s w =
     (if ts_suppressClick s then w
      else if map_option doc_id (shown_active w) = Some documentID \<and> \<not> structuralDisabled then renameDocument w
      else selectDocument env documentID w)"

definition handleTabKeyDown ::
  "('st, 'cs, 'd) roomEnv \<Rightarrow> bool \<Rightarrow> bool \<Rightarrow> bool \<Rightarrow> jsstring \<Rightarrow> jsstring \<Rightarrow> 'st workspace \<Rightarrow> 'st workspace" where
  "handleTabKeyDown env structuralDisabled altKey shiftKey key documentID w =
     (if \<not> altKey \<or> \<not> shiftKey \<or> structuralDisabled then w
      else if key \<noteq> js ''ArrowLeft'' \<and> key \<noteq> js ''ArrowRight'' then w
      else moveDocument env documentID (if key = js ''ArrowLeft'' then - 1 else 1) w)"

section \<open>Where a tab lands\<close>

definition tab_centre :: "tabRect \<Rightarrow> rat" where
  "tab_centre t = tr_left t + tr_width t / 2"

text \<open>The specification: the tab goes before the first other tab whose middle is right of the pointer.\<close>

definition insert_tab :: "rat \<Rightarrow> jsstring \<Rightarrow> tabRect list \<Rightarrow> jsstring list" where
  "insert_tab x source layout =
     (let others = filter (\<lambda>t. tr_id t \<noteq> source) layout
      in map tr_id (takeWhile (\<lambda>t. tab_centre t \<le> x) others) @ source # map tr_id (dropWhile (\<lambda>t. tab_centre t \<le> x) others))"

lemma drop_target_split:
  "drop_target x found ts = (case dropWhile (\<lambda>t. tab_centre t \<le> x) ts of
     t # us \<Rightarrow> (tr_id t, DropBefore)
   | [] \<Rightarrow> if ts = [] then found else (tr_id (last ts), DropAfter))"
proof (induction ts arbitrary: found)
  case (Cons t ts)
  then show ?case
    by (cases "dropWhile (\<lambda>t. tab_centre t \<le> x) ts") (simp_all add: tab_centre_def not_less del: dropWhile_eq_Nil_conv)
qed simp

lemma index_of_middle: "x \<notin> set xs \<Longrightarrow> index_of x (xs @ x # ys) = Some (length xs)"
  by (induction xs) auto

lemma reorder_in_two_parts:
  assumes "distinct ids" "source \<in> set ids" "filter (\<lambda>d. d \<noteq> source) ids = xs @ ys"
  shows "xs \<noteq> [] \<Longrightarrow> reorderLiveTabIDs ids source (last xs) DropAfter = xs @ source # ys"
    and "ys \<noteq> [] \<Longrightarrow> reorderLiveTabIDs ids source (hd ys) DropBefore = xs @ source # ys"
proof -
  have parts: "distinct (xs @ ys)" "source \<notin> set (xs @ ys)" "set (xs @ ys) \<subseteq> set ids"
    using assms(1) by (simp_all flip: assms(3))
  show "reorderLiveTabIDs ids source (last xs) DropAfter = xs @ source # ys" if "xs \<noteq> []"
  proof -
    from that obtain us u where xs: "xs = us @ [u]" by (metis rev_exhaust)
    have "index_of u (us @ u # ys) = Some (length us)" using parts xs by (intro index_of_middle) auto
    then show ?thesis using parts assms(2) xs
      by (auto simp: reorderLiveTabIDs_def assms(3) splice_in_def Let_def)
  qed
  show "reorderLiveTabIDs ids source (hd ys) DropBefore = xs @ source # ys" if "ys \<noteq> []"
  proof -
    from that obtain v vs where ys: "ys = v # vs" by (cases ys) auto
    have "index_of v (xs @ v # vs) = Some (length xs)" using parts ys by (intro index_of_middle) auto
    then show ?thesis using parts assms(2) ys
      by (auto simp: reorderLiveTabIDs_def assms(3) splice_in_def Let_def)
  qed
qed

lemma only_element: "distinct xs \<Longrightarrow> x \<in> set xs \<Longrightarrow> \<forall>y\<in>set xs. y = x \<Longrightarrow> xs = [x]"
  by (cases xs) (auto intro!: filter_False dest: distinct_filter elim: list.set_cases, metis list.set_intros(1) neq_Nil_conv)

lemma drop_target_inserts:
  assumes "distinct (map tr_id layout)" "source \<in> set (map tr_id layout)"
    and "drop_target x (source, DropAfter) (filter (\<lambda>item. tr_id item \<noteq> source) layout) = (targetID, placement)"
  shows "reorderLiveTabIDs (map tr_id layout) source targetID placement = insert_tab x source layout"
proof -
  define others where "others = filter (\<lambda>item. tr_id item \<noteq> source) layout"
  define xs where "xs = takeWhile (\<lambda>t. tab_centre t \<le> x) others"
  define ys where "ys = dropWhile (\<lambda>t. tab_centre t \<le> x) others"
  have split: "others = xs @ ys" by (simp add: xs_def ys_def)
  have ids: "filter (\<lambda>d. d \<noteq> source) (map tr_id layout) = map tr_id xs @ map tr_id ys"
    by (simp add: filter_map o_def others_def [symmetric] split flip: map_append)
  note parts = reorder_in_two_parts [OF assms(1,2) ids]
  have goal: "insert_tab x source layout = map tr_id xs @ source # map tr_id ys"
    by (simp add: insert_tab_def others_def xs_def ys_def Let_def)
  show ?thesis
  proof (cases ys)
    case (Cons t us)
    then have "(targetID, placement) = (tr_id t, DropBefore)"
      using assms(3) by (simp add: drop_target_split ys_def others_def)
    with Cons parts(2) goal show ?thesis by simp
  next
    case Nil
    show ?thesis
    proof (cases "others = []")
      case True
      then have "targetID = source" using assms(3) by (simp add: others_def)
      moreover have "\<forall>d\<in>set (map tr_id layout). d = source" using True by (auto simp: others_def filter_empty_conv)
      then have "map tr_id layout = [source]" using assms(1,2)
        by (intro only_element) auto
      ultimately show ?thesis using True goal Nil split by (simp add: reorderLiveTabIDs_def)
    next
      case False
      have "others = xs" using Nil split by simp
      have "drop_target x (source, DropAfter) others = (tr_id (last others), DropAfter)"
        unfolding drop_target_split ys_def [symmetric] using False Nil by simp
      then have "(targetID, placement) = (tr_id (last xs), DropAfter)" "xs \<noteq> []"
        using assms(3) False \<open>others = xs\<close> by (simp_all add: others_def)
      with parts(1) goal Nil show ?thesis by (simp add: last_map)
    qed
  qed
qed

section \<open>A drag from press to release\<close>

type_synonym tabMove = "rat \<times> rat \<times> stripGeometry"

definition tab_moves :: "int \<Rightarrow> tabMove list \<Rightarrow> tabStrip \<Rightarrow> tabStrip" where
  "tab_moves pointerId moves s = fold (\<lambda>(x, y, g). moveTabPointerDrag pointerId x y g) moves s"

text \<open>The moves from the first one that is far enough from the start.\<close>

definition dragging_moves :: "rat \<Rightarrow> rat \<Rightarrow> tabMove list \<Rightarrow> tabMove list" where
  "dragging_moves startX startY moves = dropWhile (\<lambda>(x, y, g). (x - startX)\<^sup>2 + (y - startY)\<^sup>2 < 6\<^sup>2) moves"

text \<open>The pointer as the code must have it after the moves: what was measured by the first of them, and the target of the last.\<close>

definition pointer_after :: "tabPointer \<Rightarrow> tabMove list \<Rightarrow> rat \<Rightarrow> tabPointer \<Rightarrow> bool" where
  "pointer_after start far scrollLeft pointer \<longleftrightarrow>
     tp_pointerID pointer = tp_pointerID start \<and> tp_sourceID pointer = tp_sourceID start
     \<and> tp_startX pointer = tp_startX start \<and> tp_startY pointer = tp_startY start
     \<and> (far = [] \<longrightarrow> pointer = start)
     \<and> (far \<noteq> [] \<longrightarrow> tp_dragging pointer \<and> tp_layout pointer = sg_tabs (snd (snd (hd far))) \<and> tp_gap pointer = sg_gap (snd (snd (hd far)))
         \<and> (let (x, y, g) = last far
            in drop_target (x - sg_left g + scrollLeft) (tp_sourceID start, DropAfter)
                 (filter (\<lambda>item. tr_id item \<noteq> tp_sourceID start) (tp_layout pointer)) = (tp_targetID pointer, tp_placement pointer)))"

lemma tab_moves_snoc: "tab_moves i (moves @ [(x, y, g)]) s = moveTabPointerDrag i x y g (tab_moves i moves s)"
  by (simp add: tab_moves_def)

lemma dragging_snoc:
  "dragging_moves a b (moves @ [m]) =
     (if dragging_moves a b moves = [] then dragging_moves a b [m] else dragging_moves a b moves @ [m])"
  by (induction moves) (auto simp: dragging_moves_def)

lemma moved_pointer:
  assumes "ts_pointer s = Some pointer" "tp_pointerID pointer = i" "tp_dragging pointer \<or> \<not> near_tab_start pointer x y"
  shows "\<exists>pointer'. ts_pointer (moveTabPointerDrag i x y g s) = Some pointer'
    \<and> tp_pointerID pointer' = i \<and> tp_sourceID pointer' = tp_sourceID pointer
    \<and> tp_startX pointer' = tp_startX pointer \<and> tp_startY pointer' = tp_startY pointer \<and> tp_dragging pointer'
    \<and> tp_layout pointer' = tp_layout (start_dragging g pointer) \<and> tp_gap pointer' = tp_gap (start_dragging g pointer)
    \<and> drop_target (x - sg_left g + ts_scrollLeft (moveTabPointerDrag i x y g s)) (tp_sourceID pointer, DropAfter)
        (filter (\<lambda>item. tr_id item \<noteq> tp_sourceID pointer) (tp_layout pointer')) = (tp_targetID pointer', tp_placement pointer')
    \<and> ts_suppressClick (moveTabPointerDrag i x y g s) = ts_suppressClick s"
proof -
  have same: "tp_sourceID (start_dragging g pointer) = tp_sourceID pointer"
    "tp_pointerID (start_dragging g pointer) = tp_pointerID pointer" "tp_startX (start_dragging g pointer) = tp_startX pointer"
    "tp_startY (start_dragging g pointer) = tp_startY pointer" "tp_dragging (start_dragging g pointer)"
    by (simp_all add: start_dragging_def)
  obtain target placement where found: "drop_target (x - sg_left g + autoscroll g x (ts_scrollLeft s)) (tp_sourceID pointer, DropAfter)
      (filter (\<lambda>item. tr_id item \<noteq> tp_sourceID pointer) (tp_layout (start_dragging g pointer))) = (target, placement)"
    by (cases "drop_target (x - sg_left g + autoscroll g x (ts_scrollLeft s)) (tp_sourceID pointer, DropAfter)
      (filter (\<lambda>item. tr_id item \<noteq> tp_sourceID pointer) (tp_layout (start_dragging g pointer)))")
  show ?thesis
    using assms found by (auto simp: moveTabPointerDrag_def Let_def same)
qed

lemma pointer_after_moves:
  assumes "ts_pointer s = Some start" "\<not> tp_dragging start"
  shows "\<exists>pointer. ts_pointer (tab_moves (tp_pointerID start) moves s) = Some pointer
    \<and> pointer_after start (dragging_moves (tp_startX start) (tp_startY start) moves)
        (ts_scrollLeft (tab_moves (tp_pointerID start) moves s)) pointer
    \<and> ts_suppressClick (tab_moves (tp_pointerID start) moves s) = ts_suppressClick s"
proof (induction moves rule: rev_induct)
  case Nil
  then show ?case using assms by (simp add: tab_moves_def dragging_moves_def pointer_after_def)
next
  case (snoc m moves)
  obtain x y g where m: "m = (x, y, g)" by (cases m)
  define r where "r = tab_moves (tp_pointerID start) moves s"
  define far where "far = dragging_moves (tp_startX start) (tp_startY start) moves"
  from snoc.IH obtain pointer where pointer: "ts_pointer r = Some pointer"
    and after: "pointer_after start far (ts_scrollLeft r) pointer" and click: "ts_suppressClick r = ts_suppressClick s"
    by (auto simp: r_def far_def)
  have run: "tab_moves (tp_pointerID start) (moves @ [m]) s = moveTabPointerDrag (tp_pointerID start) x y g r"
    by (simp add: m tab_moves_snoc r_def)
  have id: "tp_pointerID pointer = tp_pointerID start" using after by (simp add: pointer_after_def)
  have first: "far = [] \<Longrightarrow> pointer = start" "far \<noteq> [] \<Longrightarrow> tp_dragging pointer" using after by (auto simp: pointer_after_def)
  have far': "dragging_moves (tp_startX start) (tp_startY start) (moves @ [m]) =
      (if far = [] then if near_tab_start start x y then [] else [m] else far @ [m])"
    unfolding dragging_snoc far_def by (simp add: dragging_moves_def m near_tab_start_def)
  show ?case
  proof (cases "far = [] \<and> near_tab_start start x y")
    case True
    then have "moveTabPointerDrag (tp_pointerID start) x y g r = r"
      using pointer first(1) assms(2) by (simp add: moveTabPointerDrag_def)
    then show ?thesis using True pointer after click unfolding run far' by simp
  next
    case False
    then have "tp_dragging pointer \<or> \<not> near_tab_start pointer x y" using first by auto
    from moved_pointer [OF pointer id this, of g] obtain pointer' where
      "ts_pointer (moveTabPointerDrag (tp_pointerID start) x y g r) = Some pointer'"
      "tp_pointerID pointer' = tp_pointerID start" "tp_sourceID pointer' = tp_sourceID pointer"
      "tp_startX pointer' = tp_startX pointer" "tp_startY pointer' = tp_startY pointer" "tp_dragging pointer'"
      "tp_layout pointer' = tp_layout (start_dragging g pointer)" "tp_gap pointer' = tp_gap (start_dragging g pointer)"
      "drop_target (x - sg_left g + ts_scrollLeft (moveTabPointerDrag (tp_pointerID start) x y g r)) (tp_sourceID pointer, DropAfter)
        (filter (\<lambda>item. tr_id item \<noteq> tp_sourceID pointer) (tp_layout pointer')) = (tp_targetID pointer', tp_placement pointer')"
      "ts_suppressClick (moveTabPointerDrag (tp_pointerID start) x y g r) = ts_suppressClick r"
      by blast
    moreover have "tp_layout (start_dragging g pointer) = sg_tabs (snd (snd (hd (far @ [m]))))
        \<and> tp_gap (start_dragging g pointer) = sg_gap (snd (snd (hd (far @ [m]))))"
      using after first assms(2) m by (cases "far = []") (auto simp: pointer_after_def start_dragging_def)
    ultimately show ?thesis using False after click unfolding run far'
      by (auto simp: pointer_after_def m)
  qed
qed

text \<open>
  C37. A tab lands where it was let go: whatever path the pointer takes and however the strip scrolls
  meanwhile, releasing it commits the order in which the tab stands before the first other tab whose
  middle is right of the pointer, in the tabs as they were measured when the drag began; the click that
  follows is suppressed. A press that never moves six pixels commits nothing and stays a click, and a
  cancelled drag commits nothing.
\<close>
theorem tab_lands_under_pointer:
  assumes "s' = tab_moves i moves (beginTabPointerDrag False 0 i x y source s)" "far = dragging_moves x y moves"
  shows "(far = [] \<longrightarrow> snd (finish_drag i True documents s') = None \<and> ts_suppressClick (fst (finish_drag i True documents s')) = ts_suppressClick s)
    \<and> (far \<noteq> [] \<longrightarrow> ts_suppressClick (fst (finish_drag i True documents s'))
        \<and> (let layout = sg_tabs (snd (snd (hd far))); (X, Y, g) = last far
            in documents = map tr_id layout \<and> distinct documents \<and> source \<in> set documents \<longrightarrow>
               snd (finish_drag i True documents s') = Some (insert_tab (X - sg_left g + ts_scrollLeft s') source layout)))
    \<and> snd (finish_drag i False documents s') = None
    \<and> ts_pointer (fst (finish_drag i commit documents s')) = None \<and> ts_transforms (fst (finish_drag i commit documents s')) = []"
proof -
  define start where "start = \<lparr>tp_pointerID = i, tp_sourceID = source, tp_startX = x, tp_startY = y,
    tp_startScrollLeft = ts_scrollLeft s, tp_dragging = False, tp_targetID = source, tp_placement = DropAfter, tp_layout = [], tp_gap = 0\<rparr>"
  have start: "tp_pointerID start = i" "tp_sourceID start = source" "tp_startX start = x" "tp_startY start = y" "\<not> tp_dragging start"
    by (simp_all add: start_def)
  have "ts_pointer (beginTabPointerDrag False 0 i x y source s) = Some start"
    "ts_suppressClick (beginTabPointerDrag False 0 i x y source s) = ts_suppressClick s"
    by (simp_all add: beginTabPointerDrag_def start_def)
  from pointer_after_moves [OF this(1) start(5), of moves] this(2) obtain pointer where p: "ts_pointer s' = Some pointer"
    and after: "pointer_after start far (ts_scrollLeft s') pointer" and click: "ts_suppressClick s' = ts_suppressClick s"
    by (auto simp: start assms)
  have ids: "tp_pointerID pointer = i" "tp_sourceID pointer = source" using after start by (simp_all add: pointer_after_def)
  have ended: "finish_drag i c documents s' = (let t = s'\<lparr>ts_transforms := [], ts_pointer := None, ts_drag := None\<rparr>
      in if \<not> tp_dragging pointer then (t, None)
         else (t\<lparr>ts_suppressClick := True\<rparr>, if c then Some (reorderLiveTabIDs documents source (tp_targetID pointer) (tp_placement pointer)) else None))" for c
    using p ids by (simp add: finish_drag_def Let_def)
  have still: "\<not> tp_dragging pointer" if "far = []" using after that start by (simp add: pointer_after_def)
  have moved: "tp_dragging pointer" if "far \<noteq> []" using after that by (simp add: pointer_after_def)
  have order: "reorderLiveTabIDs documents source (tp_targetID pointer) (tp_placement pointer) = insert_tab (X - sg_left g + ts_scrollLeft s') source layout"
    if "far \<noteq> []" "last far = (X, Y, g)" "layout = sg_tabs (snd (snd (hd far)))" "documents = map tr_id layout" "distinct documents" "source \<in> set documents"
    for X Y g layout
    using after that start(2) by (auto simp: pointer_after_def intro!: drop_target_inserts)
  show ?thesis
    unfolding ended using still moved order click by (auto simp: Let_def)
qed

definition demo_strip :: stripGeometry where
  "demo_strip = \<lparr>sg_tabs = [\<lparr>tr_id = js ''a'', tr_left = 0, tr_width = 100\<rparr>, \<lparr>tr_id = js ''b'', tr_left = 104, tr_width = 60\<rparr>,
     \<lparr>tr_id = js ''c'', tr_left = 168, tr_width = 80\<rparr>], sg_left = 20, sg_right = 400, sg_gap = 4, sg_maxScroll = 0\<rparr>"

theorem tab_lands_under_pointer_witness:
  "snd (finish_drag 1 True [js ''a'', js ''b'', js ''c'']
     (tab_moves 1 [(72, 30, demo_strip), (180, 30, demo_strip)] (beginTabPointerDrag False 0 1 70 30 (js ''a'') tabStrip_new)))
   = Some [js ''b'', js ''a'', js ''c'']"
proof -
  define s' where "s' = tab_moves 1 [(72, 30, demo_strip), (180, 30, demo_strip)] (beginTabPointerDrag False 0 1 70 30 (js ''a'') tabStrip_new)"
  have far: "dragging_moves 70 30 [(72, 30, demo_strip), (180, 30, demo_strip)] = [(180, 30, demo_strip)]"
    by (simp add: dragging_moves_def)
  have "ts_scrollLeft s' = 0"
    by (simp add: s'_def tab_moves_def beginTabPointerDrag_def tabStrip_new_def moveTabPointerDrag_def near_tab_start_def
        autoscroll_def demo_strip_def split_def Let_def)
  moreover have "insert_tab 160 (js ''a'') (sg_tabs demo_strip) = [js ''b'', js ''a'', js ''c'']"
    by (simp add: insert_tab_def demo_strip_def tab_centre_def Let_def)
  moreover have "map tr_id (sg_tabs demo_strip) = [js ''a'', js ''b'', js ''c'']" "tr_id ` set (sg_tabs demo_strip) = {js ''a'', js ''b'', js ''c''}"
    by (simp_all add: demo_strip_def)
  moreover have "sg_left demo_strip = 20" by (simp add: demo_strip_def)
  ultimately show ?thesis
    using tab_lands_under_pointer [OF s'_def far [symmetric], of "[js ''a'', js ''b'', js ''c'']"]
    by (simp add: s'_def [symmetric] Let_def)
qed

section \<open>The preview\<close>

text \<open>Where a tab stands when the tabs are laid out one after another in an order.\<close>

fun place_of :: "(jsstring \<Rightarrow> tabRect option) \<Rightarrow> rat \<Rightarrow> rat \<Rightarrow> jsstring list \<Rightarrow> jsstring \<Rightarrow> rat" where
  "place_of items gap left [] i = left"
| "place_of items gap left (j # order) i = (case items j of
     None \<Rightarrow> place_of items gap left order i
   | Some item \<Rightarrow> if j = i then left else place_of items gap (left + (tr_width item + gap)) order i)"

lemma preview_get:
  assumes "distinct order"
  shows "map_get (preview_transforms items shells source gap left order tr) i =
    (case items i of
       Some item \<Rightarrow> if i \<in> set order \<and> i \<noteq> source \<and> i \<in> shells
         then (let offset = place_of items gap left order i - tr_left item in if \<bar>offset\<bar> < 1 / 2 then None else Some offset)
         else map_get tr i
     | None \<Rightarrow> map_get tr i)"
  using assms
proof (induction items shells source gap left order tr rule: preview_transforms.induct)
  case (2 items shells source gap left j order tr)
  show ?case
  proof (cases "items j")
    case None
    with 2 show ?thesis by (cases "i = j") (auto split: option.split)
  next
    case (Some item)
    with 2 show ?thesis
      by (cases "i = j") (auto simp: Let_def update_conv' delete_conv' split: option.split)
  qed
qed (simp split: option.split)

lemma dragged_strip:
  assumes "ts_pointer s = Some pointer" "tp_pointerID pointer = i" "tp_dragging pointer \<or> \<not> near_tab_start pointer x y"
    and "drop_target (x - sg_left g + autoscroll g x (ts_scrollLeft s)) (tp_sourceID pointer, DropAfter)
      (filter (\<lambda>item. tr_id item \<noteq> tp_sourceID pointer) (tp_layout (start_dragging g pointer))) = (target, placement)"
    and "order = reorderLiveTabIDs (map tr_id (tp_layout (start_dragging g pointer))) (tp_sourceID pointer) target placement"
  shows "ts_pointer (moveTabPointerDrag i x y g s) = Some ((start_dragging g pointer)\<lparr>tp_targetID := target, tp_placement := placement\<rparr>)"
    and "\<exists>tr. ts_transforms (moveTabPointerDrag i x y g s) = preview_transforms (layoutByID (tp_layout (start_dragging g pointer)))
      (tr_id ` set (sg_tabs g)) (tp_sourceID pointer) (tp_gap (start_dragging g pointer))
      (case tp_layout (start_dragging g pointer) of item # items \<Rightarrow> tr_left item | [] \<Rightarrow> 0) order tr"
proof -
  have same: "tp_sourceID (start_dragging g pointer) = tp_sourceID pointer" by (simp add: start_dragging_def)
  show "ts_pointer (moveTabPointerDrag i x y g s) = Some ((start_dragging g pointer)\<lparr>tp_targetID := target, tp_placement := placement\<rparr>)"
    using assms by (auto simp: moveTabPointerDrag_def Let_def same)
  show "\<exists>tr. ts_transforms (moveTabPointerDrag i x y g s) = preview_transforms (layoutByID (tp_layout (start_dragging g pointer)))
      (tr_id ` set (sg_tabs g)) (tp_sourceID pointer) (tp_gap (start_dragging g pointer))
      (case tp_layout (start_dragging g pointer) of item # items \<Rightarrow> tr_left item | [] \<Rightarrow> 0) order tr"
    using assms by (auto simp: moveTabPointerDrag_def Let_def same)
qed

lemma layoutByID_item:
  assumes "distinct (map tr_id layout)" "item \<in> set layout"
  shows "layoutByID layout (tr_id item) = Some item"
proof -
  have "distinct (map fst (map (\<lambda>item. (tr_id item, item)) layout))" using assms(1) by (simp add: o_def)
  then show ?thesis unfolding layoutByID_def
    using assms(2) by (subst map_get_map_new_distinct) (auto intro: map_of_is_SomeI)
qed

lemma reordered_tabs:
  assumes "distinct ids" "source \<in> set ids"
  shows "distinct (reorderLiveTabIDs ids source target placement)" "set (reorderLiveTabIDs ids source target placement) = set ids"
  using assms by (auto simp: reorderLiveTabIDs_def Let_def split: option.split)

text \<open>
  C38. What a drag shows is what it does: after every move that drags, each other tab is drawn within half
  a pixel of the place it will have when the tabs stand one after another in the order that a release
  at that moment commits.
\<close>
theorem tabs_preview_final_places:
  assumes "ts_pointer s = Some pointer" "tp_pointerID pointer = i" "tp_dragging pointer \<or> \<not> near_tab_start pointer x y"
    and "s' = moveTabPointerDrag i x y g s" "layout = tp_layout (start_dragging g pointer)" "distinct (map tr_id layout)"
    and "item \<in> set layout" "tr_id item \<noteq> tp_sourceID pointer" "tr_id item \<in> tr_id ` set (sg_tabs g)" "tp_sourceID pointer \<in> tr_id ` set layout"
    and "snd (finish_drag i True (map tr_id layout) s') = Some order"
  shows "\<bar>tr_left item + (case map_get (ts_transforms s') (tr_id item) of Some offset \<Rightarrow> offset | None \<Rightarrow> 0)
      - place_of (layoutByID layout) (tp_gap (start_dragging g pointer)) (tr_left (hd layout)) order (tr_id item)\<bar> < 1 / 2"
proof -
  define source where "source = tp_sourceID pointer"
  obtain target placement where found: "drop_target (x - sg_left g + autoscroll g x (ts_scrollLeft s)) (tp_sourceID pointer, DropAfter)
      (filter (\<lambda>item. tr_id item \<noteq> tp_sourceID pointer) (tp_layout (start_dragging g pointer))) = (target, placement)"
    by fastforce
  note strip = dragged_strip [OF assms(1-3) found refl]
  have ids: "tp_pointerID (start_dragging g pointer) = i" "tp_sourceID (start_dragging g pointer) = source" "tp_dragging (start_dragging g pointer)"
    using assms(2) by (simp_all add: start_dragging_def source_def)
  have order: "order = reorderLiveTabIDs (map tr_id layout) source target placement"
    using assms(11) strip(1) ids by (simp add: finish_drag_def assms(4) Let_def)
  then have "distinct order" "tr_id item \<in> set order"
    using reordered_tabs [OF assms(6), of source] assms(7,10) by (auto simp: source_def)
  moreover obtain tr where "ts_transforms s' = preview_transforms (layoutByID layout) (tr_id ` set (sg_tabs g)) source
      (tp_gap (start_dragging g pointer)) (tr_left (hd layout)) order tr"
    using strip(2) assms(7) by (auto simp: assms(4) assms(5) [symmetric] source_def order neq_Nil_conv split: list.splits)
  ultimately show ?thesis
    using assms(8,9) layoutByID_item [OF assms(6,7)] by (auto simp: preview_get source_def Let_def abs_minus_commute)
qed

theorem tabs_preview_final_places_witness:
  "let s' = moveTabPointerDrag 1 180 30 demo_strip (beginTabPointerDrag False 0 1 70 30 (js ''a'') tabStrip_new)
   in map_get (ts_transforms s') (js ''b'') = Some (- 104)
     \<and> \<bar>104 + - 104 - place_of (layoutByID (sg_tabs demo_strip)) 4 0 [js ''b'', js ''a'', js ''c''] (js ''b'')\<bar> < 1 / 2"
proof -
  define s where "s = beginTabPointerDrag False 0 1 70 30 (js ''a'') tabStrip_new"
  define s' where "s' = moveTabPointerDrag 1 180 30 demo_strip s"
  define pointer where "pointer = \<lparr>tp_pointerID = 1, tp_sourceID = js ''a'', tp_startX = 70, tp_startY = 30,
    tp_startScrollLeft = 0, tp_dragging = False, tp_targetID = js ''a'', tp_placement = DropAfter, tp_layout = [], tp_gap = 0\<rparr>"
  have p: "ts_pointer s = Some pointer" by (simp add: s_def beginTabPointerDrag_def tabStrip_new_def pointer_def)
  have far: "\<not> near_tab_start pointer 180 30" by (simp add: near_tab_start_def pointer_def)
  have moved: "s' = s\<lparr>ts_pointer := Some (pointer\<lparr>tp_dragging := True, tp_layout := sg_tabs demo_strip, tp_gap := 4, tp_targetID := js ''c'', tp_placement := DropBefore\<rparr>),
      ts_drag := Some \<lparr>td_sourceID = js ''a'', td_targetID = js ''c'', td_placement = DropBefore\<rparr>,
      ts_transforms := [(js ''a'', 110), (js ''b'', - 104)], ts_scrollLeft := 0\<rparr>"
    by (simp add: s'_def s_def beginTabPointerDrag_def tabStrip_new_def moveTabPointerDrag_def near_tab_start_def start_dragging_def
        autoscroll_def demo_strip_def pointer_def reorderLiveTabIDs_def splice_in_def layoutByID_def map_new_def Let_def)
  have committed: "snd (finish_drag 1 True (map tr_id (sg_tabs demo_strip)) s') = Some [js ''b'', js ''a'', js ''c'']"
    by (simp add: moved finish_drag_def pointer_def demo_strip_def reorderLiveTabIDs_def splice_in_def Let_def)
  have "start_dragging demo_strip pointer = pointer\<lparr>tp_dragging := True, tp_layout := sg_tabs demo_strip, tp_gap := 4\<rparr>"
    by (simp add: start_dragging_def pointer_def demo_strip_def)
  then have parts: "tp_layout (start_dragging demo_strip pointer) = sg_tabs demo_strip" "tp_gap (start_dragging demo_strip pointer) = 4"
    by simp_all
  have id: "tp_pointerID pointer = 1" "tp_sourceID pointer = js ''a''" by (simp_all add: pointer_def)
  have tabs: "distinct (map tr_id (sg_tabs demo_strip))" "\<lparr>tr_id = js ''b'', tr_left = 104, tr_width = 60\<rparr> \<in> set (sg_tabs demo_strip)"
    "tr_id ` set (sg_tabs demo_strip) = {js ''a'', js ''b'', js ''c''}" "tr_left (hd (sg_tabs demo_strip)) = 0"
    by (simp_all add: demo_strip_def)
  have "\<bar>104 + (case map_get (ts_transforms s') (js ''b'') of Some offset \<Rightarrow> offset | None \<Rightarrow> 0)
      - place_of (layoutByID (sg_tabs demo_strip)) 4 0 [js ''b'', js ''a'', js ''c''] (js ''b'')\<bar> < 1 / 2"
    using tabs_preview_final_places [OF p id(1) _ s'_def parts(1) [symmetric], of "\<lparr>tr_id = js ''b'', tr_left = 104, tr_width = 60\<rparr>"
        "[js ''b'', js ''a'', js ''c'']", unfolded parts(2) id(2)] far committed tabs
    by simp
  then show ?thesis by (simp add: moved flip: s_def s'_def)
qed

end
