(* ===== verification/Live_Panels.thy ===== *)
theory Live_Panels
  imports Live_Room "HOL-Library.Multiset"
begin

text \<open>
  The editor panes of a room (\<open>web/src/live-panels.tsx\<close>): swapping panes with the pointer or the
  keyboard, resizing them, and the menus in their headings. Coordinates, sizes and percentages are
  rational numbers here. What the browser answers (the pane under the pointer, rectangles, the extent
  of a group, what has the focus) are arguments of the events; onSwap and onChange are a log.
\<close>

section \<open>Moving panes\<close>

record paneDrag =
  pd_source :: nat
  pd_target :: nat
  pd_x :: rat
  pd_y :: rat

record panePointer =
  pp_id :: int
  pp_source :: nat
  pp_x :: rat
  pp_y :: rat

text \<open>\<open>SinglePane\<close> stands for the layout \<open>single\<close>; \<open>lp_swaps\<close> are the calls of onSwap.\<close>

record livePanels =
  pl_layout :: liveLayoutPreset
  pl_sizes :: "(jsstring, rat) jsmap"
  pl_drag :: "paneDrag option"
  pl_pointer :: "panePointer option"
  pl_swaps :: "(nat \<times> nat) list"

definition livePanels_new :: "liveLayoutPreset \<Rightarrow> livePanels" where
  "livePanels_new layout = \<lparr>pl_layout = layout, pl_sizes = [], pl_drag = None, pl_pointer = None, pl_swaps = []\<rparr>"

definition panel_count :: "liveLayoutPreset \<Rightarrow> nat" where
  "panel_count layout = (case List.find (\<lambda>item. fst item = layout) livePanelLayouts of
     None \<Rightarrow> 1 | Some item \<Rightarrow> snd (snd item))"

definition swap :: "nat \<Rightarrow> nat \<Rightarrow> livePanels \<Rightarrow> livePanels" where
  "swap source target p = p\<lparr>pl_swaps := pl_swaps p @ [(source, target)]\<rparr>"

text \<open>The handle of a pane; only the main button grabs it.\<close>

definition grabPane :: "int \<Rightarrow> int \<Rightarrow> rat \<Rightarrow> rat \<Rightarrow> nat \<Rightarrow> livePanels \<Rightarrow> livePanels" where
  "grabPane button pointerId clientX clientY index p =
     (if button \<noteq> 0 then p
      else p\<lparr>pl_pointer := Some \<lparr>pp_id = pointerId, pp_source = index, pp_x = clientX, pp_y = clientY\<rparr>\<rparr>)"

text \<open>\<open>hit\<close> is the pane at the position of the pointer; the comparison with hypot is squared.\<close>

definition near_start :: "panePointer \<Rightarrow> rat \<Rightarrow> rat \<Rightarrow> bool" where
  "near_start start clientX clientY \<longleftrightarrow> (clientX - pp_x start)\<^sup>2 + (clientY - pp_y start)\<^sup>2 < 5\<^sup>2"

definition movePointer :: "int \<Rightarrow> rat \<Rightarrow> rat \<Rightarrow> nat option \<Rightarrow> livePanels \<Rightarrow> livePanels" where
  "movePointer pointerId clientX clientY hit p = (case pl_pointer p of
     None \<Rightarrow> p
   | Some start \<Rightarrow>
       if pp_id start \<noteq> pointerId then p
       else if near_start start clientX clientY then p
       else
         let index = (case hit of Some i \<Rightarrow> i | None \<Rightarrow> pp_source start)
         in p\<lparr>pl_drag := Some \<lparr>pd_source = pp_source start, pd_target = index,
              pd_x = clientX - pp_x start, pd_y = clientY - pp_y start\<rparr>\<rparr>)"

definition endPointer :: "int \<Rightarrow> bool \<Rightarrow> livePanels \<Rightarrow> livePanels" where
  "endPointer pointerId commit p =
     (if map_option pp_id (pl_pointer p) \<noteq> Some pointerId then p
      else
        let p = (case pl_drag p of
              Some d \<Rightarrow> if commit \<and> pd_source d \<noteq> pd_target d then swap (pd_source d) (pd_target d) p else p
            | None \<Rightarrow> p)
        in p\<lparr>pl_pointer := None, pl_drag := None\<rparr>)"

definition lostCapture :: "livePanels \<Rightarrow> livePanels" where
  "lostCapture p = p\<lparr>pl_pointer := None, pl_drag := None\<rparr>"

definition key_offset :: "liveLayoutPreset \<Rightarrow> jsstring \<Rightarrow> int" where
  "key_offset layout key =
     (if key = js ''ArrowLeft'' then - 1
      else if key = js ''ArrowRight'' then 1
      else if key = js ''ArrowUp'' then (if layout = Grid then - 2 else - 1)
      else if key = js ''ArrowDown'' then (if layout = Grid then 2 else 1)
      else 0)"

definition paneKeyDown :: "jsstring \<Rightarrow> nat \<Rightarrow> livePanels \<Rightarrow> livePanels" where
  "paneKeyDown key index p =
     (if key = js ''Escape'' then p\<lparr>pl_pointer := None, pl_drag := None\<rparr>
      else
        let offset = key_offset (pl_layout p) key; target = int index + offset
        in if offset = 0 then p
           else if 0 \<le> target \<and> target < int (panel_count (pl_layout p)) then swap index (nat target) p
           else p)"

text \<open>The effect on the version of the layout, and the percentage a group reports for its key.\<close>

definition resetSizes :: "livePanels \<Rightarrow> livePanels" where
  "resetSizes p = p\<lparr>pl_sizes := []\<rparr>"

definition onPercentChange :: "jsstring \<Rightarrow> rat \<Rightarrow> livePanels \<Rightarrow> livePanels" where
  "onPercentChange sizeKey percent p = p\<lparr>pl_sizes := AList.update sizeKey percent (pl_sizes p)\<rparr>"

datatype panelEvent =
    PaneDown int int rat rat nat
  | PaneMove int rat rat "nat option"
  | PaneUp int
  | PaneCancel int
  | CaptureLost
  | PaneKey jsstring nat
  | PaneSized jsstring rat
  | LayoutChanged liveLayoutPreset
  | SizesReset

definition panel_step :: "panelEvent \<Rightarrow> livePanels \<Rightarrow> livePanels" where
  "panel_step ev p = (case ev of
     PaneDown button pointerId x y index \<Rightarrow> grabPane button pointerId x y index p
   | PaneMove pointerId x y hit \<Rightarrow> movePointer pointerId x y hit p
   | PaneUp pointerId \<Rightarrow> endPointer pointerId True p
   | PaneCancel pointerId \<Rightarrow> endPointer pointerId False p
   | CaptureLost \<Rightarrow> lostCapture p
   | PaneKey key index \<Rightarrow> paneKeyDown key index p
   | PaneSized sizeKey percent \<Rightarrow> onPercentChange sizeKey percent p
   | LayoutChanged layout \<Rightarrow> p\<lparr>pl_layout := layout\<rparr>
   | SizesReset \<Rightarrow> resetSizes p)"

definition panel_run :: "panelEvent list \<Rightarrow> livePanels \<Rightarrow> livePanels" where
  "panel_run evs p = fold panel_step evs p"

text \<open>The events a page can have: a handle or a pane that is hit belongs to a pane on the page.\<close>

definition panes_of_event :: "panelEvent \<Rightarrow> nat set" where
  "panes_of_event ev = (case ev of
     PaneDown button pointerId x y index \<Rightarrow> {index}
   | PaneMove pointerId x y hit \<Rightarrow> set_option hit
   | PaneKey key index \<Rightarrow> {index}
   | _ \<Rightarrow> {})"

primrec page_events :: "panelEvent list \<Rightarrow> livePanels \<Rightarrow> bool" where
  "page_events [] p \<longleftrightarrow> True"
| "page_events (ev # evs) p \<longleftrightarrow>
     (\<forall>i\<in>panes_of_event ev. i < panel_count (pl_layout p)) \<and> page_events evs (panel_step ev p)"

text \<open>The panes after a list of calls of onSwap.\<close>

definition apply_swaps :: "(nat \<times> nat) list \<Rightarrow> jsstring list \<Rightarrow> jsstring list" where
  "apply_swaps swaps panes = fold (\<lambda>(source, target). swap_panes source target) swaps panes"

section \<open>Swaps\<close>

lemma panel_count_bounds: "1 \<le> panel_count layout" "panel_count layout \<le> 4"
  by (cases layout; simp add: panel_count_def livePanelLayouts_def)+

lemma panel_count_simps [simp]:
  "panel_count SinglePane = 1" "panel_count Columns = 2" "panel_count Rows = 2" "panel_count Three = 3" "panel_count Grid = 4"
  by (simp_all add: panel_count_def livePanelLayouts_def)

text \<open>Everything the panels remember of a drag lies below a bound; they swap only different panes.\<close>

definition panels_ok :: "nat \<Rightarrow> livePanels \<Rightarrow> bool" where
  "panels_ok n p \<longleftrightarrow> (\<forall>d. pl_drag p = Some d \<longrightarrow> pd_source d < n \<and> pd_target d < n)
     \<and> (\<forall>start. pl_pointer p = Some start \<longrightarrow> pp_source start < n)
     \<and> (\<forall>(source, target)\<in>set (pl_swaps p). source < n \<and> target < n \<and> source \<noteq> target)"

lemma key_offset_target:
  assumes "paneKeyDown key index p = q" "index < n" "panel_count (pl_layout p) \<le> n" "panels_ok n p"
  shows "panels_ok n q"
  using assms by (auto simp: paneKeyDown_def panels_ok_def swap_def Let_def split: if_splits)

lemma panels_ok_step:
  assumes "panels_ok n p" "\<And>i. i \<in> panes_of_event ev \<Longrightarrow> i < n" "panel_count (pl_layout p) \<le> n"
  shows "panels_ok n (panel_step ev p)"
proof (cases ev)
  case (PaneKey key index)
  then show ?thesis using assms key_offset_target [OF refl, of index n p key]
    by (simp add: panel_step_def panes_of_event_def)
qed (use assms in \<open>auto simp: panel_step_def panels_ok_def panes_of_event_def grabPane_def movePointer_def endPointer_def
    lostCapture_def resetSizes_def onPercentChange_def swap_def Let_def split: option.splits if_splits\<close>)

lemma panels_ok_new: "panels_ok n (livePanels_new layout)"
  by (simp add: livePanels_new_def panels_ok_def)

lemma panels_ok_run: "page_events evs p \<Longrightarrow> panels_ok 4 p \<Longrightarrow> panels_ok 4 (panel_run evs p)"
proof (induction evs arbitrary: p)
  case (Cons ev evs)
  have "panels_ok 4 (panel_step ev p)"
    using Cons.prems panel_count_bounds(2) [of "pl_layout p"] by (intro panels_ok_step) (auto intro: less_le_trans)
  with Cons show ?case by (simp add: panel_run_def)
qed (simp add: panel_run_def)

lemma layout_kept: "\<forall>l. ev \<noteq> LayoutChanged l \<Longrightarrow> pl_layout (panel_step ev p) = pl_layout p"
  by (cases ev) (auto simp: panel_step_def grabPane_def movePointer_def endPointer_def lostCapture_def paneKeyDown_def
      resetSizes_def onPercentChange_def swap_def Let_def split: option.splits)

lemma panels_ok_calm:
  "page_events evs p \<Longrightarrow> \<forall>l. LayoutChanged l \<notin> set evs \<Longrightarrow> panels_ok (panel_count (pl_layout p)) p
    \<Longrightarrow> panels_ok (panel_count (pl_layout p)) (panel_run evs p)"
proof (induction evs arbitrary: p)
  case (Cons ev evs)
  have same: "pl_layout (panel_step ev p) = pl_layout p" using Cons.prems by (intro layout_kept) auto
  have "panels_ok (panel_count (pl_layout p)) (panel_step ev p)" using Cons.prems by (intro panels_ok_step) auto
  then show ?case using Cons.IH [of "panel_step ev p"] Cons.prems same by (simp add: panel_run_def)
qed (simp add: panel_run_def)

lemma swap_panes_facts:
  assumes "i < length panes" "j < length panes"
  shows "mset (swap_panes i j panes) = mset panes" "length (swap_panes i j panes) = length panes"
  using assms mset_swap [of j panes i] by (simp_all add: swap_panes_def)

lemma apply_swaps_mset:
  assumes "\<forall>(i, j)\<in>set swaps. i < length panes \<and> j < length panes"
  shows "mset (apply_swaps swaps panes) = mset panes"
  using assms
proof (induction swaps arbitrary: panes)
  case (Cons s swaps)
  obtain i j where s: "s = (i, j)" by (cases s)
  with Cons.prems have "i < length panes" "j < length panes" by auto
  note facts = swap_panes_facts [OF this]
  have "mset (apply_swaps swaps (swap_panes i j panes)) = mset (swap_panes i j panes)"
    using Cons.prems facts(2) by (intro Cons.IH) auto
  then show ?case using facts(1) by (simp add: apply_swaps_def s)
qed (simp add: apply_swaps_def)

text \<open>
  Moving panes never loses or doubles one: in every run, with layouts changing at any moment, each
  swap exchanges two different panes of the four, so the panes are always a permutation of the ones at
  the start; and as long as the layout stays, only panes of the layout on the page are exchanged.
\<close>
theorem swaps_permute_panes:
  assumes "page_events evs (livePanels_new layout)" "p = panel_run evs (livePanels_new layout)" "length panes = 4"
  shows "mset (apply_swaps (pl_swaps p) panes) = mset panes
    \<and> (\<forall>(source, target)\<in>set (pl_swaps p). source \<noteq> target \<and> source < 4 \<and> target < 4)
    \<and> ((\<forall>l. LayoutChanged l \<notin> set evs) \<longrightarrow>
        (\<forall>(source, target)\<in>set (pl_swaps p). source < panel_count layout \<and> target < panel_count layout))"
proof -
  have ok: "panels_ok 4 p" unfolding assms(2) by (rule panels_ok_run [OF assms(1) panels_ok_new])
  then have "mset (apply_swaps (pl_swaps p) panes) = mset panes"
    using assms(3) by (intro apply_swaps_mset) (auto simp: panels_ok_def)
  moreover have "panels_ok (panel_count layout) p" if "\<forall>l. LayoutChanged l \<notin> set evs"
    using panels_ok_calm [OF assms(1) that panels_ok_new] by (simp add: assms(2)) (simp add: livePanels_new_def)
  ultimately show ?thesis using ok by (auto simp: panels_ok_def)
qed

theorem swaps_permute_panes_witness:
  "let p = panel_run [PaneKey (js ''ArrowRight'') 0, LayoutChanged Grid, PaneKey (js ''ArrowDown'') 1] (livePanels_new Columns)
   in pl_swaps p = [(0, 1), (1, 3)]
     \<and> mset (apply_swaps (pl_swaps p) [js ''a'', js ''b'', [], []]) = mset [js ''a'', js ''b'', [], []]"
  using swaps_permute_panes [OF _ refl, of "[PaneKey (js ''ArrowRight'') 0, LayoutChanged Grid, PaneKey (js ''ArrowDown'') 1]"
      Columns "[js ''a'', js ''b'', [], []]"]
  by (simp add: panel_run_def livePanels_new_def panel_step_def paneKeyDown_def key_offset_def swap_def panes_of_event_def)

section \<open>A drag\<close>

text \<open>A pointer that moves: positions with the pane it is over.\<close>

definition pointer_path :: "int \<Rightarrow> (rat \<times> rat \<times> nat option) list \<Rightarrow> panelEvent list" where
  "pointer_path pointerId moves = map (\<lambda>(x, y, hit). PaneMove pointerId x y hit) moves"

definition drop_pane :: "panePointer \<Rightarrow> (rat \<times> rat \<times> nat option) list \<Rightarrow> nat" where
  "drop_pane start moves =
     (let far = filter (\<lambda>(x, y, hit). \<not> near_start start x y) moves
      in if far = [] then pp_source start
         else case snd (snd (last far)) of None \<Rightarrow> pp_source start | Some i \<Rightarrow> i)"

lemma panel_run_append: "panel_run (evs @ evs') p = panel_run evs' (panel_run evs p)"
  by (simp add: panel_run_def)

definition drag_follows :: "panePointer \<Rightarrow> (rat \<times> rat \<times> nat option) list \<Rightarrow> livePanels \<Rightarrow> livePanels \<Rightarrow> bool" where
  "drag_follows start moves p q \<longleftrightarrow> pl_pointer q = Some start \<and> pl_swaps q = pl_swaps p
    \<and> (case pl_drag q of
         None \<Rightarrow> drop_pane start moves = pp_source start
       | Some d \<Rightarrow> pd_source d = pp_source start \<and> pd_target d = drop_pane start moves)"

lemma path_facts:
  assumes "pl_pointer p = Some start" "pl_drag p = None"
  shows "drag_follows start moves p (panel_run (pointer_path (pp_id start) moves) p)"
proof (induction moves rule: rev_induct)
  case Nil
  then show ?case using assms by (simp add: panel_run_def pointer_path_def drop_pane_def drag_follows_def)
next
  case (snoc m moves)
  define r where "r = panel_run (pointer_path (pp_id start) moves) p"
  obtain x y hit where m: "m = (x, y, hit)" by (cases m) auto
  have run: "panel_run (pointer_path (pp_id start) (moves @ [m])) p = movePointer (pp_id start) x y hit r"
    by (simp add: pointer_path_def r_def panel_run_append m) (simp add: panel_run_def panel_step_def)
  have last: "drop_pane start (moves @ [m]) = (case hit of None \<Rightarrow> pp_source start | Some i \<Rightarrow> i)" if "\<not> near_start start x y"
    using that by (simp add: drop_pane_def m)
  have same: "drop_pane start (moves @ [m]) = drop_pane start moves" if "near_start start x y"
    using that by (simp add: drop_pane_def m)
  show ?case unfolding run using snoc.IH last same
    by (auto simp: movePointer_def drag_follows_def Let_def simp flip: r_def split: option.splits)
qed



text \<open>
  A pane that leaves the page in the middle of a drag takes its handle along, and with it the event that
  would end the drag: pressing and releasing another handle afterwards, without moving, swaps the panes of
  the old drag.
\<close>
lemma stale_drag_swaps:
  "pl_swaps (panel_run [PaneDown 0 1 0 0 2, PaneMove 1 50 0 (Some 0), LayoutChanged Columns,
     PaneDown 0 1 9 9 1, PaneUp 1] (livePanels_new Grid)) = [(2, 0)]"
  by (simp add: panel_run_def panel_step_def livePanels_new_def grabPane_def movePointer_def endPointer_def
      near_start_def swap_def)

section \<open>Sizes\<close>

text \<open>\<open>Math.round\<close>; the extent is the rounded width or height of the group.\<close>

definition math_round :: "rat \<Rightarrow> int" where
  "math_round x = \<lfloor>x + 1 / 2\<rfloor>"

record splitGroup =
  sg_extent :: int
  sg_pointerResize :: bool

definition measureExtent :: "rat \<Rightarrow> splitGroup \<Rightarrow> splitGroup" where
  "measureExtent extent g = g\<lparr>sg_extent := math_round extent\<rparr>"

definition panel_size :: "int \<Rightarrow> rat \<Rightarrow> int" where
  "panel_size extent percent = math_round (rat_of_int extent * percent / 100)"

definition onSizeChange :: "rat \<Rightarrow> rat \<Rightarrow> splitGroup \<Rightarrow> rat \<times> splitGroup" where
  "onSizeChange snapPercent value g =
     (let next_percent = value / rat_of_int (sg_extent g) * 100;
          snapped = sg_pointerResize g \<and> \<bar>next_percent - snapPercent\<bar> \<le> 2
      in (if snapped then snapPercent else next_percent, g\<lparr>sg_pointerResize := False\<rparr>))"

datatype separatorEvent = SeparatorDown | SeparatorCancel | SeparatorKey

definition separator_step :: "separatorEvent \<Rightarrow> splitGroup \<Rightarrow> splitGroup" where
  "separator_step ev g = (case ev of
     SeparatorDown \<Rightarrow> g\<lparr>sg_pointerResize := True\<rparr>
   | SeparatorCancel \<Rightarrow> g\<lparr>sg_pointerResize := False\<rparr>
   | SeparatorKey \<Rightarrow> g\<lparr>sg_pointerResize := False\<rparr>)"

text \<open>The groups of a layout, with the name, the orientation (True for horizontal) and the initial percentage.\<close>

datatype paneTree = Pane nat | Divide string bool rat paneTree paneTree

definition panel_tree :: "liveLayoutPreset \<Rightarrow> paneTree option" where
  "panel_tree layout = (case layout of
     Columns \<Rightarrow> Some (Divide ''columns'' True 50 (Pane 0) (Pane 1))
   | Rows \<Rightarrow> Some (Divide ''rows'' False 50 (Pane 0) (Pane 1))
   | Three \<Rightarrow> Some (Divide ''left column'' True (33333 / 1000) (Pane 0)
       (Divide ''right columns'' True 50 (Pane 1) (Pane 2)))
   | Grid \<Rightarrow> Some (Divide ''grid rows'' False 50
       (Divide ''top columns'' True 50 (Pane 0) (Pane 1)) (Divide ''bottom columns'' True 50 (Pane 2) (Pane 3)))
   | SinglePane \<Rightarrow> None)"

definition sizeKey :: "liveLayoutPreset \<Rightarrow> string \<Rightarrow> jsstring" where
  "sizeKey layout name = preset_id layout @ js ''-'' @ js name"

definition group_percent :: "livePanels \<Rightarrow> string \<Rightarrow> rat \<Rightarrow> rat" where
  "group_percent p name initial = (case map_get (pl_sizes p) (sizeKey (pl_layout p) name) of
     Some percent \<Rightarrow> percent | None \<Rightarrow> initial)"

text \<open>The share of the workspace each pane gets.\<close>

fun pane_shares :: "(string \<Rightarrow> rat \<Rightarrow> rat) \<Rightarrow> paneTree \<Rightarrow> (nat \<times> rat) list" where
  "pane_shares percent (Pane i) = [(i, 1)]"
| "pane_shares percent (Divide name horizontal initial first second) =
     (let q = percent name initial / 100
      in map (\<lambda>(i, a). (i, q * a)) (pane_shares percent first)
         @ map (\<lambda>(i, a). (i, (1 - q) * a)) (pane_shares percent second))"

lemma math_round_int [simp]: "math_round (rat_of_int n) = n"
  unfolding math_round_def by (rule floor_unique) simp_all

lemma math_round_near: "\<bar>x - y\<bar> \<le> d \<Longrightarrow> \<bar>rat_of_int (math_round x) - y\<bar> \<le> d + 1 / 2"
  unfolding math_round_def by linarith

lemma size_of_percent:
  assumes "0 < extent"
  shows "panel_size extent (value' / rat_of_int extent * 100) = math_round value'"
  using assms by (simp add: panel_size_def)

text \<open>
  A pane gets the size it is given: when the panels report a size of whole pixels, the percentage
  stored for it leads back to exactly that size, after a resize with the keyboard always, and after one
  with the pointer unless it ends within two percent of the preset's resting position, where it snaps to
  that position, at most two percent of the extent and half a pixel away. The next resize starts afresh.
\<close>
theorem resize_round_trip:
  assumes "0 < sg_extent g" "onSizeChange snap (rat_of_int size') g = (percent, g')"
  shows "\<not> sg_pointerResize g' \<and> sg_extent g' = sg_extent g
    \<and> (\<not> sg_pointerResize g \<longrightarrow> panel_size (sg_extent g) percent = size')
    \<and> (panel_size (sg_extent g) percent = size'
        \<or> percent = snap \<and> \<bar>rat_of_int (panel_size (sg_extent g) percent - size')\<bar> \<le> 2 * rat_of_int (sg_extent g) / 100 + 1 / 2)"
proof -
  define e where "e = rat_of_int (sg_extent g)"
  have e: "e > 0" using assms(1) by (simp add: e_def)
  have exact: "panel_size (sg_extent g) (rat_of_int size' / e * 100) = size'"
    using size_of_percent [OF assms(1), of "rat_of_int size'"] by (simp add: e_def)
  have near: "\<bar>rat_of_int (panel_size (sg_extent g) snap) - rat_of_int size'\<bar> \<le> 2 * e / 100 + 1 / 2"
    if "\<bar>rat_of_int size' / e * 100 - snap\<bar> \<le> 2"
  proof -
    have "\<bar>e * snap / 100 - rat_of_int size'\<bar> = e / 100 * \<bar>rat_of_int size' / e * 100 - snap\<bar>"
      using e by (simp add: abs_mult_pos' abs_minus_commute field_simps flip: abs_mult_pos)
    also have "\<dots> \<le> e / 100 * 2" using that e by (intro mult_left_mono) auto
    finally have "\<bar>e * snap / 100 - rat_of_int size'\<bar> \<le> 2 * e / 100" by simp
    from math_round_near [OF this] show ?thesis by (simp add: panel_size_def e_def)
  qed
  from assms(2) have parts: "g' = g\<lparr>sg_pointerResize := False\<rparr>"
    "percent = (if sg_pointerResize g \<and> \<bar>rat_of_int size' / e * 100 - snap\<bar> \<le> 2 then snap else rat_of_int size' / e * 100)"
    by (auto simp: onSizeChange_def Let_def e_def)
  then show ?thesis using exact near by (auto simp: e_def)
qed

theorem resize_round_trip_witness:
  "panel_size 800 (fst (onSizeChange 50 301 \<lparr>sg_extent = 800, sg_pointerResize = True\<rparr>)) = 301
   \<and> panel_size 800 (fst (onSizeChange 50 409 \<lparr>sg_extent = 800, sg_pointerResize = False\<rparr>)) = 409
   \<and> fst (onSizeChange 50 409 \<lparr>sg_extent = 800, sg_pointerResize = True\<rparr>) = 50"
proof -
  have "panel_size 800 (fst (onSizeChange 50 409 \<lparr>sg_extent = 800, sg_pointerResize = False\<rparr>)) = 409"
    using resize_round_trip [where g = "\<lparr>sg_extent = 800, sg_pointerResize = False\<rparr>" and snap = 50 and size' = 409, OF _ prod.collapse [symmetric]]
    by simp
  moreover have "panel_size 800 (fst (onSizeChange 50 301 \<lparr>sg_extent = 800, sg_pointerResize = True\<rparr>)) = 301"
    using resize_round_trip [where g = "\<lparr>sg_extent = 800, sg_pointerResize = True\<rparr>" and snap = 50 and size' = 301, OF _ prod.collapse [symmetric]]
    by (simp add: onSizeChange_def)
  ultimately show ?thesis by (simp add: onSizeChange_def)
qed

text \<open>
  The layouts show the panes 0, 1, ... once each, in order; whatever sizes are stored, the shares of the
  panes add up to the whole workspace, and every pane is visible while the percentages are between 0 and 100.
\<close>
lemma sum_shares: "sum_list (map snd (map (\<lambda>(i, a). (i, q * a)) xs)) = q * sum_list (map snd xs)" for q :: rat
  by (induction xs) (auto simp: algebra_simps)

lemma shares_total: "sum_list (map snd (pane_shares percent t)) = 1"
proof (induction t)
  case (Divide name horizontal initial first second)
  show ?case
    by (simp only: pane_shares.simps Let_def map_append sum_list_append sum_shares Divide) simp
qed simp

lemma shares_positive:
  assumes "\<And>name initial. 0 < percent name initial \<and> percent name initial < 100"
  shows "\<forall>(i, a)\<in>set (pane_shares percent t). 0 < a"
proof (induction t)
  case (Divide name horizontal initial first second)
  have "0 < percent name initial / 100" "0 < 1 - percent name initial / 100"
    using assms [of name initial] by simp_all
  with Divide show ?case
    by (auto simp: Let_def simp del: times_divide_eq_left divide_pos_pos intro!: mult_pos_pos)
qed simp

lemma shown_panes:
  "panel_tree layout = Some t \<Longrightarrow> map fst (pane_shares percent t) = [0..<panel_count layout]"
  by (cases layout) (auto simp: panel_tree_def Let_def upt_rec)

lemma sizeKey_inject:
  assumes "panel_tree layout = Some t" "panel_tree layout' = Some t'" "sizeKey layout name = sizeKey layout' name'"
  shows "layout = layout' \<and> name = name'"
  using assms by (cases layout; cases layout')
    (auto simp: panel_tree_def sizeKey_def preset_id_def simp flip: js_append)

text \<open>A resize of one group changes its own size only, in its layout only.\<close>

lemma percent_after_resize:
  assumes "panel_tree (pl_layout p) = Some t" "panel_tree layout = Some t'"
  shows "group_percent (panel_step (LayoutChanged layout) (onPercentChange (sizeKey (pl_layout p) name) percent p)) name' initial
    = (if layout = pl_layout p \<and> name' = name then percent
       else group_percent (panel_step (LayoutChanged layout) p) name' initial)"
  using sizeKey_inject [OF assms(2) assms(1)]
  by (auto simp: group_percent_def panel_step_def onPercentChange_def update_conv')

section \<open>The menus of a pane\<close>

record menuRect =
  mr_left :: rat
  mr_top :: rat
  mr_right :: rat
  mr_bottom :: rat

record menuPosition =
  mp_left :: rat
  mp_top :: rat
  mp_width :: rat
  mp_maxHeight :: rat

text \<open>The part of the pane inside the window, with its margins; the pane may be missing.\<close>

definition menu_area :: "menuRect option \<Rightarrow> rat \<Rightarrow> rat \<Rightarrow> menuRect" where
  "menu_area pane innerWidth innerHeight =
     \<lparr>mr_left = max 8 ((case pane of Some r \<Rightarrow> mr_left r | None \<Rightarrow> 0) + 6),
      mr_top = max 8 ((case pane of Some r \<Rightarrow> mr_top r | None \<Rightarrow> 0) + 4),
      mr_right = min (innerWidth - 8) ((case pane of Some r \<Rightarrow> mr_right r | None \<Rightarrow> innerWidth) - 6),
      mr_bottom = min (innerHeight - 8) ((case pane of Some r \<Rightarrow> mr_bottom r | None \<Rightarrow> innerHeight) - 4)\<rparr>"

text \<open>\<open>scrollHeight\<close> is the height of the menu's content, when it is on the page.\<close>

definition menu_height :: "rat option \<Rightarrow> rat" where
  "menu_height scrollHeight = min (case scrollHeight of Some h \<Rightarrow> h | None \<Rightarrow> 244) 244"

definition place :: "bool \<Rightarrow> menuRect \<Rightarrow> menuRect \<Rightarrow> rat option \<Rightarrow> menuPosition" where
  "place language rect area scrollHeight =
     (let width = min (if language then 140 else 160) (mr_right area - mr_left area);
          below = max 0 (mr_bottom area - mr_bottom rect - 4);
          above = max 0 (mr_top rect - mr_top area - 4);
          height = menu_height scrollHeight;
          opensBelow = (below \<ge> height \<or> below \<ge> above);
          maxHeight = min 244 (if opensBelow then below else above)
      in \<lparr>mp_left = max (mr_left area) (min (if language then mr_right rect - width else mr_left rect) (mr_right area - width)),
          mp_top = (if opensBelow then mr_bottom rect + 4 else mr_top rect - min height maxHeight - 4),
          mp_width = width, mp_maxHeight = maxHeight\<rparr>)"

text \<open>
  C40. A pane's menu stays inside the pane and beside its button: it never leaves the pane's visible part
  to the left or right, and when it is shown at all it hangs below the button or stands above it without
  covering it or passing the pane's edge, and is cut off only when neither side has room for it.
\<close>
theorem menu_inside_pane:
  fixes language rect pane innerWidth innerHeight scrollHeight
  defines "area \<equiv> menu_area pane innerWidth innerHeight"
  defines "pos \<equiv> place language rect area scrollHeight"
  defines "h \<equiv> min (menu_height scrollHeight) (mp_maxHeight pos)"
  shows "mr_left area \<le> mp_left pos \<and> mp_left pos + mp_width pos \<le> mr_right area
    \<and> (0 < mp_maxHeight pos \<longrightarrow>
        mp_top pos = mr_bottom rect + 4 \<and> mp_top pos + h \<le> mr_bottom area
        \<or> mr_top area \<le> mp_top pos \<and> mp_top pos + h + 4 = mr_top rect)
    \<and> (menu_height scrollHeight + 4 \<le> mr_bottom area - mr_bottom rect \<or> menu_height scrollHeight + 4 \<le> mr_top rect - mr_top area
        \<longrightarrow> h = menu_height scrollHeight)"
proof -
  define below where "below = max 0 (mr_bottom area - mr_bottom rect - 4)"
  define above where "above = max 0 (mr_top rect - mr_top area - 4)"
  define height where "height = menu_height scrollHeight"
  define opensBelow where "opensBelow \<longleftrightarrow> below \<ge> height \<or> below \<ge> above"
  define width where "width = min (if language then 140 else 160) (mr_right area - mr_left area)"
  have width: "mp_width pos = width" and left: "mp_left pos = max (mr_left area)
      (min (if language then mr_right rect - width else mr_left rect) (mr_right area - width))"
    and room: "mp_maxHeight pos = min 244 (if opensBelow then below else above)"
    and top: "mp_top pos = (if opensBelow then mr_bottom rect + 4 else mr_top rect - min height (mp_maxHeight pos) - 4)"
    by (simp_all add: pos_def place_def Let_def below_def above_def height_def opensBelow_def width_def)
  have "width \<le> mr_right area - mr_left area" by (simp add: width_def)
  then have sides: "mr_left area \<le> mp_left pos \<and> mp_left pos + mp_width pos \<le> mr_right area"
    unfolding width left by linarith
  have h: "h = min height (mp_maxHeight pos)" by (simp add: h_def height_def)
  have bounded: "height \<le> 244" by (simp add: height_def menu_height_def)
  have edges: "mp_top pos = mr_bottom rect + 4 \<and> mp_top pos + h \<le> mr_bottom area
      \<or> mr_top area \<le> mp_top pos \<and> mp_top pos + h + 4 = mr_top rect" if "0 < mp_maxHeight pos"
  proof (cases opensBelow)
    case True
    then show ?thesis using that top room h unfolding below_def by (simp only: if_True) linarith
  next
    case False
    then show ?thesis using that top room h unfolding above_def by (simp only: if_False) linarith
  qed
  have whole: "h = height" if "height + 4 \<le> mr_bottom area - mr_bottom rect \<or> height + 4 \<le> mr_top rect - mr_top area"
  proof -
    have "height \<le> below \<or> height \<le> above" using that unfolding below_def above_def by linarith
    then have "height \<le> (if opensBelow then below else above)" unfolding opensBelow_def by auto
    then show ?thesis unfolding h room using bounded by simp
  qed
  show ?thesis using sides edges whole by (simp add: height_def)
qed

theorem menu_inside_pane_witness:
  "let pos = place False \<lparr>mr_left = 300, mr_top = 560, mr_right = 420, mr_bottom = 590\<rparr>
      (menu_area (Some \<lparr>mr_left = 0, mr_top = 100, mr_right = 400, mr_bottom = 700\<rparr>) 800 720) (Some 300)
   in mp_left pos = 234 \<and> mp_top pos = 312 \<and> mp_left pos + mp_width pos \<le> 394"
  using menu_inside_pane [of "Some \<lparr>mr_left = 0, mr_top = 100, mr_right = 400, mr_bottom = 700\<rparr>" 800 720 False
      "\<lparr>mr_left = 300, mr_top = 560, mr_right = 420, mr_bottom = 590\<rparr>" "Some 300"]
  by (simp add: place_def menu_area_def menu_height_def Let_def)

text \<open>
  The menu: whether it is open, which option has the focus (\<open>-1\<close> for none) and the calls of onChange.
  \<open>menuProps\<close> are its properties, \<open>lower\<close> is toLowerCase.
\<close>

record menuProps =
  mn_value :: jsstring
  mn_options :: "(jsstring \<times> jsstring) list"
  mn_disabled :: bool

record paneMenu =
  pm_open :: bool
  pm_focus :: int
  pm_chosen :: "jsstring list"

definition paneMenu_new :: paneMenu where
  "paneMenu_new = \<lparr>pm_open = False, pm_focus = - 1, pm_chosen = []\<rparr>"

definition menu_label :: "menuProps \<Rightarrow> jsstring \<Rightarrow> jsstring option" where
  "menu_label props placeholder = (case List.find (\<lambda>item. fst item = mn_value props) (mn_options props) of
     Some item \<Rightarrow> Some (snd item) | None \<Rightarrow> (if placeholder = [] then None else Some placeholder))"

text \<open>Opening moves the focus to the selected option, or to the first one.\<close>

definition menu_open :: "menuProps \<Rightarrow> paneMenu \<Rightarrow> paneMenu" where
  "menu_open props m =
     (if pm_open m then m
      else m\<lparr>pm_open := True,
        pm_focus := (case index_of (mn_value props) (map fst (mn_options props)) of
          Some i \<Rightarrow> int i | None \<Rightarrow> (if mn_options props = [] then - 1 else 0))\<rparr>)"

definition menu_close :: "paneMenu \<Rightarrow> paneMenu" where
  "menu_close m = m\<lparr>pm_open := False, pm_focus := - 1\<rparr>"

definition triggerClick :: "menuProps \<Rightarrow> paneMenu \<Rightarrow> paneMenu" where
  "triggerClick props m =
     (if mn_disabled props then m else if pm_open m then menu_close m else menu_open props m)"

definition triggerKeyDown :: "menuProps \<Rightarrow> jsstring \<Rightarrow> paneMenu \<Rightarrow> paneMenu" where
  "triggerKeyDown props key m =
     (if mn_disabled props then m
      else if key = js ''ArrowDown'' \<or> key = js ''ArrowUp'' then menu_open props m else m)"

text \<open>The text of an option, with the mark of the selected one, and the options in the order a typed letter tries them.\<close>

definition option_text :: "menuProps \<Rightarrow> jsstring \<times> jsstring \<Rightarrow> jsstring" where
  "option_text props item = snd item @ (if fst item = mn_value props then [0x2713] else [])"

definition typed_order :: "int \<Rightarrow> nat \<Rightarrow> nat list" where
  "typed_order current n = [nat (current + 1)..<n] @ [0..<min n (nat (current + 1))]"

definition typed_match :: "(jsstring \<Rightarrow> jsstring) \<Rightarrow> menuProps \<Rightarrow> jsstring \<Rightarrow> int \<Rightarrow> nat option" where
  "typed_match lower props key current =
     List.find (\<lambda>i. starts_with (lower (option_text props (mn_options props ! i))) (lower key))
       (typed_order current (length (mn_options props)))"

text \<open>A missing item, also at the index NaN of an empty menu, gets no focus.\<close>

definition focus_item :: "int \<Rightarrow> menuProps \<Rightarrow> paneMenu \<Rightarrow> paneMenu" where
  "focus_item i props m =
     (if 0 \<le> i \<and> i < int (length (mn_options props)) then m\<lparr>pm_focus := i\<rparr> else m)"

definition menuKeyDown ::
  "(jsstring \<Rightarrow> jsstring) \<Rightarrow> menuProps \<Rightarrow> jsstring \<Rightarrow> bool \<Rightarrow> bool \<Rightarrow> paneMenu \<Rightarrow> paneMenu" where
  "menuKeyDown lower props key ctrlKey metaKey m =
     (let n = int (length (mn_options props)); current = pm_focus m
      in if \<not> pm_open m then m
         else if key = js ''Escape'' \<or> key = js ''Tab'' then menu_close m
         else if key = js ''ArrowDown'' then (if n = 0 then m else focus_item ((current + 1) mod n) props m)
         else if key = js ''ArrowUp'' then (if n = 0 then m else focus_item ((current - 1 + n) mod n) props m)
         else if key = js ''Home'' then focus_item 0 props m
         else if key = js ''End'' then focus_item (n - 1) props m
         else if length key = 1 \<and> \<not> ctrlKey \<and> \<not> metaKey \<and> key \<noteq> js '' '' then
           (case typed_match lower props key current of
              Some i \<Rightarrow> m\<lparr>pm_focus := int i\<rparr>
            | None \<Rightarrow> m)
         else m)"

definition chooseOption :: "menuProps \<Rightarrow> nat \<Rightarrow> paneMenu \<Rightarrow> paneMenu" where
  "chooseOption props i m =
     (if pm_open m \<and> i < length (mn_options props)
      then (menu_close m)\<lparr>pm_chosen := pm_chosen m @ [fst (mn_options props ! i)]\<rparr>
      else m)"

text \<open>The effect on \<open>disabled\<close>; a press outside and a focus that leaves close the menu.\<close>

definition disabled_effect :: "menuProps \<Rightarrow> paneMenu \<Rightarrow> paneMenu" where
  "disabled_effect props m = (if mn_disabled props then menu_close m else m)"

datatype menuEvent =
    TriggerClicked
  | TriggerKey jsstring
  | MenuKey jsstring bool bool
  | OptionClicked nat
  | PressedOutside
  | FocusLeft

definition menu_step :: "(jsstring \<Rightarrow> jsstring) \<Rightarrow> menuProps \<Rightarrow> menuEvent \<Rightarrow> paneMenu \<Rightarrow> paneMenu" where
  "menu_step lower props ev m = (case ev of
     TriggerClicked \<Rightarrow> triggerClick props m
   | TriggerKey key \<Rightarrow> triggerKeyDown props key m
   | MenuKey key ctrlKey metaKey \<Rightarrow> menuKeyDown lower props key ctrlKey metaKey m
   | OptionClicked i \<Rightarrow> chooseOption props i m
   | PressedOutside \<Rightarrow> menu_close m
   | FocusLeft \<Rightarrow> menu_close m)"

text \<open>
  The properties can change between events (a document comes or goes, another is chosen); the menu is
  then rendered anew, and an option that had the focus and is gone has it no more.
\<close>

definition menu_render :: "menuProps \<Rightarrow> paneMenu \<Rightarrow> paneMenu" where
  "menu_render props m =
     (let m = disabled_effect props m
      in if pm_focus m < int (length (mn_options props)) then m else m\<lparr>pm_focus := - 1\<rparr>)"

definition menu_run :: "(jsstring \<Rightarrow> jsstring) \<Rightarrow> (menuProps \<times> menuEvent) list \<Rightarrow> paneMenu \<Rightarrow> paneMenu" where
  "menu_run lower evs m = fold (\<lambda>(props, ev) m. menu_step lower props ev (menu_render props m)) evs m"

lemmas menu_defs = menu_step_def triggerClick_def triggerKeyDown_def menuKeyDown_def chooseOption_def menu_open_def
  menu_close_def focus_item_def menu_render_def disabled_effect_def

lemma set_typed_order: "- 1 \<le> current \<Longrightarrow> set (typed_order current n) = {..<n}"
  by (auto simp: typed_order_def)

text \<open>What holds of a menu with these properties; \<open>offered\<close> are the options it was ever given.\<close>

definition menu_ok :: "jsstring set \<Rightarrow> menuProps \<Rightarrow> paneMenu \<Rightarrow> bool" where
  "menu_ok offered props m \<longleftrightarrow> - 1 \<le> pm_focus m \<and> pm_focus m < int (length (mn_options props))
     \<and> (mn_disabled props \<longrightarrow> \<not> pm_open m) \<and> set (pm_chosen m) \<subseteq> offered"

lemma menu_ok_render:
  "- 1 \<le> pm_focus m \<Longrightarrow> set (pm_chosen m) \<subseteq> offered \<Longrightarrow> menu_ok offered props (menu_render props m)"
  by (auto simp: menu_ok_def menu_render_def disabled_effect_def menu_close_def Let_def)

lemma menu_ok_focus:
  "menu_ok offered props m \<Longrightarrow> 0 \<le> i \<Longrightarrow> i < int (length (mn_options props)) \<Longrightarrow> menu_ok offered props (m\<lparr>pm_focus := i\<rparr>)"
  by (simp add: menu_ok_def)

lemma menu_ok_close: "menu_ok offered props m \<Longrightarrow> menu_ok offered props (menu_close m)"
  by (simp add: menu_ok_def menu_close_def)

lemma menu_ok_item: "menu_ok offered props m \<Longrightarrow> menu_ok offered props (focus_item i props m)"
  by (simp add: focus_item_def menu_ok_focus)

lemma menu_ok_key:
  assumes "menu_ok offered props m"
  shows "menu_ok offered props (menuKeyDown lower props key ctrlKey metaKey m)"
proof -
  have "int i < int (length (mn_options props))" if "typed_match lower props key (pm_focus m) = Some i" for i
    using find_Some_set [OF that [unfolded typed_match_def]] assms set_typed_order [of "pm_focus m"]
    by (auto simp: menu_ok_def)
  with assms show ?thesis
    by (auto simp: menuKeyDown_def Let_def menu_ok_close menu_ok_item menu_ok_focus split: option.split)
qed

lemma menu_ok_open:
  "menu_ok offered props m \<Longrightarrow> \<not> mn_disabled props \<Longrightarrow> menu_ok offered props (menu_open props m)"
  by (auto simp: menu_ok_def menu_open_def dest!: index_of_SomeD split: option.split)

lemma menu_ok_step:
  assumes "menu_ok offered props m" "fst ` set (mn_options props) \<subseteq> offered"
  shows "menu_ok offered props (menu_step lower props ev m)"
proof (cases ev)
  case (OptionClicked i)
  have "fst (mn_options props ! i) \<in> offered" if "i < length (mn_options props)" using assms(2) that by auto
  then show ?thesis using assms OptionClicked menu_ok_close [OF assms(1)]
    by (auto simp: menu_step_def chooseOption_def menu_ok_def menu_close_def)
qed (use assms in \<open>auto simp: menu_step_def triggerClick_def triggerKeyDown_def menu_ok_close menu_ok_open menu_ok_key\<close>)

text \<open>
  The pane menus choose only what they offer: in every run, whatever is clicked and typed and however
  the options change, each value given to onChange is the key of an option the menu was given; the focus
  stays inside the options, and a disabled menu is closed.
\<close>
theorem menu_chooses_offered:
  assumes "evs \<noteq> []" "props = fst (last evs)" "m = menu_run lower evs paneMenu_new"
  shows "set (pm_chosen m) \<subseteq> (\<Union>(props, ev)\<in>set evs. fst ` set (mn_options props))
    \<and> - 1 \<le> pm_focus m \<and> pm_focus m < int (length (mn_options props)) \<and> (mn_disabled props \<longrightarrow> \<not> pm_open m)"
proof -
  have "menu_ok offered (fst (last evs)) (menu_run lower evs n)"
    if "evs \<noteq> []" "- 1 \<le> pm_focus n" "set (pm_chosen n) \<subseteq> offered" "\<forall>(props, ev)\<in>set evs. fst ` set (mn_options props) \<subseteq> offered"
    for offered n
    using that
  proof (induction evs arbitrary: n)
    case (Cons e evs)
    obtain props ev where e: "e = (props, ev)" by (cases e)
    have ok: "menu_ok offered props (menu_step lower props ev (menu_render props n))"
      using Cons.prems e by (intro menu_ok_step menu_ok_render) auto
    show ?case
    proof (cases "evs = []")
      case False
      with ok Cons.IH [of "menu_step lower props ev (menu_render props n)"] Cons.prems e show ?thesis
        by (simp add: menu_run_def menu_ok_def)
    qed (use ok e in \<open>simp add: menu_run_def\<close>)
  qed simp
  from this [OF assms(1), of paneMenu_new "\<Union>(props, ev)\<in>set evs. fst ` set (mn_options props)"]
  have "menu_ok (\<Union>(props, ev)\<in>set evs. fst ` set (mn_options props)) props m"
    unfolding assms(2,3) by (auto simp: paneMenu_new_def)
  then show ?thesis by (simp add: menu_ok_def)
qed

theorem menu_chooses_offered_witness:
  "let props = \<lparr>mn_value = js ''go'', mn_options = [(js ''c'', js ''C''), (js ''go'', js ''Go''), (js ''rust'', js ''Rust'')], mn_disabled = False\<rparr>;
       m = menu_run (\<lambda>s. s) [(props, TriggerClicked), (props, MenuKey (js ''R'') False False), (props, OptionClicked 2), (props, TriggerClicked)] paneMenu_new
   in pm_chosen m = [js ''rust''] \<and> pm_focus m = 1 \<and> set (pm_chosen m) \<subseteq> {js ''c'', js ''go'', js ''rust''}"
proof -
  define props where "props = \<lparr>mn_value = js ''go'', mn_options = [(js ''c'', js ''C''), (js ''go'', js ''Go''), (js ''rust'', js ''Rust'')], mn_disabled = False\<rparr>"
  let ?evs = "[(props, TriggerClicked), (props, MenuKey (js ''R'') False False), (props, OptionClicked 2), (props, TriggerClicked)]"
  have "pm_chosen (menu_run (\<lambda>s. s) ?evs paneMenu_new) = [js ''rust''] \<and> pm_focus (menu_run (\<lambda>s. s) ?evs paneMenu_new) = 1"
    by (simp add: menu_run_def paneMenu_new_def menu_defs props_def typed_match_def typed_order_def option_text_def starts_with_def
        js_def upt_rec)
  with menu_chooses_offered [OF _ refl refl, of ?evs "\<lambda>s. s"] show ?thesis
    by (simp add: props_def)
qed

section \<open>The documents of the panes\<close>

definition pane_document :: "liveRoomDocument list \<Rightarrow> jsstring list \<Rightarrow> nat \<Rightarrow> liveRoomDocument option" where
  "pane_document documents paneIDs index =
     (if index < length paneIDs then List.find (\<lambda>item. doc_id item = paneIDs ! index) documents else None)"

definition single_document :: "liveRoomDocument list \<Rightarrow> jsstring \<Rightarrow> liveRoomDocument option" where
  "single_document documents activeDocumentID =
     (case List.find (\<lambda>item. doc_id item = activeDocumentID) documents of
        Some d \<Rightarrow> Some d
      | None \<Rightarrow> (case documents of d # ds \<Rightarrow> Some d | [] \<Rightarrow> None))"

text \<open>A swap exchanges what the two panes show and leaves the others.\<close>

lemma swap_shows:
  assumes "source < length paneIDs" "target < length paneIDs"
  shows "pane_document documents (swap_panes source target paneIDs) index =
    pane_document documents paneIDs (if index = source then target else if index = target then source else index)"
  using assms by (auto simp: pane_document_def swap_panes_def nth_list_update)

end
