(* ===== verification/Live_Room_Controls.thy ===== *)
theory Live_Room_Controls
  imports Live_Tab_Drag Live_Panels Live_Room_Run
begin

text \<open>
  The controls around the editors of a room (\<open>LiveRoomWorkspace\<close> of \<open>web/src/live-room.tsx\<close>): what is
  disabled when, the popover of the participants with its rename field, the export menu, the reset of the
  layout, the expiry of cursor labels. Focus is an effect in the log or an argument of the event.
\<close>

section \<open>What is allowed\<close>

text \<open>\<open>authenticationRequired\<close> is the prop of the page.\<close>

definition room_readOnly :: "bool \<Rightarrow> 'st workspace \<Rightarrow> bool" where
  "room_readOnly authenticationRequired w \<longleftrightarrow>
     authenticationRequired \<or> ws_queueFull w \<or> \<not> ws_localCanEdit w \<or> rv_roomFull (ws_view w) \<or> ws_recovery w \<noteq> None"

definition structuralDisabled :: "bool \<Rightarrow> 'st workspace \<Rightarrow> bool" where
  "structuralDisabled authenticationRequired w \<longleftrightarrow>
     authenticationRequired \<or> ws_connection w \<noteq> Connected \<or> ws_metadataBusy w \<or> ws_resyncing w
     \<or> \<not> ws_localCanEdit w \<or> rv_roomFull (ws_view w) \<or> ws_recovery w \<noteq> None"

definition tabLimitReached :: "('st, 'cs, 'd) roomEnv \<Rightarrow> 'st workspace \<Rightarrow> bool" where
  "tabLimitReached env w \<longleftrightarrow> int (length (ws_shown w)) \<ge> re_maxTabs env"

definition layout_disabled :: "bool \<Rightarrow> 'st workspace \<Rightarrow> bool" where
  "layout_disabled authenticationRequired w \<longleftrightarrow>
     rv_creator (ws_view w) \<and> (ws_connection w \<noteq> Connected \<or> authenticationRequired \<or> ws_resyncing w)"

definition connectionLabel :: "liveConnectionState \<Rightarrow> jsstring" where
  "connectionLabel c = js (case c of
     Connected \<Rightarrow> ''Connected'' | Reconnecting \<Rightarrow> ''Reconnecting'' | Offline \<Rightarrow> ''Offline''
   | Recovery \<Rightarrow> ''Recovery needed'' | Connecting \<Rightarrow> ''Connecting'')"

text \<open>The warning in the lower toolbar; a recovery comes first.\<close>

definition room_warning :: "'st workspace \<Rightarrow> jsstring option" where
  "room_warning w =
     (case ws_recovery w of
        Some notice \<Rightarrow> Some (rn_message notice)
      | None \<Rightarrow>
          if ws_queueFull w then Some (js ''Editor paused while queued changes replay'')
          else if rv_roomFull (ws_view w) then Some (js ''Room is full'')
          else if \<not> ws_localCanEdit w then
            Some (js (if rv_localAccessClass (ws_view w) = CollaboratorAccess \<and> rv_roomWatchOnly (ws_view w)
                      then ''Room locked'' else ''View only''))
          else None)"

text \<open>The buttons that are disabled do nothing.\<close>

definition addTabClicked :: "('st, 'cs, 'd) roomEnv \<Rightarrow> bool \<Rightarrow> 'st workspace \<Rightarrow> 'st workspace" where
  "addTabClicked env auth w =
     (if structuralDisabled auth w \<or> tabLimitReached env w then w else addDocument env None w)"

definition closeTabClicked :: "('st, 'cs, 'd) roomEnv \<Rightarrow> bool \<Rightarrow> jsstring \<Rightarrow> 'st workspace \<Rightarrow> 'st workspace" where
  "closeTabClicked env auth documentID w =
     (if structuralDisabled auth w \<or> length (ws_shown w) \<le> 1 then w else deleteDocument env documentID w)"

definition splitClicked :: "bool \<Rightarrow> 'st workspace \<Rightarrow> 'st workspace" where
  "splitClicked auth w = (if rv_narrowWorkspace (ws_view w) \<or> layout_disabled auth w then w else toggleSplit w)"

definition followCreatorClicked :: "'st workspace \<Rightarrow> 'st workspace" where
  "followCreatorClicked w =
     (if rv_creator (ws_view w) then w
      else update_view (\<lambda>v. v\<lparr>rv_layoutPreference :=
        \<lparr>lp_followCreator = \<not> lp_followCreator (rv_layoutPreference v), lp_preset = currentPreset v\<rparr>\<rparr>) w)"

definition lockClicked :: "'st workspace \<Rightarrow> 'st workspace" where
  "lockClicked w =
     (if rv_creator (ws_view w)
      then fst (room_send (JObj [(js ''type'', JStr (js ''room_watch_only'')), (js ''watch_only'', JBool (\<not> rv_roomWatchOnly (ws_view w)))]) w)
      else w)"

section \<open>Resetting the layout\<close>

definition reset_panes :: "jsstring list \<Rightarrow> jsstring \<Rightarrow> nat \<Rightarrow> jsstring list" where
  "reset_panes next_panes active visible =
     (if active \<in> set (take visible next_panes) then next_panes
      else case index_of active next_panes of
        Some index \<Rightarrow> swap_panes 0 index next_panes
      | None \<Rightarrow> next_panes[0 := active])"

text \<open>The version of the layout, by which the panes forget their sizes, goes with the workspace.\<close>

definition resetLayout :: "'st workspace \<times> nat \<Rightarrow> 'st workspace \<times> nat" where
  "resetLayout wv =
     (let (w, version) = wv
      in (cancelTabRename (w\<lparr>ws_panes := reset_panes (pane_documents (ws_shown w)) (ws_active w) (paneCount (ws_view w))\<rparr>),
          version + 1))"

lemma cancel_rename_frame:
  "paneCount (ws_view (cancelTabRename w)) = paneCount (ws_view w)" "ws_panes (cancelTabRename w) = ws_panes w"
  "ws_active (cancelTabRename w) = ws_active w"
  by (simp_all add: cancelTabRename_def update_view_def paneCount_def panelLayout_def currentPreset_def)

lemma pane_documents_facts:
  "length (pane_documents documents) = 4"
  "set (pane_documents documents) \<subseteq> insert [] (doc_id ` set documents)"
  by (auto simp: pane_documents_def)

lemma filter_pane_documents:
  assumes "\<forall>d\<in>set documents. doc_id d \<noteq> []"
  shows "filter (\<lambda>i. i \<noteq> []) (pane_documents documents) = map doc_id (take 4 documents)"
proof -
  have "pane_documents documents = map doc_id (take 4 documents) @ replicate (4 - length documents) []"
    by (rule nth_equalityI) (auto simp: pane_documents_def nth_append)
  then show ?thesis using assms by (auto simp: filter_id_conv dest: in_set_takeD)
qed

lemma filter_swap_panes:
  assumes "i < length panes" "j < length panes"
  shows "mset (filter P (swap_panes i j panes)) = mset (filter P panes)"
  using swap_panes_facts(1) [OF assms] by simp

text \<open>
  Resetting the layout keeps the active document in sight: whichever documents there are, afterwards
  one of the visible panes shows the active document, there are four panes, no document is shown twice,
  and every pane shows a document of the room or, if the active one is gone, that one, or nothing.
\<close>
theorem reset_layout_shows_active:
  assumes "resetLayout (w, version) = (w', version')" "distinct (map doc_id (ws_shown w))" "\<forall>d\<in>set (ws_shown w). doc_id d \<noteq> []"
    and "0 < paneCount (ws_view w)"
  shows "ws_active w' \<in> set (take (paneCount (ws_view w')) (ws_panes w')) \<and> length (ws_panes w') = 4
    \<and> distinct (filter (\<lambda>i. i \<noteq> []) (ws_panes w'))
    \<and> set (ws_panes w') \<subseteq> {[], ws_active w} \<union> doc_id ` set (ws_shown w) \<and> version' = version + 1"
proof -
  define panes where "panes = pane_documents (ws_shown w)"
  define n where "n = paneCount (ws_view w)"
  define panes' where "panes' = reset_panes panes (ws_active w) n"
  have len: "length panes = 4" and docs: "set panes \<subseteq> insert [] (doc_id ` set (ws_shown w))"
    using pane_documents_facts by (auto simp: panes_def)
  have dist: "distinct (filter (\<lambda>i. i \<noteq> []) panes)"
    unfolding panes_def filter_pane_documents [OF assms(3)] using assms(2) by (metis distinct_take take_map)
  have n: "0 < n" using assms(4) by (simp add: n_def)
  obtain a as where panes: "panes = a # as" using len by (cases panes) auto
  have "ws_active w \<in> set (take n panes') \<and> length panes' = 4 \<and> distinct (filter (\<lambda>i. i \<noteq> []) panes')
      \<and> set panes' \<subseteq> insert (ws_active w) (set panes)"
  proof (cases "ws_active w \<in> set (take n panes)")
    case True
    then show ?thesis using len dist by (auto simp: panes'_def reset_panes_def)
  next
    case False
    show ?thesis
    proof (cases "index_of (ws_active w) panes")
      case None
      then have "ws_active w \<notin> set as" unfolding index_of_None by (simp add: panes)
      have "panes' = panes[0 := ws_active w]" using False by (simp add: panes'_def reset_panes_def None del: index_of_None)
      then have "panes' = ws_active w # as" by (simp add: panes)
      then show ?thesis using \<open>ws_active w \<notin> set as\<close> len dist n by (auto simp: panes take_Cons' split: if_splits)
    next
      case (Some i)
      from index_of_SomeD [OF Some] have i: "i < length panes" "panes ! i = ws_active w" by simp_all
      have eq: "panes' = swap_panes 0 i panes" using False Some by (simp add: panes'_def reset_panes_def)
      have "0 < length panes" by (simp add: panes)
      note facts = swap_panes_facts [OF this i(1)] filter_swap_panes [OF this i(1), of "\<lambda>i. i \<noteq> []"]
      have "panes' ! 0 = ws_active w" using i by (cases i) (simp_all add: eq swap_panes_def panes)
      then have "ws_active w \<in> set (take n panes')"
        using n facts(2) len eq by (metis in_set_conv_nth length_take min_less_iff_conj nth_take zero_less_numeral)
      moreover have "distinct (filter (\<lambda>i. i \<noteq> []) panes')"
        using dist facts(3) unfolding eq by (metis mset_eq_imp_distinct_iff)
      moreover have "set panes' = set panes" using facts(1) unfolding eq by (metis set_mset_mset)
      ultimately show ?thesis using facts(2) len eq by auto
    qed
  qed
  moreover have "w' = cancelTabRename (w\<lparr>ws_panes := panes'\<rparr>)" "version' = version + 1"
    using assms(1) by (auto simp: resetLayout_def panes'_def panes_def n_def)
  ultimately show ?thesis using docs
    by (auto simp: cancel_rename_frame n_def)
qed

definition demo_five :: "plainEditor workspace" where
  "demo_five = (workspace_new demo_room True (roomView_new (\<lambda>s. None) 0 False None demo_env) loading_new)
     \<lparr>ws_shown := map (\<lambda>c. demo_document\<lparr>doc_id := js [c]\<rparr>) ''abcde'', ws_active := js ''e''\<rparr>"

theorem reset_layout_shows_active_witness:
  "ws_panes (fst (resetLayout (demo_five, 0))) = [js ''e'', js ''b'', js ''c'', js ''d'']
   \<and> ws_active (fst (resetLayout (demo_five, 0))) \<in> set (take 2 (ws_panes (fst (resetLayout (demo_five, 0)))))"
proof -
  have facts: "distinct (map doc_id (ws_shown demo_five))" "\<forall>d\<in>set (ws_shown demo_five). doc_id d \<noteq> []" "paneCount (ws_view demo_five) = 2"
    by (simp_all add: demo_five_def demo_document_def workspace_new_def paneCount_def panelLayout_def currentPreset_def roomView_new_def
        default_layout_def livePanelLayouts_def)
  moreover have "paneCount (ws_view (fst (resetLayout (demo_five, 0)))) = 2"
    using facts(3) by (simp add: resetLayout_def cancel_rename_frame)
  moreover have "ws_panes (fst (resetLayout (demo_five, 0))) = [js ''e'', js ''b'', js ''c'', js ''d'']"
    using facts(3) by (simp add: resetLayout_def cancel_rename_frame reset_panes_def)
      (simp add: demo_five_def workspace_new_def pane_documents_def demo_document_def upt_rec)
  ultimately show ?thesis
    using reset_layout_shows_active [OF prod.collapse [symmetric], of demo_five 0] by simp
qed

section \<open>The popover of the participants\<close>

text \<open>
  \<open>pp_hoverClose\<close> is the timer the component remembers; \<open>pp_timers\<close> are the timers that are set and
  not cleared. \<open>pp_focused\<close> counts how often the trigger got the focus back.
\<close>

record participantPopover =
  pp_open :: bool
  pp_renameOpen :: bool
  pp_renameValue :: jsstring
  pp_hoverClose :: "nat option"
  pp_timers :: "nat list"
  pp_nextTimer :: nat
  pp_focused :: nat

definition participantPopover_new :: participantPopover where
  "participantPopover_new = \<lparr>pp_open = False, pp_renameOpen = False, pp_renameValue = [], pp_hoverClose = None,
     pp_timers = [], pp_nextTimer = 0, pp_focused = 0\<rparr>"

definition clear_hover :: "participantPopover \<Rightarrow> participantPopover" where
  "clear_hover p = (case pp_hoverClose p of
     None \<Rightarrow> p
   | Some t \<Rightarrow> p\<lparr>pp_timers := removeAll t (pp_timers p), pp_hoverClose := None\<rparr>)"

definition openParticipantPopover :: "participantPopover \<Rightarrow> participantPopover" where
  "openParticipantPopover p = (clear_hover p)\<lparr>pp_open := True\<rparr>"

definition beginParticipantRename :: "jsstring \<Rightarrow> participantPopover \<Rightarrow> participantPopover" where
  "beginParticipantRename nickname p = p\<lparr>pp_renameValue := nickname, pp_renameOpen := True\<rparr>"

definition cancelParticipantRename :: "participantPopover \<Rightarrow> participantPopover" where
  "cancelParticipantRename p = p\<lparr>pp_renameOpen := False, pp_renameValue := []\<rparr>"

definition local_nickname :: "'st workspace \<Rightarrow> jsstring option" where
  "local_nickname w = map_option pt_nickname
     (List.find (\<lambda>p. pt_id p = rv_localParticipantID (ws_view w)) (rv_participants (ws_view w)))"

definition rename_message :: "jsstring \<Rightarrow> jsval" where
  "rename_message nickname = JObj [(js ''type'', JStr (js ''participant_rename'')), (js ''name'', JStr nickname)]"

definition submitParticipantRename ::
  "participantPopover \<times> 'st workspace \<Rightarrow> participantPopover \<times> 'st workspace" where
  "submitParticipantRename pw =
     (let (p, w) = pw; nickname = trim (pp_renameValue p); currentNickname = local_nickname w; p = cancelParticipantRename p
      in if nickname = [] then (p, room_status (js ''Participant name cannot be empty'') w)
         else if Some nickname = currentNickname then (p, w)
         else (p, fst (room_send (rename_message nickname) w)))"

text \<open>Closing takes the focus from the rename field, which submits it.\<close>

definition closeParticipantPopover ::
  "bool \<Rightarrow> participantPopover \<times> 'st workspace \<Rightarrow> participantPopover \<times> 'st workspace" where
  "closeParticipantPopover restoreFocus pw =
     (let (p, w) = pw; p = clear_hover p;
          (p, w) = (if pp_renameOpen p then submitParticipantRename (p, w) else (p, w));
          p = p\<lparr>pp_renameOpen := False, pp_open := False\<rparr>
      in (if restoreFocus then p\<lparr>pp_focused := pp_focused p + 1\<rparr> else p, w))"

definition scheduleParticipantPopoverClose :: "participantPopover \<Rightarrow> participantPopover" where
  "scheduleParticipantPopoverClose p =
     (let p = (case pp_hoverClose p of None \<Rightarrow> p | Some t \<Rightarrow> p\<lparr>pp_timers := removeAll t (pp_timers p)\<rparr>);
          t = pp_nextTimer p
      in p\<lparr>pp_hoverClose := Some t, pp_timers := pp_timers p @ [t], pp_nextTimer := t + 1\<rparr>)"

definition hoverFired :: "nat \<Rightarrow> participantPopover \<times> 'st workspace \<Rightarrow> participantPopover \<times> 'st workspace" where
  "hoverFired t pw =
     (let (p, w) = pw
      in if t \<notin> set (pp_timers p) then pw
         else closeParticipantPopover False (p\<lparr>pp_timers := removeAll t (pp_timers p), pp_hoverClose := None\<rparr>, w))"

text \<open>The events; Escape in the rename field stops there, elsewhere it closes an open popover.\<close>

datatype popoverEvent =
    PopoverEntered
  | PopoverLeft
  | PopoverFocused
  | PopoverBlurred bool
  | PopoverPressedOutside
  | PopoverEscape
  | HoverFired nat
  | RenameBegun jsstring
  | RenameTyped jsstring
  | RenameSubmitted
  | RenameEscape

definition popover_step ::
  "popoverEvent \<Rightarrow> participantPopover \<times> 'st workspace \<Rightarrow> participantPopover \<times> 'st workspace" where
  "popover_step ev pw = (let (p, w) = pw in case ev of
     PopoverEntered \<Rightarrow> (openParticipantPopover p, w)
   | PopoverLeft \<Rightarrow> (scheduleParticipantPopoverClose p, w)
   | PopoverFocused \<Rightarrow> (openParticipantPopover p, w)
   | PopoverBlurred inside \<Rightarrow> (if inside then (p, w) else closeParticipantPopover False (p, w))
   | PopoverPressedOutside \<Rightarrow> (if pp_open p then closeParticipantPopover False (p, w) else (p, w))
   | PopoverEscape \<Rightarrow> (if pp_open p then closeParticipantPopover True (p, w) else (p, w))
   | HoverFired t \<Rightarrow> hoverFired t (p, w)
   | RenameBegun nickname \<Rightarrow> (if pp_open p then beginParticipantRename nickname p else p, w)
   | RenameTyped nickname \<Rightarrow> (if pp_renameOpen p then p\<lparr>pp_renameValue := nickname\<rparr> else p, w)
   | RenameSubmitted \<Rightarrow> (if pp_renameOpen p then submitParticipantRename (p, w) else (p, w))
   | RenameEscape \<Rightarrow> (if pp_renameOpen p then cancelParticipantRename p else p, w))"

definition popover_run ::
  "popoverEvent list \<Rightarrow> participantPopover \<times> 'st workspace \<Rightarrow> participantPopover \<times> 'st workspace" where
  "popover_run evs pw = fold popover_step evs pw"

text \<open>The only timer that can fire is the one the component remembers, and a name is edited in an open popover only.\<close>

definition popover_ok :: "participantPopover \<Rightarrow> bool" where
  "popover_ok p \<longleftrightarrow> pp_timers p = (case pp_hoverClose p of None \<Rightarrow> [] | Some t \<Rightarrow> [t]) \<and> (pp_renameOpen p \<longrightarrow> pp_open p)
     \<and> (\<forall>t\<in>set (pp_timers p). t < pp_nextTimer p)"

lemma popover_ok_clear:
  "popover_ok p \<Longrightarrow> pp_timers (clear_hover p) = [] \<and> pp_hoverClose (clear_hover p) = None
    \<and> pp_open (clear_hover p) = pp_open p \<and> pp_renameOpen (clear_hover p) = pp_renameOpen p \<and> pp_nextTimer (clear_hover p) = pp_nextTimer p"
  by (auto simp: popover_ok_def clear_hover_def split: option.split)

lemma submit_popover: "fst (submitParticipantRename (p, w)) = cancelParticipantRename p"
  by (simp add: submitParticipantRename_def Let_def)

lemma close_popover:
  assumes "popover_ok p"
  shows "popover_ok (fst (closeParticipantPopover restoreFocus (p, w)))"
    "\<not> pp_open (fst (closeParticipantPopover restoreFocus (p, w)))"
    "pp_timers (fst (closeParticipantPopover restoreFocus (p, w))) = []"
proof -
  obtain q v where q: "(if pp_renameOpen (clear_hover p) then submitParticipantRename (clear_hover p, w) else (clear_hover p, w)) = (q, v)"
    by fastforce
  then have "q = (if pp_renameOpen (clear_hover p) then cancelParticipantRename (clear_hover p) else clear_hover p)"
    using submit_popover [of "clear_hover p" w] by (auto split: if_splits)
  then have "pp_timers q = []" "pp_hoverClose q = None" using popover_ok_clear [OF assms] by (auto simp: cancelParticipantRename_def)
  then show "popover_ok (fst (closeParticipantPopover restoreFocus (p, w)))"
    "\<not> pp_open (fst (closeParticipantPopover restoreFocus (p, w)))"
    "pp_timers (fst (closeParticipantPopover restoreFocus (p, w))) = []"
    using q by (auto simp: closeParticipantPopover_def Let_def popover_ok_def)
qed

lemma popover_ok_step:
  assumes "popover_ok p"
  shows "popover_ok (fst (popover_step ev (p, w)))"
proof (cases ev)
  case (HoverFired t)
  have "popover_ok (p\<lparr>pp_timers := removeAll t (pp_timers p), pp_hoverClose := None\<rparr>)" if "t \<in> set (pp_timers p)"
    using assms that by (auto simp: popover_ok_def split: option.splits)
  then show ?thesis using HoverFired assms close_popover(1)
    by (auto simp: popover_step_def hoverFired_def)
next
  case PopoverLeft
  then show ?thesis using assms
    by (auto simp: popover_step_def scheduleParticipantPopoverClose_def popover_ok_def Let_def split: option.splits)
next
  case PopoverEntered
  then show ?thesis using popover_ok_clear [OF assms] by (simp add: popover_step_def openParticipantPopover_def popover_ok_def)
next
  case PopoverFocused
  then show ?thesis using popover_ok_clear [OF assms] by (simp add: popover_step_def openParticipantPopover_def popover_ok_def)
next
  case RenameSubmitted
  then show ?thesis using assms by (simp add: popover_step_def submit_popover) (simp add: cancelParticipantRename_def popover_ok_def)
qed (use assms close_popover(1) [OF assms] in \<open>auto simp: popover_step_def beginParticipantRename_def cancelParticipantRename_def
  popover_ok_def\<close>)

text \<open>
  The popover of the participants does not close under the pointer: in every run at most one timer to
  close it is pending, and once the pointer or the focus is back in it no timer that was set before closes
  it; a name is edited only while it is open, and closing it, by whatever way, leaves no timer.
\<close>
theorem popover_timer_safe:
  fixes w :: "'st workspace" and evs :: "popoverEvent list"
  defines "p \<equiv> fst (popover_run evs (participantPopover_new, w))"
  shows "length (pp_timers p) \<le> 1 \<and> (pp_renameOpen p \<longrightarrow> pp_open p)
    \<and> (\<forall>back\<in>{PopoverEntered, PopoverFocused}. \<forall>v :: 'st workspace. \<forall>t < pp_nextTimer p.
         popover_step (HoverFired t) (popover_step back (p, v)) = popover_step back (p, v)
         \<and> pp_open (fst (popover_step back (p, v))))
    \<and> (\<forall>restoreFocus. \<forall>v :: 'st workspace. pp_timers (fst (closeParticipantPopover restoreFocus (p, v))) = [])"
proof -
  have "popover_ok (fst (popover_run evs (participantPopover_new, w)))"
    unfolding popover_run_def
    by (rule fold_invariant [where Q = "\<lambda>_. True" and P = "\<lambda>pw. popover_ok (fst pw)"])
      (auto simp: popover_ok_step, simp add: popover_ok_def participantPopover_new_def)
  then have ok: "popover_ok p" by (simp add: p_def)
  then have "length (pp_timers p) \<le> 1" "pp_renameOpen p \<longrightarrow> pp_open p" by (auto simp: popover_ok_def split: option.splits)
  moreover have "pp_timers (openParticipantPopover p) = []" using popover_ok_clear [OF ok] by (simp add: openParticipantPopover_def)
  ultimately show ?thesis
    using close_popover(3) [OF ok] by (auto simp: popover_step_def hoverFired_def) (simp_all add: openParticipantPopover_def)
qed

section \<open>The export menu and the cursor labels\<close>

text \<open>The menu opens with its first item; \<open>None\<close> is a closed menu, and it has two items.\<close>

definition exportMenuKeyDown :: "jsstring \<Rightarrow> int option \<Rightarrow> int option" where
  "exportMenuKeyDown key menu = (case menu of
     None \<Rightarrow> None
   | Some current \<Rightarrow>
       if key = js ''Escape'' then None
       else case nextLiveMenuItemIndex current 2 key of None \<Rightarrow> menu | next_index \<Rightarrow> next_index)"

definition exportToggled :: "int option \<Rightarrow> int option" where
  "exportToggled menu = (case menu of None \<Rightarrow> Some 0 | Some current \<Rightarrow> None)"

lemma export_menu_items:
  "menu = Some i \<Longrightarrow> 0 \<le> i \<and> i < 2 \<Longrightarrow> exportMenuKeyDown key menu = Some j \<Longrightarrow> 0 \<le> j \<and> j < 2"
  by (auto simp: exportMenuKeyDown_def nextLiveMenuItemIndex_def split: if_splits)

text \<open>The timer that renders the cursor labels again: its delay, if one is set.\<close>

definition visible_documents :: "'st workspace \<Rightarrow> jsstring list" where
  "visible_documents w =
     (if room_split (ws_view w) then take (paneCount (ws_view w)) (ws_panes w)
      else case shown_active w of Some d \<Rightarrow> [doc_id d] | None \<Rightarrow> [[]])"

definition label_delay :: "(jsstring \<Rightarrow> int option) \<Rightarrow> int \<Rightarrow> 'st workspace \<Rightarrow> int option" where
  "label_delay date_parse now w =
     (let expiries = List.map_filter (\<lambda>i. nextLiveRemoteCursorLabelExpiry date_parse (rv_participants (ws_view w))
            (rv_localParticipantID (ws_view w)) i now) (visible_documents w)
      in if expiries = [] then None else Some (max 0 (Min (set expiries) - now) + 1))"

theorem popover_timer_safe_witness:
  "let p = fst (popover_run [PopoverEntered, PopoverLeft] (participantPopover_new, demo_five))
   in pp_timers p = [0] \<and> length (pp_timers p) \<le> 1
     \<and> popover_step (HoverFired 0) (popover_step PopoverEntered (p, demo_five)) = popover_step PopoverEntered (p, demo_five)"
proof -
  define p where "p = fst (popover_run [PopoverEntered, PopoverLeft] (participantPopover_new, demo_five))"
  have timers: "pp_timers p = [0]" "pp_nextTimer p = 1"
    by (simp_all add: p_def popover_run_def popover_step_def participantPopover_new_def openParticipantPopover_def clear_hover_def
        scheduleParticipantPopoverClose_def Let_def)
  from popover_timer_safe [of "[PopoverEntered, PopoverLeft]" demo_five, folded p_def]
  have "\<forall>v :: plainEditor workspace. \<forall>t < pp_nextTimer p. popover_step (HoverFired t) (popover_step PopoverEntered (p, v)) = popover_step PopoverEntered (p, v)"
    and "length (pp_timers p) \<le> 1" by blast+
  then show ?thesis using timers by (simp add: p_def [symmetric])
qed

end
