(* ===== verification/Spec2Isabelle.thy ===== *)
theory Spec2Isabelle
  imports Live_Reconciliation Live_Operations Live_Resync Live_Connection Crypto Live_API
    Live_Room_UI Live_Identity Loading Live_Room_Safety Live_Room_Session Drafts Routing
    App_Page Live_Views Live_Room_Controls
begin

text \<open>
  Verification of the browser client of 0xbin (the TypeScript sources in \<open>web/src\<close>).

  \<^bold>\<open>The program.\<close> 0xbin is a pastebin. A paste is created (\<open>CreationCanvas\<close>), optionally encrypted in the
  browser with the key kept in the fragment of its link, and read (\<open>PasteViewer\<close>), possibly once only.
  A live room is a set of documents that several browsers edit together: the page loads the room over HTTP and unlocks it
  (\<open>LiveRoomPage\<close>), then the workspace (\<open>LiveRoomWorkspace\<close>) keeps a WebSocket, receives changes,
  pushes its own, and asks for a snapshot of the room whenever what arrives does not continue what it has. The
  server is written in Go and is the environment of this development, as are React, CodeMirror and the browser.

  \<^bold>\<open>Theories and sources.\<close>

  \<^item> Foundations. \<open>Prelude\<close> (strings of UTF-16 code units, exceptions as sums, \<open>Map\<close> as association list),
    \<open>Js_Values\<close> (untyped values, numbers), \<open>Json\<close> (\<open>JSON.parse\<close> and \<open>JSON.stringify\<close>), \<open>Utf8\<close> (\<open>TextEncoder\<close>,
    \<open>TextDecoder\<close>), \<open>Timers\<close>, \<open>Browser_Storage\<close>, \<open>Http\<close> (\<open>fetch\<close> and what both API clients share),
    \<open>Pending_Tasks\<close> (promises a component waits for).
  \<^item> Pastes. \<open>Crypto\<close> (\<open>crypto.ts\<close>), \<open>Drafts\<close> (\<open>create.ts\<close>, \<open>live.ts\<close>), \<open>Paste_API\<close> (\<open>api.ts\<close>), \<open>Routing\<close>
    (\<open>router.ts\<close>, \<open>hosted.ts\<close>, \<open>theme.ts\<close>, \<open>search.ts\<close>), \<open>Loading\<close> (\<open>loading.ts\<close>), \<open>Editor_Controls\<close> (\<open>editor-history.ts\<close>,
    \<open>languages.ts\<close>, the menus of \<open>editor.tsx\<close> and \<open>policies.tsx\<close>), \<open>Paste_Viewer\<close>, \<open>Paste_Create\<close> and \<open>App_Shell\<close>
    (the states of \<open>App.tsx\<close>, \<open>share-url.ts\<close>).
  \<^item> Markup. \<open>Markup\<close> (what a component renders: elements, their attributes and listeners, what they offer and what is
    said of them; the icons and small components of \<open>App.tsx\<close>), \<open>Paste_Page\<close> (the screens of \<open>PasteViewer\<close> and the read-only
    editor), \<open>Policies\<close> (\<open>policies.tsx\<close>), \<open>Editor_Markup\<close> (\<open>LanguageMenu\<close> and \<open>CodeEditor\<close> of \<open>editor.tsx\<close>), \<open>App_Page\<close> (the
    markup of \<open>CreationCanvas\<close> and \<open>App\<close>, and the composition of the shell with the pages it mounts, leaves and hears
    from), \<open>Live_Views\<close> (the markup of \<open>live-page.tsx\<close>).
  \<^item> Live rooms, the parts. \<open>Live_Wire\<close> (\<open>live-wire.ts\<close>), \<open>Live_API\<close> (\<open>live-api.ts\<close>), \<open>Live_Identity\<close>
    (\<open>live-identity.ts\<close>), \<open>Live_Layout\<close> (\<open>live-layout.ts\<close>), \<open>Live_Operations\<close> (\<open>live-operations.ts\<close>),
    \<open>Live_Reconciliation\<close> (\<open>live-reconciliation.ts\<close>), \<open>Live_Connection\<close> (\<open>live-connection.ts\<close>), \<open>Live_Resync\<close>
    (\<open>live-resync.ts\<close>), \<open>Live_Collab\<close> (\<open>live-collab.ts\<close>), \<open>Live_Room_UI\<close> (\<open>live-room-ui.ts\<close>), \<open>Live_Editor\<close>
    (\<open>live-editor.tsx\<close>), \<open>Change_Sets\<close> (the change sets of \<open>internal/livecollab/changes.go\<close>).
  \<^item> Live rooms, the whole. \<open>Live_Page\<close> (\<open>live-page.tsx\<close>); \<open>Live_Workspace\<close> (state and document operations of
    \<open>live-room.tsx\<close>), \<open>Live_Room\<close> (its events, sending, the user's operations and the wiring of the
    controllers), \<open>Live_Tab_Drag\<close> and \<open>Live_Room_Controls\<close> (the strip of tabs, popovers and menus of
    \<open>live-room.tsx\<close>), \<open>Live_Panels\<close> (\<open>live-panels.tsx\<close>). \<open>Live_Room_Sync\<close>, \<open>Live_Room_Run\<close>, \<open>Live_Room_Session\<close> and
    \<open>Live_Room_Safety\<close> hold the proofs about the room as a whole.

  \<^bold>\<open>How state and operations correspond.\<close> A class or component is a record with one field for each of its variables, refs
  and React states; a method, handler or effect is a function on that record that takes what the browser answers
  (times, random bytes, rectangles, storage, the results of requests) as arguments. Calls that leave a component (callbacks,
  the socket, the loading bar) are appended to a log or are run on the state of the component they call.
  A promise is a pending task or a recorded request whose end is a step of its own, so every order in which
  promises settle is covered. Timers are pending until they fire or are cleared, in any order. An exception is \<open>Inl\<close>
  or None; where the source does not catch it, a flag records it. A run is a fold of steps or an inductive
  reachability relation, with events in any order unless stated.

  \<^bold>\<open>What the lemmas show.\<close>

  \<^item> Collaboration. \<open>room_reach\<close> interleaves the steps of a room with those of the server, whose record of
    texts and updates grows. In every reachable state the editor shows the server's text with
    exactly the pending edits applied, and the parts of the room fit together
    (\<open>Live_Room_Session\<close>); recovery is final, a flush sends only first pending updates, panes are refilled
    without moving a document (\<open>Live_Room_Safety\<close>); the snapshot test refines an order on authorities
    (\<open>Live_Reconciliation\<close>); snapshot updates lead to the snapshot and an accepted update is not replayed (\<open>Live_Collab\<close>).
  \<^item> The controllers. A resynchronisation always ends and replays what it buffered once and in order (\<open>Live_Resync\<close>); at most one
    reconnect timer is pending, stopping is final, old sockets are inert, reconnecting ends (\<open>Live_Connection\<close>); an
    operation is settled once and sent once per connection (\<open>Live_Operations\<close>).
  \<^item> Pages. The paste page and the room page show what their address names and never a late answer; a paste is consumed at most once per
    confirmation (\<open>Paste_Viewer\<close>, \<open>Live_Page\<close>); what is created is valid, arrives, and reveals nothing but
    ciphertext when it is encrypted (\<open>Paste_Create\<close>); notifications last their duration (\<open>App_Shell\<close>).
  \<^item> The application. What the paste page renders shows the paste of the address and offers exactly the operations whose guards
    hold (\<open>Paste_Page\<close>); \<open>page_reach\<close> interleaves what the rendered page offers with answers, timers, the history of the
    browser and promises of pages that were left: the bar is away exactly while a key is asked for, a created paste is
    shown to its creator, every page is complete and labelled (\<open>App_Page\<close>); nothing of a room is seen or used while
    its password is asked for (\<open>Live_Views\<close>).
  \<^item> Data. Round trips of encryption, wire events, JSON, UTF-8, share links and stored preferences; types and bounds of
    everything that is decoded; faithfulness of reported errors.
  \<^item> Interaction. Tabs land where they are dropped, a pane drag swaps once, menus stay inside their panes, undo groups are
    cut where the user changes between typing and deleting.

  \<^bold>\<open>Interfaces.\<close> Locales state what one part relies on of another, and are interpreted on the model:
  \<open>key_value_store\<close> (storage), \<open>timer_service\<close> and \<open>timer_history\<close> (timers), \<open>change_sets\<close> and \<open>change_positions\<close> (change
  sets, interpreted on the repository's own format), \<open>keyed_log\<close> (the operation tracker),
  \<open>advancing_authority\<close> (snapshots), \<open>resync_world\<close> (what a resynchronisation keeps of the room it serves; interpreted on the callbacks of the
  component), \<open>document_sync\<close> (the contract of an editor with its synchronised text), \<open>editor_versions\<close> and \<open>editor_texts\<close> (what
  \<open>@codemirror/collab\<close> documents), \<open>room_session\<close> (a room with a truthful record; a sublocale of \<open>document_sync\<close>).

  \<^bold>\<open>Parameters.\<close> Code that is not in the repository is an argument: CodeMirror's states and change sets
  (\<open>editorAPI\<close>, \<open>changeSetAPI\<close>), AES-GCM, URL parsing, \<open>Date.parse\<close> and \<open>toISOString\<close>, \<open>fetch\<close>, locks, random bytes, the clock,
  the geometry of the page, the identifiers React generates, \<open>toLocaleLowerCase\<close>. What is relied on is stated as named laws
  (\<open>aead_laws\<close>, \<open>url_laws\<close>, \<open>location_laws\<close>, \<open>editor_laws\<close>), and concrete functions show that the laws can hold.

  \<^bold>\<open>Bounds and fuel.\<close> The JSON parser and the search in a paste carry fuel by the length of
  their input, which is shown to be enough; all other recursion terminates by its measure. Strings are lists of
  16-bit words and bytes are 8-bit words. Numbers are integers or rationals where the source has doubles; they
  agree up to the safe integers, which the sources check at their borders. The findings list where they do not.

  \<^bold>\<open>Not modelled.\<close> The Go server (its answers are arguments and events), CSS, the drawing of cursors and the other widgets
  CodeMirror mounts, the markup of the workspace of a room and of its panels, the mounting of React, build scripts, fixtures and
  end-to-end tests: they hold no logic of the client, or consist of calls to packages.
\<close>

end
